(* ===== verification/Go_Prelude.thy ===== *)
theory Go_Prelude
  imports Main "HOL-Library.Sublist" "HOL-Library.AList" "HOL-Library.Multiset"
begin

text \<open>
  Shared vocabulary of the development: the parts of Go's language and standard library that the
  modelled sources use.

  \<^item> A Go \<^verbatim>\<open>string\<close> or \<^verbatim>\<open>[]byte\<close> is a \<^typ>\<open>string\<close>: a HOL character is one byte, so
    \<^const>\<open>length\<close> is Go's \<^verbatim>\<open>len\<close>.  UTF-8 decoding, \<^verbatim>\<open>strings.TrimSpace\<close> and the ASCII fast path
    of \<^verbatim>\<open>strings.ToLower\<close> are modelled on bytes.
  \<^item> A \<^verbatim>\<open>time.Time\<close> is the number of nanoseconds since Go's zero time, so \<^verbatim>\<open>t.IsZero()\<close> is
    \<open>t = 0\<close>; a \<^verbatim>\<open>time.Duration\<close> is a number of nanoseconds; \<open>time_sub\<close> saturates at the range of
    \<^verbatim>\<open>int64\<close>, as \<^verbatim>\<open>Time.Sub\<close> does.
  \<^item> A Go \<^verbatim>\<open>map\<close> that the code iterates over is an association list in iteration order.

  The collections \<open>go_simps\<close> and \<open>go_defs\<close> gather the rewrite rules and the definitions that the
  component proofs share.
\<close>

named_theorems go_simps \<open>rewrite rules of the Go vocabulary\<close>
named_theorems go_defs \<open>definitions of the Go vocabulary that evaluation unfolds\<close>

type_synonym gtime = int
type_synonym duration = int
type_synonym int64 = int

lemma option_eqI: "(\<And>x. a = Some x \<longleftrightarrow> b = Some x) \<Longrightarrow> a = b"
  by (metis not_None_eq)

section \<open>Time\<close>

definition zero_time :: gtime where
  "zero_time = 0"

abbreviation IsZero :: "gtime \<Rightarrow> bool" where
  "IsZero t \<equiv> t = zero_time"

definition min_duration :: duration where
  "min_duration = - (2 ^ 63)"

definition max_duration :: duration where
  "max_duration = 2 ^ 63 - 1"

text \<open>\<^verbatim>\<open>Time.Sub\<close>: the difference, saturated at the range of \<^verbatim>\<open>Duration\<close>.\<close>

definition time_sub :: "gtime \<Rightarrow> gtime \<Rightarrow> duration" where
  "time_sub t u = max min_duration (min max_duration (t - u))"

definition millisecond :: duration where
  "millisecond = 1000000"

definition second :: duration where
  "second = 1000000000"

definition minute :: duration where
  "minute = 60 * second"

definition hour :: duration where
  "hour = 60 * minute"

lemmas time_consts [go_defs] =
  zero_time_def millisecond_def second_def minute_def hour_def

lemma time_sub_in_range:
  "min_duration \<le> t - u \<Longrightarrow> t - u \<le> max_duration \<Longrightarrow> time_sub t u = t - u"
  by (simp add: time_sub_def)

lemma time_sub_nonneg_iff [go_simps]: "0 \<le> time_sub t u \<longleftrightarrow> u \<le> t"
  by (auto simp: time_sub_def min_duration_def max_duration_def)

lemma time_sub_pos_iff [go_simps]: "0 < time_sub t u \<longleftrightarrow> u < t"
  by (auto simp: time_sub_def min_duration_def max_duration_def)

text \<open>For a bound inside the range of \<^verbatim>\<open>Duration\<close>, comparing the saturated difference with the
  bound is comparing the exact one.\<close>

lemma time_sub_less_iff [go_simps]:
  "0 \<le> d \<Longrightarrow> d \<le> max_duration \<Longrightarrow> time_sub t u < d \<longleftrightarrow> t - u < d"
  by (auto simp: time_sub_def min_duration_def max_duration_def)

lemma time_sub_greater_iff [go_simps]:
  "0 \<le> d \<Longrightarrow> d < max_duration \<Longrightarrow> d < time_sub t u \<longleftrightarrow> d < t - u"
  by (auto simp: time_sub_def min_duration_def max_duration_def)

section \<open>Bytes and ASCII case\<close>

abbreviation byte :: "char \<Rightarrow> nat" where
  "byte c \<equiv> of_char c"

definition is_ascii :: "string \<Rightarrow> bool" where
  "is_ascii s = list_all (\<lambda>c. byte c < 128) s"

definition ascii_lower :: "char \<Rightarrow> char" where
  "ascii_lower c = (if 65 \<le> byte c \<and> byte c \<le> 90 then char_of (byte c + 32) else c)"

definition ascii_upper :: "char \<Rightarrow> char" where
  "ascii_upper c = (if 97 \<le> byte c \<and> byte c \<le> 122 then char_of (byte c - 32) else c)"

text \<open>
  \<^verbatim>\<open>strings.ToLower\<close>: an ASCII string is mapped byte by byte; any other string goes through
  Unicode's case tables, which are the argument \<open>ucase\<close>.
\<close>

definition ToLower :: "(string \<Rightarrow> string) \<Rightarrow> string \<Rightarrow> string" where
  "ToLower ucase s = (if is_ascii s then map ascii_lower s else ucase s)"

definition ToUpper :: "(string \<Rightarrow> string) \<Rightarrow> string \<Rightarrow> string" where
  "ToUpper ucase s = (if is_ascii s then map ascii_upper s else ucase s)"

lemma byte_less_256: "byte c < 256"
  by simp

lemma byte_char_of [simp]: "n < 256 \<Longrightarrow> byte (char_of n) = n"
  by simp

lemma byte_inject: "byte c = byte d \<longleftrightarrow> c = d"
  by (rule of_char_eq_iff)

lemma ascii_lower_idem [simp]: "ascii_lower (ascii_lower c) = ascii_lower c"
  by (auto simp: ascii_lower_def)

lemma map_ascii_lower_idem [simp]: "map (ascii_lower \<circ> ascii_lower) s = map ascii_lower s"
  by simp

lemma is_ascii_lower: "is_ascii s \<Longrightarrow> is_ascii (map ascii_lower s)"
  by (auto simp: is_ascii_def list_all_iff ascii_lower_def)

lemma ToLower_ascii: "is_ascii s \<Longrightarrow> ToLower u s = map ascii_lower s"
  by (simp add: ToLower_def)

lemma ToLower_idem_ascii: "is_ascii s \<Longrightarrow> ToLower u (ToLower u s) = ToLower u s"
  by (simp add: ToLower_def is_ascii_lower)

section \<open>Trimming\<close>

text \<open>
  \<open>trim_prefixes es s\<close> drops a prefix of \<open>s\<close> that is in \<open>es\<close>, again and again.  With the UTF-8
  encodings of Unicode's white space it is the left half of \<^verbatim>\<open>strings.TrimSpace\<close>; on reversed
  strings it is the right half.
\<close>

definition first_prefix :: "string list \<Rightarrow> string \<Rightarrow> string option" where
  "first_prefix es s = find (\<lambda>e. e \<noteq> [] \<and> prefix e s) es"

lemma first_prefix_None: "first_prefix es s = None \<longleftrightarrow> (\<forall>e \<in> set es. e = [] \<or> \<not> prefix e s)"
  by (auto simp: first_prefix_def find_None_iff)

lemma first_prefix_Some:
  assumes "first_prefix es s = Some e"
  shows "e \<in> set es" "e \<noteq> []" "prefix e s"
  using assms by (auto simp: first_prefix_def find_Some_iff)

function trim_prefixes :: "string list \<Rightarrow> string \<Rightarrow> string" where
  "trim_prefixes es s =
     (case first_prefix es s of None \<Rightarrow> s | Some e \<Rightarrow> trim_prefixes es (drop (length e) s))"
  by pat_completeness auto
termination
proof (relation "measure (\<lambda>(es, s). length s)")
  fix es s e
  assume "first_prefix es s = Some e"
  then have "e \<noteq> []" "prefix e s" by (rule first_prefix_Some)+
  then have "0 < length s" "0 < length e" by (auto simp: prefix_def)
  then show "((es, drop (length e) s), (es, s)) \<in> measure (\<lambda>(es, s). length s)" by simp
qed simp

declare trim_prefixes.simps [simp del]

lemma trim_prefixes_fix: "first_prefix es s = None \<Longrightarrow> trim_prefixes es s = s"
  by (simp add: trim_prefixes.simps)

lemma trim_prefixes_none: "first_prefix es (trim_prefixes es s) = None"
proof (induction es s rule: trim_prefixes.induct)
  case (1 es s)
  then show ?case by (subst trim_prefixes.simps) (auto split: option.splits)
qed

lemma trim_prefixes_suffix: "suffix (trim_prefixes es s) s"
proof (induction es s rule: trim_prefixes.induct)
  case (1 es s)
  show ?case
  proof (cases "first_prefix es s")
    case None
    then show ?thesis by (simp add: trim_prefixes_fix)
  next
    case (Some e)
    with "1.IH" have "suffix (trim_prefixes es (drop (length e) s)) (drop (length e) s)" by simp
    then have "suffix (trim_prefixes es (drop (length e) s)) s"
      using suffix_drop suffix_order.order_trans by blast
    with Some show ?thesis by (subst trim_prefixes.simps) simp
  qed
qed

lemma first_prefix_prefix: "prefix t s \<Longrightarrow> first_prefix es s = None \<Longrightarrow> first_prefix es t = None"
  using prefix_order.order_trans by (fastforce simp: first_prefix_None)

text \<open>A byte that no pattern contains survives trimming.\<close>

lemma trim_prefixes_keeps:
  "c \<in> set s \<Longrightarrow> \<forall>e \<in> set es. c \<notin> set e \<Longrightarrow> c \<in> set (trim_prefixes es s)"
proof (induction es s rule: trim_prefixes.induct)
  case (1 es s)
  show ?case
  proof (cases "first_prefix es s")
    case None
    with "1.prems" show ?thesis by (simp add: trim_prefixes_fix)
  next
    case (Some e)
    note e = first_prefix_Some [OF Some]
    then obtain t where "s = e @ t" by (auto simp: prefix_def)
    with "1.prems" e have "c \<in> set (drop (length e) s)" by auto
    with "1.IH" [OF Some] "1.prems" Some show ?thesis by (subst trim_prefixes.simps) simp
  qed
qed

text \<open>The UTF-8 encodings of the code points for which \<^verbatim>\<open>unicode.IsSpace\<close> holds.\<close>

definition utf8_bytes :: "nat list \<Rightarrow> string" where
  "utf8_bytes ns = map char_of ns"

definition space_encodings :: "string list" where
  "space_encodings =
     map utf8_bytes
       ([[0x09], [0x0A], [0x0B], [0x0C], [0x0D], [0x20], [0xC2, 0x85], [0xC2, 0xA0],
         [0xE1, 0x9A, 0x80], [0xE2, 0x80, 0xA8], [0xE2, 0x80, 0xA9], [0xE2, 0x80, 0xAF],
         [0xE2, 0x81, 0x9F], [0xE3, 0x80, 0x80]]
        @ map (\<lambda>b. [0xE2, 0x80, b]) [0x80, 0x81, 0x82, 0x83, 0x84, 0x85, 0x86, 0x87, 0x88, 0x89, 0x8A])"

definition TrimSpace :: "string \<Rightarrow> string" where
  "TrimSpace s =
     rev (trim_prefixes (map rev space_encodings) (rev (trim_prefixes space_encodings s)))"

lemma TrimSpace_idem [simp]: "TrimSpace (TrimSpace s) = TrimSpace s"
proof -
  let ?l = "trim_prefixes space_encodings s"
  let ?r = "trim_prefixes (map rev space_encodings) (rev ?l)"
  have "prefix (rev ?r) ?l"
    using trim_prefixes_suffix [of "map rev space_encodings" "rev ?l"]
    by (simp add: suffix_to_prefix)
  then have "first_prefix space_encodings (rev ?r) = None"
    by (rule first_prefix_prefix) (rule trim_prefixes_none)
  then have "trim_prefixes space_encodings (rev ?r) = rev ?r"
    by (rule trim_prefixes_fix)
  then show ?thesis
    by (simp add: TrimSpace_def trim_prefixes_fix [OF trim_prefixes_none])
qed

lemma TrimSpace_length: "length (TrimSpace s) \<le> length s"
proof -
  have "length (trim_prefixes (map rev space_encodings) (rev (trim_prefixes space_encodings s)))
      \<le> length (trim_prefixes space_encodings s)"
    using suffix_length_le [OF trim_prefixes_suffix
        [of "map rev space_encodings" "rev (trim_prefixes space_encodings s)"]] by simp
  also have "\<dots> \<le> length s" by (rule suffix_length_le [OF trim_prefixes_suffix])
  finally show ?thesis by (simp add: TrimSpace_def)
qed

lemma TrimSpace_Nil [simp]: "TrimSpace [] = []"
  using TrimSpace_length [of "[]"] by simp

lemma set_TrimSpace: "set (TrimSpace s) \<subseteq> set s"
  using set_mono_suffix [OF trim_prefixes_suffix [of space_encodings s]]
    set_mono_suffix [OF trim_prefixes_suffix
      [of "map rev space_encodings" "rev (trim_prefixes space_encodings s)"]]
  by (auto simp: TrimSpace_def)

text \<open>A string whose bytes are printable ASCII without the blank is its own trimmed form.\<close>

lemma space_encodings_bytes:
  "e \<in> set space_encodings \<Longrightarrow> e \<noteq> [] \<and> (byte (hd e) < 33 \<or> 127 < byte (hd e)) \<and> (byte (last e) < 33 \<or> 127 < byte (last e))"
  by (auto simp: space_encodings_def utf8_bytes_def)

lemma TrimSpace_printable:
  assumes "\<forall>c \<in> set s. 33 \<le> byte c \<and> byte c \<le> 127"
  shows "TrimSpace s = s"
proof -
  have l: "first_prefix space_encodings s = None"
  proof (unfold first_prefix_None, intro ballI)
    fix e assume e: "e \<in> set space_encodings"
    show "e = [] \<or> \<not> prefix e s"
    proof (rule disjI2, rule notI)
      assume p: "prefix e s"
      have ne: "e \<noteq> []" and "byte (hd e) < 33 \<or> 127 < byte (hd e)"
        using space_encodings_bytes [OF e] by auto
      moreover have "hd e \<in> set s" using ne set_mono_prefix [OF p] by auto
      ultimately show False using assms by fastforce
    qed
  qed
  have r: "first_prefix (map rev space_encodings) (rev s) = None"
  proof (unfold first_prefix_None, intro ballI)
    fix e assume "e \<in> set (map rev space_encodings)"
    then obtain d where d: "d \<in> set space_encodings" "e = rev d" by auto
    show "e = [] \<or> \<not> prefix e (rev s)"
    proof (rule disjI2, rule notI)
      assume p: "prefix e (rev s)"
      have ne: "d \<noteq> []" and "byte (last d) < 33 \<or> 127 < byte (last d)"
        using space_encodings_bytes [OF d(1)] by auto
      moreover have "last d \<in> set s"
        using ne set_mono_prefix [OF p] d by (auto simp: subset_eq)
      ultimately show False using assms by fastforce
    qed
  qed
  show ?thesis by (simp add: TrimSpace_def trim_prefixes_fix l r)
qed

section \<open>Substrings\<close>

fun Contains :: "string \<Rightarrow> string \<Rightarrow> bool" where
  "Contains [] sub = (sub = [])"
| "Contains (c # cs) sub = (prefix sub (c # cs) \<or> Contains cs sub)"

lemma Contains_iff: "Contains s sub \<longleftrightarrow> (\<exists>us vs. s = us @ sub @ vs)"
proof (induction s)
  case Nil
  show ?case by simp
next
  case (Cons c cs)
  have "Contains (c # cs) sub \<longleftrightarrow> prefix sub (c # cs) \<or> (\<exists>us vs. cs = us @ sub @ vs)"
    by (simp add: Cons.IH)
  also have "\<dots> \<longleftrightarrow> (\<exists>us vs. c # cs = us @ sub @ vs)"
    by (metis (no_types, opaque_lifting) append_Cons append_self_conv2 list.inject neq_Nil_conv
        prefixI prefix_def)
  finally show ?case .
qed

lemma Contains_self [simp]: "Contains s s"
  by (cases s) simp_all

lemma Contains_singleton: "Contains s [c] \<longleftrightarrow> c \<in> set s"
  by (auto simp: Contains_iff in_set_conv_decomp)

end
