(* ===== verification/Go_Utf8.thy ===== *)
theory Go_Utf8
  imports Go_Prelude
begin

text \<open>
  Go's \<^verbatim>\<open>unicode/utf8\<close> on byte strings: \<open>rune_size\<close> is the length of the well-formed encoding at the
  head of a string (0 when there is none, where Go decodes one byte as \<^verbatim>\<open>RuneError\<close>),
  \<open>ValidString\<close> and \<open>RuneCountInString\<close> are the functions of that package.
\<close>

definition in_range :: "nat \<Rightarrow> nat \<Rightarrow> char \<Rightarrow> bool" where
  "in_range lo hi c \<longleftrightarrow> lo \<le> byte c \<and> byte c \<le> hi"

abbreviation cont_byte :: "char \<Rightarrow> bool" where
  "cont_byte \<equiv> in_range 0x80 0xBF"

text \<open>The ranges of the second byte depend on the first one, as in the table of RFC 3629.\<close>

definition second_ok :: "char \<Rightarrow> char \<Rightarrow> bool" where
  "second_ok a b =
     (if byte a = 0xE0 then in_range 0xA0 0xBF b
      else if byte a = 0xED then in_range 0x80 0x9F b
      else if byte a = 0xF0 then in_range 0x90 0xBF b
      else if byte a = 0xF4 then in_range 0x80 0x8F b
      else cont_byte b)"

fun rune_size :: "string \<Rightarrow> nat" where
  "rune_size [] = 0"
| "rune_size (a # s) =
     (if byte a < 0x80 then 1
      else if in_range 0xC2 0xDF a then
        (case s of b # _ \<Rightarrow> (if cont_byte b then 2 else 0) | _ \<Rightarrow> 0)
      else if in_range 0xE0 0xEF a then
        (case s of b # c # _ \<Rightarrow> (if second_ok a b \<and> cont_byte c then 3 else 0) | _ \<Rightarrow> 0)
      else if in_range 0xF0 0xF4 a then
        (case s of b # c # d # _ \<Rightarrow>
           (if second_ok a b \<and> cont_byte c \<and> cont_byte d then 4 else 0) | _ \<Rightarrow> 0)
      else 0)"

lemma rune_size_le4: "rune_size s \<le> 4"
  by (cases s) (auto split: list.splits)

lemma rune_size_le: "rune_size s \<le> length s"
  by (cases s) (auto split: list.splits)

text \<open>The encoding at the head depends on its own bytes only.\<close>

lemma rune_size_append: "0 < rune_size s \<Longrightarrow> rune_size (s @ t) = rune_size s"
  by (cases s) (auto split: list.splits if_splits)

lemma rune_size_take_self: "0 < rune_size s \<Longrightarrow> rune_size (take (rune_size s) s) = rune_size s"
  by (cases s) (auto split: list.splits if_splits)

lemma rune_size_take:
  assumes "rune_size s \<le> n"
  shows "rune_size (take n s) = rune_size s"
proof (cases "rune_size s = 0")
  case True
  have "\<not> 0 < rune_size (take n s)"
    using rune_size_append [of "take n s" "drop n s"] True by auto
  with True show ?thesis by simp
next
  case False
  then have self: "rune_size (take (rune_size s) s) = rune_size s"
    by (simp add: rune_size_take_self)
  have "take n s = take (rune_size s) s @ take (n - rune_size s) (drop (rune_size s) s)"
    using assms by (metis le_add_diff_inverse take_add)
  with False self show ?thesis by (simp add: rune_size_append)
qed

function ValidString :: "string \<Rightarrow> bool" where
  "ValidString s =
     (if s = [] then True
      else if rune_size s = 0 then False
      else ValidString (drop (rune_size s) s))"
  by pat_completeness auto
termination by (relation "measure length") auto

function RuneCountInString :: "string \<Rightarrow> nat" where
  "RuneCountInString s =
     (if s = [] then 0 else Suc (RuneCountInString (drop (max 1 (rune_size s)) s)))"
  by pat_completeness auto
termination by (relation "measure length") auto

declare ValidString.simps [simp del] RuneCountInString.simps [simp del]

lemma ValidString_Nil [simp]: "ValidString []"
  by (simp add: ValidString.simps)

lemma RuneCountInString_le: "RuneCountInString s \<le> length s"
proof (induction s rule: RuneCountInString.induct)
  case (1 s)
  show ?case
  proof (cases "s = []")
    case False
    then have "RuneCountInString (drop (max 1 (rune_size s)) s) \<le> length (drop (max 1 (rune_size s)) s)"
      using "1.IH" by blast
    moreover have "length (drop (max 1 (rune_size s)) s) < length s" using False by simp
    ultimately have "Suc (RuneCountInString (drop (max 1 (rune_size s)) s)) \<le> length s"
      by simp
    with False show ?thesis by (simp add: RuneCountInString.simps [of s])
  qed (simp add: RuneCountInString.simps)
qed

text \<open>A cut of a valid string is valid or becomes valid within the three bytes before it.\<close>

lemma ValidString_cut:
  "ValidString s \<Longrightarrow> n \<le> length s \<Longrightarrow> \<exists>m \<le> n. n \<le> m + 3 \<and> ValidString (take m s)"
proof (induction s arbitrary: n rule: ValidString.induct)
  case (1 s)
  show ?case
  proof (cases "n < rune_size s \<or> s = []")
    case True
    with "1.prems" rune_size_le4 [of s] show ?thesis by (intro exI [of _ 0]) auto
  next
    case False
    let ?k = "rune_size s"
    have k: "0 < ?k" and rest: "ValidString (drop ?k s)"
      using "1.prems"(1) False by (auto simp: ValidString.simps [of s] split: if_splits)
    have "n - ?k \<le> length (drop ?k s)" using "1.prems"(2) by simp
    then obtain m where m: "m \<le> n - ?k" "n - ?k \<le> m + 3" "ValidString (take m (drop ?k s))"
      using "1.IH" [OF _ _ rest] False k by auto
    have sz: "rune_size (take (?k + m) s) = ?k" by (rule rune_size_take) simp
    have "take (?k + m) s \<noteq> []" using False k by auto
    moreover have "drop ?k (take (?k + m) s) = take m (drop ?k s)" by (simp add: take_drop add.commute)
    ultimately have "ValidString (take (?k + m) s)"
      using m(3) sz k by (simp add: ValidString.simps [of "take (?k + m) s"])
    moreover have "?k + m \<le> n" "n \<le> ?k + m + 3" using m False by auto
    ultimately show ?thesis by blast
  qed
qed

end
