(* ===== verification/Idempotency_Store.thy ===== *)
theory Idempotency_Store
  imports Go_Utf8
begin

text \<open>
  The idempotency store: the record and the repository interface of
  \<^verbatim>\<open>service/idempotency.go\<close>, and the PostgreSQL repository of
  \<^verbatim>\<open>repository/idempotency_repo.go\<close> as functions on a table.

  \<open>idem_repo\<close> is the Go interface: a record of the operations, each of which threads the state of
  the store and may fail.  The locale \<open>idem_store\<close> states what the clients (the coordinator and the
  system operation lock) rely on; it is interpreted on the SQL repository at the end of the theory.
\<close>

section \<open>Records and the repository interface\<close>

definition IdempotencyStatusProcessing :: string where
  "IdempotencyStatusProcessing = ''processing''"

definition IdempotencyStatusSucceeded :: string where
  "IdempotencyStatusSucceeded = ''succeeded''"

definition IdempotencyStatusFailedRetryable :: string where
  "IdempotencyStatusFailedRetryable = ''failed_retryable''"

lemmas idem_status_defs =
  IdempotencyStatusProcessing_def IdempotencyStatusSucceeded_def IdempotencyStatusFailedRetryable_def

lemma idem_status_distinct [simp]:
  "IdempotencyStatusProcessing \<noteq> IdempotencyStatusSucceeded"
  "IdempotencyStatusSucceeded \<noteq> IdempotencyStatusProcessing"
  "IdempotencyStatusProcessing \<noteq> IdempotencyStatusFailedRetryable"
  "IdempotencyStatusFailedRetryable \<noteq> IdempotencyStatusProcessing"
  "IdempotencyStatusSucceeded \<noteq> IdempotencyStatusFailedRetryable"
  "IdempotencyStatusFailedRetryable \<noteq> IdempotencyStatusSucceeded"
  by (simp_all add: idem_status_defs)

record IdempotencyRecord =
  ID :: int64
  Scope :: string
  IdempotencyKeyHash :: string
  RequestFingerprint :: string
  Status :: string
  ResponseStatus :: "int option"
  ResponseBody :: "string option"
  ErrorReason :: "string option"
  LockedUntil :: "gtime option"
  ExpiresAt :: gtime
  CreatedAt :: gtime
  UpdatedAt :: gtime

text \<open>The result of a repository call: an error of the driver, or the returned values.\<close>

datatype db_error = DBError

type_synonym 'a db_result = "db_error + 'a"

record 'st IdempotencyRepository =
  CreateProcessing :: "'st \<Rightarrow> IdempotencyRecord \<Rightarrow> (bool \<times> IdempotencyRecord) db_result \<times> 'st"
  GetByScopeAndKeyHash :: "'st \<Rightarrow> string \<Rightarrow> string \<Rightarrow> IdempotencyRecord option db_result \<times> 'st"
  TryReclaim :: "'st \<Rightarrow> int64 \<Rightarrow> string \<Rightarrow> gtime \<Rightarrow> gtime \<Rightarrow> gtime \<Rightarrow> bool db_result \<times> 'st"
  ExtendProcessingLock :: "'st \<Rightarrow> int64 \<Rightarrow> string \<Rightarrow> gtime \<Rightarrow> gtime \<Rightarrow> bool db_result \<times> 'st"
  MarkSucceeded :: "'st \<Rightarrow> int64 \<Rightarrow> int \<Rightarrow> string \<Rightarrow> gtime \<Rightarrow> unit db_result \<times> 'st"
  MarkFailedRetryable :: "'st \<Rightarrow> int64 \<Rightarrow> string \<Rightarrow> gtime \<Rightarrow> gtime \<Rightarrow> unit db_result \<times> 'st"
  DeleteExpired :: "'st \<Rightarrow> gtime \<Rightarrow> int \<Rightarrow> int64 db_result \<times> 'st"

section \<open>The SQL repository\<close>

text \<open>
  The table \<^verbatim>\<open>idempotency_records\<close>: its rows, the identity sequence and the clock that \<^verbatim>\<open>NOW()\<close>
  reads.  An \<^verbatim>\<open>INSERT ... ON CONFLICT DO NOTHING\<close> draws from the sequence whether it inserts or
  not.
\<close>

record idem_table =
  rows :: "IdempotencyRecord list"
  id_seq :: int64
  db_now :: gtime

definition row_key :: "IdempotencyRecord \<Rightarrow> string \<times> string" where
  "row_key r = (Scope r, IdempotencyKeyHash r)"

definition sql_CreateProcessing ::
  "idem_table \<Rightarrow> IdempotencyRecord \<Rightarrow> (bool \<times> IdempotencyRecord) db_result \<times> idem_table" where
  "sql_CreateProcessing db r =
     (if row_key r \<in> row_key ` set (rows db)
      then (Inr (False, r), db\<lparr>id_seq := id_seq db + 1\<rparr>)
      else
        let r' = r\<lparr>ID := id_seq db, CreatedAt := db_now db, UpdatedAt := db_now db\<rparr>;
            row = r'\<lparr>ResponseStatus := None, ResponseBody := None, ErrorReason := None\<rparr>
        in (Inr (True, r'), db\<lparr>rows := rows db @ [row], id_seq := id_seq db + 1\<rparr>))"

definition sql_GetByScopeAndKeyHash ::
  "idem_table \<Rightarrow> string \<Rightarrow> string \<Rightarrow> IdempotencyRecord option db_result \<times> idem_table" where
  "sql_GetByScopeAndKeyHash db scope keyHash =
     (Inr (find (\<lambda>r. Scope r = scope \<and> IdempotencyKeyHash r = keyHash) (rows db)), db)"

text \<open>An \<^verbatim>\<open>UPDATE\<close>: the rows that satisfy the condition are rewritten, and their number is the
  number of affected rows.\<close>

definition sql_update ::
  "(IdempotencyRecord \<Rightarrow> bool) \<Rightarrow> (IdempotencyRecord \<Rightarrow> IdempotencyRecord) \<Rightarrow> idem_table \<Rightarrow> nat \<times> idem_table" where
  "sql_update cond f db =
     (length (filter cond (rows db)),
      db\<lparr>rows := map (\<lambda>r. if cond r then f r else r) (rows db)\<rparr>)"

definition sql_TryReclaim ::
  "idem_table \<Rightarrow> int64 \<Rightarrow> string \<Rightarrow> gtime \<Rightarrow> gtime \<Rightarrow> gtime \<Rightarrow> bool db_result \<times> idem_table" where
  "sql_TryReclaim db i fromStatus now newLockedUntil newExpiresAt =
     (let (affected, db') =
        sql_update
          (\<lambda>r. ID r = i \<and> Status r = fromStatus \<and>
               (case LockedUntil r of None \<Rightarrow> True | Some l \<Rightarrow> l \<le> now))
          (\<lambda>r. r\<lparr>Status := IdempotencyStatusProcessing, LockedUntil := Some newLockedUntil,
                 ErrorReason := None, UpdatedAt := db_now db, ExpiresAt := newExpiresAt\<rparr>) db
      in (Inr (0 < affected), db'))"

definition sql_ExtendProcessingLock ::
  "idem_table \<Rightarrow> int64 \<Rightarrow> string \<Rightarrow> gtime \<Rightarrow> gtime \<Rightarrow> bool db_result \<times> idem_table" where
  "sql_ExtendProcessingLock db i requestFingerprint newLockedUntil newExpiresAt =
     (let (affected, db') =
        sql_update
          (\<lambda>r. ID r = i \<and> Status r = IdempotencyStatusProcessing \<and>
               RequestFingerprint r = requestFingerprint)
          (\<lambda>r. r\<lparr>LockedUntil := Some newLockedUntil, ExpiresAt := newExpiresAt,
                 UpdatedAt := db_now db\<rparr>) db
      in (Inr (0 < affected), db'))"

definition sql_MarkSucceeded ::
  "idem_table \<Rightarrow> int64 \<Rightarrow> int \<Rightarrow> string \<Rightarrow> gtime \<Rightarrow> unit db_result \<times> idem_table" where
  "sql_MarkSucceeded db i responseStatus responseBody expiresAt =
     (let (_, db') =
        sql_update (\<lambda>r. ID r = i)
          (\<lambda>r. r\<lparr>Status := IdempotencyStatusSucceeded, ResponseStatus := Some responseStatus,
                 ResponseBody := Some responseBody, ErrorReason := None, LockedUntil := None,
                 ExpiresAt := expiresAt, UpdatedAt := db_now db\<rparr>) db
      in (Inr (), db'))"

definition sql_MarkFailedRetryable ::
  "idem_table \<Rightarrow> int64 \<Rightarrow> string \<Rightarrow> gtime \<Rightarrow> gtime \<Rightarrow> unit db_result \<times> idem_table" where
  "sql_MarkFailedRetryable db i errorReason lockedUntil expiresAt =
     (let (_, db') =
        sql_update (\<lambda>r. ID r = i)
          (\<lambda>r. r\<lparr>Status := IdempotencyStatusFailedRetryable, ErrorReason := Some errorReason,
                 LockedUntil := Some lockedUntil, ExpiresAt := expiresAt, UpdatedAt := db_now db\<rparr>) db
      in (Inr (), db'))"

text \<open>
  \<^verbatim>\<open>DELETE\<close> of at most \<open>limit\<close> expired rows, those that expire first; rows that expire at the same
  time are taken in the order of the table.
\<close>

definition sql_DeleteExpired :: "idem_table \<Rightarrow> gtime \<Rightarrow> int \<Rightarrow> int64 db_result \<times> idem_table" where
  "sql_DeleteExpired db now limit =
     (let n = nat (if limit \<le> 0 then 500 else limit);
          victims = map ID (take n (sort_key ExpiresAt (filter (\<lambda>r. ExpiresAt r \<le> now) (rows db))));
          kept = filter (\<lambda>r. ID r \<notin> set victims) (rows db)
      in (Inr (int (length (rows db) - length kept)), db\<lparr>rows := kept\<rparr>))"

definition sql_repo :: "idem_table IdempotencyRepository" where
  "sql_repo =
     \<lparr>CreateProcessing = sql_CreateProcessing,
      GetByScopeAndKeyHash = sql_GetByScopeAndKeyHash,
      TryReclaim = sql_TryReclaim,
      ExtendProcessingLock = sql_ExtendProcessingLock,
      MarkSucceeded = sql_MarkSucceeded,
      MarkFailedRetryable = sql_MarkFailedRetryable,
      DeleteExpired = sql_DeleteExpired\<rparr>"

text \<open>
  The constraints of the table: identifiers are unique, positive and below the sequence, and
  \<^verbatim>\<open>(scope, idempotency_key_hash)\<close> is unique.
\<close>

definition table_ok :: "idem_table \<Rightarrow> bool" where
  "table_ok db \<longleftrightarrow>
     distinct (map ID (rows db)) \<and> distinct (map row_key (rows db)) \<and>
     (\<forall>r \<in> set (rows db). 0 < ID r \<and> ID r < id_seq db) \<and> 0 < id_seq db"

definition row_of :: "idem_table \<Rightarrow> string \<times> string \<Rightarrow> IdempotencyRecord option" where
  "row_of db k = find (\<lambda>r. row_key r = k) (rows db)"


section \<open>Laws of the SQL repository\<close>

lemma row_of_Some_iff:
  assumes "table_ok db"
  shows "row_of db k = Some x \<longleftrightarrow> x \<in> set (rows db) \<and> row_key x = k"
proof
  assume "row_of db k = Some x"
  then show "x \<in> set (rows db) \<and> row_key x = k"
    by (auto simp: row_of_def find_Some_iff)
next
  assume x: "x \<in> set (rows db) \<and> row_key x = k"
  then obtain y where y: "row_of db k = Some y"
    by (cases "row_of db k") (auto simp: row_of_def find_None_iff)
  then have "y \<in> set (rows db)" "row_key y = k"
    by (auto simp: row_of_def find_Some_iff)
  with x assms have "y = x"
    by (auto simp: table_ok_def distinct_map dest: inj_onD)
  with y show "row_of db k = Some x" by simp
qed

lemma row_of_None_iff: "row_of db k = None \<longleftrightarrow> k \<notin> row_key ` set (rows db)"
  by (auto simp: row_of_def find_None_iff)

lemma row_of_ID_inj:
  assumes "table_ok db" "row_of db k = Some x" "y \<in> set (rows db)" "ID y = ID x"
  shows "y = x"
  using assms by (auto simp: row_of_Some_iff table_ok_def distinct_map dest: inj_onD)

lemma row_of_eqI: "(\<And>k x. row_of db k = Some x \<longleftrightarrow> m k = Some x) \<Longrightarrow> row_of db = m"
  by (rule ext, rule option_eqI) blast

text \<open>An \<^verbatim>\<open>UPDATE\<close> whose condition pins the identifier changes one row or none.\<close>

lemma sql_update_ok:
  assumes ok: "table_ok db" and f: "\<And>r. ID (f r) = ID r \<and> row_key (f r) = row_key r"
  shows "table_ok (snd (sql_update cond f db))"
proof -
  have "map ID (rows (snd (sql_update cond f db))) = map ID (rows db)"
    and "map row_key (rows (snd (sql_update cond f db))) = map row_key (rows db)"
    using f by (auto simp: sql_update_def)
  moreover have "\<forall>r \<in> set (rows (snd (sql_update cond f db))). 0 < ID r \<and> ID r < id_seq db"
    using ok f by (auto simp: table_ok_def sql_update_def)
  moreover have "id_seq (snd (sql_update cond f db)) = id_seq db" by (simp add: sql_update_def)
  ultimately show ?thesis using ok by (simp add: table_ok_def)
qed

lemma sql_update_at:
  assumes ok: "table_ok db" and x: "row_of db k = Some x"
    and f: "\<And>r. ID (f r) = ID r \<and> row_key (f r) = row_key r"
    and pin: "\<And>r. cond r \<Longrightarrow> ID r = ID x"
  shows "0 < fst (sql_update cond f db) \<longleftrightarrow> cond x"
    and "row_of (snd (sql_update cond f db)) = (if cond x then (row_of db)(k \<mapsto> f x) else row_of db)"
proof -
  have xin: "x \<in> set (rows db)" "row_key x = k"
    using x ok by (auto simp: row_of_Some_iff)
  have only: "r = x" if "r \<in> set (rows db)" "cond r" for r
    using row_of_ID_inj [OF ok x that(1) pin [OF that(2)]] .
  show "0 < fst (sql_update cond f db) \<longleftrightarrow> cond x"
    unfolding sql_update_def fst_conv length_greater_0_conv filter_empty_conv
    using only xin(1) by blast
  have ok': "table_ok (snd (sql_update cond f db))" by (rule sql_update_ok [OF ok f])
  have mem: "y \<in> set (rows (snd (sql_update cond f db))) \<longleftrightarrow>
      (y \<in> set (rows db) \<and> \<not> cond y) \<or> (cond x \<and> y = f x)" for y
    using only xin by (auto simp: sql_update_def)
  have uniq: "y \<in> set (rows db) \<Longrightarrow> row_key y = k \<Longrightarrow> y = x" for y
    using x ok by (metis option.inject row_of_Some_iff)
  have key: "row_key (f x) = k" using f xin by simp
  have at: "row_of (snd (sql_update cond f db)) k' = Some y \<longleftrightarrow>
      ((y \<in> set (rows db) \<and> \<not> cond y) \<or> (cond x \<and> y = f x)) \<and> row_key y = k'" for k' y
    by (simp add: row_of_Some_iff [OF ok'] mem)
  show "row_of (snd (sql_update cond f db)) = (if cond x then (row_of db)(k \<mapsto> f x) else row_of db)"
  proof (cases "cond x")
    case True
    have "row_of (snd (sql_update cond f db)) k' = Some y \<longleftrightarrow> ((row_of db)(k \<mapsto> f x)) k' = Some y" for k' y
    proof (cases "k' = k")
      case True
      have "y \<in> set (rows db) \<Longrightarrow> row_key y = k \<Longrightarrow> cond y"
        using uniq \<open>cond x\<close> by blast
      with True \<open>cond x\<close> key show ?thesis by (simp add: at) blast
    next
      case False
      then have "row_key y = k' \<Longrightarrow> y \<noteq> f x" "y \<in> set (rows db) \<Longrightarrow> row_key y = k' \<Longrightarrow> \<not> cond y"
        using key only xin by auto
      with False show ?thesis by (simp add: at row_of_Some_iff [OF ok]) blast
    qed
    then have "row_of (snd (sql_update cond f db)) = (row_of db)(k \<mapsto> f x)" by (rule row_of_eqI)
    with True show ?thesis by simp
  next
    case False
    then have "row_of (snd (sql_update cond f db)) k' = Some y \<longleftrightarrow> row_of db k' = Some y" for k' y
      unfolding at using only by (auto simp: row_of_Some_iff [OF ok])
    then have "row_of (snd (sql_update cond f db)) = row_of db" by (rule row_of_eqI)
    with False show ?thesis by simp
  qed
qed

corollary sql_update_id:
  assumes ok: "table_ok db" and x: "row_of db k = Some x"
    and f: "\<And>r. ID (f r) = ID r \<and> row_key (f r) = row_key r"
  shows "0 < fst (sql_update (\<lambda>r. ID r = ID x \<and> P r) f db) \<longleftrightarrow> P x"
    and "row_of (snd (sql_update (\<lambda>r. ID r = ID x \<and> P r) f db)) =
      (if P x then (row_of db)(k \<mapsto> f x) else row_of db)"
  using sql_update_at [OF ok x f, of "\<lambda>r. ID r = ID x \<and> P r"] by auto

section \<open>The contract of the store\<close>

definition unlocked :: "IdempotencyRecord \<Rightarrow> gtime \<Rightarrow> bool" where
  "unlocked x now \<longleftrightarrow> (case LockedUntil x of None \<Rightarrow> True | Some l \<Rightarrow> l \<le> now)"

locale idem_store =
  fixes repo :: "'st IdempotencyRepository"
    and look :: "'st \<Rightarrow> string \<times> string \<Rightarrow> IdempotencyRecord option"
    and inv :: "'st \<Rightarrow> bool"
  assumes look_key: "inv st \<Longrightarrow> look st k = Some x \<Longrightarrow> row_key x = k \<and> 0 < ID x"
    and look_ID: "inv st \<Longrightarrow> look st k = Some x \<Longrightarrow> look st k' = Some y \<Longrightarrow> ID x = ID y \<Longrightarrow> k = k'"
    and create_fresh: "inv st \<Longrightarrow> look st (row_key r) = None \<Longrightarrow>
      \<exists>i t st'. CreateProcessing repo st r = (Inr (True, r\<lparr>ID := i, CreatedAt := t, UpdatedAt := t\<rparr>), st') \<and>
        inv st' \<and> 0 < i \<and> (\<forall>k x. look st k = Some x \<longrightarrow> ID x \<noteq> i) \<and>
        look st' = (look st)(row_key r \<mapsto>
          r\<lparr>ID := i, CreatedAt := t, UpdatedAt := t,
            ResponseStatus := None, ResponseBody := None, ErrorReason := None\<rparr>)"
    and create_taken: "inv st \<Longrightarrow> look st (row_key r) \<noteq> None \<Longrightarrow>
      \<exists>st'. CreateProcessing repo st r = (Inr (False, r), st') \<and> inv st' \<and> look st' = look st"
    and get: "inv st \<Longrightarrow> GetByScopeAndKeyHash repo st s h = (Inr (look st (s, h)), st)"
    and reclaim: "inv st \<Longrightarrow> look st k = Some x \<Longrightarrow>
      \<exists>t st'. TryReclaim repo st (ID x) from now l e = (Inr (Status x = from \<and> unlocked x now), st') \<and>
        inv st' \<and>
        look st' = (if Status x = from \<and> unlocked x now
          then (look st)(k \<mapsto> x\<lparr>Status := IdempotencyStatusProcessing, LockedUntil := Some l,
            ErrorReason := None, UpdatedAt := t, ExpiresAt := e\<rparr>)
          else look st)"
    and extend: "inv st \<Longrightarrow> look st k = Some x \<Longrightarrow>
      \<exists>t st'. ExtendProcessingLock repo st (ID x) fp l e =
          (Inr (Status x = IdempotencyStatusProcessing \<and> RequestFingerprint x = fp), st') \<and> inv st' \<and>
        look st' = (if Status x = IdempotencyStatusProcessing \<and> RequestFingerprint x = fp
          then (look st)(k \<mapsto> x\<lparr>LockedUntil := Some l, ExpiresAt := e, UpdatedAt := t\<rparr>)
          else look st)"
    and mark_succeeded: "inv st \<Longrightarrow> look st k = Some x \<Longrightarrow>
      \<exists>t st'. MarkSucceeded repo st (ID x) code body e = (Inr (), st') \<and> inv st' \<and>
        look st' = (look st)(k \<mapsto> x\<lparr>Status := IdempotencyStatusSucceeded, ResponseStatus := Some code,
          ResponseBody := Some body, ErrorReason := None, LockedUntil := None, ExpiresAt := e,
          UpdatedAt := t\<rparr>)"
    and mark_failed: "inv st \<Longrightarrow> look st k = Some x \<Longrightarrow>
      \<exists>t st'. MarkFailedRetryable repo st (ID x) reason l e = (Inr (), st') \<and> inv st' \<and>
        look st' = (look st)(k \<mapsto> x\<lparr>Status := IdempotencyStatusFailedRetryable,
          ErrorReason := Some reason, LockedUntil := Some l, ExpiresAt := e, UpdatedAt := t\<rparr>)"

lemma row_key_update [simp]:
  "row_key (r\<lparr>ID := a\<rparr>) = row_key r" "row_key (r\<lparr>Status := b\<rparr>) = row_key r"
  "row_key (r\<lparr>ResponseStatus := c\<rparr>) = row_key r" "row_key (r\<lparr>ResponseBody := d\<rparr>) = row_key r"
  "row_key (r\<lparr>ErrorReason := e\<rparr>) = row_key r" "row_key (r\<lparr>LockedUntil := f\<rparr>) = row_key r"
  "row_key (r\<lparr>ExpiresAt := g\<rparr>) = row_key r" "row_key (r\<lparr>CreatedAt := h\<rparr>) = row_key r"
  "row_key (r\<lparr>UpdatedAt := i\<rparr>) = row_key r"
  by (simp_all add: row_key_def)

lemma sql_create_fresh:
  assumes ok: "table_ok db" and new: "row_of db (row_key r) = None"
    and row: "row = r\<lparr>ID := id_seq db, CreatedAt := db_now db, UpdatedAt := db_now db,
      ResponseStatus := None, ResponseBody := None, ErrorReason := None\<rparr>"
  shows "table_ok (db\<lparr>rows := rows db @ [row], id_seq := id_seq db + 1\<rparr>)" (is "table_ok ?db")
    and "row_of (db\<lparr>rows := rows db @ [row], id_seq := id_seq db + 1\<rparr>) = (row_of db)(row_key r \<mapsto> row)"
proof -
  have rk: "row_key row = row_key r" and ri: "ID row = id_seq db" by (simp_all add: row)
  have notin: "row_key r \<notin> row_key ` set (rows db)" using new by (simp add: row_of_None_iff)
  show ok': "table_ok ?db"
    using ok notin by (auto simp: table_ok_def rk ri)
  show "row_of ?db = (row_of db)(row_key r \<mapsto> row)"
  proof (rule row_of_eqI)
    fix k y
    show "row_of ?db k = Some y \<longleftrightarrow> ((row_of db)(row_key r \<mapsto> row)) k = Some y"
      using notin rk by (auto simp: row_of_Some_iff [OF ok'] row_of_Some_iff [OF ok] image_iff)
  qed
qed

interpretation sqlstore: idem_store sql_repo row_of table_ok
proof unfold_locales
  fix st k x assume "table_ok st" "row_of st k = Some x"
  then show "row_key x = k \<and> 0 < ID x" by (auto simp: row_of_Some_iff) (auto simp: table_ok_def)
next
  fix st k k' x y
  assume ok: "table_ok st" and x: "row_of st k = Some x" and y: "row_of st k' = Some y" "ID x = ID y"
  then have "y = x" by (intro row_of_ID_inj [OF ok x]) (auto simp: row_of_Some_iff)
  then show "k = k'" using ok x y by (simp add: row_of_Some_iff)
next
  fix st r assume ok: "table_ok st" and new: "row_of st (row_key r) = None"
  then have "\<forall>k x. row_of st k = Some x \<longrightarrow> ID x \<noteq> id_seq st" "0 < id_seq st"
    by (auto simp: row_of_Some_iff table_ok_def)
  then show "\<exists>i t st'. CreateProcessing sql_repo st r =
        (Inr (True, r\<lparr>ID := i, CreatedAt := t, UpdatedAt := t\<rparr>), st') \<and>
      table_ok st' \<and> 0 < i \<and> (\<forall>k x. row_of st k = Some x \<longrightarrow> ID x \<noteq> i) \<and>
      row_of st' = (row_of st)(row_key r \<mapsto> r\<lparr>ID := i, CreatedAt := t, UpdatedAt := t,
        ResponseStatus := None, ResponseBody := None, ErrorReason := None\<rparr>)"
    using sql_create_fresh [OF ok new refl] new
    by (intro exI [of _ "id_seq st"] exI [of _ "db_now st"] exI)
       (simp add: sql_repo_def sql_CreateProcessing_def row_of_None_iff Let_def)
next
  fix st r assume "table_ok st" "row_of st (row_key r) \<noteq> None"
  then show "\<exists>st'. CreateProcessing sql_repo st r = (Inr (False, r), st') \<and> table_ok st' \<and> row_of st' = row_of st"
    by (simp only: row_of_None_iff)
       (auto simp: sql_repo_def sql_CreateProcessing_def table_ok_def row_of_def fun_eq_iff)
next
  fix st s h
  show "GetByScopeAndKeyHash sql_repo st s h = (Inr (row_of st (s, h)), st)"
    by (simp add: sql_repo_def sql_GetByScopeAndKeyHash_def row_of_def row_key_def)
next
  fix st k x "from" now l e assume "table_ok st" "row_of st k = Some x"
  note at = sql_update_id [OF this, where P = "\<lambda>r. Status r = from \<and>
      (case LockedUntil r of None \<Rightarrow> True | Some l \<Rightarrow> l \<le> now)"]
    and okk = sql_update_ok [OF \<open>table_ok st\<close>]
  show "\<exists>t st'. TryReclaim sql_repo st (ID x) from now l e = (Inr (Status x = from \<and> unlocked x now), st') \<and>
      table_ok st' \<and> row_of st' = (if Status x = from \<and> unlocked x now
        then (row_of st)(k \<mapsto> x\<lparr>Status := IdempotencyStatusProcessing, LockedUntil := Some l,
          ErrorReason := None, UpdatedAt := t, ExpiresAt := e\<rparr>) else row_of st)"
    by (rule exI [of _ "db_now st"])
       (simp add: sql_repo_def sql_TryReclaim_def split_beta at okk unlocked_def)
next
  fix st k x fp l e assume "table_ok st" "row_of st k = Some x"
  note at = sql_update_id [OF this, where P = "\<lambda>r. Status r = IdempotencyStatusProcessing \<and>
      RequestFingerprint r = fp"]
    and okk = sql_update_ok [OF \<open>table_ok st\<close>]
  show "\<exists>t st'. ExtendProcessingLock sql_repo st (ID x) fp l e =
        (Inr (Status x = IdempotencyStatusProcessing \<and> RequestFingerprint x = fp), st') \<and> table_ok st' \<and>
      row_of st' = (if Status x = IdempotencyStatusProcessing \<and> RequestFingerprint x = fp
        then (row_of st)(k \<mapsto> x\<lparr>LockedUntil := Some l, ExpiresAt := e, UpdatedAt := t\<rparr>) else row_of st)"
    by (rule exI [of _ "db_now st"]) (simp add: sql_repo_def sql_ExtendProcessingLock_def split_beta at okk)
next
  fix st k x code body e assume "table_ok st" "row_of st k = Some x"
  note at = sql_update_at [OF this] and okk = sql_update_ok [OF \<open>table_ok st\<close>]
  show "\<exists>t st'. MarkSucceeded sql_repo st (ID x) code body e = (Inr (), st') \<and> table_ok st' \<and>
      row_of st' = (row_of st)(k \<mapsto> x\<lparr>Status := IdempotencyStatusSucceeded, ResponseStatus := Some code,
        ResponseBody := Some body, ErrorReason := None, LockedUntil := None, ExpiresAt := e, UpdatedAt := t\<rparr>)"
    by (rule exI [of _ "db_now st"]) (simp add: sql_repo_def sql_MarkSucceeded_def split_beta at okk)
next
  fix st k x reason l e assume "table_ok st" "row_of st k = Some x"
  note at = sql_update_at [OF this] and okk = sql_update_ok [OF \<open>table_ok st\<close>]
  show "\<exists>t st'. MarkFailedRetryable sql_repo st (ID x) reason l e = (Inr (), st') \<and> table_ok st' \<and>
      row_of st' = (row_of st)(k \<mapsto> x\<lparr>Status := IdempotencyStatusFailedRetryable,
        ErrorReason := Some reason, LockedUntil := Some l, ExpiresAt := e, UpdatedAt := t\<rparr>)"
    by (rule exI [of _ "db_now st"]) (simp add: sql_repo_def sql_MarkFailedRetryable_def split_beta at okk)
qed

section \<open>Cleanup\<close>

text \<open>Cleanup keeps the constraints, removes nothing that has not expired and at most the batch.\<close>

lemma DeleteExpired_rows:
  assumes "sql_DeleteExpired db now limit = (Inr n, db')"
  shows "set (rows db') \<subseteq> set (rows db)"
    and "\<forall>r \<in> set (rows db). now < ExpiresAt r \<longrightarrow> table_ok db \<longrightarrow> r \<in> set (rows db')"
    and "table_ok db \<Longrightarrow> table_ok db'"
proof -
  let ?v = "map ID (take (nat (if limit \<le> 0 then 500 else limit))
      (sort_key ExpiresAt (filter (\<lambda>r. ExpiresAt r \<le> now) (rows db))))"
  have db': "db' = db\<lparr>rows := filter (\<lambda>r. ID r \<notin> set ?v) (rows db)\<rparr>"
    using assms by (simp add: sql_DeleteExpired_def Let_def)
  then show "set (rows db') \<subseteq> set (rows db)" by auto
  show "table_ok db'" if "table_ok db"
    using that by (auto simp: db' table_ok_def distinct_map_filter)
  have sub: "set (take m (sort_key ExpiresAt (filter (\<lambda>r. ExpiresAt r \<le> now) (rows db))))
      \<subseteq> {r \<in> set (rows db). ExpiresAt r \<le> now}" for m
    using set_take_subset by fastforce
  show "\<forall>r \<in> set (rows db). now < ExpiresAt r \<longrightarrow> table_ok db \<longrightarrow> r \<in> set (rows db')"
  proof (intro ballI impI)
    fix r assume r: "r \<in> set (rows db)" "now < ExpiresAt r" and ok: "table_ok db"
    have "ID r \<notin> set ?v"
    proof
      assume "ID r \<in> set ?v"
      then obtain y where y: "ID y = ID r" "y \<in> set (rows db)" "ExpiresAt y \<le> now"
        using sub by fastforce
      with r ok have "y = r" by (auto simp: table_ok_def distinct_map dest: inj_onD)
      with y r show False by simp
    qed
    with r show "r \<in> set (rows db')" by (simp add: db')
  qed
qed

end
