(* ===== verification/Idempotency.thy ===== *)
theory Idempotency
  imports Idempotency_Store
begin

text \<open>
  The idempotency coordinator of \<^verbatim>\<open>service/idempotency.go\<close>: key normalisation, request
  fingerprints, the claim protocol of \<^verbatim>\<open>Execute\<close> over the repository interface, and the stored
  response.

  What the coordinator calls outside its own file is the record \<open>idem_env\<close>: SHA-256, the JSON
  encoder and decoder, the log redaction of stored bodies and Unicode's upper-case tables.  The
  caller's business operation is a function on the state \<open>'w\<close> of the world, so that a theorem can
  say whether it ran.  Metrics and audit logging are left out.
\<close>

section \<open>Configuration, options and errors\<close>

record IdempotencyConfig =
  DefaultTTL :: duration
  SystemOperationTTL :: duration
  ProcessingTimeout :: duration
  FailedRetryBackoff :: duration
  MaxStoredResponseLen :: int
  ObserveOnly :: bool

definition DefaultIdempotencyConfig :: IdempotencyConfig where
  "DefaultIdempotencyConfig =
     \<lparr>DefaultTTL = 24 * hour, SystemOperationTTL = 1 * hour, ProcessingTimeout = 30 * second,
      FailedRetryBackoff = 5 * second, MaxStoredResponseLen = 64 * 1024, ObserveOnly = True\<rparr>"

record 'd IdempotencyExecuteOptions =
  OptScope :: string
  ActorScope :: string
  Method :: string
  Route :: string
  IdempotencyKey :: string
  Payload :: 'd
  TTL :: duration
  RequireKey :: bool

record 'd IdempotencyExecuteResult =
  Data :: 'd
  Replayed :: bool

datatype 'e idem_error =
    IdempotencyExecutorNil
  | ErrIdempotencyKeyRequired
  | ErrIdempotencyKeyInvalid
  | ErrIdempotencyKeyConflict
  | ErrIdempotencyInProgress "int option"
  | ErrIdempotencyRetryBackoff "int option"
  | ErrIdempotencyStoreUnavail
  | ErrIdempotencyInvalidPayload
  | IdempotencyScopeRequired
  | ExecErr 'e

record 'd idem_env =
  sha256_hex :: "string \<Rightarrow> string"
  json_Marshal :: "'d \<Rightarrow> string option"
  json_Unmarshal :: "string \<Rightarrow> 'd option"
  RedactText :: "string \<Rightarrow> string"
  unicode_upper :: "string \<Rightarrow> string"
  empty_object :: 'd

section \<open>Keys and fingerprints\<close>

text \<open>
  A key is a trimmed string of at most 128 printable ASCII characters.  The Go code ranges over
  runes; a byte outside ASCII starts a rune above 126 (or is decoded as \<^verbatim>\<open>RuneError\<close>), so the test on
  runes and the test on bytes accept the same strings.
\<close>

definition NormalizeIdempotencyKey :: "string \<Rightarrow> 'e idem_error + string" where
  "NormalizeIdempotencyKey raw =
     (let key = TrimSpace raw in
      if key = [] then Inr []
      else if 128 < length key then Inl ErrIdempotencyKeyInvalid
      else if list_ex (\<lambda>c. byte c < 33 \<or> 126 < byte c) key then Inl ErrIdempotencyKeyInvalid
      else Inr key)"

definition HashIdempotencyKey :: "('d, 'z) idem_env_scheme \<Rightarrow> string \<Rightarrow> string" where
  "HashIdempotencyKey env key = sha256_hex env key"

definition newline :: char where
  "newline = CHR 0x0A"

definition BuildIdempotencyFingerprint ::
  "('d, 'z) idem_env_scheme \<Rightarrow> string \<Rightarrow> string \<Rightarrow> string \<Rightarrow> 'd \<Rightarrow> 'e idem_error + string" where
  "BuildIdempotencyFingerprint env method route actorScope payload =
     (let method = (if method = [] then ''POST'' else method);
          route = (if route = [] then ''/'' else route);
          actorScope = (if actorScope = [] then ''anonymous'' else actorScope)
      in case json_Marshal env payload of
           None \<Rightarrow> Inl ErrIdempotencyInvalidPayload
         | Some raw \<Rightarrow>
             Inr (sha256_hex env
               (ToUpper (unicode_upper env) method @ [newline] @ route @ [newline] @ actorScope
                @ [newline] @ raw)))"

section \<open>Stored responses\<close>

function truncateUTF8_loop :: "string \<Rightarrow> nat \<Rightarrow> nat" where
  "truncateUTF8_loop s n =
     (if 0 < n \<and> \<not> ValidString (take n s) then truncateUTF8_loop s (n - 1) else n)"
  by pat_completeness auto
termination by (relation "measure (\<lambda>(s, n). n)") auto

declare truncateUTF8_loop.simps [simp del]

definition truncateUTF8 :: "string \<Rightarrow> int \<Rightarrow> string" where
  "truncateUTF8 s maxBytes =
     (if maxBytes \<le> 0 \<or> int (length s) \<le> maxBytes then s
      else take (truncateUTF8_loop s (nat maxBytes)) s)"

definition truncated_mark :: string where
  "truncated_mark = ''...(truncated)''"

definition marshalStoredResponse ::
  "('d, 'z) idem_env_scheme \<Rightarrow> IdempotencyConfig \<Rightarrow> 'd \<Rightarrow> string option" where
  "marshalStoredResponse env cfg data =
     (case json_Marshal env data of
        None \<Rightarrow> None
      | Some raw \<Rightarrow>
          let redacted = RedactText env raw in
          Some (if 0 < MaxStoredResponseLen cfg \<and> MaxStoredResponseLen cfg < int (length redacted)
                then truncateUTF8 redacted (MaxStoredResponseLen cfg) @ truncated_mark
                else redacted))"

definition decodeStoredResponse :: "('d, 'z) idem_env_scheme \<Rightarrow> string option \<Rightarrow> 'd option" where
  "decodeStoredResponse env stored =
     (case stored of
        None \<Rightarrow> Some (empty_object env)
      | Some s \<Rightarrow> if TrimSpace s = [] then Some (empty_object env) else json_Unmarshal env s)"

section \<open>Executing under a key\<close>

text \<open>\<^verbatim>\<open>int(d.Seconds())\<close>: whole seconds, truncated towards zero.\<close>

definition whole_seconds :: "duration \<Rightarrow> int" where
  "whole_seconds d = (if d < 0 then - ((- d) div second) else d div second)"

definition retryAfterSeconds :: "gtime option \<Rightarrow> gtime \<Rightarrow> int option" where
  "retryAfterSeconds lockedUntil now =
     (case lockedUntil of
        None \<Rightarrow> None
      | Some l \<Rightarrow> let sec = whole_seconds (time_sub l now) in Some (if sec \<le> 0 then 1 else sec))"

text \<open>The outcome of the claim protocol: the identifier of the record to execute under, or an
  answer that is returned without executing.\<close>

datatype ('e, 'd) claim =
    Owned int64
  | Answer "'e idem_error + 'd IdempotencyExecuteResult"

definition claim_by_status ::
  "('d, 'z) idem_env_scheme \<Rightarrow> 'st IdempotencyRepository \<Rightarrow> IdempotencyRecord \<Rightarrow>
   gtime \<Rightarrow> gtime \<Rightarrow> gtime \<Rightarrow> 'st \<Rightarrow> ('e, 'd) claim \<times> 'st" where
  "claim_by_status env repo existing now lockedUntil expiresAt st =
     (if Status existing = IdempotencyStatusSucceeded then
        (case decodeStoredResponse env (ResponseBody existing) of
           None \<Rightarrow> (Answer (Inl ErrIdempotencyStoreUnavail), st)
         | Some data \<Rightarrow> (Answer (Inr \<lparr>Data = data, Replayed = True\<rparr>), st))
      else if Status existing = IdempotencyStatusProcessing then
        (Answer (Inl (ErrIdempotencyInProgress (retryAfterSeconds (LockedUntil existing) now))), st)
      else if Status existing = IdempotencyStatusFailedRetryable then
        (if (case LockedUntil existing of None \<Rightarrow> False | Some l \<Rightarrow> now < l) then
           (Answer (Inl (ErrIdempotencyRetryBackoff (retryAfterSeconds (LockedUntil existing) now))), st)
         else
           case TryReclaim repo st (ID existing) IdempotencyStatusFailedRetryable now lockedUntil expiresAt of
             (Inl _, st') \<Rightarrow> (Answer (Inl ErrIdempotencyStoreUnavail), st')
           | (Inr taken, st') \<Rightarrow>
               (if taken then (Owned (ID existing), st')
                else (Answer (Inl (ErrIdempotencyInProgress
                        (retryAfterSeconds (LockedUntil existing) now))), st')))
      else (Answer (Inl ErrIdempotencyKeyConflict), st))"

definition claim_existing ::
  "('d, 'z) idem_env_scheme \<Rightarrow> 'st IdempotencyRepository \<Rightarrow> string \<Rightarrow> string \<Rightarrow> string \<Rightarrow>
   gtime \<Rightarrow> gtime \<Rightarrow> gtime \<Rightarrow> 'st \<Rightarrow> ('e, 'd) claim \<times> 'st" where
  "claim_existing env repo scope keyHash fingerprint now lockedUntil expiresAt st =
     (case GetByScopeAndKeyHash repo st scope keyHash of
        (Inl _, st1) \<Rightarrow> (Answer (Inl ErrIdempotencyStoreUnavail), st1)
      | (Inr None, st1) \<Rightarrow> (Answer (Inl ErrIdempotencyStoreUnavail), st1)
      | (Inr (Some existing), st1) \<Rightarrow>
          (if RequestFingerprint existing \<noteq> fingerprint then
             (Answer (Inl ErrIdempotencyKeyConflict), st1)
           else if \<not> (now < ExpiresAt existing) then
             (case TryReclaim repo st1 (ID existing) (Status existing) now lockedUntil expiresAt of
                (Inl _, st2) \<Rightarrow> (Answer (Inl ErrIdempotencyStoreUnavail), st2)
              | (Inr True, st2) \<Rightarrow> (Owned (ID existing), st2)
              | (Inr False, st2) \<Rightarrow>
                  (case GetByScopeAndKeyHash repo st2 scope keyHash of
                     (Inl _, st3) \<Rightarrow> (Answer (Inl ErrIdempotencyStoreUnavail), st3)
                   | (Inr None, st3) \<Rightarrow> (Answer (Inl ErrIdempotencyStoreUnavail), st3)
                   | (Inr (Some latest), st3) \<Rightarrow>
                       (if RequestFingerprint latest \<noteq> fingerprint
                        then (Answer (Inl ErrIdempotencyKeyConflict), st3)
                        else claim_by_status env repo latest now lockedUntil expiresAt st3)))
           else claim_by_status env repo existing now lockedUntil expiresAt st1))"

definition claim_record ::
  "('d, 'z) idem_env_scheme \<Rightarrow> 'st IdempotencyRepository \<Rightarrow> string \<Rightarrow> string \<Rightarrow> string \<Rightarrow>
   gtime \<Rightarrow> gtime \<Rightarrow> gtime \<Rightarrow> 'st \<Rightarrow> ('e, 'd) claim \<times> 'st" where
  "claim_record env repo scope keyHash fingerprint now lockedUntil expiresAt st =
     (let record0 =
        \<lparr>ID = 0, Scope = scope, IdempotencyKeyHash = keyHash, RequestFingerprint = fingerprint,
         Status = IdempotencyStatusProcessing, ResponseStatus = None, ResponseBody = None,
         ErrorReason = None, LockedUntil = Some lockedUntil, ExpiresAt = expiresAt,
         CreatedAt = zero_time, UpdatedAt = zero_time\<rparr>
      in case CreateProcessing repo st record0 of
           (Inl _, st') \<Rightarrow> (Answer (Inl ErrIdempotencyStoreUnavail), st')
         | (Inr (owner, record1), st') \<Rightarrow>
             (if owner then (Owned (ID record1), st')
              else claim_existing env repo scope keyHash fingerprint now lockedUntil expiresAt st'))"

text \<open>
  Running the operation under a claimed record and storing its outcome.  \<open>failedAt\<close> is the clock
  after a failed run; \<open>reasonOf\<close> is \<^verbatim>\<open>infraerrors.Reason\<close>.
\<close>

definition execute_claimed ::
  "('d, 'z) idem_env_scheme \<Rightarrow> IdempotencyConfig \<Rightarrow> 'st IdempotencyRepository \<Rightarrow> ('e \<Rightarrow> string) \<Rightarrow>
   ('w \<Rightarrow> ('e + 'd) \<times> 'w) \<Rightarrow> gtime \<Rightarrow> gtime \<Rightarrow> int64 \<Rightarrow> 'st \<Rightarrow> 'w \<Rightarrow>
   ('e idem_error + 'd IdempotencyExecuteResult) \<times> 'st \<times> 'w" where
  "execute_claimed env cfg repo reasonOf execute failedAt expiresAt recordID st w =
     (if recordID = 0 then (Inl ErrIdempotencyStoreUnavail, st, w)
      else case execute w of
        (Inl execErr, w') \<Rightarrow>
          (let backoffUntil = failedAt + FailedRetryBackoff cfg;
               reason = (if reasonOf execErr = [] then ''EXECUTION_FAILED'' else reasonOf execErr);
               (_, st') = MarkFailedRetryable repo st recordID reason backoffUntil expiresAt
           in (Inl (ExecErr execErr), st', w'))
      | (Inr data, w') \<Rightarrow>
          (case marshalStoredResponse env cfg data of
             None \<Rightarrow> (Inl ErrIdempotencyStoreUnavail, st, w')
           | Some storedBody \<Rightarrow>
               (case MarkSucceeded repo st recordID 200 storedBody expiresAt of
                  (Inl _, st') \<Rightarrow> (Inl ErrIdempotencyStoreUnavail, st', w')
                | (Inr _, st') \<Rightarrow> (Inr \<lparr>Data = data, Replayed = False\<rparr>, st', w'))))"

definition Execute ::
  "('d, 'z) idem_env_scheme \<Rightarrow> IdempotencyConfig \<Rightarrow> 'st IdempotencyRepository option \<Rightarrow> ('e \<Rightarrow> string) \<Rightarrow>
   'd IdempotencyExecuteOptions \<Rightarrow> ('w \<Rightarrow> ('e + 'd) \<times> 'w) option \<Rightarrow> gtime \<Rightarrow> gtime \<Rightarrow> 'st \<Rightarrow> 'w \<Rightarrow>
   ('e idem_error + 'd IdempotencyExecuteResult) \<times> 'st \<times> 'w" where
  "Execute env cfg repo_opt reasonOf opts execute_opt now failedAt st w =
     (case execute_opt of
        None \<Rightarrow> (Inl IdempotencyExecutorNil, st, w)
      | Some execute \<Rightarrow>
     (case NormalizeIdempotencyKey (IdempotencyKey opts) of
        Inl e \<Rightarrow> (Inl e, st, w)
      | Inr key \<Rightarrow>
          if key = [] then
            (if RequireKey opts \<and> \<not> ObserveOnly cfg then (Inl ErrIdempotencyKeyRequired, st, w)
             else case execute w of
                 (Inl e, w') \<Rightarrow> (Inl (ExecErr e), st, w')
               | (Inr data, w') \<Rightarrow> (Inr \<lparr>Data = data, Replayed = False\<rparr>, st, w'))
          else
     (case repo_opt of
        None \<Rightarrow> (Inl ErrIdempotencyStoreUnavail, st, w)
      | Some repo \<Rightarrow>
          if OptScope opts = [] then (Inl IdempotencyScopeRequired, st, w)
          else
     (case BuildIdempotencyFingerprint env (Method opts) (Route opts) (ActorScope opts) (Payload opts) of
        Inl e \<Rightarrow> (Inl e, st, w)
      | Inr fingerprint \<Rightarrow>
          let ttl = (if TTL opts \<le> 0 then DefaultTTL cfg else TTL opts);
              expiresAt = now + ttl;
              lockedUntil = now + ProcessingTimeout cfg;
              keyHash = HashIdempotencyKey env key
          in (case claim_record env repo (OptScope opts) keyHash fingerprint now lockedUntil expiresAt st of
                (Answer r, st') \<Rightarrow> (r, st', w)
              | (Owned recordID, st') \<Rightarrow>
                  execute_claimed env cfg repo reasonOf execute failedAt expiresAt recordID st' w)))))"


section \<open>Helper facts\<close>

lemma truncateUTF8_loop_le: "truncateUTF8_loop s n \<le> n"
proof (induction s n rule: truncateUTF8_loop.induct)
  case (1 s n)
  then show ?case by (subst truncateUTF8_loop.simps) (auto intro: order_trans)
qed

lemma truncateUTF8_loop_valid: "ValidString (take (truncateUTF8_loop s n) s)"
proof (induction s n rule: truncateUTF8_loop.induct)
  case (1 s n)
  show ?case
  proof (cases "0 < n \<and> \<not> ValidString (take n s)")
    case True
    with 1 show ?thesis by (subst truncateUTF8_loop.simps) simp
  next
    case False
    then show ?thesis by (subst truncateUTF8_loop.simps) auto
  qed
qed

lemma truncateUTF8_loop_max: "m \<le> n \<Longrightarrow> ValidString (take m s) \<Longrightarrow> m \<le> truncateUTF8_loop s n"
proof (induction s n rule: truncateUTF8_loop.induct)
  case (1 s n)
  show ?case
  proof (cases "0 < n \<and> \<not> ValidString (take n s)")
    case True
    with "1.prems" have "m \<le> n - 1" by (cases "m = n") auto
    with 1 True show ?thesis by (subst truncateUTF8_loop.simps) auto
  next
    case False
    with "1.prems" show ?thesis by (subst truncateUTF8_loop.simps) auto
  qed
qed

lemma retryAfterSeconds_pos: "retryAfterSeconds l now = Some n \<Longrightarrow> 1 \<le> n"
  by (auto simp: retryAfterSeconds_def Let_def split: option.splits if_splits)

text \<open>The scope, key hash and fingerprint under which a well-formed keyed request runs.\<close>

definition request_of ::
  "('d, 'z) idem_env_scheme \<Rightarrow> 'd IdempotencyExecuteOptions \<Rightarrow> (string \<times> string \<times> string) option" where
  "request_of env opts =
     (case (NormalizeIdempotencyKey (IdempotencyKey opts) :: unit idem_error + string) of
        Inl _ \<Rightarrow> None
      | Inr key \<Rightarrow>
          if key = [] \<or> OptScope opts = [] then None
          else case (BuildIdempotencyFingerprint env (Method opts) (Route opts) (ActorScope opts)
                 (Payload opts) :: unit idem_error + string) of
              Inl _ \<Rightarrow> None
            | Inr fp \<Rightarrow> Some (OptScope opts, HashIdempotencyKey env key, fp))"

definition expiry :: "IdempotencyConfig \<Rightarrow> 'd IdempotencyExecuteOptions \<Rightarrow> gtime \<Rightarrow> gtime" where
  "expiry cfg opts now = now + (if TTL opts \<le> 0 then DefaultTTL cfg else TTL opts)"

lemma NormalizeIdempotencyKey_Inr:
  "(NormalizeIdempotencyKey raw :: 'a idem_error + string) = Inr k \<Longrightarrow>
   (NormalizeIdempotencyKey raw :: 'b idem_error + string) = Inr k"
  by (auto simp: NormalizeIdempotencyKey_def Let_def split: if_splits)

lemma BuildIdempotencyFingerprint_Inr:
  "(BuildIdempotencyFingerprint env m r a p :: 'a idem_error + string) = Inr k \<Longrightarrow>
   (BuildIdempotencyFingerprint env m r a p :: 'b idem_error + string) = Inr k"
  unfolding BuildIdempotencyFingerprint_def Let_def by (cases "json_Marshal env p") auto

lemma Execute_request:
  assumes "request_of env opts = Some (s, h, f)"
  shows "Execute env cfg (Some repo) reasonOf opts (Some execute) now failedAt st w =
    (case claim_record env repo s h f now (now + ProcessingTimeout cfg) (expiry cfg opts now) st of
       (Answer r, st') \<Rightarrow> (r, st', w)
     | (Owned i, st') \<Rightarrow>
         execute_claimed env cfg repo reasonOf execute failedAt (expiry cfg opts now) i st' w)"
proof -
  obtain key where k: "(NormalizeIdempotencyKey (IdempotencyKey opts) :: unit idem_error + string) = Inr key"
    using assms by (cases "NormalizeIdempotencyKey (IdempotencyKey opts) :: unit idem_error + string")
      (auto simp: request_of_def)
  obtain f' where f': "(BuildIdempotencyFingerprint env (Method opts) (Route opts) (ActorScope opts)
      (Payload opts) :: unit idem_error + string) = Inr f'"
    using assms k by (cases "BuildIdempotencyFingerprint env (Method opts) (Route opts) (ActorScope opts)
      (Payload opts) :: unit idem_error + string") (auto simp: request_of_def split: if_split_asm)
  have ne: "key \<noteq> []" "OptScope opts \<noteq> []" "s = OptScope opts" "h = HashIdempotencyKey env key"
    and f: "f' = f"
    using assms k f' by (auto simp: request_of_def split: if_split_asm)
  show ?thesis
    unfolding Execute_def expiry_def Let_def
    by (simp add: NormalizeIdempotencyKey_Inr [OF k] BuildIdempotencyFingerprint_Inr [OF f'] f ne)
qed

section \<open>The coordinator over any store\<close>

text \<open>A record in progress for a request.\<close>

definition claimed :: "string \<Rightarrow> string \<Rightarrow> string \<Rightarrow> gtime \<Rightarrow> gtime \<Rightarrow> IdempotencyRecord \<Rightarrow> bool" where
  "claimed s h f lockedUntil expiresAt x \<longleftrightarrow>
     Scope x = s \<and> IdempotencyKeyHash x = h \<and> RequestFingerprint x = f \<and>
     Status x = IdempotencyStatusProcessing \<and> LockedUntil x = Some lockedUntil \<and> ExpiresAt x = expiresAt"

context idem_store
begin

lemma claim_fresh:
  assumes "inv st" and "look st (s, h) = None"
  shows "\<exists>i x st'. claim_record env repo s h f now l e st = (Owned i, st') \<and> inv st' \<and> 0 < i \<and>
    look st' = (look st)((s, h) \<mapsto> x) \<and> ID x = i \<and> claimed s h f l e x"
proof -
  let ?r = "\<lparr>ID = 0, Scope = s, IdempotencyKeyHash = h, RequestFingerprint = f,
         Status = IdempotencyStatusProcessing, ResponseStatus = None, ResponseBody = None,
         ErrorReason = None, LockedUntil = Some l, ExpiresAt = e,
         CreatedAt = zero_time, UpdatedAt = zero_time\<rparr>"
  have "row_key ?r = (s, h)" by (simp add: row_key_def)
  with create_fresh [OF assms(1), of ?r] assms(2) obtain i t st' where
    "CreateProcessing repo st ?r = (Inr (True, ?r\<lparr>ID := i, CreatedAt := t, UpdatedAt := t\<rparr>), st')"
    "inv st'" "0 < i" and look': "look st' = (look st)((s, h) \<mapsto> ?r\<lparr>ID := i, CreatedAt := t, UpdatedAt := t,
            ResponseStatus := None, ResponseBody := None, ErrorReason := None\<rparr>)"
    by auto
  then have "claim_record env repo s h f now l e st = (Owned i, st')"
    by (simp add: claim_record_def)
  moreover have "claimed s h f l e (?r\<lparr>ID := i, CreatedAt := t, UpdatedAt := t,
            ResponseStatus := None, ResponseBody := None, ErrorReason := None\<rparr>)"
    by (simp add: claimed_def)
  ultimately show ?thesis using \<open>inv st'\<close> \<open>0 < i\<close> look'
    by (metis (no_types, lifting) IdempotencyRecord.select_convs(1) IdempotencyRecord.update_convs(1)
        IdempotencyRecord.update_convs(6) IdempotencyRecord.update_convs(7)
        IdempotencyRecord.update_convs(8) IdempotencyRecord.update_convs(11)
        IdempotencyRecord.update_convs(12))
qed

text \<open>When a record exists the claim reads it, after an insert that changed no record.\<close>

lemma claim_taken:
  assumes "inv st" and "look st (s, h) = Some x"
  shows "\<exists>st1. inv st1 \<and> look st1 = look st \<and>
    claim_record env repo s h f now l e st =
      (if RequestFingerprint x \<noteq> f then (Answer (Inl ErrIdempotencyKeyConflict), st1)
       else if \<not> (now < ExpiresAt x) then
         (case TryReclaim repo st1 (ID x) (Status x) now l e of
            (Inl _, st2) \<Rightarrow> (Answer (Inl ErrIdempotencyStoreUnavail), st2)
          | (Inr True, st2) \<Rightarrow> (Owned (ID x), st2)
          | (Inr False, st2) \<Rightarrow>
              (case GetByScopeAndKeyHash repo st2 s h of
                 (Inl _, st3) \<Rightarrow> (Answer (Inl ErrIdempotencyStoreUnavail), st3)
               | (Inr None, st3) \<Rightarrow> (Answer (Inl ErrIdempotencyStoreUnavail), st3)
               | (Inr (Some latest), st3) \<Rightarrow>
                   (if RequestFingerprint latest \<noteq> f
                    then (Answer (Inl ErrIdempotencyKeyConflict), st3)
                    else claim_by_status env repo latest now l e st3)))
       else claim_by_status env repo x now l e st1)"
proof -
  let ?r = "\<lparr>ID = 0, Scope = s, IdempotencyKeyHash = h, RequestFingerprint = f,
         Status = IdempotencyStatusProcessing, ResponseStatus = None, ResponseBody = None,
         ErrorReason = None, LockedUntil = Some l, ExpiresAt = e,
         CreatedAt = zero_time, UpdatedAt = zero_time\<rparr>"
  have "row_key ?r = (s, h)" by (simp add: row_key_def)
  with create_taken [OF assms(1), of ?r] assms(2) obtain st1 where
    st1: "CreateProcessing repo st ?r = (Inr (False, ?r), st1)" "inv st1" "look st1 = look st" by auto
  moreover from st1 assms(2) have "GetByScopeAndKeyHash repo st1 s h = (Inr (Some x), st1)"
    by (simp add: get)
  ultimately show ?thesis
    by (intro exI [of _ st1]) (simp add: claim_record_def claim_existing_def)
qed

lemma claim_conflict:
  assumes "inv st" "look st (s, h) = Some x" "RequestFingerprint x \<noteq> f"
  shows "\<exists>st'. claim_record env repo s h f now l e st = (Answer (Inl ErrIdempotencyKeyConflict), st') \<and>
    inv st' \<and> look st' = look st"
  using claim_taken [OF assms(1,2), of env f now l e] assms(3) by auto

lemma claim_live:
  assumes "inv st" "look st (s, h) = Some x" "RequestFingerprint x = f" "now < ExpiresAt x"
  shows "\<exists>st1. inv st1 \<and> look st1 = look st \<and>
    claim_record env repo s h f now l e st = claim_by_status env repo x now l e st1"
  using claim_taken [OF assms(1,2), of env f now l e] assms(3,4) by auto

lemma claim_replay:
  assumes "inv st" "look st (s, h) = Some x" "RequestFingerprint x = f" "now < ExpiresAt x"
    and "Status x = IdempotencyStatusSucceeded"
  shows "\<exists>st'. claim_record env repo s h f now l e st =
      (Answer (case decodeStoredResponse env (ResponseBody x) of
         None \<Rightarrow> Inl ErrIdempotencyStoreUnavail
       | Some d \<Rightarrow> Inr \<lparr>Data = d, Replayed = True\<rparr>), st') \<and> inv st' \<and> look st' = look st"
  using claim_live [OF assms(1-4), of env l e] assms(5)
  by (auto simp: claim_by_status_def split: option.splits)

lemma claim_in_progress:
  assumes "inv st" "look st (s, h) = Some x" "RequestFingerprint x = f" "now < ExpiresAt x"
    and "Status x = IdempotencyStatusProcessing"
  shows "\<exists>st'. claim_record env repo s h f now l e st =
      (Answer (Inl (ErrIdempotencyInProgress (retryAfterSeconds (LockedUntil x) now))), st') \<and>
      inv st' \<and> look st' = look st"
  using claim_live [OF assms(1-4), of env l e] assms(5) by (auto simp: claim_by_status_def)

lemma claim_backoff:
  assumes "inv st" "look st (s, h) = Some x" "RequestFingerprint x = f" "now < ExpiresAt x"
    and "Status x = IdempotencyStatusFailedRetryable" "LockedUntil x = Some u" "now < u"
  shows "\<exists>st'. claim_record env repo s h f now l e st =
      (Answer (Inl (ErrIdempotencyRetryBackoff (retryAfterSeconds (Some u) now))), st') \<and>
      inv st' \<and> look st' = look st"
  using claim_live [OF assms(1-4), of env l e] assms(5-7) by (auto simp: claim_by_status_def)

lemma claim_retry:
  assumes "inv st" "look st (s, h) = Some x" "RequestFingerprint x = f" "now < ExpiresAt x"
    and "Status x = IdempotencyStatusFailedRetryable" "unlocked x now"
  shows "\<exists>y st'. (claim_record env repo s h f now l e st :: ('e, 'd) claim \<times> 'st) = (Owned (ID x), st') \<and> inv st' \<and>
    look st' = (look st)((s, h) \<mapsto> y) \<and> ID y = ID x \<and> claimed s h f l e y"
proof -
  from claim_live [OF assms(1-4), of env l e] obtain st1 where
    st1: "inv st1" "look st1 = look st"
      "(claim_record env repo s h f now l e st :: ('e, 'd) claim \<times> 'st) =
       claim_by_status env repo x now l e st1" by blast
  have "look st1 (s, h) = Some x" using st1 assms(2) by simp
  from reclaim [OF st1(1) this, of IdempotencyStatusFailedRetryable now l e] assms(5,6)
  obtain t st' where st': "TryReclaim repo st1 (ID x) IdempotencyStatusFailedRetryable now l e = (Inr True, st')"
    "inv st'" and look': "look st' = (look st1)((s, h) \<mapsto> x\<lparr>Status := IdempotencyStatusProcessing,
       LockedUntil := Some l, ErrorReason := None, UpdatedAt := t, ExpiresAt := e\<rparr>)" by auto
  have "(claim_record env repo s h f now l e st :: ('e, 'd) claim \<times> 'st) = (Owned (ID x), st')"
    using st1(3) st' assms(5,6) by (auto simp: claim_by_status_def unlocked_def split: option.splits)
  moreover have "row_key x = (s, h)" using look_key assms(1,2) by blast
  ultimately show ?thesis using st' look' st1(2) assms(3)
    by (intro exI [of _ "x\<lparr>Status := IdempotencyStatusProcessing,
       LockedUntil := Some l, ErrorReason := None, UpdatedAt := t, ExpiresAt := e\<rparr>"] exI [of _ st'])
      (simp add: claimed_def row_key_def)
qed

text \<open>A claim is granted only for an absent record, or for an unlocked one of the same request
  that has expired or failed.\<close>

definition claimable :: "'st \<Rightarrow> string \<Rightarrow> string \<Rightarrow> string \<Rightarrow> gtime \<Rightarrow> bool" where
  "claimable st s h f now \<longleftrightarrow>
     (case look st (s, h) of None \<Rightarrow> True
      | Some x \<Rightarrow> RequestFingerprint x = f \<and> unlocked x now \<and>
          (ExpiresAt x \<le> now \<or> Status x = IdempotencyStatusFailedRetryable))"

lemma claim_by_status_owned:
  assumes "inv st" "look st k = Some x" "claim_by_status env repo x now l e st = (Owned i, st')"
  shows "Status x = IdempotencyStatusFailedRetryable \<and> unlocked x now"
  using assms(3) reclaim [OF assms(1,2), of IdempotencyStatusFailedRetryable now l e]
  by (auto simp: claim_by_status_def unlocked_def split: if_splits option.splits sum.splits prod.splits)

lemma claim_owned_claimable:
  assumes inv: "inv st"
    and own: "(claim_record env repo s h f now l e st :: ('e, 'd) claim \<times> 'st) = (Owned i, st')"
  shows "claimable st s h f now"
proof (cases "look st (s, h)")
  case None
  then show ?thesis by (simp add: claimable_def)
next
  case (Some x)
  from claim_taken [OF inv Some, of env f now l e] obtain st1 where st1: "inv st1" "look st1 = look st"
    and eq: "(claim_record env repo s h f now l e st :: ('e, 'd) claim \<times> 'st) =
      (if RequestFingerprint x \<noteq> f then (Answer (Inl ErrIdempotencyKeyConflict), st1)
       else if \<not> (now < ExpiresAt x) then
         (case TryReclaim repo st1 (ID x) (Status x) now l e of
            (Inl _, st2) \<Rightarrow> (Answer (Inl ErrIdempotencyStoreUnavail), st2)
          | (Inr True, st2) \<Rightarrow> (Owned (ID x), st2)
          | (Inr False, st2) \<Rightarrow>
              (case GetByScopeAndKeyHash repo st2 s h of
                 (Inl _, st3) \<Rightarrow> (Answer (Inl ErrIdempotencyStoreUnavail), st3)
               | (Inr None, st3) \<Rightarrow> (Answer (Inl ErrIdempotencyStoreUnavail), st3)
               | (Inr (Some latest), st3) \<Rightarrow>
                   (if RequestFingerprint latest \<noteq> f
                    then (Answer (Inl ErrIdempotencyKeyConflict), st3)
                    else claim_by_status env repo latest now l e st3)))
       else claim_by_status env repo x now l e st1)" by blast
  have f: "RequestFingerprint x = f" using own eq by (auto split: if_splits)
  have x1: "look st1 (s, h) = Some x" using st1 Some by simp
  have "unlocked x now \<and> (ExpiresAt x \<le> now \<or> Status x = IdempotencyStatusFailedRetryable)"
  proof (cases "now < ExpiresAt x")
    case True
    with own eq f have "(claim_by_status env repo x now l e st1 :: ('e, 'd) claim \<times> 'st) = (Owned i, st')" by simp
    from claim_by_status_owned [OF st1(1) x1 this] show ?thesis by simp
  next
    case False
    from reclaim [OF st1(1) x1, of "Status x" now l e] obtain st2 where
      st2: "TryReclaim repo st1 (ID x) (Status x) now l e = (Inr (unlocked x now), st2)" "inv st2"
      "unlocked x now \<or> look st2 = look st1" by auto
    have "unlocked x now"
    proof (rule ccontr)
      assume locked: "\<not> unlocked x now"
      then have "look st2 (s, h) = Some x" "inv st2" using st2 x1 by auto
      moreover from this locked own eq f False st2(1)
      have "(claim_by_status env repo x now l e st2 :: ('e, 'd) claim \<times> 'st) = (Owned i, st')" by (simp add: get)
      ultimately have "unlocked x now" using claim_by_status_owned by blast
      with locked show False by simp
    qed
    with False show ?thesis by simp
  qed
  with Some f show ?thesis by (simp add: claimable_def)
qed

text \<open>What a successful and a failed run leave in the record.\<close>

lemma execute_claimed_success:
  assumes "inv st" "look st k = Some x" "execute w = (Inr d, w')"
    and "marshalStoredResponse env cfg d = Some body"
  shows "\<exists>y st'. execute_claimed env cfg repo reasonOf execute failedAt e (ID x) st w =
      (Inr \<lparr>Data = d, Replayed = False\<rparr>, st', w') \<and> inv st' \<and> look st' = (look st)(k \<mapsto> y) \<and>
      Status y = IdempotencyStatusSucceeded \<and> ResponseBody y = Some body \<and> ExpiresAt y = e \<and>
      LockedUntil y = None \<and> RequestFingerprint y = RequestFingerprint x"
proof -
  have "ID x \<noteq> 0" using look_key [OF assms(1,2)] by auto
  moreover from mark_succeeded [OF assms(1,2), of 200 body e] obtain t st' where
    "MarkSucceeded repo st (ID x) 200 body e = (Inr (), st')" "inv st'"
    "look st' = (look st)(k \<mapsto> x\<lparr>Status := IdempotencyStatusSucceeded, ResponseStatus := Some 200,
          ResponseBody := Some body, ErrorReason := None, LockedUntil := None, ExpiresAt := e,
          UpdatedAt := t\<rparr>)" by blast
  ultimately show ?thesis using assms(3,4)
    by (intro exI [of _ "x\<lparr>Status := IdempotencyStatusSucceeded, ResponseStatus := Some 200,
          ResponseBody := Some body, ErrorReason := None, LockedUntil := None, ExpiresAt := e,
          UpdatedAt := t\<rparr>"] exI [of _ st']) (simp add: execute_claimed_def)
qed

lemma execute_claimed_failure:
  assumes "inv st" "look st k = Some x" "execute w = (Inl err, w')"
  shows "\<exists>y st'. execute_claimed env cfg repo reasonOf execute failedAt e (ID x) st w =
      (Inl (ExecErr err), st', w') \<and> inv st' \<and> look st' = (look st)(k \<mapsto> y) \<and>
      Status y = IdempotencyStatusFailedRetryable \<and> ExpiresAt y = e \<and>
      LockedUntil y = Some (failedAt + FailedRetryBackoff cfg) \<and>
      RequestFingerprint y = RequestFingerprint x"
proof -
  have "ID x \<noteq> 0" using look_key [OF assms(1,2)] by auto
  moreover from mark_failed [OF assms(1,2)] obtain t st' where
    "MarkFailedRetryable repo st (ID x) (if reasonOf err = [] then ''EXECUTION_FAILED'' else reasonOf err)
       (failedAt + FailedRetryBackoff cfg) e = (Inr (), st')" "inv st'"
    "look st' = (look st)(k \<mapsto> x\<lparr>Status := IdempotencyStatusFailedRetryable,
          ErrorReason := Some (if reasonOf err = [] then ''EXECUTION_FAILED'' else reasonOf err),
          LockedUntil := Some (failedAt + FailedRetryBackoff cfg), ExpiresAt := e, UpdatedAt := t\<rparr>)"
    by blast
  ultimately show ?thesis using assms(3)
    by (intro exI [of _ "x\<lparr>Status := IdempotencyStatusFailedRetryable,
          ErrorReason := Some (if reasonOf err = [] then ''EXECUTION_FAILED'' else reasonOf err),
          LockedUntil := Some (failedAt + FailedRetryBackoff cfg), ExpiresAt := e, UpdatedAt := t\<rparr>"]
          exI [of _ st']) (simp add: execute_claimed_def Let_def)
qed

lemma Execute_first:
  fixes env :: "('d, 'z) idem_env_scheme" and execute :: "'w \<Rightarrow> ('e + 'd) \<times> 'w"
  assumes inv: "inv st" and rq: "request_of env opts = Some (s, h, f)" and new: "look st (s, h) = None"
    and run: "execute w = (Inr d, w')" and body: "marshalStoredResponse env cfg d = Some body"
  shows "\<exists>y st'. Execute env cfg (Some repo) reasonOf opts (Some execute) now failedAt st w =
      (Inr \<lparr>Data = d, Replayed = False\<rparr>, st', w') \<and> inv st' \<and> look st' (s, h) = Some y \<and>
      Status y = IdempotencyStatusSucceeded \<and> ResponseBody y = Some body \<and>
      ExpiresAt y = expiry cfg opts now \<and> RequestFingerprint y = f"
proof -
  let ?e = "expiry cfg opts now"
  from claim_fresh [OF inv new, of env f now "now + ProcessingTimeout cfg" ?e] obtain x st1 where
    c: "(claim_record env repo s h f now (now + ProcessingTimeout cfg) ?e st :: ('e, 'd) claim \<times> 'st) =
        (Owned (ID x), st1)" and i1: "inv st1" and l1: "look st1 (s, h) = Some x"
    and x: "claimed s h f (now + ProcessingTimeout cfg) ?e x" by fastforce
  from execute_claimed_success [where execute = execute and w = w, OF i1 l1 run body, of reasonOf failedAt ?e] c x show ?thesis
    by (fastforce simp: Execute_request [OF rq] claimed_def)
qed

lemma Execute_first_failed:
  fixes env :: "('d, 'z) idem_env_scheme" and execute :: "'w \<Rightarrow> ('e + 'd) \<times> 'w"
  assumes inv: "inv st" and rq: "request_of env opts = Some (s, h, f)" and new: "look st (s, h) = None"
    and run: "execute w = (Inl err, w')"
  shows "\<exists>y st'. Execute env cfg (Some repo) reasonOf opts (Some execute) now failedAt st w =
      (Inl (ExecErr err), st', w') \<and> inv st' \<and> look st' (s, h) = Some y \<and>
      Status y = IdempotencyStatusFailedRetryable \<and> LockedUntil y = Some (failedAt + FailedRetryBackoff cfg) \<and>
      ExpiresAt y = expiry cfg opts now \<and> RequestFingerprint y = f"
proof -
  let ?e = "expiry cfg opts now"
  from claim_fresh [OF inv new, of env f now "now + ProcessingTimeout cfg" ?e] obtain x st1 where
    c: "(claim_record env repo s h f now (now + ProcessingTimeout cfg) ?e st :: ('e, 'd) claim \<times> 'st) =
        (Owned (ID x), st1)" and i1: "inv st1" and l1: "look st1 (s, h) = Some x"
    and x: "claimed s h f (now + ProcessingTimeout cfg) ?e x" by fastforce
  from execute_claimed_failure [where execute = execute and w = w, OF i1 l1 run, of env cfg reasonOf failedAt ?e] c x show ?thesis
    by (fastforce simp: Execute_request [OF rq] claimed_def)
qed

text \<open>An answered claim returns without running the operation.\<close>

lemma Execute_answer:
  assumes "request_of env opts = Some (s, h, f)"
    and "\<exists>st'. claim_record env repo s h f now (now + ProcessingTimeout cfg) (expiry cfg opts now) st =
      (Answer r, st') \<and> inv st' \<and> look st' = look st"
  shows "\<exists>st'. Execute env cfg (Some repo) reasonOf opts (Some execute) now failedAt st w = (r, st', w) \<and>
    inv st' \<and> look st' = look st"
  using assms(2) by (auto simp: Execute_request [OF assms(1)])

lemmas Execute_replay = Execute_answer [OF _ claim_replay]
lemmas Execute_conflict = Execute_answer [OF _ claim_conflict]
lemmas Execute_in_progress = Execute_answer [OF _ claim_in_progress]
lemmas Execute_backoff = Execute_answer [OF _ claim_backoff]

lemma Execute_retry:
  fixes env :: "('d, 'z) idem_env_scheme" and execute :: "'w \<Rightarrow> ('e + 'd) \<times> 'w"
  assumes inv: "inv st" and rq: "request_of env opts = Some (s, h, f)" and x: "look st (s, h) = Some x"
    and live: "RequestFingerprint x = f" "now < ExpiresAt x" "Status x = IdempotencyStatusFailedRetryable"
      "unlocked x now"
    and run: "execute w = (Inr d, w')" and body: "marshalStoredResponse env cfg d = Some body"
  shows "\<exists>st'. Execute env cfg (Some repo) reasonOf opts (Some execute) now failedAt st w =
      (Inr \<lparr>Data = d, Replayed = False\<rparr>, st', w')"
proof -
  let ?e = "expiry cfg opts now"
  from claim_retry [OF inv x live, of env "now + ProcessingTimeout cfg" ?e] obtain y st1 where
    c: "(claim_record env repo s h f now (now + ProcessingTimeout cfg) ?e st :: ('e, 'd) claim \<times> 'st) =
        (Owned (ID x), st1)" and i1: "inv st1" and l1: "look st1 (s, h) = Some y" and id: "ID y = ID x" by fastforce
  from execute_claimed_success [where execute = execute and w = w, OF i1 l1 run body, of reasonOf failedAt ?e] c id
  show ?thesis by (fastforce simp: Execute_request [OF rq])
qed

lemma Execute_effect_claimable:
  fixes env :: "('d, 'z) idem_env_scheme" and execute :: "'w \<Rightarrow> ('e + 'd) \<times> 'w"
  assumes inv: "inv st" and rq: "request_of env opts = Some (s, h, f)"
    and ex: "Execute env cfg (Some repo) reasonOf opts (Some execute) now failedAt st w = (r, st', w')"
    and eff: "w' \<noteq> w"
  shows "claimable st s h f now"
proof -
  obtain c :: "('e, 'd) claim" and st1 where c: "claim_record env repo s h f now
      (now + ProcessingTimeout cfg) (expiry cfg opts now) st = (c, st1)" by fastforce
  show ?thesis
  proof (cases c)
    case (Owned i)
    with c claim_owned_claimable [OF inv] show ?thesis by blast
  next
    case (Answer a)
    with c ex eff show ?thesis by (simp add: Execute_request [OF rq])
  qed
qed

end

section \<open>A concrete environment for the witnesses\<close>

definition quote :: char where
  "quote = CHR 0x22"

definition demo_env :: "string idem_env" where
  "demo_env = \<lparr>sha256_hex = id, json_Marshal = (\<lambda>d. Some (quote # d @ [quote])),
     json_Unmarshal = (\<lambda>s. if 2 \<le> length s \<and> hd s = quote \<and> last s = quote
       then Some (butlast (tl s)) else None),
     RedactText = id, unicode_upper = id, empty_object = []\<rparr>"

definition demo_opts :: "string \<Rightarrow> string IdempotencyExecuteOptions" where
  "demo_opts payload = \<lparr>OptScope = ''keys'', ActorScope = ''u1'', Method = ''post'', Route = ''/k'',
     IdempotencyKey = ''abc'', Payload = payload, TTL = 0, RequireKey = True\<rparr>"

definition demo_exec :: "nat \<Rightarrow> (string + string) \<times> nat" where
  "demo_exec n = (Inr ''ok'', Suc n)"

definition demo_db :: idem_table where
  "demo_db = \<lparr>rows = [], id_seq = 1, db_now = 5\<rparr>"

definition demo_fp :: "string \<Rightarrow> string" where
  "demo_fp p = ''POST'' @ [newline] @ ''/k'' @ [newline] @ ''u1'' @ [newline] @ quote # p @ [quote]"

lemma demo_request: "request_of demo_env (demo_opts p) = Some (''keys'', ''abc'', demo_fp p)"
proof -
  have "TrimSpace ''abc'' = ''abc''" by (rule TrimSpace_printable) simp
  moreover have "map ascii_upper ''post'' = ''POST''" by code_simp
  ultimately show ?thesis
    by (simp add: request_of_def demo_env_def demo_opts_def demo_fp_def NormalizeIdempotencyKey_def
        BuildIdempotencyFingerprint_def HashIdempotencyKey_def ToUpper_def is_ascii_def)
qed

lemma demo_marshal [simp]:
  "marshalStoredResponse demo_env DefaultIdempotencyConfig ''ok'' = Some (quote # ''ok'' @ [quote])"
  by (simp add: marshalStoredResponse_def demo_env_def DefaultIdempotencyConfig_def)

lemma demo_decode [simp]: "decodeStoredResponse demo_env (Some (quote # ''ok'' @ [quote])) = Some ''ok''"
proof -
  have "TrimSpace (quote # ''ok'' @ [quote]) = quote # ''ok'' @ [quote]"
    by (rule TrimSpace_printable) (simp add: quote_def)
  then show ?thesis by (simp add: decodeStoredResponse_def demo_env_def quote_def)
qed

lemma demo_db_ok [simp]: "table_ok demo_db" "row_of demo_db k = None"
  by (simp_all add: table_ok_def row_of_def demo_db_def)

section \<open>Properties\<close>

text \<open>
  C1. Idempotent replay over the SQL repository: after a first keyed call that ran the operation
  and stored its response, any further call of the same request before the record expires returns
  the stored response as a replay, does not run the operation and changes no record.
\<close>

theorem idem_replay:
  fixes execute executeb :: "'w \<Rightarrow> ('e + 'd) \<times> 'w"
  assumes "table_ok db" and "request_of env opts = Some (s, h, f)" and "row_of db (s, h) = None"
    and "execute w = (Inr d, wa)" and "marshalStoredResponse env cfg d = Some body"
    and "decodeStoredResponse env (Some body) = Some d'"
    and first: "Execute env cfg (Some sql_repo) reasonOf opts (Some execute) now failedAt db w = (r1, db1, v1)"
    and "nowb < expiry cfg opts now"
  shows "r1 = Inr \<lparr>Data = d, Replayed = False\<rparr> \<and> v1 = wa \<and>
    (\<exists>db2. Execute env cfgb (Some sql_repo) reasonOf opts (Some executeb) nowb failedAtb db1 wb =
       (Inr \<lparr>Data = d', Replayed = True\<rparr>, db2, wb) \<and> row_of db2 = row_of db1)"
proof -
  from sqlstore.Execute_first [where execute = execute and w = w, OF assms(1-5), of reasonOf now failedAt] first
  obtain y where y: "r1 = Inr \<lparr>Data = d, Replayed = False\<rparr>" "v1 = wa" "table_ok db1" "row_of db1 (s, h) = Some y"
    "Status y = IdempotencyStatusSucceeded" "ResponseBody y = Some body"
    "ExpiresAt y = expiry cfg opts now" "RequestFingerprint y = f" by auto
  have "nowb < ExpiresAt y" using y assms(8) by simp
  from sqlstore.Execute_replay [OF assms(2) y(3,4,8) this y(5), of cfgb reasonOf executeb failedAtb wb]
  show ?thesis using y assms(6) by auto
qed

theorem idem_replay_witness:
  "\<exists>db1. Execute demo_env DefaultIdempotencyConfig (Some sql_repo) (\<lambda>e. e) (demo_opts ''a'') (Some demo_exec)
       100 100 demo_db 0 = (Inr \<lparr>Data = ''ok'', Replayed = False\<rparr>, db1, 1) \<and>
     (\<exists>db2. Execute demo_env DefaultIdempotencyConfig (Some sql_repo) (\<lambda>e. e) (demo_opts ''a'') (Some demo_exec)
       200 200 db1 7 = (Inr \<lparr>Data = ''ok'', Replayed = True\<rparr>, db2, 7))"
proof -
  obtain r1 db1 v1 where first: "Execute demo_env DefaultIdempotencyConfig (Some sql_repo) (\<lambda>e. e)
      (demo_opts ''a'') (Some demo_exec) 100 100 demo_db 0 = (r1, db1, v1)" by (rule prod_cases3)
  have run: "demo_exec 0 = (Inr ''ok'', 1)" by (simp add: demo_exec_def)
  have live: "200 < expiry DefaultIdempotencyConfig (demo_opts ''a'') 100"
    by (simp add: expiry_def demo_opts_def DefaultIdempotencyConfig_def hour_def minute_def second_def)
  from idem_replay [where execute = demo_exec and w = 0 and wb = 7, OF demo_db_ok(1) demo_request demo_db_ok(2) run demo_marshal demo_decode first live,
      where cfgb = DefaultIdempotencyConfig and executeb = demo_exec and failedAtb = 200]
    first show ?thesis by auto
qed

text \<open>
  Reusing a key for a different request is refused: when the stored fingerprint differs, the
  call answers with a key conflict, the operation does not run and no record changes.
\<close>

theorem idem_conflict:
  assumes "table_ok db" and "request_of env opts = Some (s, h, f)"
    and "row_of db (s, h) = Some x" and "RequestFingerprint x \<noteq> f"
  shows "\<exists>db'. Execute env cfg (Some sql_repo) reasonOf opts (Some execute) now failedAt db w =
    (Inl ErrIdempotencyKeyConflict, db', w) \<and> table_ok db' \<and> row_of db' = row_of db"
  using sqlstore.Execute_conflict [OF assms(2,1,3,4)] .

theorem idem_conflict_witness:
  "\<exists>db. \<exists>db'. Execute demo_env DefaultIdempotencyConfig (Some sql_repo) (\<lambda>e. e) (demo_opts ''b'') (Some demo_exec)
       100 100 db 3 = (Inl ErrIdempotencyKeyConflict, db', 3) \<and> row_of db (''keys'', ''abc'') \<noteq> None"
proof -
  let ?x = "\<lparr>ID = 1, Scope = ''keys'', IdempotencyKeyHash = ''abc'', RequestFingerprint = demo_fp ''a'',
    Status = IdempotencyStatusProcessing, ResponseStatus = None, ResponseBody = None, ErrorReason = None,
    LockedUntil = None, ExpiresAt = 900, CreatedAt = 0, UpdatedAt = 0\<rparr>"
  let ?db = "\<lparr>rows = [?x], id_seq = 2, db_now = 5\<rparr>"
  have ok: "table_ok ?db" and row: "row_of ?db (''keys'', ''abc'') = Some ?x"
    by (simp_all add: table_ok_def row_of_def row_key_def)
  have ne: "RequestFingerprint ?x \<noteq> demo_fp ''b''" by (simp add: demo_fp_def)
  from idem_conflict [OF ok demo_request row ne, of DefaultIdempotencyConfig "\<lambda>e. e" demo_exec 100 100 3] row
  obtain db' where "Execute demo_env DefaultIdempotencyConfig (Some sql_repo) (\<lambda>e. e) (demo_opts ''b'') (Some demo_exec)
       100 100 ?db 3 = (Inl ErrIdempotencyKeyConflict, db', 3)" by blast
  with row show ?thesis by blast
qed

text \<open>
  C2. The operation has an effect only under a claim: if a keyed call changes the world, then no
  record existed for its key, or the record was of the same request, was not locked, and had
  expired or was marked as failed and retryable.
\<close>

theorem idem_effect_needs_claim:
  assumes "table_ok db" and "request_of env opts = Some (s, h, f)"
    and "Execute env cfg (Some sql_repo) reasonOf opts (Some execute) now failedAt db w = (r, db', w')"
    and "w' \<noteq> w"
  shows "case row_of db (s, h) of None \<Rightarrow> True
    | Some x \<Rightarrow> RequestFingerprint x = f \<and> (case LockedUntil x of None \<Rightarrow> True | Some l \<Rightarrow> l \<le> now) \<and>
        (ExpiresAt x \<le> now \<or> Status x = IdempotencyStatusFailedRetryable)"
  using sqlstore.Execute_effect_claimable [OF assms]
  by (cases "row_of db (s, h)") (simp_all add: sqlstore.claimable_def unlocked_def)

theorem idem_effect_needs_claim_witness:
  "\<exists>r db'. Execute demo_env DefaultIdempotencyConfig (Some sql_repo) (\<lambda>e. e) (demo_opts ''a'') (Some demo_exec)
       100 100 demo_db 0 = (r, db', 1) \<and>
     (case row_of demo_db (''keys'', ''abc'') of None \<Rightarrow> True
      | Some x \<Rightarrow> RequestFingerprint x = demo_fp ''a'' \<and>
          (case LockedUntil x of None \<Rightarrow> True | Some l \<Rightarrow> l \<le> 100) \<and>
          (ExpiresAt x \<le> 100 \<or> Status x = IdempotencyStatusFailedRetryable))"
proof -
  have run: "demo_exec 0 = (Inr ''ok'', 1)" by (simp add: demo_exec_def)
  from sqlstore.Execute_first [where execute = demo_exec and w = 0, OF demo_db_ok(1) demo_request demo_db_ok(2) run demo_marshal, where reasonOf = "\<lambda>e. e" and now = 100 and failedAt = 100]
  obtain db' where ex: "Execute demo_env DefaultIdempotencyConfig (Some sql_repo) (\<lambda>e. e) (demo_opts ''a'')
      (Some demo_exec) 100 100 demo_db 0 = (Inr \<lparr>Data = ''ok'', Replayed = False\<rparr>, db', 1)" by auto
  have "(1::nat) \<noteq> 0" by simp
  from idem_effect_needs_claim [OF demo_db_ok(1) demo_request ex this] ex show ?thesis by blast
qed

text \<open>
  A failed operation is retryable after its backoff: before \<^verbatim>\<open>failedAt + FailedRetryBackoff\<close> the
  same request is refused with a positive retry hint and does not run; from then on, while the
  record lives, it runs again.
\<close>

theorem idem_backoff_then_retry:
  fixes execute executeb :: "'w \<Rightarrow> ('e + 'd) \<times> 'w"
  assumes "table_ok db" and "request_of env opts = Some (s, h, f)" and "row_of db (s, h) = None"
    and "execute w = (Inl err, wa)"
    and first: "Execute env cfg (Some sql_repo) reasonOf opts (Some execute) now failedAt db w = (r1, db1, v1)"
    and "nowb < expiry cfg opts now"
    and "executeb wb = (Inr d, wc)" and "marshalStoredResponse env cfg d = Some body"
  shows "r1 = Inl (ExecErr err) \<and> v1 = wa \<and>
    (if nowb < failedAt + FailedRetryBackoff cfg
     then \<exists>n db2. 1 \<le> n \<and> Execute env cfg (Some sql_repo) reasonOf opts (Some executeb) nowb failedAtb db1 wb =
       (Inl (ErrIdempotencyRetryBackoff (Some n)), db2, wb)
     else \<exists>db2. Execute env cfg (Some sql_repo) reasonOf opts (Some executeb) nowb failedAtb db1 wb =
       (Inr \<lparr>Data = d, Replayed = False\<rparr>, db2, wc))"
proof -
  let ?u = "failedAt + FailedRetryBackoff cfg"
  from sqlstore.Execute_first_failed [where execute = execute and w = w, OF assms(1-4), of cfg reasonOf now failedAt] first
  obtain y where y: "r1 = Inl (ExecErr err)" "v1 = wa" "table_ok db1" "row_of db1 (s, h) = Some y"
    "Status y = IdempotencyStatusFailedRetryable" "LockedUntil y = Some ?u"
    "ExpiresAt y = expiry cfg opts now" "RequestFingerprint y = f" by auto
  have live: "nowb < ExpiresAt y" using y assms(6) by simp
  obtain n where n: "retryAfterSeconds (Some ?u) nowb = Some n"
    by (simp add: retryAfterSeconds_def Let_def)
  show ?thesis
  proof (cases "nowb < ?u")
    case True
    from sqlstore.Execute_backoff [OF assms(2) y(3,4,8) live y(5,6) True, of cfg reasonOf executeb failedAtb wb]
    show ?thesis using y(1,2) True n retryAfterSeconds_pos [OF n] by auto
  next
    case False
    then have "unlocked y nowb" by (simp add: unlocked_def y)
    from sqlstore.Execute_retry [where execute = executeb and w = wb,
        OF y(3) assms(2) y(4,8) live y(5) this assms(7,8), of reasonOf failedAtb]
    show ?thesis using y(1,2) False by auto
  qed
qed

theorem idem_backoff_then_retry_witness:
  "\<exists>db1. Execute demo_env DefaultIdempotencyConfig (Some sql_repo) (\<lambda>e. e) (demo_opts ''a'')
       (Some (\<lambda>n. (Inl ''boom'', Suc n))) 100 150 demo_db 0 = (Inl (ExecErr ''boom''), db1, 1) \<and>
     (\<exists>db2. Execute demo_env DefaultIdempotencyConfig (Some sql_repo) (\<lambda>e. e) (demo_opts ''a'') (Some demo_exec)
       (6 * second) 0 db1 1 = (Inr \<lparr>Data = ''ok'', Replayed = False\<rparr>, db2, 2))"
proof -
  obtain r1 db1 v1 where first: "Execute demo_env DefaultIdempotencyConfig (Some sql_repo) (\<lambda>e. e)
      (demo_opts ''a'') (Some (\<lambda>n. (Inl ''boom'', Suc n))) 100 150 demo_db 0 = (r1, db1, v1)" by (rule prod_cases3)
  have run: "demo_exec 1 = (Inr ''ok'', 2)" by (simp add: demo_exec_def)
  have live: "6 * second < expiry DefaultIdempotencyConfig (demo_opts ''a'') 100"
    by (simp add: expiry_def demo_opts_def DefaultIdempotencyConfig_def hour_def minute_def second_def)
  have late: "\<not> 6 * second < 150 + FailedRetryBackoff DefaultIdempotencyConfig"
    by (simp add: DefaultIdempotencyConfig_def second_def)
  have boom: "(\<lambda>n::nat. (Inl ''boom'', Suc n)) 0 = (Inl ''boom'', 1)" by simp
  from idem_backoff_then_retry [where execute = "\<lambda>n. (Inl ''boom'', Suc n)" and w = 0 and executeb = demo_exec
      and wb = 1 and failedAtb = 0, OF demo_db_ok(1) demo_request demo_db_ok(2) boom first live run demo_marshal] first late
  show ?thesis by auto
qed

text \<open>
  Truncation of stored responses keeps UTF-8 intact: of a valid string it keeps a valid prefix
  of at most the limit, the longest one, which drops at most three bytes below the limit.
\<close>

theorem truncateUTF8_spec:
  assumes "ValidString s" and "0 < n"
  shows "(\<exists>t. s = truncateUTF8 s n @ t) \<and> ValidString (truncateUTF8 s n) \<and>
    int (length (truncateUTF8 s n)) \<le> n \<and>
    (n < int (length s) \<longrightarrow> n \<le> int (length (truncateUTF8 s n)) + 3) \<and>
    (\<forall>m. int m \<le> n \<longrightarrow> m \<le> length s \<longrightarrow> ValidString (take m s) \<longrightarrow> m \<le> length (truncateUTF8 s n))"
proof (intro conjI)
  let ?k = "truncateUTF8_loop s (nat n)"
  have le: "?k \<le> nat n" by (rule truncateUTF8_loop_le)
  show "\<exists>t. s = truncateUTF8 s n @ t"
    by (simp add: truncateUTF8_def) (metis append_Nil2 append_take_drop_id)
  show "ValidString (truncateUTF8 s n)"
    using assms by (simp add: truncateUTF8_def truncateUTF8_loop_valid)
  show "int (length (truncateUTF8 s n)) \<le> n"
    using assms(2) le by (simp add: truncateUTF8_def) linarith
  show "n < int (length s) \<longrightarrow> n \<le> int (length (truncateUTF8 s n)) + 3"
  proof
    assume n: "n < int (length s)"
    then have "nat n \<le> length s" by linarith
    from ValidString_cut [OF assms(1) this]
    obtain m where m: "m \<le> nat n" "nat n \<le> m + 3" "ValidString (take m s)" by blast
    from truncateUTF8_loop_max [OF m(1,3)] m n le assms(2)
    show "n \<le> int (length (truncateUTF8 s n)) + 3" by (simp add: truncateUTF8_def)
  qed
  show "\<forall>m. int m \<le> n \<longrightarrow> m \<le> length s \<longrightarrow> ValidString (take m s) \<longrightarrow> m \<le> length (truncateUTF8 s n)"
    using truncateUTF8_loop_max [of _ "nat n" s] assms(2) by (auto simp: truncateUTF8_def)
qed

theorem truncateUTF8_spec_witness:
  "ValidString ''abc'' \<and> int (length (truncateUTF8 ''abc'' 2)) \<le> 2 \<and> ValidString (truncateUTF8 ''abc'' 2)"
proof -
  have v: "ValidString ''abc''" by (simp add: ValidString.simps)
  then show ?thesis using truncateUTF8_spec [OF v, of 2] by simp
qed

text \<open>
  A response longer than the storage limit can never be replayed: the truncated body is stored
  with a marker that no JSON text ends with, so every further call of the request before the record
  expires is answered with a store error, although the first call succeeded.  The hypothesis on the
  decoder is the JSON grammar: no JSON text ends with a closing parenthesis.
\<close>

theorem idem_oversized_response_not_replayable:
  fixes execute executeb :: "'w \<Rightarrow> ('e + 'd) \<times> 'w"
  assumes json: "\<And>t. last t = CHR '')'' \<Longrightarrow> json_Unmarshal env t = None"
    and "table_ok db" and "request_of env opts = Some (s, h, f)" and "row_of db (s, h) = None"
    and "execute w = (Inr d, wa)" and "json_Marshal env d = Some raw"
    and "0 < MaxStoredResponseLen cfg" and "MaxStoredResponseLen cfg < int (length (RedactText env raw))"
    and first: "Execute env cfg (Some sql_repo) reasonOf opts (Some execute) now failedAt db w = (r1, db1, v1)"
    and "nowb < expiry cfg opts now"
  shows "r1 = Inr \<lparr>Data = d, Replayed = False\<rparr> \<and>
    (\<exists>db2. Execute env cfg (Some sql_repo) reasonOf opts (Some executeb) nowb failedAtb db1 wb =
       (Inl ErrIdempotencyStoreUnavail, db2, wb))"
proof -
  define body where "body = truncateUTF8 (RedactText env raw) (MaxStoredResponseLen cfg) @ truncated_mark"
  have m: "marshalStoredResponse env cfg d = Some body"
    using assms(6-8) by (simp add: marshalStoredResponse_def body_def)
  from sqlstore.Execute_first [where execute = execute and w = w, OF assms(2-5) m, of reasonOf now failedAt] first
  obtain y where y: "r1 = Inr \<lparr>Data = d, Replayed = False\<rparr>" "table_ok db1" "row_of db1 (s, h) = Some y"
    "Status y = IdempotencyStatusSucceeded" "ResponseBody y = Some body"
    "ExpiresAt y = expiry cfg opts now" "RequestFingerprint y = f" by auto
  have live: "nowb < ExpiresAt y" using y assms(10) by simp
  have l: "last body = CHR '')''" by (simp add: body_def truncated_mark_def)
  have "TrimSpace body \<noteq> []"
  proof
    assume "TrimSpace body = []"
    then have "trim_prefixes (map rev space_encodings) (rev (trim_prefixes space_encodings body)) = []"
      by (simp add: TrimSpace_def)
    moreover have "\<forall>e \<in> set space_encodings. CHR ''('' \<notin> set e" by code_simp
    ultimately show False
      using trim_prefixes_keeps [of "CHR ''(''" "rev (trim_prefixes space_encodings body)" "map rev space_encodings"]
        trim_prefixes_keeps [of "CHR ''(''" body space_encodings]
      by (auto simp: body_def truncated_mark_def)
  qed
  then have "decodeStoredResponse env (Some body) = None"
    by (simp add: decodeStoredResponse_def json [OF l])
  with sqlstore.Execute_replay [OF assms(3) y(2,3,7) live y(4), of cfg reasonOf executeb failedAtb wb]
  show ?thesis using y by auto
qed

definition tiny_cfg :: IdempotencyConfig where
  "tiny_cfg = DefaultIdempotencyConfig\<lparr>MaxStoredResponseLen := 3\<rparr>"

theorem idem_oversized_response_not_replayable_witness:
  "\<exists>db1. Execute demo_env tiny_cfg (Some sql_repo) (\<lambda>e. e) (demo_opts ''a'') (Some demo_exec)
       100 100 demo_db 0 = (Inr \<lparr>Data = ''ok'', Replayed = False\<rparr>, db1, 1) \<and>
     (\<exists>db2. Execute demo_env tiny_cfg (Some sql_repo) (\<lambda>e. e) (demo_opts ''a'') (Some demo_exec)
       200 200 db1 7 = (Inl ErrIdempotencyStoreUnavail, db2, 7))"
proof -
  obtain r1 db1 v1 where first: "Execute demo_env tiny_cfg (Some sql_repo) (\<lambda>e. e)
      (demo_opts ''a'') (Some demo_exec) 100 100 demo_db 0 = (r1, db1, v1)" by (rule prod_cases3)
  have run: "demo_exec 0 = (Inr ''ok'', 1)" by (simp add: demo_exec_def)
  have json: "\<And>t. last t = CHR '')'' \<Longrightarrow> json_Unmarshal demo_env t = None"
    by (simp add: demo_env_def quote_def)
  have raw: "json_Marshal demo_env ''ok'' = Some (quote # ''ok'' @ [quote])" by (simp add: demo_env_def)
  have lim: "0 < MaxStoredResponseLen tiny_cfg"
    "MaxStoredResponseLen tiny_cfg < int (length (RedactText demo_env (quote # ''ok'' @ [quote])))"
    by (simp_all add: tiny_cfg_def demo_env_def)
  have live: "200 < expiry tiny_cfg (demo_opts ''a'') 100"
    by (simp add: expiry_def demo_opts_def tiny_cfg_def DefaultIdempotencyConfig_def hour_def minute_def second_def)
  obtain b where "marshalStoredResponse demo_env tiny_cfg ''ok'' = Some b"
    by (simp add: marshalStoredResponse_def raw Let_def)
  from sqlstore.Execute_first [where execute = demo_exec and w = 0, OF demo_db_ok(1) demo_request demo_db_ok(2) run this]
    first have "v1 = 1" by (metis Pair_inject)
  with idem_oversized_response_not_replayable [where execute = demo_exec and w = 0 and wb = 7,
      OF json demo_db_ok(1) demo_request demo_db_ok(2) run raw lim first live, of demo_exec 200]
    first show ?thesis by auto
qed

text \<open>
  Key normalisation: an accepted key is empty or consists of at most 128 printable ASCII
  characters, normalising it again returns it unchanged, and every string of 1 to 128 such
  characters is accepted as it is.
\<close>

theorem NormalizeIdempotencyKey_spec:
  "(case (NormalizeIdempotencyKey raw :: 'e idem_error + string) of
      Inl e \<Rightarrow> e = ErrIdempotencyKeyInvalid
    | Inr key \<Rightarrow> length key \<le> 128 \<and> (\<forall>c \<in> set key. 33 \<le> byte c \<and> byte c \<le> 126) \<and>
        (NormalizeIdempotencyKey key :: 'e idem_error + string) = Inr key) \<and>
   (raw \<noteq> [] \<longrightarrow> length raw \<le> 128 \<longrightarrow> (\<forall>c \<in> set raw. 33 \<le> byte c \<and> byte c \<le> 126) \<longrightarrow>
      (NormalizeIdempotencyKey raw :: 'e idem_error + string) = Inr raw)"
proof -
  have fix_key: "(NormalizeIdempotencyKey k :: 'e idem_error + string) = Inr k"
    if "length k \<le> 128" "\<forall>c \<in> set k. 33 \<le> byte c \<and> byte c \<le> 126" for k
  proof -
    have "TrimSpace k = k" by (rule TrimSpace_printable) (use that in fastforce)
    with that show ?thesis by (auto simp: NormalizeIdempotencyKey_def list_ex_iff)
  qed
  have "case (NormalizeIdempotencyKey raw :: 'e idem_error + string) of
      Inl e \<Rightarrow> e = ErrIdempotencyKeyInvalid
    | Inr key \<Rightarrow> length key \<le> 128 \<and> (\<forall>c \<in> set key. 33 \<le> byte c \<and> byte c \<le> 126)"
    by (auto simp: NormalizeIdempotencyKey_def Let_def list_ex_iff not_less)
  then show ?thesis using fix_key by (auto split: sum.splits)
qed

theorem NormalizeIdempotencyKey_spec_witness:
  "(NormalizeIdempotencyKey ''order-1'' :: unit idem_error + string) = Inr ''order-1''"
  using NormalizeIdempotencyKey_spec [where raw = "''order-1''" and 'e = unit] by simp

end
