(* ===== verification/System_Lock.thy ===== *)
theory System_Lock
  imports Idempotency
begin

text \<open>
  The global lock for system operations (\<^verbatim>\<open>service/system_operation_lock_service.go\<close>): a lease on
  one row of the idempotency store, renewed in the background by its holder.

  Each operation is a function over the repository interface; one turn of the renewal loop is
  \<open>renewTick\<close>.  The background goroutine, its ticker and the stop channel are left out: a run of the
  loop is a sequence of turns.
\<close>

section \<open>Model\<close>

definition systemOperationLockScope :: string where
  "systemOperationLockScope = ''admin.system.operations.global_lock''"

definition systemOperationLockKey :: string where
  "systemOperationLockKey = ''global-system-operation-lock''"

record SystemOperationLock =
  recordID :: int64
  operationID :: string

record SystemOperationLockService =
  lease :: duration
  renewInterval :: duration
  ttl :: duration

datatype sysop_error =
    SysStoreUnavail
  | SysOperationIDRequired
  | ErrSystemOperationBusy "string option" "int option"

definition NewSystemOperationLockService :: "IdempotencyConfig \<Rightarrow> SystemOperationLockService" where
  "NewSystemOperationLockService cfg =
     (let l = (if ProcessingTimeout cfg \<le> 0 then 30 * second else ProcessingTimeout cfg);
          r = (if l div 3 < second then second else l div 3);
          t = (if SystemOperationTTL cfg \<le> 0 then hour else SystemOperationTTL cfg)
      in \<lparr>lease = l, renewInterval = r, ttl = t\<rparr>)"

definition busyError :: "string \<Rightarrow> gtime option \<Rightarrow> gtime \<Rightarrow> sysop_error" where
  "busyError opID lockedUntil now =
     ErrSystemOperationBusy (if opID = [] then None else Some opID) (retryAfterSeconds lockedUntil now)"

text \<open>The part of \<open>Acquire\<close> that runs when a row is there already: a live lease answers busy, any
  other row is reclaimed from the status that was read.\<close>

definition acquire_done :: "string \<Rightarrow> int64 \<Rightarrow> sysop_error + SystemOperationLock" where
  "acquire_done opID i = (if i = 0 then Inl SysStoreUnavail else Inr \<lparr>recordID = i, operationID = opID\<rparr>)"

definition acquire_existing ::
  "('d, 'z) idem_env_scheme \<Rightarrow> 'st IdempotencyRepository \<Rightarrow> SystemOperationLockService \<Rightarrow> string \<Rightarrow>
   gtime \<Rightarrow> IdempotencyRecord \<Rightarrow> 'st \<Rightarrow> (sysop_error + SystemOperationLock) \<times> 'st" where
  "acquire_existing env repo svc opID now existing st =
     (if Status existing = IdempotencyStatusProcessing \<and>
         (case LockedUntil existing of None \<Rightarrow> False | Some l \<Rightarrow> now < l)
      then (Inl (busyError (RequestFingerprint existing) (LockedUntil existing) now), st)
      else
        case TryReclaim repo st (ID existing) (Status existing) now (now + lease svc) (now + ttl svc) of
          (Inl _, st') \<Rightarrow> (Inl SysStoreUnavail, st')
        | (Inr True, st') \<Rightarrow> (acquire_done opID (ID existing), st')
        | (Inr False, st') \<Rightarrow>
            (case GetByScopeAndKeyHash repo st' systemOperationLockScope
                    (HashIdempotencyKey env systemOperationLockKey) of
               (Inr (Some latest), st'') \<Rightarrow>
                 (Inl (busyError (RequestFingerprint latest) (LockedUntil latest) now), st'')
             | (_, st'') \<Rightarrow> (Inl (ErrSystemOperationBusy None None), st'')))"

definition Acquire ::
  "('d, 'z) idem_env_scheme \<Rightarrow> 'st IdempotencyRepository option \<Rightarrow> SystemOperationLockService \<Rightarrow> string \<Rightarrow>
   gtime \<Rightarrow> 'st \<Rightarrow> (sysop_error + SystemOperationLock) \<times> 'st" where
  "Acquire env repo_opt svc opID now st =
     (case repo_opt of
        None \<Rightarrow> (Inl SysStoreUnavail, st)
      | Some repo \<Rightarrow>
          if opID = [] then (Inl SysOperationIDRequired, st)
          else
            let keyHash = HashIdempotencyKey env systemOperationLockKey;
                record0 =
                  \<lparr>ID = 0, Scope = systemOperationLockScope, IdempotencyKeyHash = keyHash,
                   RequestFingerprint = opID, Status = IdempotencyStatusProcessing,
                   ResponseStatus = None, ResponseBody = None, ErrorReason = None,
                   LockedUntil = Some (now + lease svc), ExpiresAt = now + ttl svc,
                   CreatedAt = zero_time, UpdatedAt = zero_time\<rparr>
            in (case CreateProcessing repo st record0 of
                  (Inl _, st1) \<Rightarrow> (Inl SysStoreUnavail, st1)
                | (Inr (True, record1), st1) \<Rightarrow> (acquire_done opID (ID record1), st1)
                | (Inr (False, _), st1) \<Rightarrow>
                    (case GetByScopeAndKeyHash repo st1 systemOperationLockScope keyHash of
                       (Inl _, st2) \<Rightarrow> (Inl SysStoreUnavail, st2)
                     | (Inr None, st2) \<Rightarrow> (Inl SysStoreUnavail, st2)
                     | (Inr (Some existing), st2) \<Rightarrow> acquire_existing env repo svc opID now existing st2)))"

definition released_body :: "string \<Rightarrow> string" where
  "released_body opID =
     ''{'' @ [quote] @ ''operation_id'' @ [quote] @ '':'' @ [quote] @ opID @ [quote] @ '','' @ [quote] @
     ''released'' @ [quote] @ '':true}''"

definition Release ::
  "'st IdempotencyRepository option \<Rightarrow> SystemOperationLockService \<Rightarrow> SystemOperationLock option \<Rightarrow> bool \<Rightarrow>
   string \<Rightarrow> gtime \<Rightarrow> 'st \<Rightarrow> unit db_result \<times> 'st" where
  "Release repo_opt svc lock_opt succeeded failureReason now st =
     (case (repo_opt, lock_opt) of
        (Some repo, Some lock) \<Rightarrow>
          let expiresAt = now + ttl svc in
          if succeeded then MarkSucceeded repo st (recordID lock) 200 (released_body (operationID lock)) expiresAt
          else MarkFailedRetryable repo st (recordID lock)
                 (if failureReason = [] then ''SYSTEM_OPERATION_FAILED'' else failureReason) now expiresAt
      | _ \<Rightarrow> (Inr (), st))"

text \<open>One turn of the renewal loop: \<open>True\<close> when the loop goes on, \<open>False\<close> when it stops because the
  ownership is lost.  A failed call of the store does not stop the loop.\<close>

definition renewTick ::
  "'st IdempotencyRepository \<Rightarrow> SystemOperationLockService \<Rightarrow> SystemOperationLock \<Rightarrow> gtime \<Rightarrow> 'st \<Rightarrow>
   bool \<times> 'st" where
  "renewTick repo svc lock now st =
     (case ExtendProcessingLock repo st (recordID lock) (operationID lock) (now + lease svc) (now + ttl svc) of
        (Inl _, st') \<Rightarrow> (True, st')
      | (Inr ok, st') \<Rightarrow> (ok, st'))"

text \<open>The loop over what its \<^verbatim>\<open>select\<close> receives, tick by tick: \<open>True\<close> while it still waits for the next
  event.\<close>

datatype renew_event = TickerC gtime | StopCh

fun renewLoop ::
  "'st IdempotencyRepository \<Rightarrow> SystemOperationLockService \<Rightarrow> SystemOperationLock \<Rightarrow> renew_event list \<Rightarrow> 'st \<Rightarrow>
   bool \<times> 'st" where
  "renewLoop repo svc lock [] st = (True, st)"
| "renewLoop repo svc lock (StopCh # evs) st = (False, st)"
| "renewLoop repo svc lock (TickerC now # evs) st =
     (case renewTick repo svc lock now st of
        (True, st') \<Rightarrow> renewLoop repo svc lock evs st'
      | (False, st') \<Rightarrow> (False, st'))"

definition lock_key :: "('d, 'z) idem_env_scheme \<Rightarrow> string \<times> string" where
  "lock_key env = (systemOperationLockScope, HashIdempotencyKey env systemOperationLockKey)"

section \<open>The lock over any store\<close>

context idem_store
begin

lemma Acquire_fresh:
  assumes inv: "inv st" and new: "look st (lock_key env) = None" and op: "opID \<noteq> []"
  shows "\<exists>x st'. Acquire env (Some repo) svc opID now st = (Inr \<lparr>recordID = ID x, operationID = opID\<rparr>, st') \<and>
    inv st' \<and> look st' (lock_key env) = Some x \<and> RequestFingerprint x = opID \<and>
    Status x = IdempotencyStatusProcessing \<and> LockedUntil x = Some (now + lease svc)"
proof -
  let ?r = "\<lparr>ID = 0, Scope = systemOperationLockScope,
     IdempotencyKeyHash = HashIdempotencyKey env systemOperationLockKey,
     RequestFingerprint = opID, Status = IdempotencyStatusProcessing,
     ResponseStatus = None, ResponseBody = None, ErrorReason = None,
     LockedUntil = Some (now + lease svc), ExpiresAt = now + ttl svc,
     CreatedAt = zero_time, UpdatedAt = zero_time\<rparr>"
  have rk: "row_key ?r = lock_key env" by (simp add: row_key_def lock_key_def)
  with create_fresh [OF inv, of ?r] new obtain i t st' where
    c: "CreateProcessing repo st ?r = (Inr (True, ?r\<lparr>ID := i, CreatedAt := t, UpdatedAt := t\<rparr>), st')"
    and i: "inv st'" "0 < i" and l: "look st' = (look st)(lock_key env \<mapsto> ?r\<lparr>ID := i, CreatedAt := t, UpdatedAt := t,
            ResponseStatus := None, ResponseBody := None, ErrorReason := None\<rparr>)" by auto
  show ?thesis using c i l op
    by (intro exI [of _ "?r\<lparr>ID := i, CreatedAt := t, UpdatedAt := t\<rparr>"] exI [of _ st']) (simp add: Acquire_def acquire_done_def Let_def)
qed

text \<open>With a row present, the insert changes nothing and the row decides.\<close>

lemma Acquire_taken:
  assumes inv: "inv st" and x: "look st (lock_key env) = Some x" and op: "opID \<noteq> []"
  shows "\<exists>st1. inv st1 \<and> look st1 = look st \<and>
    Acquire env (Some repo) svc opID now st = acquire_existing env repo svc opID now x st1"
proof -
  let ?r = "\<lparr>ID = 0, Scope = systemOperationLockScope,
     IdempotencyKeyHash = HashIdempotencyKey env systemOperationLockKey,
     RequestFingerprint = opID, Status = IdempotencyStatusProcessing,
     ResponseStatus = None, ResponseBody = None, ErrorReason = None,
     LockedUntil = Some (now + lease svc), ExpiresAt = now + ttl svc,
     CreatedAt = zero_time, UpdatedAt = zero_time\<rparr>"
  have rk: "row_key ?r = lock_key env" by (simp add: row_key_def lock_key_def)
  with create_taken [OF inv, of ?r] x obtain st1 where
    st1: "CreateProcessing repo st ?r = (Inr (False, ?r), st1)" "inv st1" "look st1 = look st" by auto
  have "GetByScopeAndKeyHash repo st1 systemOperationLockScope (HashIdempotencyKey env systemOperationLockKey) =
      (Inr (Some x), st1)"
    using st1 x by (simp add: get lock_key_def)
  then have "Acquire env (Some repo) svc opID now st = acquire_existing env repo svc opID now x st1"
    using st1 op by (simp add: Acquire_def Let_def)
  with st1 show ?thesis by blast
qed

lemma Acquire_busy:
  assumes "inv st" "look st (lock_key env) = Some x" "opID \<noteq> []"
    and "Status x = IdempotencyStatusProcessing" "LockedUntil x = Some l" "now < l"
  shows "\<exists>st'. Acquire env (Some repo) svc opID now st =
      (Inl (busyError (RequestFingerprint x) (Some l) now), st') \<and> inv st' \<and> look st' = look st"
  using Acquire_taken [OF assms(1-3), of svc now] assms(4-6) by (auto simp: acquire_existing_def)

lemma Acquire_reclaims:
  assumes inv: "inv st" and x: "look st (lock_key env) = Some x" and op: "opID \<noteq> []" and free: "unlocked x now"
  shows "\<exists>y st'. Acquire env (Some repo) svc opID now st = (Inr \<lparr>recordID = ID x, operationID = opID\<rparr>, st') \<and>
    inv st' \<and> look st' (lock_key env) = Some y \<and> ID y = ID x \<and> RequestFingerprint y = RequestFingerprint x \<and>
    Status y = IdempotencyStatusProcessing \<and> LockedUntil y = Some (now + lease svc)"
proof -
  from Acquire_taken [OF inv x op, of svc now] obtain st1 where st1: "inv st1" "look st1 = look st"
    and eq: "Acquire env (Some repo) svc opID now st = acquire_existing env repo svc opID now x st1" by blast
  have "look st1 (lock_key env) = Some x" using st1 x by simp
  from reclaim [OF st1(1) this, of "Status x" now "now + lease svc" "now + ttl svc"] free
  obtain t st' where st': "TryReclaim repo st1 (ID x) (Status x) now (now + lease svc) (now + ttl svc) = (Inr True, st')"
    "inv st'" "look st' = (look st1)(lock_key env \<mapsto> x\<lparr>Status := IdempotencyStatusProcessing,
       LockedUntil := Some (now + lease svc), ErrorReason := None, UpdatedAt := t, ExpiresAt := now + ttl svc\<rparr>)"
    by auto
  have "\<not> (Status x = IdempotencyStatusProcessing \<and> (case LockedUntil x of None \<Rightarrow> False | Some l \<Rightarrow> now < l))"
    using free by (auto simp: unlocked_def split: option.splits)
  moreover have "ID x \<noteq> 0" using look_key [OF inv x] by auto
  ultimately show ?thesis using eq st'
    by (intro exI [of _ "x\<lparr>Status := IdempotencyStatusProcessing,
       LockedUntil := Some (now + lease svc), ErrorReason := None, UpdatedAt := t, ExpiresAt := now + ttl svc\<rparr>"]
       exI [of _ st']) (simp add: acquire_existing_def acquire_done_def)
qed

lemma renewTick_iff:
  assumes "inv st" "look st k = Some x" "recordID lock = ID x" "Status x = IdempotencyStatusProcessing"
  shows "\<exists>y st'. renewTick repo svc lock now st = (RequestFingerprint x = operationID lock, st') \<and> inv st' \<and>
    look st' k = Some y \<and> ID y = ID x \<and> Status y = Status x \<and> RequestFingerprint y = RequestFingerprint x \<and>
    LockedUntil y = (if RequestFingerprint x = operationID lock then Some (now + lease svc) else LockedUntil x)"
proof -
  from extend [OF assms(1,2), of "operationID lock" "now + lease svc" "now + ttl svc"]
  obtain t st' where e: "ExtendProcessingLock repo st (ID x) (operationID lock) (now + lease svc) (now + ttl svc) =
      (Inr (RequestFingerprint x = operationID lock), st')" "inv st'"
    "look st' = (if RequestFingerprint x = operationID lock
       then (look st)(k \<mapsto> x\<lparr>LockedUntil := Some (now + lease svc), ExpiresAt := now + ttl svc, UpdatedAt := t\<rparr>)
       else look st)" using assms(4) by auto
  show ?thesis using assms e
    by (intro exI [of _ "if RequestFingerprint x = operationID lock
         then x\<lparr>LockedUntil := Some (now + lease svc), ExpiresAt := now + ttl svc, UpdatedAt := t\<rparr> else x"]
       exI [of _ st']) (auto simp: renewTick_def)
qed

text \<open>Along any run of ticks, the holder named by the row keeps the row's lease in front of the last
  tick.\<close>

lemma renewLoop_holds:
  assumes "inv st" "look st k = Some x" "recordID lock = ID x" "Status x = IdempotencyStatusProcessing"
    and "RequestFingerprint x = operationID lock" "LockedUntil x = Some (t + lease svc)"
  shows "\<exists>y st'. renewLoop repo svc lock (map TickerC ts) st = (True, st') \<and> inv st' \<and> look st' k = Some y \<and>
    ID y = ID x \<and> Status y = IdempotencyStatusProcessing \<and> RequestFingerprint y = operationID lock \<and>
    LockedUntil y = Some (last (t # ts) + lease svc)"
  using assms
proof (induction ts arbitrary: st x t)
  case Nil
  then show ?case by auto
next
  case (Cons u ts)
  from renewTick_iff [OF Cons.prems(1-4), of svc u] Cons.prems(5) obtain y st' where
    y: "renewTick repo svc lock u st = (True, st')" "inv st'" "look st' k = Some y" "ID y = ID x"
      "Status y = Status x" "RequestFingerprint y = operationID lock" "LockedUntil y = Some (u + lease svc)"
    by auto
  from Cons.IH [OF y(2,3), of u] y Cons.prems show ?case by auto
qed

end

section \<open>The lock over the SQL store\<close>



text \<open>A reclaimed lease is not renewed.  When the lock is taken over from a finished operation the row
  keeps the old operation's fingerprint, so the first renewal of the new holder fails, its loop stops
  as if ownership were lost, and once the first lease has run out a third operation acquires the lock
  although the holder has not released it.\<close>

theorem syslock_reclaimed_lease_is_lost:
  assumes "table_ok db" "row_of db (lock_key env) = Some x" "unlocked x t" "opA \<noteq> []" "opB \<noteq> []"
    and "RequestFingerprint x \<noteq> opA" "t + lease svc \<le> v"
  shows "\<exists>lock db' db'' lock'. Acquire env (Some sql_repo) svc opA t db = (Inr lock, db') \<and>
    renewLoop sql_repo svc lock (TickerC u # evs) db' = (False, db'') \<and>
    fst (Acquire env (Some sql_repo) svc opB v db'') = Inr lock'"
proof -
  from sqlstore.Acquire_reclaims [OF assms(1,2,4,3), of svc] obtain y db' where
    y: "Acquire env (Some sql_repo) svc opA t db = (Inr \<lparr>recordID = ID x, operationID = opA\<rparr>, db')" "table_ok db'"
      "row_of db' (lock_key env) = Some y" "ID y = ID x" "RequestFingerprint y = RequestFingerprint x"
      "Status y = IdempotencyStatusProcessing" "LockedUntil y = Some (t + lease svc)" by blast
  from sqlstore.renewTick_iff [OF y(2,3), of "\<lparr>recordID = ID x, operationID = opA\<rparr>" svc u] y assms(6)
  obtain z db'' where
    z: "renewTick sql_repo svc \<lparr>recordID = ID x, operationID = opA\<rparr> u db' = (False, db'')" "table_ok db''"
      "row_of db'' (lock_key env) = Some z" "LockedUntil z = Some (t + lease svc)" by auto
  then have "unlocked z v" using assms(7) by (simp add: unlocked_def)
  from sqlstore.Acquire_reclaims [OF z(2,3) assms(5) this, of svc] y(1) z(1) show ?thesis by auto
qed

definition demo_sysrow :: IdempotencyRecord where
  "demo_sysrow = \<lparr>ID = 1, Scope = systemOperationLockScope,
     IdempotencyKeyHash = HashIdempotencyKey demo_env systemOperationLockKey, RequestFingerprint = ''old'',
     Status = IdempotencyStatusSucceeded, ResponseStatus = Some 200, ResponseBody = None, ErrorReason = None,
     LockedUntil = None, ExpiresAt = 9 * second, CreatedAt = 0, UpdatedAt = 0\<rparr>"

lemma demo_sysrow_stored:
  "table_ok \<lparr>rows = [demo_sysrow], id_seq = 2, db_now = 5\<rparr>"
  "row_of \<lparr>rows = [demo_sysrow], id_seq = 2, db_now = 5\<rparr> (lock_key demo_env) = Some demo_sysrow"
  by (simp_all add: table_ok_def row_of_def lock_key_def demo_sysrow_def row_key_def)

theorem syslock_reclaimed_lease_is_lost_witness:
  "\<exists>lock db' db'' lock'. Acquire demo_env (Some sql_repo) (NewSystemOperationLockService DefaultIdempotencyConfig) ''a'' 0
      \<lparr>rows = [demo_sysrow], id_seq = 2, db_now = 5\<rparr> = (Inr lock, db') \<and>
    renewLoop sql_repo (NewSystemOperationLockService DefaultIdempotencyConfig) lock (TickerC (10 * second) # []) db' =
      (False, db'') \<and>
    fst (Acquire demo_env (Some sql_repo) (NewSystemOperationLockService DefaultIdempotencyConfig) ''b'' (30 * second) db'') =
      Inr lock'"
  by (rule syslock_reclaimed_lease_is_lost [OF demo_sysrow_stored])
     (simp_all add: unlocked_def demo_sysrow_def NewSystemOperationLockService_def DefaultIdempotencyConfig_def go_defs)

text \<open>A released lock is free: after the holder's release at \<open>t\<close>, whether it reports success or
  failure, another operation acquires the lock at any time from \<open>t\<close> on.\<close>

theorem syslock_release_frees:
  assumes "table_ok db" "row_of db (lock_key env) = Some x" "recordID lock = ID x" "opB \<noteq> []" "t \<le> u"
  shows "\<exists>db' db'' . Release (Some sql_repo) svc (Some lock) succeeded reason t db = (Inr (), db') \<and>
    Acquire env (Some sql_repo) svc opB u db' = (Inr \<lparr>recordID = ID x, operationID = opB\<rparr>, db'')"
proof -
  have "\<exists>db' y. Release (Some sql_repo) svc (Some lock) succeeded reason t db = (Inr (), db') \<and> table_ok db' \<and>
      row_of db' (lock_key env) = Some y \<and> ID y = ID x \<and> unlocked y u"
  proof (cases succeeded)
    case True
    with sqlstore.mark_succeeded [OF assms(1,2), of 200 "released_body (operationID lock)" "t + ttl svc"] assms(3)
    show ?thesis by (fastforce simp: Release_def Let_def unlocked_def)
  next
    case False
    with sqlstore.mark_failed [OF assms(1,2), of "if reason = [] then ''SYSTEM_OPERATION_FAILED'' else reason"
        t "t + ttl svc"] assms(3,5)
    show ?thesis by (fastforce simp: Release_def Let_def unlocked_def)
  qed
  then obtain db' y where "Release (Some sql_repo) svc (Some lock) succeeded reason t db = (Inr (), db')" "table_ok db'"
      "row_of db' (lock_key env) = Some y" "ID y = ID x" "unlocked y u" by blast
  with sqlstore.Acquire_reclaims [of db' env y opB u svc] assms(4) show ?thesis by auto
qed

theorem syslock_release_frees_witness:
  "\<exists>db' db''. Release (Some sql_repo) (NewSystemOperationLockService DefaultIdempotencyConfig)
      (Some \<lparr>recordID = 1, operationID = ''old''\<rparr>) True [] 0 \<lparr>rows = [demo_sysrow], id_seq = 2, db_now = 5\<rparr> = (Inr (), db') \<and>
    Acquire demo_env (Some sql_repo) (NewSystemOperationLockService DefaultIdempotencyConfig) ''b'' 7 db' =
      (Inr \<lparr>recordID = ID demo_sysrow, operationID = ''b''\<rparr>, db'')"
  by (rule syslock_release_frees [OF demo_sysrow_stored]) (simp_all add: demo_sysrow_def)

end
