(* ===== verification/Json_Value.thy ===== *)
theory Json_Value
  imports Complex_Main Go_Prelude
begin

text \<open>
  The dynamic values that accounts keep in their \<^verbatim>\<open>credentials\<close> and \<^verbatim>\<open>extra\<close> columns
  (\<^verbatim>\<open>map[string]any\<close>), the numbers in them, and the conversions the account code applies to them
  (\<^verbatim>\<open>service/account.go\<close>: the \<^verbatim>\<open>parse...\<close> helpers).

  A \<^verbatim>\<open>float64\<close> is a finite rational, an infinity or NaN (\<^verbatim>\<open>strconv.ParseFloat\<close> accepts the spellings of
  all of them); comparisons follow IEEE 754, so NaN compares false.  What Go leaves to the
  implementation (converting an out-of-range float to an integer) and the library code that reads
  decimal floats and RFC 3339 times, maps case beyond ASCII or prints composite values are fields of
  the environment \<open>go_env\<close>.
\<close>

section \<open>Floating point\<close>

datatype float64 = Fin rat | PosInf | NegInf | NaN

fun flt :: "float64 \<Rightarrow> float64 \<Rightarrow> bool" where
  "flt NaN _ = False"
| "flt _ NaN = False"
| "flt (Fin a) (Fin b) = (a < b)"
| "flt (Fin _) PosInf = True"
| "flt (Fin _) NegInf = False"
| "flt PosInf _ = False"
| "flt NegInf NegInf = False"
| "flt NegInf _ = True"

fun fle :: "float64 \<Rightarrow> float64 \<Rightarrow> bool" where
  "fle NaN _ = False"
| "fle _ NaN = False"
| "fle (Fin a) (Fin b) = (a \<le> b)"
| "fle (Fin _) PosInf = True"
| "fle (Fin _) NegInf = False"
| "fle PosInf PosInf = True"
| "fle PosInf _ = False"
| "fle NegInf _ = True"

lemma fle_iff: "fle a b \<longleftrightarrow> flt a b \<or> (a = b \<and> a \<noteq> NaN)"
  by (cases a; cases b) auto

lemma flt_not_fle: "a \<noteq> NaN \<Longrightarrow> b \<noteq> NaN \<Longrightarrow> flt a b \<longleftrightarrow> \<not> fle b a"
  by (cases a; cases b) auto

lemma flt_trans: "flt a b \<Longrightarrow> flt b c \<Longrightarrow> flt a c"
  by (cases a; cases b; cases c) auto

lemma fle_flt_trans: "fle a b \<Longrightarrow> flt b c \<Longrightarrow> flt a c"
  by (cases a; cases b; cases c) auto

lemma fle_trans: "fle a b \<Longrightarrow> fle b c \<Longrightarrow> fle a c"
  by (cases a; cases b; cases c) auto

section \<open>Integers and their decimal notation\<close>

definition min_int64 :: int where
  "min_int64 = - (2 ^ 63)"

definition max_int64 :: int where
  "max_int64 = 2 ^ 63 - 1"

definition in_int64 :: "int \<Rightarrow> bool" where
  "in_int64 i \<longleftrightarrow> min_int64 \<le> i \<and> i \<le> max_int64"

text \<open>Arithmetic on 64-bit integers wraps around.\<close>

definition wrap64 :: "int \<Rightarrow> int" where
  "wrap64 i = (i + 2 ^ 63) mod 2 ^ 64 - 2 ^ 63"

lemma wrap64_id: "in_int64 i \<Longrightarrow> wrap64 i = i"
  by (simp add: wrap64_def in_int64_def min_int64_def max_int64_def)

text \<open>Truncation towards zero, as the conversion from a float does.\<close>

definition truncate_rat :: "rat \<Rightarrow> int" where
  "truncate_rat r = (if 0 \<le> r then \<lfloor>r\<rfloor> else - \<lfloor>- r\<rfloor>)"

lemma truncate_rat_of_int [simp]: "truncate_rat (of_int i) = i"
proof (cases "0 \<le> i")
  case False
  then have "\<lfloor>- (of_int i :: rat)\<rfloor> = - i" by (metis floor_of_int of_int_minus)
  with False show ?thesis by (simp add: truncate_rat_def)
qed (simp add: truncate_rat_def)

definition digit_value :: "char \<Rightarrow> nat option" where
  "digit_value c = (if 48 \<le> byte c \<and> byte c \<le> 57 then Some (byte c - 48) else None)"

fun digits_value :: "nat \<Rightarrow> string \<Rightarrow> nat option" where
  "digits_value n [] = Some n"
| "digits_value n (c # cs) =
     (case digit_value c of None \<Rightarrow> None | Some d \<Rightarrow> digits_value (10 * n + d) cs)"

text \<open>\<^verbatim>\<open>strconv.ParseInt(s, 10, 64)\<close>, which \<^verbatim>\<open>strconv.Atoi\<close> agrees with on a 64-bit platform: an optional
  sign, at least one digit, a value in the range of \<^verbatim>\<open>int64\<close>; anything else is an error.\<close>

definition ParseInt :: "string \<Rightarrow> int option" where
  "ParseInt s =
     (let neg = (s \<noteq> [] \<and> byte (hd s) = 45);
          ds = (if s \<noteq> [] \<and> (byte (hd s) = 45 \<or> byte (hd s) = 43) then tl s else s)
      in if ds = [] then None
         else case digits_value 0 ds of
                None \<Rightarrow> None
              | Some n \<Rightarrow>
                  let i = (if neg then - int n else int n) in
                  if in_int64 i then Some i else None)"

abbreviation Atoi :: "string \<Rightarrow> int option" where
  "Atoi \<equiv> ParseInt"

function decimal_digits :: "nat \<Rightarrow> string" where
  "decimal_digits n =
     (if n < 10 then [char_of (48 + n)] else decimal_digits (n div 10) @ [char_of (48 + n mod 10)])"
  by pat_completeness auto
termination by (relation "measure id") auto

declare decimal_digits.simps [simp del]

text \<open>\<^verbatim>\<open>strconv.Itoa\<close> and \<^verbatim>\<open>strconv.FormatInt(i, 10)\<close>.\<close>

definition Itoa :: "int \<Rightarrow> string" where
  "Itoa i = (if i < 0 then char_of (45 :: nat) # decimal_digits (nat (- i)) else decimal_digits (nat i))"

lemma digit_value_char_of [simp]: "d < 10 \<Longrightarrow> digit_value (char_of (48 + d)) = Some d"
  by (simp add: digit_value_def)

lemma digits_value_append:
  "digits_value n (s @ t) = (case digits_value n s of None \<Rightarrow> None | Some m \<Rightarrow> digits_value m t)"
  by (induction s arbitrary: n) (auto split: option.split)

lemma digits_value_decimal: "digits_value 0 (decimal_digits n) = Some n"
proof (induction n rule: decimal_digits.induct)
  case (1 n)
  show ?case
  proof (cases "n < 10")
    case True
    then show ?thesis by (subst decimal_digits.simps) simp
  next
    case False
    then have "digits_value 0 (decimal_digits (n div 10) @ [char_of (48 + n mod 10)]) =
        Some (10 * (n div 10) + n mod 10)"
      using "1.IH" by (simp add: digits_value_append)
    moreover have "10 * (n div 10) + n mod 10 = n" by simp
    ultimately show ?thesis using False by (subst decimal_digits.simps) simp
  qed
qed

lemma decimal_digits_hd: "decimal_digits n \<noteq> [] \<and> 48 \<le> byte (hd (decimal_digits n)) \<and> byte (hd (decimal_digits n)) \<le> 57"
proof (induction n rule: decimal_digits.induct)
  case (1 n)
  then show ?case
    by (cases "n < 10"; subst (1 2 3) decimal_digits.simps) auto
qed

lemma ParseInt_Itoa: "in_int64 i \<Longrightarrow> ParseInt (Itoa i) = Some i"
  using decimal_digits_hd [of "nat (- i)"] decimal_digits_hd [of "nat i"]
  by (auto simp: ParseInt_def Itoa_def digits_value_decimal Let_def)

lemma ParseInt_range: "ParseInt s = Some i \<Longrightarrow> in_int64 i"
  by (auto simp: ParseInt_def Let_def split: if_splits option.splits)

section \<open>Dynamic values\<close>

datatype any =
    NilV
  | BoolV bool
  | IntV int
  | Int64V int
  | Float64V float64
  | Float32V float64
  | NumberV string
  | StringV string
  | StringsV "string list"
  | ListV "any list"
  | MapV "(string \<times> any) list"

type_synonym any_map = "(string \<times> any) list"

record go_env =
  float_oor :: "float64 \<Rightarrow> int"
  round64 :: "rat \<Rightarrow> float64"
  ParseFloat :: "string \<Rightarrow> float64 option"
  ParseRFC3339Nano :: "string \<Rightarrow> gtime option"
  ParseRFC3339 :: "string \<Rightarrow> gtime option"
  FormatRFC3339 :: "gtime \<Rightarrow> string"
  UnicodeLower :: "string \<Rightarrow> string"
  UnicodeEqualFold :: "string \<Rightarrow> string \<Rightarrow> bool"
  FormatValue :: "any \<Rightarrow> string"

abbreviation to_lower :: "'z go_env_scheme \<Rightarrow> string \<Rightarrow> string" where
  "to_lower env \<equiv> ToLower (UnicodeLower env)"

text \<open>\<^verbatim>\<open>strings.EqualFold\<close>: on ASCII strings, equality up to the case of letters.\<close>

definition EqualFold :: "'z go_env_scheme \<Rightarrow> string \<Rightarrow> string \<Rightarrow> bool" where
  "EqualFold env s t =
     (if is_ascii s \<and> is_ascii t then map ascii_lower s = map ascii_lower t else UnicodeEqualFold env s t)"

text \<open>\<^verbatim>\<open>fmt.Sprint\<close> of one value: a string is itself.\<close>

fun Sprint :: "'z go_env_scheme \<Rightarrow> any \<Rightarrow> string" where
  "Sprint env (StringV s) = s"
| "Sprint env (NumberV s) = s"
| "Sprint env (BoolV b) = (if b then ''true'' else ''false'')"
| "Sprint env (IntV i) = Itoa i"
| "Sprint env (Int64V i) = Itoa i"
| "Sprint env v = FormatValue env v"

text \<open>The conversion \<^verbatim>\<open>int(f)\<close>; outside the range of the integer type Go does not fix the result.\<close>

definition int_of_float :: "'z go_env_scheme \<Rightarrow> float64 \<Rightarrow> int" where
  "int_of_float env f =
     (case f of
        Fin r \<Rightarrow> if in_int64 (truncate_rat r) then truncate_rat r else float_oor env f
      | _ \<Rightarrow> float_oor env f)"

text \<open>A key that is absent reads as \<^verbatim>\<open>nil\<close>; \<^verbatim>\<open>m[k].(string)\<close> and its like are the partial projections.\<close>

definition lookup :: "any_map \<Rightarrow> string \<Rightarrow> any" where
  "lookup m k = (case map_of m k of None \<Rightarrow> NilV | Some v \<Rightarrow> v)"

fun as_string :: "any \<Rightarrow> string option" where
  "as_string (StringV s) = Some s"
| "as_string _ = None"

fun as_bool :: "any \<Rightarrow> bool option" where
  "as_bool (BoolV b) = Some b"
| "as_bool _ = None"

fun as_map :: "any \<Rightarrow> any_map option" where
  "as_map (MapV m) = Some m"
| "as_map _ = None"

fun as_list :: "any \<Rightarrow> any list option" where
  "as_list (ListV xs) = Some xs"
| "as_list _ = None"

definition map_set :: "string \<Rightarrow> any \<Rightarrow> any_map \<Rightarrow> any_map" where
  "map_set k v m = AList.update k v m"

definition map_delete :: "string \<Rightarrow> any_map \<Rightarrow> any_map" where
  "map_delete k m = AList.delete k m"

lemma lookup_set [simp]: "lookup (map_set k v m) k' = (if k' = k then v else lookup m k')"
  by (simp add: lookup_def map_set_def update_conv)

lemma lookup_delete [simp]: "lookup (map_delete k m) k' = (if k' = k then NilV else lookup m k')"
  by (simp add: lookup_def map_delete_def delete_conv)

section \<open>Reading numbers, strings and times\<close>

fun int_value :: "'z go_env_scheme \<Rightarrow> int \<Rightarrow> any \<Rightarrow> int" where
  "int_value env d (IntV i) = i"
| "int_value env d (Int64V i) = i"
| "int_value env d (Float64V f) = int_of_float env f"
| "int_value env d (NumberV s) = (case ParseInt s of Some i \<Rightarrow> i | None \<Rightarrow> d)"
| "int_value env d (StringV s) = (case Atoi (TrimSpace s) of Some i \<Rightarrow> i | None \<Rightarrow> d)"
| "int_value env d _ = d"

definition parseTempUnschedInt :: "'z go_env_scheme \<Rightarrow> any \<Rightarrow> int" where
  "parseTempUnschedInt env v = int_value env 0 v"

definition parseExtraInt :: "'z go_env_scheme \<Rightarrow> any \<Rightarrow> int" where
  "parseExtraInt env v = int_value env 0 v"

definition parsePoolModeRetryCount :: "'z go_env_scheme \<Rightarrow> any \<Rightarrow> int" where
  "parsePoolModeRetryCount env v = int_value env 3 v"

fun parseExtraFloat64 :: "'z go_env_scheme \<Rightarrow> any \<Rightarrow> float64" where
  "parseExtraFloat64 env (Float64V f) = f"
| "parseExtraFloat64 env (Float32V f) = f"
| "parseExtraFloat64 env (IntV i) = round64 env (of_int i)"
| "parseExtraFloat64 env (Int64V i) = round64 env (of_int i)"
| "parseExtraFloat64 env (NumberV s) = (case ParseFloat env s of Some f \<Rightarrow> f | None \<Rightarrow> Fin 0)"
| "parseExtraFloat64 env (StringV s) = (case ParseFloat env (TrimSpace s) of Some f \<Rightarrow> f | None \<Rightarrow> Fin 0)"
| "parseExtraFloat64 env _ = Fin 0"

fun parseExtraTime :: "'z go_env_scheme \<Rightarrow> any \<Rightarrow> gtime" where
  "parseExtraTime env (StringV s) =
     (case ParseRFC3339Nano env s of
        Some t \<Rightarrow> t
      | None \<Rightarrow> (case ParseRFC3339 env s of Some t \<Rightarrow> t | None \<Rightarrow> zero_time))"
| "parseExtraTime env _ = zero_time"

fun parseTempUnschedString :: "any \<Rightarrow> string" where
  "parseTempUnschedString (StringV s) = TrimSpace s"
| "parseTempUnschedString _ = []"

definition trimmed_nonempty :: "string list \<Rightarrow> string list" where
  "trimmed_nonempty ss = filter (\<lambda>s. s \<noteq> []) (map TrimSpace ss)"

fun parseTempUnschedStrings :: "any \<Rightarrow> string list" where
  "parseTempUnschedStrings (StringsV ss) = trimmed_nonempty ss"
| "parseTempUnschedStrings (ListV vs) = trimmed_nonempty (List.map_filter as_string vs)"
| "parseTempUnschedStrings _ = []"

lemma trimmed_nonempty_iff: "s \<in> set (trimmed_nonempty ss) \<longleftrightarrow> s \<noteq> [] \<and> s \<in> TrimSpace ` set ss"
  by (auto simp: trimmed_nonempty_def)

lemma parseTempUnschedStrings_trimmed: "s \<in> set (parseTempUnschedStrings v) \<Longrightarrow> s \<noteq> [] \<and> TrimSpace s = s"
  by (cases v) (auto simp: trimmed_nonempty_iff)

end
