(* ===== verification/Account_Model.thy ===== *)
theory Account_Model
  imports Json_Value
begin

text \<open>
  Upstream accounts (\<^verbatim>\<open>service/account.go\<close>): the record, the readers of its \<^verbatim>\<open>credentials\<close> and
  \<^verbatim>\<open>extra\<close> maps, the error-handling configuration of pool accounts and the rules for temporary
  suspension.

  The record keeps the fields the modelled code reads.  A nil map is \<open>None\<close>; receivers are not nil.
  The clock is the argument \<open>now\<close> of each function that calls \<^verbatim>\<open>time.Now\<close>.
\<close>

section \<open>The account\<close>

record Account =
  AccountID :: int64
  Platform :: string
  AccType :: string
  Credentials :: "any_map option"
  Extra :: "any_map option"
  Concurrency :: int
  Priority :: int
  RateMultiplier :: "float64 option"
  LoadFactor :: "int option"
  AccStatus :: string
  AccExpiresAt :: "gtime option"
  AutoPauseOnExpired :: bool
  Schedulable :: bool
  RateLimitResetAt :: "gtime option"
  OverloadUntil :: "gtime option"
  TempUnschedulableUntil :: "gtime option"
  TempUnschedulableReason :: string
  SessionWindowStart :: "gtime option"
  SessionWindowEnd :: "gtime option"
  ParentAccountID :: "int64 option"
  QuotaDimension :: string
  ProxyID :: "int64 option"

definition StatusActive :: string where "StatusActive = ''active''"

definition AccountTypeAPIKey :: string where "AccountTypeAPIKey = ''apikey''"
definition AccountTypeBedrock :: string where "AccountTypeBedrock = ''bedrock''"
definition AccountTypeOAuth :: string where "AccountTypeOAuth = ''oauth''"
definition AccountTypeSetupToken :: string where "AccountTypeSetupToken = ''setup-token''"
definition PlatformAnthropic :: string where "PlatformAnthropic = ''anthropic''"
definition PlatformAntigravity :: string where "PlatformAntigravity = ''antigravity''"
definition PlatformGemini :: string where "PlatformGemini = ''gemini''"
definition PlatformOpenAI :: string where "PlatformOpenAI = ''openai''"
definition PlatformGrok :: string where "PlatformGrok = ''grok''"

lemmas account_consts =
  StatusActive_def AccountTypeAPIKey_def AccountTypeBedrock_def AccountTypeOAuth_def AccountTypeSetupToken_def
  PlatformAnthropic_def PlatformAntigravity_def PlatformGemini_def PlatformOpenAI_def PlatformGrok_def

text \<open>Reading a nil map gives \<^verbatim>\<open>nil\<close> for every key.\<close>

definition entry_of :: "any_map option \<Rightarrow> string \<Rightarrow> any" where
  "entry_of m k = (case m of None \<Rightarrow> NilV | Some m \<Rightarrow> lookup m k)"

definition has_entry :: "any_map option \<Rightarrow> string \<Rightarrow> bool" where
  "has_entry m k = (case m of None \<Rightarrow> False | Some m \<Rightarrow> map_of m k \<noteq> None)"

definition IsActive :: "'z Account_scheme \<Rightarrow> bool" where
  "IsActive a \<longleftrightarrow> AccStatus a = StatusActive"

definition BillingRateMultiplier :: "'z Account_scheme \<Rightarrow> float64" where
  "BillingRateMultiplier a =
     (case RateMultiplier a of
        None \<Rightarrow> Fin 1
      | Some m \<Rightarrow> if flt m (Fin 0) then Fin 1 else m)"

definition EffectiveLoadFactor :: "'z Account_scheme \<Rightarrow> int" where
  "EffectiveLoadFactor a =
     (case LoadFactor a of
        Some l \<Rightarrow> if 0 < l then l else if 0 < Concurrency a then Concurrency a else 1
      | None \<Rightarrow> if 0 < Concurrency a then Concurrency a else 1)"

definition IsOAuth :: "'z Account_scheme \<Rightarrow> bool" where
  "IsOAuth a \<longleftrightarrow> AccType a = AccountTypeOAuth \<or> AccType a = AccountTypeSetupToken"

definition IsBedrock :: "'z Account_scheme \<Rightarrow> bool" where
  "IsBedrock a \<longleftrightarrow> Platform a = PlatformAnthropic \<and> AccType a = AccountTypeBedrock"

definition IsAPIKeyOrBedrock :: "'z Account_scheme \<Rightarrow> bool" where
  "IsAPIKeyOrBedrock a \<longleftrightarrow> AccType a = AccountTypeAPIKey \<or> AccType a = AccountTypeBedrock"

definition IsShadow :: "'z Account_scheme \<Rightarrow> bool" where
  "IsShadow a \<longleftrightarrow> ParentAccountID a \<noteq> None"

definition QuotaDimensionOrDefault :: "'z Account_scheme \<Rightarrow> string" where
  "QuotaDimensionOrDefault a =
     (if TrimSpace (QuotaDimension a) = [] then ''global'' else QuotaDimension a)"

section \<open>Credentials\<close>

definition GetCredential :: "'z go_env_scheme \<Rightarrow> 'y Account_scheme \<Rightarrow> string \<Rightarrow> string" where
  "GetCredential env a key =
     (case entry_of (Credentials a) key of
        StringV s \<Rightarrow> s
      | NumberV s \<Rightarrow> s
      | Float64V f \<Rightarrow> Itoa (int_of_float env f)
      | Int64V i \<Rightarrow> Itoa i
      | IntV i \<Rightarrow> Itoa i
      | _ \<Rightarrow> [])"

text \<open>The instant \<open>unix_epoch\<close> is 1 January 1970 counted from Go's zero time.\<close>

definition unix_epoch :: gtime where
  "unix_epoch = 62135596800 * second"

definition GetCredentialAsTime :: "'z go_env_scheme \<Rightarrow> 'y Account_scheme \<Rightarrow> string \<Rightarrow> gtime option" where
  "GetCredentialAsTime env a key =
     (let s = GetCredential env a key in
      if s = [] then None
      else case ParseRFC3339 env s of
             Some t \<Rightarrow> Some t
           | None \<Rightarrow> (case ParseInt s of Some ts \<Rightarrow> Some (unix_epoch + ts * second) | None \<Rightarrow> None))"

definition GetCredentialAsInt64 :: "'z go_env_scheme \<Rightarrow> 'y Account_scheme \<Rightarrow> string \<Rightarrow> int64" where
  "GetCredentialAsInt64 env a key = int_value env 0 (entry_of (Credentials a) key)"

definition credential_flag :: "'z Account_scheme \<Rightarrow> string \<Rightarrow> bool" where
  "credential_flag a key = (as_bool (entry_of (Credentials a) key) = Some True)"

definition IsTempUnschedulableEnabled :: "'z Account_scheme \<Rightarrow> bool" where
  "IsTempUnschedulableEnabled a = credential_flag a ''temp_unschedulable_enabled''"

definition IsCustomErrorCodesEnabled :: "'z Account_scheme \<Rightarrow> bool" where
  "IsCustomErrorCodesEnabled a \<longleftrightarrow>
     AccType a = AccountTypeAPIKey \<and> credential_flag a ''custom_error_codes_enabled''"

definition IsInterceptWarmupEnabled :: "'z Account_scheme \<Rightarrow> bool" where
  "IsInterceptWarmupEnabled a = credential_flag a ''intercept_warmup_requests''"

definition IsPoolMode :: "'z Account_scheme \<Rightarrow> bool" where
  "IsPoolMode a \<longleftrightarrow> IsAPIKeyOrBedrock a \<and> credential_flag a ''pool_mode''"

section \<open>Rules for temporary suspension\<close>

record TempUnschedulableRule =
  ErrorCode :: int
  Keywords :: "string list"
  DurationMinutes :: int
  Description :: string

definition tempUnschedulableRule :: "'z go_env_scheme \<Rightarrow> any_map \<Rightarrow> TempUnschedulableRule" where
  "tempUnschedulableRule env entry =
     \<lparr>ErrorCode = parseTempUnschedInt env (lookup entry ''error_code''),
      Keywords = parseTempUnschedStrings (lookup entry ''keywords''),
      DurationMinutes = parseTempUnschedInt env (lookup entry ''duration_minutes''),
      Description = parseTempUnschedString (lookup entry ''description'')\<rparr>"

definition valid_rule :: "TempUnschedulableRule \<Rightarrow> bool" where
  "valid_rule r \<longleftrightarrow> \<not> (ErrorCode r \<le> 0 \<or> DurationMinutes r \<le> 0 \<or> Keywords r = [])"

definition GetTempUnschedulableRules :: "'z go_env_scheme \<Rightarrow> 'y Account_scheme \<Rightarrow> TempUnschedulableRule list" where
  "GetTempUnschedulableRules env a =
     (case as_list (entry_of (Credentials a) ''temp_unschedulable_rules'') of
        None \<Rightarrow> []
      | Some items \<Rightarrow> filter valid_rule (map (tempUnschedulableRule env) (List.map_filter as_map items)))"

section \<open>Pool mode and custom error codes\<close>

definition defaultPoolModeRetryCount :: int where
  "defaultPoolModeRetryCount = 3"

definition maxPoolModeRetryCount :: int where
  "maxPoolModeRetryCount = 10"

definition GetPoolModeRetryCount :: "'z go_env_scheme \<Rightarrow> 'y Account_scheme \<Rightarrow> int" where
  "GetPoolModeRetryCount env a =
     (if \<not> IsPoolMode a \<or> Credentials a = None then defaultPoolModeRetryCount
      else
        let raw = entry_of (Credentials a) ''pool_mode_retry_count'' in
        if raw = NilV then defaultPoolModeRetryCount
        else
          let count = parsePoolModeRetryCount env raw in
          if count < 0 then 0
          else if maxPoolModeRetryCount < count then maxPoolModeRetryCount
          else count)"

definition defaultPoolModeRetryableStatusCodes :: "int list" where
  "defaultPoolModeRetryableStatusCodes = [401, 403, 429]"

definition isPoolModeRetryableStatus :: "int \<Rightarrow> bool" where
  "isPoolModeRetryableStatus code = list_ex (\<lambda>c. c = code) defaultPoolModeRetryableStatusCodes"

text \<open>One element of the configured list: the code it denotes, if it denotes one.\<close>

fun status_code_of :: "'z go_env_scheme \<Rightarrow> any \<Rightarrow> int option" where
  "status_code_of env (Float64V f) = Some (int_of_float env f)"
| "status_code_of env (IntV i) = Some i"
| "status_code_of env (Int64V i) = Some i"
| "status_code_of env (NumberV s) = ParseInt s"
| "status_code_of env (StringV s) = Atoi (TrimSpace s)"
| "status_code_of env _ = None"

text \<open>The loop over the list, with the codes already appended as its accumulator: what cannot be read,
  is no HTTP status or was seen before is skipped.\<close>

fun collect_status_codes :: "'z go_env_scheme \<Rightarrow> any list \<Rightarrow> int list \<Rightarrow> int list" where
  "collect_status_codes env [] codes = codes"
| "collect_status_codes env (v # vs) codes =
     (case status_code_of env v of
        None \<Rightarrow> collect_status_codes env vs codes
      | Some code \<Rightarrow>
          if code < 100 \<or> 599 < code then collect_status_codes env vs codes
          else if code \<in> set codes then collect_status_codes env vs codes
          else collect_status_codes env vs (codes @ [code]))"

definition GetPoolModeRetryStatusCodes :: "'z go_env_scheme \<Rightarrow> 'y Account_scheme \<Rightarrow> int list option" where
  "GetPoolModeRetryStatusCodes env a =
     (case as_list (entry_of (Credentials a) ''pool_mode_retry_status_codes'') of
        None \<Rightarrow> None
      | Some arr \<Rightarrow> Some (sort (collect_status_codes env arr [])))"

definition IsPoolModeRetryableStatus :: "'z go_env_scheme \<Rightarrow> 'y Account_scheme \<Rightarrow> int \<Rightarrow> bool" where
  "IsPoolModeRetryableStatus env a code =
     (case GetPoolModeRetryStatusCodes env a of
        None \<Rightarrow> isPoolModeRetryableStatus code
      | Some codes \<Rightarrow> list_ex (\<lambda>c. c = code) codes)"

fun float_codes :: "'z go_env_scheme \<Rightarrow> any list \<Rightarrow> int list" where
  "float_codes env [] = []"
| "float_codes env (Float64V f # vs) = int_of_float env f # float_codes env vs"
| "float_codes env (_ # vs) = float_codes env vs"

definition GetCustomErrorCodes :: "'z go_env_scheme \<Rightarrow> 'y Account_scheme \<Rightarrow> int list" where
  "GetCustomErrorCodes env a =
     (case as_list (entry_of (Credentials a) ''custom_error_codes'') of
        None \<Rightarrow> []
      | Some arr \<Rightarrow> float_codes env arr)"

definition ShouldHandleErrorCode :: "'z go_env_scheme \<Rightarrow> 'y Account_scheme \<Rightarrow> int \<Rightarrow> bool" where
  "ShouldHandleErrorCode env a code =
     (if \<not> IsCustomErrorCodesEnabled a then True
      else
        let codes = GetCustomErrorCodes env a in
        if codes = [] then True else list_ex (\<lambda>c. c = code) codes)"

section \<open>Readers of the extra map\<close>

definition getExtraFloat64 :: "'z go_env_scheme \<Rightarrow> 'y Account_scheme \<Rightarrow> string \<Rightarrow> float64" where
  "getExtraFloat64 env a key = parseExtraFloat64 env (entry_of (Extra a) key)"

definition getExtraTime :: "'z go_env_scheme \<Rightarrow> 'y Account_scheme \<Rightarrow> string \<Rightarrow> gtime" where
  "getExtraTime env a key = parseExtraTime env (entry_of (Extra a) key)"

definition getExtraBool :: "'y Account_scheme \<Rightarrow> string \<Rightarrow> bool" where
  "getExtraBool a key = (as_bool (entry_of (Extra a) key) = Some True)"

definition getExtraString :: "'y Account_scheme \<Rightarrow> string \<Rightarrow> string" where
  "getExtraString a key = (case as_string (entry_of (Extra a) key) of None \<Rightarrow> [] | Some s \<Rightarrow> s)"

definition getExtraStringDefault :: "'y Account_scheme \<Rightarrow> string \<Rightarrow> string \<Rightarrow> string" where
  "getExtraStringDefault a key d = (let v = getExtraString a key in if v \<noteq> [] then v else d)"

definition getExtraInt :: "'z go_env_scheme \<Rightarrow> 'y Account_scheme \<Rightarrow> string \<Rightarrow> int" where
  "getExtraInt env a key =
     (if has_entry (Extra a) key then int_of_float env (parseExtraFloat64 env (entry_of (Extra a) key)) else 0)"

section \<open>Theorems\<close>

lemma set_collect_status_codes:
  "set (collect_status_codes env vs codes) =
     set codes \<union> {c. 100 \<le> c \<and> c \<le> 599 \<and> (\<exists>v \<in> set vs. status_code_of env v = Some c)}"
  by (induction env vs codes rule: collect_status_codes.induct) (auto split: option.splits)

lemma distinct_collect_status_codes:
  "distinct codes \<Longrightarrow> distinct (collect_status_codes env vs codes)"
  by (induction env vs codes rule: collect_status_codes.induct) (auto split: option.splits)

text \<open>The override list of retryable status codes is sorted, has no duplicates, and holds exactly the
  HTTP status codes between 100 and 599 that some entry of the configured list denotes.\<close>

theorem pool_retry_status_codes_spec:
  assumes "entry_of (Credentials a) ''pool_mode_retry_status_codes'' = ListV arr"
  shows "\<exists>codes. GetPoolModeRetryStatusCodes env a = Some codes \<and> sorted codes \<and> distinct codes \<and>
    (\<forall>c. IsPoolModeRetryableStatus env a c \<longleftrightarrow>
      100 \<le> c \<and> c \<le> 599 \<and> list_ex (\<lambda>v. status_code_of env v = Some c) arr)"
  using assms distinct_collect_status_codes [of "[]" env arr] set_collect_status_codes [of env arr "[]"]
  by (auto simp: GetPoolModeRetryStatusCodes_def IsPoolModeRetryableStatus_def list_ex_iff)

definition demo_account :: Account where
  "demo_account = \<lparr>AccountID = 7, Platform = PlatformOpenAI, AccType = AccountTypeAPIKey,
     Credentials = Some [(''pool_mode'', BoolV True),
       (''pool_mode_retry_status_codes'', ListV [IntV 503, StringV '' 429 '', IntV 503, IntV 42, NilV])],
     Extra = None, Concurrency = 4, Priority = 0, RateMultiplier = None, LoadFactor = None,
     AccStatus = StatusActive, AccExpiresAt = None, AutoPauseOnExpired = False, Schedulable = True,
     RateLimitResetAt = None, OverloadUntil = None, TempUnschedulableUntil = None,
     TempUnschedulableReason = [], SessionWindowStart = None, SessionWindowEnd = None,
     ParentAccountID = None, QuotaDimension = [], ProxyID = None\<rparr>"

definition demo_go_env :: go_env where
  "demo_go_env = \<lparr>float_oor = (\<lambda>f. min_int64), round64 = Fin, ParseFloat = (\<lambda>s. None),
     ParseRFC3339Nano = (\<lambda>s. None), ParseRFC3339 = (\<lambda>s. None), FormatRFC3339 = (\<lambda>t. []),
     UnicodeLower = (\<lambda>s. s), UnicodeEqualFold = (\<lambda>s t. s = t), FormatValue = (\<lambda>v. [])\<rparr>"

theorem pool_retry_status_codes_spec_witness:
  "\<exists>codes. GetPoolModeRetryStatusCodes demo_go_env demo_account = Some codes \<and> sorted codes \<and> distinct codes \<and>
    (\<forall>c. IsPoolModeRetryableStatus demo_go_env demo_account c \<longleftrightarrow>
      100 \<le> c \<and> c \<le> 599 \<and> list_ex (\<lambda>v. status_code_of demo_go_env v = Some c)
        [IntV 503, StringV '' 429 '', IntV 503, IntV 42, NilV])"
  by (rule pool_retry_status_codes_spec) (simp add: demo_account_def entry_of_def lookup_def)

lemma pool_retry_count_bounds':
  "0 \<le> GetPoolModeRetryCount env a" "GetPoolModeRetryCount env a \<le> maxPoolModeRetryCount"
  by (auto simp: GetPoolModeRetryCount_def maxPoolModeRetryCount_def defaultPoolModeRetryCount_def Let_def)

text \<open>The same-account retry budget of an account is always between 0 and 10, whatever its credentials
  hold, and it is 3 for every account that is not in pool mode.\<close>

theorem pool_retry_count_bounds:
  "0 \<le> GetPoolModeRetryCount env a \<and> GetPoolModeRetryCount env a \<le> maxPoolModeRetryCount \<and>
   (IsPoolMode a \<or> GetPoolModeRetryCount env a = defaultPoolModeRetryCount)"
  by (auto simp: GetPoolModeRetryCount_def maxPoolModeRetryCount_def defaultPoolModeRetryCount_def Let_def)

text \<open>Every rule for temporary suspension that an account yields can fire and ends: its error code and
  its duration are positive, it has a keyword, and its keywords are non-empty and trimmed.\<close>

theorem temp_unschedulable_rules_valid:
  "list_all (\<lambda>r. 0 < ErrorCode r \<and> 0 < DurationMinutes r \<and> Keywords r \<noteq> [] \<and>
      list_all (\<lambda>k. k \<noteq> [] \<and> TrimSpace k = k) (Keywords r)) (GetTempUnschedulableRules env a)"
  by (auto simp: GetTempUnschedulableRules_def list_all_iff valid_rule_def tempUnschedulableRule_def
      dest: parseTempUnschedStrings_trimmed split: option.splits)

end
