(* ===== verification/Go_Location.thy ===== *)
theory Go_Location
  imports Go_Prelude
begin

text \<open>
  Time zones, as Go's \<^verbatim>\<open>time\<close> package has them: a \<^verbatim>\<open>Location\<close> is a list of transitions, each with the
  instant it takes effect and the offset from UTC that holds from then on.  A wall clock reading
  is a day number (days since 1 January of year 1) and the time of day; \<open>Date\<close> turns it into an
  instant with the library's two-step offset search, so that a reading inside a gap or an overlap
  of the zone gets the instant Go picks.
\<close>

record Location =
  base_offset :: duration
  tx :: "(gtime \<times> duration) list"

definition UTC :: Location where
  "UTC = \<lparr>base_offset = 0, tx = []\<rparr>"

definition day_length :: duration where
  "day_length = 24 * hour"

lemma day_length_pos [simp]: "0 < day_length" "0 \<le> day_length" "day_length \<noteq> 0" "hour < day_length" "0 < hour" "0 \<le> hour"
  by (simp_all add: day_length_def go_defs)

text \<open>\<^verbatim>\<open>Location.lookup\<close>: the offset in force at an instant and the bounds between which it holds.\<close>

fun zone_lookup :: "duration \<Rightarrow> gtime option \<Rightarrow> (gtime \<times> duration) list \<Rightarrow> gtime \<Rightarrow>
    duration \<times> gtime option \<times> gtime option" where
  "zone_lookup off start [] t = (off, start, None)"
| "zone_lookup off start ((w, off') # rest) t =
     (if t < w then (off, start, Some w) else zone_lookup off' (Some w) rest t)"

definition loc_lookup :: "Location \<Rightarrow> gtime \<Rightarrow> duration \<times> gtime option \<times> gtime option" where
  "loc_lookup loc t = zone_lookup (base_offset loc) None (tx loc) t"

definition loc_offset :: "Location \<Rightarrow> gtime \<Rightarrow> duration" where
  "loc_offset loc t = fst (loc_lookup loc t)"

definition day_of :: "Location \<Rightarrow> gtime \<Rightarrow> int" where
  "day_of loc t = (t + loc_offset loc t) div day_length"

definition clock_of :: "Location \<Rightarrow> gtime \<Rightarrow> duration" where
  "clock_of loc t = (t + loc_offset loc t) mod day_length"

definition Weekday :: "Location \<Rightarrow> gtime \<Rightarrow> int" where
  "Weekday loc t = (day_of loc t + 1) mod 7"

definition Date :: "Location \<Rightarrow> int \<Rightarrow> duration \<Rightarrow> gtime" where
  "Date loc day clock =
     (let u = day * day_length + clock in
      case loc_lookup loc u of
        (off, start, end) \<Rightarrow>
          if off = 0 then u
          else
            let utc = u - off in
            if (case start of None \<Rightarrow> False | Some s \<Rightarrow> utc < s) \<or> (case end of None \<Rightarrow> False | Some e \<Rightarrow> e \<le> utc)
            then u - loc_offset loc utc
            else utc)"

definition AddDays :: "Location \<Rightarrow> gtime \<Rightarrow> int \<Rightarrow> gtime" where
  "AddDays loc t n = Date loc (day_of loc t + n) (clock_of loc t)"

section \<open>Zones with one offset\<close>

text \<open>UTC and every zone without transitions: instants and wall clock readings differ by a constant.\<close>

lemma loc_offset_fixed [simp]: "tx loc = [] \<Longrightarrow> loc_offset loc t = base_offset loc"
  by (simp add: loc_offset_def loc_lookup_def)

lemma Date_fixed: "tx loc = [] \<Longrightarrow> Date loc d c = d * day_length + c - base_offset loc"
  by (auto simp: Date_def loc_lookup_def Let_def)

lemma day_of_Date: "tx loc = [] \<Longrightarrow> 0 \<le> c \<Longrightarrow> c < day_length \<Longrightarrow> day_of loc (Date loc d c) = d"
  by (simp add: day_of_def Date_fixed)

lemma clock_of_Date: "tx loc = [] \<Longrightarrow> 0 \<le> c \<Longrightarrow> c < day_length \<Longrightarrow> clock_of loc (Date loc d c) = c"
  by (simp add: clock_of_def Date_fixed)

lemma AddDays_Date:
  "tx loc = [] \<Longrightarrow> 0 \<le> c \<Longrightarrow> c < day_length \<Longrightarrow> AddDays loc (Date loc d c) n = Date loc d c + n * day_length"
  by (simp add: AddDays_def day_of_Date clock_of_Date) (simp add: Date_fixed algebra_simps)

lemma day_clock: "tx loc = [] \<Longrightarrow> t = Date loc (day_of loc t) (clock_of loc t)"
  by (simp add: Date_fixed day_of_def clock_of_def)

lemma clock_of_bounds: "0 \<le> clock_of loc t" "clock_of loc t < day_length"
  by (simp_all add: clock_of_def)

lemma day_of_bounds:
  assumes "tx loc = []"
  shows "Date loc (day_of loc t) 0 \<le> t" "t < Date loc (day_of loc t + 1) 0"
proof -
  have "t = Date loc (day_of loc t) 0 + clock_of loc t"
    using assms day_clock [OF assms, of t] by (simp add: Date_fixed)
  moreover have "Date loc (day_of loc t + 1) 0 = Date loc (day_of loc t) 0 + day_length"
    using assms by (simp add: Date_fixed algebra_simps)
  ultimately show "Date loc (day_of loc t) 0 \<le> t" "t < Date loc (day_of loc t + 1) 0"
    using clock_of_bounds [of loc t] by linarith+
qed

end
