(* ===== verification/Account_Quota.thy ===== *)
theory Account_Quota
  imports Account_Model Go_Location
begin

text \<open>
  Spending quotas of API-key accounts (\<^verbatim>\<open>service/account.go\<close>): the total, daily and weekly limits, the
  rolling and the fixed reset of the daily and weekly windows, and the maintenance of the fixed
  windows when an account is saved.

  \<^verbatim>\<open>time.LoadLocation\<close> is a field of the environment; a zone it returns is a \<open>Location\<close>.
\<close>

record quota_env = go_env +
  LoadLocation :: "string \<Rightarrow> Location option"

section \<open>Configuration\<close>

definition GetQuotaLimit :: "'z go_env_scheme \<Rightarrow> 'y Account_scheme \<Rightarrow> float64" where
  "GetQuotaLimit env a = getExtraFloat64 env a ''quota_limit''"

definition GetQuotaUsed :: "'z go_env_scheme \<Rightarrow> 'y Account_scheme \<Rightarrow> float64" where
  "GetQuotaUsed env a = getExtraFloat64 env a ''quota_used''"

definition GetQuotaDailyLimit :: "'z go_env_scheme \<Rightarrow> 'y Account_scheme \<Rightarrow> float64" where
  "GetQuotaDailyLimit env a = getExtraFloat64 env a ''quota_daily_limit''"

definition GetQuotaDailyUsed :: "'z go_env_scheme \<Rightarrow> 'y Account_scheme \<Rightarrow> float64" where
  "GetQuotaDailyUsed env a = getExtraFloat64 env a ''quota_daily_used''"

definition GetQuotaWeeklyLimit :: "'z go_env_scheme \<Rightarrow> 'y Account_scheme \<Rightarrow> float64" where
  "GetQuotaWeeklyLimit env a = getExtraFloat64 env a ''quota_weekly_limit''"

definition GetQuotaWeeklyUsed :: "'z go_env_scheme \<Rightarrow> 'y Account_scheme \<Rightarrow> float64" where
  "GetQuotaWeeklyUsed env a = getExtraFloat64 env a ''quota_weekly_used''"

definition GetQuotaDailyResetMode :: "'y Account_scheme \<Rightarrow> string" where
  "GetQuotaDailyResetMode a = (if getExtraString a ''quota_daily_reset_mode'' = ''fixed'' then ''fixed'' else ''rolling'')"

definition GetQuotaDailyResetHour :: "'z go_env_scheme \<Rightarrow> 'y Account_scheme \<Rightarrow> int" where
  "GetQuotaDailyResetHour env a = getExtraInt env a ''quota_daily_reset_hour''"

definition GetQuotaWeeklyResetMode :: "'y Account_scheme \<Rightarrow> string" where
  "GetQuotaWeeklyResetMode a = (if getExtraString a ''quota_weekly_reset_mode'' = ''fixed'' then ''fixed'' else ''rolling'')"

definition GetQuotaWeeklyResetDay :: "'z go_env_scheme \<Rightarrow> 'y Account_scheme \<Rightarrow> int" where
  "GetQuotaWeeklyResetDay env a =
     (if has_entry (Extra a) ''quota_weekly_reset_day'' then getExtraInt env a ''quota_weekly_reset_day'' else 1)"

definition GetQuotaWeeklyResetHour :: "'z go_env_scheme \<Rightarrow> 'y Account_scheme \<Rightarrow> int" where
  "GetQuotaWeeklyResetHour env a = getExtraInt env a ''quota_weekly_reset_hour''"

definition GetQuotaResetTimezone :: "'y Account_scheme \<Rightarrow> string" where
  "GetQuotaResetTimezone a = getExtraStringDefault a ''quota_reset_timezone'' ''UTC''"

definition HasAnyQuotaLimit :: "'z go_env_scheme \<Rightarrow> 'y Account_scheme \<Rightarrow> bool" where
  "HasAnyQuotaLimit env a \<longleftrightarrow>
     flt (Fin 0) (GetQuotaLimit env a) \<or> flt (Fin 0) (GetQuotaDailyLimit env a) \<or> flt (Fin 0) (GetQuotaWeeklyLimit env a)"

section \<open>Reset instants\<close>

definition nextFixedDailyReset :: "int \<Rightarrow> Location \<Rightarrow> gtime \<Rightarrow> gtime" where
  "nextFixedDailyReset h tz after =
     (let today = Date tz (day_of tz after) (h * hour) in
      if \<not> after < today then AddDays tz today 1 else today)"

definition lastFixedDailyReset :: "int \<Rightarrow> Location \<Rightarrow> gtime \<Rightarrow> gtime" where
  "lastFixedDailyReset h tz now =
     (let today = Date tz (day_of tz now) (h * hour) in
      if now < today then AddDays tz today (- 1) else today)"

text \<open>\<open>go_rem\<close> is Go's \<^verbatim>\<open>%\<close>, the remainder of the division that truncates towards zero.\<close>

definition go_rem :: "int \<Rightarrow> int \<Rightarrow> int" where
  "go_rem a b = (if 0 \<le> a then a mod \<bar>b\<bar> else - ((- a) mod \<bar>b\<bar>))"

definition nextFixedWeeklyReset :: "int \<Rightarrow> int \<Rightarrow> Location \<Rightarrow> gtime \<Rightarrow> gtime" where
  "nextFixedWeeklyReset day h tz after =
     (let todayReset = Date tz (day_of tz after) (h * hour);
          currentDay = Weekday tz todayReset;
          daysForward = go_rem (day - currentDay + 7) 7;
          daysForward = (if daysForward = 0 \<and> \<not> after < todayReset then 7 else daysForward)
      in AddDays tz todayReset daysForward)"

definition lastFixedWeeklyReset :: "int \<Rightarrow> int \<Rightarrow> Location \<Rightarrow> gtime \<Rightarrow> gtime" where
  "lastFixedWeeklyReset day h tz now =
     (let todayReset = Date tz (day_of tz now) (h * hour);
          currentDay = Weekday tz todayReset;
          daysBack = go_rem (currentDay - day + 7) 7;
          daysBack = (if daysBack = 0 \<and> now < todayReset then 7 else daysBack)
      in AddDays tz todayReset (- daysBack))"

section \<open>Expiry and the quota check\<close>

definition quota_location :: "'z quota_env_scheme \<Rightarrow> string \<Rightarrow> Location" where
  "quota_location env name = (case LoadLocation env name of Some tz \<Rightarrow> tz | None \<Rightarrow> UTC)"

definition isFixedDailyPeriodExpired :: "'z quota_env_scheme \<Rightarrow> 'y Account_scheme \<Rightarrow> gtime \<Rightarrow> gtime \<Rightarrow> bool" where
  "isFixedDailyPeriodExpired env a now periodStart \<longleftrightarrow>
     IsZero periodStart \<or>
     periodStart < lastFixedDailyReset (GetQuotaDailyResetHour env a)
       (quota_location env (GetQuotaResetTimezone a)) now"

definition isFixedWeeklyPeriodExpired :: "'z quota_env_scheme \<Rightarrow> 'y Account_scheme \<Rightarrow> gtime \<Rightarrow> gtime \<Rightarrow> bool" where
  "isFixedWeeklyPeriodExpired env a now periodStart \<longleftrightarrow>
     IsZero periodStart \<or>
     periodStart < lastFixedWeeklyReset (GetQuotaWeeklyResetDay env a) (GetQuotaWeeklyResetHour env a)
       (quota_location env (GetQuotaResetTimezone a)) now"

definition isPeriodExpired :: "gtime \<Rightarrow> gtime \<Rightarrow> duration \<Rightarrow> bool" where
  "isPeriodExpired now periodStart dur \<longleftrightarrow> IsZero periodStart \<or> dur \<le> time_sub now periodStart"

definition IsDailyQuotaPeriodExpired :: "'z quota_env_scheme \<Rightarrow> 'y Account_scheme \<Rightarrow> gtime \<Rightarrow> bool" where
  "IsDailyQuotaPeriodExpired env a now =
     (let start = getExtraTime env a ''quota_daily_start'' in
      if GetQuotaDailyResetMode a = ''fixed'' then isFixedDailyPeriodExpired env a now start
      else isPeriodExpired now start (24 * hour))"

definition IsWeeklyQuotaPeriodExpired :: "'z quota_env_scheme \<Rightarrow> 'y Account_scheme \<Rightarrow> gtime \<Rightarrow> bool" where
  "IsWeeklyQuotaPeriodExpired env a now =
     (let start = getExtraTime env a ''quota_weekly_start'' in
      if GetQuotaWeeklyResetMode a = ''fixed'' then isFixedWeeklyPeriodExpired env a now start
      else isPeriodExpired now start (7 * 24 * hour))"

definition IsQuotaExceeded :: "'z quota_env_scheme \<Rightarrow> 'y Account_scheme \<Rightarrow> gtime \<Rightarrow> bool" where
  "IsQuotaExceeded env a now =
     (if flt (Fin 0) (GetQuotaLimit env a) \<and> fle (GetQuotaLimit env a) (GetQuotaUsed env a) then True
      else if flt (Fin 0) (GetQuotaDailyLimit env a) \<and>
              (let start = getExtraTime env a ''quota_daily_start'';
                   expired = (if GetQuotaDailyResetMode a = ''fixed'' then isFixedDailyPeriodExpired env a now start
                              else isPeriodExpired now start (24 * hour))
               in \<not> expired \<and> fle (GetQuotaDailyLimit env a) (GetQuotaDailyUsed env a)) then True
      else if flt (Fin 0) (GetQuotaWeeklyLimit env a) \<and>
              (let start = getExtraTime env a ''quota_weekly_start'';
                   expired = (if GetQuotaWeeklyResetMode a = ''fixed'' then isFixedWeeklyPeriodExpired env a now start
                              else isPeriodExpired now start (7 * 24 * hour))
               in \<not> expired \<and> fle (GetQuotaWeeklyLimit env a) (GetQuotaWeeklyUsed env a)) then True
      else False)"

section \<open>Saving an account\<close>

definition extra_location :: "'z quota_env_scheme \<Rightarrow> any_map \<Rightarrow> Location" where
  "extra_location env extra =
     (let tzName = (case as_string (lookup extra ''quota_reset_timezone'') of None \<Rightarrow> [] | Some s \<Rightarrow> s) in
      quota_location env (if tzName = [] then ''UTC'' else tzName))"

definition extra_int :: "'z go_env_scheme \<Rightarrow> any_map \<Rightarrow> string \<Rightarrow> int" where
  "extra_int env extra key = int_of_float env (parseExtraFloat64 env (lookup extra key))"

definition clamp_hour :: "int \<Rightarrow> int" where
  "clamp_hour h = (if h < 0 \<or> 23 < h then 0 else h)"

definition extra_reset_day :: "'z go_env_scheme \<Rightarrow> any_map \<Rightarrow> int" where
  "extra_reset_day env extra =
     (let day = (if map_of extra ''quota_weekly_reset_day'' \<noteq> None then extra_int env extra ''quota_weekly_reset_day'' else 1)
      in if day < 0 \<or> 6 < day then 1 else day)"

definition fixed_mode :: "any_map \<Rightarrow> string \<Rightarrow> bool" where
  "fixed_mode extra key \<longleftrightarrow> as_string (lookup extra key) = Some ''fixed''"

definition ComputeQuotaResetAt :: "'z quota_env_scheme \<Rightarrow> gtime \<Rightarrow> any_map \<Rightarrow> any_map" where
  "ComputeQuotaResetAt env now extra =
     (let tz = extra_location env extra;
          extra1 =
            (if fixed_mode extra ''quota_daily_reset_mode''
             then map_set ''quota_daily_reset_at''
                    (StringV (FormatRFC3339 env
                      (nextFixedDailyReset (clamp_hour (extra_int env extra ''quota_daily_reset_hour'')) tz now))) extra
             else map_delete ''quota_daily_reset_at'' extra)
      in if fixed_mode extra1 ''quota_weekly_reset_mode''
         then map_set ''quota_weekly_reset_at''
                (StringV (FormatRFC3339 env
                  (nextFixedWeeklyReset (extra_reset_day env extra1)
                     (clamp_hour (extra_int env extra1 ''quota_weekly_reset_hour'')) tz now))) extra1
         else map_delete ''quota_weekly_reset_at'' extra1)"

definition NormalizeFixedQuotaWindows :: "'z quota_env_scheme \<Rightarrow> gtime \<Rightarrow> any_map \<Rightarrow> any_map" where
  "NormalizeFixedQuotaWindows env now extra =
     (let tz = extra_location env extra;
          extra1 =
            (if fixed_mode extra ''quota_daily_reset_mode'' \<and>
                flt (Fin 0) (parseExtraFloat64 env (lookup extra ''quota_daily_limit''))
             then
               let lastReset = lastFixedDailyReset (clamp_hour (extra_int env extra ''quota_daily_reset_hour'')) tz now;
                   start = parseExtraTime env (lookup extra ''quota_daily_start'')
               in if IsZero start \<or> start < lastReset
                  then map_set ''quota_daily_start'' (StringV (FormatRFC3339 env lastReset))
                         (map_set ''quota_daily_used'' (Float64V (Fin 0)) extra)
                  else extra
             else extra)
      in if fixed_mode extra1 ''quota_weekly_reset_mode'' \<and>
            flt (Fin 0) (parseExtraFloat64 env (lookup extra1 ''quota_weekly_limit''))
         then
           let lastReset = lastFixedWeeklyReset (extra_reset_day env extra1)
                 (clamp_hour (extra_int env extra1 ''quota_weekly_reset_hour'')) tz now;
               start = parseExtraTime env (lookup extra1 ''quota_weekly_start'')
           in if IsZero start \<or> start < lastReset
              then map_set ''quota_weekly_start'' (StringV (FormatRFC3339 env lastReset))
                     (map_set ''quota_weekly_used'' (Float64V (Fin 0)) extra1)
              else extra1
         else extra1)"

text \<open>\<open>ValidateQuotaResetConfig\<close> reports the first rule that a configuration breaks.\<close>

datatype quota_config_error =
  InvalidTimezone | InvalidDailyMode | InvalidDailyHour | InvalidWeeklyMode | InvalidWeeklyDay | InvalidWeeklyHour

definition bad_mode :: "any_map \<Rightarrow> string \<Rightarrow> bool" where
  "bad_mode extra key =
     (case as_string (lookup extra key) of None \<Rightarrow> False | Some m \<Rightarrow> m \<noteq> ''rolling'' \<and> m \<noteq> ''fixed'')"

definition outside :: "'z go_env_scheme \<Rightarrow> any_map \<Rightarrow> string \<Rightarrow> int \<Rightarrow> bool" where
  "outside env extra key hi \<longleftrightarrow>
     map_of extra key \<noteq> None \<and> (extra_int env extra key < 0 \<or> hi < extra_int env extra key)"

definition ValidateQuotaResetConfig :: "'z quota_env_scheme \<Rightarrow> any_map option \<Rightarrow> quota_config_error option" where
  "ValidateQuotaResetConfig env extra_opt =
     (case extra_opt of
        None \<Rightarrow> None
      | Some extra \<Rightarrow>
          if (case as_string (lookup extra ''quota_reset_timezone'') of
                None \<Rightarrow> False | Some tz \<Rightarrow> tz \<noteq> [] \<and> LoadLocation env tz = None) then Some InvalidTimezone
          else if bad_mode extra ''quota_daily_reset_mode'' then Some InvalidDailyMode
          else if outside env extra ''quota_daily_reset_hour'' 23 then Some InvalidDailyHour
          else if bad_mode extra ''quota_weekly_reset_mode'' then Some InvalidWeeklyMode
          else if outside env extra ''quota_weekly_reset_day'' 6 then Some InvalidWeeklyDay
          else if outside env extra ''quota_weekly_reset_hour'' 23 then Some InvalidWeeklyHour
          else None)"

section \<open>The fixed windows in a zone with one offset\<close>

lemma hour_in_day: "0 \<le> h \<Longrightarrow> h \<le> 23 \<Longrightarrow> 0 \<le> h * hour \<and> h * hour < day_length"
  by (simp add: day_length_def)

text \<open>The distance from weekday \<open>b\<close> forward to weekday \<open>a\<close>.\<close>

lemma week_rem:
  assumes "0 \<le> a" "a \<le> 6" "0 \<le> b" "b \<le> 6"
  shows "go_rem (a - b + 7) 7 = (if a < b then a - b + 7 else a - b)"
proof -
  have "(a - b + 7) mod 7 = (if a < b then a - b + 7 else a - b)"
    using assms by presburger
  then show ?thesis using assms by (simp add: go_rem_def)
qed

lemma week_rem_same [simp]: "go_rem 7 7 = 0"
  by (simp add: go_rem_def)

text \<open>Today's reset, seen from an instant of the same day: at most a day away in either direction.\<close>

lemma today_reset:
  assumes tz: "tx tz = []" and h: "0 \<le> h" "h \<le> 23" and T: "T = Date tz (day_of tz now) (h * hour)"
  shows "T - day_length < now" "now < T + day_length"
    and "AddDays tz T n = T + n * day_length"
    and "clock_of tz (T + n * day_length) = h * hour"
    and "Weekday tz (T + n * day_length) = (Weekday tz T + n) mod 7"
proof -
  have T0: "T = Date tz (day_of tz now) 0 + h * hour" using tz by (simp add: T Date_fixed)
  moreover have "Date tz (day_of tz now + 1) 0 = Date tz (day_of tz now) 0 + day_length"
    using tz by (simp add: Date_fixed algebra_simps)
  ultimately show "T - day_length < now" "now < T + day_length"
    using day_of_bounds [OF tz, of now] hour_in_day [OF h] by linarith+
  show "AddDays tz T n = T + n * day_length"
    unfolding T using AddDays_Date [OF tz] hour_in_day [OF h] by simp
  have shift: "T + n * day_length = Date tz (day_of tz now + n) (h * hour)"
    using tz by (simp add: T Date_fixed algebra_simps)
  show "clock_of tz (T + n * day_length) = h * hour"
    unfolding shift using clock_of_Date [OF tz] hour_in_day [OF h] by simp
  have "Weekday tz (T + n * day_length) = (day_of tz now + n + 1) mod 7"
    unfolding shift Weekday_def using day_of_Date [OF tz] hour_in_day [OF h] by simp
  moreover have "Weekday tz T = (day_of tz now + 1) mod 7"
    unfolding T Weekday_def using day_of_Date [OF tz] hour_in_day [OF h] by simp
  ultimately show "Weekday tz (T + n * day_length) = (Weekday tz T + n) mod 7"
    using mod_add_left_eq [of "day_of tz now + 1" 7 n] by (simp add: add.commute add.left_commute)
qed

text \<open>Daily resets in a zone with one offset.  The last and the next reset around any instant are 24
  hours apart, both at the configured hour of the local clock, the last one not after the instant
  and the next one after it; so each instant lies in exactly one window.\<close>

theorem daily_reset_window:
  assumes "tx tz = []" "0 \<le> h" "h \<le> 23"
  shows "lastFixedDailyReset h tz now \<le> now \<and> now < nextFixedDailyReset h tz now \<and>
    nextFixedDailyReset h tz now = lastFixedDailyReset h tz now + 24 * hour \<and>
    clock_of tz (lastFixedDailyReset h tz now) = h * hour \<and>
    clock_of tz (nextFixedDailyReset h tz now) = h * hour"
proof -
  let ?T = "Date tz (day_of tz now) (h * hour)"
  note T = today_reset [OF assms refl, where now = now]
  have add: "AddDays tz ?T 1 = ?T + day_length" "AddDays tz ?T (- 1) = ?T - day_length"
    using T(3) [of 1] T(3) [of "- 1"] by simp_all
  have clock: "clock_of tz ?T = h * hour" "clock_of tz (?T + day_length) = h * hour"
      "clock_of tz (?T - day_length) = h * hour"
    using T(4) [of 0] T(4) [of 1] T(4) [of "- 1"] by simp_all
  show ?thesis
    using T(1,2) by (simp add: lastFixedDailyReset_def nextFixedDailyReset_def Let_def add clock flip: day_length_def)
qed

theorem daily_reset_window_witness:
  "lastFixedDailyReset 4 UTC 0 \<le> 0 \<and> 0 < nextFixedDailyReset 4 UTC 0 \<and>
    nextFixedDailyReset 4 UTC 0 = lastFixedDailyReset 4 UTC 0 + 24 * hour \<and>
    clock_of UTC (lastFixedDailyReset 4 UTC 0) = 4 * hour \<and> clock_of UTC (nextFixedDailyReset 4 UTC 0) = 4 * hour"
  by (rule daily_reset_window) (simp_all add: UTC_def)

text \<open>Weekly resets in a zone with one offset.  The last and the next reset around any instant are seven
  days apart, both on the configured weekday at the configured hour, the last one not after the
  instant and the next one after it.\<close>

theorem weekly_reset_window:
  assumes "tx tz = []" "0 \<le> h" "h \<le> 23" "0 \<le> d" "d \<le> 6"
  shows "lastFixedWeeklyReset d h tz now \<le> now \<and> now < nextFixedWeeklyReset d h tz now \<and>
    nextFixedWeeklyReset d h tz now = lastFixedWeeklyReset d h tz now + 7 * day_length \<and>
    Weekday tz (lastFixedWeeklyReset d h tz now) = d \<and> Weekday tz (nextFixedWeeklyReset d h tz now) = d \<and>
    clock_of tz (lastFixedWeeklyReset d h tz now) = h * hour \<and>
    clock_of tz (nextFixedWeeklyReset d h tz now) = h * hour"
proof -
  let ?T = "Date tz (day_of tz now) (h * hour)"
  let ?w = "Weekday tz ?T"
  note T = today_reset [OF assms(1-3) refl, where now = now]
  have w: "0 \<le> ?w" "?w \<le> 6" by (simp_all add: Weekday_def)
  define b where "b = (if ?w = d then if now < ?T then 7 else 0 else if d < ?w then ?w - d else ?w - d + 7)"
  have b: "0 \<le> b" "b \<le> 7" "b = 0 \<Longrightarrow> ?T \<le> now" "b = 7 \<Longrightarrow> now < ?T"
    using w assms(4,5) by (auto simp: b_def split: if_splits)
  have day: "(?w - b) mod 7 = d" "(?w + (7 - b)) mod 7 = d"
    using w assms(4,5) by (auto simp: b_def)
  have last: "lastFixedWeeklyReset d h tz now = ?T + (- b) * day_length"
    using T(3) [of "- b"] w assms(4,5) by (auto simp: lastFixedWeeklyReset_def Let_def week_rem b_def)
  have "next": "nextFixedWeeklyReset d h tz now = ?T + (7 - b) * day_length"
  proof -
    have "(if go_rem (d - ?w + 7) 7 = 0 \<and> \<not> now < ?T then 7 else go_rem (d - ?w + 7) 7) = 7 - b"
      using w assms(4,5) by (auto simp: week_rem b_def)
    then show ?thesis using T(3) [of "7 - b"] by (simp add: nextFixedWeeklyReset_def Let_def)
  qed
  have "?T + (- b) * day_length \<le> now" "now < ?T + (7 - b) * day_length"
  proof -
    have "b = 0 \<or> day_length \<le> b * day_length" "b = 7 \<or> day_length \<le> (7 - b) * day_length"
      using b(1,2) mult_right_mono [of 1 b day_length] mult_right_mono [of 1 "7 - b" day_length] by auto
    then have le: "b \<noteq> 0 \<Longrightarrow> day_length \<le> b * day_length" "b \<noteq> 7 \<Longrightarrow> day_length \<le> (7 - b) * day_length"
      by blast+
    show "?T + (- b) * day_length \<le> now"
      using b(3) le(1) T(1) unfolding mult_minus_left by (cases "b = 0") (simp, linarith)
    show "now < ?T + (7 - b) * day_length"
      using b(4) le(2) T(2) by (cases "b = 7") (simp, linarith)
  qed
  moreover have "Weekday tz (?T + (- b) * day_length) = d" "Weekday tz (?T + (7 - b) * day_length) = d"
    using T(5) [of "- b"] T(5) [of "7 - b"] day by simp_all
  ultimately show ?thesis
    using T(4) [of "- b"] T(4) [of "7 - b"] unfolding last "next" by (simp add: algebra_simps)
qed

theorem weekly_reset_window_witness:
  "lastFixedWeeklyReset 3 4 UTC 0 \<le> 0 \<and> 0 < nextFixedWeeklyReset 3 4 UTC 0 \<and>
    nextFixedWeeklyReset 3 4 UTC 0 = lastFixedWeeklyReset 3 4 UTC 0 + 7 * day_length \<and>
    Weekday UTC (lastFixedWeeklyReset 3 4 UTC 0) = 3 \<and> Weekday UTC (nextFixedWeeklyReset 3 4 UTC 0) = 3 \<and>
    clock_of UTC (lastFixedWeeklyReset 3 4 UTC 0) = 4 * hour \<and>
    clock_of UTC (nextFixedWeeklyReset 3 4 UTC 0) = 4 * hour"
  by (rule weekly_reset_window) (simp_all add: UTC_def)

section \<open>A zone with a gap\<close>

text \<open>New York around the spring transition of 2025: five hours behind UTC until 9 March 2025, 07:00 UTC,
  four hours behind from then on.  Day 739318 is 9 March 2025.\<close>

definition new_york_2025 :: Location where
  "new_york_2025 = \<lparr>base_offset = - 5 * hour, tx = [(739318 * day_length + 7 * hour, - 4 * hour)]\<rparr>"

text \<open>A reset hour that the day's clock skips moves the next day's reset.  With a reset at 02:00 in New
  York, the next reset computed at noon of the day whose clock jumps from 02:00 to 03:00 is at 01:00
  of the following day, one hour before the reset that the following day itself computes.\<close>

theorem daily_reset_after_gap_is_early:
  "(let noon = 739318 * day_length + 16 * hour; r = nextFixedDailyReset 2 new_york_2025 noon
    in day_of new_york_2025 noon = 739318 \<and> clock_of new_york_2025 noon = 12 * hour \<and>
       day_of new_york_2025 r = 739319 \<and> clock_of new_york_2025 r = 1 * hour \<and>
       nextFixedDailyReset 2 new_york_2025 r = r + 1 * hour)"
  by code_simp

section \<open>Saving an account opens the current window\<close>

lemma int_of_float_zero [simp]: "int_of_float env (Fin 0) = 0"
  by (simp add: int_of_float_def truncate_rat_def in_int64_def min_int64_def max_int64_def)

lemma extra_int_absent: "map_of extra key = None \<Longrightarrow> extra_int env extra key = 0"
  by (simp add: extra_int_def lookup_def)

text \<open>For a configuration that the validation accepts, the readers on the saved map and the readers on the
  account agree: the same zone, hour and weekday.\<close>

lemma reader_agree:
  assumes "ValidateQuotaResetConfig env (Some extra) = None" "Extra a = Some extra"
  shows "quota_location env (GetQuotaResetTimezone a) = extra_location env extra"
    and "GetQuotaDailyResetHour env a = clamp_hour (extra_int env extra ''quota_daily_reset_hour'')"
    and "GetQuotaWeeklyResetHour env a = clamp_hour (extra_int env extra ''quota_weekly_reset_hour'')"
    and "GetQuotaWeeklyResetDay env a = extra_reset_day env extra"
proof -
  have "outside env extra ''quota_daily_reset_hour'' 23 = False" "outside env extra ''quota_weekly_reset_hour'' 23 = False"
    "outside env extra ''quota_weekly_reset_day'' 6 = False"
    using assms(1) by (auto simp: ValidateQuotaResetConfig_def split: if_splits)
  then show "GetQuotaDailyResetHour env a = clamp_hour (extra_int env extra ''quota_daily_reset_hour'')"
      "GetQuotaWeeklyResetHour env a = clamp_hour (extra_int env extra ''quota_weekly_reset_hour'')"
      "GetQuotaWeeklyResetDay env a = extra_reset_day env extra"
    using assms(2) extra_int_absent [of extra _ env]
    by (auto simp: GetQuotaDailyResetHour_def GetQuotaWeeklyResetHour_def GetQuotaWeeklyResetDay_def getExtraInt_def
        has_entry_def entry_of_def outside_def clamp_hour_def extra_reset_day_def extra_int_def Let_def)
  show "quota_location env (GetQuotaResetTimezone a) = extra_location env extra"
    using assms(2)
    by (auto simp: GetQuotaResetTimezone_def getExtraStringDefault_def getExtraString_def extra_location_def
        entry_of_def Let_def)
qed

lemma fixed_mode_reader:
  "Extra a = Some extra \<Longrightarrow> (GetQuotaDailyResetMode a = ''fixed'') = fixed_mode extra ''quota_daily_reset_mode''"
  "Extra a = Some extra \<Longrightarrow> (GetQuotaWeeklyResetMode a = ''fixed'') = fixed_mode extra ''quota_weekly_reset_mode''"
  by (auto simp: GetQuotaDailyResetMode_def GetQuotaWeeklyResetMode_def getExtraString_def fixed_mode_def entry_of_def
      split: option.splits)

text \<open>Saving touches only the four keys of the two windows, the weekly ones independently of the daily
  ones.\<close>

lemma NormalizeFixedQuotaWindows_other:
  assumes "k \<notin> {''quota_daily_start'', ''quota_daily_used'', ''quota_weekly_start'', ''quota_weekly_used''}"
  shows "lookup (NormalizeFixedQuotaWindows env now extra) k = lookup extra k"
    and "map_of (NormalizeFixedQuotaWindows env now extra) k = map_of extra k"
proof -
  have k: "k \<noteq> ''quota_daily_start''" "k \<noteq> ''quota_daily_used''" "k \<noteq> ''quota_weekly_start''" "k \<noteq> ''quota_weekly_used''"
    using assms by blast+
  have set: "map_of (map_set k' v m) k = map_of m k" if "k \<noteq> k'" for k' v m
    using that by (simp add: map_set_def update_conv)
  show "map_of (NormalizeFixedQuotaWindows env now extra) k = map_of extra k"
    by (simp only: NormalizeFixedQuotaWindows_def Let_def if_distrib [of "\<lambda>m. map_of m k"] set k not_False_eq_True
        if_cancel)
  then show "lookup (NormalizeFixedQuotaWindows env now extra) k = lookup extra k"
    by (simp add: lookup_def)
qed

lemma NormalizeFixedQuotaWindows_daily:
  assumes "fixed_mode extra ''quota_daily_reset_mode''"
    and "flt (Fin 0) (parseExtraFloat64 env (lookup extra ''quota_daily_limit''))"
    and "L = lastFixedDailyReset (clamp_hour (extra_int env extra ''quota_daily_reset_hour'')) (extra_location env extra) now"
    and "s = parseExtraTime env (lookup extra ''quota_daily_start'')"
  shows "lookup (NormalizeFixedQuotaWindows env now extra) ''quota_daily_start'' =
      (if IsZero s \<or> s < L then StringV (FormatRFC3339 env L) else lookup extra ''quota_daily_start'')"
    and "lookup (NormalizeFixedQuotaWindows env now extra) ''quota_daily_used'' =
      (if IsZero s \<or> s < L then Float64V (Fin 0) else lookup extra ''quota_daily_used'')"
  using assms by (auto simp: NormalizeFixedQuotaWindows_def Let_def)

text \<open>Saving an account with a fixed daily window opens the current window.  For a configuration that the
  validation accepts, the stored window is current right after \<open>NormalizeFixedQuotaWindows\<close>; the used
  amount starts again at zero when the old window had expired and is kept otherwise.\<close>

theorem normalize_opens_daily_window:
  assumes "ValidateQuotaResetConfig env (Some extra) = None"
    and "fixed_mode extra ''quota_daily_reset_mode''"
    and "flt (Fin 0) (parseExtraFloat64 env (lookup extra ''quota_daily_limit''))"
    and "Extra a = Some extra" "b = a\<lparr>Extra := Some (NormalizeFixedQuotaWindows env now extra)\<rparr>"
    and "L = lastFixedDailyReset (GetQuotaDailyResetHour env a) (quota_location env (GetQuotaResetTimezone a)) now"
    and "ParseRFC3339Nano env (FormatRFC3339 env L) = Some L" "L \<noteq> zero_time"
  shows "\<not> IsDailyQuotaPeriodExpired env b now \<and>
    GetQuotaDailyUsed env b = (if IsDailyQuotaPeriodExpired env a now then Fin 0 else GetQuotaDailyUsed env a)"
proof -
  let ?e = "NormalizeFixedQuotaWindows env now extra"
  have b: "Extra b = Some ?e" using assms(5) by simp
  have same: "quota_location env (GetQuotaResetTimezone b) = quota_location env (GetQuotaResetTimezone a)"
    "GetQuotaDailyResetHour env b = GetQuotaDailyResetHour env a" "GetQuotaDailyResetMode b = GetQuotaDailyResetMode a"
    using assms(4) b
    by (simp_all add: GetQuotaResetTimezone_def getExtraStringDefault_def getExtraString_def GetQuotaDailyResetHour_def
        getExtraInt_def has_entry_def entry_of_def GetQuotaDailyResetMode_def NormalizeFixedQuotaWindows_other)
  have L: "L = lastFixedDailyReset (clamp_hour (extra_int env extra ''quota_daily_reset_hour'')) (extra_location env extra) now"
    using assms(6) reader_agree [OF assms(1,4)] by simp
  note n = NormalizeFixedQuotaWindows_daily [OF assms(2,3) L refl]
  have exp: "IsDailyQuotaPeriodExpired env a now \<longleftrightarrow>
      IsZero (parseExtraTime env (lookup extra ''quota_daily_start'')) \<or> parseExtraTime env (lookup extra ''quota_daily_start'') < L"
    using fixed_mode_reader [OF assms(4)] assms(2,4,6)
    by (simp add: IsDailyQuotaPeriodExpired_def isFixedDailyPeriodExpired_def getExtraTime_def entry_of_def Let_def)
  have "IsDailyQuotaPeriodExpired env b now \<longleftrightarrow>
      IsZero (parseExtraTime env (lookup ?e ''quota_daily_start'')) \<or> parseExtraTime env (lookup ?e ''quota_daily_start'') < L"
    using fixed_mode_reader [OF assms(4)] assms(2,6) b same
    by (simp add: IsDailyQuotaPeriodExpired_def isFixedDailyPeriodExpired_def getExtraTime_def entry_of_def Let_def)
  then show ?thesis
    using n exp assms(4,7,8) b by (auto simp: GetQuotaDailyUsed_def getExtraFloat64_def entry_of_def)
qed

definition demo_quota_env :: quota_env where
  "demo_quota_env = \<lparr>float_oor = (\<lambda>f. min_int64), round64 = Fin, ParseFloat = (\<lambda>s. None),
     ParseRFC3339Nano = (\<lambda>s. if s = ''2025-03-09T04:00:00Z'' then Some (739318 * day_length + 4 * hour)
                              else if s = ''2025-03-08T09:00:00Z'' then Some (739317 * day_length + 9 * hour) else None),
     ParseRFC3339 = (\<lambda>s. None),
     FormatRFC3339 = (\<lambda>t. if t = 739318 * day_length + 4 * hour then ''2025-03-09T04:00:00Z'' else []),
     UnicodeLower = (\<lambda>s. s), UnicodeEqualFold = (\<lambda>s t. s = t), FormatValue = (\<lambda>v. []),
     LoadLocation = (\<lambda>n. if n = ''UTC'' then Some UTC else None)\<rparr>"

definition demo_extra :: any_map where
  "demo_extra = [(''quota_daily_reset_mode'', StringV ''fixed''), (''quota_daily_limit'', Float64V (Fin 10)),
     (''quota_daily_reset_hour'', Float64V (Fin 4)), (''quota_daily_used'', Float64V (Fin 12)),
     (''quota_daily_start'', StringV ''2025-03-08T09:00:00Z'')]"

theorem normalize_opens_daily_window_witness:
  "\<not> IsDailyQuotaPeriodExpired demo_quota_env (demo_account\<lparr>Extra := Some (NormalizeFixedQuotaWindows demo_quota_env
       (739318 * day_length + 5 * hour) demo_extra)\<rparr>) (739318 * day_length + 5 * hour) \<and>
   GetQuotaDailyUsed demo_quota_env (demo_account\<lparr>Extra := Some (NormalizeFixedQuotaWindows demo_quota_env
       (739318 * day_length + 5 * hour) demo_extra)\<rparr>) = Fin 0"
proof -
  let ?a = "demo_account\<lparr>Extra := Some demo_extra\<rparr>" and ?now = "739318 * day_length + 5 * hour"
  have L: "739318 * day_length + 4 * hour = lastFixedDailyReset (GetQuotaDailyResetHour demo_quota_env ?a)
      (quota_location demo_quota_env (GetQuotaResetTimezone ?a)) ?now" by code_simp
  have "ValidateQuotaResetConfig demo_quota_env (Some demo_extra) = None" by code_simp
  moreover have "fixed_mode demo_extra ''quota_daily_reset_mode''" by code_simp
  moreover have "flt (Fin 0) (parseExtraFloat64 demo_quota_env (lookup demo_extra ''quota_daily_limit''))" by code_simp
  moreover have "ParseRFC3339Nano demo_quota_env (FormatRFC3339 demo_quota_env (739318 * day_length + 4 * hour)) =
      Some (739318 * day_length + 4 * hour)" by code_simp
  moreover have "739318 * day_length + 4 * hour \<noteq> zero_time" by code_simp
  moreover have "IsDailyQuotaPeriodExpired demo_quota_env ?a ?now" by code_simp
  ultimately show ?thesis
    using normalize_opens_daily_window [of demo_quota_env demo_extra ?a _ ?now, OF _ _ _ _ refl L] by simp
qed

end
