(* ===== verification/Go_Float.thy ===== *)
theory Go_Float
  imports Json_Value
begin

text \<open>
  Arithmetic on \<^verbatim>\<open>float64\<close>: the exact result on finite operands, rounded by the environment, and the rules of IEEE
  754 where an operand is infinite.  A zero carries no sign.  \<open>rounds\<close> collects what the lemmas need of the rounding:
  it is monotone, keeps 0 and 1, does not overflow on numbers of the size of an integer, and a difference of distinct
  floats is not rounded to zero.
\<close>

section \<open>Operations\<close>

fun fadd :: "'z go_env_scheme \<Rightarrow> float64 \<Rightarrow> float64 \<Rightarrow> float64" where
  "fadd env (Fin a) (Fin b) = round64 env (a + b)"
| "fadd env (Fin _) b = b"
| "fadd env PosInf (Fin _) = PosInf"
| "fadd env PosInf PosInf = PosInf"
| "fadd env NegInf (Fin _) = NegInf"
| "fadd env NegInf NegInf = NegInf"
| "fadd env _ _ = NaN"

fun fneg :: "float64 \<Rightarrow> float64" where
  "fneg (Fin a) = Fin (- a)"
| "fneg PosInf = NegInf"
| "fneg NegInf = PosInf"
| "fneg NaN = NaN"

definition fsub :: "'z go_env_scheme \<Rightarrow> float64 \<Rightarrow> float64 \<Rightarrow> float64" where
  "fsub env a b = fadd env a (fneg b)"

text \<open>Division by a positive number.\<close>

fun fdiv_pos :: "'z go_env_scheme \<Rightarrow> float64 \<Rightarrow> float64 \<Rightarrow> float64" where
  "fdiv_pos env (Fin a) (Fin b) = round64 env (a / b)"
| "fdiv_pos env (Fin a) PosInf = Fin 0"
| "fdiv_pos env PosInf (Fin b) = PosInf"
| "fdiv_pos env NegInf (Fin b) = NegInf"
| "fdiv_pos env _ _ = NaN"

text \<open>Multiplication by a positive constant.\<close>

fun fscale :: "'z go_env_scheme \<Rightarrow> float64 \<Rightarrow> rat \<Rightarrow> float64" where
  "fscale env (Fin a) c = round64 env (a * c)"
| "fscale env f c = f"

text \<open>An infinity multiplied by a finite number; division with a zero divisor, which counts as a positive zero.\<close>

definition signed_infinity :: "rat \<Rightarrow> float64" where
  "signed_infinity r = (if 0 < r then PosInf else if r < 0 then NegInf else NaN)"

fun fmul :: "'z go_env_scheme \<Rightarrow> float64 \<Rightarrow> float64 \<Rightarrow> float64" where
  "fmul env (Fin a) (Fin b) = round64 env (a * b)"
| "fmul env (Fin a) PosInf = signed_infinity a"
| "fmul env (Fin a) NegInf = signed_infinity (- a)"
| "fmul env PosInf (Fin b) = signed_infinity b"
| "fmul env NegInf (Fin b) = signed_infinity (- b)"
| "fmul env PosInf PosInf = PosInf"
| "fmul env PosInf NegInf = NegInf"
| "fmul env NegInf PosInf = NegInf"
| "fmul env NegInf NegInf = PosInf"
| "fmul env _ _ = NaN"

fun fdiv :: "'z go_env_scheme \<Rightarrow> float64 \<Rightarrow> float64 \<Rightarrow> float64" where
  "fdiv env (Fin a) (Fin b) = (if b = 0 then signed_infinity a else round64 env (a / b))"
| "fdiv env (Fin _) PosInf = Fin 0"
| "fdiv env (Fin _) NegInf = Fin 0"
| "fdiv env PosInf (Fin b) = (if b < 0 then NegInf else PosInf)"
| "fdiv env NegInf (Fin b) = (if b < 0 then PosInf else NegInf)"
| "fdiv env _ _ = NaN"

definition float_of_int :: "'z go_env_scheme \<Rightarrow> int \<Rightarrow> float64" where
  "float_of_int env i = round64 env (of_int i)"

section \<open>What rounding keeps\<close>

definition rounds :: "'z go_env_scheme \<Rightarrow> bool" where
  "rounds env \<longleftrightarrow>
     (\<forall>a b. a \<le> b \<longrightarrow> fle (round64 env a) (round64 env b)) \<and>
     round64 env 0 = Fin 0 \<and> round64 env 1 = Fin 1 \<and>
     (\<forall>a. \<bar>a\<bar> \<le> 2 ^ 65 \<longrightarrow> (\<exists>r. round64 env a = Fin r)) \<and>
     (\<forall>a b. a < b \<longrightarrow> round64 env a = Fin a \<longrightarrow> round64 env b = Fin b \<longrightarrow> round64 env (b - a) \<noteq> Fin 0)"

lemma rounds_mono: "rounds env \<Longrightarrow> a \<le> b \<Longrightarrow> fle (round64 env a) (round64 env b)"
  by (simp add: rounds_def)

lemma rounds_zero: "rounds env \<Longrightarrow> round64 env 0 = Fin 0"
  by (simp add: rounds_def)

lemma rounds_one: "rounds env \<Longrightarrow> round64 env 1 = Fin 1"
  by (simp add: rounds_def)

lemma rounds_finite: "rounds env \<Longrightarrow> \<bar>a\<bar> \<le> 2 ^ 65 \<Longrightarrow> \<exists>r. round64 env a = Fin r"
  by (simp add: rounds_def)

lemma rounds_apart:
  "rounds env \<Longrightarrow> a < b \<Longrightarrow> round64 env a = Fin a \<Longrightarrow> round64 env b = Fin b \<Longrightarrow> round64 env (b - a) \<noteq> Fin 0"
  by (simp add: rounds_def)

text \<open>The exact environment rounds nothing.\<close>

lemma rounds_exact: "round64 env = Fin \<Longrightarrow> rounds env"
  by (simp add: rounds_def)

text \<open>A nonnegative result stays nonnegative, a part of one stays a part of one.\<close>

lemma rounds_nonneg: "rounds env \<Longrightarrow> 0 \<le> a \<Longrightarrow> fle (Fin 0) (round64 env a)"
  using rounds_mono [of env 0 a] by (simp add: rounds_zero)

lemma rounds_unit:
  assumes "rounds env" and "0 \<le> a" and "a \<le> 1"
  obtains r where "round64 env a = Fin r" and "0 \<le> r" and "r \<le> 1"
proof -
  have "fle (Fin 0) (round64 env a)" and "fle (round64 env a) (Fin 1)"
    using rounds_nonneg [OF assms(1,2)] rounds_mono [OF assms(1,3)] by (simp_all add: rounds_one [OF assms(1)])
  then show thesis
    by (cases "round64 env a") (auto intro: that)
qed

lemma fle_refl: "a \<noteq> NaN \<Longrightarrow> fle a a"
  by (cases a) auto

lemma fadd_mono:
  assumes "rounds env" and "fle a b" and "fle c d" and "fle (Fin 0) a" and "fle (Fin 0) c"
  shows "fle (fadd env a c) (fadd env b d)" and "fle (Fin 0) (fadd env a c)"
proof -
  have top: "fle (round64 env r) PosInf" for r
    using rounds_mono [OF assms(1), of r r] by (cases "round64 env r") auto
  show "fle (fadd env a c) (fadd env b d)"
    using assms top by (cases a; cases b; cases c; cases d) (auto intro: rounds_mono)
  show "fle (Fin 0) (fadd env a c)"
    using assms by (cases a; cases c) (auto intro: rounds_nonneg)
qed

lemma fmul_mono:
  assumes "rounds env" and "0 \<le> w" and "a \<le> b"
  shows "fle (fmul env (Fin w) (Fin a)) (fmul env (Fin w) (Fin b))"
  using assms by (simp add: rounds_mono mult_left_mono)

lemma fmul_nonneg:
  assumes "rounds env" and "0 \<le> w" and "0 \<le> a"
  shows "fle (Fin 0) (fmul env (Fin w) (Fin a))"
  using assms by (simp add: rounds_nonneg)

end
