(* ===== verification/Account_Sched.thy ===== *)
theory Account_Sched
  imports Account_Quota Go_Float
begin

text \<open>
  Whether an account may be scheduled (\<^verbatim>\<open>service/account.go\<close>): the hard gate \<open>IsSchedulable\<close>, the gate
  for the parent of a shadow account, and the three-zone load gates for the cost of the five-hour
  window and for requests per minute.  Go's \<^verbatim>\<open>int\<close> is 64 bits wide and wraps; \<open>wrap64\<close> marks the
  additions whose operands come from configuration.
\<close>

definition before :: "gtime \<Rightarrow> gtime option \<Rightarrow> bool" where
  "before now t = (case t of None \<Rightarrow> False | Some u \<Rightarrow> now < u)"

definition IsRateLimited :: "'y Account_scheme \<Rightarrow> gtime \<Rightarrow> bool" where
  "IsRateLimited a now = before now (RateLimitResetAt a)"

definition IsOverloaded :: "'y Account_scheme \<Rightarrow> gtime \<Rightarrow> bool" where
  "IsOverloaded a now = before now (OverloadUntil a)"

definition expiry_reached :: "'y Account_scheme \<Rightarrow> gtime \<Rightarrow> bool" where
  "expiry_reached a now \<longleftrightarrow>
     AutoPauseOnExpired a \<and> (case AccExpiresAt a of None \<Rightarrow> False | Some e \<Rightarrow> \<not> now < e)"

definition IsSchedulable :: "'z quota_env_scheme \<Rightarrow> 'y Account_scheme \<Rightarrow> gtime \<Rightarrow> bool" where
  "IsSchedulable env a now =
     (if \<not> IsActive a \<or> \<not> Schedulable a then False
      else if expiry_reached a now then False
      else if before now (OverloadUntil a) then False
      else if before now (RateLimitResetAt a) then False
      else if before now (TempUnschedulableUntil a) then False
      else if IsAPIKeyOrBedrock a \<and> IsQuotaExceeded env a now then False
      else True)"

definition IsCredentialUsableForShadow :: "'y Account_scheme \<Rightarrow> gtime \<Rightarrow> bool" where
  "IsCredentialUsableForShadow a now =
     (if \<not> IsActive a then False
      else if expiry_reached a now then False
      else if before now (TempUnschedulableUntil a) then False
      else True)"

section \<open>Load zones\<close>

datatype WindowCostSchedulability = WindowCostSchedulable | WindowCostStickyOnly | WindowCostNotSchedulable

text \<open>The zones in the order of rising load.\<close>

fun zone_rank :: "WindowCostSchedulability \<Rightarrow> nat" where
  "zone_rank WindowCostSchedulable = 0"
| "zone_rank WindowCostStickyOnly = 1"
| "zone_rank WindowCostNotSchedulable = 2"

lemma zone_rank_inject: "zone_rank x = zone_rank y \<Longrightarrow> x = y"
  by (cases x; cases y) auto

instantiation WindowCostSchedulability :: linorder
begin

definition less_eq_WindowCostSchedulability :: "WindowCostSchedulability \<Rightarrow> WindowCostSchedulability \<Rightarrow> bool" where
  "less_eq_WindowCostSchedulability x y \<longleftrightarrow> zone_rank x \<le> zone_rank y"

definition less_WindowCostSchedulability :: "WindowCostSchedulability \<Rightarrow> WindowCostSchedulability \<Rightarrow> bool" where
  "less_WindowCostSchedulability x y \<longleftrightarrow> zone_rank x < zone_rank y"

instance
  by standard (auto simp: less_eq_WindowCostSchedulability_def less_WindowCostSchedulability_def intro: zone_rank_inject)

end

definition GetWindowCostLimit :: "'z go_env_scheme \<Rightarrow> 'y Account_scheme \<Rightarrow> float64" where
  "GetWindowCostLimit env a =
     (if has_entry (Extra a) ''window_cost_limit'' then parseExtraFloat64 env (entry_of (Extra a) ''window_cost_limit'')
      else Fin 0)"

definition GetWindowCostStickyReserve :: "'z go_env_scheme \<Rightarrow> 'y Account_scheme \<Rightarrow> float64" where
  "GetWindowCostStickyReserve env a =
     (if has_entry (Extra a) ''window_cost_sticky_reserve''
      then let val = parseExtraFloat64 env (entry_of (Extra a) ''window_cost_sticky_reserve'')
           in if flt (Fin 0) val then val else Fin 10
      else Fin 10)"

definition GetMaxSessions :: "'z go_env_scheme \<Rightarrow> 'y Account_scheme \<Rightarrow> int" where
  "GetMaxSessions env a =
     (if has_entry (Extra a) ''max_sessions'' then parseExtraInt env (entry_of (Extra a) ''max_sessions'') else 0)"

definition positive_or :: "int \<Rightarrow> int \<Rightarrow> int" where
  "positive_or d v = (if 0 < v then v else d)"

definition GetSessionIdleTimeoutMinutes :: "'z go_env_scheme \<Rightarrow> 'y Account_scheme \<Rightarrow> int" where
  "GetSessionIdleTimeoutMinutes env a =
     (if has_entry (Extra a) ''session_idle_timeout_minutes''
      then positive_or 5 (parseExtraInt env (entry_of (Extra a) ''session_idle_timeout_minutes'')) else 5)"

definition GetBaseRPM :: "'z go_env_scheme \<Rightarrow> 'y Account_scheme \<Rightarrow> int" where
  "GetBaseRPM env a =
     (if has_entry (Extra a) ''base_rpm'' then positive_or 0 (parseExtraInt env (entry_of (Extra a) ''base_rpm'')) else 0)"

definition GetRPMStrategy :: "'y Account_scheme \<Rightarrow> string" where
  "GetRPMStrategy a =
     (if as_string (entry_of (Extra a) ''rpm_strategy'') = Some ''sticky_exempt'' then ''sticky_exempt'' else ''tiered'')"

definition GetRPMStickyBuffer :: "'z go_env_scheme \<Rightarrow> 'y Account_scheme \<Rightarrow> int" where
  "GetRPMStickyBuffer env a =
     (if Extra a = None then 0
      else if has_entry (Extra a) ''rpm_sticky_buffer'' \<and> 0 < parseExtraInt env (entry_of (Extra a) ''rpm_sticky_buffer'')
      then parseExtraInt env (entry_of (Extra a) ''rpm_sticky_buffer'')
      else
        let base = GetBaseRPM env a in
        if base \<le> 0 then 0
        else
          let conc = (if Concurrency a < 0 then 0 else Concurrency a);
              sess = (if GetMaxSessions env a < 0 then 0 else GetMaxSessions env a);
              buffer = wrap64 (conc + sess);
              floor = (if base div 5 < 1 then 1 else base div 5)
          in if buffer < floor then floor else buffer)"

definition CheckRPMSchedulability :: "'z go_env_scheme \<Rightarrow> 'y Account_scheme \<Rightarrow> int \<Rightarrow> WindowCostSchedulability" where
  "CheckRPMSchedulability env a currentRPM =
     (let baseRPM = GetBaseRPM env a in
      if baseRPM \<le> 0 then WindowCostSchedulable
      else if currentRPM < baseRPM then WindowCostSchedulable
      else if GetRPMStrategy a = ''sticky_exempt'' then WindowCostStickyOnly
      else if currentRPM < wrap64 (baseRPM + GetRPMStickyBuffer env a) then WindowCostStickyOnly
      else WindowCostNotSchedulable)"

definition CheckWindowCostSchedulability :: "'z go_env_scheme \<Rightarrow> 'y Account_scheme \<Rightarrow> float64 \<Rightarrow> WindowCostSchedulability" where
  "CheckWindowCostSchedulability env a currentWindowCost =
     (let limit = GetWindowCostLimit env a in
      if fle limit (Fin 0) then WindowCostSchedulable
      else if flt currentWindowCost limit then WindowCostSchedulable
      else if flt currentWindowCost (fadd env limit (GetWindowCostStickyReserve env a)) then WindowCostStickyOnly
      else WindowCostNotSchedulable)"

definition GetCurrentWindowStartTime :: "'y Account_scheme \<Rightarrow> Location \<Rightarrow> gtime \<Rightarrow> gtime" where
  "GetCurrentWindowStartTime a loc now =
     (case (SessionWindowStart a, SessionWindowEnd a) of
        (Some s, Some e) \<Rightarrow>
          if now < e then s else Date loc (day_of loc now) (clock_of loc now div hour * hour)
      | _ \<Rightarrow> Date loc (day_of loc now) (clock_of loc now div hour * hour))"

section \<open>Theorems\<close>

text \<open>Both load gates are monotone: more requests in the minute or more cost in the window never move an
  account to a more permissive zone.\<close>

theorem load_gates_monotone:
  "(r \<le> r' \<longrightarrow> CheckRPMSchedulability env a r \<le> CheckRPMSchedulability env a r') \<and>
   (fle c c' \<longrightarrow> CheckWindowCostSchedulability env a c \<le> CheckWindowCostSchedulability env a c')"
  by (auto simp: CheckRPMSchedulability_def CheckWindowCostSchedulability_def less_eq_WindowCostSchedulability_def Let_def
      dest: fle_flt_trans)

theorem load_gates_monotone_witness:
  "CheckRPMSchedulability demo_go_env demo_account 3 \<le> CheckRPMSchedulability demo_go_env demo_account 5 \<and>
   CheckWindowCostSchedulability demo_go_env demo_account (Fin 1) \<le>
     CheckWindowCostSchedulability demo_go_env demo_account (Fin 2)"
  using load_gates_monotone [of 3 5 demo_go_env demo_account "Fin 1" "Fin 2"] by simp

lemma GetRPMStickyBuffer_pos: "0 < GetBaseRPM env a \<Longrightarrow> 1 \<le> GetRPMStickyBuffer env a"
  by (auto simp: GetRPMStickyBuffer_def GetBaseRPM_def has_entry_def Let_def split: option.splits)

text \<open>Crossing the requests-per-minute limit never cuts off sticky sessions at once: as long as limit plus
  buffer stays in the range of the integer type, an account whose count has just reached its limit
  still serves sticky sessions, new sessions are refused exactly from the limit on, and under the
  tiered strategy all are refused exactly from limit plus buffer on.\<close>

theorem rpm_zones:
  assumes "0 < GetBaseRPM env a" "GetBaseRPM env a + GetRPMStickyBuffer env a \<le> max_int64"
  shows "CheckRPMSchedulability env a (GetBaseRPM env a) = WindowCostStickyOnly \<and>
    (CheckRPMSchedulability env a r = WindowCostSchedulable \<longleftrightarrow> r < GetBaseRPM env a) \<and>
    (CheckRPMSchedulability env a r = WindowCostNotSchedulable \<longleftrightarrow>
       GetRPMStrategy a = ''tiered'' \<and> GetBaseRPM env a + GetRPMStickyBuffer env a \<le> r)"
proof -
  have "wrap64 (GetBaseRPM env a + GetRPMStickyBuffer env a) = GetBaseRPM env a + GetRPMStickyBuffer env a"
    using assms GetRPMStickyBuffer_pos [OF assms(1)] by (intro wrap64_id) (auto simp: in_int64_def min_int64_def)
  then show ?thesis
    using assms(1) GetRPMStickyBuffer_pos [OF assms(1)]
    by (auto simp: CheckRPMSchedulability_def Let_def GetRPMStrategy_def)
qed

theorem rpm_zones_witness:
  "CheckRPMSchedulability demo_go_env (demo_account\<lparr>Extra := Some [(''base_rpm'', IntV 60)]\<rparr>) 60 = WindowCostStickyOnly"
proof -
  let ?a = "demo_account\<lparr>Extra := Some [(''base_rpm'', IntV 60)]\<rparr>"
  have "GetBaseRPM demo_go_env ?a = 60" "GetRPMStickyBuffer demo_go_env ?a = 12" by code_simp+
  then show ?thesis using rpm_zones [of demo_go_env ?a 0] by (simp add: max_int64_def)
qed

text \<open>A shadow account stands on its parent's credentials only.  A schedulable parent is usable for its
  shadows, and the parent's rate limit, overload window and manual switch do not change that.\<close>

theorem shadow_usability:
  "(IsSchedulable env a now \<longrightarrow> IsCredentialUsableForShadow a now) \<and>
   IsCredentialUsableForShadow (a\<lparr>RateLimitResetAt := r, OverloadUntil := v, Schedulable := s\<rparr>) now =
   IsCredentialUsableForShadow a now"
  by (auto simp: IsSchedulable_def IsCredentialUsableForShadow_def IsActive_def expiry_reached_def split: if_splits)

theorem shadow_usability_witness:
  "IsCredentialUsableForShadow demo_account 5 \<and>
   IsCredentialUsableForShadow (demo_account\<lparr>RateLimitResetAt := Some 9, OverloadUntil := Some 9, Schedulable := False\<rparr>) 5"
proof -
  have "IsSchedulable demo_quota_env demo_account 5" by code_simp
  then show ?thesis
    using shadow_usability [where env = demo_quota_env and a = demo_account and now = 5 and r = "Some 9"
        and v = "Some 9" and s = False] by simp
qed

lemma before_le: "before now t \<Longrightarrow> u \<le> now \<Longrightarrow> before u t"
  by (auto simp: before_def split: option.splits)

text \<open>Temporary blocks end.  An active account with the switch on, no automatic pause on expiry and no
  spending limit becomes schedulable and stays so: there is an instant from which on it is schedulable
  whatever rate limit, overload or suspension it had.\<close>

theorem temporary_blocks_end:
  assumes "IsActive a" "Schedulable a" "\<not> AutoPauseOnExpired a" "\<not> HasAnyQuotaLimit env a"
  shows "\<exists>t. \<forall>now. t \<le> now \<longrightarrow> IsSchedulable env a now"
proof -
  have "\<exists>t. \<forall>now. t \<le> now \<longrightarrow> \<not> before now u" for u
    by (cases u) (auto simp: before_def not_less)
  then obtain f where f: "\<And>u now. f u \<le> now \<Longrightarrow> \<not> before now u" by metis
  have quota: "\<not> IsQuotaExceeded env a now" for now
    using assms(4) by (simp add: IsQuotaExceeded_def HasAnyQuotaLimit_def)
  show ?thesis
  proof (intro exI allI impI)
    fix now
    assume "max (f (OverloadUntil a)) (max (f (RateLimitResetAt a)) (f (TempUnschedulableUntil a))) \<le> now"
    then show "IsSchedulable env a now"
      using assms(1-3) f quota by (simp add: IsSchedulable_def expiry_reached_def)
  qed
qed

theorem temporary_blocks_end_witness:
  "\<exists>t. \<forall>now. t \<le> now \<longrightarrow>
     IsSchedulable demo_quota_env (demo_account\<lparr>RateLimitResetAt := Some 9, TempUnschedulableUntil := Some 20\<rparr>) now"
  by (rule temporary_blocks_end) code_simp+

end
