(* ===== verification/Failover.thy ===== *)
theory Failover
  imports Account_Sched
begin

text \<open>
  Failover between upstream accounts: the error value (\<^verbatim>\<open>service/gateway_service.go\<close>,
  \<open>UpstreamFailoverError\<close>), the per-request state and its two handlers
  (\<^verbatim>\<open>handler/failover_loop.go\<close>), and the selection and forwarding loop that drives them
  (\<^verbatim>\<open>handler/gateway_handler_chat_completions.go\<close>).

  The request context, the clock and the waits are a \<open>request_ctx\<close>; the account store behind
  \<open>TempUnscheduleRetryableError\<close> is a record of functions on a store \<open>'g\<close>; what the scheduler and the
  upstream answer in each round of the loop is a list of rounds.  Logging is left out.
\<close>

section \<open>Failover errors\<close>

datatype GatewayFailureStage = StageUnset | GatewayFailureStageInference | GatewayFailureStageAccountAuth

datatype GatewayFailureScope =
  ScopeUnset | GatewayFailureScopeAccount | GatewayFailureScopeProvider | GatewayFailureScopeRequest

datatype NextAccountAction = NextAccountLegacyRetry | NextAccountRetry | NextAccountStop

record UpstreamFailoverError =
  StatusCode :: int
  ResponseBody :: string
  ForceCacheBilling :: bool
  RetryableOnSameAccount :: bool
  SameAccountRetryDelay :: duration
  SameAccountRetryDeadline :: gtime
  SameAccountRetryMax :: int
  RequestScopedTransient :: bool
  SafeToFailoverAfterWrite :: bool
  Stage :: GatewayFailureStage
  Scope :: GatewayFailureScope
  Reason :: string
  NextAction :: NextAccountAction
  ClientStatusCode :: int
  ClientMessage :: string

definition ShouldRetryNextAccount :: "UpstreamFailoverError option \<Rightarrow> bool" where
  "ShouldRetryNextAccount e = (case e of None \<Rightarrow> False | Some e \<Rightarrow> NextAction e \<noteq> NextAccountStop)"

definition IsCredentialFailure :: "UpstreamFailoverError option \<Rightarrow> bool" where
  "IsCredentialFailure e = (case e of None \<Rightarrow> False | Some e \<Rightarrow> Stage e = GatewayFailureStageAccountAuth)"

definition ShouldReportAccountScheduleFailure :: "UpstreamFailoverError option \<Rightarrow> bool" where
  "ShouldReportAccountScheduleFailure e =
     (case e of
        None \<Rightarrow> False
      | Some err \<Rightarrow> \<not> IsCredentialFailure e \<or> Scope err = GatewayFailureScopeAccount)"

section \<open>Temporary suspension after the retries\<close>

record 'g AccountRepository =
  GetByID :: "'g \<Rightarrow> int64 \<Rightarrow> unit + Account option"
  SetTempUnschedulable :: "'g \<Rightarrow> int64 \<Rightarrow> gtime \<Rightarrow> string \<Rightarrow> 'g"

definition googleConfigErrorCooldown :: duration where
  "googleConfigErrorCooldown = 1 * minute"

definition emptyResponseCooldown :: duration where
  "emptyResponseCooldown = 1 * minute"

definition tempUnscheduleGoogleConfigError :: "'g AccountRepository \<Rightarrow> int64 \<Rightarrow> gtime \<Rightarrow> 'g \<Rightarrow> 'g" where
  "tempUnscheduleGoogleConfigError repo accountID now g =
     SetTempUnschedulable repo g accountID (now + googleConfigErrorCooldown)
       ''400: invalid project resource name (auto temp-unschedule 1m)''"

definition tempUnscheduleEmptyResponse :: "'g AccountRepository \<Rightarrow> int64 \<Rightarrow> gtime \<Rightarrow> 'g \<Rightarrow> 'g" where
  "tempUnscheduleEmptyResponse repo accountID now g =
     SetTempUnschedulable repo g accountID (now + emptyResponseCooldown)
       ''empty stream response (auto temp-unschedule 1m)''"

definition TempUnscheduleRetryableError ::
  "'g AccountRepository option \<Rightarrow> gtime \<Rightarrow> int64 \<Rightarrow> UpstreamFailoverError option \<Rightarrow> 'g \<Rightarrow> 'g" where
  "TempUnscheduleRetryableError repo_opt now accountID failoverErr g =
     (case (repo_opt, failoverErr) of
        (Some repo, Some e) \<Rightarrow>
          if \<not> RetryableOnSameAccount e then g
          else if RequestScopedTransient e then g
          else (case GetByID repo g accountID of
                  Inl _ \<Rightarrow> g
                | Inr account \<Rightarrow>
                    if (case account of None \<Rightarrow> False | Some a \<Rightarrow> IsPoolMode a) then g
                    else if StatusCode e = 400 then tempUnscheduleGoogleConfigError repo accountID now g
                    else if StatusCode e = 502 then tempUnscheduleEmptyResponse repo accountID now g
                    else g)
      | _ \<Rightarrow> g)"

section \<open>Retries on the same account\<close>

datatype FailoverAction = FailoverContinue | FailoverExhausted | FailoverCanceled

definition sameAccountRetryDelay :: duration where
  "sameAccountRetryDelay = 500 * millisecond"

definition maxRequestScopedRetryDelay :: duration where
  "maxRequestScopedRetryDelay = 8 * second"

definition singleAccountBackoffDelay :: duration where
  "singleAccountBackoffDelay = 2 * second"

text \<open>The doubling loop, with the number of rounds left.\<close>

fun retry_delay_loop :: "nat \<Rightarrow> duration \<Rightarrow> duration" where
  "retry_delay_loop 0 delay = delay"
| "retry_delay_loop (Suc n) delay =
     (if maxRequestScopedRetryDelay div 2 \<le> delay then maxRequestScopedRetryDelay
      else retry_delay_loop n (delay * 2))"

definition sameAccountRetryDelayFor :: "UpstreamFailoverError option \<Rightarrow> int \<Rightarrow> duration" where
  "sameAccountRetryDelayFor failoverErr retryCount =
     (case failoverErr of
        None \<Rightarrow> sameAccountRetryDelay
      | Some e \<Rightarrow>
          if 0 < SameAccountRetryDelay e then SameAccountRetryDelay e
          else if \<not> RequestScopedTransient e \<or> retryCount \<le> 1 then sameAccountRetryDelay
          else retry_delay_loop (nat (retryCount - 1)) sameAccountRetryDelay)"

definition sameAccountRetryDeadlineAllows :: "gtime \<Rightarrow> UpstreamFailoverError option \<Rightarrow> bool" where
  "sameAccountRetryDeadlineAllows now failoverErr =
     (case failoverErr of
        None \<Rightarrow> True
      | Some e \<Rightarrow> IsZero (SameAccountRetryDeadline e) \<or> now < SameAccountRetryDeadline e)"

definition sameAccountRetryAllowed :: "gtime \<Rightarrow> UpstreamFailoverError option \<Rightarrow> int \<Rightarrow> int \<Rightarrow> bool" where
  "sameAccountRetryAllowed now failoverErr retryCount retryLimit =
     (case failoverErr of
        None \<Rightarrow> False
      | Some e \<Rightarrow>
          if \<not> RetryableOnSameAccount e then False
          else if \<not> sameAccountRetryDeadlineAllows now failoverErr then False
          else if 0 < SameAccountRetryMax e then
            (if retryLimit \<le> 0 then False
             else retryCount < (if SameAccountRetryMax e < retryLimit then SameAccountRetryMax e else retryLimit))
          else if \<not> IsZero (SameAccountRetryDeadline e) then True
          else 0 < retryLimit \<and> retryCount < retryLimit)"

definition effectiveSameAccountRetryLimit ::
  "'z go_env_scheme \<Rightarrow> UpstreamFailoverError option \<Rightarrow> Account option \<Rightarrow> int" where
  "effectiveSameAccountRetryLimit env failoverErr account =
     (case account of
        None \<Rightarrow> 0
      | Some a \<Rightarrow>
          let limit = GetPoolModeRetryCount env a in
          (case failoverErr of
             None \<Rightarrow> limit
           | Some e \<Rightarrow>
               if 0 < limit \<and> 0 < SameAccountRetryMax e \<and> SameAccountRetryMax e < limit
               then SameAccountRetryMax e else limit))"

section \<open>The state and its handlers\<close>

record request_ctx =
  ctx_done :: bool
  ctx_now :: gtime
  wait_ok :: "duration \<Rightarrow> bool"

definition sleepWithContext :: "request_ctx \<Rightarrow> duration \<Rightarrow> bool" where
  "sleepWithContext ctx d = (if d \<le> 0 then True else wait_ok ctx d)"

record FailoverState =
  SwitchCount :: int
  MaxSwitches :: int
  FailedAccountIDs :: "int64 list"
  SameAccountRetryCount :: "(int64 \<times> int) list"
  LastFailoverErr :: "UpstreamFailoverError option"
  StForceCacheBilling :: bool
  hasBoundSession :: bool

definition NewFailoverState :: "int \<Rightarrow> bool \<Rightarrow> FailoverState" where
  "NewFailoverState maxSwitches bound =
     \<lparr>SwitchCount = 0, MaxSwitches = maxSwitches, FailedAccountIDs = [], SameAccountRetryCount = [],
      LastFailoverErr = None, StForceCacheBilling = False, hasBoundSession = bound\<rparr>"

text \<open>A missing counter reads as zero; the set of failed accounts is a list without duplicates.\<close>

definition retry_count :: "FailoverState \<Rightarrow> int64 \<Rightarrow> int" where
  "retry_count s accountID =
     (case map_of (SameAccountRetryCount s) accountID of None \<Rightarrow> 0 | Some n \<Rightarrow> n)"

definition needForceCacheBilling :: "bool \<Rightarrow> UpstreamFailoverError option \<Rightarrow> bool \<Rightarrow> bool" where
  "needForceCacheBilling bound failoverErr sameAccountRetry \<longleftrightarrow>
     (bound \<and> \<not> sameAccountRetry) \<or> (case failoverErr of None \<Rightarrow> False | Some e \<Rightarrow> ForceCacheBilling e)"

definition HandleFailoverError ::
  "request_ctx \<Rightarrow> ('g \<Rightarrow> int64 \<Rightarrow> UpstreamFailoverError option \<Rightarrow> 'g) \<Rightarrow> int64 \<Rightarrow> string \<Rightarrow> int \<Rightarrow>
   UpstreamFailoverError option \<Rightarrow> FailoverState \<Rightarrow> 'g \<Rightarrow> FailoverAction \<times> FailoverState \<times> 'g" where
  "HandleFailoverError ctx tempUnschedule accountID platform retryLimit failoverErr s g =
     (if ctx_done ctx then (FailoverCanceled, s, g)
      else
        let s = s\<lparr>LastFailoverErr := failoverErr\<rparr> in
        if \<not> ShouldRetryNextAccount failoverErr then (FailoverExhausted, s, g)
        else
          let retryCount = retry_count s accountID;
              sameAccountRetry = sameAccountRetryAllowed (ctx_now ctx) failoverErr retryCount retryLimit;
              s = (if needForceCacheBilling (hasBoundSession s) failoverErr sameAccountRetry
                   then s\<lparr>StForceCacheBilling := True\<rparr> else s)
          in if sameAccountRetry then
               let s = s\<lparr>SameAccountRetryCount := AList.update accountID (retryCount + 1) (SameAccountRetryCount s)\<rparr> in
               if \<not> sleepWithContext ctx (sameAccountRetryDelayFor failoverErr (retry_count s accountID))
               then (FailoverCanceled, s, g)
               else (FailoverContinue, s, g)
             else
               let g = (if RetryableOnSameAccount (the failoverErr) then tempUnschedule g accountID failoverErr else g);
                   s = s\<lparr>FailedAccountIDs := List.insert accountID (FailedAccountIDs s)\<rparr>
               in if MaxSwitches s \<le> SwitchCount s then (FailoverExhausted, s, g)
                  else
                    let s = s\<lparr>SwitchCount := SwitchCount s + 1\<rparr> in
                    if platform = PlatformAntigravity \<and>
                       \<not> sleepWithContext ctx ((SwitchCount s - 1) * second)
                    then (FailoverCanceled, s, g)
                    else (FailoverContinue, s, g))"

definition HandleSelectionExhausted :: "request_ctx \<Rightarrow> FailoverState \<Rightarrow> FailoverAction \<times> FailoverState" where
  "HandleSelectionExhausted ctx s =
     (if ctx_done ctx then (FailoverCanceled, s)
      else if (case LastFailoverErr s of None \<Rightarrow> False | Some e \<Rightarrow> StatusCode e = 503) \<and>
              SwitchCount s \<le> MaxSwitches s
      then (if \<not> sleepWithContext ctx singleAccountBackoffDelay then (FailoverCanceled, s)
            else (FailoverContinue, s\<lparr>FailedAccountIDs := []\<rparr>))
      else (FailoverExhausted, s))"

section \<open>The forwarding loop\<close>

datatype forward_result =
    ForwardOK
  | ForwardNotConfigured
  | ForwardBetaBlocked
  | ForwardFailover UpstreamFailoverError bool
  | ForwardOther

datatype slot_result = SlotAcquired | SlotNoWaitPlan | SlotWaitFailed

datatype selection = SelectErr | Selected Account slot_result forward_result

text \<open>What the environment answers in one round: whether the client is gone when the round starts, the
  context when a handler runs, the selected account with the outcome of its slot, and the outcome of
  the forwarding; the flag of \<open>ForwardFailover\<close> says that bytes already reached the client.\<close>

record loop_round =
  gone_at_start :: bool
  handler_ctx :: request_ctx
  selected :: selection

datatype loop_outcome =
    Running
  | ClientGone
  | NoAvailableAccounts
  | AllExhausted "UpstreamFailoverError option"
  | SlotUnavailable
  | SlotError
  | NotConfigured
  | BetaBlocked
  | UpstreamError
  | Served int64

text \<open>One round of the loop: it goes on with \<open>Running\<close>, or returns.\<close>

definition cc_round ::
  "'z go_env_scheme \<Rightarrow> ('g \<Rightarrow> int64 \<Rightarrow> UpstreamFailoverError option \<Rightarrow> 'g) \<Rightarrow> string \<Rightarrow> loop_round \<Rightarrow>
   FailoverState \<Rightarrow> 'g \<Rightarrow> loop_outcome \<times> FailoverState \<times> 'g" where
  "cc_round env tempUnschedule groupPlatform r fs g =
     (if gone_at_start r then (ClientGone, fs, g)
      else case selected r of
        SelectErr \<Rightarrow>
          if FailedAccountIDs fs = [] then (NoAvailableAccounts, fs, g)
          else (case HandleSelectionExhausted (handler_ctx r) fs of
                  (FailoverContinue, fs') \<Rightarrow> (Running, fs', g)
                | (FailoverCanceled, fs') \<Rightarrow> (ClientGone, fs', g)
                | (FailoverExhausted, fs') \<Rightarrow> (AllExhausted (LastFailoverErr fs'), fs', g))
      | Selected account slot result \<Rightarrow>
          if slot = SlotNoWaitPlan then (SlotUnavailable, fs, g)
          else if slot = SlotWaitFailed then (SlotError, fs, g)
          else if groupPlatform = PlatformGemini \<and> Platform account \<noteq> PlatformGemini
          then (Running, fs\<lparr>FailedAccountIDs := List.insert (AccountID account) (FailedAccountIDs fs)\<rparr>, g)
          else (case result of
                  ForwardOK \<Rightarrow> (Served (AccountID account), fs, g)
                | ForwardNotConfigured \<Rightarrow> (NotConfigured, fs, g)
                | ForwardBetaBlocked \<Rightarrow> (BetaBlocked, fs, g)
                | ForwardOther \<Rightarrow> (UpstreamError, fs, g)
                | ForwardFailover e wrote \<Rightarrow>
                    if wrote then (AllExhausted (Some e), fs, g)
                    else (case HandleFailoverError (handler_ctx r) tempUnschedule (AccountID account) (Platform account)
                                 (GetPoolModeRetryCount env account) (Some e) fs g of
                            (FailoverContinue, fs', g') \<Rightarrow> (Running, fs', g')
                          | (FailoverExhausted, fs', g') \<Rightarrow> (AllExhausted (LastFailoverErr fs'), fs', g')
                          | (FailoverCanceled, fs', g') \<Rightarrow> (ClientGone, fs', g'))))"

fun cc_loop ::
  "'z go_env_scheme \<Rightarrow> ('g \<Rightarrow> int64 \<Rightarrow> UpstreamFailoverError option \<Rightarrow> 'g) \<Rightarrow> string \<Rightarrow> loop_round list \<Rightarrow>
   FailoverState \<Rightarrow> 'g \<Rightarrow> loop_outcome \<times> FailoverState \<times> 'g" where
  "cc_loop env tu groupPlatform [] fs g = (Running, fs, g)"
| "cc_loop env tu groupPlatform (r # rs) fs g =
     (case cc_round env tu groupPlatform r fs g of
        (Running, fs', g') \<Rightarrow> cc_loop env tu groupPlatform rs fs' g'
      | done \<Rightarrow> done)"

section \<open>Delays\<close>

lemma retry_delay_loop_min:
  "0 < d \<Longrightarrow> d \<le> maxRequestScopedRetryDelay \<Longrightarrow> retry_delay_loop n d = min maxRequestScopedRetryDelay (d * 2 ^ n)"
proof (induction n arbitrary: d)
  case 0
  then show ?case by simp
next
  case (Suc n)
  show ?case
  proof (cases "maxRequestScopedRetryDelay div 2 \<le> d")
    case True
    have "maxRequestScopedRetryDelay \<le> d * 2"
      using True by (simp add: maxRequestScopedRetryDelay_def go_defs)
    also have "\<dots> \<le> d * 2 ^ Suc n" using Suc.prems by simp
    finally show ?thesis using True by simp
  next
    case False
    then have "d * 2 \<le> maxRequestScopedRetryDelay"
      by (simp add: maxRequestScopedRetryDelay_def go_defs)
    with Suc False show ?thesis by (simp add: mult.assoc)
  qed
qed

text \<open>The back-off before a retry on the same account.  A delay that the error names is used as it is;
  otherwise the wait before retry \<open>n\<close> of a request-scoped transient error is 500 ms doubled \<open>n - 1\<close> times,
  cut off at 8 s, and every other error waits 500 ms.\<close>

theorem retry_delay_spec:
  assumes "1 \<le> n"
  shows "sameAccountRetryDelayFor (Some e) n =
    (if 0 < SameAccountRetryDelay e then SameAccountRetryDelay e
     else if RequestScopedTransient e then min (8 * second) (500 * millisecond * 2 ^ nat (n - 1))
     else 500 * millisecond)"
proof (cases "n = 1")
  case True
  then show ?thesis
    by (auto simp: sameAccountRetryDelayFor_def sameAccountRetryDelay_def go_defs)
next
  case False
  have "0 < sameAccountRetryDelay" "sameAccountRetryDelay \<le> maxRequestScopedRetryDelay"
    by (simp_all add: sameAccountRetryDelay_def maxRequestScopedRetryDelay_def go_defs)
  then have "retry_delay_loop (nat (n - 1)) sameAccountRetryDelay =
      min (8 * second) (500 * millisecond * 2 ^ nat (n - 1))"
    by (subst retry_delay_loop_min) (simp_all add: maxRequestScopedRetryDelay_def sameAccountRetryDelay_def)
  with assms False show ?thesis
    by (simp add: sameAccountRetryDelayFor_def sameAccountRetryDelay_def)
qed

definition demo_err :: UpstreamFailoverError where
  "demo_err = \<lparr>StatusCode = 503, ResponseBody = [], ForceCacheBilling = False, RetryableOnSameAccount = True,
     SameAccountRetryDelay = 0, SameAccountRetryDeadline = zero_time, SameAccountRetryMax = 0,
     RequestScopedTransient = True, SafeToFailoverAfterWrite = False, Stage = StageUnset, Scope = ScopeUnset,
     Reason = [], NextAction = NextAccountLegacyRetry, ClientStatusCode = 0, ClientMessage = []\<rparr>"

theorem retry_delay_spec_witness:
  "sameAccountRetryDelayFor (Some demo_err) 3 = 2 * second \<and> sameAccountRetryDelayFor (Some demo_err) 9 = 8 * second"
  using retry_delay_spec [of 3 demo_err] retry_delay_spec [of 9 demo_err] by (simp add: demo_err_def go_defs)

section \<open>What one round changes\<close>

lemma retry_count_simps [simp]:
  "retry_count (s\<lparr>LastFailoverErr := e\<rparr>) a = retry_count s a"
  "retry_count (s\<lparr>StForceCacheBilling := f\<rparr>) a = retry_count s a"
  "retry_count (s\<lparr>FailedAccountIDs := ids\<rparr>) a = retry_count s a"
  "retry_count (s\<lparr>SwitchCount := n\<rparr>) a = retry_count s a"
  "retry_count (s\<lparr>SameAccountRetryCount := AList.update b m (SameAccountRetryCount s')\<rparr>) a =
     (if a = b then m else retry_count s' a)"
  by (simp_all add: retry_count_def update_conv)

text \<open>The two ways in which a handled error keeps the loop going: another try on the same account, or a
  switch to another one.\<close>

definition retried :: "int64 \<Rightarrow> FailoverState \<Rightarrow> FailoverState \<Rightarrow> bool" where
  "retried a s s' \<longleftrightarrow> SwitchCount s' = SwitchCount s \<and> FailedAccountIDs s' = FailedAccountIDs s \<and>
     (\<forall>b. retry_count s' b = (if b = a then retry_count s a + 1 else retry_count s b))"

definition switched :: "int64 \<Rightarrow> FailoverState \<Rightarrow> FailoverState \<Rightarrow> bool" where
  "switched a s s' \<longleftrightarrow> SwitchCount s < MaxSwitches s \<and> SwitchCount s' = SwitchCount s + 1 \<and>
     FailedAccountIDs s' = List.insert a (FailedAccountIDs s) \<and> (\<forall>b. retry_count s' b = retry_count s b)"

lemma HandleFailoverError_Continue:
  assumes "HandleFailoverError ctx tu a p limit e s g = (FailoverContinue, s', g')"
  shows "MaxSwitches s' = MaxSwitches s \<and> LastFailoverErr s' = e \<and> hasBoundSession s' = hasBoundSession s \<and>
    (if sameAccountRetryAllowed (ctx_now ctx) e (retry_count s a) limit then retried a s s' else switched a s s')"
  using assms
  by (auto simp: HandleFailoverError_def Let_def retried_def switched_def split: if_splits)

lemma HandleSelectionExhausted_Continue:
  assumes "HandleSelectionExhausted ctx s = (FailoverContinue, s')"
  shows "s' = s\<lparr>FailedAccountIDs := []\<rparr> \<and> (\<exists>e. LastFailoverErr s = Some e \<and> StatusCode e = 503)"
  using assms by (auto simp: HandleSelectionExhausted_def split: if_splits option.splits)

definition skipped :: "string \<Rightarrow> loop_round \<Rightarrow> bool" where
  "skipped groupPlatform r =
     (case selected r of
        SelectErr \<Rightarrow> False
      | Selected account _ _ \<Rightarrow> groupPlatform = PlatformGemini \<and> Platform account \<noteq> PlatformGemini)"

text \<open>An error whose retries on one account are counted: it names a maximum, or no deadline.\<close>

definition counted_error :: "UpstreamFailoverError \<Rightarrow> bool" where
  "counted_error e \<longleftrightarrow> IsZero (SameAccountRetryDeadline e) \<or> 0 < SameAccountRetryMax e"

lemma counted_retry_below_limit:
  "counted_error e \<Longrightarrow> sameAccountRetryAllowed now (Some e) n limit \<Longrightarrow> n < limit"
  by (auto simp: counted_error_def sameAccountRetryAllowed_def split: if_splits)

definition counted_round :: "loop_round \<Rightarrow> bool" where
  "counted_round r =
     (case selected r of Selected _ _ (ForwardFailover e _) \<Rightarrow> counted_error e | _ \<Rightarrow> True)"

definition account_in :: "int64 set \<Rightarrow> loop_round \<Rightarrow> bool" where
  "account_in A r = (case selected r of SelectErr \<Rightarrow> True | Selected account _ _ \<Rightarrow> AccountID account \<in> A)"

text \<open>A round that goes on is a selection failure that is forgiven, a skipped account, a retry or a
  switch.\<close>

lemma cc_round_Running:
  assumes "cc_round env tu gp r s g = (Running, s', g')"
  obtains (select) "selected r = SelectErr" "FailedAccountIDs s \<noteq> []" "s' = s\<lparr>FailedAccountIDs := []\<rparr>" "g' = g"
  | (skip) "skipped gp r"
  | (fail) account slot e where "selected r = Selected account slot (ForwardFailover e False)"
      "MaxSwitches s' = MaxSwitches s"
      "if sameAccountRetryAllowed (ctx_now (handler_ctx r)) (Some e) (retry_count s (AccountID account))
            (GetPoolModeRetryCount env account)
       then retried (AccountID account) s s' else switched (AccountID account) s s'"
proof (cases "selected r")
  case SelectErr
  with assms have "FailedAccountIDs s \<noteq> [] \<and> s' = s\<lparr>FailedAccountIDs := []\<rparr> \<and> g' = g"
    by (auto simp: cc_round_def dest: HandleSelectionExhausted_Continue
        split: if_splits prod.splits FailoverAction.splits)
  with SelectErr show ?thesis by (intro select) auto
next
  case (Selected account slot result)
  show ?thesis
  proof (cases "skipped gp r")
    case True
    then show ?thesis by (rule skip)
  next
    case False
    with assms Selected obtain e where e: "result = ForwardFailover e False"
        "HandleFailoverError (handler_ctx r) tu (AccountID account) (Platform account)
           (GetPoolModeRetryCount env account) (Some e) s g = (FailoverContinue, s', g')"
      by (auto simp: cc_round_def skipped_def split: if_splits forward_result.splits prod.splits FailoverAction.splits)
    show ?thesis
      using fail [of account slot e] Selected e(1) HandleFailoverError_Continue [OF e(2)] by auto
  qed
qed

section \<open>The loop is bounded\<close>

text \<open>After \<open>n\<close> rounds that were not skips: every switch has paid for itself and for one forgiven selection
  failure, every retry for itself.\<close>

definition budget_inv :: "int64 set \<Rightarrow> FailoverState \<Rightarrow> nat \<Rightarrow> bool" where
  "budget_inv A s n \<longleftrightarrow>
     0 \<le> SwitchCount s \<and> SwitchCount s \<le> MaxSwitches s \<and>
     (\<forall>a \<in> A. 0 \<le> retry_count s a \<and> retry_count s a \<le> maxPoolModeRetryCount) \<and>
     int n + (if FailedAccountIDs s = [] then 0 else 1) \<le> 2 * SwitchCount s + (\<Sum>a\<in>A. retry_count s a)"

lemma retried_sum:
  assumes "retried a s s'" "finite A" "a \<in> A"
  shows "(\<Sum>b\<in>A. retry_count s' b) = (\<Sum>b\<in>A. retry_count s b) + 1"
proof -
  have "(\<Sum>b\<in>A. retry_count s' b) = (\<Sum>b\<in>A. retry_count s b + (if b = a then 1 else 0))"
    using assms(1) by (intro sum.cong) (auto simp: retried_def)
  then show ?thesis using assms(2,3) by (simp add: sum.distrib)
qed

lemma budget_round:
  assumes inv: "budget_inv A s n" and run: "cc_round env tu gp r s g = (Running, s', g')"
    and fin: "finite A" and r: "\<not> skipped gp r" "counted_round r" "account_in A r"
  shows "budget_inv A s' (Suc n) \<and> MaxSwitches s' = MaxSwitches s"
  using run
proof (cases rule: cc_round_Running)
  case select
  with inv show ?thesis by (auto simp: budget_inv_def)
next
  case skip
  with r show ?thesis by simp
next
  case (fail account slot e)
  have a: "AccountID account \<in> A" and e: "counted_error e"
    using r(2,3) fail(1) by (simp_all add: account_in_def counted_round_def)
  show ?thesis
  proof (cases "sameAccountRetryAllowed (ctx_now (handler_ctx r)) (Some e) (retry_count s (AccountID account))
      (GetPoolModeRetryCount env account)")
    case True
    have "retry_count s (AccountID account) < maxPoolModeRetryCount"
      using counted_retry_below_limit [OF e True] pool_retry_count_bounds' [of env account] by linarith
    moreover have "retried (AccountID account) s s'" using fail(3) True by simp
    ultimately show ?thesis
      using inv fail(2) a retried_sum [OF _ fin a, of s s'] by (auto simp: budget_inv_def retried_def)
  next
    case False
    then have "switched (AccountID account) s s'" using fail(3) by simp
    then show ?thesis using inv fail(2) by (auto simp: budget_inv_def switched_def split: if_splits)
  qed
qed

lemma budget_loop:
  assumes "cc_loop env tu gp rs s g = (Running, s', g')" "budget_inv A s n" "finite A"
    and "list_all (\<lambda>r. \<not> skipped gp r \<and> counted_round r \<and> account_in A r) rs"
  shows "budget_inv A s' (n + length rs) \<and> MaxSwitches s' = MaxSwitches s"
  using assms
proof (induction rs arbitrary: s g n)
  case Nil
  then show ?case by simp
next
  case (Cons r rs)
  from Cons.prems(1) obtain t h where t: "cc_round env tu gp r s g = (Running, t, h)"
      "cc_loop env tu gp rs t h = (Running, s', g')"
    by (auto split: prod.splits loop_outcome.splits)
  have "budget_inv A t (Suc n) \<and> MaxSwitches t = MaxSwitches s"
    using Cons.prems(2-4) by (intro budget_round [OF _ t(1)]) simp_all
  with Cons.IH [OF t(2), of "Suc n"] Cons.prems(3,4) show ?case by simp
qed

text \<open>C23. The forwarding loop ends.  When the failures it sees are counted and no account is skipped for its
  platform, a loop over accounts \<open>A\<close> that is still running after some rounds has made at most twice the
  allowed switches plus ten retries per account; so it returns whatever the scheduler and the upstream
  answer, and however often.\<close>

theorem failover_loop_bounded:
  assumes "cc_loop env tu gp rs (NewFailoverState maxSwitches bound) g = (Running, s', g')"
    and "0 \<le> maxSwitches" "finite A"
    and "list_all (\<lambda>r. \<not> skipped gp r \<and> counted_round r \<and> account_in A r) rs"
  shows "int (length rs) \<le> 2 * maxSwitches + maxPoolModeRetryCount * int (card A)"
proof -
  have start: "budget_inv A (NewFailoverState maxSwitches bound) 0" "MaxSwitches (NewFailoverState maxSwitches bound) = maxSwitches"
    using assms(2) by (simp_all add: budget_inv_def NewFailoverState_def retry_count_def maxPoolModeRetryCount_def)
  have inv: "budget_inv A s' (length rs)" "MaxSwitches s' = maxSwitches"
    using budget_loop [OF assms(1) start(1) assms(3,4)] start(2) by simp_all
  have "(\<Sum>a\<in>A. retry_count s' a) \<le> (\<Sum>a\<in>A. maxPoolModeRetryCount)"
    using inv(1) by (intro sum_mono) (simp add: budget_inv_def)
  then show ?thesis using inv by (auto simp: budget_inv_def mult.commute split: if_splits)
qed

text \<open>A round in which account 7 answers 503, a round without any account, and a round in which the scheduler
  offers an account of another platform.\<close>

definition demo_ctx :: request_ctx where
  "demo_ctx = \<lparr>ctx_done = False, ctx_now = 0, wait_ok = (\<lambda>d. True)\<rparr>"

definition demo_503 :: loop_round where
  "demo_503 = \<lparr>gone_at_start = False, handler_ctx = demo_ctx,
     selected = Selected (demo_account\<lparr>Platform := PlatformGemini\<rparr>) SlotAcquired
       (ForwardFailover (demo_err\<lparr>RetryableOnSameAccount := False\<rparr>) False)\<rparr>"

definition demo_none :: loop_round where
  "demo_none = \<lparr>gone_at_start = False, handler_ctx = demo_ctx, selected = SelectErr\<rparr>"

definition demo_other :: loop_round where
  "demo_other = \<lparr>gone_at_start = False, handler_ctx = demo_ctx, selected = Selected demo_account SlotAcquired ForwardOK\<rparr>"

theorem failover_loop_bounded_witness:
  "\<exists>s' g'. cc_loop demo_go_env (\<lambda>g a e. g) PlatformGemini [demo_503, demo_none, demo_503] (NewFailoverState 2 False) (0 :: nat) =
      (Running, s', g') \<and>
    int (length [demo_503, demo_none, demo_503]) \<le> 2 * 2 + maxPoolModeRetryCount * int (card {7 :: int})"
proof -
  let ?rs = "[demo_503, demo_none, demo_503]"
  obtain o' s' g' where run: "cc_loop demo_go_env (\<lambda>g a e. g) PlatformGemini ?rs (NewFailoverState 2 False) (0 :: nat) = (o', s', g')"
    by (rule prod_cases3)
  have "fst (cc_loop demo_go_env (\<lambda>g a e. g) PlatformGemini ?rs (NewFailoverState 2 False) (0 :: nat)) = Running"
    by code_simp
  with run have run': "cc_loop demo_go_env (\<lambda>g a e. g) PlatformGemini ?rs (NewFailoverState 2 False) (0 :: nat) = (Running, s', g')"
    by simp
  have "list_all (\<lambda>r. \<not> skipped PlatformGemini r \<and> counted_round r \<and> account_in {7} r) ?rs" by code_simp
  from failover_loop_bounded [OF run' _ _ this] run' show ?thesis by auto
qed

text \<open>Skipped accounts are not bounded.  In a Gemini group, once an upstream has answered 503, a scheduler
  that goes on offering an account of another platform keeps the loop running for any number of
  rounds: each selection failure clears the list of excluded accounts, and the bound on the switches
  is never exceeded.\<close>

theorem failover_loop_skips_unbounded:
  "fst (cc_loop demo_go_env (\<lambda>g a e. g) PlatformGemini (demo_503 # concat (replicate n [demo_none, demo_other]))
      (NewFailoverState 1 False) (0 :: nat)) = Running"
proof -
  define s where "s ids = (NewFailoverState 1 False)\<lparr>SwitchCount := 1, FailedAccountIDs := ids,
     LastFailoverErr := Some (demo_err\<lparr>RetryableOnSameAccount := False\<rparr>)\<rparr>" for ids
  note defs = cc_round_def HandleFailoverError_def HandleSelectionExhausted_def demo_503_def demo_none_def demo_other_def
    demo_ctx_def demo_err_def demo_account_def NewFailoverState_def s_def Let_def sleepWithContext_def ShouldRetryNextAccount_def
    sameAccountRetryAllowed_def needForceCacheBilling_def retry_count_def account_consts
  have rounds: "cc_round demo_go_env (\<lambda>g a e. g) PlatformGemini demo_none (s [7]) (0 :: nat) = (Running, s [], 0)"
    "cc_round demo_go_env (\<lambda>g a e. g) PlatformGemini demo_other (s []) (0 :: nat) = (Running, s [7], 0)"
    "cc_round demo_go_env (\<lambda>g a e. g) PlatformGemini demo_503 (NewFailoverState 1 False) (0 :: nat) = (Running, s [7], 0)"
    by (simp_all add: defs)
  have "fst (cc_loop demo_go_env (\<lambda>g a e. g) PlatformGemini (concat (replicate n [demo_none, demo_other])) (s [7]) (0 :: nat)) = Running"
    by (induction n) (simp_all add: rounds)
  then show ?thesis by (simp add: rounds)
qed

section \<open>Suspension\<close>

text \<open>Exhausted retries suspend an account for one minute in the legacy cases only.  If
  \<open>TempUnscheduleRetryableError\<close> changes the store at all, the error was retryable, not request-scoped and a
  400 or 502, the account was read and is not in pool mode, and the change is one suspension of one
  minute.\<close>

theorem suspension_only_legacy:
  assumes "TempUnscheduleRetryableError repo now accountID e g \<noteq> g"
  shows "\<exists>r err account reason. repo = Some r \<and> e = Some err \<and> RetryableOnSameAccount err \<and> \<not> RequestScopedTransient err \<and>
    (StatusCode err = 400 \<or> StatusCode err = 502) \<and> GetByID r g accountID = Inr account \<and>
    (case account of None \<Rightarrow> True | Some a \<Rightarrow> \<not> IsPoolMode a) \<and>
    TempUnscheduleRetryableError repo now accountID e g = SetTempUnschedulable r g accountID (now + minute) reason"
  using assms
  by (auto simp: TempUnscheduleRetryableError_def tempUnscheduleGoogleConfigError_def tempUnscheduleEmptyResponse_def
      googleConfigErrorCooldown_def emptyResponseCooldown_def split: option.splits sum.splits if_splits)

definition demo_repo :: "(int64 \<times> gtime) list AccountRepository" where
  "demo_repo = \<lparr>GetByID = (\<lambda>g i. Inr (if i = 7 then Some (demo_account\<lparr>Credentials := None\<rparr>) else None)),
     SetTempUnschedulable = (\<lambda>g i t r. (i, t) # g)\<rparr>"

theorem suspension_only_legacy_witness:
  "\<exists>r err account reason. Some demo_repo = Some r \<and>
    Some (demo_err\<lparr>StatusCode := 502, RequestScopedTransient := False\<rparr>) = Some err \<and> RetryableOnSameAccount err \<and>
    \<not> RequestScopedTransient err \<and>
    (StatusCode err = 400 \<or> StatusCode err = 502) \<and> GetByID r [] 7 = Inr account \<and>
    (case account of None \<Rightarrow> True | Some a \<Rightarrow> \<not> IsPoolMode a) \<and>
    TempUnscheduleRetryableError (Some demo_repo) 0 7
      (Some (demo_err\<lparr>StatusCode := 502, RequestScopedTransient := False\<rparr>)) [] =
      SetTempUnschedulable r [] 7 (0 + minute) reason"
  by (rule suspension_only_legacy)
     (simp add: TempUnscheduleRetryableError_def demo_repo_def demo_err_def tempUnscheduleEmptyResponse_def
        IsPoolMode_def credential_flag_def entry_of_def)

end
