(* ===== verification/Model_Mapping.thy ===== *)
theory Model_Mapping
  imports Go_Prelude Go_Utf8 "HOL-Library.Char_ord" "HOL-Library.List_Lexorder" "HOL-Library.Product_Lexorder"
begin

text \<open>
  Rewriting of requested model names: the mapping tables with trailing wildcards
  (\<^verbatim>\<open>service/account.go\<close>, \<open>resolveRequestedModelInMapping\<close> and its helpers), the validated
  redirections of an API key (\<^verbatim>\<open>service/api_key_model_mapping.go\<close>) and the group prefixes of composite
  keys (\<^verbatim>\<open>service/api_key_composite.go\<close>).

  A Go map is an association list with distinct keys in the order of one iteration; Go iterates in an
  unspecified order, so what the code computes must not depend on it, and the theorems say so.
  Strings are compared byte by byte, which is the lexicographic order of the library.
\<close>

type_synonym model_map = "(string \<times> string) list"

definition HasPrefix :: "string \<Rightarrow> string \<Rightarrow> bool" where
  "HasPrefix s p = prefix p s"

definition HasSuffix :: "string \<Rightarrow> string \<Rightarrow> bool" where
  "HasSuffix s q = suffix q s"

section \<open>Wildcard resolution\<close>

definition matchAntigravityWildcard :: "string \<Rightarrow> string \<Rightarrow> bool" where
  "matchAntigravityWildcard pat str =
     (if HasSuffix pat ''*'' then HasPrefix str (take (length pat - 1) pat) else pat = str)"

definition matchWildcard :: "string \<Rightarrow> string \<Rightarrow> bool" where
  "matchWildcard pat str = matchAntigravityWildcard pat str"

text \<open>The order in which the matches are sorted: longer patterns first, then by name.\<close>

definition pattern_rank :: "string \<times> string \<Rightarrow> int \<times> string" where
  "pattern_rank m = (- int (length (fst m)), fst m)"

definition matchWildcardMappingResult :: "model_map \<Rightarrow> string \<Rightarrow> string \<times> bool" where
  "matchWildcardMappingResult mapping requestedModel =
     (let matches = filter (\<lambda>m. matchWildcard (fst m) requestedModel) mapping in
      if matches = [] then (requestedModel, False)
      else (snd (hd (sort_key pattern_rank matches)), True))"

definition resolveRequestedModelInMapping :: "model_map \<Rightarrow> string \<Rightarrow> string \<times> bool" where
  "resolveRequestedModelInMapping mapping requestedModel =
     (if requestedModel = [] then ([], False)
      else case map_of mapping requestedModel of
             Some mappedModel \<Rightarrow> (mappedModel, True)
           | None \<Rightarrow> matchWildcardMappingResult mapping requestedModel)"

definition mappingHasWildcardForModel :: "model_map \<Rightarrow> string \<Rightarrow> bool" where
  "mappingHasWildcardForModel mapping model = list_ex (\<lambda>m. matchWildcard (fst m) model) mapping"

section \<open>Redirections of an API key\<close>

definition MaxAPIKeyModelMappingRules :: nat where
  "MaxAPIKeyModelMappingRules = 100"

definition MaxAPIKeyModelNameRunes :: nat where
  "MaxAPIKeyModelNameRunes = 100"

datatype mapping_error =
  TooManyRules | SourceTargetRequired | NameTooLong | SourceWildcard | TargetWildcard | SourceEqualsTarget | DuplicateSource

definition star_count :: "string \<Rightarrow> nat" where
  "star_count s = count_list s CHR ''*''"

definition check_rule :: "string \<Rightarrow> string \<Rightarrow> mapping_error option" where
  "check_rule source target =
     (if source = [] \<or> target = [] then Some SourceTargetRequired
      else if MaxAPIKeyModelNameRunes < RuneCountInString source \<or> MaxAPIKeyModelNameRunes < RuneCountInString target
      then Some NameTooLong
      else if 1 < star_count source \<or> (Contains source ''*'' \<and> \<not> HasSuffix source ''*'') then Some SourceWildcard
      else if Contains target ''*'' then Some TargetWildcard
      else if source = target then Some SourceEqualsTarget
      else None)"

fun normalize_rules :: "model_map \<Rightarrow> model_map \<Rightarrow> mapping_error + model_map" where
  "normalize_rules [] normalized = Inr normalized"
| "normalize_rules ((rawSource, rawTarget) # rest) normalized =
     (let source = TrimSpace rawSource; target = TrimSpace rawTarget in
      case check_rule source target of
        Some e \<Rightarrow> Inl e
      | None \<Rightarrow>
          if map_of normalized source \<noteq> None then Inl DuplicateSource
          else normalize_rules rest (normalized @ [(source, target)]))"

definition NormalizeAPIKeyModelMapping :: "model_map \<Rightarrow> mapping_error + model_map" where
  "NormalizeAPIKeyModelMapping mapping =
     (if MaxAPIKeyModelMappingRules < length mapping then Inl TooManyRules else normalize_rules mapping [])"

definition ResolveModelMapping :: "model_map \<Rightarrow> string \<Rightarrow> string \<times> bool" where
  "ResolveModelMapping mapping requestedModel =
     (let requestedModel = TrimSpace requestedModel in
      if requestedModel = [] \<or> mapping = [] then (requestedModel, False)
      else resolveRequestedModelInMapping mapping requestedModel)"

definition trimmed_models :: "string list \<Rightarrow> string list" where
  "trimmed_models models = filter (\<lambda>m. m \<noteq> []) (map TrimSpace models)"

definition AvailableAPIKeyModelAliases :: "string list \<Rightarrow> model_map \<Rightarrow> string list" where
  "AvailableAPIKeyModelAliases models mapping =
     (let availableTargets = trimmed_models models in
      sort (map fst (filter (\<lambda>(source, target).
        \<not> Contains source ''*'' \<and> target \<in> set availableTargets \<and> source \<notin> set availableTargets) mapping)))"

fun first_occurrences :: "string list \<Rightarrow> string list \<Rightarrow> string list" where
  "first_occurrences [] result = result"
| "first_occurrences (model # models) result =
     (if model \<in> set result then first_occurrences models result
      else first_occurrences models (result @ [model]))"

definition AppendAPIKeyModelAliases :: "string list \<Rightarrow> model_map \<Rightarrow> string list" where
  "AppendAPIKeyModelAliases models mapping =
     first_occurrences (trimmed_models models) [] @ AvailableAPIKeyModelAliases models mapping"

section \<open>Composite keys\<close>

definition MaxCompositeAPIKeyGroups :: nat where
  "MaxCompositeAPIKeyGroups = 20"

definition MaxCompositeKeyPrefixLen :: nat where
  "MaxCompositeKeyPrefixLen = 32"

text \<open>The pattern \<^verbatim>\<open>^[A-Za-z0-9_-]+$\<close>.\<close>

definition prefix_char :: "char \<Rightarrow> bool" where
  "prefix_char c \<longleftrightarrow>
     (65 \<le> byte c \<and> byte c \<le> 90) \<or> (97 \<le> byte c \<and> byte c \<le> 122) \<or> (48 \<le> byte c \<and> byte c \<le> 57) \<or> byte c = 95 \<or> byte c = 45"

definition compositeKeyPrefixPattern :: "string \<Rightarrow> bool" where
  "compositeKeyPrefixPattern s \<longleftrightarrow> s \<noteq> [] \<and> list_all prefix_char s"

definition NormalizeCompositeKeyPrefix :: "string \<Rightarrow> (string \<times> string) option" where
  "NormalizeCompositeKeyPrefix pre =
     (let display = TrimSpace pre in
      if display = [] \<or> MaxCompositeKeyPrefixLen < length display \<or> \<not> compositeKeyPrefixPattern display then None
      else Some (display, ToLower id display))"

text \<open>\<^verbatim>\<open>strings.SplitN(s, "/", 2)\<close> with two parts: what comes before the first slash, and the rest.\<close>

definition split_slash :: "string \<Rightarrow> (string \<times> string) option" where
  "split_slash s =
     (if CHR ''/'' \<in> set s then Some (takeWhile (\<lambda>c. c \<noteq> CHR ''/'') s, tl (dropWhile (\<lambda>c. c \<noteq> CHR ''/'') s)) else None)"

definition SplitCompositeModel :: "string \<Rightarrow> (string \<times> string) option" where
  "SplitCompositeModel model =
     (case split_slash (TrimSpace model) of
        None \<Rightarrow> None
      | Some (a, b) \<Rightarrow>
          let pre = TrimSpace a; modelID = TrimSpace b in
          if pre = [] \<or> modelID = [] then None else Some (pre, modelID))"

record APIKeyCompositeGroupInput =
  InGroupID :: int64
  InPrefix :: string

record APIKeyCompositeGroup =
  GroupID :: int64
  Prefix :: string
  NormalizedPrefix :: string
  SortOrder :: nat

datatype composite_error =
    ErrCompositeKeyPrefixRequired
  | ErrCompositeKeyPrefixInvalid
  | ErrCompositeKeyPrefixNotFound
  | ErrCompositeKeyGroupsRequired
  | ErrCompositeKeyTooManyGroups
  | ErrGroupNotAllowed
  | ErrCompositeKeyGroupDuplicate
  | ErrCompositeKeyPrefixDuplicate

record APIKey =
  IsComposite :: bool
  CompositeGroups :: "APIKeyCompositeGroup list"

definition ResolveCompositeModel :: "APIKey \<Rightarrow> string \<Rightarrow> composite_error + APIKeyCompositeGroup option \<times> string" where
  "ResolveCompositeModel k model =
     (if \<not> IsComposite k then Inr (None, model)
      else case SplitCompositeModel model of
        None \<Rightarrow> Inl ErrCompositeKeyPrefixRequired
      | Some (pre, modelID) \<Rightarrow>
          (case NormalizeCompositeKeyPrefix pre of
             None \<Rightarrow> Inl ErrCompositeKeyPrefixInvalid
           | Some (_, normalized) \<Rightarrow>
               (case find (\<lambda>b. NormalizedPrefix b = normalized) (CompositeGroups k) of
                  Some b \<Rightarrow> Inr (Some b, modelID)
                | None \<Rightarrow> Inl ErrCompositeKeyPrefixNotFound)))"

fun composite_inputs :: "nat \<Rightarrow> APIKeyCompositeGroupInput list \<Rightarrow> APIKeyCompositeGroup list \<Rightarrow>
    composite_error + APIKeyCompositeGroup list" where
  "composite_inputs index [] groups = Inr groups"
| "composite_inputs index (i # inputs) groups =
     (if InGroupID i \<le> 0 then Inl ErrGroupNotAllowed
      else if InGroupID i \<in> set (map GroupID groups) then Inl ErrCompositeKeyGroupDuplicate
      else case NormalizeCompositeKeyPrefix (InPrefix i) of
             None \<Rightarrow> Inl ErrCompositeKeyPrefixInvalid
           | Some (display, normalized) \<Rightarrow>
               if normalized \<in> set (map NormalizedPrefix groups) then Inl ErrCompositeKeyPrefixDuplicate
               else composite_inputs (Suc index) inputs
                      (groups @ [\<lparr>GroupID = InGroupID i, Prefix = display, NormalizedPrefix = normalized, SortOrder = index\<rparr>]))"

definition validateCompositeGroupInputs :: "APIKeyCompositeGroupInput list \<Rightarrow> composite_error + APIKeyCompositeGroup list" where
  "validateCompositeGroupInputs inputs =
     (if inputs = [] then Inl ErrCompositeKeyGroupsRequired
      else if MaxCompositeAPIKeyGroups < length inputs then Inl ErrCompositeKeyTooManyGroups
      else composite_inputs 0 inputs [])"

section \<open>Resolution picks the longest pattern\<close>

lemma matchWildcard_self [simp]: "matchWildcard r r"
  by (auto simp: matchWildcard_def matchAntigravityWildcard_def HasPrefix_def take_is_prefix)

lemma matchWildcard_iff:
  "matchWildcard p r \<longleftrightarrow> p = r \<or> (\<exists>q. p = q @ ''*'' \<and> prefix q r)"
  by (auto simp: matchWildcard_def matchAntigravityWildcard_def HasPrefix_def HasSuffix_def suffix_def)

text \<open>Two wildcard patterns of the same length that match one name are the same pattern.\<close>

lemma same_length_pattern:
  assumes "matchWildcard p r" "matchWildcard q r" "p \<noteq> r" "q \<noteq> r" "length p = length q"
  shows "p = q"
  using assms by (auto simp: matchWildcard_iff prefix_def append_eq_append_conv)

lemma map_of_eqI_mset: "mset m = mset m' \<Longrightarrow> distinct (map fst m) \<Longrightarrow> distinct (map fst m') \<Longrightarrow> map_of m r = map_of m' r"
  by (rule option_eqI) (metis map_of_eq_Some_iff mset_eq_setD)

lemma hd_sort_key_least:
  "xs \<noteq> [] \<Longrightarrow> hd (sort_key f xs) \<in> set xs \<and> (\<forall>x \<in> set xs. f (hd (sort_key f xs)) \<le> f x)"
proof -
  assume "xs \<noteq> []"
  then obtain y ys where y: "sort_key f xs = y # ys" by (metis length_greater_0_conv length_sort list.exhaust)
  have "sorted (map f (y # ys))" "set (y # ys) = set xs" using y by (metis sorted_sort_key, metis set_sort)
  then show ?thesis by (auto simp: y)
qed

lemma wildcard_result:
  assumes "r \<notin> fst ` set m" "matchWildcardMappingResult m r = (t, True)"
  shows "\<exists>p. (p, t) \<in> set m \<and> matchWildcard p r \<and>
    (\<forall>q \<in> fst ` set m. matchWildcard q r \<longrightarrow> q \<noteq> p \<longrightarrow> length q < length p)"
proof -
  let ?ms = "filter (\<lambda>m. matchWildcard (fst m) r) m"
  have ne: "?ms \<noteq> []" and t: "t = snd (hd (sort_key pattern_rank ?ms))"
    using assms(2) by (auto simp: matchWildcardMappingResult_def Let_def split: if_splits)
  obtain p u where pu: "hd (sort_key pattern_rank ?ms) = (p, u)" by fastforce
  note least = hd_sort_key_least [OF ne, of pattern_rank]
  have p: "(p, t) \<in> set m" "matchWildcard p r" using least pu t by auto
  have "length q < length p" if q: "q \<in> fst ` set m" "matchWildcard q r" "q \<noteq> p" for q
  proof -
    obtain v where "(q, v) \<in> set ?ms" using q by auto
    then have "pattern_rank (p, u) \<le> pattern_rank (q, v)" using least pu by metis
    then have "length q \<le> length p" by (auto simp: pattern_rank_def less_eq_prod_def)
    moreover have "p \<noteq> r" "q \<noteq> r" using p(1) q(1) assms(1) by force+
    ultimately show ?thesis using same_length_pattern [OF p(2) q(2)] q(3) by (cases "length q = length p") auto
  qed
  with p show ?thesis by blast
qed



text \<open>Resolution does not depend on the iteration order of the Go map: two lists with the same entries
  resolve every name to the same target.\<close>

theorem mapping_resolution_order:
  assumes "mset m = mset m'" "distinct (map fst m)"
  shows "resolveRequestedModelInMapping m r = resolveRequestedModelInMapping m' r"
proof -
  have d': "distinct (map fst m')" using assms mset_eq_imp_distinct_iff [of "map fst m" "map fst m'"] by simp
  have look: "map_of m r = map_of m' r" using assms d' by (intro map_of_eqI_mset) auto
  let ?f = "filter (\<lambda>m. matchWildcard (fst m) r)"
  have "inj_on pattern_rank (set m)"
    using assms(2) by (auto simp: inj_on_def pattern_rank_def distinct_map)
  then have inj: "inj_on pattern_rank (set (?f m))" by (rule inj_on_subset) auto
  have ms: "mset (?f m) = mset (?f m')" using assms(1) by simp
  have "sort_key pattern_rank (?f m) = sort_key pattern_rank (?f m')"
    using ms inj by (intro sort_key_inj_key_eq) auto
  moreover have "(?f m = []) = (?f m' = [])" using ms by (metis mset_zero_iff)
  ultimately have "matchWildcardMappingResult m r = matchWildcardMappingResult m' r"
    unfolding matchWildcardMappingResult_def Let_def by metis
  with look show ?thesis unfolding resolveRequestedModelInMapping_def by (simp only:)
qed

theorem mapping_resolution_order_witness:
  "resolveRequestedModelInMapping [(''a*'', ''x''), (''ab*'', ''y'')] ''abc'' =
   resolveRequestedModelInMapping [(''ab*'', ''y''), (''a*'', ''x'')] ''abc''"
  by (rule mapping_resolution_order) (simp_all add: add_mset_commute)

section \<open>Redirections of an API key\<close>

lemma normalize_rules_app:
  assumes "list_all (\<lambda>(s, t). TrimSpace s = s \<and> TrimSpace t = t \<and> check_rule s t = None) m" "distinct (map fst (n @ m))"
  shows "normalize_rules m n = Inr (n @ m)"
  using assms
proof (induction m arbitrary: n)
  case Nil
  then show ?case by simp
next
  case (Cons x m)
  obtain s t where x: "x = (s, t)" by fastforce
  have "map_of n s = None" using Cons.prems(2) x by (simp add: map_of_eq_None_iff)
  with Cons x show ?case by simp
qed

definition valid_mapping :: "model_map \<Rightarrow> bool" where
  "valid_mapping m \<longleftrightarrow> length m \<le> MaxAPIKeyModelMappingRules \<and> distinct (map fst m) \<and>
     list_all (\<lambda>(s, t). TrimSpace s = s \<and> TrimSpace t = t \<and> check_rule s t = None) m"

lemma normalize_rules_valid:
  assumes "normalize_rules m n = Inr out" "valid_mapping n" "length n + length m \<le> MaxAPIKeyModelMappingRules"
  shows "valid_mapping out \<and> mset out = mset n + image_mset (map_prod TrimSpace TrimSpace) (mset m)"
  using assms
proof (induction m n rule: normalize_rules.induct)
  case (1 normalized)
  then show ?case by simp
next
  case (2 a b rest n)
  then have c: "check_rule (TrimSpace a) (TrimSpace b) = None" "map_of n (TrimSpace a) = None"
    "normalize_rules rest (n @ [(TrimSpace a, TrimSpace b)]) = Inr out"
    by (auto simp: Let_def split: option.splits if_splits)
  then have "valid_mapping (n @ [(TrimSpace a, TrimSpace b)])"
    using "2.prems" by (auto simp: valid_mapping_def map_of_eq_None_iff)
  with "2.IH" [OF refl refl c(1), unfolded c(2)] c "2.prems" show ?case by (auto simp: add.assoc)
qed

lemma api_key_mapping_valid: "NormalizeAPIKeyModelMapping m = Inr n \<Longrightarrow> valid_mapping n"
  using normalize_rules_valid [of m "[]" n]
  by (auto simp: NormalizeAPIKeyModelMapping_def valid_mapping_def split: if_splits)

text \<open>Validation of the redirections of an API key.  A table that is accepted comes back trimmed, with
  distinct sources, each rule well formed (names not empty and within 100 runes, at most one wildcard
  and only at the end of the source, none in the target, source and target different); accepting is
  idempotent, and the result has the trimmed rules of the input and no others.\<close>

theorem api_key_mapping_normalized:
  assumes "NormalizeAPIKeyModelMapping m = Inr n"
  shows "valid_mapping n \<and> NormalizeAPIKeyModelMapping n = Inr n \<and>
    mset n = image_mset (map_prod TrimSpace TrimSpace) (mset m)"
proof -
  have "length m \<le> MaxAPIKeyModelMappingRules" "normalize_rules m [] = Inr n"
    using assms by (auto simp: NormalizeAPIKeyModelMapping_def split: if_splits)
  then have n: "valid_mapping n" "mset n = image_mset (map_prod TrimSpace TrimSpace) (mset m)"
    using normalize_rules_valid [of m "[]" n] by (auto simp: valid_mapping_def)
  then have "NormalizeAPIKeyModelMapping n = Inr n"
    using normalize_rules_app [of n "[]"] by (simp add: NormalizeAPIKeyModelMapping_def valid_mapping_def)
  with n show ?thesis by blast
qed

lemma demo_trim: "TrimSpace ''fast'' = ''fast''" "TrimSpace ''gpt-5'' = ''gpt-5''"
  by (rule TrimSpace_printable; simp)+

lemma demo_rule: "check_rule ''fast'' ''gpt-5'' = None"
  by code_simp

lemma demo_mapping: "NormalizeAPIKeyModelMapping [(''fast'', ''gpt-5'')] = Inr [(''fast'', ''gpt-5'')]"
  by (simp add: NormalizeAPIKeyModelMapping_def MaxAPIKeyModelMappingRules_def demo_trim demo_rule)

theorem api_key_mapping_normalized_witness:
  "valid_mapping [(''fast'', ''gpt-5'')]"
  using api_key_mapping_normalized [OF demo_mapping] by simp

lemma trimmed_models_iff: "x \<in> set (trimmed_models models) \<longleftrightarrow> x \<noteq> [] \<and> x \<in> TrimSpace ` set models"
  by (auto simp: trimmed_models_def)

text \<open>Every listed alias works: with an accepted table, an alias that is added to a model list resolves
  in one step to a model of that list and was not in the list itself.\<close>

theorem api_key_alias_resolves:
  assumes "NormalizeAPIKeyModelMapping m = Inr n" "a \<in> set (AvailableAPIKeyModelAliases models n)"
  shows "\<exists>t. ResolveModelMapping n a = (t, True) \<and> t \<in> set (trimmed_models models) \<and> a \<notin> set (trimmed_models models)"
proof -
  have n: "valid_mapping n" using api_key_mapping_valid [OF assms(1)] .
  from assms(2) obtain t where t: "(a, t) \<in> set n" "t \<in> set (trimmed_models models)" "a \<notin> set (trimmed_models models)"
    by (auto simp: AvailableAPIKeyModelAliases_def Let_def)
  then have "map_of n a = Some t" "TrimSpace a = a" "a \<noteq> []" "n \<noteq> []"
    using n by (auto simp: valid_mapping_def list_all_iff check_rule_def)
  then show ?thesis using t
    by (auto simp: ResolveModelMapping_def resolveRequestedModelInMapping_def Let_def)
qed

theorem api_key_alias_resolves_witness:
  "\<exists>t. ResolveModelMapping [(''fast'', ''gpt-5'')] ''fast'' = (t, True) \<and>
    t \<in> set (trimmed_models [''gpt-5'']) \<and> ''fast'' \<notin> set (trimmed_models [''gpt-5''])"
  by (rule api_key_alias_resolves [OF demo_mapping])
     (simp add: AvailableAPIKeyModelAliases_def trimmed_models_def demo_trim Contains_singleton)

section \<open>Composite keys\<close>

lemma space_encodings_all_bytes: "e \<in> set space_encodings \<Longrightarrow> c \<in> set e \<Longrightarrow> byte c < 33 \<or> 127 < byte c"
  by (auto simp: space_encodings_def utf8_bytes_def)

lemma TrimSpace_fixD: "TrimSpace s = s \<Longrightarrow> first_prefix (map rev space_encodings) (rev s) = None"
  by (metis TrimSpace_def rev_rev_ident trim_prefixes_none)

text \<open>A trimmed text behind printable characters stays trimmed.\<close>

lemma TrimSpace_append:
  assumes a: "a \<noteq> []" "\<forall>c \<in> set a. 33 \<le> byte c \<and> byte c \<le> 127" and b: "TrimSpace b = b"
  shows "TrimSpace (a @ b) = a @ b"
proof -
  have "first_prefix space_encodings (a @ b) = None"
    unfolding first_prefix_None
  proof (intro ballI)
    fix e assume e: "e \<in> set space_encodings"
    show "e = [] \<or> \<not> prefix e (a @ b)"
    proof (rule disjI2, rule notI)
      assume "prefix e (a @ b)"
      then obtain zs where "a @ b = e @ zs" by (auto simp: prefix_def)
      moreover have "e \<noteq> []" using space_encodings_bytes [OF e] by simp
      ultimately have "hd e = hd a" "e \<noteq> []" using a(1) by (metis hd_append2, simp)
      then have "hd e \<in> set a" using a(1) by simp
      then have "33 \<le> byte (hd e) \<and> byte (hd e) \<le> 127" using a(2) by blast
      then show False using space_encodings_bytes [OF e] by linarith
    qed
  qed
  moreover have "first_prefix (map rev space_encodings) (rev (a @ b)) = None"
    unfolding first_prefix_None
  proof (intro ballI)
    fix d assume "d \<in> set (map rev space_encodings)"
    then obtain e where e: "e \<in> set space_encodings" "d = rev e" by auto
    show "d = [] \<or> \<not> prefix d (rev (a @ b))"
    proof (rule disjI2, rule notI)
      assume "prefix d (rev (a @ b))"
      then have "prefix d (rev b) \<or> (\<exists>x. d = rev b @ x \<and> prefix x (rev a))"
        by (simp add: prefix_append)
      then consider "prefix d (rev b)" | x where "d = rev b @ x" "x \<noteq> []" "prefix x (rev a)"
        by (metis append_Nil2 prefix_order.order_refl)
      then show False
      proof cases
        case 1
        then show False using TrimSpace_fixD [OF b] e space_encodings_bytes [OF e(1)]
          by (auto simp: first_prefix_None)
      next
        case 2
        then have "hd x \<in> set e" "hd x \<in> set a" using e(2) set_mono_prefix [OF 2(3)] by (metis Un_iff hd_in_set set_append set_rev, auto)
        then have "33 \<le> byte (hd x) \<and> byte (hd x) \<le> 127" using a(2) by blast
        then show False using space_encodings_all_bytes [OF e(1) \<open>hd x \<in> set e\<close>] by linarith
      qed
    qed
  qed
  ultimately show ?thesis by (simp add: TrimSpace_def trim_prefixes_fix)
qed

lemma prefix_char_printable: "prefix_char c \<Longrightarrow> 33 \<le> byte c \<and> byte c \<le> 127 \<and> c \<noteq> CHR ''/''"
  by (auto simp: prefix_char_def)

lemma prefix_char_lower: "prefix_char (ascii_lower c) = prefix_char c"
  by (auto simp: prefix_char_def ascii_lower_def)

lemma NormalizeCompositeKeyPrefix_iff:
  assumes "list_all prefix_char p" "p \<noteq> []" "length p \<le> MaxCompositeKeyPrefixLen"
  shows "NormalizeCompositeKeyPrefix p = Some (p, map ascii_lower p)"
proof -
  have "TrimSpace p = p" using assms(1) prefix_char_printable by (intro TrimSpace_printable) (auto simp: list_all_iff)
  moreover have "is_ascii p" using assms(1) by (auto simp: is_ascii_def list_all_iff prefix_char_def)
  ultimately show ?thesis using assms
    by (simp add: NormalizeCompositeKeyPrefix_def compositeKeyPrefixPattern_def ToLower_ascii)
qed

lemma NormalizeCompositeKeyPrefix_Some:
  assumes "NormalizeCompositeKeyPrefix p = Some (d, n)"
  shows "list_all prefix_char d \<and> d \<noteq> [] \<and> length d \<le> MaxCompositeKeyPrefixLen \<and> n = map ascii_lower d"
proof -
  have d: "d = TrimSpace p" "list_all prefix_char d" "d \<noteq> []" "length d \<le> MaxCompositeKeyPrefixLen" "n = ToLower id d"
    using assms by (auto simp: NormalizeCompositeKeyPrefix_def compositeKeyPrefixPattern_def Let_def split: if_splits)
  moreover have "is_ascii d" using d(2) by (auto simp: is_ascii_def list_all_iff prefix_char_def)
  ultimately show ?thesis by (simp add: ToLower_ascii)
qed

definition valid_groups :: "APIKeyCompositeGroup list \<Rightarrow> bool" where
  "valid_groups gs \<longleftrightarrow> distinct (map NormalizedPrefix gs) \<and> distinct (map GroupID gs) \<and>
     list_all (\<lambda>g. 0 < GroupID g \<and> list_all prefix_char (Prefix g) \<and> Prefix g \<noteq> [] \<and>
       length (Prefix g) \<le> MaxCompositeKeyPrefixLen \<and> NormalizedPrefix g = map ascii_lower (Prefix g)) gs"

lemma composite_inputs_valid:
  assumes "composite_inputs i ins gs = Inr out" "valid_groups gs"
  shows "valid_groups out \<and> map GroupID out = map GroupID gs @ map InGroupID ins"
  using assms
proof (induction i ins gs rule: composite_inputs.induct)
  case (1 i gs)
  then show ?case by simp
next
  case (2 i x ins gs)
  then obtain d n where c: "0 < InGroupID x" "InGroupID x \<notin> set (map GroupID gs)"
      "NormalizeCompositeKeyPrefix (InPrefix x) = Some (d, n)" "n \<notin> set (map NormalizedPrefix gs)"
      "composite_inputs (Suc i) ins (gs @ [\<lparr>GroupID = InGroupID x, Prefix = d, NormalizedPrefix = n, SortOrder = i\<rparr>]) = Inr out"
    by (auto split: option.splits if_splits)
  moreover have "valid_groups (gs @ [\<lparr>GroupID = InGroupID x, Prefix = d, NormalizedPrefix = n, SortOrder = i\<rparr>])"
    using "2.prems"(2) c NormalizeCompositeKeyPrefix_Some [OF c(3)] by (auto simp: valid_groups_def)
  ultimately show ?case using "2.IH" by (auto simp del: composite_inputs.simps)
qed

lemma validateCompositeGroupInputs_valid:
  "validateCompositeGroupInputs ins = Inr gs \<Longrightarrow> valid_groups gs \<and> map GroupID gs = map InGroupID ins"
  using composite_inputs_valid [of 0 ins "[]" gs]
  by (auto simp: validateCompositeGroupInputs_def valid_groups_def split: if_splits)

lemma find_distinct: "distinct (map f xs) \<Longrightarrow> x \<in> set xs \<Longrightarrow> find (\<lambda>y. f y = f x) xs = Some x"
  by (induction xs) auto

lemma split_slash_join: "CHR ''/'' \<notin> set p \<Longrightarrow> split_slash (p @ CHR ''/'' # m) = Some (p, m)"
  by (induction p) (auto simp: split_slash_def)

text \<open>C30. A composite key routes every prefixed model to its group.  With the groups that the validation
  accepts, in whatever case the prefix is written, \<open>prefix/model\<close> selects the one group with that
  prefix and hands the rest on as the model id, slashes in it included; and the accepted groups are
  the requested ones, in their order.\<close>

theorem composite_roundtrip:
  assumes "validateCompositeGroupInputs ins = Inr gs" "g \<in> set gs"
    and "map ascii_lower p = NormalizedPrefix g" "m \<noteq> []" "TrimSpace m = m"
  shows "ResolveCompositeModel \<lparr>IsComposite = True, CompositeGroups = gs\<rparr> (p @ ''/'' @ m) = Inr (Some g, m) \<and>
    map GroupID gs = map InGroupID ins"
proof -
  have gs: "valid_groups gs" "map GroupID gs = map InGroupID ins"
    using validateCompositeGroupInputs_valid [OF assms(1)] by auto
  then have g: "list_all prefix_char (Prefix g)" "Prefix g \<noteq> []" "length (Prefix g) \<le> MaxCompositeKeyPrefixLen"
    "NormalizedPrefix g = map ascii_lower (Prefix g)" using assms(2) by (auto simp: valid_groups_def list_all_iff)
  have "length p = length (Prefix g)" using assms(3) g(4) by (metis length_map)
  moreover have "list_all prefix_char (map ascii_lower p)" using g by (simp add: assms(3) list_all_iff prefix_char_lower)
  ultimately have p: "list_all prefix_char p" "p \<noteq> []" "length p \<le> MaxCompositeKeyPrefixLen"
    using g by (auto simp: list_all_iff prefix_char_lower)
  have noslash: "CHR ''/'' \<notin> set p" and print: "\<forall>c \<in> set p. 33 \<le> byte c \<and> byte c \<le> 127"
    using p(1) prefix_char_printable by (auto simp: list_all_iff)
  have "TrimSpace ((p @ ''/'') @ m) = (p @ ''/'') @ m"
    using print p(2) by (intro TrimSpace_append assms(5)) auto
  moreover have "TrimSpace p = p" by (rule TrimSpace_printable [OF print])
  ultimately have "SplitCompositeModel (p @ ''/'' @ m) = Some (p, m)"
    using split_slash_join [OF noslash, of m] p(2) assms(4,5) by (simp add: SplitCompositeModel_def)
  moreover have "find (\<lambda>b. NormalizedPrefix b = map ascii_lower p) gs = Some g"
    using find_distinct [of NormalizedPrefix gs g] gs(1) assms(2,3) by (simp add: valid_groups_def)
  ultimately show ?thesis
    using NormalizeCompositeKeyPrefix_iff [OF p] gs(2) by (simp add: ResolveCompositeModel_def)
qed

theorem composite_roundtrip_witness:
  "ResolveCompositeModel \<lparr>IsComposite = True, CompositeGroups =
      [\<lparr>GroupID = 3, Prefix = ''Fast'', NormalizedPrefix = ''fast'', SortOrder = 0\<rparr>]\<rparr> (''FAST'' @ ''/'' @ ''a/b'') =
     Inr (Some \<lparr>GroupID = 3, Prefix = ''Fast'', NormalizedPrefix = ''fast'', SortOrder = 0\<rparr>, ''a/b'')"
proof -
  have "NormalizeCompositeKeyPrefix ''Fast'' = Some (''Fast'', map ascii_lower ''Fast'')"
    by (rule NormalizeCompositeKeyPrefix_iff) (simp_all add: prefix_char_def MaxCompositeKeyPrefixLen_def)
  moreover have lower: "map ascii_lower ''Fast'' = ''fast''" "map ascii_lower ''FAST'' = ''fast''" by code_simp+
  ultimately have "validateCompositeGroupInputs [\<lparr>InGroupID = 3, InPrefix = ''Fast''\<rparr>] =
      Inr [\<lparr>GroupID = 3, Prefix = ''Fast'', NormalizedPrefix = ''fast'', SortOrder = 0\<rparr>]"
    by (simp add: validateCompositeGroupInputs_def MaxCompositeAPIKeyGroups_def)
  moreover have "TrimSpace ''a/b'' = ''a/b''" by (rule TrimSpace_printable) simp
  ultimately show ?thesis using composite_roundtrip [of _ _ _ "''FAST''" "''a/b''"] lower by simp
qed

end
