(* ===== verification/Suffix_Automaton.thy ===== *)
theory Suffix_Automaton
  imports Go_Prelude
begin

text \<open>
  The states of a dictionary automaton, as strings: a set of strings that is closed under prefixes,
  the longest suffix of a text in it, and how that suffix changes when a byte is appended.  Nothing
  here speaks of nodes or edges; the keyword matcher refines it.
\<close>

fun longest_suffix :: "string set \<Rightarrow> string \<Rightarrow> string" where
  "longest_suffix T [] = []"
| "longest_suffix T (c # w) = (if c # w \<in> T then c # w else longest_suffix T w)"

lemma longest_suffix_suffix: "suffix (longest_suffix T w) w"
  by (induction w) (auto simp: suffix_ConsI)

lemma longest_suffix_greatest:
  "suffix v w \<Longrightarrow> v \<in> T \<Longrightarrow> suffix v (longest_suffix T w)"
proof (induction w)
  case (Cons c w)
  then show ?case by (auto simp: suffix_Cons)
qed simp

locale prefix_closed =
  fixes T :: "string set"
  assumes empty_in: "[] \<in> T"
    and closed: "u @ [c] \<in> T \<Longrightarrow> u \<in> T"
begin

lemma longest_suffix_in: "longest_suffix T w \<in> T"
  by (induction w) (auto simp: empty_in)

lemma longest_suffix_id: "w \<in> T \<Longrightarrow> longest_suffix T w = w"
  by (cases w) auto

text \<open>The suffixes of a text that are states are the suffixes of its longest one.\<close>

lemma suffix_longest_iff: "v \<in> T \<Longrightarrow> suffix v (longest_suffix T w) \<longleftrightarrow> suffix v w"
  using longest_suffix_greatest longest_suffix_suffix suffix_order.order_trans by blast

lemma longest_suffix_eqI:
  assumes "v \<in> T" "suffix v w" "\<And>u. u \<in> T \<Longrightarrow> suffix u w \<Longrightarrow> length u \<le> length v"
  shows "longest_suffix T w = v"
proof -
  have "suffix v (longest_suffix T w)" using assms(1,2) by (simp add: suffix_longest_iff)
  moreover have "length (longest_suffix T w) \<le> length v"
    using assms(3) longest_suffix_in longest_suffix_suffix by blast
  ultimately show ?thesis by (auto simp: suffix_def)
qed

text \<open>One byte more: only the longest suffix matters.\<close>

lemma longest_suffix_snoc: "longest_suffix T (w @ [c]) = longest_suffix T (longest_suffix T w @ [c])"
proof -
  let ?l = "longest_suffix T w"
  let ?r = "longest_suffix T (?l @ [c])"
  have "suffix ?r (w @ [c])"
    using longest_suffix_suffix [of T "?l @ [c]"] longest_suffix_suffix [of T w]
    by (auto intro: suffix_order.order_trans)
  moreover have "length u \<le> length ?r" if u: "u \<in> T" "suffix u (w @ [c])" for u
  proof -
    have "suffix u (?l @ [c])"
    proof (cases u rule: rev_cases)
      case (snoc v d)
      with u have "v \<in> T" "suffix v w" "d = c" using closed by (auto simp: suffix_def)
      then show ?thesis using snoc longest_suffix_greatest by (simp add: suffix_longest_iff)
    qed simp
    then show ?thesis using u(1) suffix_longest_iff suffix_length_le by blast
  qed
  ultimately show ?thesis using longest_suffix_in by (intro longest_suffix_eqI)
qed

definition failure_of :: "string \<Rightarrow> string" where
  "failure_of v = longest_suffix T (tl v)"

lemma failure_of_shorter: "v \<noteq> [] \<Longrightarrow> length (failure_of v) < length v"
  using suffix_length_le [OF longest_suffix_suffix [of T "tl v"]] by (cases v) (auto simp: failure_of_def)

text \<open>The transition of the automaton, by the failure links.\<close>

lemma goto_step:
  assumes "v \<in> T"
  shows "longest_suffix T (v @ [c]) =
    (if v @ [c] \<in> T then v @ [c] else if v = [] then [] else longest_suffix T (failure_of v @ [c]))"
proof (cases v)
  case Nil
  then show ?thesis by simp
next
  case (Cons d u)
  then show ?thesis using longest_suffix_snoc [of u c] by (simp add: failure_of_def)
qed

lemma failure_snoc: "v \<noteq> [] \<Longrightarrow> failure_of (v @ [c]) = longest_suffix T (failure_of v @ [c])"
  using longest_suffix_snoc [of "tl v" c] by (simp add: failure_of_def)

text \<open>The suffixes of a state that are states: itself, and those of its failure state.\<close>

lemma state_suffix_iff:
  "v \<noteq> [] \<Longrightarrow> u \<in> T \<Longrightarrow> suffix u v \<longleftrightarrow> u = v \<or> suffix u (failure_of v)"
  by (cases v) (auto simp: failure_of_def suffix_longest_iff suffix_Cons)

end

end
