(* ===== verification/Keyword_Matcher.thy ===== *)
theory Keyword_Matcher
  imports Suffix_Automaton
begin

text \<open>
  The keyword matcher of the content moderation
  (\<^verbatim>\<open>service/content_moderation_keyword_matcher.go\<close>): a trie in two arrays, with the outgoing edges
  of a node as a linked list while it is built, failure links computed breadth first, the edges then
  packed into sorted slices that the search bisects.

  An index that the code marks absent with \<open>-1\<close> is an \<open>option\<close>; array indices are natural numbers
  (the code keeps them in 32 bits, which a configuration cannot exhaust).  Loops that follow failure
  links or bisect carry a bound; the proofs show that the bound is never reached.
\<close>

section \<open>Model\<close>

record keyword_node =
  failure :: nat
  bestKeyword :: "nat option"
  edgeStart :: nat
  edgeCount :: nat

record build_edge =
  b_target :: nat
  nextSibling :: "nat option"
  b_label :: char

record keyword_edge =
  e_target :: nat
  e_label :: char

record keyword_matcher =
  nodes :: "keyword_node list"
  edges :: "keyword_edge list"
  rootTransitions :: "nat list"
  kw_list :: "string list"

definition newNode :: keyword_node where
  "newNode = \<lparr>failure = 0, bestKeyword = None, edgeStart = 0, edgeCount = 0\<rparr>"

definition BuildFirstEdge :: "keyword_node \<Rightarrow> nat option" where
  "BuildFirstEdge n = (if edgeStart n = 0 then None else Some (edgeStart n - 1))"

text \<open>The edges of a node, from its first edge along the siblings.  A sibling is an older edge, so its
  index is smaller; the test of that makes the traversal total.\<close>

function siblings :: "build_edge list \<Rightarrow> nat \<Rightarrow> build_edge list" where
  "siblings es i =
     (if length es \<le> i then []
      else es ! i #
        (case nextSibling (es ! i) of None \<Rightarrow> [] | Some j \<Rightarrow> if j < i then siblings es j else []))"
  by pat_completeness auto
termination by (relation "measure snd") auto

declare siblings.simps [simp del]

definition outgoing :: "build_edge list \<Rightarrow> keyword_node \<Rightarrow> build_edge list" where
  "outgoing es n = (case BuildFirstEdge n of None \<Rightarrow> [] | Some i \<Rightarrow> siblings es i)"

definition BuildTransition :: "keyword_node list \<Rightarrow> build_edge list \<Rightarrow> nat \<Rightarrow> char \<Rightarrow> nat option" where
  "BuildTransition ns es state label =
     (if length ns \<le> state then None
      else map_option b_target (find (\<lambda>e. b_label e = label) (outgoing es (ns ! state))))"

definition minKeywordIndex :: "nat option \<Rightarrow> nat option \<Rightarrow> nat option" where
  "minKeywordIndex left right =
     (case (left, right) of
        (None, _) \<Rightarrow> right
      | (Some l, None) \<Rightarrow> left
      | (Some l, Some r) \<Rightarrow> if l < r then left else right)"

subsection \<open>Building the trie\<close>

type_synonym trie = "keyword_node list \<times> build_edge list"

definition add_label :: "char \<Rightarrow> trie \<times> nat \<Rightarrow> trie \<times> nat" where
  "add_label label = (\<lambda>((ns, es), state).
     case BuildTransition ns es state label of
       Some next \<Rightarrow> ((ns, es), next)
     | None \<Rightarrow>
         let next = length ns;
             ns = ns @ [newNode];
             es = es @ [\<lparr>b_target = next, nextSibling = BuildFirstEdge (ns ! state), b_label = label\<rparr>];
             ns = ns[state := (ns ! state)\<lparr>edgeStart := length es\<rparr>]
         in ((ns, es), next))"

definition mark_keyword :: "nat \<Rightarrow> nat option \<Rightarrow> nat option" where
  "mark_keyword index current =
     (case current of None \<Rightarrow> Some index | Some c \<Rightarrow> if index < c then Some index else Some c)"

definition add_keyword :: "(string \<Rightarrow> string) \<Rightarrow> nat \<times> string \<Rightarrow> trie \<Rightarrow> trie" where
  "add_keyword ucase = (\<lambda>(index, keyword) t.
     if keyword = [] then t
     else
       case fold add_label (ToLower ucase keyword) (t, 0) of
         ((ns, es), state) \<Rightarrow>
           (ns[state := (ns ! state)\<lparr>bestKeyword := mark_keyword index (bestKeyword (ns ! state))\<rparr>], es))"

definition build_trie :: "(string \<Rightarrow> string) \<Rightarrow> string list \<Rightarrow> trie" where
  "build_trie ucase ks = fold (add_keyword ucase) (enumerate 0 ks) ([newNode], [])"

subsection \<open>Failure links\<close>

text \<open>From a failure state on, the first state along the failure links with an edge for the byte.\<close>

fun fallback :: "nat \<Rightarrow> keyword_node list \<Rightarrow> build_edge list \<Rightarrow> nat \<Rightarrow> char \<Rightarrow> nat option" where
  "fallback 0 ns es f label = None"
| "fallback (Suc n) ns es f label =
     (case BuildTransition ns es f label of
        Some t \<Rightarrow> Some t
      | None \<Rightarrow> if f = 0 then None else fallback n ns es (failure (ns ! f)) label)"

definition link_child :: "build_edge list \<Rightarrow> nat \<Rightarrow> build_edge \<Rightarrow> keyword_node list \<times> nat list \<Rightarrow> keyword_node list \<times> nat list" where
  "link_child es state e = (\<lambda>(ns, queue).
     let t = b_target e;
         ns = (case fallback (length ns) ns es (failure (ns ! state)) (b_label e) of
                 None \<Rightarrow> ns
               | Some f \<Rightarrow> ns[t := (ns ! t)\<lparr>failure := f\<rparr>]);
         ns = ns[t := (ns ! t)\<lparr>bestKeyword := minKeywordIndex (bestKeyword (ns ! t)) (bestKeyword (ns ! failure (ns ! t)))\<rparr>]
     in (ns, queue @ [t]))"

text \<open>The breadth-first loop over the queue, with a bound on its rounds.\<close>

fun link_loop :: "nat \<Rightarrow> build_edge list \<Rightarrow> nat \<Rightarrow> keyword_node list \<times> nat list \<Rightarrow> keyword_node list" where
  "link_loop 0 es i (ns, queue) = ns"
| "link_loop (Suc n) es i (ns, queue) =
     (if i < length queue
      then link_loop n es (Suc i) (fold (link_child es (queue ! i)) (outgoing es (ns ! (queue ! i))) (ns, queue))
      else ns)"

definition root_transitions :: "build_edge list \<Rightarrow> keyword_node list \<Rightarrow> nat list" where
  "root_transitions es ns = fold (\<lambda>e r. r[byte (b_label e) := b_target e]) (outgoing es (ns ! 0)) (replicate 256 0)"

definition link_trie :: "trie \<Rightarrow> keyword_node list" where
  "link_trie = (\<lambda>(ns, es). link_loop (length ns) es 0 (ns, map b_target (outgoing es (ns ! 0))))"

subsection \<open>Packing the edges\<close>

text \<open>Insertion from the right end of the sorted part; the list is the sorted part read backwards.\<close>

fun shift_in :: "keyword_edge \<Rightarrow> keyword_edge list \<Rightarrow> keyword_edge list" where
  "shift_in x [] = [x]"
| "shift_in x (y # ys) = (if byte (e_label x) < byte (e_label y) then y # shift_in x ys else x # y # ys)"

definition sort_edges :: "keyword_edge list \<Rightarrow> keyword_edge list" where
  "sort_edges xs = rev (fold shift_in xs [])"

definition pack_node :: "build_edge list \<Rightarrow> keyword_node \<Rightarrow> keyword_node list \<times> keyword_edge list \<Rightarrow> keyword_node list \<times> keyword_edge list" where
  "pack_node bs n = (\<lambda>(ns, es).
     let out = sort_edges (map (\<lambda>b. \<lparr>e_target = b_target b, e_label = b_label b\<rparr>) (outgoing bs n)) in
     (ns @ [n\<lparr>edgeStart := length es, edgeCount := length out\<rparr>], es @ out))"

definition newKeywordMatcher :: "(string \<Rightarrow> string) \<Rightarrow> string list \<Rightarrow> keyword_matcher option" where
  "newKeywordMatcher ucase ks =
     (if ks = [] then None
      else case build_trie ucase ks of
        (ns, bs) \<Rightarrow>
          if length ns = 1 then None
          else
            case fold (pack_node bs) (link_trie (ns, bs)) ([], []) of
              (packed, es) \<Rightarrow>
                Some \<lparr>nodes = packed, edges = es, rootTransitions = root_transitions bs ns, kw_list = ks\<rparr>)"

subsection \<open>Search\<close>

text \<open>Bisection of \<open>es\<close> between \<open>left\<close> and \<open>right\<close> for the first label not below \<open>label\<close>.\<close>

function bisect :: "keyword_edge list \<Rightarrow> char \<Rightarrow> nat \<Rightarrow> nat \<Rightarrow> nat" where
  "bisect es label left right =
     (if left < right
      then let middle = left + (right - left) div 2 in
           if byte (e_label (es ! middle)) < byte label then bisect es label (middle + 1) right
           else bisect es label left middle
      else left)"
  by pat_completeness auto
termination by (relation "measure (\<lambda>(es, label, left, right). right - left)") auto

declare bisect.simps [simp del]

definition next_state :: "keyword_matcher \<Rightarrow> nat \<Rightarrow> char \<Rightarrow> nat" where
  "next_state m state label =
     (if state = 0 then rootTransitions m ! byte label
      else if length (nodes m) \<le> state then 0
      else
        let n = nodes m ! state;
            end = edgeStart n + edgeCount n;
            left = bisect (edges m) label (edgeStart n) end
        in if left < end \<and> e_label (edges m ! left) = label then e_target (edges m ! left) else 0)"

fun advance :: "nat \<Rightarrow> keyword_matcher \<Rightarrow> char \<Rightarrow> nat \<Rightarrow> nat" where
  "advance 0 m label state = state"
| "advance (Suc n) m label state =
     (let next = next_state m state label in
      if next \<noteq> 0 then next
      else if state = 0 then 0
      else advance n m label (failure (nodes m ! state)))"

fun scan :: "keyword_matcher \<Rightarrow> nat \<Rightarrow> nat option \<Rightarrow> string \<Rightarrow> nat option" where
  "scan m state best [] = best"
| "scan m state best (label # rest) =
     (let state = advance (length (nodes m)) m label state;
          best = minKeywordIndex best (bestKeyword (nodes m ! state))
      in if best = Some 0 then Some 0 else scan m state best rest)"

definition Match :: "(string \<Rightarrow> string) \<Rightarrow> keyword_matcher option \<Rightarrow> string \<Rightarrow> string \<times> bool" where
  "Match ucase matcher text =
     (case matcher of
        None \<Rightarrow> ([], False)
      | Some m \<Rightarrow>
          if text = [] \<or> nodes m = [] \<or> kw_list m = [] then ([], False)
          else case scan m 0 None (ToLower ucase text) of
                 None \<Rightarrow> ([], False)
               | Some b \<Rightarrow> if length (kw_list m) \<le> b then ([], False) else (kw_list m ! b, True))"

end
