(* ===== verification/Keyword_Trie.thy ===== *)
theory Keyword_Trie
  imports Keyword_Matcher
begin

text \<open>
  The trie that the keyword matcher builds, read as a set of strings.  A list \<open>ps\<close> gives the string of
  each node; the invariant says that the edge lists describe exactly the one-byte extensions among
  these strings.  The keywords are numbered; \<open>first_index\<close> is the number of the first one with a
  property.
\<close>

section \<open>Numbered keywords\<close>

definition patterns :: "(string \<Rightarrow> string) \<Rightarrow> string list \<Rightarrow> (nat \<times> string) list" where
  "patterns ucase ks = map (\<lambda>(i, k). (i, ToLower ucase k)) (filter (\<lambda>(i, k). k \<noteq> []) (enumerate 0 ks))"

definition first_index :: "(string \<Rightarrow> bool) \<Rightarrow> (nat \<times> string) list \<Rightarrow> nat option" where
  "first_index P ps = map_option fst (find (\<lambda>(i, k). P k) ps)"

lemma first_index_simps [simp]:
  "first_index P [] = None"
  "first_index P ((i, k) # ps) = (if P k then Some i else first_index P ps)"
  by (simp_all add: first_index_def)

lemma first_index_cong: "(\<And>i k. (i, k) \<in> set ps \<Longrightarrow> P k = Q k) \<Longrightarrow> first_index P ps = first_index Q ps"
proof (induction ps)
  case (Cons x ps)
  have "first_index P ps = first_index Q ps"
    by (rule Cons.IH) (meson Cons.prems list.set_intros(2))
  then show ?case using Cons.prems [of "fst x" "snd x"] by (cases x) simp
qed simp

lemma first_index_None: "first_index P ps = None \<longleftrightarrow> (\<forall>(i, k) \<in> set ps. \<not> P k)"
  by (auto simp: first_index_def find_None_iff)

lemma first_index_in: "first_index P ps = Some i \<Longrightarrow> i \<in> fst ` set ps"
  by (induction ps) (auto split: if_splits)

text \<open>The first keyword with one of two properties is the smaller of the first ones with each.\<close>

lemma first_index_or:
  assumes "sorted_wrt (<) (map fst ps)"
  shows "first_index (\<lambda>k. P k \<or> Q k) ps = minKeywordIndex (first_index P ps) (first_index Q ps)"
  using assms
proof (induction ps)
  case Nil
  then show ?case by (simp add: minKeywordIndex_def)
next
  case (Cons x ps)
  obtain i k where x: "x = (i, k)" by fastforce
  have later: "\<not> j < i" "i < j" if "first_index R ps = Some j" for R j
    using first_index_in [OF that] Cons.prems x by auto
  have IH: "first_index (\<lambda>k. P k \<or> Q k) ps = minKeywordIndex (first_index P ps) (first_index Q ps)"
    using Cons by simp
  show ?case unfolding x first_index_simps IH
    by (cases "first_index P ps"; cases "first_index Q ps") (auto simp: minKeywordIndex_def dest: later)
qed

lemma first_index_append: "first_index P (ps @ qs) = (case first_index P ps of None \<Rightarrow> first_index P qs | Some i \<Rightarrow> Some i)"
  by (induction ps) auto

lemma first_index_zero_mono:
  assumes "first_index P ps = Some 0" "sorted_wrt (<) (map fst ps)" "\<And>k. P k \<Longrightarrow> Q k"
  shows "first_index Q ps = Some 0"
proof (cases ps)
  case (Cons x qs)
  obtain i k where x: "x = (i, k)" by fastforce
  show ?thesis
  proof (cases "P k")
    case False
    then have "0 \<in> fst ` set qs" using assms(1) Cons x by (auto dest: first_index_in)
    then show ?thesis using assms(2) Cons x by fastforce
  qed (use assms Cons x in auto)
qed (use assms in auto)

lemma patterns_sorted: "sorted_wrt (<) (map fst (patterns ucase ks))"
proof -
  have "sorted_wrt (\<lambda>x y. fst x < fst y) (enumerate n ks)" for n
    by (induction ks arbitrary: n) (auto simp: in_set_enumerate_eq)
  then have "sorted_wrt (\<lambda>x y. fst x < fst y) (filter (\<lambda>(i, k). k \<noteq> []) (enumerate 0 ks))"
    by (rule sorted_wrt_filter)
  then show ?thesis by (simp add: patterns_def sorted_wrt_map case_prod_beta)
qed

section \<open>Edges\<close>

lemma siblings_append: "i < length es \<Longrightarrow> siblings (es @ xs) i = siblings es i"
  by (induction es i rule: siblings.induct)
     (subst (1 2) siblings.simps, auto simp: nth_append split: option.splits)

lemma siblings_last:
  "siblings (es @ [x]) (length es) =
     x # (case nextSibling x of None \<Rightarrow> [] | Some j \<Rightarrow> if j < length es then siblings es j else [])"
  by (subst siblings.simps) (auto simp: siblings_append split: option.splits)

lemma outgoing_cong: "edgeStart n = edgeStart n' \<Longrightarrow> outgoing es n = outgoing es n'"
  by (simp add: outgoing_def BuildFirstEdge_def)

lemma outgoing_append: "edgeStart n \<le> length es \<Longrightarrow> outgoing (es @ xs) n = outgoing es n"
  by (auto simp: outgoing_def BuildFirstEdge_def siblings_append)

lemma outgoing_new [simp]: "outgoing es newNode = []"
  by (simp add: outgoing_def BuildFirstEdge_def newNode_def)

lemma outgoing_extended:
  "edgeStart n \<le> length es \<Longrightarrow> nextSibling x = BuildFirstEdge n \<Longrightarrow>
    outgoing (es @ [x]) (n\<lparr>edgeStart := Suc (length es)\<rparr>) = x # outgoing es n"
  by (auto simp: outgoing_def BuildFirstEdge_def siblings_last)

section \<open>The invariant\<close>

definition trie_inv :: "string list \<Rightarrow> keyword_node list \<Rightarrow> build_edge list \<Rightarrow> bool" where
  "trie_inv ps ns es \<longleftrightarrow>
     length ps = length ns \<and> ns \<noteq> [] \<and> ps ! 0 = [] \<and> distinct ps \<and> (\<forall>u c. u @ [c] \<in> set ps \<longrightarrow> u \<in> set ps) \<and>
     (\<forall>n \<in> set ns. edgeStart n \<le> length es) \<and>
     (\<forall>i < length ns. distinct (map b_target (outgoing es (ns ! i))) \<and>
        (\<forall>c t. (\<exists>e \<in> set (outgoing es (ns ! i)). b_label e = c \<and> b_target e = t) \<longleftrightarrow> t < length ns \<and> ps ! t = ps ! i @ [c]))"

lemma trie_inv_edge:
  "trie_inv ps ns es \<Longrightarrow> i < length ns \<Longrightarrow>
    (\<exists>e \<in> set (outgoing es (ns ! i)). b_label e = c \<and> b_target e = t) \<longleftrightarrow> t < length ns \<and> ps ! t = ps ! i @ [c]"
  by (simp add: trie_inv_def)

lemma trie_inv_unique: "trie_inv ps ns es \<Longrightarrow> i < length ns \<Longrightarrow> j < length ns \<Longrightarrow> ps ! i = ps ! j \<Longrightarrow> i = j"
  by (simp add: trie_inv_def nth_eq_iff_index_eq)

lemma trie_inv_cong:
  assumes "trie_inv ps ns es" "map edgeStart ns = map edgeStart ns'"
  shows "trie_inv ps ns' es"
proof -
  have len: "length ns' = length ns" using assms(2) by (metis length_map)
  then have "outgoing es (ns' ! i) = outgoing es (ns ! i)" if "i < length ns" for i
    using that assms(2) by (intro outgoing_cong) (metis nth_map)
  moreover have "edgeStart n' \<le> length es" if n': "n' \<in> set ns'" for n'
  proof -
    have "edgeStart n' \<in> edgeStart ` set ns" using n' assms(2) by (metis image_eqI list.set_map)
    then show ?thesis using assms(1) by (auto simp: trie_inv_def)
  qed
  moreover have "ns' \<noteq> []" using len assms(1) by (auto simp: trie_inv_def)
  ultimately show ?thesis using assms(1) len unfolding trie_inv_def by simp
qed

lemma BuildTransition_Some:
  assumes "trie_inv ps ns es" "i < length ns"
  shows "BuildTransition ns es i c = Some t \<longleftrightarrow> t < length ns \<and> ps ! t = ps ! i @ [c]"
proof -
  have out: "b_target e < length ns \<and> ps ! b_target e = ps ! i @ [c]"
    if "e \<in> set (outgoing es (ns ! i))" "b_label e = c" for e
    using that trie_inv_edge [OF assms, of c "b_target e"] by blast
  show ?thesis
  proof
    assume "BuildTransition ns es i c = Some t"
    then obtain e where "find (\<lambda>e. b_label e = c) (outgoing es (ns ! i)) = Some e" "t = b_target e"
      using assms(2) by (auto simp: BuildTransition_def)
    then have "e \<in> set (outgoing es (ns ! i))" "b_label e = c" "t = b_target e"
      by (auto simp: find_Some_iff)
    then show "t < length ns \<and> ps ! t = ps ! i @ [c]" using out by simp
  next
    assume t: "t < length ns \<and> ps ! t = ps ! i @ [c]"
    then obtain e where "e \<in> set (outgoing es (ns ! i))" "b_label e = c"
      using trie_inv_edge [OF assms, of c t] by blast
    then obtain d where d: "find (\<lambda>e. b_label e = c) (outgoing es (ns ! i)) = Some d"
      by (metis (mono_tags, lifting) find_None_iff not_None_eq)
    then have "d \<in> set (outgoing es (ns ! i))" "b_label d = c" by (auto simp: find_Some_iff)
    then have "b_target d = t" using out t trie_inv_unique [OF assms(1)] by metis
    then show "BuildTransition ns es i c = Some t" using d assms(2) by (simp add: BuildTransition_def)
  qed
qed

lemma BuildTransition_None:
  assumes "trie_inv ps ns es" "i < length ns"
  shows "BuildTransition ns es i c = None \<longleftrightarrow> ps ! i @ [c] \<notin> set ps"
  using BuildTransition_Some [OF assms, of c] assms(1)
  by (auto simp: trie_inv_def in_set_conv_nth dest: sym) (metis option.exhaust)

section \<open>Building\<close>

lemma closed_trie: "trie_inv ps ns es \<Longrightarrow> u @ [c] \<in> set ps \<Longrightarrow> u \<in> set ps"
  by (auto simp: trie_inv_def)

lemma add_label_new:
  assumes "trie_inv ps ns es" "s < length ns" "ps ! s @ [c] \<notin> set ps"
  shows "trie_inv (ps @ [ps ! s @ [c]]) ((ns @ [newNode])[s := (ns ! s)\<lparr>edgeStart := Suc (length es)\<rparr>])
     (es @ [\<lparr>b_target = length ns, nextSibling = BuildFirstEdge (ns ! s), b_label = c\<rparr>])"
    (is "trie_inv ?ps ?ns (es @ [?x])")
proof -
  have old: "length ps = length ns" "ns \<noteq> []" "ps ! 0 = []" "distinct ps" and le: "\<And>n. n \<in> set ns \<Longrightarrow> edgeStart n \<le> length es"
    and cl: "\<And>u c. u @ [c] \<in> set ps \<Longrightarrow> u \<in> set ps"
    using assms(1) by (auto simp: trie_inv_def)
  have lens: "length ?ps = length ?ns" "length ?ns = Suc (length ns)" using old(1) by simp_all
  have out: "outgoing (es @ [?x]) (?ns ! i) =
      (if i = s then ?x # outgoing es (ns ! s) else if i = length ns then [] else outgoing es (ns ! i))" if "i \<le> length ns" for i
    using that assms(2) le by (auto simp: nth_append nth_list_update outgoing_append outgoing_extended newNode_def [symmetric])
  have tgt: "b_target e < length ns" if "e \<in> set (outgoing es (ns ! i))" "i < length ns" for e i
    using that trie_inv_edge [OF assms(1) that(2), of "b_label e" "b_target e"] by blast
  have psn: "?ps ! i = (if i = length ns then ps ! s @ [c] else ps ! i)" if "i \<le> length ns" for i
    using that old(1) by (auto simp: nth_append)
  have child: "ps ! i @ [d] = ps ! s @ [c] \<longleftrightarrow> i = s \<and> d = c" if "i < length ns" for i d
    using that assms(2) trie_inv_unique [OF assms(1)] by auto
  have nochild: "(ps ! s @ [c]) @ [d] \<notin> set ps" for d using cl assms(3) by blast
  have new: "ps ! t \<noteq> (ps ! s @ [c]) @ [d]" if "t < length ns" for t d
    using nochild that old(1) nth_mem by metis
  show ?thesis unfolding trie_inv_def
  proof (intro conjI allI ballI impI)
    show "length ?ps = length ?ns" "?ns \<noteq> []" "?ps ! 0 = []"
      using old by (auto simp: nth_append)
    show "distinct ?ps" using old(4) assms(3) by simp
    show "u \<in> set ?ps" if "u @ [d] \<in> set ?ps" for u d
      using that cl assms(2) old(1) by (auto simp: nth_mem)
    show "edgeStart n \<le> length (es @ [?x])" if "n \<in> set ?ns" for n
      using that le by (fastforce simp: newNode_def dest: set_update_subset_insert [THEN subsetD])
  next
    fix i assume "i < length ?ns"
    then have i: "i \<le> length ns" by simp
    show "distinct (map b_target (outgoing (es @ [?x]) (?ns ! i)))"
      using assms(1) i tgt assms(2) by (fastforce simp: out trie_inv_def)
    show "(\<exists>e \<in> set (outgoing (es @ [?x]) (?ns ! i)). b_label e = d \<and> b_target e = t) \<longleftrightarrow>
        t < length ?ns \<and> ?ps ! t = ?ps ! i @ [d]" for d t
    proof (cases "i = length ns")
      case True
      then show ?thesis using assms(2) new i by (auto simp: out psn less_Suc_eq)
    next
      case False
      then have il: "i < length ns" using i by simp
      have e: "(\<exists>e \<in> set (outgoing (es @ [?x]) (?ns ! i)). b_label e = d \<and> b_target e = t) \<longleftrightarrow>
          (i = s \<and> d = c \<and> t = length ns) \<or> (\<exists>e \<in> set (outgoing es (ns ! i)). b_label e = d \<and> b_target e = t)"
        using il by (auto simp: out)
      show ?thesis unfolding e trie_inv_edge [OF assms(1) il]
        using il child [OF il, of d] by (auto simp: psn less_Suc_eq)
    qed
  qed
qed

text \<open>One byte of a keyword: the state moves to the node of the extended string, and the nodes' strings
  grow by that string.\<close>

definition fresh_marks :: "(nat \<times> string) list \<Rightarrow> string list \<Rightarrow> keyword_node list \<Rightarrow> bool" where
  "fresh_marks seen ps ns \<longleftrightarrow>
     (\<forall>i < length ps. failure (ns ! i) = 0 \<and> bestKeyword (ns ! i) = first_index (\<lambda>k. k = ps ! i) seen)"

lemma add_label_step:
  assumes "trie_inv ps ns es" "fresh_marks seen ps ns" "snd ` set seen \<subseteq> set ps" "s < length ns"
  shows "\<exists>ps' ns' es' s'. add_label c ((ns, es), s) = ((ns', es'), s') \<and> trie_inv ps' ns' es' \<and>
    fresh_marks seen ps' ns' \<and> s' < length ns' \<and> ps' ! s' = ps ! s @ [c] \<and> set ps' = insert (ps ! s @ [c]) (set ps)"
proof (cases "BuildTransition ns es s c")
  case (Some t)
  then have "t < length ns" "ps ! t = ps ! s @ [c]" using BuildTransition_Some [OF assms(1,4)] by auto
  moreover from this have "ps ! s @ [c] \<in> set ps" using assms(1) by (metis nth_mem trie_inv_def)
  ultimately show ?thesis using Some assms(1,2)
    by (intro exI [of _ ps] exI [of _ ns] exI [of _ es] exI [of _ t]) (auto simp: add_label_def)
next
  case None
  then have new: "ps ! s @ [c] \<notin> set ps" using BuildTransition_None [OF assms(1,4)] by simp
  have len: "length ps = length ns" using assms(1) by (simp add: trie_inv_def)
  let ?ps = "ps @ [ps ! s @ [c]]"
  let ?ns = "(ns @ [newNode])[s := (ns ! s)\<lparr>edgeStart := Suc (length es)\<rparr>]"
  let ?x = "\<lparr>b_target = length ns, nextSibling = BuildFirstEdge (ns ! s), b_label = c\<rparr>"
  have "first_index (\<lambda>k. k = ps ! s @ [c]) seen = None"
    using new assms(3) by (auto simp: first_index_None)
  then have "fresh_marks seen ?ps ?ns"
    using assms(2,4) len by (auto simp: fresh_marks_def nth_append nth_list_update newNode_def)
  moreover have "add_label c ((ns, es), s) = ((?ns, es @ [?x]), length ns)"
    using None assms(4) by (simp add: add_label_def nth_append Let_def)
  ultimately show ?thesis
    using add_label_new [OF assms(1,4) new] len
    by (intro exI [of _ ?ps] exI [of _ ?ns] exI [of _ "es @ [?x]"] exI [of _ "length ns"])
       (auto simp: nth_append)
qed

lemma add_labels:
  assumes "trie_inv ps ns es" "fresh_marks seen ps ns" "snd ` set seen \<subseteq> set ps" "s < length ns"
  shows "\<exists>ps' ns' es' s'. fold add_label w ((ns, es), s) = ((ns', es'), s') \<and> trie_inv ps' ns' es' \<and>
    fresh_marks seen ps' ns' \<and> s' < length ns' \<and> ps' ! s' = ps ! s @ w \<and>
    set ps' = set ps \<union> {ps ! s @ v | v. v \<noteq> [] \<and> prefix v w}"
  using assms
proof (induction w arbitrary: ps ns es s)
  case Nil
  then show ?case by auto
next
  case (Cons c w)
  from add_label_step [OF Cons.prems, of c] obtain ps1 ns1 es1 s1 where
    1: "add_label c ((ns, es), s) = ((ns1, es1), s1)" "trie_inv ps1 ns1 es1" "fresh_marks seen ps1 ns1" "s1 < length ns1"
      "ps1 ! s1 = ps ! s @ [c]" "set ps1 = insert (ps ! s @ [c]) (set ps)" by blast
  have "snd ` set seen \<subseteq> set ps1" using Cons.prems(3) 1(6) by auto
  from Cons.IH [OF 1(2,3) this 1(4)] obtain ps' ns' es' s' where
    2: "fold add_label w ((ns1, es1), s1) = ((ns', es'), s')" "trie_inv ps' ns' es'" "fresh_marks seen ps' ns'"
      "s' < length ns'" "ps' ! s' = ps1 ! s1 @ w" "set ps' = set ps1 \<union> {ps1 ! s1 @ v | v. v \<noteq> [] \<and> prefix v w}" by blast
  have "set ps' = set ps \<union> {ps ! s @ v | v. v \<noteq> [] \<and> prefix v (c # w)}"
    unfolding 2(6) 1(5,6) by (auto simp: prefix_Cons)
  then show ?case using 1(1,5) 2(1-5)
    by (intro exI [of _ ps'] exI [of _ ns'] exI [of _ es'] exI [of _ s']) simp
qed

text \<open>The strings of the nodes: the prefixes of the keywords.\<close>

definition pattern_prefixes :: "(nat \<times> string) list \<Rightarrow> string set" where
  "pattern_prefixes pats = insert [] {p. \<exists>(i, k) \<in> set pats. prefix p k}"

lemma pattern_prefixes_closed: "prefix_closed (pattern_prefixes pats)"
  by unfold_locales (auto simp: pattern_prefixes_def dest: append_prefixD)

interpretation dictionary: prefix_closed "pattern_prefixes pats" for pats
  by (rule pattern_prefixes_closed)

lemma pattern_in: "(i, k) \<in> set pats \<Longrightarrow> k \<in> pattern_prefixes pats"
  by (auto simp: pattern_prefixes_def)

text \<open>What the loop over the keywords keeps: the strings of the nodes, and for each node the first
  keyword seen so far that is its string; no failure link is set yet.\<close>

definition build_inv :: "(nat \<times> string) list \<Rightarrow> string list \<Rightarrow> trie \<Rightarrow> bool" where
  "build_inv seen ps t \<longleftrightarrow>
     trie_inv ps (fst t) (snd t) \<and> fresh_marks seen ps (fst t) \<and> set ps = pattern_prefixes seen"

lemma build_inv_init: "build_inv [] [[]] ([newNode], [])"
  by (auto simp: build_inv_def trie_inv_def fresh_marks_def pattern_prefixes_def newNode_def outgoing_def BuildFirstEdge_def)

lemma mark_keyword_seen:
  assumes "\<forall>i \<in> fst ` set seen. i < n"
  shows "mark_keyword n (first_index P seen) = first_index P (seen @ [(n, k)]) \<or> \<not> P k"
  using assms by (auto simp: mark_keyword_def first_index_append split: option.splits dest!: first_index_in)

lemma add_keyword_step:
  assumes "build_inv seen ps t" "keyword \<noteq> []" "\<forall>i \<in> fst ` set seen. i < n"
  shows "\<exists>ps'. build_inv (seen @ [(n, ToLower ucase keyword)]) ps' (add_keyword ucase (n, keyword) t)"
proof -
  obtain ns es where t: "t = (ns, es)" by fastforce
  let ?w = "ToLower ucase keyword"
  have inv: "trie_inv ps ns es" "fresh_marks seen ps ns" "set ps = pattern_prefixes seen"
    using assms(1) by (simp_all add: build_inv_def t)
  have root: "ps ! 0 = []" "0 < length ns" using inv(1) by (simp_all add: trie_inv_def)
  have sub: "snd ` set seen \<subseteq> set ps" using inv(3) pattern_in by force
  from add_labels [OF inv(1,2) sub root(2), of ?w] root obtain ps' ns' es' s where
    f: "fold add_label ?w ((ns, es), 0) = ((ns', es'), s)" "trie_inv ps' ns' es'" "fresh_marks seen ps' ns'" "s < length ns'"
      "ps' ! s = ?w" "set ps' = set ps \<union> {v. v \<noteq> [] \<and> prefix v ?w}" by auto
  let ?n = "(ns' ! s)\<lparr>bestKeyword := mark_keyword n (bestKeyword (ns' ! s))\<rparr>"
  have len: "length ps' = length ns'" using f(2) by (simp add: trie_inv_def)
  have res: "add_keyword ucase (n, keyword) t = (ns'[s := ?n], es')"
    using assms(2) f(1) by (simp add: add_keyword_def t)
  have "map edgeStart (ns'[s := ?n]) = map edgeStart ns'"
    by (simp add: map_update list_update_same_conv f(4))
  then have "trie_inv ps' (ns'[s := ?n]) es'" using trie_inv_cong [OF f(2)] by simp
  moreover have "fresh_marks (seen @ [(n, ?w)]) ps' (ns'[s := ?n])"
    unfolding fresh_marks_def
  proof (intro allI impI)
    fix i assume i: "i < length ps'"
    show "failure (ns'[s := ?n] ! i) = 0 \<and> bestKeyword (ns'[s := ?n] ! i) = first_index (\<lambda>k. k = ps' ! i) (seen @ [(n, ?w)])"
    proof (cases "i = s")
      case True
      then show ?thesis
        using f(3,4,5) i mark_keyword_seen [OF assms(3), of "\<lambda>k. k = ?w" ?w] by (simp add: fresh_marks_def)
    next
      case False
      then have "ps' ! i \<noteq> ?w" using trie_inv_unique [OF f(2), of i s] f(4,5) i len by auto
      then show ?thesis
        using False f(3) i by (simp add: fresh_marks_def first_index_append split: option.split)
    qed
  qed
  moreover have "set ps' = pattern_prefixes (seen @ [(n, ?w)])"
    unfolding f(6) inv(3) by (auto simp: pattern_prefixes_def)
  ultimately show ?thesis unfolding res build_inv_def by auto
qed

lemma build_trie_inv: "\<exists>ps. build_inv (patterns ucase ks) ps (build_trie ucase ks)"
proof -
  let ?p = "\<lambda>n ks. map (\<lambda>(i, k). (i, ToLower ucase k)) (filter (\<lambda>(i, k). k \<noteq> []) (enumerate n ks))"
  have "build_inv seen ps t \<Longrightarrow> \<forall>i \<in> fst ` set seen. i < n \<Longrightarrow>
      \<exists>ps'. build_inv (seen @ ?p n ks) ps' (fold (add_keyword ucase) (enumerate n ks) t)" for seen ps t n
  proof (induction ks arbitrary: seen ps t n)
    case Nil
    then show ?case by auto
  next
    case (Cons k ks)
    show ?case
    proof (cases "k = []")
      case True
      then have "add_keyword ucase (n, k) t = t" by (simp add: add_keyword_def)
      with True Cons.IH [OF Cons.prems(1), of "Suc n"] Cons.prems(2) show ?thesis by (simp add: less_SucI)
    next
      case False
      from add_keyword_step [OF Cons.prems(1) False Cons.prems(2), of ucase] obtain ps1 where
        "build_inv (seen @ [(n, ToLower ucase k)]) ps1 (add_keyword ucase (n, k) t)" by blast
      from Cons.IH [OF this, of "Suc n"] Cons.prems(2) False show ?thesis by (simp add: less_SucI)
    qed
  qed
  from this [OF build_inv_init, of 0] show ?thesis by (simp add: build_trie_def patterns_def)
qed

end
