(* ===== verification/Keyword_Links.thy ===== *)
theory Keyword_Links
  imports Keyword_Trie
begin

text \<open>
  The breadth-first pass of the keyword matcher: it gives every node the failure link that the
  dictionary prescribes and the first keyword that ends there.
\<close>

section \<open>Depth\<close>

lemma depth_bound:
  assumes "trie_inv ps ns es" "v \<in> set ps"
  shows "length v < length ns"
proof -
  have "set (prefixes v) \<subseteq> set ps" using assms(2)
  proof (induction v rule: rev_induct)
    case (snoc c v)
    then show ?case using closed_trie [OF assms(1), of v c] by auto
  qed (use assms in simp)
  then have "card (set (prefixes v)) \<le> card (set ps)" by (intro card_mono) simp_all
  moreover have "card (set (prefixes v)) = Suc (length v)" by (simp add: distinct_card)
  moreover have "card (set ps) = length ns" using assms(1) by (simp add: trie_inv_def distinct_card)
  ultimately show ?thesis by simp
qed

lemma trie_inv_root: "trie_inv ps ns es \<Longrightarrow> i < length ns \<Longrightarrow> ps ! i = [] \<longleftrightarrow> i = 0"
  using trie_inv_unique [of ps ns es i 0] by (auto simp: trie_inv_def)

lemma trie_inv_mem: "trie_inv ps ns es \<Longrightarrow> i < length ns \<Longrightarrow> ps ! i \<in> set ps"
  by (simp add: trie_inv_def)

lemma trie_inv_index: "trie_inv ps ns es \<Longrightarrow> v \<in> set ps \<Longrightarrow> \<exists>i < length ns. ps ! i = v"
  by (auto simp: trie_inv_def in_set_conv_nth)

section \<open>Linked nodes\<close>

text \<open>What the pass establishes for a node.\<close>

definition linked :: "(nat \<times> string) list \<Rightarrow> string list \<Rightarrow> keyword_node list \<Rightarrow> nat \<Rightarrow> bool" where
  "linked pats ps ns i \<longleftrightarrow>
     failure (ns ! i) < length ns \<and>
     ps ! failure (ns ! i) = dictionary.failure_of pats (ps ! i) \<and>
     bestKeyword (ns ! i) = first_index (\<lambda>k. suffix k (ps ! i)) pats"

definition fresh :: "(nat \<times> string) list \<Rightarrow> string list \<Rightarrow> keyword_node list \<Rightarrow> nat \<Rightarrow> bool" where
  "fresh pats ps ns i \<longleftrightarrow> failure (ns ! i) = 0 \<and> bestKeyword (ns ! i) = first_index (\<lambda>k. k = ps ! i) pats"

lemma failure_of_short: "length v \<le> 1 \<Longrightarrow> dictionary.failure_of pats v = []"
  by (cases v) (auto simp: dictionary.failure_of_def)

text \<open>A node of depth at most one is linked as it is built.\<close>

lemma linked_shallow:
  assumes "trie_inv ps ns es" "fresh pats ps ns i" "length (ps ! i) \<le> 1" "[] \<notin> snd ` set pats"
  shows "linked pats ps ns i"
proof -
  have "suffix k (ps ! i) \<longleftrightarrow> k = ps ! i" if "(j, k) \<in> set pats" for j k
  proof -
    have "k \<noteq> []" using that assms(4) by force
    then show ?thesis using assms(3) by (cases "ps ! i") (auto simp: suffix_Cons)
  qed
  then have "first_index (\<lambda>k. suffix k (ps ! i)) pats = first_index (\<lambda>k. k = ps ! i) pats"
    by (intro first_index_cong) auto
  then show ?thesis using assms(1,2,3) by (auto simp: linked_def fresh_def failure_of_short trie_inv_def)
qed

text \<open>Following the failure links from a node whose string is \<open>v\<close>: the node of the longest suffix
  of \<open>v @ [c]\<close>, or none when that is empty.\<close>

lemma fallback_correct:
  assumes inv: "trie_inv ps ns es" "set ps = pattern_prefixes pats"
    and deep: "\<And>i. i < length ns \<Longrightarrow> length (ps ! i) \<le> d \<Longrightarrow> linked pats ps ns i"
    and "f < length ns" "length (ps ! f) \<le> d" "length (ps ! f) < n"
  shows "case fallback n ns es f c of
      None \<Rightarrow> longest_suffix (pattern_prefixes pats) (ps ! f @ [c]) = []
    | Some t \<Rightarrow> t < length ns \<and> ps ! t = longest_suffix (pattern_prefixes pats) (ps ! f @ [c])"
  using assms(4-)
proof (induction n arbitrary: f)
  case (Suc n)
  have T: "ps ! f \<in> pattern_prefixes pats" using trie_inv_mem [OF inv(1) Suc.prems(1)] inv(2) by simp
  note step = dictionary.goto_step [OF T, of c]
  show ?case
  proof (cases "BuildTransition ns es f c")
    case (Some t)
    then have "t < length ns" "ps ! t = ps ! f @ [c]" using BuildTransition_Some [OF inv(1) Suc.prems(1)] by auto
    moreover from this have "ps ! f @ [c] \<in> pattern_prefixes pats" using trie_inv_mem [OF inv(1), of t] inv(2) by simp
    ultimately show ?thesis using Some dictionary.longest_suffix_id by simp
  next
    case None
    then have new: "ps ! f @ [c] \<notin> pattern_prefixes pats" using BuildTransition_None [OF inv(1) Suc.prems(1)] inv(2) by simp
    show ?thesis
    proof (cases "f = 0")
      case True
      then show ?thesis using None new step trie_inv_root [OF inv(1) Suc.prems(1)] by simp
    next
      case False
      then have ne: "ps ! f \<noteq> []" using trie_inv_root [OF inv(1) Suc.prems(1)] by simp
      have l: "failure (ns ! f) < length ns" "ps ! failure (ns ! f) = dictionary.failure_of pats (ps ! f)"
        using deep [OF Suc.prems(1,2)] by (simp_all add: linked_def)
      have "length (ps ! failure (ns ! f)) < length (ps ! f)" using dictionary.failure_of_shorter [OF ne] l(2) by simp
      then show ?thesis
        using Suc.IH [OF l(1)] Suc.prems(2,3) None False new step ne l(2)
        by (simp split: option.splits)
    qed
  qed
qed simp

text \<open>One child of a linked node.\<close>

lemma link_child_correct:
  assumes inv: "trie_inv ps ns es" "set ps = pattern_prefixes pats" "sorted_wrt (<) (map fst pats)"
    and deep: "\<And>i. i < length ns \<Longrightarrow> length (ps ! i) \<le> length (ps ! s) \<Longrightarrow> linked pats ps ns i"
    and s: "s < length ns" "s \<noteq> 0"
    and e: "b_target e < length ns" "ps ! b_target e = ps ! s @ [b_label e]" "fresh pats ps ns (b_target e)"
  shows "\<exists>n. link_child es s e (ns, q) = (ns[b_target e := n], q @ [b_target e]) \<and>
    edgeStart n = edgeStart (ns ! b_target e) \<and> linked pats ps (ns[b_target e := n]) (b_target e)"
proof -
  let ?t = "b_target e" and ?c = "b_label e"
  have ne: "ps ! s \<noteq> []" using s trie_inv_root [OF inv(1)] by simp
  have ls: "failure (ns ! s) < length ns" "ps ! failure (ns ! s) = dictionary.failure_of pats (ps ! s)"
    using deep [OF s(1)] by (simp_all add: linked_def)
  have short: "length (ps ! failure (ns ! s)) < length (ps ! s)" using dictionary.failure_of_shorter [OF ne] ls(2) by simp
  obtain f where f: "f < length ns" "ps ! f = dictionary.failure_of pats (ps ! ?t)"
    and upd: "(case fallback (length ns) ns es (failure (ns ! s)) ?c of None \<Rightarrow> ns
       | Some f \<Rightarrow> ns[?t := (ns ! ?t)\<lparr>failure := f\<rparr>]) = ns[?t := (ns ! ?t)\<lparr>failure := f\<rparr>]"
  proof (cases "fallback (length ns) ns es (failure (ns ! s)) ?c")
    case None
    have "dictionary.failure_of pats (ps ! ?t) = []"
      using fallback_correct [OF inv(1,2) deep ls(1), where n = "length ns" and c = ?c] short None
        depth_bound [OF inv(1) trie_inv_mem [OF inv(1) ls(1)]] e(2) ls(2) dictionary.failure_snoc [OF ne] by simp
    moreover have "(ns ! ?t)\<lparr>failure := 0\<rparr> = ns ! ?t"
      using e(3) by (cases "ns ! ?t") (simp add: fresh_def)
    ultimately show ?thesis using None inv(1) by (intro that [of 0]) (auto simp: trie_inv_def failure_of_short)
  next
    case (Some f)
    then show ?thesis
      using fallback_correct [OF inv(1,2) deep ls(1), where n = "length ns" and c = ?c] short
        depth_bound [OF inv(1) trie_inv_mem [OF inv(1) ls(1)]] e(2) ls(2) dictionary.failure_snoc [OF ne]
      by (intro that [of f]) simp_all
  qed
  have tne: "ps ! ?t \<noteq> []" using e(2) by simp
  have "length (ps ! f) \<le> length (ps ! s)" using dictionary.failure_of_shorter [OF tne, of pats] f(2) e(2) by simp
  then have lf: "bestKeyword (ns ! f) = first_index (\<lambda>k. suffix k (ps ! f)) pats" and ft: "f \<noteq> ?t"
    using deep [OF f(1)] e(2) by (auto simp: linked_def)
  let ?n = "(ns ! ?t)\<lparr>failure := f, bestKeyword := minKeywordIndex (bestKeyword (ns ! ?t)) (bestKeyword (ns ! f))\<rparr>"
  have best: "bestKeyword ?n = first_index (\<lambda>k. suffix k (ps ! ?t)) pats"
  proof -
    have "bestKeyword ?n = first_index (\<lambda>k. k = ps ! ?t \<or> suffix k (ps ! f)) pats"
      using e(3) lf by (simp add: fresh_def first_index_or [OF inv(3)])
    also have "\<dots> = first_index (\<lambda>k. suffix k (ps ! ?t)) pats"
    proof (rule first_index_cong)
      fix i k assume "(i, k) \<in> set pats"
      then have "k \<in> pattern_prefixes pats" by (rule pattern_in)
      then show "(k = ps ! ?t \<or> suffix k (ps ! f)) = suffix k (ps ! ?t)"
        using dictionary.state_suffix_iff [OF tne] f(2) by simp
    qed
    finally show ?thesis .
  qed
  have "link_child es s e (ns, q) = (ns[?t := ?n], q @ [?t])"
    using ft e(1) by (simp add: link_child_def Let_def upd)
  moreover have "linked pats ps (ns[?t := ?n]) ?t"
    using f e(1) best by (simp add: linked_def)
  ultimately show ?thesis by (intro exI [of _ ?n]) simp
qed

text \<open>The children of a node, one after the other: each is linked, the other nodes stay.\<close>

lemma linked_update: "i \<noteq> t \<Longrightarrow> linked pats ps (ns[t := n]) i = linked pats ps ns i"
  by (simp add: linked_def)

lemma fresh_update: "i \<noteq> t \<Longrightarrow> fresh pats ps (ns[t := n]) i = fresh pats ps ns i"
  by (simp add: fresh_def)

lemma link_children_correct:
  assumes "trie_inv ps ns es" "set ps = pattern_prefixes pats" "sorted_wrt (<) (map fst pats)"
    and "\<And>i. i < length ns \<Longrightarrow> length (ps ! i) \<le> length (ps ! s) \<Longrightarrow> linked pats ps ns i"
    and "s < length ns" "s \<noteq> 0" "distinct (map b_target out)"
    and "\<And>e. e \<in> set out \<Longrightarrow> b_target e < length ns \<and> ps ! b_target e = ps ! s @ [b_label e] \<and> fresh pats ps ns (b_target e)"
  shows "\<exists>ns'. fold (link_child es s) out (ns, q) = (ns', q @ map b_target out) \<and> trie_inv ps ns' es \<and>
    map edgeStart ns' = map edgeStart ns \<and>
    (\<forall>e \<in> set out. linked pats ps ns' (b_target e)) \<and>
    (\<forall>i. i \<notin> b_target ` set out \<longrightarrow> ns' ! i = ns ! i)"
  using assms
proof (induction out arbitrary: ns q)
  case Nil
  then show ?case by auto
next
  case (Cons e out)
  note prems = Cons.prems
  let ?t = "b_target e"
  have e: "?t < length ns" "ps ! ?t = ps ! s @ [b_label e]" "fresh pats ps ns ?t"
    using prems(8) [of e] by simp_all
  from link_child_correct [OF prems(1-6) e, of q] obtain n where
    n: "link_child es s e (ns, q) = (ns[?t := n], q @ [?t])" "edgeStart n = edgeStart (ns ! ?t)"
      "linked pats ps (ns[?t := n]) ?t" by blast
  let ?ns = "ns[?t := n]"
  have es: "map edgeStart ?ns = map edgeStart ns"
    using n(2) e(1) by (simp add: map_update list_update_same_conv)
  have inv: "trie_inv ps ?ns es" using trie_inv_cong [OF prems(1)] es by simp
  have deep: "linked pats ps ?ns i" if "i < length ?ns" "length (ps ! i) \<le> length (ps ! s)" for i
    using that e(2) prems(4) [of i] by (cases "i = ?t") (auto simp: linked_update)
  have rest: "b_target d < length ?ns \<and> ps ! b_target d = ps ! s @ [b_label d] \<and> fresh pats ps ?ns (b_target d)"
    if "d \<in> set out" for d
    using that prems(7) prems(8) [of d] by (auto simp: fresh_update image_iff)
  have s: "s < length ?ns" "distinct (map b_target out)" using prems(5,7) by simp_all
  from Cons.IH [OF inv prems(2,3) deep s(1) prems(6) s(2) rest, of "q @ [?t]"] obtain ns' where
    ns': "fold (link_child es s) out (?ns, q @ [?t]) = (ns', (q @ [?t]) @ map b_target out)" "trie_inv ps ns' es"
      "map edgeStart ns' = map edgeStart ?ns" "\<forall>e \<in> set out. linked pats ps ns' (b_target e)"
      "\<forall>i. i \<notin> b_target ` set out \<longrightarrow> ns' ! i = ?ns ! i" by blast
  have "ns' ! ?t = ?ns ! ?t" "length ns' = length ?ns"
    using ns'(3,5) prems(7) by (auto dest: map_eq_imp_length_eq)
  then have "linked pats ps ns' ?t" using n(3) by (simp add: linked_def)
  then show ?case using ns' n(1) es by (intro exI [of _ ns']) auto
qed

section \<open>The loop over the queue\<close>

definition link_inv :: "(nat \<times> string) list \<Rightarrow> string list \<Rightarrow> build_edge list \<Rightarrow> nat \<Rightarrow> keyword_node list \<Rightarrow> nat list \<Rightarrow> bool" where
  "link_inv pats ps es i ns q \<longleftrightarrow>
     trie_inv ps ns es \<and> distinct q \<and>
     set q = {t. t < length ns \<and> t \<noteq> 0 \<and> (butlast (ps ! t) = [] \<or> (\<exists>j < i. j < length q \<and> butlast (ps ! t) = ps ! (q ! j)))} \<and>
     sorted (map (\<lambda>t. length (ps ! t)) q) \<and>
     (i < length q \<longrightarrow> (\<forall>t \<in> set q. length (ps ! t) \<le> Suc (length (ps ! (q ! i))))) \<and>
     (\<forall>t < length ns. if t = 0 \<or> t \<in> set q then linked pats ps ns t else fresh pats ps ns t)"

text \<open>The nodes that are not deeper than the head of the queue are in it.\<close>

lemma link_inv_shallow:
  assumes "link_inv pats ps es i ns q" "t < length ns" "t \<noteq> 0"
    and "i < length q \<longrightarrow> length (ps ! t) \<le> length (ps ! (q ! i))"
  shows "t \<in> set q"
  using assms(2-)
proof (induction "length (ps ! t)" arbitrary: t rule: less_induct)
  case less
  have inv: "trie_inv ps ns es" and q: "set q = {t. t < length ns \<and> t \<noteq> 0 \<and>
      (butlast (ps ! t) = [] \<or> (\<exists>j < i. j < length q \<and> butlast (ps ! t) = ps ! (q ! j)))}"
    and sorted: "sorted (map (\<lambda>t. length (ps ! t)) q)"
    using assms(1) by (simp_all add: link_inv_def)
  have "ps ! t \<noteq> []" using less.prems(1,2) trie_inv_root [OF inv] by simp
  then obtain u c where u: "ps ! t = u @ [c]" by (cases "ps ! t" rule: rev_cases) auto
  show ?case
  proof (cases "u = []")
    case True
    then show ?thesis using less.prems u q by simp
  next
    case False
    have "u \<in> set ps" using closed_trie [OF inv] trie_inv_mem [OF inv less.prems(1)] u by metis
    then obtain p where p: "p < length ns" "ps ! p = u" using trie_inv_index [OF inv] by blast
    then have "p \<noteq> 0" using False trie_inv_root [OF inv, of p] by simp
    then have "p \<in> set q" using less.hyps [of p] less.prems(3) p u by auto
    then obtain j where j: "j < length q" "q ! j = p" by (auto simp: in_set_conv_nth)
    have "j < i"
    proof (rule ccontr)
      assume "\<not> j < i"
      then have "length (ps ! (q ! i)) \<le> length (ps ! (q ! j))"
        using sorted_nth_mono [OF sorted, of i j] j(1) by simp
      then show False using less.prems(3) \<open>\<not> j < i\<close> j u p by simp
    qed
    then have "\<exists>j < i. j < length q \<and> butlast (ps ! t) = ps ! (q ! j)" using j p(2) u by auto
    then show ?thesis using less.prems(1,2) unfolding q by simp
  qed
qed

lemma link_inv_step:
  assumes "link_inv pats ps es i ns q" "i < length q" "set ps = pattern_prefixes pats" "sorted_wrt (<) (map fst pats)"
  shows "\<exists>ns' q'. fold (link_child es (q ! i)) (outgoing es (ns ! (q ! i))) (ns, q) = (ns', q') \<and>
    link_inv pats ps es (Suc i) ns' q' \<and> length ns' = length ns"
proof -
  let ?s = "q ! i"
  let ?out = "outgoing es (ns ! ?s)"
  let ?q = "q @ map b_target ?out"
  have inv: "trie_inv ps ns es" and d: "distinct q" and q: "set q = {t. t < length ns \<and> t \<noteq> 0 \<and>
      (butlast (ps ! t) = [] \<or> (\<exists>j < i. j < length q \<and> butlast (ps ! t) = ps ! (q ! j)))}"
    and sorted: "sorted (map (\<lambda>t. length (ps ! t)) q)"
    and window: "\<And>t. t \<in> set q \<Longrightarrow> length (ps ! t) \<le> Suc (length (ps ! ?s))"
    and marks: "\<And>t. t < length ns \<Longrightarrow> if t = 0 \<or> t \<in> set q then linked pats ps ns t else fresh pats ps ns t"
    using assms(1,2) by (auto simp: link_inv_def)
  have "?s \<in> set q" using assms(2) by simp
  then have s: "?s < length ns" "?s \<noteq> 0" using q by blast+
  then have sne: "ps ! ?s \<noteq> []" using trie_inv_root [OF inv] by simp
  have deep: "linked pats ps ns t" if "t < length ns" "length (ps ! t) \<le> length (ps ! ?s)" for t
    using that marks [OF that(1)] link_inv_shallow [OF assms(1) that(1)] by (auto split: if_splits)
  have tgt: "t \<in> b_target ` set ?out \<longleftrightarrow> t < length ns \<and> t \<noteq> 0 \<and> butlast (ps ! t) = ps ! ?s" for t
  proof -
    have "t \<in> b_target ` set ?out \<longleftrightarrow> (\<exists>c. \<exists>e \<in> set ?out. b_label e = c \<and> b_target e = t)"
      by (auto simp: image_iff)
    also have "\<dots> \<longleftrightarrow> (\<exists>c. t < length ns \<and> ps ! t = ps ! ?s @ [c])"
      unfolding trie_inv_edge [OF inv s(1)] ..
    also have "\<dots> \<longleftrightarrow> t < length ns \<and> t \<noteq> 0 \<and> butlast (ps ! t) = ps ! ?s"
    proof (cases "t < length ns")
      case True
      then show ?thesis using trie_inv_root [OF inv True] by (cases "ps ! t" rule: rev_cases) auto
    qed simp
    finally show ?thesis .
  qed
  have notq: "t \<notin> set q" if "t \<in> b_target ` set ?out" for t
  proof
    assume "t \<in> set q"
    moreover have "butlast (ps ! t) = ps ! ?s" using that tgt by blast
    ultimately have "\<exists>j < i. j < length q \<and> ps ! ?s = ps ! (q ! j)" using q sne by auto
    then obtain j where j: "j < i" "j < length q" "ps ! ?s = ps ! (q ! j)" by blast
    then have "q ! j < length ns" using q nth_mem by blast
    then have "q ! j = ?s" using j trie_inv_unique [OF inv s(1)] by simp
    then show False using d j assms(2) by (simp add: nth_eq_iff_index_eq)
  qed
  have dout: "distinct (map b_target ?out)" using inv s(1) by (simp add: trie_inv_def)
  have out: "b_target e < length ns \<and> ps ! b_target e = ps ! ?s @ [b_label e] \<and> fresh pats ps ns (b_target e)"
    if "e \<in> set ?out" for e
    using that trie_inv_edge [OF inv s(1), of "b_label e" "b_target e"] marks [of "b_target e"] notq [of "b_target e"]
      tgt [of "b_target e"] by auto
  from link_children_correct [OF inv assms(3,4) deep s dout out, of q] obtain ns' where
    f: "fold (link_child es ?s) ?out (ns, q) = (ns', ?q)" and inv': "trie_inv ps ns' es"
    and es': "map edgeStart ns' = map edgeStart ns" and new: "\<forall>e \<in> set ?out. linked pats ps ns' (b_target e)"
    and old: "\<forall>i. i \<notin> b_target ` set ?out \<longrightarrow> ns' ! i = ns ! i" by blast
  have len: "length ns' = length ns" using es' by (auto dest: map_eq_imp_length_eq)
  have deeper: "length (ps ! b_target e) = Suc (length (ps ! ?s))" if "e \<in> set ?out" for e using out [OF that] by simp
  have sorted': "sorted (map (\<lambda>t. length (ps ! t)) ?q)"
  proof -
    have "sorted (map (\<lambda>t. length (ps ! t)) (map b_target ?out))"
      using deeper by (auto simp: sorted_iff_nth_mono)
    then show ?thesis using sorted window deeper by (auto simp: sorted_append)
  qed
  have "link_inv pats ps es (Suc i) ns' ?q"
    unfolding link_inv_def
  proof (intro conjI)
    show "trie_inv ps ns' es" by (rule inv')
    show "distinct ?q" using d dout notq by auto
    show "sorted (map (\<lambda>t. length (ps ! t)) ?q)" by (rule sorted')
    have "t \<in> set ?q \<longleftrightarrow> t < length ns \<and> t \<noteq> 0 \<and>
        (butlast (ps ! t) = [] \<or> (\<exists>j < Suc i. j < length ?q \<and> butlast (ps ! t) = ps ! (?q ! j)))" for t
    proof -
      have "(\<exists>j < Suc i. j < length ?q \<and> butlast (ps ! t) = ps ! (?q ! j)) \<longleftrightarrow>
          (\<exists>j < i. j < length q \<and> butlast (ps ! t) = ps ! (q ! j)) \<or> butlast (ps ! t) = ps ! ?s"
        using assms(2) by (auto simp: nth_append less_Suc_eq)
      moreover have "t \<in> set ?q \<longleftrightarrow> t \<in> set q \<or> t \<in> b_target ` set ?out" by simp
      ultimately show ?thesis using q tgt [of t] by auto
    qed
    then show "set ?q = {t. t < length ns' \<and> t \<noteq> 0 \<and>
        (butlast (ps ! t) = [] \<or> (\<exists>j < Suc i. j < length ?q \<and> butlast (ps ! t) = ps ! (?q ! j)))}"
      by (auto simp: len)
    show "Suc i < length ?q \<longrightarrow> (\<forall>t \<in> set ?q. length (ps ! t) \<le> Suc (length (ps ! (?q ! Suc i))))"
    proof
      assume "Suc i < length ?q"
      then have "map (\<lambda>t. length (ps ! t)) ?q ! i \<le> map (\<lambda>t. length (ps ! t)) ?q ! Suc i"
        using sorted_nth_mono [OF sorted', of i "Suc i"] by simp
      moreover have "map (\<lambda>t. length (ps ! t)) ?q ! Suc i = length (ps ! (?q ! Suc i))"
        using \<open>Suc i < length ?q\<close> by (intro nth_map)
      moreover have "map (\<lambda>t. length (ps ! t)) ?q ! i = length (ps ! ?s)"
        using assms(2) by (simp add: nth_append)
      ultimately have "length (ps ! ?s) \<le> length (ps ! (?q ! Suc i))" by simp
      then show "\<forall>t \<in> set ?q. length (ps ! t) \<le> Suc (length (ps ! (?q ! Suc i)))"
        using window deeper by fastforce
    qed
    show "\<forall>t < length ns'. if t = 0 \<or> t \<in> set ?q then linked pats ps ns' t else fresh pats ps ns' t"
    proof (intro allI impI)
      fix t assume t: "t < length ns'"
      show "if t = 0 \<or> t \<in> set ?q then linked pats ps ns' t else fresh pats ps ns' t"
      proof (cases "t \<in> b_target ` set ?out")
        case True
        then show ?thesis using new by auto
      next
        case False
        then have "ns' ! t = ns ! t" using old by blast
        then show ?thesis using marks [of t] t False len by (auto simp: linked_def fresh_def)
      qed
    qed
  qed
  then show ?thesis using f len by auto
qed

text \<open>The bound on the rounds is enough: the queue holds each node but the root at most once.\<close>

lemma link_loop_correct:
  assumes "link_inv pats ps es i ns q" "set ps = pattern_prefixes pats" "sorted_wrt (<) (map fst pats)" "length ns \<le> n + i"
  shows "trie_inv ps (link_loop n es i (ns, q)) es \<and> length (link_loop n es i (ns, q)) = length ns \<and>
    (\<forall>t < length ns. linked pats ps (link_loop n es i (ns, q)) t)"
  using assms
proof (induction n arbitrary: i ns q)
  case 0
  then have "set q \<subseteq> {1..<length ns}" "distinct q" by (auto simp: link_inv_def)
  then have "length q \<le> length ns - 1" using card_mono [of "{1..<length ns}" "set q"] by (simp add: distinct_card)
  then have "\<not> i < length q" using 0(4) by simp
  then have "\<forall>t < length ns. t = 0 \<or> t \<in> set q" using link_inv_shallow [OF 0(1)] by blast
  then show ?case using 0(1) by (auto simp: link_inv_def split: if_splits)
next
  case (Suc n)
  show ?case
  proof (cases "i < length q")
    case True
    from link_inv_step [OF Suc.prems(1) True Suc.prems(2,3)] obtain ns' q' where
      step: "fold (link_child es (q ! i)) (outgoing es (ns ! (q ! i))) (ns, q) = (ns', q')"
        "link_inv pats ps es (Suc i) ns' q'" "length ns' = length ns" by blast
    then show ?thesis using Suc.IH [OF step(2) Suc.prems(2,3)] Suc.prems(4) True by simp
  next
    case False
    then have "\<forall>t < length ns. t = 0 \<or> t \<in> set q" using link_inv_shallow [OF Suc.prems(1)] by blast
    then show ?thesis using Suc.prems(1) False by (auto simp: link_inv_def split: if_splits)
  qed
qed

lemma root_edges:
  assumes "trie_inv ps ns es"
  shows "t \<in> b_target ` set (outgoing es (ns ! 0)) \<longleftrightarrow> t < length ns \<and> t \<noteq> 0 \<and> butlast (ps ! t) = []"
proof -
  have 0: "0 < length ns" "ps ! 0 = []" using assms by (auto simp: trie_inv_def)
  have "t \<in> b_target ` set (outgoing es (ns ! 0)) \<longleftrightarrow> (\<exists>c. \<exists>e \<in> set (outgoing es (ns ! 0)). b_label e = c \<and> b_target e = t)"
    by (auto simp: image_iff)
  also have "\<dots> \<longleftrightarrow> (\<exists>c. t < length ns \<and> ps ! t = [c])"
    unfolding trie_inv_edge [OF assms 0(1)] 0(2) by simp
  also have "\<dots> \<longleftrightarrow> t < length ns \<and> t \<noteq> 0 \<and> butlast (ps ! t) = []"
  proof (cases "t < length ns")
    case True
    then show ?thesis using trie_inv_root [OF assms True] by (cases "ps ! t" rule: rev_cases) auto
  qed simp
  finally show ?thesis .
qed

lemma link_trie_correct:
  assumes "trie_inv ps ns es" "set ps = pattern_prefixes pats" "sorted_wrt (<) (map fst pats)"
    and "\<And>i. i < length ns \<Longrightarrow> fresh pats ps ns i" "[] \<notin> snd ` set pats"
  shows "trie_inv ps (link_trie (ns, es)) es \<and> length (link_trie (ns, es)) = length ns \<and>
    (\<forall>t < length ns. linked pats ps (link_trie (ns, es)) t)"
proof -
  let ?q = "map b_target (outgoing es (ns ! 0))"
  have 0: "0 < length ns" "ps ! 0 = []" using assms(1) by (auto simp: trie_inv_def)
  have short: "length (ps ! t) \<le> 1" if "t \<in> set ?q" for t
  proof -
    have "length (butlast (ps ! t)) = 0" using that root_edges [OF assms(1), of t] by simp
    then show ?thesis by simp
  qed
  have ne: "length (ps ! t) = 1" if "t \<in> set ?q" for t
    using short [OF that] that root_edges [OF assms(1), of t] trie_inv_root [OF assms(1), of t]
    by (cases "ps ! t") auto
  have "link_inv pats ps es 0 ns ?q"
    unfolding link_inv_def
  proof (intro conjI)
    show "trie_inv ps ns es" by (rule assms(1))
    show "distinct ?q" using assms(1) 0(1) by (simp add: trie_inv_def)
    show "set ?q = {t. t < length ns \<and> t \<noteq> 0 \<and> (butlast (ps ! t) = [] \<or> (\<exists>j < 0. j < length ?q \<and> butlast (ps ! t) = ps ! (?q ! j)))}"
      using root_edges [OF assms(1)] by auto
    show "sorted (map (\<lambda>t. length (ps ! t)) ?q)" unfolding sorted_iff_nth_mono
    proof (intro allI impI)
      fix i j assume "i \<le> j" "j < length (map (\<lambda>t. length (ps ! t)) ?q)"
      then show "map (\<lambda>t. length (ps ! t)) ?q ! i \<le> map (\<lambda>t. length (ps ! t)) ?q ! j"
        using ne by simp
    qed
    show "0 < length ?q \<longrightarrow> (\<forall>t \<in> set ?q. length (ps ! t) \<le> Suc (length (ps ! (?q ! 0))))" using short by fastforce
    show "\<forall>t < length ns. if t = 0 \<or> t \<in> set ?q then linked pats ps ns t else fresh pats ps ns t"
    proof (intro allI impI)
      fix t assume t: "t < length ns"
      have "length (ps ! t) \<le> 1" if "t = 0 \<or> t \<in> set ?q" using that short 0 by auto
      then show "if t = 0 \<or> t \<in> set ?q then linked pats ps ns t else fresh pats ps ns t"
        using assms(4) [OF t] linked_shallow [OF assms(1) assms(4) [OF t] _ assms(5)] by simp
    qed
  qed
  then show ?thesis using link_loop_correct [of pats ps es 0 ns ?q "length ns"] assms(2,3) by (simp add: link_trie_def)
qed

end
