(* ===== verification/Keyword_Search.thy ===== *)
theory Keyword_Search
  imports Keyword_Links
begin

text \<open>
  The search of the keyword matcher: the packed edges represent the trie, the automaton's state is the
  longest suffix of the text read so far that begins a keyword, and so the matcher returns the
  keyword that a search for each keyword in turn would return.
\<close>

section \<open>Packed edges\<close>

lemma set_shift_in [simp]: "set (shift_in x ys) = insert x (set ys)"
  by (induction ys) auto

lemma sorted_shift_in:
  "sorted_wrt (\<lambda>a b. byte (e_label b) \<le> byte (e_label a)) ys \<Longrightarrow>
    sorted_wrt (\<lambda>a b. byte (e_label b) \<le> byte (e_label a)) (shift_in x ys)"
  by (induction ys) (auto intro: order.trans dest: less_imp_le)

lemma fold_shift_in:
  "sorted_wrt (\<lambda>a b. byte (e_label b) \<le> byte (e_label a)) ys \<Longrightarrow>
    set (fold shift_in xs ys) = set xs \<union> set ys \<and>
    sorted_wrt (\<lambda>a b. byte (e_label b) \<le> byte (e_label a)) (fold shift_in xs ys)"
  by (induction xs arbitrary: ys) (auto simp: sorted_shift_in)

lemma sort_edges_sorted: "sorted_wrt (\<lambda>a b. byte (e_label a) \<le> byte (e_label b)) (sort_edges xs)"
  using fold_shift_in [of "[]" xs] by (simp add: sort_edges_def sorted_wrt_rev)

lemma set_sort_edges [simp]: "set (sort_edges xs) = set xs"
  using fold_shift_in [of "[]" xs] by (simp add: sort_edges_def)

definition packed_edges :: "build_edge list \<Rightarrow> keyword_node \<Rightarrow> keyword_edge list" where
  "packed_edges bs n = sort_edges (map (\<lambda>b. \<lparr>e_target = b_target b, e_label = b_label b\<rparr>) (outgoing bs n))"

lemma pack_node_eq:
  "pack_node bs n (ns, es) = (ns @ [n\<lparr>edgeStart := length es, edgeCount := length (packed_edges bs n)\<rparr>], es @ packed_edges bs n)"
  by (simp add: pack_node_def packed_edges_def Let_def)

text \<open>Each packed node owns a slice of the edges.\<close>

definition owns :: "build_edge list \<Rightarrow> keyword_edge list \<Rightarrow> keyword_node \<Rightarrow> keyword_node \<Rightarrow> bool" where
  "owns bs es n p \<longleftrightarrow> (\<exists>pre post. es = pre @ packed_edges bs n @ post \<and>
     p = n\<lparr>edgeStart := length pre, edgeCount := length (packed_edges bs n)\<rparr>)"

lemma owns_append: "owns bs es n p \<Longrightarrow> owns bs (es @ xs) n p"
  by (fastforce simp: owns_def)

lemma pack_fold:
  "list_all2 (owns bs es) done packed \<Longrightarrow>
    case fold (pack_node bs) ns (packed, es) of (packed', es') \<Rightarrow> list_all2 (owns bs es') (done @ ns) packed'"
proof (induction ns arbitrary: "done" packed es)
  case (Cons n ns)
  let ?p = "n\<lparr>edgeStart := length es, edgeCount := length (packed_edges bs n)\<rparr>"
  have "owns bs (es @ packed_edges bs n) n ?p" unfolding owns_def by (intro exI [of _ es] exI [of _ "[]"]) simp
  moreover have "list_all2 (owns bs (es @ packed_edges bs n)) done packed"
    using Cons.prems by (rule list_all2_mono) (rule owns_append)
  ultimately have "list_all2 (owns bs (es @ packed_edges bs n)) (done @ [n]) (packed @ [?p])"
    by (simp add: list_all2_appendI)
  from Cons.IH [OF this] show ?case by (simp add: pack_node_eq)
qed simp

section \<open>Bisection\<close>

lemma bisect_correct:
  assumes "left \<le> right" "\<And>i j. left \<le> i \<Longrightarrow> i \<le> j \<Longrightarrow> j < right \<Longrightarrow> byte (e_label (es ! i)) \<le> byte (e_label (es ! j))"
  shows "left \<le> bisect es c left right \<and> bisect es c left right \<le> right \<and>
    (\<forall>i. left \<le> i \<longrightarrow> i < bisect es c left right \<longrightarrow> byte (e_label (es ! i)) < byte c) \<and>
    (\<forall>i. bisect es c left right \<le> i \<longrightarrow> i < right \<longrightarrow> byte c \<le> byte (e_label (es ! i)))"
  using assms
proof (induction es c left right rule: bisect.induct)
  case (1 es c left right)
  let ?m = "left + (right - left) div 2"
  show ?case
  proof (cases "left < right")
    case False
    then show ?thesis using 1(3) by (simp add: bisect.simps)
  next
    case True
    then have m: "left \<le> ?m" "?m < right" by simp_all
    show ?thesis
    proof (cases "byte (e_label (es ! ?m)) < byte c")
      case less: True
      have e: "bisect es c left right = bisect es c (?m + 1) right" using True less by (simp add: bisect.simps Let_def)
      let ?b = "bisect es c (?m + 1) right"
      have IH: "?m + 1 \<le> ?b" "?b \<le> right" "\<And>i. ?m + 1 \<le> i \<Longrightarrow> i < ?b \<Longrightarrow> byte (e_label (es ! i)) < byte c"
        "\<And>i. ?b \<le> i \<Longrightarrow> i < right \<Longrightarrow> byte c \<le> byte (e_label (es ! i))"
        using 1(1) [OF True refl less] m 1(4) by simp_all
      have "byte (e_label (es ! i)) < byte c" if "left \<le> i" "i < ?b" for i
        using that 1(4) [of i ?m] m less IH(3) [of i] by (cases "i \<le> ?m") (simp_all add: le_less_trans)
      then show ?thesis unfolding e using IH(1,2,4) m(1) by (auto simp del: div_le_dividend)
    next
      case False
      have e: "bisect es c left right = bisect es c left ?m" using True False by (simp add: bisect.simps Let_def)
      let ?b = "bisect es c left ?m"
      have IH: "left \<le> ?b" "?b \<le> ?m" "\<And>i. left \<le> i \<Longrightarrow> i < ?b \<Longrightarrow> byte (e_label (es ! i)) < byte c"
        "\<And>i. ?b \<le> i \<Longrightarrow> i < ?m \<Longrightarrow> byte c \<le> byte (e_label (es ! i))"
        using 1(2) [OF True refl False] m 1(4) by simp_all
      have "byte c \<le> byte (e_label (es ! i))" if "?b \<le> i" "i < right" for i
      proof (cases "i < ?m")
        case False
        then have "byte (e_label (es ! ?m)) \<le> byte (e_label (es ! i))" using that 1(4) [of ?m i] m by simp
        then show ?thesis using \<open>\<not> byte (e_label (es ! ?m)) < byte c\<close> by simp
      qed (use that IH(4) in blast)
      then show ?thesis unfolding e using IH(1,2,3) m(2) by auto
    qed
  qed
qed

text \<open>Bisecting the slice of a node finds an edge with the label if there is one.\<close>

lemma find_edge:
  assumes "es = pre @ packed_edges bs n @ post"
  shows "let left = bisect es c (length pre) (length pre + length (packed_edges bs n)) in
    if left < length pre + length (packed_edges bs n) \<and> e_label (es ! left) = c
    then \<exists>b \<in> set (outgoing bs n). b_label b = c \<and> b_target b = e_target (es ! left)
    else \<forall>b \<in> set (outgoing bs n). b_label b \<noteq> c"
proof -
  let ?out = "packed_edges bs n"
  let ?l = "length pre" and ?r = "length pre + length ?out"
  let ?b = "bisect es c ?l ?r"
  have at: "es ! i = ?out ! (i - ?l)" if "?l \<le> i" "i < ?r" for i
    using that by (simp add: assms nth_append)
  have mono: "byte (e_label (es ! i)) \<le> byte (e_label (es ! j))" if "?l \<le> i" "i \<le> j" "j < ?r" for i j
    using sorted_wrt_nth_less [OF sort_edges_sorted, of "i - ?l" "j - ?l"] that at
    by (cases "i = j") (auto simp: packed_edges_def)
  have b: "?l \<le> ?b" "?b \<le> ?r" "\<And>i. ?l \<le> i \<Longrightarrow> i < ?b \<Longrightarrow> byte (e_label (es ! i)) < byte c"
    "\<And>i. ?b \<le> i \<Longrightarrow> i < ?r \<Longrightarrow> byte c \<le> byte (e_label (es ! i))"
    using bisect_correct [of ?l ?r es c] mono by simp_all
  have set_out: "set ?out = (\<lambda>b. \<lparr>e_target = b_target b, e_label = b_label b\<rparr>) ` set (outgoing bs n)"
    by (simp add: packed_edges_def)
  show ?thesis
  proof (cases "?b < ?r \<and> e_label (es ! ?b) = c")
    case True
    then have "es ! ?b \<in> set ?out" using at [OF b(1)] b(1) by auto
    then show ?thesis using True unfolding set_out Let_def by (auto simp: image_iff)
  next
    case False
    have no: "e_label e \<noteq> c" if mem: "e \<in> set ?out" for e
    proof
      assume c: "e_label e = c"
      obtain j where j: "j < length ?out" "?out ! j = e" using mem unfolding in_set_conv_nth by blast
      have e: "es ! (?l + j) = e" unfolding assms using j by (simp add: nth_append)
      have "\<not> ?l + j < ?b" using b(3) [OF le_add1, of j] unfolding e c by blast
      then have ge: "?b \<le> ?l + j" by (rule leI)
      have r: "?l + j < ?r" using j(1) by simp
      then have br: "?b < ?r" using ge by simp
      have "byte (e_label (es ! ?b)) \<le> byte c" using mono [OF b(1) ge r] unfolding e c .
      moreover have "byte c \<le> byte (e_label (es ! ?b))" by (rule b(4) [OF order.refl br])
      ultimately have "e_label (es ! ?b) = c" using byte_inject by (metis order.antisym)
      then show False using False br by blast
    qed
    have "b_label b \<noteq> c" if "b \<in> set (outgoing bs n)" for b
      using no [of "\<lparr>e_target = b_target b, e_label = b_label b\<rparr>"] that unfolding set_out by auto
    then show ?thesis using False unfolding Let_def by auto
  qed
qed

section \<open>The automaton\<close>

text \<open>What a built matcher represents: node \<open>i\<close> is the string \<open>ps ! i\<close>; it is linked, it owns its
  slice of the edges, and the root has its table.\<close>

definition represents :: "(nat \<times> string) list \<Rightarrow> string list \<Rightarrow> keyword_matcher \<Rightarrow> bool" where
  "represents pats ps m \<longleftrightarrow> set ps = pattern_prefixes pats \<and> (\<exists>ns bs.
     trie_inv ps ns bs \<and> list_all2 (owns bs (edges m)) ns (nodes m) \<and>
     (\<forall>t < length ns. linked pats ps ns t) \<and>
     (\<forall>c. rootTransitions m ! byte c = (case BuildTransition ns bs 0 c of None \<Rightarrow> 0 | Some t \<Rightarrow> t)))"

lemma next_state_represents:
  assumes "represents pats ps m" "s < length (nodes m)"
  shows "next_state m s c < length (nodes m) \<and>
    ps ! next_state m s c = (if ps ! s @ [c] \<in> set ps then ps ! s @ [c] else [])"
proof -
  obtain ns bs where inv: "trie_inv ps ns bs" and own: "list_all2 (owns bs (edges m)) ns (nodes m)"
    and root: "\<And>c. rootTransitions m ! byte c = (case BuildTransition ns bs 0 c of None \<Rightarrow> 0 | Some t \<Rightarrow> t)"
    using assms(1) by (auto simp: represents_def)
  have len: "length (nodes m) = length ns" using own by (simp add: list_all2_lengthD)
  then have s: "s < length ns" using assms(2) by simp
  have eq: "next_state m s c = (case BuildTransition ns bs s c of None \<Rightarrow> 0 | Some t \<Rightarrow> t)"
  proof (cases "s = 0")
    case True
    then show ?thesis by (simp add: next_state_def root)
  next
    case False
    have "owns bs (edges m) (ns ! s) (nodes m ! s)" using own s by (simp add: list_all2_nthD)
    then obtain pre post where es: "edges m = pre @ packed_edges bs (ns ! s) @ post"
      and p: "nodes m ! s = (ns ! s)\<lparr>edgeStart := length pre, edgeCount := length (packed_edges bs (ns ! s))\<rparr>"
      unfolding owns_def by blast
    let ?r = "length pre + length (packed_edges bs (ns ! s))"
    let ?l = "bisect (edges m) c (length pre) ?r"
    have n: "next_state m s c = (if ?l < ?r \<and> e_label (edges m ! ?l) = c then e_target (edges m ! ?l) else 0)"
      using False s by (simp add: next_state_def len p Let_def)
    show ?thesis
    proof (cases "?l < ?r \<and> e_label (edges m ! ?l) = c")
      case True
      then obtain b where "b \<in> set (outgoing bs (ns ! s))" "b_label b = c" "b_target b = e_target (edges m ! ?l)"
        using find_edge [OF es, of c] by (auto simp: Let_def)
      then have "BuildTransition ns bs s c = Some (e_target (edges m ! ?l))"
        using trie_inv_edge [OF inv s, of c "e_target (edges m ! ?l)"] BuildTransition_Some [OF inv s] by blast
      then show ?thesis using n True by simp
    next
      case none: False
      then have "\<forall>b \<in> set (outgoing bs (ns ! s)). b_label b \<noteq> c"
        using find_edge [OF es, of c] unfolding Let_def by (simp only: if_False)
      then have "BuildTransition ns bs s c = None" by (simp add: BuildTransition_def find_None_iff)
      then show ?thesis using n none by auto
    qed
  qed
  show ?thesis
  proof (cases "BuildTransition ns bs s c")
    case None
    then have "ps ! s @ [c] \<notin> set ps" using BuildTransition_None [OF inv s] by blast
    moreover have "0 < length ns" "ps ! 0 = []" using inv by (auto simp: trie_inv_def)
    ultimately show ?thesis using eq None len by simp
  next
    case (Some t)
    then have "t < length ns" "ps ! t = ps ! s @ [c]" using BuildTransition_Some [OF inv s] by blast+
    moreover from this have "ps ! s @ [c] \<in> set ps" using trie_inv_mem [OF inv, of t] by simp
    ultimately show ?thesis using eq Some len by simp
  qed
qed

lemma represents_node:
  assumes "represents pats ps m" "s < length (nodes m)"
  shows "ps ! s \<in> pattern_prefixes pats" "length (ps ! s) < length (nodes m)" "ps ! s = [] \<longleftrightarrow> s = 0"
    and "failure (nodes m ! s) < length (nodes m)" "ps ! failure (nodes m ! s) = dictionary.failure_of pats (ps ! s)"
    and "bestKeyword (nodes m ! s) = first_index (\<lambda>k. suffix k (ps ! s)) pats"
proof -
  obtain ns bs where inv: "trie_inv ps ns bs" and own: "list_all2 (owns bs (edges m)) ns (nodes m)"
    and l: "\<And>t. t < length ns \<Longrightarrow> linked pats ps ns t"
    using assms(1) by (auto simp: represents_def)
  have len: "length (nodes m) = length ns" using own by (simp add: list_all2_lengthD)
  then have s: "s < length ns" using assms(2) by simp
  have "owns bs (edges m) (ns ! s) (nodes m ! s)" using own s by (simp add: list_all2_nthD)
  then have same: "failure (nodes m ! s) = failure (ns ! s)" "bestKeyword (nodes m ! s) = bestKeyword (ns ! s)"
    by (auto simp: owns_def)
  show "ps ! s \<in> pattern_prefixes pats" "length (ps ! s) < length (nodes m)" "ps ! s = [] \<longleftrightarrow> s = 0"
    using trie_inv_mem [OF inv s] depth_bound [OF inv trie_inv_mem [OF inv s]] trie_inv_root [OF inv s] assms(1) len
    by (simp_all add: represents_def)
  show "failure (nodes m ! s) < length (nodes m)" "ps ! failure (nodes m ! s) = dictionary.failure_of pats (ps ! s)"
    "bestKeyword (nodes m ! s) = first_index (\<lambda>k. suffix k (ps ! s)) pats"
    using l [OF s] same len by (simp_all add: linked_def)
qed

text \<open>Reading a byte: the state is the longest suffix again.\<close>

lemma advance_correct:
  assumes "represents pats ps m" "s < length (nodes m)" "length (ps ! s) < n"
  shows "advance n m c s < length (nodes m) \<and> ps ! advance n m c s = longest_suffix (pattern_prefixes pats) (ps ! s @ [c])"
  using assms(2,3)
proof (induction n arbitrary: s)
  case (Suc n)
  note node = represents_node [OF assms(1) Suc.prems(1)]
  note nxt = next_state_represents [OF assms(1) Suc.prems(1), of c]
  have T: "set ps = pattern_prefixes pats" using assms(1) by (simp add: represents_def)
  have zero: "next_state m s c = 0 \<longleftrightarrow> ps ! s @ [c] \<notin> set ps"
    using nxt represents_node(3) [OF assms(1), of "next_state m s c"] by (auto split: if_splits)
  note step = dictionary.goto_step [OF node(1), of c]
  show ?case
  proof (cases "ps ! s @ [c] \<in> set ps")
    case True
    then show ?thesis using nxt zero step T by (simp add: Let_def)
  next
    case False
    show ?thesis
    proof (cases "s = 0")
      case True
      then show ?thesis using False zero step node T Suc.prems(1) by (simp add: Let_def)
    next
      case ne: False
      have "length (ps ! failure (nodes m ! s)) < n"
        using dictionary.failure_of_shorter [of "ps ! s" pats] node(3,5) ne Suc.prems(2) by simp
      then show ?thesis using Suc.IH [OF node(4)] False zero step node(3,5) ne T by (simp add: Let_def)
    qed
  qed
qed simp

section \<open>The search\<close>

lemma Contains_snoc: "k \<noteq> [] \<Longrightarrow> Contains (w @ [c]) k \<longleftrightarrow> Contains w k \<or> suffix k (w @ [c])"
proof
  assume "k \<noteq> []" "Contains (w @ [c]) k"
  then obtain us vs where "w @ [c] = us @ k @ vs" by (auto simp: Contains_iff)
  then show "Contains w k \<or> suffix k (w @ [c])"
    by (cases vs rule: rev_cases) (auto simp: Contains_iff suffix_def)
next
  assume "Contains w k \<or> suffix k (w @ [c])"
  then show "Contains (w @ [c]) k" by (fastforce simp: Contains_iff suffix_def)
qed

lemma Contains_mono: "Contains w k \<Longrightarrow> Contains (w @ v) k"
  by (fastforce simp: Contains_iff)

lemma scan_correct:
  assumes "represents pats ps m" "sorted_wrt (<) (map fst pats)" "[] \<notin> snd ` set pats"
    and "s < length (nodes m)" "ps ! s = longest_suffix (pattern_prefixes pats) w"
    and "best = first_index (Contains w) pats"
  shows "scan m s best rest = first_index (Contains (w @ rest)) pats"
  using assms(4-)
proof (induction rest arbitrary: s w best)
  case (Cons c rest)
  let ?s = "advance (length (nodes m)) m c s"
  let ?b = "minKeywordIndex best (bestKeyword (nodes m ! ?s))"
  have a: "?s < length (nodes m)" "ps ! ?s = longest_suffix (pattern_prefixes pats) (w @ [c])"
    using advance_correct [OF assms(1) Cons.prems(1) represents_node(2) [OF assms(1) Cons.prems(1)], of c]
      dictionary.longest_suffix_snoc [of pats w c] Cons.prems(2) by simp_all
  have "first_index (Contains (w @ [c])) pats = first_index (\<lambda>k. Contains w k \<or> suffix k (ps ! ?s)) pats"
  proof (rule first_index_cong)
    fix i k assume k: "(i, k) \<in> set pats"
    then have "k \<noteq> []" using assms(3) by force
    then show "Contains (w @ [c]) k = (Contains w k \<or> suffix k (ps ! ?s))"
      using Contains_snoc dictionary.suffix_longest_iff [OF pattern_in [OF k]] a(2) by simp
  qed
  then have b: "?b = first_index (Contains (w @ [c])) pats"
    using represents_node(6) [OF assms(1) a(1)] Cons.prems(3) by (simp add: first_index_or [OF assms(2)])
  show ?case
  proof (cases "?b = Some 0")
    case True
    then have "first_index (Contains ((w @ [c]) @ rest)) pats = Some 0"
      using b first_index_zero_mono [OF _ assms(2), of "Contains (w @ [c])"] Contains_mono by metis
    then show ?thesis using True by (simp add: Let_def)
  next
    case False
    then show ?thesis using Cons.IH [OF a b] by (simp add: Let_def)
  qed
qed simp

text \<open>The numbered patterns and the list of the keywords.\<close>

lemma first_index_patterns:
  "first_index P (patterns ucase ks) =
     (case find (\<lambda>(i, k). k \<noteq> [] \<and> P (ToLower ucase k)) (enumerate 0 ks) of None \<Rightarrow> None | Some (i, k) \<Rightarrow> Some i)"
proof -
  have "first_index P (map (\<lambda>(i, k). (i, ToLower ucase k)) (filter (\<lambda>(i, k). k \<noteq> []) (enumerate n ks))) =
     (case find (\<lambda>(i, k). k \<noteq> [] \<and> P (ToLower ucase k)) (enumerate n ks) of None \<Rightarrow> None | Some (i, k) \<Rightarrow> Some i)" for n
    by (induction ks arbitrary: n) auto
  then show ?thesis by (simp add: patterns_def)
qed

lemma find_enumerate:
  "find (\<lambda>(i, k). P k) (enumerate n ks) = Some (i, k) \<Longrightarrow> find P ks = Some k \<and> n \<le> i \<and> i < n + length ks \<and> ks ! (i - n) = k"
proof (induction ks arbitrary: n)
  case (Cons x ks)
  show ?case
  proof (cases "P x")
    case False
    then have "find P ks = Some k \<and> Suc n \<le> i \<and> i < Suc n + length ks \<and> ks ! (i - Suc n) = k"
      using Cons.IH [of "Suc n"] Cons.prems False by simp
    then show ?thesis using False by (auto simp: nth_Cons' Suc_diff_le)
  qed (use Cons.prems in auto)
qed simp

lemma find_enumerate_None: "find (\<lambda>(i, k). P k) (enumerate n ks) = None \<longleftrightarrow> find P ks = None"
  by (induction ks arbitrary: n) auto

section \<open>Construction and search together\<close>

lemma root_table:
  assumes "trie_inv ps ns es"
  shows "root_transitions es ns ! byte c = (case BuildTransition ns es 0 c of None \<Rightarrow> 0 | Some t \<Rightarrow> t)"
proof -
  have 0: "0 < length ns" using assms by (simp add: trie_inv_def)
  let ?out = "outgoing es (ns ! 0)"
  have unique: "b_target e = b_target d" if "e \<in> set ?out" "d \<in> set ?out" "b_label e = b_label d" for e d
    using that trie_inv_edge [OF assms 0, of "b_label d" "b_target e"] trie_inv_edge [OF assms 0, of "b_label d" "b_target d"]
      trie_inv_unique [OF assms] by metis
  have fold: "fold (\<lambda>e r. r[byte (b_label e) := b_target e]) xs r ! byte c =
      (case find (\<lambda>e. b_label e = c) xs of None \<Rightarrow> r ! byte c | Some e \<Rightarrow> b_target e)"
    if "length r = 256" "\<And>e d. e \<in> set xs \<Longrightarrow> d \<in> set xs \<Longrightarrow> b_label e = b_label d \<Longrightarrow> b_target e = b_target d" for xs r
    using that
  proof (induction xs arbitrary: r)
    case (Cons x xs)
    have IH: "fold (\<lambda>e r. r[byte (b_label e) := b_target e]) xs (r[byte (b_label x) := b_target x]) ! byte c =
        (case find (\<lambda>e. b_label e = c) xs of None \<Rightarrow> r[byte (b_label x) := b_target x] ! byte c | Some e \<Rightarrow> b_target e)"
    proof (rule Cons.IH)
      show "length (r[byte (b_label x) := b_target x]) = 256" using Cons.prems(1) by simp
      show "b_target e = b_target d" if "e \<in> set xs" "d \<in> set xs" "b_label e = b_label d" for e d
        using that Cons.prems(2) [of e d] by simp
    qed
    show ?case
    proof (cases "b_label x = c")
      case True
      show ?thesis
      proof (cases "find (\<lambda>e. b_label e = c) xs")
        case None
        then show ?thesis using IH True Cons.prems(1) byte_less_256 [of c] by simp
      next
        case (Some e)
        then have "e \<in> set xs" "b_label e = c" unfolding find_Some_iff by auto
        then have "b_target e = b_target x" using Cons.prems(2) [of e x] True by simp
        then show ?thesis using IH True Some by simp
      qed
    next
      case False
      then have "r[byte (b_label x) := b_target x] ! byte c = r ! byte c"
        by (intro nth_list_update_neq) simp
      then show ?thesis using IH False by (simp split: option.split)
    qed
  qed simp
  have "root_transitions es ns ! byte c =
      (case find (\<lambda>e. b_label e = c) ?out of None \<Rightarrow> replicate 256 0 ! byte c | Some e \<Rightarrow> b_target e)"
    unfolding root_transitions_def by (rule fold) (simp, rule unique)
  then show ?thesis using byte_less_256 [of c] 0 by (simp add: BuildTransition_def split: option.split)
qed

lemma ToLower_nonempty: "\<forall>s. s \<noteq> [] \<longrightarrow> ucase s \<noteq> [] \<Longrightarrow> k \<noteq> [] \<Longrightarrow> ToLower ucase k \<noteq> []"
  by (simp add: ToLower_def)

lemma patterns_nonempty:
  assumes "\<forall>s. s \<noteq> [] \<longrightarrow> ucase s \<noteq> []"
  shows "[] \<notin> snd ` set (patterns ucase ks)"
proof
  assume "[] \<in> snd ` set (patterns ucase ks)"
  then have "\<exists>k. k \<noteq> [] \<and> ToLower ucase k = []" unfolding patterns_def by force
  then obtain k where "k \<noteq> []" "ToLower ucase k = []" by blast
  then show False using ToLower_nonempty [OF assms] by blast
qed

lemma newKeywordMatcher_represents:
  assumes "\<forall>s. s \<noteq> [] \<longrightarrow> ucase s \<noteq> []" "newKeywordMatcher ucase ks = Some m"
  shows "\<exists>ps. represents (patterns ucase ks) ps m \<and> kw_list m = ks"
proof -
  let ?pats = "patterns ucase ks"
  obtain ns bs where t: "build_trie ucase ks = (ns, bs)" by fastforce
  obtain ps where inv: "trie_inv ps ns bs" and fr: "fresh_marks ?pats ps ns" and T: "set ps = pattern_prefixes ?pats"
    using build_trie_inv [of ucase ks] t by (auto simp: build_inv_def)
  have len: "length ps = length ns" using inv by (simp add: trie_inv_def)
  let ?ns = "link_trie (ns, bs)"
  have link: "trie_inv ps ?ns bs" "length ?ns = length ns" "\<forall>t < length ?ns. linked ?pats ps ?ns t"
  proof -
    have f: "fresh ?pats ps ns i" if "i < length ns" for i
      using fr len that by (simp add: fresh_marks_def fresh_def)
    show "trie_inv ps ?ns bs" "length ?ns = length ns" "\<forall>t < length ?ns. linked ?pats ps ?ns t"
      using link_trie_correct [OF inv T patterns_sorted f patterns_nonempty [OF assms(1)]] by simp_all
  qed
  obtain packed es where pk: "fold (pack_node bs) ?ns ([], []) = (packed, es)" by fastforce
  have own: "list_all2 (owns bs es) ?ns packed" using pack_fold [of bs "[]" "[]" "[]" ?ns] pk by simp
  have m: "m = \<lparr>nodes = packed, edges = es, rootTransitions = root_transitions bs ns, kw_list = ks\<rparr>"
    using assms(2) t pk by (auto simp: newKeywordMatcher_def split: if_splits)
  have 0: "0 < length ns" using inv by (auto simp: trie_inv_def)
  have "BuildTransition ?ns bs 0 c = BuildTransition ns bs 0 c" for c
  proof (cases "BuildTransition ns bs 0 c")
    case None
    then have "ps ! 0 @ [c] \<notin> set ps" using BuildTransition_None [OF inv 0] by blast
    then show ?thesis using None BuildTransition_None [OF link(1), of 0 c] 0 link(2) by simp
  next
    case (Some t)
    then have "t < length ns \<and> ps ! t = ps ! 0 @ [c]" using BuildTransition_Some [OF inv 0] by blast
    then show ?thesis using Some BuildTransition_Some [OF link(1), of 0 c t] 0 link(2) by simp
  qed
  then have "represents ?pats ps m"
    unfolding represents_def m using T link own root_table [OF inv]
    by (intro conjI exI [of _ ?ns] exI [of _ bs]) simp_all
  then show ?thesis by (auto simp: m)
qed

lemma newKeywordMatcher_None:
  assumes "\<forall>s. s \<noteq> [] \<longrightarrow> ucase s \<noteq> []" "newKeywordMatcher ucase ks = None"
  shows "patterns ucase ks = []"
proof (cases "ks = []")
  case False
  obtain ns bs where t: "build_trie ucase ks = (ns, bs)" by fastforce
  obtain ps where inv: "trie_inv ps ns bs" and T: "set ps = pattern_prefixes (patterns ucase ks)"
    using build_trie_inv [of ucase ks] t by (auto simp: build_inv_def)
  have "length ns = 1" using assms(2) False t by (auto simp: newKeywordMatcher_def split: if_splits prod.splits)
  then have "ps = [[]]" using inv by (auto simp: trie_inv_def length_Suc_conv)
  then have "k = []" if "(i, k) \<in> set (patterns ucase ks)" for i k
    using pattern_in [OF that] unfolding T [symmetric] by simp
  then show ?thesis using patterns_nonempty [OF assms(1), where ks = ks]
    by (cases "patterns ucase ks") force+
qed (simp add: patterns_def)

text \<open>C22. The keyword matcher of the content moderation returns what a search for the configured
  keywords one by one would return: the first keyword, in the order of the configuration, whose lower
  case occurs in the lower case of the text, skipping empty ones, and nothing when there is none.  The
  hypothesis is that the mapping of non-ASCII strings to lower case does not make a string empty.\<close>

theorem Match_first_keyword:
  assumes "\<forall>s. s \<noteq> [] \<longrightarrow> ucase s \<noteq> []"
  shows "Match ucase (newKeywordMatcher ucase ks) text =
    (case find (\<lambda>k. k \<noteq> [] \<and> Contains (ToLower ucase text) (ToLower ucase k)) ks of
       None \<Rightarrow> ([], False)
     | Some k \<Rightarrow> (k, True))"
proof -
  let ?P = "\<lambda>k. k \<noteq> [] \<and> Contains (ToLower ucase text) (ToLower ucase k)"
  let ?pats = "patterns ucase ks"
  have found: "case first_index (Contains (ToLower ucase text)) ?pats of
      None \<Rightarrow> find ?P ks = None | Some i \<Rightarrow> i < length ks \<and> find ?P ks = Some (ks ! i)"
    using find_enumerate [of ?P 0 ks] find_enumerate_None [of ?P 0 ks]
    by (auto simp: first_index_patterns split: option.split)
  show ?thesis
  proof (cases "newKeywordMatcher ucase ks")
    case None
    then show ?thesis using newKeywordMatcher_None [OF assms None] found by (simp add: Match_def)
  next
    case (Some m)
    then obtain ps where rep: "represents ?pats ps m" and ks: "kw_list m = ks"
      using newKeywordMatcher_represents [OF assms] by blast
    have ne: "[] \<notin> snd ` set ?pats" using patterns_nonempty [OF assms] by blast
    obtain ns bs where inv: "trie_inv ps ns bs" and own: "list_all2 (owns bs (edges m)) ns (nodes m)"
      using rep unfolding represents_def by blast
    have root: "0 < length (nodes m)" "ps ! 0 = []"
      using inv list_all2_lengthD [OF own] by (auto simp: trie_inv_def simp flip: length_greater_0_conv)
    have "first_index (Contains []) ?pats = None" using ne by (force simp: first_index_None)
    then have scan: "scan m 0 None (ToLower ucase text) = first_index (Contains (ToLower ucase text)) ?pats"
      using scan_correct [OF rep patterns_sorted ne, of 0 "[]" None "ToLower ucase text"] root by simp
    show ?thesis
    proof (cases "text = [] \<or> ks = []")
      case True
      have ne: "ToLower ucase k \<noteq> []" if "k \<noteq> []" for k by (rule ToLower_nonempty [OF assms that])
      have "find ?P ks = None" using True
      proof
        assume "text = []"
        then show ?thesis using ne by (auto simp: find_None_iff ToLower_ascii is_ascii_def)
      qed simp
      then show ?thesis using True Some ks by (auto simp: Match_def)
    next
      case False
      then show ?thesis using Some ks root(1) scan found by (auto simp: Match_def split: option.splits)
    qed
  qed
qed

text \<open>A text with two keywords, the later one of the configuration inside the earlier: the order of the
  configuration decides.\<close>

theorem Match_first_keyword_witness:
  "Match (\<lambda>s. s) (newKeywordMatcher (\<lambda>s. s) [''Bomb'', '''', ''om'', ''SHE'']) ''ushe bOmbs'' = (''Bomb'', True)"
proof -
  have "ToLower (\<lambda>s. s) ''ushe bOmbs'' = ''ushe bombs''" "ToLower (\<lambda>s. s) ''Bomb'' = ''bomb''" by code_simp+
  then show ?thesis by (subst Match_first_keyword) simp_all
qed

end
