(* ===== verification/Keyed_Registry.thy ===== *)
theory Keyed_Registry
  imports Go_Prelude
begin

text \<open>
  In-process tables of bounded size, one entry per key, as several circuit breakers of the gateway keep
  them: a new key makes room first, evicting the entry that was touched least recently.  A step is a
  call on the table; \<open>run_steps\<close> is a history of calls.  The locale \<open>keyed_table\<close> states what such a
  table promises; what follows from it is that the calls for one key see only each other as long as
  the keys in use fit in the table.

  Go ranges over a map in an order of its own choosing: \<open>visit\<close> permutes the entries for one loop.
\<close>

type_synonym ('k, 'e) registry = "('k \<times> 'e) list"
type_synonym ('k, 'e) visit = "('k, 'e) registry \<Rightarrow> ('k, 'e) registry"

definition permutes_entries :: "('k, 'e) visit \<Rightarrow> bool" where
  "permutes_entries visit \<longleftrightarrow> (\<forall>es. mset (visit es) = mset es)"

lemma permutes_entries_id [simp]: "permutes_entries (\<lambda>es. es)" "permutes_entries rev"
  by (simp_all add: permutes_entries_def)

lemma visit_set: "permutes_entries visit \<Longrightarrow> set (visit es) = set es"
  by (metis permutes_entries_def set_mset_mset)

section \<open>The least recently touched entry\<close>

fun oldest_scan :: "('e \<Rightarrow> gtime) \<Rightarrow> ('k \<times> gtime) option \<Rightarrow> ('k, 'e) registry \<Rightarrow> ('k \<times> gtime) option" where
  "oldest_scan touched best [] = best"
| "oldest_scan touched best ((k, e) # es) =
     oldest_scan touched
       (case best of None \<Rightarrow> Some (k, touched e) | Some (b, t) \<Rightarrow> if touched e < t then Some (k, touched e) else best) es"

lemma oldest_scan_in:
  "oldest_scan touched best es = Some (k, t) \<Longrightarrow> best = Some (k, t) \<or> (\<exists>e. (k, e) \<in> set es \<and> t = touched e)"
  by (induction touched best es rule: oldest_scan.induct) (force split: option.splits if_splits)+

lemma oldest_scan_None: "oldest_scan touched best es = None \<longleftrightarrow> best = None \<and> es = []"
  by (induction touched best es rule: oldest_scan.induct) (auto split: option.splits)

lemma oldest_scan_min:
  "oldest_scan touched best es = Some (k, t) \<Longrightarrow>
    (\<forall>x \<in> set es. t \<le> touched (snd x)) \<and> (case best of None \<Rightarrow> True | Some (b, u) \<Rightarrow> t \<le> u)"
  by (induction touched best es rule: oldest_scan.induct) (fastforce split: option.splits if_splits)+

definition evict_oldest :: "('e \<Rightarrow> gtime) \<Rightarrow> ('k, 'e) visit \<Rightarrow> ('k, 'e) registry \<Rightarrow> ('k, 'e) registry" where
  "evict_oldest touched visit es =
     (case oldest_scan touched None (visit es) of None \<Rightarrow> es | Some (k, t) \<Rightarrow> AList.delete k es)"

lemma length_delete_in: "k \<in> fst ` set es \<Longrightarrow> length (AList.delete k es) < length es"
  by (induction es) (auto simp: le_imp_less_Suc AList.length_delete_le)

lemma evict_oldest_shorter:
  assumes "permutes_entries visit" "es \<noteq> []"
  shows "length (evict_oldest touched visit es) < length es"
proof -
  have "visit es \<noteq> []" using assms by (metis mset_zero_iff permutes_entries_def)
  then obtain k t where o: "oldest_scan touched None (visit es) = Some (k, t)"
    by (cases "oldest_scan touched None (visit es)") (auto simp: oldest_scan_None)
  then have "k \<in> fst ` set es" using oldest_scan_in [OF o] visit_set [OF assms(1)] by force
  then show ?thesis using o by (simp add: evict_oldest_def length_delete_in)
qed

lemma evict_oldest_length: "length (evict_oldest touched visit es) \<le> length es"
  by (simp add: evict_oldest_def AList.length_delete_le split: option.split)

lemma evict_oldest_distinct: "distinct (map fst es) \<Longrightarrow> distinct (map fst (evict_oldest touched visit es))"
  by (simp add: evict_oldest_def AList.distinct_delete split: option.split)

lemma evict_oldest_set: "set (evict_oldest touched visit es) \<subseteq> set es"
  by (auto simp: evict_oldest_def AList.delete_eq split: option.splits)

text \<open>Evicting never brings a key back.\<close>

lemma evict_oldest_None: "map_of es k = None \<Longrightarrow> map_of (evict_oldest touched visit es) k = None"
  using evict_oldest_set [of touched visit es] by (auto simp: map_of_eq_None_iff)

lemma length_update: "length (AList.update k v es) = (if k \<in> fst ` set es then length es else Suc (length es))"
  by (induction es) auto

lemma set_update_subset: "set (AList.update k v es) \<subseteq> insert (k, v) (set es)"
  by (induction es) auto

lemma set_delete_subset: "set (AList.delete k es) \<subseteq> set es"
  by (auto simp: AList.delete_eq)

lemma map_of_Some_key: "map_of es k = Some e \<Longrightarrow> k \<in> fst ` set es"
  by (force dest: map_of_SomeD)

lemma delete_absent: "map_of es k = None \<Longrightarrow> AList.delete k es = es"
  by (simp add: map_of_eq_None_iff)

lemma int_length_delete: "int (length es) \<le> m \<Longrightarrow> int (length (AList.delete k es)) \<le> m"
  using AList.length_delete_le [of k es] by linarith

section \<open>Histories\<close>

fun run_steps :: "('ev \<Rightarrow> 's \<Rightarrow> 'out \<times> 's) \<Rightarrow> 'ev list \<Rightarrow> 's \<Rightarrow> 'out list \<times> 's" where
  "run_steps step [] s = ([], s)"
| "run_steps step (ev # evs) s =
     (let (out, s) = step ev s; (outs, s) = run_steps step evs s in (out # outs, s))"

lemma run_steps_Cons:
  "run_steps step (ev # evs) s =
     (fst (step ev s) # fst (run_steps step evs (snd (step ev s))), snd (run_steps step evs (snd (step ev s))))"
  by (simp add: case_prod_beta Let_def)

lemma run_steps_append:
  "snd (run_steps step (evs @ evs') s) = snd (run_steps step evs' (snd (run_steps step evs s)))"
  by (induction evs arbitrary: s) (simp_all add: run_steps_Cons del: run_steps.simps(2))

lemma run_steps_outputs_append:
  "fst (run_steps step (evs @ evs') s) = fst (run_steps step evs s) @ fst (run_steps step evs' (snd (run_steps step evs s)))"
  by (induction evs arbitrary: s) (simp_all add: run_steps_Cons del: run_steps.simps(2))

text \<open>The outputs of the events for one key.\<close>

fun outputs_for :: "('ev \<Rightarrow> 'k) \<Rightarrow> 'k \<Rightarrow> 'ev list \<Rightarrow> 'out list \<Rightarrow> 'out list" where
  "outputs_for key k (ev # evs) (out # outs) =
     (if key ev = k then out # outputs_for key k evs outs else outputs_for key k evs outs)"
| "outputs_for key k _ _ = []"

locale keyed_table =
  fixes step :: "'ev \<Rightarrow> ('k, 'e) registry \<Rightarrow> 'out \<times> ('k, 'e) registry"
    and key :: "'ev \<Rightarrow> 'k"
    and legal :: "'ev \<Rightarrow> bool"
    and inv :: "('k, 'e) registry \<Rightarrow> bool"
    and capacity :: nat
  assumes inv_distinct: "inv es \<Longrightarrow> distinct (map fst es)"
    and inv_fits: "inv es \<Longrightarrow> length es \<le> capacity"
    and inv_step: "inv es \<Longrightarrow> legal ev \<Longrightarrow> inv (snd (step ev es))"
    and keys_step: "fst ` set (snd (step ev es)) \<subseteq> insert (key ev) (fst ` set es)"
    and own_entry: "map_of es (key ev) = map_of es' (key ev) \<Longrightarrow>
      fst (step ev es) = fst (step ev es') \<and> map_of (snd (step ev es)) (key ev) = map_of (snd (step ev es')) (key ev)"
    and other_entry: "inv es \<Longrightarrow> length es < capacity \<or> key ev \<in> fst ` set es \<Longrightarrow> k \<noteq> key ev \<Longrightarrow>
      map_of (snd (step ev es)) k = map_of es k"
begin

lemma inv_run: "inv es \<Longrightarrow> list_all legal evs \<Longrightarrow> inv (snd (run_steps step evs es))"
  by (induction evs arbitrary: es) (simp_all add: run_steps_Cons inv_step del: run_steps.simps(2))

lemma run_fits: "inv es \<Longrightarrow> list_all legal evs \<Longrightarrow> length (snd (run_steps step evs es)) \<le> capacity"
  by (intro inv_fits inv_run)

text \<open>A table that can hold all the keys in use leaves the other entries alone.\<close>

lemma room_for_key:
  assumes "inv es" "card (fst ` set es \<union> K) \<le> capacity" "finite K" "key ev \<in> K"
  shows "length es < capacity \<or> key ev \<in> fst ` set es"
proof (rule disjCI)
  assume out: "key ev \<notin> fst ` set es"
  have "length es = card (fst ` set es)" using inv_distinct [OF assms(1)] by (metis distinct_card length_map set_map)
  also have "\<dots> < card (fst ` set es \<union> K)" using out assms(3,4) by (intro psubset_card_mono) auto
  finally show "length es < capacity" using assms(2) by simp
qed

theorem isolated:
  assumes "inv es" "list_all legal evs" "card (fst ` set es \<union> key ` set evs) \<le> capacity" "map_of es k = map_of es' k"
  shows "outputs_for key k evs (fst (run_steps step evs es)) = fst (run_steps step (filter (\<lambda>ev. key ev = k) evs) es') \<and>
    map_of (snd (run_steps step evs es)) k = map_of (snd (run_steps step (filter (\<lambda>ev. key ev = k) evs) es')) k"
  using assms
proof (induction evs arbitrary: es es')
  case (Cons ev evs)
  let ?es = "snd (step ev es)"
  have inv: "inv ?es" "list_all legal evs" using Cons.prems inv_step by simp_all
  have sub: "fst ` set ?es \<union> key ` set evs \<subseteq> fst ` set es \<union> key ` set (ev # evs)"
    using keys_step [of ev es] by auto
  then have "card (fst ` set ?es \<union> key ` set evs) \<le> card (fst ` set es \<union> key ` set (ev # evs))"
    by (intro card_mono) simp_all
  then have fits: "card (fst ` set ?es \<union> key ` set evs) \<le> capacity" using Cons.prems(3) by linarith
  show ?case
  proof (cases "key ev = k")
    case True
    have own: "fst (step ev es) = fst (step ev es')" "map_of ?es k = map_of (snd (step ev es')) k"
      using own_entry [of es ev es'] Cons.prems(4) True by simp_all
    show ?thesis
      using Cons.IH [OF inv fits own(2)] own(1) True by (simp add: run_steps_Cons del: run_steps.simps(2))
  next
    case False
    have "map_of ?es k = map_of es' k"
      using other_entry [OF Cons.prems(1) room_for_key [OF Cons.prems(1,3)]] Cons.prems(4) False by simp
    then show ?thesis
      using Cons.IH [OF inv fits] False by (simp add: run_steps_Cons del: run_steps.simps(2))
  qed
qed simp

end

end
