(* ===== verification/Proxy_Circuit.thy ===== *)
theory Proxy_Circuit
  imports Account_Model Keyed_Registry
begin

text \<open>
  The circuit breaker for upstream proxies (\<^verbatim>\<open>service/openai_proxy_stream_circuit.go\<close>): streams that
  break off are counted per proxy in a window, failures close together count once, and a proxy with
  enough of them is quarantined for a while.  The table of proxies is bounded.

  The mutex makes each call atomic, so a call is a function on the table.  The warnings and the
  atomic variable that limits their rate are the argument and result of the logging function.
\<close>

section \<open>Settings\<close>

record circuit_settings =
  circuit_disabled :: bool
  failureThreshold :: int
  failureWindow :: duration
  quarantineTTL :: duration
  collapseInterval :: duration
  maxEntries :: int

record circuit_config =
  cfgDisabled :: bool
  cfgFailureThreshold :: int
  cfgWindowSeconds :: int
  cfgTTLSeconds :: int

definition defaultOpenAIProxyStreamFailureThreshold :: int where
  "defaultOpenAIProxyStreamFailureThreshold = 2"
definition defaultOpenAIProxyStreamFailureWindow :: duration where
  "defaultOpenAIProxyStreamFailureWindow = minute"
definition defaultOpenAIProxyStreamQuarantineTTL :: duration where
  "defaultOpenAIProxyStreamQuarantineTTL = 10 * minute"
definition defaultOpenAIProxyStreamCircuitMaxEntries :: int where
  "defaultOpenAIProxyStreamCircuitMaxEntries = 4096"
definition defaultOpenAIProxyStreamFailureCollapse :: duration where
  "defaultOpenAIProxyStreamFailureCollapse = 3 * second"
definition openAIProxyStreamFailOpenLogInterval :: duration where
  "openAIProxyStreamFailOpenLogInterval = 5 * second"

lemmas circuit_defaults =
  defaultOpenAIProxyStreamFailureThreshold_def defaultOpenAIProxyStreamFailureWindow_def
  defaultOpenAIProxyStreamQuarantineTTL_def defaultOpenAIProxyStreamCircuitMaxEntries_def
  defaultOpenAIProxyStreamFailureCollapse_def

definition resolveOpenAIProxyStreamCircuitSettings :: "circuit_config option \<Rightarrow> circuit_settings" where
  "resolveOpenAIProxyStreamCircuitSettings cfg =
     (let settings = \<lparr>circuit_disabled = False,
            failureThreshold = defaultOpenAIProxyStreamFailureThreshold,
            failureWindow = defaultOpenAIProxyStreamFailureWindow,
            quarantineTTL = defaultOpenAIProxyStreamQuarantineTTL,
            collapseInterval = defaultOpenAIProxyStreamFailureCollapse,
            maxEntries = defaultOpenAIProxyStreamCircuitMaxEntries\<rparr>
      in case cfg of
           None \<Rightarrow> settings
         | Some cfg \<Rightarrow>
             let settings = settings\<lparr>circuit_disabled := cfgDisabled cfg\<rparr>;
                 settings = (if 0 < cfgFailureThreshold cfg then settings\<lparr>failureThreshold := cfgFailureThreshold cfg\<rparr> else settings);
                 settings = (if 0 < cfgWindowSeconds cfg then settings\<lparr>failureWindow := wrap64 (cfgWindowSeconds cfg * second)\<rparr> else settings)
             in if 0 < cfgTTLSeconds cfg then settings\<lparr>quarantineTTL := wrap64 (cfgTTLSeconds cfg * second)\<rparr> else settings)"

definition newOpenAIProxyStreamCircuit :: "circuit_settings \<Rightarrow> circuit_settings" where
  "newOpenAIProxyStreamCircuit settings =
     (let settings = (if failureThreshold settings \<le> 0 then settings\<lparr>failureThreshold := defaultOpenAIProxyStreamFailureThreshold\<rparr> else settings);
          settings = (if failureWindow settings \<le> 0 then settings\<lparr>failureWindow := defaultOpenAIProxyStreamFailureWindow\<rparr> else settings);
          settings = (if quarantineTTL settings \<le> 0 then settings\<lparr>quarantineTTL := defaultOpenAIProxyStreamQuarantineTTL\<rparr> else settings);
          settings = (if maxEntries settings \<le> 0 then settings\<lparr>maxEntries := defaultOpenAIProxyStreamCircuitMaxEntries\<rparr> else settings)
      in if collapseInterval settings < 0 then settings\<lparr>collapseInterval := 0\<rparr> else settings)"

section \<open>The table of proxies\<close>

record circuit_entry =
  failureCount :: int
  windowStart :: gtime
  lastFailureAt :: gtime
  blockedUntil :: gtime
  lastTouched :: gtime

definition zero_entry :: circuit_entry where
  "zero_entry = \<lparr>failureCount = 0, windowStart = zero_time, lastFailureAt = zero_time,
     blockedUntil = zero_time, lastTouched = zero_time\<rparr>"

type_synonym circuit = "(int64, circuit_entry) registry"

text \<open>The scan for the oldest entry; the proxy id \<open>0\<close> stands for none yet.\<close>

fun oldest_proxy :: "int64 \<Rightarrow> gtime \<Rightarrow> circuit \<Rightarrow> int64" where
  "oldest_proxy oldestProxyID oldest [] = oldestProxyID"
| "oldest_proxy oldestProxyID oldest ((proxyID, entry) # es) =
     (if oldestProxyID = 0 \<or> lastTouched entry < oldest
      then oldest_proxy proxyID (lastTouched entry) es
      else oldest_proxy oldestProxyID oldest es)"

definition stale_proxy :: "circuit_settings \<Rightarrow> gtime \<Rightarrow> circuit_entry \<Rightarrow> bool" where
  "stale_proxy c now entry \<longleftrightarrow>
     (IsZero (blockedUntil entry) \<and> failureWindow c < time_sub now (lastTouched entry)) \<or>
     (\<not> IsZero (blockedUntil entry) \<and> \<not> now < blockedUntil entry)"

definition ensureCapacityLocked :: "circuit_settings \<Rightarrow> (int64, circuit_entry) visit \<Rightarrow> gtime \<Rightarrow> circuit \<Rightarrow> circuit" where
  "ensureCapacityLocked c visit now entries =
     (if int (length entries) < maxEntries c then entries
      else
        let entries = filter (\<lambda>(proxyID, entry). \<not> stale_proxy c now entry) entries in
        if int (length entries) < maxEntries c then entries
        else
          let oldestProxyID = oldest_proxy 0 zero_time (visit entries) in
          if 0 < oldestProxyID then AList.delete oldestProxyID entries else entries)"

definition recordFailure :: "circuit_settings \<Rightarrow> (int64, circuit_entry) visit \<Rightarrow> int64 \<Rightarrow> gtime \<Rightarrow> circuit \<Rightarrow>
    (bool \<times> gtime) \<times> circuit" where
  "recordFailure c visit proxyID now entries =
     (if circuit_disabled c \<or> proxyID \<le> 0 then ((False, zero_time), entries)
      else
        let entry = (case map_of entries proxyID of None \<Rightarrow> zero_entry | Some e \<Rightarrow> e);
            found = (map_of entries proxyID \<noteq> None)
        in
        if found \<and> now < blockedUntil entry
        then ((False, blockedUntil entry), AList.update proxyID (entry\<lparr>lastTouched := now\<rparr>) entries)
        else
          let entries = (if \<not> found then ensureCapacityLocked c visit now entries else entries);
              entry = (if IsZero (windowStart entry) \<or> now < windowStart entry \<or> failureWindow c < time_sub now (windowStart entry)
                       then entry\<lparr>failureCount := 0, windowStart := now, blockedUntil := zero_time\<rparr> else entry)
          in
          if 0 < collapseInterval c \<and> \<not> IsZero (lastFailureAt entry) \<and>
             0 \<le> time_sub now (lastFailureAt entry) \<and> time_sub now (lastFailureAt entry) < collapseInterval c
          then ((False, zero_time), AList.update proxyID (entry\<lparr>lastTouched := now\<rparr>) entries)
          else
            let entry = entry\<lparr>failureCount := failureCount entry + 1, lastFailureAt := now, lastTouched := now\<rparr>;
                tripped = (failureThreshold c \<le> failureCount entry);
                entry = (if tripped then entry\<lparr>blockedUntil := now + quarantineTTL c\<rparr> else entry)
            in ((tripped, blockedUntil entry), AList.update proxyID entry entries))"

definition recordSuccess :: "int64 \<Rightarrow> circuit \<Rightarrow> bool \<times> circuit" where
  "recordSuccess proxyID entries =
     (if proxyID \<le> 0 then (False, entries)
      else if map_of entries proxyID = None then (False, entries)
      else (True, AList.delete proxyID entries))"

definition isBlocked :: "circuit_settings \<Rightarrow> int64 \<Rightarrow> gtime \<Rightarrow> circuit \<Rightarrow> bool \<times> circuit" where
  "isBlocked c proxyID now entries =
     (if circuit_disabled c \<or> proxyID \<le> 0 then (False, entries)
      else case map_of entries proxyID of
        None \<Rightarrow> (False, entries)
      | Some entry \<Rightarrow>
          if IsZero (blockedUntil entry) then (False, entries)
          else if \<not> now < blockedUntil entry then (False, AList.delete proxyID entries)
          else (True, entries))"

definition activeBlockCount :: "circuit_settings \<Rightarrow> gtime \<Rightarrow> circuit \<Rightarrow> nat" where
  "activeBlockCount c now entries =
     (if circuit_disabled c then 0
      else length (filter (\<lambda>(proxyID, entry). \<not> IsZero (blockedUntil entry) \<and> now < blockedUntil entry) entries))"

section \<open>The gateway's calls\<close>

text \<open>What \<^verbatim>\<open>errors.Is\<close> says of a stream error.\<close>

datatype stream_error = NoStreamError | StreamCanceled | StreamDeadlineExceeded | StreamFailed

definition openAIProxyStreamCircuitProxyID :: "'y Account_scheme \<Rightarrow> int64 option" where
  "openAIProxyStreamCircuitProxyID account =
     (if Platform account \<noteq> PlatformOpenAI then None
      else case ProxyID account of None \<Rightarrow> None | Some p \<Rightarrow> if p \<le> 0 then None else Some p)"

text \<open>The result says whether the warning is written.\<close>

definition recordOpenAIProxyStreamDisconnect :: "circuit_settings \<Rightarrow> (int64, circuit_entry) visit \<Rightarrow> 'y Account_scheme \<Rightarrow>
    stream_error \<Rightarrow> gtime \<Rightarrow> circuit \<Rightarrow> bool \<times> circuit" where
  "recordOpenAIProxyStreamDisconnect c visit account streamErr now entries =
     (case openAIProxyStreamCircuitProxyID account of
        None \<Rightarrow> (False, entries)
      | Some proxyID \<Rightarrow>
          if streamErr \<in> {NoStreamError, StreamCanceled, StreamDeadlineExceeded} then (False, entries)
          else case recordFailure c visit proxyID now entries of ((tripped, _), entries) \<Rightarrow> (tripped, entries))"

definition clearOpenAIProxyStreamDisconnect :: "'y Account_scheme \<Rightarrow> circuit \<Rightarrow> circuit" where
  "clearOpenAIProxyStreamDisconnect account entries =
     (case openAIProxyStreamCircuitProxyID account of
        None \<Rightarrow> entries
      | Some proxyID \<Rightarrow> snd (recordSuccess proxyID entries))"

definition isOpenAIProxyStreamQuarantined :: "circuit_settings \<Rightarrow> bool \<Rightarrow> 'y Account_scheme \<Rightarrow> gtime \<Rightarrow> circuit \<Rightarrow> bool \<times> circuit" where
  "isOpenAIProxyStreamQuarantined c bypassed account now entries =
     (case openAIProxyStreamCircuitProxyID account of
        None \<Rightarrow> (False, entries)
      | Some proxyID \<Rightarrow> if bypassed then (False, entries) else isBlocked c proxyID now entries)"

text \<open>The limit on the rate of the fail-open warning: the time of the last one and the new one.\<close>

definition logOpenAIProxyStreamQuarantineFailOpen :: "int64 \<Rightarrow> int64 \<Rightarrow> bool \<times> int64" where
  "logOpenAIProxyStreamQuarantineFailOpen now lastLog =
     (if wrap64 (now - lastLog) < openAIProxyStreamFailOpenLogInterval then (False, lastLog) else (True, now))"

section \<open>Calls as events\<close>

datatype circuit_event =
    RecordFailure "(int64, circuit_entry) visit" int64 gtime
  | RecordSuccess int64
  | IsBlocked int64 gtime

datatype circuit_answer = Tripped bool gtime | Cleared bool | Blocked bool

fun circuit_step :: "circuit_settings \<Rightarrow> circuit_event \<Rightarrow> circuit \<Rightarrow> circuit_answer \<times> circuit" where
  "circuit_step c (RecordFailure visit p now) es = (case recordFailure c visit p now es of ((t, u), es) \<Rightarrow> (Tripped t u, es))"
| "circuit_step c (RecordSuccess p) es = (case recordSuccess p es of (b, es) \<Rightarrow> (Cleared b, es))"
| "circuit_step c (IsBlocked p now) es = (case isBlocked c p now es of (b, es) \<Rightarrow> (Blocked b, es))"

fun circuit_key :: "circuit_event \<Rightarrow> int64" where
  "circuit_key (RecordFailure visit p now) = p"
| "circuit_key (RecordSuccess p) = p"
| "circuit_key (IsBlocked p now) = p"

fun circuit_legal :: "circuit_event \<Rightarrow> bool" where
  "circuit_legal (RecordFailure visit p now) = permutes_entries visit"
| "circuit_legal _ = True"

section \<open>Making room\<close>

lemma oldest_proxy_in: "oldest_proxy p t es \<in> insert p (fst ` set es)"
  by (induction p t es rule: oldest_proxy.induct) auto

lemma oldest_proxy_pos:
  "\<forall>x \<in> set es. 0 < fst x \<Longrightarrow> 0 \<le> p \<Longrightarrow> es \<noteq> [] \<or> 0 < p \<Longrightarrow> 0 < oldest_proxy p t es"
  by (induction p t es rule: oldest_proxy.induct) auto

lemma ensureCapacity_subset: "set (ensureCapacityLocked c visit now es) \<subseteq> set es"
  by (auto simp: ensureCapacityLocked_def Let_def AList.delete_eq)

lemma ensureCapacity_distinct:
  "distinct (map fst es) \<Longrightarrow> distinct (map fst (ensureCapacityLocked c visit now es))"
  by (auto simp: ensureCapacityLocked_def Let_def AList.distinct_delete distinct_map_filter)

lemma ensureCapacity_room:
  assumes "\<forall>x \<in> set es. 0 < fst x" "permutes_entries visit" "int (length es) \<le> maxEntries c" "0 < maxEntries c"
  shows "int (length (ensureCapacityLocked c visit now es)) < maxEntries c"
proof -
  let ?es = "filter (\<lambda>(proxyID, entry). \<not> stale_proxy c now entry) es"
  let ?p = "oldest_proxy 0 zero_time (visit ?es)"
  have le: "length ?es \<le> length es" by simp
  show ?thesis
  proof (cases "int (length ?es) < maxEntries c")
    case True
    then show ?thesis by (simp add: ensureCapacityLocked_def Let_def)
  next
    case False
    then have "?es \<noteq> []" using assms(4) by auto
    then have "visit ?es \<noteq> []" using assms(2) by (metis mset_zero_iff permutes_entries_def)
    moreover have pos: "\<forall>x \<in> set (visit ?es). 0 < fst x" using assms(1) visit_set [OF assms(2)] by auto
    ultimately have p: "0 < ?p" by (simp add: oldest_proxy_pos)
    then have "?p \<in> fst ` set ?es" using oldest_proxy_in [of 0 zero_time "visit ?es"] visit_set [OF assms(2)] by auto
    then have "length (AList.delete ?p ?es) < length ?es" by (rule length_delete_in)
    then have "int (length (AList.delete ?p ?es)) < maxEntries c" using le assms(3) by linarith
    then show ?thesis using False p le assms(3) by (auto simp: ensureCapacityLocked_def Let_def)
  qed
qed

lemma ensureCapacity_idle: "int (length es) < maxEntries c \<Longrightarrow> ensureCapacityLocked c visit now es = es"
  by (simp add: ensureCapacityLocked_def)

lemma ensureCapacity_None: "map_of es p = None \<Longrightarrow> map_of (ensureCapacityLocked c visit now es) p = None"
  using ensureCapacity_subset [of c visit now es] by (auto simp: map_of_eq_None_iff)

section \<open>The invariant\<close>

definition entry_ok :: "circuit_settings \<Rightarrow> circuit_entry \<Rightarrow> bool" where
  "entry_ok c e \<longleftrightarrow> 0 \<le> failureCount e \<and> (IsZero (blockedUntil e) \<or> failureThreshold c \<le> failureCount e)"

definition circuit_inv :: "circuit_settings \<Rightarrow> circuit \<Rightarrow> bool" where
  "circuit_inv c es \<longleftrightarrow> distinct (map fst es) \<and> int (length es) \<le> maxEntries c \<and>
     (\<forall>x \<in> set es. 0 < fst x \<and> entry_ok c (snd x))"

lemma circuit_inv_Nil: "0 < maxEntries c \<Longrightarrow> circuit_inv c []"
  by (simp add: circuit_inv_def)

lemma circuit_inv_delete: "circuit_inv c es \<Longrightarrow> circuit_inv c (AList.delete p es)"
  using AList.length_delete_le [of p es] set_delete_subset [of p es]
  by (auto simp: circuit_inv_def AList.distinct_delete)

lemma circuit_inv_update:
  assumes "circuit_inv c es" "0 < p" "entry_ok c e" "p \<in> fst ` set es \<or> int (length es) < maxEntries c"
  shows "circuit_inv c (AList.update p e es)"
  using assms set_update_subset [of p e es]
  by (auto simp: circuit_inv_def AList.distinct_update length_update)

lemma circuit_inv_ensure:
  assumes "circuit_inv c es" "permutes_entries visit" "0 < maxEntries c"
  shows "circuit_inv c (ensureCapacityLocked c visit now es)" "int (length (ensureCapacityLocked c visit now es)) < maxEntries c"
proof -
  show room: "int (length (ensureCapacityLocked c visit now es)) < maxEntries c"
    using assms ensureCapacity_room by (auto simp: circuit_inv_def)
  show "circuit_inv c (ensureCapacityLocked c visit now es)"
    using assms room ensureCapacity_subset [of c visit now es] ensureCapacity_distinct
    by (auto simp: circuit_inv_def)
qed

text \<open>The entry that \<open>recordFailure\<close> writes, and its answer, from the old entry alone.\<close>

definition next_entry :: "circuit_settings \<Rightarrow> gtime \<Rightarrow> circuit_entry option \<Rightarrow> (bool \<times> gtime) \<times> circuit_entry" where
  "next_entry c now old =
     (let entry = (case old of None \<Rightarrow> zero_entry | Some e \<Rightarrow> e) in
      if old \<noteq> None \<and> now < blockedUntil entry then ((False, blockedUntil entry), entry\<lparr>lastTouched := now\<rparr>)
      else
        let entry = (if IsZero (windowStart entry) \<or> now < windowStart entry \<or> failureWindow c < time_sub now (windowStart entry)
                     then entry\<lparr>failureCount := 0, windowStart := now, blockedUntil := zero_time\<rparr> else entry) in
        if 0 < collapseInterval c \<and> \<not> IsZero (lastFailureAt entry) \<and>
           0 \<le> time_sub now (lastFailureAt entry) \<and> time_sub now (lastFailureAt entry) < collapseInterval c
        then ((False, zero_time), entry\<lparr>lastTouched := now\<rparr>)
        else
          let entry = entry\<lparr>failureCount := failureCount entry + 1, lastFailureAt := now, lastTouched := now\<rparr>;
              tripped = (failureThreshold c \<le> failureCount entry);
              entry = (if tripped then entry\<lparr>blockedUntil := now + quarantineTTL c\<rparr> else entry)
          in ((tripped, blockedUntil entry), entry))"

lemma recordFailure_eq:
  assumes "\<not> circuit_disabled c" "0 < p"
  shows "recordFailure c visit p now es =
    (fst (next_entry c now (map_of es p)),
     AList.update p (snd (next_entry c now (map_of es p)))
       (if map_of es p = None then ensureCapacityLocked c visit now es else es))"
proof (cases "map_of es p")
  case None
  then show ?thesis using assms
    by (simp add: recordFailure_def next_entry_def Let_def split: if_split)
next
  case (Some e)
  then show ?thesis using assms
    by (simp add: recordFailure_def next_entry_def Let_def split: if_split)
qed

lemma entry_ok_next:
  assumes "case old of None \<Rightarrow> True | Some e \<Rightarrow> entry_ok c e"
  shows "entry_ok c (snd (next_entry c now old))"
  using assms by (cases old) (auto simp: next_entry_def entry_ok_def zero_entry_def Let_def)

lemma recordFailure_off: "circuit_disabled c \<or> p \<le> 0 \<Longrightarrow> recordFailure c visit p now es = ((False, zero_time), es)"
  by (auto simp: recordFailure_def)

lemma circuit_step_failure:
  assumes "\<not> (circuit_disabled c \<or> p \<le> 0)"
  shows "circuit_step c (RecordFailure visit p now) es =
    (Tripped (fst (fst (next_entry c now (map_of es p)))) (snd (fst (next_entry c now (map_of es p)))),
     AList.update p (snd (next_entry c now (map_of es p)))
       (if map_of es p = None then ensureCapacityLocked c visit now es else es))"
  using assms by (simp add: recordFailure_eq case_prod_beta)

lemma circuit_inv_step:
  assumes "circuit_inv c es" "circuit_legal ev" "0 < maxEntries c"
  shows "circuit_inv c (snd (circuit_step c ev es))"
proof (cases ev)
  case (RecordFailure visit p now)
  show ?thesis
  proof (cases "circuit_disabled c \<or> p \<le> 0")
    case True
    then show ?thesis using assms(1) by (simp add: RecordFailure recordFailure_off)
  next
    case on: False
    have vis: "permutes_entries visit" using assms(2) by (simp add: RecordFailure)
    have ok: "case map_of es p of None \<Rightarrow> True | Some e \<Rightarrow> entry_ok c e"
      using assms(1) by (auto simp: circuit_inv_def dest: map_of_SomeD split: option.split)
    let ?es = "if map_of es p = None then ensureCapacityLocked c visit now es else es"
    have "circuit_inv c ?es" using circuit_inv_ensure(1) [OF assms(1) vis assms(3)] assms(1) by simp
    moreover have "p \<in> fst ` set ?es \<or> int (length ?es) < maxEntries c"
      using circuit_inv_ensure(2) [OF assms(1) vis assms(3)] by (auto simp: map_of_eq_None_iff)
    ultimately have "circuit_inv c (AList.update p (snd (next_entry c now (map_of es p))) ?es)"
      using circuit_inv_update on entry_ok_next [OF ok] by (meson not_le)
    then show ?thesis using on by (simp add: RecordFailure circuit_step_failure del: circuit_step.simps(1))
  qed
next
  case (RecordSuccess p)
  then show ?thesis using assms(1) circuit_inv_delete by (simp add: recordSuccess_def)
next
  case (IsBlocked p now)
  then show ?thesis using assms(1) circuit_inv_delete by (simp add: isBlocked_def split: option.split)
qed

lemma circuit_keys_step: "fst ` set (snd (circuit_step c ev es)) \<subseteq> insert (circuit_key ev) (fst ` set es)"
proof (cases ev)
  case (RecordFailure visit p now)
  show ?thesis
  proof (cases "circuit_disabled c \<or> p \<le> 0")
    case True
    then show ?thesis by (auto simp: RecordFailure recordFailure_off)
  next
    case False
    then show ?thesis using ensureCapacity_subset [of c visit now es]
      by (auto simp: RecordFailure circuit_step_failure AList.dom_update simp del: circuit_step.simps(1))
  qed
next
  case (RecordSuccess p)
  then show ?thesis using set_delete_subset [of p es] by (auto simp: recordSuccess_def)
next
  case (IsBlocked p now)
  then show ?thesis using set_delete_subset [of p es] by (auto simp: isBlocked_def split: option.split)
qed

lemma circuit_own_entry:
  assumes "map_of es (circuit_key ev) = map_of es' (circuit_key ev)"
  shows "fst (circuit_step c ev es) = fst (circuit_step c ev es') \<and>
    map_of (snd (circuit_step c ev es)) (circuit_key ev) = map_of (snd (circuit_step c ev es')) (circuit_key ev)"
proof (cases ev)
  case (RecordFailure visit p now)
  show ?thesis
  proof (cases "circuit_disabled c \<or> p \<le> 0")
    case True
    then show ?thesis using assms by (simp add: RecordFailure recordFailure_off)
  next
    case False
    then show ?thesis using assms
      by (simp add: RecordFailure circuit_step_failure AList.update_conv' del: circuit_step.simps(1))
  qed
next
  case (RecordSuccess p)
  then show ?thesis using assms by (simp add: recordSuccess_def AList.delete_conv')
next
  case (IsBlocked p now)
  then show ?thesis using assms by (simp add: isBlocked_def AList.delete_conv' split: option.split)
qed

lemma circuit_other_entry:
  assumes "length es < nat (maxEntries c) \<or> circuit_key ev \<in> fst ` set es" "k \<noteq> circuit_key ev"
  shows "map_of (snd (circuit_step c ev es)) k = map_of es k"
proof (cases ev)
  case (RecordFailure visit p now)
  show ?thesis
  proof (cases "circuit_disabled c \<or> p \<le> 0")
    case True
    then show ?thesis by (simp add: RecordFailure recordFailure_off)
  next
    case False
    have "map_of es p = None \<Longrightarrow> ensureCapacityLocked c visit now es = es"
      using assms(1) by (auto simp: RecordFailure map_of_eq_None_iff intro!: ensureCapacity_idle)
    then show ?thesis using False assms(2)
      by (auto simp: RecordFailure circuit_step_failure AList.update_conv' simp del: circuit_step.simps(1))
  qed
next
  case (RecordSuccess p)
  then show ?thesis using assms(2) by (simp add: recordSuccess_def)
next
  case (IsBlocked p now)
  then show ?thesis using assms(2) by (simp add: isBlocked_def split: option.split)
qed

lemma circuit_settings_positive:
  "0 < maxEntries (newOpenAIProxyStreamCircuit s)" "0 < failureThreshold (newOpenAIProxyStreamCircuit s)"
  "0 < failureWindow (newOpenAIProxyStreamCircuit s)" "0 < quarantineTTL (newOpenAIProxyStreamCircuit s)"
  "0 \<le> collapseInterval (newOpenAIProxyStreamCircuit s)"
  by (simp_all add: newOpenAIProxyStreamCircuit_def circuit_defaults Let_def minute_def second_def)

interpretation circuit: keyed_table "circuit_step (newOpenAIProxyStreamCircuit s)" circuit_key circuit_legal
  "circuit_inv (newOpenAIProxyStreamCircuit s)" "nat (maxEntries (newOpenAIProxyStreamCircuit s))" for s
proof unfold_locales
  let ?c = "newOpenAIProxyStreamCircuit s"
  show "circuit_inv ?c es \<Longrightarrow> distinct (map fst es)" for es by (simp add: circuit_inv_def)
  show "circuit_inv ?c es \<Longrightarrow> length es \<le> nat (maxEntries ?c)" for es by (auto simp: circuit_inv_def)
  show "circuit_inv ?c es \<Longrightarrow> circuit_legal ev \<Longrightarrow> circuit_inv ?c (snd (circuit_step ?c ev es))" for es ev
    by (rule circuit_inv_step [OF _ _ circuit_settings_positive(1)])
qed (rule circuit_keys_step, rule circuit_own_entry, assumption, rule circuit_other_entry, assumption+)

section \<open>Properties\<close>

text \<open>The circuit's table stays within its configured size, with one entry per proxy and positive
  proxy ids, whatever the calls and the order in which the runtime ranges over the map.\<close>

theorem circuit_table_bounded:
  assumes "list_all circuit_legal evs"
  shows "let es = snd (run_steps (circuit_step (newOpenAIProxyStreamCircuit s)) evs []) in
    int (length es) \<le> maxEntries (newOpenAIProxyStreamCircuit s) \<and> distinct (map fst es) \<and>
    list_all (\<lambda>(p, e). 0 < p) es"
proof -
  have "circuit_inv (newOpenAIProxyStreamCircuit s) (snd (run_steps (circuit_step (newOpenAIProxyStreamCircuit s)) evs []))"
    by (intro circuit.inv_run circuit_inv_Nil circuit_settings_positive assms)
  then show ?thesis by (auto simp: circuit_inv_def Let_def list_all_iff)
qed

text \<open>A table of one proxy.\<close>

definition demo_settings :: circuit_settings where
  "demo_settings = \<lparr>circuit_disabled = False, failureThreshold = 1, failureWindow = 60 * second, quarantineTTL = 600 * second,
     collapseInterval = 3 * second, maxEntries = 1\<rparr>"

lemma demo_settings_kept: "newOpenAIProxyStreamCircuit demo_settings = demo_settings"
  by (simp add: newOpenAIProxyStreamCircuit_def demo_settings_def second_def)

theorem circuit_table_bounded_witness:
  "length (snd (run_steps (circuit_step (newOpenAIProxyStreamCircuit demo_settings))
     [RecordFailure rev 3 (5 * second), RecordFailure (\<lambda>es. es) 4 (6 * second), IsBlocked 4 (7 * second)] [])) \<le> 1"
  using circuit_table_bounded [of "[RecordFailure rev 3 (5 * second), RecordFailure (\<lambda>es. es) 4 (6 * second), IsBlocked 4 (7 * second)]"
    demo_settings]
  unfolding demo_settings_kept by (simp add: Let_def demo_settings_def del: run_steps.simps circuit_step.simps)

text \<open>C24. Proxies do not influence each other: in any history whose proxies fit in the table, the answers
  for one proxy (tripped and until when, cleared, blocked) are those of a circuit that sees that
  proxy's calls only.\<close>

theorem circuit_isolates_proxies:
  assumes "list_all circuit_legal evs"
    and "int (card (circuit_key ` set evs)) \<le> maxEntries (newOpenAIProxyStreamCircuit s)"
  shows "outputs_for circuit_key p evs (fst (run_steps (circuit_step (newOpenAIProxyStreamCircuit s)) evs [])) =
    fst (run_steps (circuit_step (newOpenAIProxyStreamCircuit s)) (filter (\<lambda>ev. circuit_key ev = p) evs) [])"
  using circuit.isolated [of s "[]" evs p "[]"] circuit_inv_Nil [OF circuit_settings_positive(1)] assms
  by (simp add: le_nat_iff)

theorem circuit_isolates_proxies_witness:
  "fst (run_steps (circuit_step (newOpenAIProxyStreamCircuit (demo_settings\<lparr>maxEntries := 2\<rparr>)))
     [RecordFailure rev 3 (5 * second), IsBlocked 3 (7 * second)] []) =
   outputs_for circuit_key 3 [RecordFailure rev 3 (5 * second), RecordFailure rev 4 (6 * second), IsBlocked 3 (7 * second)]
     (fst (run_steps (circuit_step (newOpenAIProxyStreamCircuit (demo_settings\<lparr>maxEntries := 2\<rparr>)))
       [RecordFailure rev 3 (5 * second), RecordFailure rev 4 (6 * second), IsBlocked 3 (7 * second)] []))"
  using circuit_isolates_proxies [of "[RecordFailure rev 3 (5 * second), RecordFailure rev 4 (6 * second), IsBlocked 3 (7 * second)]"
    "demo_settings\<lparr>maxEntries := 2\<rparr>" 3]
  by (simp add: card_insert_if newOpenAIProxyStreamCircuit_def demo_settings_def second_def del: run_steps.simps circuit_step.simps)

lemma time_sub_le: "0 \<le> t - u \<Longrightarrow> time_sub t u \<le> t - u"
  by (auto simp: time_sub_def min_duration_def)

lemma spaced_last: "successively (\<lambda>a b. a + 3 * second \<le> b) (t # ts) \<Longrightarrow> t \<le> List.last (t # ts)"
proof (induction ts arbitrary: t)
  case (Cons u us)
  then have "u \<le> List.last (u # us)" by simp
  then show ?case using Cons.prems by (simp add: second_def)
qed simp

lemma circuit_collapse:
  "collapseInterval (newOpenAIProxyStreamCircuit (resolveOpenAIProxyStreamCircuitSettings cfg)) = 3 * second"
  by (simp add: newOpenAIProxyStreamCircuit_def resolveOpenAIProxyStreamCircuitSettings_def circuit_defaults Let_def second_def
        split: option.split)

text \<open>One more failure of a proxy in its window, not too close to the one before.\<close>

lemma next_entry_counts:
  assumes "collapseInterval c = 3 * second" "0 < w" "w \<le> l" "l + 3 * second \<le> now" "now - w \<le> failureWindow c"
  shows "next_entry c now (Some \<lparr>failureCount = k, windowStart = w, lastFailureAt = l, blockedUntil = zero_time, lastTouched = x\<rparr>) =
    (if failureThreshold c \<le> k + 1
     then ((True, now + quarantineTTL c), \<lparr>failureCount = k + 1, windowStart = w, lastFailureAt = now,
             blockedUntil = now + quarantineTTL c, lastTouched = now\<rparr>)
     else ((False, zero_time), \<lparr>failureCount = k + 1, windowStart = w, lastFailureAt = now,
             blockedUntil = zero_time, lastTouched = now\<rparr>))"
proof -
  have "w < now" "0 < now" using assms(2-4) by (simp_all add: second_def)
  moreover have "\<not> failureWindow c < time_sub now w" using time_sub_le [of now w] assms(5) \<open>w < now\<close> by simp
  moreover have "\<not> time_sub now l < 3 * second"
    using assms(4) by (simp add: time_sub_less_iff second_def max_duration_def)
  ultimately show ?thesis using assms(1,2) by (simp add: next_entry_def Let_def zero_time_def)
qed

lemma trip_rest:
  assumes c: "\<not> circuit_disabled c" "0 < p" "collapseInterval c = 3 * second" "0 < w"
    and "map_of es p = Some \<lparr>failureCount = k, windowStart = w, lastFailureAt = l, blockedUntil = zero_time, lastTouched = l\<rparr>"
    and "w \<le> l" "successively (\<lambda>a b. a + 3 * second \<le> b) (l # ts)" "ts \<noteq> []" "List.last ts - w \<le> failureWindow c"
    and "k + int (length ts) = failureThreshold c"
  shows "\<exists>es' e. run_steps (circuit_step c) (map (RecordFailure visit p) ts) es =
      (replicate (length ts - 1) (Tripped False zero_time) @ [Tripped True (List.last ts + quarantineTTL c)], es') \<and>
    map_of es' p = Some e \<and> blockedUntil e = List.last ts + quarantineTTL c"
  using assms(5-)
proof (induction ts arbitrary: es k l)
  case (Cons t ts)
  have lt: "l + 3 * second \<le> t" and rest: "successively (\<lambda>a b. a + 3 * second \<le> b) (t # ts)"
    using Cons.prems(3) by simp_all
  have tl: "t \<le> List.last (t # ts)" by (rule spaced_last [OF rest])
  then have "t - w \<le> failureWindow c" using Cons.prems(5) by linarith
  note count = next_entry_counts [OF c(3,4) Cons.prems(2) lt this, of k l]
  have on: "\<not> (circuit_disabled c \<or> p \<le> 0)" using c by simp
  note step = circuit_step_failure [OF on, of visit t es, unfolded Cons.prems(1) count]
  show ?case
  proof (cases "ts = []")
    case True
    then show ?thesis using Cons.prems(6) step
      by (simp add: run_steps_Cons AList.update_conv' del: run_steps.simps(2) circuit_step.simps)
  next
    case False
    then have "\<not> failureThreshold c \<le> k + 1" using Cons.prems(6) by (cases ts) auto
    then have s: "circuit_step c (RecordFailure visit p t) es = (Tripped False zero_time,
        AList.update p \<lparr>failureCount = k + 1, windowStart = w, lastFailureAt = t, blockedUntil = zero_time, lastTouched = t\<rparr> es)"
      using step by simp
    let ?es = "AList.update p \<lparr>failureCount = k + 1, windowStart = w, lastFailureAt = t, blockedUntil = zero_time, lastTouched = t\<rparr> es"
    have "\<exists>es' e. run_steps (circuit_step c) (map (RecordFailure visit p) ts) ?es =
        (replicate (length ts - 1) (Tripped False zero_time) @ [Tripped True (List.last ts + quarantineTTL c)], es') \<and>
      map_of es' p = Some e \<and> blockedUntil e = List.last ts + quarantineTTL c"
    proof (rule Cons.IH [of _ "k + 1" t])
      show "w \<le> t" using lt Cons.prems(2) by (simp add: second_def)
      show "List.last ts - w \<le> failureWindow c" using Cons.prems(5) False by simp
    qed (use rest False Cons.prems(6) in \<open>simp_all add: AList.update_conv'\<close>)
    moreover have "replicate (length ts) (Tripped False zero_time) =
        Tripped False zero_time # replicate (length ts - 1) (Tripped False zero_time)"
      using False by (cases ts) simp_all
    ultimately show ?thesis using s False
      by (auto simp: run_steps_Cons simp del: run_steps.simps(2) circuit_step.simps)
  qed
qed simp

text \<open>C25. A proxy unknown to the circuit trips at its threshold: of as many failures as the threshold, at
  least three seconds apart and within the window, exactly the last one trips the circuit, and from
  then on the proxy is blocked until the quarantine of that failure ends, and no longer.\<close>

theorem circuit_trips_at_threshold:
  assumes c: "c = newOpenAIProxyStreamCircuit (resolveOpenAIProxyStreamCircuitSettings cfg)"
    and "\<not> circuit_disabled c" "0 < p" "map_of es p = None"
    and "int (length ts) = failureThreshold c" "0 < hd ts" "successively (\<lambda>a b. a + 3 * second \<le> b) ts"
    and "List.last ts - hd ts \<le> failureWindow c"
  shows "case run_steps (circuit_step c) (map (RecordFailure visit p) ts) es of (outs, es') \<Rightarrow>
    outs = replicate (length ts - 1) (Tripped False zero_time) @ [Tripped True (List.last ts + quarantineTTL c)] \<and>
    (\<forall>now. fst (isBlocked c p now es') \<longleftrightarrow> now < List.last ts + quarantineTTL c)"
proof -
  note pos = circuit_settings_positive [of "resolveOpenAIProxyStreamCircuitSettings cfg", folded c]
  have collapse: "collapseInterval c = 3 * second" using circuit_collapse c by simp
  obtain t us where ts: "ts = t # us" using assms(5) pos(2) by (cases ts) auto
  have t: "0 < t" using assms(6) ts by simp
  let ?es = "AList.update p \<lparr>failureCount = 1, windowStart = t, lastFailureAt = t, blockedUntil =
      (if failureThreshold c \<le> 1 then t + quarantineTTL c else zero_time), lastTouched = t\<rparr> (ensureCapacityLocked c visit t es)"
  have on: "\<not> (circuit_disabled c \<or> p \<le> 0)" using assms(2,3) by simp
  have first: "circuit_step c (RecordFailure visit p t) es =
      (Tripped (failureThreshold c \<le> 1) (if failureThreshold c \<le> 1 then t + quarantineTTL c else zero_time), ?es)"
    unfolding circuit_step_failure [OF on] assms(4) by (simp add: next_entry_def zero_entry_def Let_def)
  have "\<exists>es' e. run_steps (circuit_step c) (map (RecordFailure visit p) ts) es =
      (replicate (length ts - 1) (Tripped False zero_time) @ [Tripped True (List.last ts + quarantineTTL c)], es') \<and>
    map_of es' p = Some e \<and> blockedUntil e = List.last ts + quarantineTTL c"
  proof (cases "us = []")
    case True
    then show ?thesis using first assms(5)
      by (simp add: ts run_steps_Cons AList.update_conv' del: run_steps.simps(2) circuit_step.simps)
  next
    case False
    then have more: "\<not> failureThreshold c \<le> 1" using assms(5) ts by (cases us) auto
    have "\<exists>es' e. run_steps (circuit_step c) (map (RecordFailure visit p) us) ?es =
        (replicate (length us - 1) (Tripped False zero_time) @ [Tripped True (List.last us + quarantineTTL c)], es') \<and>
      map_of es' p = Some e \<and> blockedUntil e = List.last us + quarantineTTL c"
      using assms(5,7,8) False more t ts by (intro trip_rest [OF assms(2,3) collapse t, of _ 1 t]) (simp_all add: AList.update_conv')
    moreover have "replicate (length us) (Tripped False zero_time) =
        Tripped False zero_time # replicate (length us - 1) (Tripped False zero_time)"
      using False by (cases us) simp_all
    ultimately show ?thesis using first False more
      by (auto simp: ts run_steps_Cons simp del: run_steps.simps(2) circuit_step.simps)
  qed
  then obtain es' e where r: "run_steps (circuit_step c) (map (RecordFailure visit p) ts) es =
      (replicate (length ts - 1) (Tripped False zero_time) @ [Tripped True (List.last ts + quarantineTTL c)], es')"
    "map_of es' p = Some e" "blockedUntil e = List.last ts + quarantineTTL c" by blast
  have "t \<le> List.last ts" using spaced_last assms(7) unfolding ts by blast
  then have "blockedUntil e \<noteq> zero_time" using r(3) t pos(4) by (simp add: zero_time_def)
  then show ?thesis using r on by (auto simp: isBlocked_def)
qed

theorem circuit_trips_at_threshold_witness:
  "run_steps (circuit_step (newOpenAIProxyStreamCircuit (resolveOpenAIProxyStreamCircuitSettings None)))
     (map (RecordFailure (\<lambda>es. es) 7) [9 * second, 20 * second]) [] =
   ([Tripped False 0, Tripped True (620 * second)],
    snd (run_steps (circuit_step (newOpenAIProxyStreamCircuit (resolveOpenAIProxyStreamCircuitSettings None)))
     (map (RecordFailure (\<lambda>es. es) 7) [9 * second, 20 * second]) []))"
proof -
  let ?c = "newOpenAIProxyStreamCircuit (resolveOpenAIProxyStreamCircuitSettings None)"
  have c: "\<not> circuit_disabled ?c" "failureThreshold ?c = 2" "failureWindow ?c = 60000000000" "quarantineTTL ?c = 600000000000"
    by code_simp+
  show ?thesis
    using circuit_trips_at_threshold [OF refl, where cfg = None and p = 7 and es = "[]"
      and ts = "[9 * second, 20 * second]" and visit = "\<lambda>es. es"] c
    by (simp add: case_prod_beta prod_eq_iff second_def zero_time_def del: run_steps.simps)
qed

text \<open>Failures of a proxy since its last success.\<close>

fun failures_since_success :: "int64 \<Rightarrow> circuit_event list \<Rightarrow> int \<Rightarrow> int" where
  "failures_since_success p [] n = n"
| "failures_since_success p (RecordFailure visit q now # evs) n = failures_since_success p evs (if q = p then n + 1 else n)"
| "failures_since_success p (RecordSuccess q # evs) n = failures_since_success p evs (if q = p then 0 else n)"
| "failures_since_success p (IsBlocked q now # evs) n = failures_since_success p evs n"

lemma circuit_step_success:
  "snd (circuit_step c (RecordSuccess q) es) = (if q \<le> 0 then es else AList.delete q es)"
  by (simp add: recordSuccess_def map_of_eq_None_iff)

lemma ensureCapacity_entry:
  "map_of (ensureCapacityLocked c visit now es) p = Some e \<Longrightarrow> distinct (map fst es) \<Longrightarrow> map_of es p = Some e"
  using ensureCapacity_subset [of c visit now es] map_of_SomeD by fastforce

lemma next_entry_count: "failureCount (snd (next_entry c now old)) \<le> (case old of None \<Rightarrow> 1 | Some e \<Rightarrow> max 0 (failureCount e) + 1)"
  by (cases old) (auto simp: next_entry_def zero_entry_def Let_def)

text \<open>No entry counts more failures than there were since the last success.\<close>

lemma failure_count_bound:
  assumes "circuit_inv c es" "list_all circuit_legal evs" "0 < maxEntries c" "0 \<le> n"
    and "\<And>e. map_of es p = Some e \<Longrightarrow> failureCount e \<le> n"
    and "map_of (snd (run_steps (circuit_step c) evs es)) p = Some e"
  shows "failureCount e \<le> failures_since_success p evs n"
  using assms
proof (induction evs arbitrary: es n)
  case (Cons ev evs)
  let ?es = "snd (circuit_step c ev es)"
  have inv: "circuit_inv c ?es" "list_all circuit_legal evs"
    using circuit_inv_step [OF Cons.prems(1) _ Cons.prems(3)] Cons.prems(2) by simp_all
  have final: "map_of (snd (run_steps (circuit_step c) evs ?es)) p = Some e"
    using Cons.prems(6) by (simp add: run_steps_Cons del: run_steps.simps(2))
  have dist: "distinct (map fst es)" using Cons.prems(1) by (simp add: circuit_inv_def)
  show ?case
  proof (cases ev)
    case (RecordFailure visit q now)
    have "failureCount e' \<le> (if q = p then n + 1 else n)" if "map_of ?es p = Some e'" for e'
    proof (cases "circuit_disabled c \<or> q \<le> 0")
      case True
      then show ?thesis using that Cons.prems(4,5) by (fastforce simp: RecordFailure recordFailure_off)
    next
      case on: False
      show ?thesis
      proof (cases "q = p")
        case True
        have "failureCount e' \<le> (case map_of es p of None \<Rightarrow> 1 | Some e \<Rightarrow> max 0 (failureCount e) + 1)"
          using that next_entry_count [of c now "map_of es p"] on True
          by (simp add: RecordFailure circuit_step_failure AList.update_conv' del: circuit_step.simps)
        also have "\<dots> \<le> n + 1" using Cons.prems(4,5) by (simp split: option.split)
        finally show ?thesis using True by simp
      next
        case False
        then have "map_of es p = Some e'" using that on ensureCapacity_entry [OF _ dist]
          by (auto simp: RecordFailure circuit_step_failure AList.update_conv' simp del: circuit_step.simps split: if_splits)
        then show ?thesis using Cons.prems(5) False by simp
      qed
    qed
    then show ?thesis using Cons.IH [OF inv Cons.prems(3) _ _ final, of "if q = p then n + 1 else n"] Cons.prems(4)
      by (simp add: RecordFailure)
  next
    case (RecordSuccess q)
    have "failureCount e' \<le> (if q = p then 0 else n)" if "map_of ?es p = Some e'" for e'
    proof (cases "q \<le> 0")
      case True
      then have "q \<notin> fst ` set es" using Cons.prems(1) by (force simp: circuit_inv_def)
      then have "map_of es q = None" by (simp add: map_of_eq_None_iff)
      then show ?thesis using that True Cons.prems(5)
        by (auto simp: RecordSuccess circuit_step_success simp del: circuit_step.simps)
    next
      case False
      then show ?thesis using that Cons.prems(5)
        by (auto simp: RecordSuccess circuit_step_success AList.delete_conv' simp del: circuit_step.simps split: if_splits)
    qed
    then show ?thesis using Cons.IH [OF inv Cons.prems(3) _ _ final, of "if q = p then 0 else n"] Cons.prems(4)
      by (simp add: RecordSuccess)
  next
    case (IsBlocked q now)
    have "failureCount e' \<le> n" if "map_of ?es p = Some e'" for e'
      using that Cons.prems(5) by (auto simp: IsBlocked isBlocked_def AList.delete_conv' split: option.splits if_splits)
    then show ?thesis using Cons.IH [OF inv Cons.prems(3) Cons.prems(4) _ final] by (simp add: IsBlocked)
  qed
qed simp

text \<open>A blocked proxy has failed at least as often as the threshold since its last success: no history
  of calls blocks a proxy earlier.\<close>

theorem circuit_blocks_only_failing:
  assumes "list_all circuit_legal evs" "c = newOpenAIProxyStreamCircuit s"
    and "fst (isBlocked c p now (snd (run_steps (circuit_step c) evs [])))"
  shows "failureThreshold c \<le> failures_since_success p evs 0"
proof -
  let ?es = "snd (run_steps (circuit_step c) evs [])"
  have pos: "0 < maxEntries c" by (simp add: assms(2) circuit_settings_positive)
  obtain e where e: "map_of ?es p = Some e" "blockedUntil e \<noteq> zero_time"
    using assms(3) by (auto simp: isBlocked_def split: if_splits option.splits)
  have "circuit_inv c ?es"
    unfolding assms(2) by (intro circuit.inv_run circuit_inv_Nil circuit_settings_positive assms(1))
  then have "failureThreshold c \<le> failureCount e"
    using e map_of_SomeD [OF e(1)] by (auto simp: circuit_inv_def entry_ok_def)
  also have "\<dots> \<le> failures_since_success p evs 0"
    using failure_count_bound [OF circuit_inv_Nil [OF pos] assms(1) pos, of 0 p e] e(1) by simp
  finally show ?thesis .
qed

text \<open>A quarantine runs its course: while a proxy is blocked, neither more failures nor queries end or
  prolong it.  As long as the table has room for the keys in use, after any calls before its end that
  bring no success of the proxy, it is blocked until the same instant.\<close>

theorem circuit_quarantine_fixed:
  assumes "c = newOpenAIProxyStreamCircuit s" "circuit_inv c es" "list_all circuit_legal evs"
    and "int (card (fst ` set es \<union> circuit_key ` set evs)) \<le> maxEntries c"
    and "map_of es p = Some e" "\<not> circuit_disabled c" "blockedUntil e \<noteq> zero_time"
    and "\<forall>ev \<in> set evs. case ev of RecordFailure visit q now \<Rightarrow> now < blockedUntil e
        | RecordSuccess q \<Rightarrow> q \<noteq> p | IsBlocked q now \<Rightarrow> now < blockedUntil e"
  shows "fst (isBlocked c p now (snd (run_steps (circuit_step c) evs es))) \<longleftrightarrow> now < blockedUntil e"
proof -
  let ?own = "filter (\<lambda>ev. circuit_key ev = p) evs"
  have "0 < p" using assms(2,5) map_of_SomeD [OF assms(5)] by (auto simp: circuit_inv_def)
  have keep: "\<exists>e'. map_of (snd (run_steps (circuit_step c) evs' es')) p = Some e' \<and> blockedUntil e' = blockedUntil e"
    if "\<forall>ev \<in> set evs'. circuit_key ev = p" "set evs' \<subseteq> set evs" "map_of es' p = Some e0" "blockedUntil e0 = blockedUntil e" for evs' es' e0
    using that
  proof (induction evs' arbitrary: es' e0)
    case (Cons ev evs')
    have ev: "circuit_key ev = p" "ev \<in> set evs" using Cons.prems(1,2) by simp_all
    have "\<exists>e1. map_of (snd (circuit_step c ev es')) p = Some e1 \<and> blockedUntil e1 = blockedUntil e"
    proof (cases ev)
      case (RecordFailure visit q now)
      then have "now < blockedUntil e0" "q = p" using assms(8) ev Cons.prems(4) by auto
      then show ?thesis using assms(6) \<open>0 < p\<close> Cons.prems(3,4)
        by (simp add: RecordFailure circuit_step_failure next_entry_def AList.update_conv' del: circuit_step.simps)
    next
      case (RecordSuccess q)
      then show ?thesis using assms(8) ev by auto
    next
      case (IsBlocked q now)
      then have "now < blockedUntil e0" "q = p" using assms(8) ev Cons.prems(4) by auto
      then show ?thesis using assms(7) Cons.prems(3,4) by (simp add: IsBlocked isBlocked_def)
    qed
    then obtain e1 where "map_of (snd (circuit_step c ev es')) p = Some e1" "blockedUntil e1 = blockedUntil e" by blast
    from Cons.IH [OF _ _ this] Cons.prems(1,2) show ?case
      by (simp add: run_steps_Cons del: run_steps.simps(2))
  qed auto
  have "map_of (snd (run_steps (circuit_step c) evs es)) p = map_of (snd (run_steps (circuit_step c) ?own es)) p"
    using circuit.isolated [of s es evs p es] assms(1-4) by (simp add: le_nat_iff)
  moreover obtain e' where "map_of (snd (run_steps (circuit_step c) ?own es)) p = Some e'" "blockedUntil e' = blockedUntil e"
    using keep [of ?own es e] assms(5) by auto
  ultimately show ?thesis using assms(6,7) \<open>0 < p\<close> by (simp add: isBlocked_def)
qed

theorem circuit_quarantine_fixed_witness:
  "fst (isBlocked (newOpenAIProxyStreamCircuit demo_settings) 3 (604 * second)
     (snd (run_steps (circuit_step (newOpenAIProxyStreamCircuit demo_settings))
       [RecordFailure rev 3 (100 * second), IsBlocked 3 (200 * second)]
       (snd (recordFailure (newOpenAIProxyStreamCircuit demo_settings) rev 3 (5 * second) [])))))"
proof -
  let ?c = "newOpenAIProxyStreamCircuit demo_settings"
  let ?es = "snd (recordFailure ?c rev 3 (5 * second) [])"
  have es: "?es = [(3, \<lparr>failureCount = 1, windowStart = 5 * second, lastFailureAt = 5 * second,
      blockedUntil = 605 * second, lastTouched = 5 * second\<rparr>)]"
    unfolding demo_settings_kept by code_simp
  show ?thesis
    unfolding es
    by (subst circuit_quarantine_fixed [OF refl, where p = 3 and e = "\<lparr>failureCount = 1, windowStart = 5 * second,
          lastFailureAt = 5 * second, blockedUntil = 605 * second, lastTouched = 5 * second\<rparr>"])
       (simp_all only: demo_settings_kept, simp_all add: circuit_inv_def entry_ok_def demo_settings_def second_def zero_time_def)
qed

theorem circuit_blocks_only_failing_witness:
  "failureThreshold (newOpenAIProxyStreamCircuit demo_settings) \<le>
     failures_since_success 3 [RecordFailure rev 3 (5 * second), IsBlocked 3 (7 * second)] 0"
proof (rule circuit_blocks_only_failing [OF _ refl, of _ demo_settings 3 "8 * second"])
  show "fst (isBlocked (newOpenAIProxyStreamCircuit demo_settings) 3 (8 * second)
      (snd (run_steps (circuit_step (newOpenAIProxyStreamCircuit demo_settings))
        [RecordFailure rev 3 (5 * second), IsBlocked 3 (7 * second)] [])))"
    unfolding demo_settings_kept by code_simp
qed simp

end
