(* ===== verification/Model_Transient.thy ===== *)
theory Model_Transient
  imports Account_Model Keyed_Registry
begin

text \<open>
  Short cool-downs of an account for one model (\<^verbatim>\<open>service/openai_account_model_transient.go\<close>): consecutive
  failures of an account with a model block the pair for a while; a success clears it.  The table is
  bounded and evicts the pair that was touched least recently.

  The mutex makes each call atomic.  A zero \<open>now\<close> is replaced by the clock, the argument \<open>clock\<close>.
\<close>

section \<open>Model\<close>

definition openAIModelTransientStreakTTL :: duration where
  "openAIModelTransientStreakTTL = 30 * minute"
definition openAIModelTransientShortCooldown :: duration where
  "openAIModelTransientShortCooldown = 10 * second"
definition openAIModelTransientLongCooldown :: duration where
  "openAIModelTransientLongCooldown = 45 * second"
definition openAIModelTransientDefaultMax :: int where
  "openAIModelTransientDefaultMax = 4096"
definition openAIModelTransientMaxModelBytes :: nat where
  "openAIModelTransientMaxModelBytes = 512"

lemmas transient_consts =
  openAIModelTransientStreakTTL_def openAIModelTransientShortCooldown_def openAIModelTransientLongCooldown_def

type_synonym account_model_key = "int64 \<times> string"

record transient_entry =
  failureStreak :: int
  lastFailure :: gtime
  blockUntil :: gtime
  transientTouched :: gtime

record transient_decision =
  FailureStreak :: int
  Cooldown :: duration
  BlockUntil :: gtime

type_synonym transients = "(account_model_key, transient_entry) registry"

definition newOpenAIAccountModelTransientState :: "int \<Rightarrow> int" where
  "newOpenAIAccountModelTransientState maxEntries =
     (if maxEntries \<le> 0 then openAIModelTransientDefaultMax else maxEntries)"

definition normalizeOpenAIAccountModelTransientModel :: "(string \<Rightarrow> string) \<Rightarrow> string \<Rightarrow> string" where
  "normalizeOpenAIAccountModelTransientModel ucase model =
     (let model = TrimSpace model in
      if openAIModelTransientMaxModelBytes < length model then [] else ToLower ucase model)"

definition openAIAccountModelTransientKey :: "(string \<Rightarrow> string) \<Rightarrow> int64 \<Rightarrow> string \<Rightarrow> account_model_key option" where
  "openAIAccountModelTransientKey ucase accountID model =
     (let model = normalizeOpenAIAccountModelTransientModel ucase model in
      if accountID \<le> 0 \<or> model = [] then None else Some (accountID, model))"

definition evictOldestLocked :: "int \<Rightarrow> (account_model_key, transient_entry) visit \<Rightarrow> transients \<Rightarrow> transients" where
  "evictOldestLocked maxEntries visit entries =
     (if int (length entries) < maxEntries then entries else evict_oldest transientTouched visit entries)"

definition zero_transient :: transient_entry where
  "zero_transient = \<lparr>failureStreak = 0, lastFailure = zero_time, blockUntil = zero_time, transientTouched = zero_time\<rparr>"

definition zero_decision :: transient_decision where
  "zero_decision = \<lparr>FailureStreak = 0, Cooldown = 0, BlockUntil = zero_time\<rparr>"

text \<open>The entry after one more failure, and the decision.\<close>

definition fail_entry :: "gtime \<Rightarrow> transient_entry option \<Rightarrow> transient_decision \<times> transient_entry" where
  "fail_entry now old =
     (let entry = (case old of None \<Rightarrow> zero_transient | Some e \<Rightarrow> e);
          entry = (if old = None \<or> IsZero (lastFailure entry) \<or>
                      openAIModelTransientStreakTTL < time_sub now (lastFailure entry) \<or> now < lastFailure entry
                   then entry\<lparr>failureStreak := 0, blockUntil := zero_time\<rparr> else entry);
          entry = entry\<lparr>failureStreak := failureStreak entry + 1, lastFailure := now, transientTouched := now\<rparr>;
          cooldown = (if 3 \<le> failureStreak entry then openAIModelTransientLongCooldown
                      else if failureStreak entry = 2 then openAIModelTransientShortCooldown
                      else 0);
          entry = (if 0 < cooldown then entry\<lparr>blockUntil := now + cooldown\<rparr> else entry\<lparr>blockUntil := zero_time\<rparr>)
      in (\<lparr>FailureStreak = failureStreak entry, Cooldown = cooldown, BlockUntil = blockUntil entry\<rparr>, entry))"

definition transient_recordFailure :: "(string \<Rightarrow> string) \<Rightarrow> gtime \<Rightarrow> int \<Rightarrow> (account_model_key, transient_entry) visit \<Rightarrow>
    int64 \<Rightarrow> string \<Rightarrow> gtime \<Rightarrow> transients \<Rightarrow> transient_decision \<times> transients" where
  "transient_recordFailure ucase clock maxEntries visit accountID model now entries =
     (case openAIAccountModelTransientKey ucase accountID model of
        None \<Rightarrow> (zero_decision, entries)
      | Some key \<Rightarrow>
          let now = (if IsZero now then clock else now);
              maxEntries = (if maxEntries \<le> 0 then openAIModelTransientDefaultMax else maxEntries);
              old = map_of entries key;
              entries = (if old = None then evictOldestLocked maxEntries visit entries else entries)
          in case fail_entry now old of (decision, entry) \<Rightarrow> (decision, AList.update key entry entries))"

definition transient_recordSuccess :: "(string \<Rightarrow> string) \<Rightarrow> int64 \<Rightarrow> string \<Rightarrow> transients \<Rightarrow> transients" where
  "transient_recordSuccess ucase accountID model entries =
     (case openAIAccountModelTransientKey ucase accountID model of
        None \<Rightarrow> entries
      | Some key \<Rightarrow> AList.delete key entries)"

definition transient_isBlocked :: "(string \<Rightarrow> string) \<Rightarrow> gtime \<Rightarrow> int64 \<Rightarrow> string \<Rightarrow> gtime \<Rightarrow> transients \<Rightarrow> bool \<times> transients" where
  "transient_isBlocked ucase clock accountID model now entries =
     (case openAIAccountModelTransientKey ucase accountID model of
        None \<Rightarrow> (False, entries)
      | Some key \<Rightarrow>
          let now = (if IsZero now then clock else now) in
          case map_of entries key of
            None \<Rightarrow> (False, entries)
          | Some entry \<Rightarrow>
              if \<not> IsZero (lastFailure entry) \<and> openAIModelTransientStreakTTL < time_sub now (lastFailure entry)
              then (False, AList.delete key entries)
              else (\<not> IsZero (blockUntil entry) \<and> now < blockUntil entry,
                    AList.update key (entry\<lparr>transientTouched := now\<rparr>) entries))"

definition transient_size :: "transients \<Rightarrow> nat" where
  "transient_size entries = length entries"

section \<open>Calls as events\<close>

datatype transient_event =
    Failed "(account_model_key, transient_entry) visit" int64 string gtime gtime
  | Succeeded int64 string
  | Asked int64 string gtime gtime

datatype transient_answer = Decided transient_decision | Done | Answered bool

fun transient_step :: "(string \<Rightarrow> string) \<Rightarrow> int \<Rightarrow> transient_event \<Rightarrow> transients \<Rightarrow> transient_answer \<times> transients" where
  "transient_step ucase m (Failed visit a model now clock) es =
     apfst Decided (transient_recordFailure ucase clock m visit a model now es)"
| "transient_step ucase m (Succeeded a model) es = (Done, transient_recordSuccess ucase a model es)"
| "transient_step ucase m (Asked a model now clock) es = apfst Answered (transient_isBlocked ucase clock a model now es)"

fun transient_key :: "(string \<Rightarrow> string) \<Rightarrow> transient_event \<Rightarrow> account_model_key" where
  "transient_key ucase (Failed visit a model now clock) = (a, normalizeOpenAIAccountModelTransientModel ucase model)"
| "transient_key ucase (Succeeded a model) = (a, normalizeOpenAIAccountModelTransientModel ucase model)"
| "transient_key ucase (Asked a model now clock) = (a, normalizeOpenAIAccountModelTransientModel ucase model)"

fun transient_call :: "transient_event \<Rightarrow> int64 \<times> string" where
  "transient_call (Failed visit a model now clock) = (a, model)"
| "transient_call (Succeeded a model) = (a, model)"
| "transient_call (Asked a model now clock) = (a, model)"

fun transient_legal :: "transient_event \<Rightarrow> bool" where
  "transient_legal (Failed visit a model now clock) = permutes_entries visit"
| "transient_legal _ = True"

definition transient_inv :: "int \<Rightarrow> transients \<Rightarrow> bool" where
  "transient_inv m es \<longleftrightarrow> distinct (map fst es) \<and> int (length es) \<le> m"

text \<open>A call without a proper key does nothing; the key of any other call is its pair.\<close>

lemma transient_key_Some:
  "openAIAccountModelTransientKey ucase a model = Some k \<Longrightarrow> k = (a, normalizeOpenAIAccountModelTransientModel ucase model)"
  by (auto simp: openAIAccountModelTransientKey_def Let_def split: if_splits)

lemma evictOldest_room:
  "permutes_entries visit \<Longrightarrow> 0 < m \<Longrightarrow> int (length es) \<le> m \<Longrightarrow> int (length (evictOldestLocked m visit es)) < m"
  using evict_oldest_shorter [of visit es transientTouched] by (cases "es = []") (auto simp: evictOldestLocked_def)

lemma evictOldest_subset: "set (evictOldestLocked m visit es) \<subseteq> set es"
  using evict_oldest_set [of transientTouched visit es] by (auto simp: evictOldestLocked_def)

lemma evictOldest_distinct: "distinct (map fst es) \<Longrightarrow> distinct (map fst (evictOldestLocked m visit es))"
  by (simp add: evictOldestLocked_def evict_oldest_distinct)

lemma evictOldest_idle: "int (length es) < m \<Longrightarrow> evictOldestLocked m visit es = es"
  by (simp add: evictOldestLocked_def)

lemma transient_fail_step:
  assumes "openAIAccountModelTransientKey ucase a model = Some k" "0 < m"
  shows "transient_step ucase m (Failed visit a model now clock) es =
    (Decided (fst (fail_entry (if IsZero now then clock else now) (map_of es k))),
     AList.update k (snd (fail_entry (if IsZero now then clock else now) (map_of es k)))
       (if map_of es k = None then evictOldestLocked m visit es else es))"
  using assms by (simp add: transient_recordFailure_def Let_def case_prod_beta)

lemma transient_success_step:
  "openAIAccountModelTransientKey ucase a model = Some k \<Longrightarrow>
    transient_step ucase m (Succeeded a model) es = (Done, AList.delete k es)"
  by (simp add: transient_recordSuccess_def)

text \<open>The answer to a query and what becomes of the entry.\<close>

definition ask_entry :: "gtime \<Rightarrow> transient_entry option \<Rightarrow> bool \<times> transient_entry option" where
  "ask_entry now old =
     (case old of None \<Rightarrow> (False, None)
      | Some e \<Rightarrow>
          if \<not> IsZero (lastFailure e) \<and> openAIModelTransientStreakTTL < time_sub now (lastFailure e) then (False, None)
          else (\<not> IsZero (blockUntil e) \<and> now < blockUntil e, Some (e\<lparr>transientTouched := now\<rparr>)))"

lemma transient_ask_step:
  assumes "openAIAccountModelTransientKey ucase a model = Some k"
  shows "transient_step ucase m (Asked a model now clock) es =
    (Answered (fst (ask_entry (if IsZero now then clock else now) (map_of es k))),
     case snd (ask_entry (if IsZero now then clock else now) (map_of es k)) of
       None \<Rightarrow> AList.delete k es | Some e \<Rightarrow> AList.update k e es)"
  by (cases "map_of es k") (simp_all add: assms transient_isBlocked_def ask_entry_def Let_def delete_absent)

lemma transient_idle_step:
  assumes "openAIAccountModelTransientKey ucase (fst (transient_call ev)) (snd (transient_call ev)) = None"
  shows "transient_step ucase m ev es = (fst (transient_step ucase m ev []), es)"
  using assms
  by (cases ev) (simp_all add: transient_recordFailure_def transient_recordSuccess_def transient_isBlocked_def)

text \<open>A call with a proper key reads and writes the entry of that key, after making room.\<close>

lemma transient_keys_step:
  assumes "0 < m"
  shows "fst ` set (snd (transient_step ucase m ev es)) \<subseteq> insert (transient_key ucase ev) (fst ` set es)"
proof (cases "openAIAccountModelTransientKey ucase (fst (transient_call ev)) (snd (transient_call ev))")
  case None
  then show ?thesis by (subst transient_idle_step) auto
next
  case (Some k)
  show ?thesis
  proof (cases ev)
    case (Failed visit a model now clock)
    then have k: "openAIAccountModelTransientKey ucase a model = Some k" using Some by simp
    show ?thesis using evictOldest_subset [of m visit es] transient_key_Some [OF k]
      unfolding Failed transient_fail_step [OF k assms] by (auto simp: AList.dom_update)
  next
    case (Succeeded a model)
    then have k: "openAIAccountModelTransientKey ucase a model = Some k" using Some by simp
    show ?thesis using set_delete_subset [of k es] unfolding Succeeded transient_success_step [OF k] by auto
  next
    case (Asked a model now clock)
    then have k: "openAIAccountModelTransientKey ucase a model = Some k" using Some by simp
    show ?thesis using set_delete_subset [of k es] transient_key_Some [OF k]
      unfolding Asked transient_ask_step [OF k] by (auto simp: AList.dom_update split: option.split)
  qed
qed

lemma transient_own_entry:
  assumes "0 < m" "map_of es (transient_key ucase ev) = map_of es' (transient_key ucase ev)"
  shows "fst (transient_step ucase m ev es) = fst (transient_step ucase m ev es') \<and>
      map_of (snd (transient_step ucase m ev es)) (transient_key ucase ev) =
      map_of (snd (transient_step ucase m ev es')) (transient_key ucase ev)"
proof (cases "openAIAccountModelTransientKey ucase (fst (transient_call ev)) (snd (transient_call ev))")
  case None
  show ?thesis using assms(2)
    by (simp only: transient_idle_step [OF None, of m es] transient_idle_step [OF None, of m es'] fst_conv snd_conv)
next
  case (Some k)
  show ?thesis
  proof (cases ev)
    case (Failed visit a model now clock)
    then have k: "openAIAccountModelTransientKey ucase a model = Some k" using Some by simp
    show ?thesis using assms(2) transient_key_Some [OF k]
      unfolding Failed transient_fail_step [OF k assms(1)] by (simp add: AList.update_conv')
  next
    case (Succeeded a model)
    then have k: "openAIAccountModelTransientKey ucase a model = Some k" using Some by simp
    show ?thesis using transient_key_Some [OF k]
      unfolding Succeeded transient_success_step [OF k] by (simp add: AList.delete_conv')
  next
    case (Asked a model now clock)
    then have k: "openAIAccountModelTransientKey ucase a model = Some k" using Some by simp
    show ?thesis using assms(2) transient_key_Some [OF k]
      unfolding Asked transient_ask_step [OF k]
      by (simp add: AList.delete_conv' AList.update_conv' split: option.split)
  qed
qed

lemma transient_other_entry:
  assumes "0 < m" "length es < nat m \<or> transient_key ucase ev \<in> fst ` set es" "k' \<noteq> transient_key ucase ev"
  shows "map_of (snd (transient_step ucase m ev es)) k' = map_of es k'"
proof (cases "openAIAccountModelTransientKey ucase (fst (transient_call ev)) (snd (transient_call ev))")
  case None
  then show ?thesis by (subst transient_idle_step) simp_all
next
  case (Some k)
  show ?thesis
  proof (cases ev)
    case (Failed visit a model now clock)
    then have k: "openAIAccountModelTransientKey ucase a model = Some k" using Some by simp
    have "map_of es k = None \<Longrightarrow> evictOldestLocked m visit es = es"
      using assms(2) transient_key_Some [OF k] Failed by (intro evictOldest_idle) (auto simp: map_of_eq_None_iff)
    then show ?thesis using assms(3) transient_key_Some [OF k] Failed
      unfolding Failed transient_fail_step [OF k assms(1)] by (simp add: AList.update_conv')
  next
    case (Succeeded a model)
    then have k: "openAIAccountModelTransientKey ucase a model = Some k" using Some by simp
    show ?thesis using assms(3) transient_key_Some [OF k] Succeeded
      unfolding Succeeded transient_success_step [OF k] by simp
  next
    case (Asked a model now clock)
    then have k: "openAIAccountModelTransientKey ucase a model = Some k" using Some by simp
    show ?thesis using assms(3) transient_key_Some [OF k] Asked
      unfolding Asked transient_ask_step [OF k]
      by (simp add: AList.update_conv' split: option.split)
  qed
qed

interpretation transient: keyed_table "transient_step ucase (newOpenAIAccountModelTransientState m)" "transient_key ucase"
  transient_legal "transient_inv (newOpenAIAccountModelTransientState m)" "nat (newOpenAIAccountModelTransientState m)" for ucase m
proof unfold_locales
  let ?m = "newOpenAIAccountModelTransientState m"
  have pos: "0 < ?m" by (simp add: newOpenAIAccountModelTransientState_def openAIModelTransientDefaultMax_def)
  fix es es' :: transients and ev k
  show "transient_inv ?m es \<Longrightarrow> distinct (map fst es)" by (simp add: transient_inv_def)
  show "transient_inv ?m es \<Longrightarrow> length es \<le> nat ?m" by (auto simp: transient_inv_def)
  show "transient_inv ?m (snd (transient_step ucase ?m ev es))" if "transient_inv ?m es" "transient_legal ev"
  proof (cases ev)
    case (Failed visit a model now clock)
    show ?thesis
    proof (cases "openAIAccountModelTransientKey ucase a model")
      case None
      then show ?thesis using that(1) by (simp add: Failed transient_recordFailure_def)
    next
      case (Some k)
      show ?thesis
        using that evictOldest_room [of visit ?m es] evictOldest_distinct [of es ?m visit] evictOldest_subset [of ?m visit es] pos
        unfolding Failed transient_fail_step [OF Some pos]
        by (auto simp: transient_inv_def AList.distinct_update length_update map_of_eq_None_iff)
    qed
  next
    case (Succeeded a model)
    then show ?thesis using that(1)
      by (auto simp: transient_recordSuccess_def transient_inv_def AList.distinct_delete int_length_delete split: option.split)
  next
    case (Asked a model now clock)
    then show ?thesis using that(1)
      by (auto simp: transient_isBlocked_def transient_inv_def AList.distinct_delete AList.distinct_update length_update Let_def
            map_of_eq_None_iff int_length_delete simp del: map_of_eq_Some_iff split: option.split dest: map_of_Some_key)
  qed
  show "fst ` set (snd (transient_step ucase ?m ev es)) \<subseteq> insert (transient_key ucase ev) (fst ` set es)"
    by (rule transient_keys_step [OF pos])
  show "fst (transient_step ucase ?m ev es) = fst (transient_step ucase ?m ev es') \<and>
      map_of (snd (transient_step ucase ?m ev es)) (transient_key ucase ev) =
      map_of (snd (transient_step ucase ?m ev es')) (transient_key ucase ev)"
    if "map_of es (transient_key ucase ev) = map_of es' (transient_key ucase ev)"
    using that by (rule transient_own_entry [OF pos])
  show "map_of (snd (transient_step ucase ?m ev es)) k = map_of es k"
    if "transient_inv ?m es" "length es < nat ?m \<or> transient_key ucase ev \<in> fst ` set es" "k \<noteq> transient_key ucase ev"
    using transient_other_entry [OF pos that(2,3)] .
qed

section \<open>Properties\<close>

text \<open>Pairs of account and model do not influence each other: in any history whose pairs fit in the
  table, the answers for one pair are those of a table that sees that pair's calls only.\<close>

theorem transient_isolates_pairs:
  assumes "list_all transient_legal evs"
    and "int (card (transient_key ucase ` set evs)) \<le> newOpenAIAccountModelTransientState m"
  shows "outputs_for (transient_key ucase) k evs (fst (run_steps (transient_step ucase (newOpenAIAccountModelTransientState m)) evs [])) =
    fst (run_steps (transient_step ucase (newOpenAIAccountModelTransientState m))
      (filter (\<lambda>ev. transient_key ucase ev = k) evs) [])"
proof -
  have "transient_inv (newOpenAIAccountModelTransientState m) []"
    by (simp add: transient_inv_def newOpenAIAccountModelTransientState_def openAIModelTransientDefaultMax_def)
  then show ?thesis
    using transient.isolated [of m "[]" evs ucase k "[]"] assms by (simp add: le_nat_iff)
qed

text \<open>The cool-down that the code grants the n-th failure of a streak.\<close>

definition cooldown_of :: "nat \<Rightarrow> duration" where
  "cooldown_of n = (if n < 2 then 0 else if n = 2 then 10 * second else 45 * second)"

lemma fail_entry_first:
  "now \<noteq> zero_time \<Longrightarrow> fail_entry now None =
    (\<lparr>FailureStreak = 1, Cooldown = 0, BlockUntil = zero_time\<rparr>,
     \<lparr>failureStreak = 1, lastFailure = now, blockUntil = zero_time, transientTouched = now\<rparr>)"
  by (simp add: fail_entry_def zero_transient_def Let_def)

lemma fail_entry_next:
  assumes "l \<noteq> zero_time" "l \<le> now" "now - l \<le> openAIModelTransientStreakTTL" "failureStreak e = int n" "lastFailure e = l" "1 \<le> n"
  shows "fail_entry now (Some e) =
    (\<lparr>FailureStreak = int (Suc n), Cooldown = cooldown_of (Suc n), BlockUntil = now + cooldown_of (Suc n)\<rparr>,
     e\<lparr>failureStreak := int (Suc n), lastFailure := now, blockUntil := now + cooldown_of (Suc n), transientTouched := now\<rparr>)"
proof -
  have "\<not> openAIModelTransientStreakTTL < time_sub now l"
    using assms(2,3) by (auto simp: time_sub_def transient_consts minute_def second_def min_duration_def)
  then show ?thesis using assms
    by (auto simp: fail_entry_def Let_def cooldown_of_def transient_consts second_def)
qed

text \<open>The schedule of the cool-downs: of consecutive failures of a pair, each within half an hour of the
  one before, the first only counts, the second blocks the pair for 10 seconds and every further one
  for 45 seconds, each counted from its failure.  After the run, the pair is blocked exactly until the
  last cool-down ends, and a success unblocks it at once.\<close>

theorem transient_cooldown_schedule:
  assumes "openAIAccountModelTransientKey ucase a model = Some k" "0 < m" "map_of es k = None"
    and "ts \<noteq> []" "zero_time < hd ts" "successively (\<lambda>t u. t \<le> u \<and> u - t \<le> 30 * minute) ts"
  shows "case run_steps (transient_step ucase m) (map (\<lambda>t. Failed visit a model t clock) ts) es of (outs, es') \<Rightarrow>
    outs = map (\<lambda>i. Decided \<lparr>FailureStreak = int (Suc i), Cooldown = cooldown_of (Suc i),
        BlockUntil = (if i = 0 then zero_time else ts ! i + cooldown_of (Suc i))\<rparr>) [0..<length ts] \<and>
    (\<forall>now. zero_time < now \<longrightarrow> (\<forall>c. fst (transient_isBlocked ucase c a model now es') \<longleftrightarrow>
       2 \<le> length ts \<and> now < List.last ts + cooldown_of (length ts))) \<and>
    (\<forall>now c. \<not> fst (transient_isBlocked ucase c a model now (transient_recordSuccess ucase a model es')))"
proof -
  have "length us < length ts \<or> us = ts \<Longrightarrow> us \<noteq> [] \<Longrightarrow> prefix us ts \<Longrightarrow>
    \<exists>es' e. run_steps (transient_step ucase m) (map (\<lambda>t. Failed visit a model t clock) us) es =
      (map (\<lambda>i. Decided \<lparr>FailureStreak = int (Suc i), Cooldown = cooldown_of (Suc i),
         BlockUntil = (if i = 0 then zero_time else us ! i + cooldown_of (Suc i))\<rparr>) [0..<length us], es') \<and>
    map_of es' k = Some e \<and> failureStreak e = int (length us) \<and> lastFailure e = List.last us \<and> zero_time < List.last us \<and>
    blockUntil e = (if length us = 1 then zero_time else List.last us + cooldown_of (length us))" for us
  proof (induction us rule: rev_induct)
    case (snoc t us)
    show ?case
    proof (cases "us = []")
      case True
      then have "t = hd ts" using snoc.prems by (cases ts) auto
      then have "t \<noteq> zero_time" "zero_time < t" using assms(5) by simp_all
      then show ?thesis using True
        by (simp add: run_steps_Cons transient_fail_step [OF assms(1,2)] assms(3) fail_entry_first cooldown_of_def
              AList.update_conv' del: run_steps.simps(2) transient_step.simps)
    next
      case False
      have "prefix us ts" using snoc.prems(3) append_prefixD by blast
      moreover have "length us < length ts" using snoc.prems(3) prefix_length_le [of "us @ [t]" ts] by simp
      ultimately obtain es' e where IH: "run_steps (transient_step ucase m) (map (\<lambda>t. Failed visit a model t clock) us) es =
          (map (\<lambda>i. Decided \<lparr>FailureStreak = int (Suc i), Cooldown = cooldown_of (Suc i),
            BlockUntil = (if i = 0 then zero_time else us ! i + cooldown_of (Suc i))\<rparr>) [0..<length us], es')"
        "map_of es' k = Some e" "failureStreak e = int (length us)" "lastFailure e = List.last us" "zero_time < List.last us"
        using snoc.IH False by blast
      obtain vs where "ts = us @ t # vs" using snoc.prems(3) by (auto simp: prefix_def)
      then have gap: "List.last us \<le> t" "t - List.last us \<le> openAIModelTransientStreakTTL"
        using assms(6) False by (auto simp: successively_append_iff transient_consts)
      have n: "1 \<le> length us" using False by (cases us) auto
      have t: "zero_time < t" using gap(1) IH(5) by simp
      note nxt = fail_entry_next [OF _ gap IH(3,4) n]
      have "transient_step ucase m (Failed visit a model t clock) es' =
          (Decided \<lparr>FailureStreak = int (Suc (length us)), Cooldown = cooldown_of (Suc (length us)),
             BlockUntil = t + cooldown_of (Suc (length us))\<rparr>,
           AList.update k (e\<lparr>failureStreak := int (Suc (length us)), lastFailure := t,
             blockUntil := t + cooldown_of (Suc (length us)), transientTouched := t\<rparr>) es')"
        using nxt IH(2,5) t by (simp add: transient_fail_step [OF assms(1,2)] del: transient_step.simps)
      then show ?thesis using IH(1) t False
        by (simp add: run_steps_append run_steps_outputs_append run_steps_Cons AList.update_conv' prod_eq_iff nth_append
              del: run_steps.simps(2) transient_step.simps)
    qed
  qed simp
  from this [of ts] assms(4) obtain es' e where r: "run_steps (transient_step ucase m) (map (\<lambda>t. Failed visit a model t clock) ts) es =
      (map (\<lambda>i. Decided \<lparr>FailureStreak = int (Suc i), Cooldown = cooldown_of (Suc i),
         BlockUntil = (if i = 0 then zero_time else ts ! i + cooldown_of (Suc i))\<rparr>) [0..<length ts], es')"
    "map_of es' k = Some e" "lastFailure e = List.last ts" "zero_time < List.last ts"
    "blockUntil e = (if length ts = 1 then zero_time else List.last ts + cooldown_of (length ts))" by auto
  have "fst (transient_isBlocked ucase c a model now es') \<longleftrightarrow> 2 \<le> length ts \<and> now < List.last ts + cooldown_of (length ts)"
    if "zero_time < now" for now c
  proof -
    have "now < List.last ts + cooldown_of (length ts) \<Longrightarrow> \<not> openAIModelTransientStreakTTL < time_sub now (List.last ts)"
      by (auto simp: time_sub_def transient_consts cooldown_of_def minute_def second_def min_duration_def split: if_splits)
    moreover have "length ts = 1 \<or> 2 \<le> length ts" using assms(4) by (cases ts; cases "tl ts") auto
    ultimately show ?thesis using r(2-5) that
      by (auto simp: transient_isBlocked_def assms(1) Let_def cooldown_of_def second_def zero_time_def)
  qed
  moreover have "\<not> fst (transient_isBlocked ucase c a model now (transient_recordSuccess ucase a model es'))" for now c
    by (simp add: transient_isBlocked_def transient_recordSuccess_def assms(1) AList.delete_conv' Let_def)
  ultimately show ?thesis using r(1) by simp
qed

lemma gpt_lower: "ToLower id ''GPT'' = ''gpt''" "ToLower id ''gpt'' = ''gpt''"
  by code_simp+

theorem transient_isolates_pairs_witness:
  "outputs_for (transient_key id) (3, ''gpt'') [Failed rev 3 ''GPT'' 5 5, Failed rev 4 ''gpt'' 6 6, Failed rev 3 ''gpt'' 7 7]
     (fst (run_steps (transient_step id (newOpenAIAccountModelTransientState 0))
       [Failed rev 3 ''GPT'' 5 5, Failed rev 4 ''gpt'' 6 6, Failed rev 3 ''gpt'' 7 7] [])) =
   fst (run_steps (transient_step id (newOpenAIAccountModelTransientState 0)) [Failed rev 3 ''GPT'' 5 5, Failed rev 3 ''gpt'' 7 7] [])"
proof -
  have key: "normalizeOpenAIAccountModelTransientModel id ''GPT'' = ''gpt''" "normalizeOpenAIAccountModelTransientModel id ''gpt'' = ''gpt''"
    by (simp_all add: normalizeOpenAIAccountModelTransientModel_def TrimSpace_printable Let_def
      openAIModelTransientMaxModelBytes_def gpt_lower)
  have "newOpenAIAccountModelTransientState 0 = 4096" by code_simp
  then show ?thesis
    using transient_isolates_pairs [of "[Failed rev 3 ''GPT'' 5 5, Failed rev 4 ''gpt'' 6 6, Failed rev 3 ''gpt'' 7 7]" id 0 "(3, ''gpt'')"]
    by (simp add: key card_insert_if del: run_steps.simps transient_step.simps)
qed

theorem transient_cooldown_schedule_witness:
  "fst (run_steps (transient_step id 5) (map (\<lambda>t. Failed rev 3 ''gpt'' t 0) [60 * second, 90 * second]) []) =
   [Decided \<lparr>FailureStreak = 1, Cooldown = 0, BlockUntil = 0\<rparr>,
    Decided \<lparr>FailureStreak = 2, Cooldown = 10 * second, BlockUntil = 100 * second\<rparr>]"
proof -
  have key: "openAIAccountModelTransientKey id 3 ''gpt'' = Some (3, ''gpt'')"
    by (simp add: openAIAccountModelTransientKey_def normalizeOpenAIAccountModelTransientModel_def TrimSpace_printable Let_def
      openAIModelTransientMaxModelBytes_def gpt_lower)
  show ?thesis
    using transient_cooldown_schedule [OF key, of 5 "[]" "[60 * second, 90 * second]" rev 0]
    by (simp add: case_prod_beta cooldown_of_def second_def minute_def zero_time_def upt_rec del: run_steps.simps transient_step.simps)
qed

end
