(* ===== verification/Account_Platform.thy ===== *)
theory Account_Platform
  imports Account_Model
begin

text \<open>
  What an upstream account is (\<^verbatim>\<open>service/account.go\<close>): the provider platform and the kind of credential,
  the protocol and the base address that follow from them, and the tokens each kind exposes.

  Receivers are not nil.  The Grok and relay addresses that go through \<^verbatim>\<open>net/url\<close> are left out.
\<close>

section \<open>Constants\<close>

definition PlatformQoder :: string where "PlatformQoder = ''qoder''"
definition PlatformKimi :: string where "PlatformKimi = ''kimi''"
definition PlatformZhipu :: string where "PlatformZhipu = ''zhipu''"
definition PlatformDeepseek :: string where "PlatformDeepseek = ''deepseek''"
definition AccountTypeUpstream :: string where "AccountTypeUpstream = ''upstream''"
definition AccountTypeCosy :: string where "AccountTypeCosy = ''cosy''"
definition AccountModePayG :: string where "AccountModePayG = ''payg''"
definition AccountModeCoding :: string where "AccountModeCoding = ''coding''"
definition APIProtocolChatCompletions :: string where "APIProtocolChatCompletions = ''chat_completions''"
definition APIProtocolAnthropic :: string where "APIProtocolAnthropic = ''anthropic''"
definition APIProtocolResponses :: string where "APIProtocolResponses = ''responses''"
definition APIProtocolAdaptive :: string where "APIProtocolAdaptive = ''adaptive''"
definition DefaultKimiPayGBaseURL :: string where "DefaultKimiPayGBaseURL = ''https://api.moonshot.cn/v1''"
definition DefaultKimiCodingBaseURL :: string where "DefaultKimiCodingBaseURL = ''https://api.kimi.com/coding/v1''"
definition DefaultZhipuPayGBaseURL :: string where "DefaultZhipuPayGBaseURL = ''https://open.bigmodel.cn/api/paas/v4''"
definition DefaultZhipuCodingBaseURL :: string where "DefaultZhipuCodingBaseURL = ''https://open.bigmodel.cn/api/coding/paas/v4''"
definition DefaultDeepseekBaseURL :: string where "DefaultDeepseekBaseURL = ''https://api.deepseek.com''"
definition DefaultKimiPayGAnthropicBaseURL :: string where
  "DefaultKimiPayGAnthropicBaseURL = ''https://api.moonshot.cn/anthropic''"
definition DefaultKimiCodingAnthropicBaseURL :: string where
  "DefaultKimiCodingAnthropicBaseURL = ''https://api.kimi.com/coding''"
definition DefaultZhipuAnthropicBaseURL :: string where
  "DefaultZhipuAnthropicBaseURL = ''https://open.bigmodel.cn/api/anthropic''"
definition DefaultDeepseekAnthropicBaseURL :: string where
  "DefaultDeepseekAnthropicBaseURL = ''https://api.deepseek.com/anthropic''"

lemmas platform_consts = account_consts PlatformQoder_def PlatformKimi_def PlatformZhipu_def PlatformDeepseek_def
  AccountTypeUpstream_def AccountTypeCosy_def AccountModePayG_def AccountModeCoding_def
  APIProtocolChatCompletions_def APIProtocolAnthropic_def APIProtocolResponses_def APIProtocolAdaptive_def

lemmas base_urls = DefaultKimiPayGBaseURL_def DefaultKimiCodingBaseURL_def DefaultZhipuPayGBaseURL_def
  DefaultZhipuCodingBaseURL_def DefaultDeepseekBaseURL_def DefaultKimiPayGAnthropicBaseURL_def
  DefaultKimiCodingAnthropicBaseURL_def DefaultZhipuAnthropicBaseURL_def DefaultDeepseekAnthropicBaseURL_def

section \<open>Platforms and kinds of credentials\<close>

definition IsGemini :: "'y Account_scheme \<Rightarrow> bool" where "IsGemini a \<longleftrightarrow> Platform a = PlatformGemini"
definition IsGrok :: "'y Account_scheme \<Rightarrow> bool" where "IsGrok a \<longleftrightarrow> Platform a = PlatformGrok"
definition IsGrokOAuth :: "'y Account_scheme \<Rightarrow> bool" where "IsGrokOAuth a \<longleftrightarrow> IsGrok a \<and> AccType a = AccountTypeOAuth"
definition IsKimi :: "'y Account_scheme \<Rightarrow> bool" where "IsKimi a \<longleftrightarrow> Platform a = PlatformKimi"
definition IsZhipu :: "'y Account_scheme \<Rightarrow> bool" where "IsZhipu a \<longleftrightarrow> Platform a = PlatformZhipu"
definition IsDeepseek :: "'y Account_scheme \<Rightarrow> bool" where "IsDeepseek a \<longleftrightarrow> Platform a = PlatformDeepseek"
definition isCNProviderPlatform :: "string \<Rightarrow> bool" where
  "isCNProviderPlatform platform \<longleftrightarrow> platform \<in> {PlatformKimi, PlatformZhipu, PlatformDeepseek}"
definition IsCNProvider :: "'y Account_scheme \<Rightarrow> bool" where "IsCNProvider a = isCNProviderPlatform (Platform a)"
definition IsOpenAICompatible :: "'y Account_scheme \<Rightarrow> bool" where
  "IsOpenAICompatible a \<longleftrightarrow> Platform a = PlatformOpenAI \<or> Platform a = PlatformGrok \<or>
     Platform a = PlatformKimi \<or> Platform a = PlatformZhipu \<or> Platform a = PlatformDeepseek"
definition IsOpenAI :: "'y Account_scheme \<Rightarrow> bool" where "IsOpenAI a \<longleftrightarrow> Platform a = PlatformOpenAI"
definition IsAnthropic :: "'y Account_scheme \<Rightarrow> bool" where "IsAnthropic a \<longleftrightarrow> Platform a = PlatformAnthropic"
definition IsQoder :: "'y Account_scheme \<Rightarrow> bool" where "IsQoder a \<longleftrightarrow> Platform a = PlatformQoder"
definition IsQoderCosy :: "'y Account_scheme \<Rightarrow> bool" where "IsQoderCosy a \<longleftrightarrow> IsQoder a \<and> AccType a = AccountTypeCosy"
definition IsOpenAIOAuth :: "'y Account_scheme \<Rightarrow> bool" where
  "IsOpenAIOAuth a \<longleftrightarrow> IsOpenAI a \<and> AccType a = AccountTypeOAuth"
definition IsOpenAIOAuthLike :: "'y Account_scheme \<Rightarrow> bool" where
  "IsOpenAIOAuthLike a \<longleftrightarrow> IsOpenAI a \<and> (AccType a = AccountTypeOAuth \<or> AccType a = AccountTypeSetupToken)"
definition UsesOpenAICodexProtocol :: "'y Account_scheme \<Rightarrow> bool" where
  "UsesOpenAICodexProtocol a \<longleftrightarrow> AccType a = AccountTypeOAuth \<or> IsOpenAIOAuthLike a"
definition IsOpenAIApiKey :: "'y Account_scheme \<Rightarrow> bool" where
  "IsOpenAIApiKey a \<longleftrightarrow> IsOpenAI a \<and> AccType a = AccountTypeAPIKey"
definition CanGetUsage :: "'y Account_scheme \<Rightarrow> bool" where "CanGetUsage a \<longleftrightarrow> AccType a = AccountTypeOAuth"
definition IsAnthropicOAuthOrSetupToken :: "'y Account_scheme \<Rightarrow> bool" where
  "IsAnthropicOAuthOrSetupToken a \<longleftrightarrow>
     Platform a = PlatformAnthropic \<and> (AccType a = AccountTypeOAuth \<or> AccType a = AccountTypeSetupToken)"

definition IsBedrockAPIKey :: "'z go_env_scheme \<Rightarrow> 'y Account_scheme \<Rightarrow> bool" where
  "IsBedrockAPIKey env a \<longleftrightarrow> IsBedrock a \<and> GetCredential env a ''auth_mode'' = ''apikey''"

lemmas kind_defs = IsGemini_def IsGrok_def IsGrokOAuth_def IsKimi_def IsZhipu_def IsDeepseek_def isCNProviderPlatform_def
  IsCNProvider_def IsOpenAICompatible_def IsOpenAI_def IsAnthropic_def IsQoder_def IsQoderCosy_def IsOpenAIOAuth_def
  IsOpenAIOAuthLike_def UsesOpenAICodexProtocol_def IsOpenAIApiKey_def CanGetUsage_def IsAnthropicOAuthOrSetupToken_def

definition IsPrivacySet :: "'y Account_scheme \<Rightarrow> bool" where
  "IsPrivacySet a \<longleftrightarrow>
     (if Platform a = PlatformOpenAI then getExtraString a ''privacy_mode'' = ''training_off''
      else if Platform a = PlatformAntigravity then getExtraString a ''privacy_mode'' = ''privacy_set''
      else True)"

definition isOpenAIPersonalAccessTokenAuthMode :: "'z go_env_scheme \<Rightarrow> string \<Rightarrow> bool" where
  "isOpenAIPersonalAccessTokenAuthMode env v \<longleftrightarrow>
     to_lower env (TrimSpace v) \<in> {''personalaccesstoken'', ''personal_access_token''}"

definition IsOpenAIChatGPTSubscription :: "'z go_env_scheme \<Rightarrow> 'y Account_scheme \<Rightarrow> bool" where
  "IsOpenAIChatGPTSubscription env a \<longleftrightarrow>
     IsOpenAIOAuth a \<and> to_lower env (TrimSpace (GetCredential env a ''plan_type'')) \<notin> {[], ''free'', ''abnormal''}"

definition IsOpenAIPersonalAccessToken :: "'z go_env_scheme \<Rightarrow> 'y Account_scheme \<Rightarrow> bool" where
  "IsOpenAIPersonalAccessToken env a \<longleftrightarrow>
     IsOpenAIOAuth a \<and>
     (isOpenAIPersonalAccessTokenAuthMode env (GetCredential env a ''auth_mode'') \<or>
      isOpenAIPersonalAccessTokenAuthMode env (GetCredential env a ''openai_auth_mode''))"

section \<open>Gemini\<close>

definition GeminiOAuthType :: "'z go_env_scheme \<Rightarrow> 'y Account_scheme \<Rightarrow> string" where
  "GeminiOAuthType env a =
     (if Platform a \<noteq> PlatformGemini \<or> AccType a \<noteq> AccountTypeOAuth then []
      else
        let oauthType = TrimSpace (GetCredential env a ''oauth_type'') in
        if oauthType = [] \<and> TrimSpace (GetCredential env a ''project_id'') \<noteq> [] then ''code_assist'' else oauthType)"

definition GeminiTierID :: "'z go_env_scheme \<Rightarrow> 'y Account_scheme \<Rightarrow> string" where
  "GeminiTierID env a = TrimSpace (GetCredential env a ''tier_id'')"

definition IsGeminiThirdPartyProvider :: "'z go_env_scheme \<Rightarrow> 'y Account_scheme \<Rightarrow> bool" where
  "IsGeminiThirdPartyProvider env a \<longleftrightarrow>
     Platform a = PlatformGemini \<and> AccType a = AccountTypeAPIKey \<and>
     EqualFold env (GetCredential env a ''provider_type'') ''third_party''"

definition IsGeminiCodeAssist :: "'z go_env_scheme \<Rightarrow> 'y Account_scheme \<Rightarrow> bool" where
  "IsGeminiCodeAssist env a \<longleftrightarrow>
     Platform a = PlatformGemini \<and> AccType a = AccountTypeOAuth \<and>
     (let oauthType = GeminiOAuthType env a in
      if oauthType = [] then TrimSpace (GetCredential env a ''project_id'') \<noteq> [] else oauthType = ''code_assist'')"

definition IsGeminiGoogleOne :: "'z go_env_scheme \<Rightarrow> 'y Account_scheme \<Rightarrow> bool" where
  "IsGeminiGoogleOne env a \<longleftrightarrow>
     Platform a = PlatformGemini \<and> AccType a = AccountTypeOAuth \<and> GeminiOAuthType env a = ''google_one''"

definition TrimRight :: "string \<Rightarrow> char \<Rightarrow> string" where
  "TrimRight s c = rev (dropWhile (\<lambda>d. d = c) (rev s))"

definition GetBaseURL :: "'z go_env_scheme \<Rightarrow> 'y Account_scheme \<Rightarrow> string" where
  "GetBaseURL env a =
     (if AccType a \<noteq> AccountTypeAPIKey then []
      else
        let baseURL = GetCredential env a ''base_url'' in
        if baseURL = [] then ''https://api.anthropic.com''
        else if Platform a = PlatformAntigravity then TrimRight baseURL CHR ''/'' @ ''/antigravity''
        else baseURL)"

definition GetGeminiBaseURL :: "'z go_env_scheme \<Rightarrow> 'y Account_scheme \<Rightarrow> string \<Rightarrow> string" where
  "GetGeminiBaseURL env a defaultBaseURL =
     (let baseURL = TrimSpace (GetCredential env a ''base_url'') in
      if baseURL = [] then defaultBaseURL
      else if Platform a = PlatformAntigravity \<and> AccType a = AccountTypeAPIKey
      then TrimRight baseURL CHR ''/'' @ ''/antigravity''
      else baseURL)"

section \<open>Chinese providers\<close>

definition GetAccountMode :: "'z go_env_scheme \<Rightarrow> 'y Account_scheme \<Rightarrow> string" where
  "GetAccountMode env a =
     (if \<not> IsCNProvider a then []
      else
        let mode = TrimSpace (GetCredential env a ''account_mode'') in
        if mode = AccountModePayG \<or> mode = AccountModeCoding then mode else AccountModePayG)"

definition IsCodingPlan :: "'z go_env_scheme \<Rightarrow> 'y Account_scheme \<Rightarrow> bool" where
  "IsCodingPlan env a \<longleftrightarrow> GetAccountMode env a = AccountModeCoding"

definition SupportsNativeCNResponses :: "'y Account_scheme \<Rightarrow> bool" where
  "SupportsNativeCNResponses a \<longleftrightarrow> Platform a \<in> {PlatformDeepseek, PlatformKimi}"

definition GetAPIProtocol :: "'z go_env_scheme \<Rightarrow> 'y Account_scheme \<Rightarrow> string" where
  "GetAPIProtocol env a =
     (if \<not> IsCNProvider a then APIProtocolChatCompletions
      else
        let p = TrimSpace (GetCredential env a ''api_protocol'') in
        if p = APIProtocolAdaptive then APIProtocolAdaptive
        else if p = APIProtocolAnthropic then APIProtocolAnthropic
        else if p = APIProtocolResponses \<and> SupportsNativeCNResponses a then APIProtocolResponses
        else APIProtocolChatCompletions)"

definition UsesNativeCNResponses :: "'z go_env_scheme \<Rightarrow> 'y Account_scheme \<Rightarrow> bool" where
  "UsesNativeCNResponses env a \<longleftrightarrow>
     SupportsNativeCNResponses a \<and> GetAPIProtocol env a \<in> {APIProtocolResponses, APIProtocolAdaptive}"

definition IsAdaptiveAPIProtocol :: "'z go_env_scheme \<Rightarrow> 'y Account_scheme \<Rightarrow> bool" where
  "IsAdaptiveAPIProtocol env a \<longleftrightarrow> GetAPIProtocol env a = APIProtocolAdaptive"

definition IsAnthropicProtocol :: "'z go_env_scheme \<Rightarrow> 'y Account_scheme \<Rightarrow> bool" where
  "IsAnthropicProtocol env a \<longleftrightarrow> GetAPIProtocol env a = APIProtocolAnthropic"

definition defaultCNProtocolBaseURL :: "'z go_env_scheme \<Rightarrow> 'y Account_scheme \<Rightarrow> string \<Rightarrow> string" where
  "defaultCNProtocolBaseURL env a protocol =
     (if protocol = APIProtocolAnthropic then
        (if Platform a = PlatformKimi then
           (if GetAccountMode env a = AccountModeCoding then DefaultKimiCodingAnthropicBaseURL else DefaultKimiPayGAnthropicBaseURL)
         else if Platform a = PlatformZhipu then DefaultZhipuAnthropicBaseURL
         else if Platform a = PlatformDeepseek then DefaultDeepseekAnthropicBaseURL
         else [])
      else if protocol = APIProtocolChatCompletions \<or> protocol = APIProtocolResponses then
        (if Platform a = PlatformKimi then
           (if GetAccountMode env a = AccountModeCoding then DefaultKimiCodingBaseURL else DefaultKimiPayGBaseURL)
         else if Platform a = PlatformZhipu then
           (if GetAccountMode env a = AccountModeCoding then DefaultZhipuCodingBaseURL else DefaultZhipuPayGBaseURL)
         else if Platform a = PlatformDeepseek then DefaultDeepseekBaseURL
         else [])
      else [])"

text \<open>The address that \<^verbatim>\<open>api_base_urls\<close> configures for a protocol, if it is a string that is not blank.\<close>

definition configured_base_url :: "'y Account_scheme \<Rightarrow> string \<Rightarrow> string option" where
  "configured_base_url a protocol =
     (case as_map (entry_of (Credentials a) ''api_base_urls'') of
        None \<Rightarrow> None
      | Some m \<Rightarrow>
          (case as_string (lookup m protocol) of
             None \<Rightarrow> None
           | Some u \<Rightarrow> if TrimSpace u \<noteq> [] then Some (TrimSpace u) else None))"

definition GetCNProtocolBaseURL :: "'z go_env_scheme \<Rightarrow> 'y Account_scheme \<Rightarrow> string \<Rightarrow> string" where
  "GetCNProtocolBaseURL env a protocol =
     (if \<not> IsCNProvider a then []
      else if IsAdaptiveAPIProtocol env a
      then (case configured_base_url a protocol of
              Some u \<Rightarrow> u
            | None \<Rightarrow>
                if protocol = APIProtocolChatCompletions \<and> TrimSpace (GetCredential env a ''base_url'') \<noteq> []
                then TrimSpace (GetCredential env a ''base_url'')
                else defaultCNProtocolBaseURL env a protocol)
      else defaultCNProtocolBaseURL env a protocol)"

definition GetOpenAIBaseURL :: "'z go_env_scheme \<Rightarrow> 'y Account_scheme \<Rightarrow> string" where
  "GetOpenAIBaseURL env a =
     (if \<not> IsOpenAI a \<and> \<not> IsCNProvider a then []
      else
        case (if IsCNProvider a \<and> IsAdaptiveAPIProtocol env a then configured_base_url a APIProtocolChatCompletions else None) of
          Some u \<Rightarrow> u
        | None \<Rightarrow>
            if (AccType a = AccountTypeAPIKey \<or> AccType a = AccountTypeUpstream) \<and> TrimSpace (GetCredential env a ''base_url'') \<noteq> []
            then TrimSpace (GetCredential env a ''base_url'')
            else if Platform a = PlatformKimi then
              (if GetAccountMode env a = AccountModeCoding then DefaultKimiCodingBaseURL else DefaultKimiPayGBaseURL)
            else if Platform a = PlatformZhipu then
              (if GetAccountMode env a = AccountModeCoding then DefaultZhipuCodingBaseURL else DefaultZhipuPayGBaseURL)
            else if Platform a = PlatformDeepseek then DefaultDeepseekBaseURL
            else ''https://api.openai.com'')"

definition GetAnthropicProtocolBaseURL :: "'z go_env_scheme \<Rightarrow> 'y Account_scheme \<Rightarrow> string" where
  "GetAnthropicProtocolBaseURL env a =
     (if \<not> IsAnthropicProtocol env a \<and> \<not> IsAdaptiveAPIProtocol env a then []
      else if IsAdaptiveAPIProtocol env a then GetCNProtocolBaseURL env a APIProtocolAnthropic
      else if (AccType a = AccountTypeAPIKey \<or> AccType a = AccountTypeUpstream) \<and> TrimSpace (GetCredential env a ''base_url'') \<noteq> []
      then TrimSpace (GetCredential env a ''base_url'')
      else if Platform a = PlatformKimi then
        (if GetAccountMode env a = AccountModeCoding then DefaultKimiCodingAnthropicBaseURL else DefaultKimiPayGAnthropicBaseURL)
      else if Platform a = PlatformZhipu then DefaultZhipuAnthropicBaseURL
      else if Platform a = PlatformDeepseek then DefaultDeepseekAnthropicBaseURL
      else [])"

definition isDefaultCNAnthropicBaseURL :: "string \<Rightarrow> bool" where
  "isDefaultCNAnthropicBaseURL baseURL \<longleftrightarrow>
     TrimRight (TrimSpace baseURL) CHR ''/'' \<in>
       {DefaultKimiPayGAnthropicBaseURL, DefaultKimiCodingAnthropicBaseURL, DefaultZhipuAnthropicBaseURL, DefaultDeepseekAnthropicBaseURL}"

definition GetCNAPIKey :: "'z go_env_scheme \<Rightarrow> 'y Account_scheme \<Rightarrow> string" where
  "GetCNAPIKey env a = (if \<not> IsCNProvider a then [] else GetCredential env a ''api_key'')"

definition GetCodingPlanProvider :: "'z go_env_scheme \<Rightarrow> 'y Account_scheme \<Rightarrow> string" where
  "GetCodingPlanProvider env a =
     (if GetAccountMode env a \<noteq> AccountModeCoding then []
      else if Platform a = PlatformKimi then PlatformKimi
      else if Platform a = PlatformZhipu then PlatformZhipu
      else [])"

section \<open>Tokens and identities\<close>

definition GetOpenAIAccessToken :: "'z go_env_scheme \<Rightarrow> 'y Account_scheme \<Rightarrow> string" where
  "GetOpenAIAccessToken env a = (if \<not> IsOpenAI a then [] else GetCredential env a ''access_token'')"
definition GetOpenAIRefreshToken :: "'z go_env_scheme \<Rightarrow> 'y Account_scheme \<Rightarrow> string" where
  "GetOpenAIRefreshToken env a = (if \<not> IsOpenAIOAuth a then [] else GetCredential env a ''refresh_token'')"
definition GetGrokAccessToken :: "'z go_env_scheme \<Rightarrow> 'y Account_scheme \<Rightarrow> string" where
  "GetGrokAccessToken env a = (if \<not> IsGrok a then [] else GetCredential env a ''access_token'')"
definition GetGrokRefreshToken :: "'z go_env_scheme \<Rightarrow> 'y Account_scheme \<Rightarrow> string" where
  "GetGrokRefreshToken env a = (if \<not> IsGrokOAuth a then [] else GetCredential env a ''refresh_token'')"
definition GetOpenAIIDToken :: "'z go_env_scheme \<Rightarrow> 'y Account_scheme \<Rightarrow> string" where
  "GetOpenAIIDToken env a = (if \<not> IsOpenAIOAuth a then [] else GetCredential env a ''id_token'')"
definition GetOpenAIApiKey :: "'z go_env_scheme \<Rightarrow> 'y Account_scheme \<Rightarrow> string" where
  "GetOpenAIApiKey env a = (if \<not> IsOpenAIApiKey a then [] else GetCredential env a ''api_key'')"
definition GetOpenAIProtocolAPIKey :: "'z go_env_scheme \<Rightarrow> 'y Account_scheme \<Rightarrow> string" where
  "GetOpenAIProtocolAPIKey env a =
     (if IsCNProvider a then (if AccType a \<noteq> AccountTypeAPIKey then [] else GetCredential env a ''api_key'')
      else GetOpenAIApiKey env a)"
definition GetOpenAIUserAgent :: "'z go_env_scheme \<Rightarrow> 'y Account_scheme \<Rightarrow> string" where
  "GetOpenAIUserAgent env a = (if \<not> IsOpenAI a then [] else GetCredential env a ''user_agent'')"
definition GetChatGPTAccountID :: "'z go_env_scheme \<Rightarrow> 'y Account_scheme \<Rightarrow> string" where
  "GetChatGPTAccountID env a = (if \<not> IsOpenAIOAuthLike a then [] else GetCredential env a ''chatgpt_account_id'')"
definition GetOpenAIDeviceID :: "'y Account_scheme \<Rightarrow> string" where
  "GetOpenAIDeviceID a = (if \<not> IsOpenAIOAuth a then [] else TrimSpace (getExtraString a ''openai_device_id''))"
definition GetOpenAISessionID :: "'y Account_scheme \<Rightarrow> string" where
  "GetOpenAISessionID a = (if \<not> IsOpenAIOAuth a then [] else TrimSpace (getExtraString a ''openai_session_id''))"
definition GetChatGPTUserID :: "'z go_env_scheme \<Rightarrow> 'y Account_scheme \<Rightarrow> string" where
  "GetChatGPTUserID env a = (if \<not> IsOpenAIOAuth a then [] else GetCredential env a ''chatgpt_user_id'')"
definition GetOpenAIOrganizationID :: "'z go_env_scheme \<Rightarrow> 'y Account_scheme \<Rightarrow> string" where
  "GetOpenAIOrganizationID env a = (if \<not> IsOpenAIOAuth a then [] else GetCredential env a ''organization_id'')"

definition GetOpenAITokenExpiresAt :: "'z go_env_scheme \<Rightarrow> 'y Account_scheme \<Rightarrow> gtime option" where
  "GetOpenAITokenExpiresAt env a = (if \<not> IsOpenAIOAuth a then None else GetCredentialAsTime env a ''expires_at'')"

definition IsOpenAITokenExpired :: "'z go_env_scheme \<Rightarrow> 'y Account_scheme \<Rightarrow> gtime \<Rightarrow> bool" where
  "IsOpenAITokenExpired env a now =
     (case GetOpenAITokenExpiresAt env a of None \<Rightarrow> False | Some e \<Rightarrow> e < now + 60 * second)"

text \<open>\<^verbatim>\<open>strconv.ParseBool\<close>.\<close>

definition ParseBool :: "string \<Rightarrow> bool option" where
  "ParseBool s =
     (if s \<in> {''1'', ''t'', ''T'', ''true'', ''TRUE'', ''True''} then Some True
      else if s \<in> {''0'', ''f'', ''F'', ''false'', ''FALSE'', ''False''} then Some False
      else None)"

definition IsChatGPTAccountFedRAMP :: "'y Account_scheme \<Rightarrow> bool" where
  "IsChatGPTAccountFedRAMP a \<longleftrightarrow>
     (if \<not> IsOpenAIOAuthLike a then False
      else case entry_of (Credentials a) ''chatgpt_account_is_fedramp'' of
             BoolV b \<Rightarrow> b
           | StringV s \<Rightarrow> ParseBool (TrimSpace s) = Some True
           | NumberV s \<Rightarrow> ParseBool s = Some True
           | Float64V f \<Rightarrow> f \<noteq> Fin 0
           | IntV i \<Rightarrow> i \<noteq> 0
           | Int64V i \<Rightarrow> i \<noteq> 0
           | _ \<Rightarrow> False)"

definition GetClaudeUserID :: "'z go_env_scheme \<Rightarrow> 'y Account_scheme \<Rightarrow> string" where
  "GetClaudeUserID env a =
     (if TrimSpace (getExtraString a ''claude_user_id'') \<noteq> [] then TrimSpace (getExtraString a ''claude_user_id'')
      else if TrimSpace (getExtraString a ''anthropic_user_id'') \<noteq> [] then TrimSpace (getExtraString a ''anthropic_user_id'')
      else if TrimSpace (GetCredential env a ''claude_user_id'') \<noteq> [] then TrimSpace (GetCredential env a ''claude_user_id'')
      else TrimSpace (GetCredential env a ''anthropic_user_id''))"

section \<open>Anthropic, TLS and relay switches\<close>

definition normalizeAccountNotes :: "string option \<Rightarrow> string option" where
  "normalizeAccountNotes v =
     (case v of None \<Rightarrow> None | Some s \<Rightarrow> if TrimSpace s = [] then None else Some (TrimSpace s))"

definition SupportsTLSFingerprint :: "'y Account_scheme \<Rightarrow> bool" where
  "SupportsTLSFingerprint a \<longleftrightarrow>
     (if IsAnthropicOAuthOrSetupToken a then True
      else (Platform a = PlatformOpenAI \<and> (AccType a = AccountTypeOAuth \<or> AccType a = AccountTypeAPIKey)) \<or>
           (IsCNProvider a \<and> AccType a = AccountTypeAPIKey) \<or> IsQoderCosy a)"
definition IsTLSFingerprintEnabled :: "'y Account_scheme \<Rightarrow> bool" where
  "IsTLSFingerprintEnabled a \<longleftrightarrow> SupportsTLSFingerprint a \<and> getExtraBool a ''enable_tls_fingerprint''"

text \<open>An identifier in the extra map: a number of any kind, but not a string.\<close>

definition extra_id :: "'z go_env_scheme \<Rightarrow> any \<Rightarrow> int64" where
  "extra_id env v =
     (case v of
        Float64V f \<Rightarrow> int_of_float env f
      | Int64V i \<Rightarrow> i
      | IntV i \<Rightarrow> i
      | NumberV s \<Rightarrow> (case ParseInt s of Some i \<Rightarrow> i | None \<Rightarrow> 0)
      | _ \<Rightarrow> 0)"
definition GetTLSFingerprintProfileID :: "'z go_env_scheme \<Rightarrow> 'y Account_scheme \<Rightarrow> int64" where
  "GetTLSFingerprintProfileID env a = extra_id env (entry_of (Extra a) ''tls_fingerprint_profile_id'')"
definition GetTLSFingerprintRouterID :: "'z go_env_scheme \<Rightarrow> 'y Account_scheme \<Rightarrow> int64" where
  "GetTLSFingerprintRouterID env a = extra_id env (entry_of (Extra a) ''tls_fingerprint_router_id'')"

definition GetUserMsgQueueMode :: "'y Account_scheme \<Rightarrow> string" where
  "GetUserMsgQueueMode a =
     (case as_string (entry_of (Extra a) ''user_msg_queue_mode'') of
        Some mode \<Rightarrow>
          if mode \<noteq> [] then (if mode = ''serialize'' \<or> mode = ''throttle'' then mode else [])
          else if getExtraBool a ''user_msg_queue_enabled'' then ''serialize'' else []
      | None \<Rightarrow> if getExtraBool a ''user_msg_queue_enabled'' then ''serialize'' else [])"

definition IsSessionIDMaskingEnabled :: "'y Account_scheme \<Rightarrow> bool" where
  "IsSessionIDMaskingEnabled a \<longleftrightarrow> IsAnthropicOAuthOrSetupToken a \<and> getExtraBool a ''session_id_masking_enabled''"
definition IsCustomBaseURLEnabled :: "'y Account_scheme \<Rightarrow> bool" where
  "IsCustomBaseURLEnabled a \<longleftrightarrow> IsAnthropicOAuthOrSetupToken a \<and> getExtraBool a ''custom_base_url_enabled''"
definition GetCustomBaseURL :: "'y Account_scheme \<Rightarrow> string" where
  "GetCustomBaseURL a = getExtraString a ''custom_base_url''"
definition IsCacheTTLOverrideEnabled :: "'y Account_scheme \<Rightarrow> bool" where
  "IsCacheTTLOverrideEnabled a \<longleftrightarrow> IsAnthropicOAuthOrSetupToken a \<and> getExtraBool a ''cache_ttl_override_enabled''"
definition GetCacheTTLOverrideTarget :: "'y Account_scheme \<Rightarrow> string" where
  "GetCacheTTLOverrideTarget a =
     (case as_string (entry_of (Extra a) ''cache_ttl_override_target'') of
        Some target \<Rightarrow> if target = ''5m'' \<or> target = ''1h'' then target else ''5m''
      | None \<Rightarrow> ''5m'')"

definition IsMixedSchedulingEnabled :: "'y Account_scheme \<Rightarrow> bool" where
  "IsMixedSchedulingEnabled a \<longleftrightarrow> Platform a = PlatformAntigravity \<and> getExtraBool a ''mixed_scheduling''"
definition IsOveragesEnabled :: "'y Account_scheme \<Rightarrow> bool" where
  "IsOveragesEnabled a \<longleftrightarrow> Platform a = PlatformAntigravity \<and> getExtraBool a ''allow_overages''"
definition IsAnthropicAPIKeyPassthroughEnabled :: "'y Account_scheme \<Rightarrow> bool" where
  "IsAnthropicAPIKeyPassthroughEnabled a \<longleftrightarrow>
     Platform a = PlatformAnthropic \<and> AccType a = AccountTypeAPIKey \<and> getExtraBool a ''anthropic_passthrough''"

definition GetWebSearchEmulationMode :: "'y Account_scheme \<Rightarrow> string" where
  "GetWebSearchEmulationMode a =
     (if Platform a \<noteq> PlatformAnthropic \<or> AccType a \<noteq> AccountTypeAPIKey then ''default''
      else case entry_of (Extra a) ''web_search_emulation'' of
             BoolV b \<Rightarrow> if b then ''enabled'' else ''default''
           | StringV mode \<Rightarrow> if mode = ''enabled'' \<or> mode = ''disabled'' then mode else ''default''
           | _ \<Rightarrow> ''default'')"

definition QuotaNotifyConfig :: "'z go_env_scheme \<Rightarrow> 'y Account_scheme \<Rightarrow> string \<Rightarrow> bool \<times> float64 \<times> string" where
  "QuotaNotifyConfig env a dm =
     (getExtraBool a (''quota_notify_'' @ dm @ ''_enabled''),
      getExtraFloat64 env a (''quota_notify_'' @ dm @ ''_threshold''),
      getExtraStringDefault a (''quota_notify_'' @ dm @ ''_threshold_type'') ''fixed'')"

section \<open>Addresses of the Chinese providers\<close>

lemma default_cn_url_nonempty:
  "IsCNProvider a \<Longrightarrow> protocol \<in> {APIProtocolChatCompletions, APIProtocolAnthropic, APIProtocolResponses} \<Longrightarrow>
    defaultCNProtocolBaseURL env a protocol \<noteq> []"
  by (auto simp: defaultCNProtocolBaseURL_def IsCNProvider_def isCNProviderPlatform_def platform_consts base_urls)

lemma configured_base_url_nonempty: "configured_base_url a protocol = Some u \<Longrightarrow> u \<noteq> []"
  by (auto simp: configured_base_url_def split: option.splits if_splits)

text \<open>Every account of a Chinese provider has an address for each of the three protocols, whatever its
  credentials hold, and accounts of other platforms have none.  For an adaptive account with an API key,
  the two places that compute its chat address agree, and so do the two that compute its Anthropic
  address.\<close>

theorem cn_protocol_addresses:
  assumes "protocol \<in> {APIProtocolChatCompletions, APIProtocolAnthropic, APIProtocolResponses}"
  shows "(GetCNProtocolBaseURL env a protocol \<noteq> [] \<longleftrightarrow> IsCNProvider a) \<and>
    (IsCNProvider a \<and> IsAdaptiveAPIProtocol env a \<and> AccType a = AccountTypeAPIKey \<longrightarrow>
       GetOpenAIBaseURL env a = GetCNProtocolBaseURL env a APIProtocolChatCompletions \<and>
       GetAnthropicProtocolBaseURL env a = GetCNProtocolBaseURL env a APIProtocolAnthropic)"
proof (intro conjI impI)
  show "GetCNProtocolBaseURL env a protocol \<noteq> [] \<longleftrightarrow> IsCNProvider a"
    using default_cn_url_nonempty [of a protocol env] assms configured_base_url_nonempty
    by (auto simp: GetCNProtocolBaseURL_def split: option.split)
next
  assume a: "IsCNProvider a \<and> IsAdaptiveAPIProtocol env a \<and> AccType a = AccountTypeAPIKey"
  then show "GetOpenAIBaseURL env a = GetCNProtocolBaseURL env a APIProtocolChatCompletions"
    by (auto simp: GetOpenAIBaseURL_def GetCNProtocolBaseURL_def defaultCNProtocolBaseURL_def IsCNProvider_def
          isCNProviderPlatform_def platform_consts split: option.split)
  show "GetAnthropicProtocolBaseURL env a = GetCNProtocolBaseURL env a APIProtocolAnthropic"
    using a by (simp add: GetAnthropicProtocolBaseURL_def)
qed

theorem cn_protocol_addresses_witness:
  "GetCNProtocolBaseURL demo_go_env (demo_account\<lparr>Platform := PlatformZhipu, Credentials := None\<rparr>) APIProtocolAnthropic \<noteq> []"
  using cn_protocol_addresses [of APIProtocolAnthropic demo_go_env "demo_account\<lparr>Platform := PlatformZhipu, Credentials := None\<rparr>"]
  by (simp add: IsCNProvider_def isCNProviderPlatform_def)

end
