(* ===== verification/Account_OpenAI.thy ===== *)
theory Account_OpenAI
  imports Account_Platform
begin

text \<open>
  OpenAI-family accounts (\<^verbatim>\<open>service/account.go\<close>): the switches in their extra map, the workloads they
  take, the text protocol towards the upstream (\<^verbatim>\<open>pkg/openai_compat/upstream_capability.go\<close>) and the
  transport (\<^verbatim>\<open>service/openai_ws_protocol_resolver.go\<close>).

  For Grok accounts the billing snapshot and the verdict on the free tier are arguments.
\<close>

section \<open>Text protocol\<close>

datatype TextRouteMode = PreserveClientProtocol | ForceResponses | ForceChatCompletions
datatype ResponsesProbeStatus = ProbeSupported | ProbeUnsupported | ProbeUnknown
datatype TextProtocol = TextChatCompletions | TextResponses

definition NormalizeTextRouteMode :: "string \<Rightarrow> TextRouteMode" where
  "NormalizeTextRouteMode mode =
     (if mode = ''force_responses'' then ForceResponses
      else if mode = ''force_chat_completions'' then ForceChatCompletions
      else PreserveClientProtocol)"

definition NormalizeResponsesProbeStatus :: "string \<Rightarrow> ResponsesProbeStatus" where
  "NormalizeResponsesProbeStatus status =
     (if status = ''supported'' then ProbeSupported
      else if status = ''unsupported'' then ProbeUnsupported
      else ProbeUnknown)"

definition string_or_empty :: "any \<Rightarrow> string" where
  "string_or_empty v = (case as_string v of None \<Rightarrow> [] | Some s \<Rightarrow> s)"

definition ResolveTextRouteMode :: "any_map option \<Rightarrow> TextRouteMode" where
  "ResolveTextRouteMode extra = NormalizeTextRouteMode (string_or_empty (entry_of extra ''openai_text_route_mode''))"

definition ResolveResponsesProbeStatus :: "any_map option \<Rightarrow> ResponsesProbeStatus" where
  "ResolveResponsesProbeStatus extra = NormalizeResponsesProbeStatus (string_or_empty (entry_of extra ''openai_responses_probe_status''))"

definition ResolveResponsesContinuationSupported :: "any_map option \<Rightarrow> bool" where
  "ResolveResponsesContinuationSupported extra = (as_bool (entry_of extra ''openai_responses_continuation_supported'') = Some True)"

definition ResolveUpstreamTextProtocol :: "any_map option \<Rightarrow> TextProtocol \<Rightarrow> TextProtocol" where
  "ResolveUpstreamTextProtocol extra preferred =
     (case ResolveTextRouteMode extra of
        ForceResponses \<Rightarrow> TextResponses
      | ForceChatCompletions \<Rightarrow> TextChatCompletions
      | PreserveClientProtocol \<Rightarrow>
          if preferred = TextChatCompletions then TextChatCompletions
          else if ResolveResponsesProbeStatus extra = ProbeUnsupported then TextChatCompletions
          else TextResponses)"

section \<open>Compaction\<close>

definition normalizeOpenAICompactMode :: "'z go_env_scheme \<Rightarrow> string \<Rightarrow> string" where
  "normalizeOpenAICompactMode env mode =
     (let m = to_lower env (TrimSpace mode) in if m = ''force_on'' \<or> m = ''force_off'' then m else ''auto'')"

definition GetOpenAICompactMode :: "'z go_env_scheme \<Rightarrow> 'y Account_scheme \<Rightarrow> string" where
  "GetOpenAICompactMode env a =
     (if \<not> IsOpenAI a \<or> Extra a = None then ''auto''
      else normalizeOpenAICompactMode env (string_or_empty (entry_of (Extra a) ''openai_compact_mode'')))"

definition OpenAICompactSupportKnown :: "'z go_env_scheme \<Rightarrow> 'y Account_scheme \<Rightarrow> bool \<times> bool" where
  "OpenAICompactSupportKnown env a =
     (if \<not> IsOpenAI a then (False, False)
      else if GetOpenAICompactMode env a = ''force_on'' then (True, True)
      else if GetOpenAICompactMode env a = ''force_off'' then (False, True)
      else case as_bool (entry_of (Extra a) ''openai_compact_supported'') of
             None \<Rightarrow> (False, False)
           | Some supported \<Rightarrow> (supported, True))"

definition AllowsOpenAICompact :: "'z go_env_scheme \<Rightarrow> 'y Account_scheme \<Rightarrow> bool" where
  "AllowsOpenAICompact env a \<longleftrightarrow>
     IsOpenAI a \<and> (case OpenAICompactSupportKnown env a of (supported, known) \<Rightarrow> if \<not> known then True else supported)"

definition GetOpenAINativeCompactionV2Mode :: "'z go_env_scheme \<Rightarrow> 'y Account_scheme \<Rightarrow> string" where
  "GetOpenAINativeCompactionV2Mode env a =
     (if \<not> IsOpenAI a \<or> Extra a = None then ''auto''
      else normalizeOpenAICompactMode env (string_or_empty (entry_of (Extra a) ''openai_native_compaction_v2_mode'')))"

definition OpenAINativeCompactionV2SupportKnown :: "'z go_env_scheme \<Rightarrow> 'y Account_scheme \<Rightarrow> bool \<times> bool" where
  "OpenAINativeCompactionV2SupportKnown env a =
     (if \<not> IsOpenAI a then (False, False)
      else if GetOpenAINativeCompactionV2Mode env a = ''force_on'' then (True, True)
      else if GetOpenAINativeCompactionV2Mode env a = ''force_off'' then (False, True)
      else case as_bool (entry_of (Extra a) ''openai_native_compaction_v2_supported'') of
             None \<Rightarrow> (False, False)
           | Some supported \<Rightarrow> (supported, True))"

definition AllowsOpenAINativeCompactionV2 :: "'z go_env_scheme \<Rightarrow> 'y Account_scheme \<Rightarrow> bool" where
  "AllowsOpenAINativeCompactionV2 env a \<longleftrightarrow>
     IsOpenAI a \<and> (case OpenAINativeCompactionV2SupportKnown env a of (supported, known) \<Rightarrow> \<not> known \<or> supported)"

section \<open>Workloads\<close>

text \<open>A capability is a string, as in the code; the empty one asks for nothing.\<close>

type_synonym OpenAIEndpointCapability = string

definition CapTextGeneration :: OpenAIEndpointCapability where "CapTextGeneration = ''text_generation''"
definition CapEmbeddings :: OpenAIEndpointCapability where "CapEmbeddings = ''embeddings''"
definition CapAlphaSearch :: OpenAIEndpointCapability where "CapAlphaSearch = ''alpha_search''"
definition CapLive :: OpenAIEndpointCapability where "CapLive = ''live''"
definition CapGrokMediaGeneration :: OpenAIEndpointCapability where "CapGrokMediaGeneration = ''grok_media_generation''"
definition CapResponses :: OpenAIEndpointCapability where "CapResponses = ''responses''"
definition CapRemoteCompactionV2 :: OpenAIEndpointCapability where "CapRemoteCompactionV2 = ''remote_compaction_v2''"

lemmas cap_consts = CapTextGeneration_def CapEmbeddings_def CapAlphaSearch_def CapLive_def CapGrokMediaGeneration_def
  CapResponses_def CapRemoteCompactionV2_def

record grok_billing =
  StatusCode :: int
  WeeklyStatusCode :: int
  MonthlyStatusCode :: int
  UsagePercent :: "float64 option"
  UsedPercent :: "float64 option"
  MonthlyLimitCents :: "float64 option"
  Plan :: string

definition grokBillingHasAuthoritativeQuota :: "grok_billing \<Rightarrow> bool" where
  "grokBillingHasAuthoritativeQuota b \<longleftrightarrow>
     UsagePercent b \<noteq> None \<or> UsedPercent b \<noteq> None \<or>
     (case MonthlyLimitCents b of None \<Rightarrow> False | Some c \<Rightarrow> flt (Fin 0) c) \<or> TrimSpace (Plan b) \<noteq> []"

definition grokMediaEligibilityOverride :: "any_map option \<Rightarrow> bool option" where
  "grokMediaEligibilityOverride extra = as_bool (entry_of extra ''grok_media_eligible'')"

definition GrokMediaGenerationEligibility :: "grok_billing option \<Rightarrow> bool \<Rightarrow> 'y Account_scheme \<Rightarrow> bool \<times> string" where
  "GrokMediaGenerationEligibility billing knownFree a =
     (if \<not> IsGrok a then (False, ''not_grok'')
      else case grokMediaEligibilityOverride (Extra a) of
        Some override \<Rightarrow> if override then (True, ''override_enabled'') else (False, ''override_disabled'')
      | None \<Rightarrow>
          if AccType a \<noteq> AccountTypeOAuth then (True, ''non_oauth'')
          else case billing of
            None \<Rightarrow> (False, ''billing_unobserved'')
          | Some b \<Rightarrow>
              if StatusCode b = 403 \<or> WeeklyStatusCode b = 403 \<or> MonthlyStatusCode b = 403 then (False, ''billing_forbidden'')
              else if knownFree then (False, ''billing_free_tier'')
              else if \<not> grokBillingHasAuthoritativeQuota b then (False, ''billing_inconclusive'')
              else (True, ''eligible''))"

definition IsOpenAIAgentIdentity :: "'z go_env_scheme \<Rightarrow> 'y Account_scheme \<Rightarrow> bool" where
  "IsOpenAIAgentIdentity env a \<longleftrightarrow>
     IsOpenAIOAuth a \<and> EqualFold env (TrimSpace (GetCredential env a ''auth_mode'')) ''agentIdentity''"

text \<open>The configured set of workloads; \<open>None\<close> when there is none.  Only an API key can switch all of
  them off with an empty container.\<close>

definition workload_names :: "'z go_env_scheme \<Rightarrow> string list \<Rightarrow> string set" where
  "workload_names env vs = set (filter (\<lambda>v. v \<noteq> []) (map (\<lambda>v. to_lower env (TrimSpace v)) vs))"

definition openAIWorkloadCapabilitySet :: "'z go_env_scheme \<Rightarrow> 'y Account_scheme \<Rightarrow> string set option" where
  "openAIWorkloadCapabilitySet env a =
     (case entry_of (Credentials a) ''openai_workload_capabilities'' of
        NilV \<Rightarrow> None
      | ListV items \<Rightarrow>
          if items = [] \<and> IsOpenAIOAuthLike a then None else Some (workload_names env (List.map_filter as_string items))
      | StringsV items \<Rightarrow>
          if items = [] \<and> IsOpenAIOAuthLike a then None else Some (workload_names env items)
      | MapV m \<Rightarrow>
          if m = [] \<and> IsOpenAIOAuthLike a then None
          else Some (workload_names env (map fst (filter (\<lambda>(k, v). as_bool v = Some True) m)))
      | _ \<Rightarrow> Some {})"

definition configured_for :: "'z go_env_scheme \<Rightarrow> 'y Account_scheme \<Rightarrow> OpenAIEndpointCapability \<Rightarrow> bool" where
  "configured_for env a capability =
     (case openAIWorkloadCapabilitySet env a of
        None \<Rightarrow> True
      | Some configured \<Rightarrow>
          (capability = CapAlphaSearch \<and> CapTextGeneration \<in> configured) \<or>
          capability \<in> configured)"

definition takes_responses :: "'z go_env_scheme \<Rightarrow> 'y Account_scheme \<Rightarrow> bool" where
  "takes_responses env a \<longleftrightarrow>
     \<not> (AccType a = AccountTypeAPIKey \<and> ResolveUpstreamTextProtocol (Extra a) TextResponses \<noteq> TextResponses) \<and>
     configured_for env a CapTextGeneration"

definition SupportsOpenAIEndpointCapability ::
  "'z go_env_scheme \<Rightarrow> grok_billing option \<Rightarrow> bool \<Rightarrow> 'y Account_scheme \<Rightarrow> OpenAIEndpointCapability \<Rightarrow> bool" where
  "SupportsOpenAIEndpointCapability env billing knownFree a capability =
     (if capability = [] then True
      else if \<not> IsOpenAICompatible a then False
      else if IsGrok a then
        (if capability = CapTextGeneration then True
         else if capability = CapGrokMediaGeneration then
           (case GrokMediaGenerationEligibility billing knownFree a of (eligible, reason) \<Rightarrow>
              eligible \<or> reason = ''billing_unobserved'')
         else False)
      else if capability = CapTextGeneration then configured_for env a CapTextGeneration
      else if capability = CapLive
      then Platform a = PlatformOpenAI \<and> AccType a = AccountTypeOAuth \<and>
           \<not> IsOpenAIPersonalAccessToken env a \<and> \<not> IsOpenAIAgentIdentity env a
      else if capability = CapRemoteCompactionV2 then AllowsOpenAINativeCompactionV2 env a \<and> takes_responses env a
      else if capability = CapResponses then takes_responses env a
      else if capability = CapAlphaSearch
      then \<not> (AccType a \<noteq> AccountTypeOAuth \<and> AccType a \<noteq> AccountTypeAPIKey) \<and> configured_for env a CapAlphaSearch
      else if capability = CapEmbeddings then AccType a = AccountTypeAPIKey \<and> configured_for env a CapEmbeddings
      else False)"

definition SupportsOpenAIImageCapability :: "'y Account_scheme \<Rightarrow> string \<Rightarrow> bool" where
  "SupportsOpenAIImageCapability a capability =
     (if capability = [] then True
      else if \<not> IsOpenAI a then False
      else if capability = ''images-basic'' \<or> capability = ''images-native''
      then AccType a = AccountTypeOAuth \<or> AccType a = AccountTypeSetupToken \<or> AccType a = AccountTypeAPIKey
      else True)"

section \<open>Passthrough and client policy\<close>

definition IsOpenAIPassthroughEnabled :: "'y Account_scheme \<Rightarrow> bool" where
  "IsOpenAIPassthroughEnabled a =
     (if \<not> IsOpenAI a then False
      else case as_bool (entry_of (Extra a) ''openai_passthrough'') of
             Some enabled \<Rightarrow> enabled
           | None \<Rightarrow> as_bool (entry_of (Extra a) ''openai_oauth_passthrough'') = Some True)"

definition IsOpenAIOAuthPassthroughEnabled :: "'y Account_scheme \<Rightarrow> bool" where
  "IsOpenAIOAuthPassthroughEnabled a \<longleftrightarrow> IsOpenAIOAuth a \<and> IsOpenAIPassthroughEnabled a"
definition IsOpenAIResponsesFlattenNamespacesEnabled :: "'y Account_scheme \<Rightarrow> bool" where
  "IsOpenAIResponsesFlattenNamespacesEnabled a \<longleftrightarrow> IsOpenAIOAuth a \<and> getExtraBool a ''openai_responses_flatten_namespaces''"
definition IsOpenAIWSForceHTTPEnabled :: "'y Account_scheme \<Rightarrow> bool" where
  "IsOpenAIWSForceHTTPEnabled a \<longleftrightarrow> IsOpenAI a \<and> getExtraBool a ''openai_ws_force_http''"
definition IsOpenAIWSAllowStoreRecoveryEnabled :: "'y Account_scheme \<Rightarrow> bool" where
  "IsOpenAIWSAllowStoreRecoveryEnabled a \<longleftrightarrow> IsOpenAI a \<and> getExtraBool a ''openai_ws_allow_store_recovery''"

definition SupportsOpenAIClientPolicy :: "'y Account_scheme \<Rightarrow> bool" where
  "SupportsOpenAIClientPolicy a \<longleftrightarrow>
     Platform a = PlatformOpenAI \<and> (AccType a = AccountTypeOAuth \<or> AccType a = AccountTypeAPIKey)"

definition client_policies :: "string list" where
  "client_policies = [''codex_only'', ''tls_router_matched_only'', ''any'']"

fun configured_policy :: "any_map option \<Rightarrow> string list \<Rightarrow> string option" where
  "configured_policy extra [] = None"
| "configured_policy extra (key # keys) =
     (case as_string (entry_of extra key) of
        None \<Rightarrow> configured_policy extra keys
      | Some policy \<Rightarrow> if TrimSpace policy \<in> set client_policies then Some (TrimSpace policy) else configured_policy extra keys)"

definition GetOpenAIClientPolicy :: "'y Account_scheme \<Rightarrow> string" where
  "GetOpenAIClientPolicy a =
     (if \<not> SupportsOpenAIClientPolicy a then ''any''
      else case configured_policy (Extra a) [''openai_client_policy'', ''openai_oauth_client_policy''] of
             Some policy \<Rightarrow> policy
           | None \<Rightarrow> if getExtraBool a ''codex_cli_only'' then ''codex_only'' else ''any'')"

definition IsCodexCLIOnlyEnabled :: "'y Account_scheme \<Rightarrow> bool" where
  "IsCodexCLIOnlyEnabled a \<longleftrightarrow> GetOpenAIClientPolicy a = ''codex_only''"
definition IsOpenAIOAuthTLSRouterMatchedOnly :: "'y Account_scheme \<Rightarrow> bool" where
  "IsOpenAIOAuthTLSRouterMatchedOnly a \<longleftrightarrow> GetOpenAIClientPolicy a = ''tls_router_matched_only''"

definition GetCodexCLIOnlyAllowedClients :: "'y Account_scheme \<Rightarrow> string list" where
  "GetCodexCLIOnlyAllowedClients a =
     (if \<not> SupportsOpenAIClientPolicy a then []
      else case entry_of (Extra a) ''codex_cli_only_allowed_clients'' of
             StringsV v \<Rightarrow> filter (\<lambda>s. TrimSpace s \<noteq> []) v
           | ListV v \<Rightarrow> filter (\<lambda>s. TrimSpace s \<noteq> []) (List.map_filter as_string v)
           | _ \<Rightarrow> [])"

section \<open>WebSocket modes\<close>

definition IsOpenAIResponsesWebSocketV2Enabled :: "'y Account_scheme \<Rightarrow> bool" where
  "IsOpenAIResponsesWebSocketV2Enabled a =
     (if \<not> IsOpenAI a then False
      else
        case (if IsOpenAIOAuthLike a then as_bool (entry_of (Extra a) ''openai_oauth_responses_websockets_v2_enabled'') else None) of
          Some enabled \<Rightarrow> enabled
        | None \<Rightarrow>
        case (if IsOpenAIApiKey a then as_bool (entry_of (Extra a) ''openai_apikey_responses_websockets_v2_enabled'') else None) of
          Some enabled \<Rightarrow> enabled
        | None \<Rightarrow>
        case as_bool (entry_of (Extra a) ''responses_websockets_v2_enabled'') of
          Some enabled \<Rightarrow> enabled
        | None \<Rightarrow> as_bool (entry_of (Extra a) ''openai_ws_enabled'') = Some True)"

definition ws_modes :: "string list" where
  "ws_modes = [''off'', ''ctx_pool'', ''passthrough'', ''http_bridge'', ''shared'', ''dedicated'']"

definition normalizeOpenAIWSIngressMode :: "'z go_env_scheme \<Rightarrow> string \<Rightarrow> string" where
  "normalizeOpenAIWSIngressMode env mode =
     (let m = to_lower env (TrimSpace mode) in if m \<in> set ws_modes then m else [])"

definition normalizeOpenAIWSIngressDefaultMode :: "'z go_env_scheme \<Rightarrow> string \<Rightarrow> string" where
  "normalizeOpenAIWSIngressDefaultMode env mode =
     (let normalized = normalizeOpenAIWSIngressMode env mode in
      if normalized \<noteq> []
      then (if normalized = ''shared'' \<or> normalized = ''dedicated'' then ''ctx_pool'' else normalized)
      else ''ctx_pool'')"

definition resolveModeString :: "'z go_env_scheme \<Rightarrow> 'y Account_scheme \<Rightarrow> string \<Rightarrow> string option" where
  "resolveModeString env a key =
     (case as_string (entry_of (Extra a) key) of
        None \<Rightarrow> None
      | Some mode \<Rightarrow> if normalizeOpenAIWSIngressMode env mode = [] then None else Some (normalizeOpenAIWSIngressMode env mode))"

definition resolveBoolMode :: "'y Account_scheme \<Rightarrow> string \<Rightarrow> string option" where
  "resolveBoolMode a key =
     (case as_bool (entry_of (Extra a) key) of
        None \<Rightarrow> None
      | Some enabled \<Rightarrow> Some (if enabled then ''ctx_pool'' else ''off''))"

text \<open>The first setting that is present decides.\<close>

fun first_setting :: "string option list \<Rightarrow> string \<Rightarrow> string" where
  "first_setting [] d = d"
| "first_setting (None # settings) d = first_setting settings d"
| "first_setting (Some mode # settings) d = mode"

definition ws_settings :: "'z go_env_scheme \<Rightarrow> 'y Account_scheme \<Rightarrow> string option list" where
  "ws_settings env a =
     (if IsOpenAIOAuthLike a
      then [resolveModeString env a ''openai_oauth_responses_websockets_v2_mode'',
            resolveBoolMode a ''openai_oauth_responses_websockets_v2_enabled''] else []) @
     (if IsOpenAIApiKey a
      then [resolveModeString env a ''openai_apikey_responses_websockets_v2_mode'',
            resolveBoolMode a ''openai_apikey_responses_websockets_v2_enabled''] else []) @
     [resolveBoolMode a ''responses_websockets_v2_enabled'', resolveBoolMode a ''openai_ws_enabled'']"

definition ResolveOpenAIResponsesWebSocketV2Mode :: "'z go_env_scheme \<Rightarrow> 'y Account_scheme \<Rightarrow> string \<Rightarrow> string" where
  "ResolveOpenAIResponsesWebSocketV2Mode env a defaultMode =
     (let resolvedDefault = normalizeOpenAIWSIngressDefaultMode env defaultMode in
      if \<not> IsOpenAI a then ''off''
      else if Extra a = None then resolvedDefault
      else first_setting (ws_settings env a)
             (if resolvedDefault = ''shared'' \<or> resolvedDefault = ''dedicated'' then ''ctx_pool'' else resolvedDefault))"

section \<open>Transport\<close>

datatype OpenAIUpstreamTransport = AnyTransport | HTTPSSE | ResponsesWebsocket | ResponsesWebsocketV2 | ResponsesWebsocketV2Ingress

record ws_config =
  ForceHTTP :: bool
  WSEnabled :: bool
  OAuthEnabled :: bool
  APIKeyEnabled :: bool
  ModeRouterV2Enabled :: bool
  IngressModeDefault :: string
  ResponsesWebsockets :: bool
  ResponsesWebsocketsV2Flag :: bool

definition openAIWSHTTPDecision :: "string \<Rightarrow> OpenAIUpstreamTransport \<times> string" where
  "openAIWSHTTPDecision reason = (HTTPSSE, reason)"

definition ws_transport :: "ws_config \<Rightarrow> string \<Rightarrow> OpenAIUpstreamTransport \<times> string" where
  "ws_transport wsCfg reason =
     (if ResponsesWebsocketsV2Flag wsCfg then (ResponsesWebsocketV2, ''ws_v2_'' @ reason)
      else if ResponsesWebsockets wsCfg then (ResponsesWebsocket, ''ws_v1_'' @ reason)
      else openAIWSHTTPDecision ''feature_disabled'')"

definition ws_resolve :: "'z go_env_scheme \<Rightarrow> ws_config option \<Rightarrow> 'y Account_scheme \<Rightarrow> OpenAIUpstreamTransport \<times> string" where
  "ws_resolve env cfg a =
     (if \<not> IsOpenAI a then openAIWSHTTPDecision ''platform_not_openai''
      else if IsOpenAIWSForceHTTPEnabled a then openAIWSHTTPDecision ''account_force_http''
      else case cfg of
        None \<Rightarrow> openAIWSHTTPDecision ''config_missing''
      | Some wsCfg \<Rightarrow>
          if ForceHTTP wsCfg then openAIWSHTTPDecision ''global_force_http''
          else if \<not> WSEnabled wsCfg then openAIWSHTTPDecision ''global_disabled''
          else if IsOpenAIOAuthLike a \<and> \<not> OAuthEnabled wsCfg then openAIWSHTTPDecision ''oauth_disabled''
          else if \<not> IsOpenAIOAuthLike a \<and> IsOpenAIApiKey a \<and> \<not> APIKeyEnabled wsCfg then openAIWSHTTPDecision ''apikey_disabled''
          else if \<not> IsOpenAIOAuthLike a \<and> \<not> IsOpenAIApiKey a then openAIWSHTTPDecision ''unknown_auth_type''
          else if ModeRouterV2Enabled wsCfg then
            (let mode = ResolveOpenAIResponsesWebSocketV2Mode env a (IngressModeDefault wsCfg) in
             if mode = ''off'' then openAIWSHTTPDecision ''account_mode_off''
             else if mode = ''http_bridge'' then openAIWSHTTPDecision ''ws_v2_mode_http_bridge''
             else if mode \<notin> {''ctx_pool'', ''passthrough'', ''shared'', ''dedicated''} then openAIWSHTTPDecision ''account_mode_off''
             else
               let mode = (if mode = ''shared'' \<or> mode = ''dedicated'' then ''ctx_pool'' else mode) in
               if Concurrency a \<le> 0 then openAIWSHTTPDecision ''account_concurrency_invalid''
               else ws_transport wsCfg (''mode_'' @ mode))
          else if \<not> IsOpenAIResponsesWebSocketV2Enabled a then openAIWSHTTPDecision ''account_disabled''
          else ws_transport wsCfg ''enabled'')"

section \<open>Properties\<close>

lemma normalize_mode_range: "normalizeOpenAIWSIngressMode env mode = [] \<or> normalizeOpenAIWSIngressMode env mode \<in> set ws_modes"
  by (simp add: normalizeOpenAIWSIngressMode_def Let_def)

lemma default_mode_range:
  "normalizeOpenAIWSIngressDefaultMode env mode \<in> {''off'', ''ctx_pool'', ''passthrough'', ''http_bridge''}"
  using normalize_mode_range [of env mode]
  by (auto simp: normalizeOpenAIWSIngressDefaultMode_def Let_def ws_modes_def split: if_splits)

lemma first_setting_cases:
  "first_setting settings d = d \<or> Some (first_setting settings d) \<in> set settings"
  by (induction settings d rule: first_setting.induct) auto

lemma bool_mode_cases: "resolveBoolMode a key \<in> {None, Some ''off'', Some ''ctx_pool''}"
  by (simp add: resolveBoolMode_def split: option.split)

lemma mode_string_range: "resolveModeString env a key = Some m \<Longrightarrow> m \<in> set ws_modes"
  using normalize_mode_range [of env] by (auto simp: resolveModeString_def split: option.splits if_splits)

lemma ws_setting_cases:
  "Some m \<in> set (ws_settings env a) \<Longrightarrow> m \<in> {''off'', ''ctx_pool''} \<or>
    Some m \<in> {resolveModeString env a ''openai_oauth_responses_websockets_v2_mode'',
       resolveModeString env a ''openai_apikey_responses_websockets_v2_mode''}"
  using bool_mode_cases [of a "''openai_oauth_responses_websockets_v2_enabled''"]
    bool_mode_cases [of a "''openai_apikey_responses_websockets_v2_enabled''"]
    bool_mode_cases [of a "''responses_websockets_v2_enabled''"] bool_mode_cases [of a "''openai_ws_enabled''"]
  by (auto simp: ws_settings_def split: if_splits)

lemma ws_mode_source:
  "ResolveOpenAIResponsesWebSocketV2Mode env a d \<in> {''off'', ''ctx_pool'', ''passthrough'', ''http_bridge''} \<or>
    Some (ResolveOpenAIResponsesWebSocketV2Mode env a d) \<in>
      {resolveModeString env a ''openai_oauth_responses_websockets_v2_mode'',
       resolveModeString env a ''openai_apikey_responses_websockets_v2_mode''}"
proof (cases "\<not> IsOpenAI a \<or> Extra a = None")
  case True
  then show ?thesis using default_mode_range [of env d] by (auto simp: ResolveOpenAIResponsesWebSocketV2Mode_def Let_def)
next
  case False
  let ?mode = "ResolveOpenAIResponsesWebSocketV2Mode env a d"
  let ?d = "normalizeOpenAIWSIngressDefaultMode env d"
  have mode: "?mode = first_setting (ws_settings env a) ?d"
    using False default_mode_range [of env d] by (auto simp: ResolveOpenAIResponsesWebSocketV2Mode_def Let_def)
  show ?thesis
  proof (cases "?mode = ?d")
    case True
    then show ?thesis using default_mode_range [of env d] by simp
  next
    case False
    then have "Some ?mode \<in> set (ws_settings env a)" using first_setting_cases [of "ws_settings env a" ?d] mode by simp
    then show ?thesis using ws_setting_cases [of ?mode env a] by blast
  qed
qed

lemma ws_mode_in: "ResolveOpenAIResponsesWebSocketV2Mode env a d \<in> set ws_modes"
proof -
  have "\<exists>key. resolveModeString env a key = Some (ResolveOpenAIResponsesWebSocketV2Mode env a d)"
    if "Some (ResolveOpenAIResponsesWebSocketV2Mode env a d) \<in>
      {resolveModeString env a ''openai_oauth_responses_websockets_v2_mode'',
       resolveModeString env a ''openai_apikey_responses_websockets_v2_mode''}"
    using that by (metis insert_iff singletonD)
  then show ?thesis using ws_mode_source [of env a d] mode_string_range by (auto simp: ws_modes_def)
qed

text \<open>The WebSocket mode of an account is always one of the six modes, whatever the account and the
  configuration hold; the historical modes \<open>shared\<close> and \<open>dedicated\<close> come only from a mode the account
  itself names, never from the default or from an old switch.\<close>

theorem ws_mode_range:
  "ResolveOpenAIResponsesWebSocketV2Mode env a d \<in> set ws_modes \<and>
   (ResolveOpenAIResponsesWebSocketV2Mode env a d \<in> {''off'', ''ctx_pool'', ''passthrough'', ''http_bridge''} \<or>
    Some (ResolveOpenAIResponsesWebSocketV2Mode env a d) \<in>
      {resolveModeString env a ''openai_oauth_responses_websockets_v2_mode'',
       resolveModeString env a ''openai_apikey_responses_websockets_v2_mode''})"
  using ws_mode_in [of env a d] ws_mode_source [of env a d] by blast

text \<open>A request goes out over a WebSocket exactly when every switch on the way allows it: the account is
  OpenAI's and does not force HTTP, the configuration enables WebSockets for the kind of the account,
  and either the mode router finds a mode other than off and bridge for an account that may hold a
  connection, or, without the router, the account's own switch is on; and a protocol version is
  enabled.\<close>

theorem ws_transport_iff:
  "fst (ws_resolve env cfg a) \<noteq> HTTPSSE \<longleftrightarrow>
     (case cfg of None \<Rightarrow> False | Some c \<Rightarrow>
        IsOpenAI a \<and> \<not> IsOpenAIWSForceHTTPEnabled a \<and> \<not> ForceHTTP c \<and> WSEnabled c \<and>
        (if IsOpenAIOAuthLike a then OAuthEnabled c else IsOpenAIApiKey a \<and> APIKeyEnabled c) \<and>
        (if ModeRouterV2Enabled c
         then ResolveOpenAIResponsesWebSocketV2Mode env a (IngressModeDefault c) \<notin> {''off'', ''http_bridge''} \<and> 0 < Concurrency a
         else IsOpenAIResponsesWebSocketV2Enabled a) \<and>
        (ResponsesWebsockets c \<or> ResponsesWebsocketsV2Flag c))"
proof (cases cfg)
  case None
  then show ?thesis by (simp add: ws_resolve_def openAIWSHTTPDecision_def)
next
  case (Some c)
  have "fst (ws_transport c r) \<noteq> HTTPSSE \<longleftrightarrow> ResponsesWebsockets c \<or> ResponsesWebsocketsV2Flag c" for r
    by (simp add: ws_transport_def openAIWSHTTPDecision_def)
  moreover have "ResolveOpenAIResponsesWebSocketV2Mode env a (IngressModeDefault c) \<in> set ws_modes"
    by (rule ws_mode_in)
  ultimately show ?thesis using Some
    by (auto simp: ws_resolve_def openAIWSHTTPDecision_def ws_modes_def Let_def)
qed

text \<open>The workloads build on each other: an account that takes remote compaction takes native Responses
  requests, and an account that takes those takes plain text requests.\<close>

theorem capability_chain:
  "(\<not> SupportsOpenAIEndpointCapability env b f a CapRemoteCompactionV2 \<or> SupportsOpenAIEndpointCapability env b f a CapResponses) \<and>
   (\<not> SupportsOpenAIEndpointCapability env b f a CapResponses \<or> SupportsOpenAIEndpointCapability env b f a CapTextGeneration)"
  by (auto simp: SupportsOpenAIEndpointCapability_def takes_responses_def cap_consts)

theorem capability_chain_witness:
  "SupportsOpenAIEndpointCapability demo_go_env None False (demo_account\<lparr>Extra := Some []\<rparr>) CapResponses \<and>
   SupportsOpenAIEndpointCapability demo_go_env None False (demo_account\<lparr>Extra := Some []\<rparr>) CapTextGeneration"
proof -
  let ?a = "demo_account\<lparr>Extra := Some []\<rparr>"
  have "SupportsOpenAIEndpointCapability demo_go_env None False ?a CapRemoteCompactionV2"
    by (simp add: SupportsOpenAIEndpointCapability_def takes_responses_def AllowsOpenAINativeCompactionV2_def
        OpenAINativeCompactionV2SupportKnown_def GetOpenAINativeCompactionV2Mode_def normalizeOpenAICompactMode_def
        configured_for_def openAIWorkloadCapabilitySet_def ResolveUpstreamTextProtocol_def ResolveTextRouteMode_def
        NormalizeTextRouteMode_def ResolveResponsesProbeStatus_def NormalizeResponsesProbeStatus_def string_or_empty_def
        demo_account_def entry_of_def lookup_def cap_consts kind_defs platform_consts TrimSpace_printable ToLower_def is_ascii_def)
  then show ?thesis using capability_chain [of demo_go_env None False ?a] by simp
qed

end
