(* ===== verification/Qoder_Catalog.thy ===== *)
theory Qoder_Catalog
  imports Account_Platform
begin

text \<open>
  The Qoder catalogue: the two sites and their profiles (\<^verbatim>\<open>pkg/qoder/site.go\<close>), the models, public aliases and
  capabilities of each site (\<^verbatim>\<open>pkg/qoder/models.go\<close>) and the alias table of the gateway
  (\<^verbatim>\<open>service/qoder_gateway_service.go\<close>, \<^verbatim>\<open>service/qoder_model_aliases.go\<close>).

  A site is a string in the code, so a value that is neither of the two sites is possible and is kept.
  Maps are association lists with distinct keys.
\<close>

section \<open>Sites\<close>

type_synonym Site = string

definition SiteGlobal :: Site where "SiteGlobal = ''global''"
definition SiteCN :: Site where "SiteCN = ''cn''"
definition RefreshModeCosy :: string where "RefreshModeCosy = ''cosy''"
definition RefreshModeQoderCN20 :: string where "RefreshModeQoderCN20 = ''qodercn20''"
definition GlobalDeviceAuthorizationURL :: string where "GlobalDeviceAuthorizationURL = ''https://qoder.com/device/selectAccounts''"
definition CNDeviceAuthorizationURL :: string where "CNDeviceAuthorizationURL = ''https://qoder.com.cn/device/selectAccounts''"
definition GlobalOpenAPIBaseURL :: string where "GlobalOpenAPIBaseURL = ''https://openapi.qoder.sh''"
definition CNOpenAPIBaseURL :: string where "CNOpenAPIBaseURL = ''https://openapi.qoder.com.cn''"
definition GlobalCenterBaseURL :: string where "GlobalCenterBaseURL = ''https://center.qoder.sh''"
definition GlobalGatewayBaseURL :: string where "GlobalGatewayBaseURL = ''https://api1.qoder.sh''"
definition CNGatewayBaseURL :: string where "CNGatewayBaseURL = ''https://gateway.qoder.com.cn''"
definition GlobalClientVersion :: string where "GlobalClientVersion = ''1.24.2''"
definition CNClientVersion :: string where "CNClientVersion = ''1.24.2''"
definition GlobalOAuthClientID :: string where "GlobalOAuthClientID = ''e883ade2-e6e3-4d6d-adf7-f92ceff5fdcb''"
definition CNOAuthClientID :: string where "CNOAuthClientID = ''f5a7f67c-11a8-491e-8b8e-a07f2d0df4b7''"
definition GlobalOpenAPIProductName :: string where "GlobalOpenAPIProductName = ''Qoder''"
definition CNOpenAPIProductName :: string where "CNOpenAPIProductName = ''Qoder CN''"

record Profile =
  ProfileSite :: Site
  DeviceAuthorizationURL :: string
  OpenAPIBaseURL :: string
  CenterBaseURL :: string
  GatewayBaseURL :: string
  ClientVersion :: string
  OAuthClientID :: string

definition ParseSite :: "'z go_env_scheme \<Rightarrow> string \<Rightarrow> Site option" where
  "ParseSite env s =
     (let v = to_lower env (TrimSpace s) in
      if v = [] \<or> v = SiteGlobal then Some SiteGlobal else if v = SiteCN then Some SiteCN else None)"

definition ParseRefreshMode :: "'z go_env_scheme \<Rightarrow> string \<Rightarrow> string option" where
  "ParseRefreshMode env s =
     (let v = to_lower env (TrimSpace s) in
      if v = [] \<or> v = RefreshModeCosy then Some RefreshModeCosy
      else if v = RefreshModeQoderCN20 then Some RefreshModeQoderCN20 else None)"

definition ProfileForSite :: "'z go_env_scheme \<Rightarrow> Site \<Rightarrow> Profile option" where
  "ProfileForSite env site =
     (case ParseSite env site of
        None \<Rightarrow> None
      | Some parsed \<Rightarrow>
          Some (if parsed = SiteCN
            then \<lparr>ProfileSite = SiteCN, DeviceAuthorizationURL = CNDeviceAuthorizationURL, OpenAPIBaseURL = CNOpenAPIBaseURL,
                   CenterBaseURL = [], GatewayBaseURL = CNGatewayBaseURL, ClientVersion = CNClientVersion,
                   OAuthClientID = CNOAuthClientID\<rparr>
            else \<lparr>ProfileSite = SiteGlobal, DeviceAuthorizationURL = GlobalDeviceAuthorizationURL,
                   OpenAPIBaseURL = GlobalOpenAPIBaseURL, CenterBaseURL = GlobalCenterBaseURL,
                   GatewayBaseURL = GlobalGatewayBaseURL, ClientVersion = GlobalClientVersion,
                   OAuthClientID = GlobalOAuthClientID\<rparr>))"

text \<open>\<^verbatim>\<open>MustProfileForSite\<close> panics on an unknown site, which is \<open>None\<close> of \<open>ProfileForSite\<close>.  An override that is blank
  keeps the value of the site.\<close>

definition override_url :: "string \<Rightarrow> string \<Rightarrow> string" where
  "override_url given base = (if TrimSpace given \<noteq> [] then TrimRight (TrimSpace given) CHR ''/'' else base)"

definition override_text :: "string \<Rightarrow> string \<Rightarrow> string" where
  "override_text given base = (if TrimSpace given \<noteq> [] then TrimSpace given else base)"

definition NormalizeProfile :: "'z go_env_scheme \<Rightarrow> Profile \<Rightarrow> Profile option" where
  "NormalizeProfile env p =
     (case ProfileForSite env (ProfileSite p) of
        None \<Rightarrow> None
      | Some base \<Rightarrow>
          Some (base\<lparr>DeviceAuthorizationURL := override_url (DeviceAuthorizationURL p) (DeviceAuthorizationURL base),
            OpenAPIBaseURL := override_url (OpenAPIBaseURL p) (OpenAPIBaseURL base),
            CenterBaseURL := override_url (CenterBaseURL p) (CenterBaseURL base),
            GatewayBaseURL := override_url (GatewayBaseURL p) (GatewayBaseURL base),
            ClientVersion := override_text (ClientVersion p) (ClientVersion base),
            OAuthClientID := override_text (OAuthClientID p) (OAuthClientID base)\<rparr>))"

definition OpenAPIUserAgent :: "'z go_env_scheme \<Rightarrow> Profile \<Rightarrow> string option" where
  "OpenAPIUserAgent env p =
     (let agent = (\<lambda>q. (if ProfileSite q = SiteCN then CNOpenAPIProductName else GlobalOpenAPIProductName) @ ''/'' @ ClientVersion q) in
      case NormalizeProfile env p of
        Some q \<Rightarrow> Some (agent q)
      | None \<Rightarrow> map_option agent (ProfileForSite env SiteGlobal))"

definition MachineOSFor :: "'z go_env_scheme \<Rightarrow> string \<Rightarrow> string \<Rightarrow> string" where
  "MachineOSFor env arch goos =
     (let arch = to_lower env (TrimSpace arch); goos = to_lower env (TrimSpace goos);
          arch = (if arch = ''amd64'' \<or> arch = ''x86_64'' then ''x86_64''
                  else if arch = ''arm64'' \<or> arch = ''aarch64'' then ''aarch64'' else arch)
      in arch @ ''_'' @ goos)"

section \<open>Models of the sites\<close>

record Model =
  ID :: string
  ModelType :: string
  DisplayName :: string
  CreatedAt :: string

definition globalModels :: "Model list" where
  "globalModels =
    [\<lparr>ID = ''claude-opus-4-6'', ModelType = ''model'', DisplayName = ''Claude Opus 4.6'', CreatedAt = []\<rparr>,
     \<lparr>ID = ''auto'', ModelType = ''model'', DisplayName = ''Qoder Auto'', CreatedAt = []\<rparr>,
     \<lparr>ID = ''performance'', ModelType = ''model'', DisplayName = ''Qoder Performance'', CreatedAt = []\<rparr>,
     \<lparr>ID = ''efficient'', ModelType = ''model'', DisplayName = ''Qoder Efficient'', CreatedAt = []\<rparr>,
     \<lparr>ID = ''lite'', ModelType = ''model'', DisplayName = ''Qoder Lite'', CreatedAt = []\<rparr>,
     \<lparr>ID = ''qwen3.8-max'', ModelType = ''model'', DisplayName = ''Qwen3.8-Max'', CreatedAt = []\<rparr>,
     \<lparr>ID = ''qwen3.7-max'', ModelType = ''model'', DisplayName = ''Qwen3.7-Max'', CreatedAt = []\<rparr>,
     \<lparr>ID = ''qwen3.7-plus'', ModelType = ''model'', DisplayName = ''Qwen3.7-Plus'', CreatedAt = []\<rparr>,
     \<lparr>ID = ''kimi-k3'', ModelType = ''model'', DisplayName = ''Kimi-K3'', CreatedAt = []\<rparr>,
     \<lparr>ID = ''kimi-k2.7-code'', ModelType = ''model'', DisplayName = ''Kimi-K2.7-Code'', CreatedAt = []\<rparr>,
     \<lparr>ID = ''glm-5.3'', ModelType = ''model'', DisplayName = ''GLM-5.3'', CreatedAt = []\<rparr>,
     \<lparr>ID = ''glm-5.2'', ModelType = ''model'', DisplayName = ''GLM-5.2'', CreatedAt = []\<rparr>,
     \<lparr>ID = ''deepseek-v4-pro'', ModelType = ''model'', DisplayName = ''DeepSeek-V4-Pro'', CreatedAt = []\<rparr>,
     \<lparr>ID = ''deepseek-v4-flash'', ModelType = ''model'', DisplayName = ''DeepSeek-V4-Flash'', CreatedAt = []\<rparr>,
     \<lparr>ID = ''minimax-m3'', ModelType = ''model'', DisplayName = ''MiniMax-M3'', CreatedAt = []\<rparr>]"

definition cnModels :: "Model list" where
  "cnModels =
    [\<lparr>ID = ''auto'', ModelType = ''model'', DisplayName = ''Qoder Auto'', CreatedAt = []\<rparr>,
     \<lparr>ID = ''qwen3.8-max'', ModelType = ''model'', DisplayName = ''Qwen3.8-Max'', CreatedAt = []\<rparr>,
     \<lparr>ID = ''qwen3.7-max'', ModelType = ''model'', DisplayName = ''Qwen3.7-Max'', CreatedAt = []\<rparr>,
     \<lparr>ID = ''qwen3.7-plus'', ModelType = ''model'', DisplayName = ''Qwen3.7-Plus'', CreatedAt = []\<rparr>,
     \<lparr>ID = ''qwen3.6-flash'', ModelType = ''model'', DisplayName = ''Qwen3.6-Flash'', CreatedAt = []\<rparr>,
     \<lparr>ID = ''deepseek-v4-pro'', ModelType = ''model'', DisplayName = ''DeepSeek-V4-Pro'', CreatedAt = []\<rparr>,
     \<lparr>ID = ''deepseek-v4-flash'', ModelType = ''model'', DisplayName = ''DeepSeek-V4-Flash'', CreatedAt = []\<rparr>,
     \<lparr>ID = ''glm-5.3'', ModelType = ''model'', DisplayName = ''GLM-5.3'', CreatedAt = []\<rparr>,
     \<lparr>ID = ''glm-5.2'', ModelType = ''model'', DisplayName = ''GLM-5.2'', CreatedAt = []\<rparr>,
     \<lparr>ID = ''kimi-k2.7-code'', ModelType = ''model'', DisplayName = ''Kimi-K2.7-Code'', CreatedAt = []\<rparr>,
     \<lparr>ID = ''minimax-m2.7'', ModelType = ''model'', DisplayName = ''MiniMax-M2.7'', CreatedAt = []\<rparr>]"

definition globalAliases :: "(string \<times> string) list" where
  "globalAliases =
    [(''claude-opus-4-6'', ''ultimate''),
     (''auto'', ''auto''),
     (''performance'', ''performance''),
     (''efficient'', ''efficient''),
     (''lite'', ''lite''),
     (''qwen3.8-max'', ''qmodel_38max''),
     (''qwen3.7-max'', ''qmodel_latest''),
     (''qwen3.7-plus'', ''qmodel''),
     (''kimi-k3'', ''kmodel_latest''),
     (''kimi-k2.7-code'', ''kmodel''),
     (''glm-5.3'', ''gmodel''),
     (''glm-5.2'', ''gm51model''),
     (''deepseek-v4-pro'', ''dmodel''),
     (''deepseek-v4-flash'', ''dfmodel''),
     (''minimax-m3'', ''mmodel'')]"

definition cnAliases :: "(string \<times> string) list" where
  "cnAliases =
    [(''auto'', ''auto''),
     (''qwen3.8-max'', ''qmodel_38max''),
     (''qwen3.7-max'', ''qmodel_latest''),
     (''qwen3.7-plus'', ''qmodel''),
     (''qwen3.6-flash'', ''q36fmodel''),
     (''deepseek-v4-pro'', ''dmodel''),
     (''deepseek-v4-flash'', ''dfmodel''),
     (''glm-5.3'', ''gmodel''),
     (''glm-5.2'', ''gm51model''),
     (''kimi-k2.7-code'', ''kmodel''),
     (''minimax-m2.7'', ''mmodel'')]"

datatype ThinkingCapability = ThinkingUnsupported | ThinkingToggleOnly | ThinkingHighMax | ThinkingLowHighMax

definition globalThinkingCapabilities :: "(string \<times> ThinkingCapability) list" where
  "globalThinkingCapabilities =
    [(''ultimate'', ThinkingUnsupported),
     (''auto'', ThinkingUnsupported),
     (''performance'', ThinkingUnsupported),
     (''efficient'', ThinkingUnsupported),
     (''lite'', ThinkingUnsupported),
     (''qmodel_38max'', ThinkingToggleOnly),
     (''qmodel_latest'', ThinkingToggleOnly),
     (''qmodel'', ThinkingToggleOnly),
     (''kmodel_latest'', ThinkingUnsupported),
     (''kmodel'', ThinkingUnsupported),
     (''gmodel'', ThinkingLowHighMax),
     (''gm51model'', ThinkingHighMax),
     (''dmodel'', ThinkingHighMax),
     (''dfmodel'', ThinkingHighMax),
     (''mmodel'', ThinkingUnsupported)]"

definition cnThinkingCapabilities :: "(string \<times> ThinkingCapability) list" where
  "cnThinkingCapabilities =
    [(''auto'', ThinkingUnsupported),
     (''qmodel_38max'', ThinkingToggleOnly),
     (''qmodel_latest'', ThinkingToggleOnly),
     (''qmodel'', ThinkingToggleOnly),
     (''q36fmodel'', ThinkingUnsupported),
     (''dmodel'', ThinkingHighMax),
     (''dfmodel'', ThinkingHighMax),
     (''gmodel'', ThinkingLowHighMax),
     (''gm51model'', ThinkingHighMax),
     (''kmodel'', ThinkingUnsupported),
     (''mmodel'', ThinkingUnsupported)]"

definition FallbackMaxInputTokens :: int where
  "FallbackMaxInputTokens = 200000"

record ContextCapability =
  MaxInputTokens :: int
  RuntimeSelectable :: bool

definition globalContextCapabilities :: "(string \<times> ContextCapability) list" where
  "globalContextCapabilities =
    [(''ultimate'', \<lparr>MaxInputTokens = 1000000, RuntimeSelectable = True\<rparr>),
     (''auto'', \<lparr>MaxInputTokens = 180000, RuntimeSelectable = False\<rparr>),
     (''performance'', \<lparr>MaxInputTokens = 1000000, RuntimeSelectable = True\<rparr>),
     (''efficient'', \<lparr>MaxInputTokens = 180000, RuntimeSelectable = False\<rparr>),
     (''lite'', \<lparr>MaxInputTokens = 180000, RuntimeSelectable = False\<rparr>),
     (''qmodel_38max'', \<lparr>MaxInputTokens = 1000000, RuntimeSelectable = True\<rparr>),
     (''qmodel_latest'', \<lparr>MaxInputTokens = 1000000, RuntimeSelectable = True\<rparr>),
     (''qmodel'', \<lparr>MaxInputTokens = 1000000, RuntimeSelectable = True\<rparr>),
     (''kmodel_latest'', \<lparr>MaxInputTokens = 1000000, RuntimeSelectable = True\<rparr>),
     (''kmodel'', \<lparr>MaxInputTokens = 256000, RuntimeSelectable = True\<rparr>),
     (''gmodel'', \<lparr>MaxInputTokens = 1000000, RuntimeSelectable = True\<rparr>),
     (''gm51model'', \<lparr>MaxInputTokens = 1000000, RuntimeSelectable = True\<rparr>),
     (''dmodel'', \<lparr>MaxInputTokens = 1000000, RuntimeSelectable = True\<rparr>),
     (''dfmodel'', \<lparr>MaxInputTokens = 1000000, RuntimeSelectable = True\<rparr>),
     (''mmodel'', \<lparr>MaxInputTokens = 1000000, RuntimeSelectable = True\<rparr>)]"

definition cnContextCapabilities :: "(string \<times> ContextCapability) list" where
  "cnContextCapabilities =
    [(''auto'', \<lparr>MaxInputTokens = 180000, RuntimeSelectable = False\<rparr>),
     (''qmodel_38max'', \<lparr>MaxInputTokens = 1000000, RuntimeSelectable = True\<rparr>),
     (''qmodel_latest'', \<lparr>MaxInputTokens = 1000000, RuntimeSelectable = True\<rparr>),
     (''qmodel'', \<lparr>MaxInputTokens = 1000000, RuntimeSelectable = True\<rparr>),
     (''q36fmodel'', \<lparr>MaxInputTokens = 1000000, RuntimeSelectable = True\<rparr>),
     (''dmodel'', \<lparr>MaxInputTokens = 1000000, RuntimeSelectable = True\<rparr>),
     (''dfmodel'', \<lparr>MaxInputTokens = 1000000, RuntimeSelectable = True\<rparr>),
     (''gmodel'', \<lparr>MaxInputTokens = 1000000, RuntimeSelectable = True\<rparr>),
     (''gm51model'', \<lparr>MaxInputTokens = 1000000, RuntimeSelectable = True\<rparr>),
     (''kmodel'', \<lparr>MaxInputTokens = 256000, RuntimeSelectable = True\<rparr>),
     (''mmodel'', \<lparr>MaxInputTokens = 200000, RuntimeSelectable = True\<rparr>)]"

definition DefaultModelsForSite :: "Site \<Rightarrow> Model list" where
  "DefaultModelsForSite site = (if site = SiteCN then cnModels else globalModels)"

definition AliasesForSite :: "Site \<Rightarrow> (string \<times> string) list" where
  "AliasesForSite site = (if site = SiteCN then cnAliases else globalAliases)"

definition AliasForSite :: "Site \<Rightarrow> string \<Rightarrow> string option" where
  "AliasForSite site model = map_of (if site = SiteCN then cnAliases else globalAliases) model"

text \<open>A public alias stands for its route.\<close>

definition route_key :: "'z go_env_scheme \<Rightarrow> Site \<Rightarrow> string \<Rightarrow> string" where
  "route_key env site model =
     (let model = to_lower env (TrimSpace model) in case AliasForSite site model of Some route \<Rightarrow> route | None \<Rightarrow> model)"

definition ThinkingCapabilityForSite :: "'z go_env_scheme \<Rightarrow> Site \<Rightarrow> string \<Rightarrow> ThinkingCapability" where
  "ThinkingCapabilityForSite env site model =
     (let find = (\<lambda>capabilities. case map_of capabilities (route_key env site model) of
             Some c \<Rightarrow> c | None \<Rightarrow> ThinkingUnsupported) in
      if site = [] \<or> site = SiteGlobal then find globalThinkingCapabilities
      else if site = SiteCN then find cnThinkingCapabilities
      else ThinkingUnsupported)"

definition ContextCapabilityForSite :: "'z go_env_scheme \<Rightarrow> Site \<Rightarrow> string \<Rightarrow> ContextCapability" where
  "ContextCapabilityForSite env site model =
     (let unknown = \<lparr>MaxInputTokens = FallbackMaxInputTokens, RuntimeSelectable = False\<rparr>;
          find = (\<lambda>capabilities. case map_of capabilities (route_key env site model) of Some c \<Rightarrow> c | None \<Rightarrow> unknown) in
      if site = [] \<or> site = SiteGlobal then find globalContextCapabilities
      else if site = SiteCN then find cnContextCapabilities
      else unknown)"

definition isKnownPublicAlias :: "string \<Rightarrow> bool" where
  "isKnownPublicAlias model \<longleftrightarrow> map_of globalAliases model \<noteq> None \<or> map_of cnAliases model \<noteq> None"

definition isKnownRouteKey :: "string \<Rightarrow> bool" where
  "isKnownRouteKey model \<longleftrightarrow> list_ex (\<lambda>aliases. list_ex (\<lambda>(alias, route). route = model) aliases) [globalAliases, cnAliases]"

definition ModelCompatibleWithSite :: "'z go_env_scheme \<Rightarrow> Site \<Rightarrow> string \<Rightarrow> bool" where
  "ModelCompatibleWithSite env site model =
     (let model = to_lower env (TrimSpace model) in
      if AliasForSite site model \<noteq> None then True
      else if isKnownPublicAlias model then False
      else if \<not> isKnownRouteKey model then True
      else list_ex (\<lambda>(alias, route). route = model) (AliasesForSite site))"

fun union_loop :: "string list \<Rightarrow> Model list \<Rightarrow> Model list" where
  "union_loop seen [] = []"
| "union_loop seen (m # ms) = (if ID m \<in> set seen then union_loop seen ms else m # union_loop (ID m # seen) ms)"

definition unionModels :: "Model list list \<Rightarrow> Model list" where
  "unionModels groups = union_loop [] (concat groups)"

definition DefaultModels :: "Model list" where
  "DefaultModels = unionModels [globalModels, cnModels]"

definition DefaultRequestModelIDsForSite :: "Site \<Rightarrow> string list" where
  "DefaultRequestModelIDsForSite site = map ID (DefaultModelsForSite site)"

definition DefaultRequestModelIDs :: "string list" where
  "DefaultRequestModelIDs = map ID DefaultModels"

section \<open>The alias table of the gateway\<close>

record qoderModelInfo =
  Key :: string
  Source :: string
  Provider :: string
  Notes :: string
  InfoName :: string
  Description :: string

definition defaultQoderModelAliases :: "(string \<times> qoderModelInfo) list" where
  "defaultQoderModelAliases =
    [(''claude-opus-4-6'', \<lparr>Key = ''ultimate'', Source = ''system'', Provider = ''Claude'', Notes = ''Confirmed Claude Opus 4.6 via encrypted reasoning metadata.'', InfoName = ''Claude Opus 4.6'', Description = []\<rparr>),
     (''auto'', \<lparr>Key = ''auto'', Source = ''system'', Provider = ''Qoder'', Notes = ''Qoder-selected route; exact upstream model is dynamic and unconfirmed.'', InfoName = ''Qoder Auto'', Description = []\<rparr>),
     (''performance'', \<lparr>Key = ''performance'', Source = ''system'', Provider = ''Qoder'', Notes = ''Qoder performance tier; exact upstream model is unconfirmed.'', InfoName = ''Qoder Performance'', Description = []\<rparr>),
     (''efficient'', \<lparr>Key = ''efficient'', Source = ''system'', Provider = ''Qoder'', Notes = ''Qoder efficient tier; exact upstream model is unconfirmed.'', InfoName = ''Qoder Efficient'', Description = []\<rparr>),
     (''lite'', \<lparr>Key = ''lite'', Source = ''system'', Provider = ''Qoder'', Notes = ''Unverified Qoder lite tier; observations are mixed.'', InfoName = ''Qoder Lite'', Description = []\<rparr>),
     (''qwen3.8-max'', \<lparr>Key = ''qmodel_38max'', Source = ''system'', Provider = ''Qwen'', Notes = ''Qoder UI model name Qwen3.8-Max.'', InfoName = ''Qwen3.8-Max'', Description = []\<rparr>),
     (''qwen3.7-max'', \<lparr>Key = ''qmodel_latest'', Source = ''system'', Provider = ''Qwen'', Notes = ''Qoder UI model name Qwen3.7-Max.'', InfoName = ''Qwen3.7-Max'', Description = []\<rparr>),
     (''qwen3.7-plus'', \<lparr>Key = ''qmodel'', Source = ''system'', Provider = ''Qwen'', Notes = ''Qoder UI model name Qwen3.7-Plus.'', InfoName = ''Qwen3.7-Plus'', Description = []\<rparr>),
     (''qwen3.6-flash'', \<lparr>Key = ''q36fmodel'', Source = ''system'', Provider = ''Qwen'', Notes = ''Qoder CN UI model name Qwen3.6-Flash.'', InfoName = ''Qwen3.6-Flash'', Description = []\<rparr>),
     (''deepseek-v4-pro'', \<lparr>Key = ''dmodel'', Source = ''system'', Provider = ''DeepSeek'', Notes = ''Qoder UI model name DeepSeek-V4-Pro.'', InfoName = ''DeepSeek-V4-Pro'', Description = []\<rparr>),
     (''deepseek-v4-flash'', \<lparr>Key = ''dfmodel'', Source = ''system'', Provider = ''DeepSeek'', Notes = ''Qoder UI model name DeepSeek-V4-Flash.'', InfoName = ''DeepSeek-V4-Flash'', Description = []\<rparr>),
     (''glm-5.3'', \<lparr>Key = ''gmodel'', Source = ''system'', Provider = ''GLM'', Notes = ''Qoder UI model name GLM-5.3.'', InfoName = ''GLM-5.3'', Description = []\<rparr>),
     (''glm-5.2'', \<lparr>Key = ''gm51model'', Source = ''system'', Provider = ''GLM'', Notes = ''Qoder UI model name GLM-5.2.'', InfoName = ''GLM-5.2'', Description = []\<rparr>),
     (''kimi-k3'', \<lparr>Key = ''kmodel_latest'', Source = ''system'', Provider = ''Kimi'', Notes = ''Qoder UI model name Kimi-K3.'', InfoName = ''Kimi-K3'', Description = []\<rparr>),
     (''kimi-k2.7-code'', \<lparr>Key = ''kmodel'', Source = ''system'', Provider = ''Kimi'', Notes = ''Qoder UI model name Kimi-K2.7-Code.'', InfoName = ''Kimi-K2.7-Code'', Description = []\<rparr>),
     (''minimax-m3'', \<lparr>Key = ''mmodel'', Source = ''system'', Provider = ''MiniMax'', Notes = ''Qoder UI model name MiniMax-M3.'', InfoName = ''MiniMax-M3'', Description = []\<rparr>),
     (''minimax-m2.7'', \<lparr>Key = ''mmodel'', Source = ''system'', Provider = ''MiniMax'', Notes = ''Qoder CN UI model name MiniMax-M2.7.'', InfoName = ''MiniMax-M2.7'', Description = []\<rparr>)]"

definition normalizeQoderAliasModel :: "'z go_env_scheme \<Rightarrow> string \<Rightarrow> string" where
  "normalizeQoderAliasModel env model = to_lower env (TrimSpace model)"

definition lookupQoderModelAlias :: "'z go_env_scheme \<Rightarrow> string \<Rightarrow> qoderModelInfo option" where
  "lookupQoderModelAlias env model = map_of defaultQoderModelAliases (normalizeQoderAliasModel env model)"

definition lookupQoderModelAliasForSite :: "'z go_env_scheme \<Rightarrow> Site \<Rightarrow> string \<Rightarrow> qoderModelInfo option" where
  "lookupQoderModelAliasForSite env site model =
     (let model = normalizeQoderAliasModel env model in
      if AliasForSite site model = None then None else map_of defaultQoderModelAliases model)"

definition isQoderAliasRouteKey :: "'z go_env_scheme \<Rightarrow> string \<Rightarrow> (string \<times> qoderModelInfo) list \<Rightarrow> bool" where
  "isQoderAliasRouteKey env model aliases = list_ex (\<lambda>(alias, info). normalizeQoderAliasModel env (Key info) = model) aliases"

definition isQoderAliasBillingModel :: "'z go_env_scheme \<Rightarrow> string \<Rightarrow> bool" where
  "isQoderAliasBillingModel env model =
     (let model = normalizeQoderAliasModel env model in
      if model = [] then False
      else if map_of defaultQoderModelAliases model \<noteq> None then True
      else isQoderAliasRouteKey env model defaultQoderModelAliases)"

definition QoderAliasRequiresManualPricing :: "'z go_env_scheme \<Rightarrow> string \<Rightarrow> bool" where
  "QoderAliasRequiresManualPricing env model = isQoderAliasBillingModel env model"

definition qoderAliasRequiresManualPricingAny :: "'z go_env_scheme \<Rightarrow> string list \<Rightarrow> bool" where
  "qoderAliasRequiresManualPricingAny env models = list_ex (isQoderAliasBillingModel env) models"

definition qoderSiteForAccount :: "'z go_env_scheme \<Rightarrow> 'y Account_scheme \<Rightarrow> Site option" where
  "qoderSiteForAccount env a = ParseSite env (GetCredential env a ''site'')"

definition qoderProfileForAccount :: "'z go_env_scheme \<Rightarrow> 'y Account_scheme \<Rightarrow> Profile option" where
  "qoderProfileForAccount env a = (case qoderSiteForAccount env a of None \<Rightarrow> None | Some site \<Rightarrow> ProfileForSite env site)"

definition qoderRefreshModeForAccount :: "'z go_env_scheme \<Rightarrow> 'y Account_scheme \<Rightarrow> string option" where
  "qoderRefreshModeForAccount env a = ParseRefreshMode env (GetCredential env a ''refresh_mode'')"

section \<open>Machine identity\<close>

text \<open>The random values of one call; a fresh identity for the Chinese site has no token and no type.\<close>

record MachineIdentity =
  MachineID :: string
  MachineToken :: string
  MachineType :: string

record qoder_random =
  RandomUUIDLike :: string
  RandomMachine :: MachineIdentity

definition NewMachineForSite :: "'z go_env_scheme \<Rightarrow> qoder_random \<Rightarrow> Site \<Rightarrow> MachineIdentity" where
  "NewMachineForSite env r site =
     (if ParseSite env site = Some SiteCN
      then \<lparr>MachineID = RandomUUIDLike r, MachineToken = [], MachineType = []\<rparr>
      else RandomMachine r)"

fun firstNonEmptyQoder :: "string list \<Rightarrow> string" where
  "firstNonEmptyQoder [] = []"
| "firstNonEmptyQoder (v # vs) = (if TrimSpace v \<noteq> [] then TrimSpace v else firstNonEmptyQoder vs)"

definition account_site :: "'z go_env_scheme \<Rightarrow> 'y Account_scheme \<Rightarrow> Site" where
  "account_site env a = (case qoderSiteForAccount env a of None \<Rightarrow> SiteGlobal | Some site \<Rightarrow> site)"

definition set_credential :: "string \<Rightarrow> string \<Rightarrow> any_map \<Rightarrow> any_map" where
  "set_credential key v m = map_set key (StringV v) m"

definition ensureQoderMachineCredentials :: "'z go_env_scheme \<Rightarrow> qoder_random \<Rightarrow> 'y Account_scheme \<Rightarrow> 'y Account_scheme" where
  "ensureQoderMachineCredentials env r a =
     (let credentials = (case Credentials a of None \<Rightarrow> [] | Some c \<Rightarrow> c);
          stored = (\<lambda>key. TrimSpace (GetCredential env a key));
          pat = stored ''pat''; directToken = stored ''security_oauth_token''; machineID = stored ''machine_id'';
          site = account_site env a; machine = NewMachineForSite env r site
      in a\<lparr>Credentials := Some (
           if pat = [] \<and> (directToken = [] \<or> machineID = []) then credentials
           else if site = SiteCN then
             (if pat \<noteq> [] \<and> machineID = [] then set_credential ''machine_id'' (MachineID machine) else id)
               (map_delete ''machine_type'' (map_delete ''machine_token'' credentials))
           else if machineID \<noteq> [] \<and> stored ''machine_token'' \<noteq> [] \<and> stored ''machine_type'' \<noteq> [] then credentials
           else
             (if stored ''machine_type'' = [] then set_credential ''machine_type'' (MachineType machine) else id)
               ((if stored ''machine_token'' = [] then set_credential ''machine_token'' (MachineToken machine) else id)
                 ((if pat \<noteq> [] \<and> machineID = [] then set_credential ''machine_id'' (MachineID machine) else id)
                   credentials)))\<rparr>)"

definition qoderMachineForAccount :: "'z go_env_scheme \<Rightarrow> qoder_random \<Rightarrow> 'y Account_scheme \<Rightarrow> MachineIdentity" where
  "qoderMachineForAccount env r a =
     (let site = account_site env a; stored = TrimSpace (GetCredential env a ''machine_id'');
          machineID = (if stored = [] then MachineID (NewMachineForSite env r site) else stored)
      in if site = SiteCN then \<lparr>MachineID = machineID, MachineToken = [], MachineType = []\<rparr>
         else \<lparr>MachineID = machineID,
                MachineToken = firstNonEmptyQoder [GetCredential env a ''machine_token'', machineID],
                MachineType = firstNonEmptyQoder [GetCredential env a ''machine_type'', ''5'']\<rparr>)"

section \<open>Properties\<close>

lemma sites_differ [simp]: "SiteCN \<noteq> SiteGlobal" "SiteGlobal \<noteq> SiteCN" "SiteCN \<noteq> []" "SiteGlobal \<noteq> []"
  by (simp_all add: SiteGlobal_def SiteCN_def)

text \<open>What a site knows: its public aliases and their routes.\<close>

definition site_knows :: "Site \<Rightarrow> string \<Rightarrow> bool" where
  "site_knows site model \<longleftrightarrow> model \<in> set (map fst (AliasesForSite site)) \<union> set (map snd (AliasesForSite site))"

lemma alias_is_route_elsewhere:
  "\<forall>model \<in> set (map fst globalAliases) - set (map fst cnAliases). model \<notin> set (map snd cnAliases)"
  "\<forall>model \<in> set (map fst cnAliases) - set (map fst globalAliases). model \<notin> set (map snd globalAliases)"
  by code_simp+

lemma alias_in_table: "(map_of t x \<noteq> None) = (x \<in> set (map fst t))"
  by (simp add: map_of_eq_None_iff)

lemma route_in_table: "list_ex (\<lambda>(alias, route). route = x) t = (x \<in> set (map snd t))"
  by (induction t) auto

lemma list_ex_two: "list_ex P [a, b] = (P a \<or> P b)"
  by simp

lemma compatible_by_tables:
  "ModelCompatibleWithSite env site model =
    (let model = to_lower env (TrimSpace model) in
     model \<in> set (map fst (AliasesForSite site)) \<or>
     \<not> (model \<in> set (map fst globalAliases) \<or> model \<in> set (map fst cnAliases)) \<and>
     (\<not> (model \<in> set (map snd globalAliases) \<or> model \<in> set (map snd cnAliases)) \<or>
      model \<in> set (map snd (AliasesForSite site))))"
  unfolding ModelCompatibleWithSite_def AliasForSite_def AliasesForSite_def isKnownPublicAlias_def isKnownRouteKey_def
    alias_in_table Let_def
  by (simp only: list_ex_two route_in_table if_split_eq1 if_bool_eq_disj simp_thms de_Morgan_disj) blast

lemma compatible_sets:
  assumes "\<forall>x \<in> A - B. x \<notin> R"
  shows "(x \<in> B \<or> \<not> (x \<in> A \<or> x \<in> B) \<and> (\<not> (x \<in> S \<or> x \<in> R) \<or> x \<in> R)) \<longleftrightarrow> x \<in> B \<union> R \<or> x \<notin> A \<union> S"
    and "(x \<in> B \<or> \<not> (x \<in> B \<or> x \<in> A) \<and> (\<not> (x \<in> R \<or> x \<in> S) \<or> x \<in> R)) \<longleftrightarrow> x \<in> B \<union> R \<or> x \<notin> A \<union> S"
  using assms by blast+

text \<open>A Qoder account takes a model unless the model belongs to the other site only: an alias or a route that
  its own site knows is taken, one that only the other site knows is refused, and a name neither knows is
  passed through.\<close>

theorem qoder_model_compatible:
  "(ModelCompatibleWithSite env SiteGlobal model \<longleftrightarrow>
      site_knows SiteGlobal (to_lower env (TrimSpace model)) \<or> \<not> site_knows SiteCN (to_lower env (TrimSpace model))) \<and>
   (ModelCompatibleWithSite env SiteCN model \<longleftrightarrow>
      site_knows SiteCN (to_lower env (TrimSpace model)) \<or> \<not> site_knows SiteGlobal (to_lower env (TrimSpace model)))"
  unfolding compatible_by_tables Let_def site_knows_def AliasesForSite_def sites_differ if_True if_False refl
  using compatible_sets(2) [OF alias_is_route_elsewhere(2)] compatible_sets(1) [OF alias_is_route_elsewhere(1)]
  by (simp only: sites_differ if_True if_False refl)

text \<open>A name that normalisation leaves alone.\<close>

definition plain_name :: "string \<Rightarrow> bool" where
  "plain_name s = list_all (\<lambda>c. 32 < byte c \<and> byte c < 127 \<and> ascii_lower c = c) s"

lemma plain_name_normal: "plain_name s \<Longrightarrow> to_lower env (TrimSpace s) = s"
proof -
  assume s: "plain_name s"
  then have "TrimSpace s = s" by (intro TrimSpace_printable) (auto simp: plain_name_def list_all_iff)
  moreover have "is_ascii s" using s by (auto simp: plain_name_def is_ascii_def list_all_iff)
  moreover have "map ascii_lower s = s" using s by (simp add: plain_name_def list_all_iff map_idI)
  ultimately show ?thesis by (simp add: ToLower_def)
qed

text \<open>An entry that all tables of a site agree on.\<close>

definition listed_everywhere :: "Site \<Rightarrow> Model \<Rightarrow> bool" where
  "listed_everywhere site m \<longleftrightarrow>
     plain_name (ID m) \<and>
     (case (AliasForSite site (ID m), map_of defaultQoderModelAliases (ID m)) of
        (Some route, Some info) \<Rightarrow>
          Key info = route \<and> InfoName info = DisplayName m \<and> plain_name route \<and> route \<noteq> [] \<and>
          (case AliasForSite site route of None \<Rightarrow> True | Some r \<Rightarrow> r = route) \<and>
          map_of (if site = SiteCN then cnThinkingCapabilities else globalThinkingCapabilities) route \<noteq> None \<and>
          map_of (if site = SiteCN then cnContextCapabilities else globalContextCapabilities) route \<noteq> None
      | _ \<Rightarrow> False)"

lemma catalog_tables: "list_all (listed_everywhere SiteGlobal) globalModels" "list_all (listed_everywhere SiteCN) cnModels"
  by code_simp+

lemma catalog_entry:
  assumes "site \<in> {SiteGlobal, SiteCN}" "m \<in> set (DefaultModelsForSite site)"
  shows "listed_everywhere site m"
  using assms catalog_tables by (auto simp: DefaultModelsForSite_def list_all_iff split: if_splits)

lemma alias_key_is_billing:
  assumes "map_of defaultQoderModelAliases alias = Some info" "plain_name (Key info)" "Key info \<noteq> []"
  shows "isQoderAliasBillingModel env (Key info)"
proof -
  have "(alias, info) \<in> set defaultQoderModelAliases" using assms(1) by (rule map_of_SomeD)
  then have "isQoderAliasRouteKey env (Key info) defaultQoderModelAliases"
    using plain_name_normal [OF assms(2)]
    unfolding isQoderAliasRouteKey_def list_ex_iff normalizeQoderAliasModel_def by (intro bexI [of _ "(alias, info)"]) simp_all
  then show ?thesis
    using assms plain_name_normal [OF assms(2), of env]
    by (simp add: isQoderAliasBillingModel_def normalizeQoderAliasModel_def Let_def)
qed

text \<open>The tables of a site agree: every model a site offers is taken by that site, resolves to one route under
  the gateway's alias table and under the site's, is shown under the same name, has the reasoning and the
  context capabilities of its route, and its route is billed as a Qoder model.\<close>

theorem qoder_catalog_agrees:
  assumes "site \<in> {SiteGlobal, SiteCN}" "m \<in> set (DefaultModelsForSite site)"
  shows "ModelCompatibleWithSite env site (ID m) \<and>
    (\<exists>info. lookupQoderModelAliasForSite env site (ID m) = Some info \<and> InfoName info = DisplayName m \<and>
       AliasForSite site (ID m) = Some (Key info) \<and>
       ThinkingCapabilityForSite env site (ID m) = ThinkingCapabilityForSite env site (Key info) \<and>
       ContextCapabilityForSite env site (ID m) = ContextCapabilityForSite env site (Key info) \<and>
       isQoderAliasBillingModel env (Key info))"
proof -
  have entry: "listed_everywhere site m" using assms by (rule catalog_entry)
  then obtain info where info: "AliasForSite site (ID m) = Some (Key info)" "map_of defaultQoderModelAliases (ID m) = Some info"
    and shown: "InfoName info = DisplayName m" and plain: "plain_name (ID m)" "plain_name (Key info)" "Key info \<noteq> []"
    and route: "AliasForSite site (Key info) = None \<or> AliasForSite site (Key info) = Some (Key info)"
    by (auto simp: listed_everywhere_def split: option.splits)
  note normal = plain(1,2) [THEN plain_name_normal [of _ env]]
  have "route_key env site (ID m) = Key info" "route_key env site (Key info) = Key info"
    using info route normal by (auto simp: route_key_def)
  moreover have "ModelCompatibleWithSite env site (ID m)" using info normal by (simp add: ModelCompatibleWithSite_def)
  moreover have "lookupQoderModelAliasForSite env site (ID m) = Some info"
    using info normal by (simp add: lookupQoderModelAliasForSite_def normalizeQoderAliasModel_def)
  moreover have "isQoderAliasBillingModel env (Key info)" using info(2) plain(2,3) by (rule alias_key_is_billing)
  ultimately show ?thesis
    using info shown by (auto simp: ThinkingCapabilityForSite_def ContextCapabilityForSite_def Let_def)
qed

theorem qoder_catalog_agrees_witness:
  "ModelCompatibleWithSite demo_go_env SiteCN ''qwen3.6-flash'' \<and> \<not> ModelCompatibleWithSite demo_go_env SiteGlobal ''qwen3.6-flash''"
proof
  let ?m = "\<lparr>ID = ''qwen3.6-flash'', ModelType = ''model'', DisplayName = ''Qwen3.6-Flash'', CreatedAt = []\<rparr>"
  have "?m \<in> set (DefaultModelsForSite SiteCN)" by (simp add: DefaultModelsForSite_def cnModels_def)
  from qoder_catalog_agrees [OF _ this, of demo_go_env] show "ModelCompatibleWithSite demo_go_env SiteCN ''qwen3.6-flash''" by simp
  have "plain_name ''qwen3.6-flash''" "map_of globalAliases ''qwen3.6-flash'' = None" "map_of cnAliases ''qwen3.6-flash'' \<noteq> None"
    by code_simp+
  then show "\<not> ModelCompatibleWithSite demo_go_env SiteGlobal ''qwen3.6-flash''"
    by (simp add: ModelCompatibleWithSite_def plain_name_normal AliasForSite_def isKnownPublicAlias_def)
qed

lemma GetCredential_set [simp]:
  "GetCredential env (a\<lparr>Credentials := Some (set_credential k v m)\<rparr>) k' =
     (if k' = k then v else GetCredential env (a\<lparr>Credentials := Some m\<rparr>) k')"
  by (simp add: GetCredential_def entry_of_def set_credential_def)

lemma GetCredential_delete [simp]:
  "GetCredential env (a\<lparr>Credentials := Some (map_delete k m)\<rparr>) k' =
     (if k' = k then [] else GetCredential env (a\<lparr>Credentials := Some m\<rparr>) k')"
  by (simp add: GetCredential_def entry_of_def)

lemma GetCredential_made [simp]:
  "GetCredential env (a\<lparr>Credentials := Some (case Credentials a of None \<Rightarrow> [] | Some c \<Rightarrow> c)\<rparr>) k = GetCredential env a k"
  by (simp add: GetCredential_def entry_of_def lookup_def split: option.split)

lemma account_site_unchanged:
  "GetCredential env a ''site'' = GetCredential env b ''site'' \<Longrightarrow> account_site env a = account_site env b"
  by (simp add: account_site_def qoderSiteForAccount_def)

lemma map_delete_idem [simp]: "map_delete k (map_delete k m) = map_delete k m"
  by (simp add: map_delete_def delete_idem)

lemma map_delete_twist: "map_delete k (map_delete k' m) = map_delete k' (map_delete k m)"
  by (simp add: map_delete_def delete_twist)

lemma map_delete_set [simp]: "k \<noteq> k' \<Longrightarrow> map_delete k (set_credential k' v m) = set_credential k' v (map_delete k m)"
  unfolding map_delete_def set_credential_def map_set_def by (induction m) auto

text \<open>An account that the call equips, and one that needs nothing.\<close>

definition equips :: "'z go_env_scheme \<Rightarrow> 'y Account_scheme \<Rightarrow> bool" where
  "equips env a \<longleftrightarrow>
     TrimSpace (GetCredential env a ''pat'') \<noteq> [] \<or>
     TrimSpace (GetCredential env a ''security_oauth_token'') \<noteq> [] \<and> TrimSpace (GetCredential env a ''machine_id'') \<noteq> []"

definition equipped :: "'z go_env_scheme \<Rightarrow> 'y Account_scheme \<Rightarrow> bool" where
  "equipped env a \<longleftrightarrow>
     TrimSpace (GetCredential env a ''machine_id'') \<noteq> [] \<and> Credentials a \<noteq> None \<and>
     (if account_site env a = SiteCN
      then (\<exists>m. the (Credentials a) = map_delete ''machine_type'' (map_delete ''machine_token'' m))
      else TrimSpace (GetCredential env a ''machine_token'') \<noteq> [] \<and> TrimSpace (GetCredential env a ''machine_type'') \<noteq> [])"

definition fresh_machine :: "qoder_random \<Rightarrow> bool" where
  "fresh_machine r \<longleftrightarrow> TrimSpace (RandomUUIDLike r) \<noteq> [] \<and> TrimSpace (MachineID (RandomMachine r)) \<noteq> [] \<and>
     TrimSpace (MachineToken (RandomMachine r)) \<noteq> [] \<and> TrimSpace (MachineType (RandomMachine r)) \<noteq> []"

lemma fresh_id: "fresh_machine r \<Longrightarrow> TrimSpace (MachineID (NewMachineForSite env r site)) \<noteq> []"
  by (simp add: fresh_machine_def NewMachineForSite_def)

lemma ParseSite_canonical: "ParseSite env s = Some site \<Longrightarrow> site = SiteGlobal \<or> site = SiteCN"
  by (auto simp: ParseSite_def Let_def split: if_splits)

lemma account_site_cases: "account_site env a = SiteGlobal \<or> account_site env a = SiteCN"
  using ParseSite_canonical by (auto simp: account_site_def qoderSiteForAccount_def split: option.split)

lemma ParseSite_global: "ParseSite env SiteGlobal = Some SiteGlobal"
  using plain_name_normal [of SiteGlobal env] by (simp add: ParseSite_def plain_name_def SiteGlobal_def ascii_lower_def)

lemma global_machine: "NewMachineForSite env r SiteGlobal = RandomMachine r"
  by (simp add: NewMachineForSite_def ParseSite_global)

lemma ensure_equips:
  assumes "fresh_machine r" "equips env a"
  shows "equipped env (ensureQoderMachineCredentials env r a)"
proof -
  have site: "account_site env (ensureQoderMachineCredentials env r a) = account_site env a"
    by (rule account_site_unchanged) (simp add: ensureQoderMachineCredentials_def Let_def)
  note fresh = assms(1) [unfolded fresh_machine_def] fresh_id [OF assms(1), of env "account_site env a"]
  note act = assms(2) [unfolded equips_def]
  show ?thesis
  proof (cases "account_site env a = SiteCN")
    case True
    then show ?thesis unfolding equipped_def site using fresh act
      by (auto simp: ensureQoderMachineCredentials_def Let_def simp flip: map_delete_set)
  next
    case False
    then have "account_site env a = SiteGlobal" using account_site_cases by blast
    then show ?thesis unfolding equipped_def site using fresh act
      by (auto simp: ensureQoderMachineCredentials_def Let_def global_machine)
  qed
qed

lemma equipped_stays:
  assumes "equipped env a"
  shows "ensureQoderMachineCredentials env r a = a"
proof -
  obtain c where c: "Credentials a = Some c" using assms by (auto simp: equipped_def)
  have id: "TrimSpace (GetCredential env a ''machine_id'') \<noteq> []" using assms by (simp add: equipped_def)
  have "account_site env a = SiteCN \<Longrightarrow> map_delete ''machine_type'' (map_delete ''machine_token'' c) = c"
    using assms c by (auto simp: equipped_def map_delete_twist)
  then show ?thesis using assms c id
    by (cases "account_site env a = SiteCN") (auto simp: ensureQoderMachineCredentials_def equipped_def Let_def)
qed

lemma equipped_machine:
  assumes "equipped env a"
  shows "qoderMachineForAccount env r a =
    (if account_site env a = SiteCN then \<lparr>MachineID = TrimSpace (GetCredential env a ''machine_id''), MachineToken = [], MachineType = []\<rparr>
     else \<lparr>MachineID = TrimSpace (GetCredential env a ''machine_id''),
            MachineToken = TrimSpace (GetCredential env a ''machine_token''),
            MachineType = TrimSpace (GetCredential env a ''machine_type'')\<rparr>)"
  using assms by (auto simp: qoderMachineForAccount_def equipped_def Let_def)

lemma ensure_keeps_id:
  "TrimSpace (GetCredential env a ''machine_id'') \<noteq> [] \<Longrightarrow>
    GetCredential env (ensureQoderMachineCredentials env r a) ''machine_id'' = GetCredential env a ''machine_id''"
  by (simp add: ensureQoderMachineCredentials_def Let_def)

text \<open>Once an account has a machine identity it keeps it: after \<open>ensureQoderMachineCredentials\<close> on an account with an
  access token, or with a token and a machine id of its own, a repeated call changes nothing, every request
  sees the same identity whatever is drawn at random, and a machine id that was there is not replaced.\<close>

theorem qoder_machine_stable:
  assumes "fresh_machine r" "equips env a"
  defines "a' \<equiv> ensureQoderMachineCredentials env r a"
  shows "ensureQoderMachineCredentials env r' a' = a' \<and>
    qoderMachineForAccount env r' a' = qoderMachineForAccount env r'' a' \<and>
    MachineID (qoderMachineForAccount env r' a') \<noteq> [] \<and>
    (TrimSpace (GetCredential env a ''machine_id'') \<noteq> [] \<longrightarrow>
       MachineID (qoderMachineForAccount env r' a') = TrimSpace (GetCredential env a ''machine_id''))"
proof -
  have e: "equipped env a'" unfolding a'_def using assms(1,2) by (rule ensure_equips)
  then have "TrimSpace (GetCredential env a' ''machine_id'') \<noteq> []" by (simp add: equipped_def)
  then show ?thesis
    using equipped_stays [OF e] equipped_machine [OF e] ensure_keeps_id [of env a r] by (auto simp: a'_def)
qed

theorem qoder_machine_stable_witness:
  "\<exists>(a :: Account) r. qoderMachineForAccount demo_go_env r (ensureQoderMachineCredentials demo_go_env r a) =
    \<lparr>MachineID = ''uuid'', MachineToken = ''tok'', MachineType = ''typ''\<rparr>"
proof -
  let ?a = "demo_account\<lparr>Credentials := Some [(''pat'', StringV ''p'')]\<rparr>"
  let ?r = "\<lparr>RandomUUIDLike = ''u'', RandomMachine = \<lparr>MachineID = ''uuid'', MachineToken = ''tok'', MachineType = ''typ''\<rparr>\<rparr>"
  have read: "GetCredential demo_go_env ?a k = (if k = ''pat'' then ''p'' else [])" for k
    by (simp add: GetCredential_def entry_of_def lookup_def)
  have fresh: "fresh_machine ?r" by (simp add: fresh_machine_def TrimSpace_printable)
  have equips: "equips demo_go_env ?a" by (simp add: equips_def read TrimSpace_printable)
  have "to_lower demo_go_env [] = []" by (simp add: ToLower_def is_ascii_def)
  then have site: "account_site demo_go_env ?a = SiteGlobal"
    by (simp add: account_site_def qoderSiteForAccount_def ParseSite_def read)
  let ?b = "ensureQoderMachineCredentials demo_go_env ?r ?a"
  have "\<exists>r. qoderMachineForAccount demo_go_env r ?b = qoderMachineForAccount demo_go_env ?r ?b"
    by (rule exI, rule qoder_machine_stable [OF fresh equips, of ?r ?r, THEN conjunct2, THEN conjunct1])
  moreover have "qoderMachineForAccount demo_go_env ?r ?b = \<lparr>MachineID = ''uuid'', MachineToken = ''tok'', MachineType = ''typ''\<rparr>"
    using equipped_machine [OF ensure_equips [OF fresh equips], of ?r] site
    by (simp add: ensureQoderMachineCredentials_def read account_site_def qoderSiteForAccount_def global_machine Let_def TrimSpace_printable)
  ultimately show ?thesis by blast
qed

end
