(* ===== verification/Account_Whitelist.thy ===== *)
theory Account_Whitelist
  imports Account_OpenAI Model_Mapping Qoder_Catalog
begin

text \<open>
  Which models an account serves (\<^verbatim>\<open>service/account.go\<close>, \<^verbatim>\<open>service/openai_model_mapping.go\<close>): its model
  mapping with the cache in front of it, the whitelist of final models, the answer whether a requested
  model is supported and the list of models it offers.

  Addresses of maps and the hash of
  a mapping are arguments of the cache, which only compares them.  A set of models is a list without
  repetitions, in the order of one iteration.
\<close>

section \<open>Antigravity defaults\<close>

definition AntigravityGemini31ProAgentModel :: string where
  "AntigravityGemini31ProAgentModel = ''gemini-pro-agent''"

definition DefaultAntigravityModelMapping :: model_map where
  "DefaultAntigravityModelMapping =
    [(''claude-fable-5-1'', ''claude-fable-5-1''),
     (''claude-fable-5'', ''claude-fable-5''),
     (''claude-opus-4-8'', ''claude-opus-4-8''),
     (''claude-opus-4-7'', ''claude-opus-4-7''),
     (''claude-opus-4-6-thinking'', ''claude-opus-4-6-thinking''),
     (''claude-opus-4-6'', ''claude-opus-4-6-thinking''),
     (''claude-opus-4-5-thinking'', ''claude-opus-4-6-thinking''),
     (''claude-sonnet-4-6'', ''claude-sonnet-4-6''),
     (''claude-sonnet-4-5'', ''claude-sonnet-4-5''),
     (''claude-sonnet-4-5-thinking'', ''claude-sonnet-4-5-thinking''),
     (''claude-opus-4-5-20251101'', ''claude-opus-4-6-thinking''),
     (''claude-sonnet-4-5-20250929'', ''claude-sonnet-4-5''),
     (''claude-haiku-4-5'', ''claude-sonnet-4-6''),
     (''claude-haiku-4-5-20251001'', ''claude-sonnet-4-6''),
     (''gemini-2.5-flash'', ''gemini-2.5-flash''),
     (''gemini-2.5-flash-image'', ''gemini-2.5-flash-image''),
     (''gemini-2.5-flash-image-preview'', ''gemini-2.5-flash-image''),
     (''gemini-2.5-flash-lite'', ''gemini-2.5-flash-lite''),
     (''gemini-2.5-flash-thinking'', ''gemini-2.5-flash-thinking''),
     (''gemini-2.5-pro'', ''gemini-2.5-pro''),
     (''gemini-3-flash'', ''gemini-3-flash''),
     (''gemini-3-pro-high'', ''gemini-3-pro-high''),
     (''gemini-3-pro-low'', ''gemini-3-pro-low''),
     (''gemini-3-flash-preview'', ''gemini-3-flash''),
     (''gemini-3-pro-preview'', ''gemini-3-pro-high''),
     (AntigravityGemini31ProAgentModel, AntigravityGemini31ProAgentModel),
     (''gemini-3.1-pro'', AntigravityGemini31ProAgentModel),
     (''gemini-3.1-pro-high'', AntigravityGemini31ProAgentModel),
     (''gemini-3.1-pro-low'', ''gemini-3.1-pro-low''),
     (''gemini-3.1-pro-preview'', AntigravityGemini31ProAgentModel),
     (''gemini-3.1-flash-image'', ''gemini-3.1-flash-image''),
     (''gemini-3.1-flash-image-preview'', ''gemini-3.1-flash-image''),
     (''gemini-3.6-flash'', ''gemini-3.6-flash''),
     (''gemini-3.6-flash-high'', ''gemini-3.6-flash-high''),
     (''gemini-3.6-flash-low'', ''gemini-3.6-flash-low''),
     (''gemini-3.6-flash-medium'', ''gemini-3.6-flash-medium''),
     (''gemini-3.6-flash-tiered'', ''gemini-3.6-flash-tiered''),
     (''gemini-3-pro-image'', ''gemini-3.1-flash-image''),
     (''gemini-3-pro-image-preview'', ''gemini-3.1-flash-image''),
     (''gpt-oss-120b-medium'', ''gpt-oss-120b-medium''),
     (''tab_flash_lite_preview'', ''tab_flash_lite_preview'')]"

definition ensureAntigravityDefaultPassthrough :: "string \<Rightarrow> model_map \<Rightarrow> model_map" where
  "ensureAntigravityDefaultPassthrough model mapping =
     (if model = [] then mapping
      else if map_of mapping model \<noteq> None then mapping
      else if mappingHasWildcardForModel mapping model then mapping
      else AList.update model model mapping)"

definition ensureAntigravityDefaultPassthroughs :: "model_map \<Rightarrow> string list \<Rightarrow> model_map" where
  "ensureAntigravityDefaultPassthroughs mapping models = fold ensureAntigravityDefaultPassthrough models mapping"

definition gemini31_aliases :: "(string \<times> string list) list" where
  "gemini31_aliases =
     [(''gemini-3.1-pro'', [''gemini-3.1-pro'']),
      (''gemini-3.1-pro-high'', [''gemini-3.1-pro-high'']),
      (''gemini-3.1-pro-preview'', [''gemini-3.1-pro-preview'', ''gemini-3.1-pro-high''])]"

definition apply_alias :: "string \<Rightarrow> string \<times> string list \<Rightarrow> model_map \<Rightarrow> model_map" where
  "apply_alias target = (\<lambda>(model, legacyTargets) mapping.
     case map_of mapping model of
       Some current \<Rightarrow> if current \<in> set legacyTargets then AList.update model target mapping else mapping
     | None \<Rightarrow> if mappingHasWildcardForModel mapping model then mapping else AList.update model target mapping)"

definition applyAntigravityGemini31ProAliases :: "model_map \<Rightarrow> model_map" where
  "applyAntigravityGemini31ProAliases mapping =
     (let target = TrimSpace (case map_of mapping AntigravityGemini31ProAgentModel of None \<Rightarrow> [] | Some t \<Rightarrow> t) in
      if target = [] then mapping else fold (apply_alias target) gemini31_aliases mapping)"

section \<open>The account's mapping\<close>

text \<open>The models of the Google One catalogue, each mapped to itself.\<close>

definition googleOneModels :: "string list" where
  "googleOneModels = [''gemini-2.5-flash'', ''gemini-2.5-pro'', ''gemini-2.0-flash'']"

definition GoogleOneModelMapping :: model_map where
  "GoogleOneModelMapping = map (\<lambda>model. (model, model)) googleOneModels"

definition string_entries :: "any_map \<Rightarrow> model_map" where
  "string_entries m = List.map_filter (\<lambda>(k, v). map_option (Pair k) (as_string v)) m"

definition stringMappingFromRaw :: "any \<Rightarrow> model_map" where
  "stringMappingFromRaw raw = (case as_map raw of None \<Rightarrow> [] | Some m \<Rightarrow> string_entries m)"

definition antigravity_passthroughs :: "string list" where
  "antigravity_passthroughs =
     [''gemini-3-flash'', ''gemini-3.1-pro-high'', ''gemini-3.1-pro-low'', ''gemini-3.6-flash'', ''gemini-3.6-flash-high'',
      ''gemini-3.6-flash-low'', ''gemini-3.6-flash-medium'', ''gemini-3.6-flash-tiered'']"

definition resolveModelMapping :: "'z go_env_scheme \<Rightarrow> 'y Account_scheme \<Rightarrow> any_map \<Rightarrow> model_map" where
  "resolveModelMapping env a rawMapping =
     (if Credentials a = None then (if Platform a = PlatformAntigravity then DefaultAntigravityModelMapping else [])
      else if rawMapping = [] then
        (if IsGeminiGoogleOne env a then GoogleOneModelMapping
         else if Platform a = PlatformAntigravity then DefaultAntigravityModelMapping
         else [])
      else
        let result = string_entries rawMapping in
        if result \<noteq> [] then
          (if Platform a = PlatformAntigravity
           then applyAntigravityGemini31ProAliases (ensureAntigravityDefaultPassthroughs result antigravity_passthroughs)
           else result)
        else if IsGeminiGoogleOne env a then GoogleOneModelMapping
        else if Platform a = PlatformAntigravity then DefaultAntigravityModelMapping
        else [])"

definition raw_mapping :: "'y Account_scheme \<Rightarrow> any_map" where
  "raw_mapping a = (case as_map (entry_of (Credentials a) ''model_mapping'') of None \<Rightarrow> [] | Some m \<Rightarrow> m)"

text \<open>The cache: what it was computed from, and the mapping.  The addresses of the two maps and the hash
  function are given.\<close>

record mapping_cache =
  cacheReady :: bool
  cacheCredentialsPtr :: nat
  cacheRawPtr :: nat
  cacheRawLen :: nat
  cacheRawSig :: nat
  cacheMapping :: model_map

definition modelMappingSignature :: "(string \<Rightarrow> nat) \<Rightarrow> any_map \<Rightarrow> nat" where
  "modelMappingSignature hash raw =
     (if raw = [] then 0
      else hash (concat (map (\<lambda>k. k @ [char_of (0::nat)] @
             (case as_string (lookup raw k) of Some v \<Rightarrow> v | None \<Rightarrow> [char_of (1::nat)]) @ [char_of (255::nat)])
           (sort (map fst raw)))))"

definition GetModelMapping :: "'z go_env_scheme \<Rightarrow> (string \<Rightarrow> nat) \<Rightarrow> nat \<Rightarrow> nat \<Rightarrow> 'y Account_scheme \<Rightarrow>
    mapping_cache \<Rightarrow> model_map \<times> mapping_cache" where
  "GetModelMapping env hash credentialsPtr rawPtr a c =
     (let rawMapping = raw_mapping a in
      if cacheReady c \<and> cacheCredentialsPtr c = credentialsPtr \<and> cacheRawPtr c = rawPtr \<and>
         cacheRawLen c = length rawMapping \<and> cacheRawSig c = modelMappingSignature hash rawMapping
      then (cacheMapping c, c)
      else
        let mapping = resolveModelMapping env a rawMapping in
        (mapping, \<lparr>cacheReady = True, cacheCredentialsPtr = credentialsPtr, cacheRawPtr = rawPtr,
           cacheRawLen = length rawMapping, cacheRawSig = modelMappingSignature hash rawMapping, cacheMapping = mapping\<rparr>))"

text \<open>The mapping as it is without the cache.\<close>

definition model_mapping_of :: "'z go_env_scheme \<Rightarrow> 'y Account_scheme \<Rightarrow> model_map" where
  "model_mapping_of env a = resolveModelMapping env a (raw_mapping a)"

section \<open>Resolution\<close>

definition normalizeRequestedModelForLookup :: "string \<Rightarrow> string \<Rightarrow> string" where
  "normalizeRequestedModelForLookup platform requestedModel =
     (let trimmed = TrimSpace requestedModel in
      if trimmed = [] then []
      else if platform \<noteq> PlatformGemini \<and> platform \<noteq> PlatformAntigravity then trimmed
      else if trimmed = ''gemini-3.1-pro-preview-customtools'' then ''gemini-3.1-pro-preview''
      else trimmed)"

definition ResolveMappedModel :: "'z go_env_scheme \<Rightarrow> 'y Account_scheme \<Rightarrow> string \<Rightarrow> string \<times> bool" where
  "ResolveMappedModel env a requestedModel =
     (let mapping = model_mapping_of env a in
      if mapping = [] then (requestedModel, False)
      else case resolveRequestedModelInMapping mapping requestedModel of
        (mappedModel, True) \<Rightarrow> (mappedModel, True)
      | (_, False) \<Rightarrow>
          let normalized = normalizeRequestedModelForLookup (Platform a) requestedModel in
          if normalized \<noteq> requestedModel
          then (case resolveRequestedModelInMapping mapping normalized of
                  (mappedModel, True) \<Rightarrow> (mappedModel, True)
                | (_, False) \<Rightarrow> (requestedModel, False))
          else (requestedModel, False))"

definition GetMappedModel :: "'z go_env_scheme \<Rightarrow> 'y Account_scheme \<Rightarrow> string \<Rightarrow> string" where
  "GetMappedModel env a requestedModel = fst (ResolveMappedModel env a requestedModel)"

definition GetCompactModelMapping :: "'y Account_scheme \<Rightarrow> model_map" where
  "GetCompactModelMapping a =
     (case Credentials a of None \<Rightarrow> [] | Some c \<Rightarrow> stringMappingFromRaw (lookup c ''compact_model_mapping''))"

definition ResolveCompactMappedModel :: "'y Account_scheme \<Rightarrow> string \<Rightarrow> string \<times> bool" where
  "ResolveCompactMappedModel a requestedModel =
     (let mapping = GetCompactModelMapping a in
      if mapping = [] then (requestedModel, False)
      else case resolveRequestedModelInMapping mapping requestedModel of
        (mappedModel, True) \<Rightarrow> (mappedModel, True)
      | (_, False) \<Rightarrow> (requestedModel, False))"

definition resolveOpenAIForwardModel :: "'z go_env_scheme \<Rightarrow> 'y Account_scheme option \<Rightarrow> string \<Rightarrow> string \<Rightarrow> string" where
  "resolveOpenAIForwardModel env account requestedModel messagesDispatchMappedModel =
     (let dispatch = TrimSpace messagesDispatchMappedModel;
          accountLayerModel = (if dispatch \<noteq> [] then dispatch else requestedModel)
      in case account of None \<Rightarrow> accountLayerModel | Some a \<Rightarrow> GetMappedModel env a accountLayerModel)"

definition resolveOpenAICompactForwardModel :: "'y Account_scheme option \<Rightarrow> string \<Rightarrow> string" where
  "resolveOpenAICompactForwardModel account model =
     (let trimmedModel = TrimSpace model in
      if trimmedModel = [] then trimmedModel
      else case account of None \<Rightarrow> trimmedModel | Some a \<Rightarrow>
        (case ResolveCompactMappedModel a trimmedModel of
           (_, False) \<Rightarrow> trimmedModel
         | (mappedModel, True) \<Rightarrow> if TrimSpace mappedModel \<noteq> [] then TrimSpace mappedModel else trimmedModel))"

section \<open>Models an OAuth account cannot serve\<close>

text \<open>The part after the last slash.\<close>

definition after_last_slash :: "string \<Rightarrow> string" where
  "after_last_slash s = rev (takeWhile (\<lambda>c. c \<noteq> CHR ''/'') (rev s))"

definition lastOpenAIModelSegment :: "string \<Rightarrow> string" where
  "lastOpenAIModelSegment model =
     (let model = TrimSpace model in
      if model = [] then []
      else TrimSpace (if CHR ''/'' \<in> set model then after_last_slash model else model))"

definition openAIOAuthForeignModelPrefixes :: "string list" where
  "openAIOAuthForeignModelPrefixes =
    [''deepseek-'', ''glm-'', ''kimi-'', ''moonshot-'', ''qwen-'', ''qwen2-'', ''qwen3-'', ''qwen4-'', ''qwq-'', ''minimax-'',
     ''gemini-'', ''gemma-'', ''grok-'', ''doubao-'', ''hunyuan-'', ''llama-'', ''llama2-'', ''llama3-'', ''meta-llama'',
     ''mistral-'', ''mixtral-'', ''baichuan-'', ''ernie-'', ''step-'', ''seed-'', ''yi-'']"

definition isOpenAIOAuthServableModel :: "'z go_env_scheme \<Rightarrow> string \<Rightarrow> bool" where
  "isOpenAIOAuthServableModel env requestedModel =
     (let model = to_lower env (lastOpenAIModelSegment requestedModel) in
      if model = [] then True
      else if model = ''k3'' \<or> model = ''k3-256k'' then False
      else \<not> list_ex (\<lambda>p. prefix p model) openAIOAuthForeignModelPrefixes)"

section \<open>Whitelist of final models\<close>

definition extractFinalModelWhitelist :: "string \<Rightarrow> model_map \<Rightarrow> string list" where
  "extractFinalModelWhitelist platform mapping =
     remdups (List.map_filter (\<lambda>(rawFrom, rawTo).
       if CHR ''*'' \<in> set rawFrom then None
       else
         let from = normalizeRequestedModelForLookup platform rawFrom;
             to = normalizeRequestedModelForLookup platform (TrimSpace rawTo)
         in if from = [] \<or> to = [] \<or> from \<noteq> to then None else Some to) mapping)"

definition whitelist_values :: "'z go_env_scheme \<Rightarrow> any \<Rightarrow> string list" where
  "whitelist_values env raw =
     (case raw of
        StringsV values \<Rightarrow> values
      | ListV values \<Rightarrow> map (\<lambda>v. TrimSpace (Sprint env v)) (filter (\<lambda>v. v \<noteq> NilV) values)
      | _ \<Rightarrow> [])"

definition extractExplicitFinalModelWhitelist :: "'z go_env_scheme \<Rightarrow> string \<Rightarrow> any \<Rightarrow> string list" where
  "extractExplicitFinalModelWhitelist env platform rawWhitelist =
     remdups (filter (\<lambda>model. model \<noteq> [] \<and> CHR ''*'' \<notin> set model)
       (map (normalizeRequestedModelForLookup platform) (whitelist_values env rawWhitelist)))"

definition resolveFinalModelWhitelist :: "'z go_env_scheme \<Rightarrow> string \<Rightarrow> any_map option \<Rightarrow> model_map \<Rightarrow> string list \<times> bool" where
  "resolveFinalModelWhitelist env platform credentials mapping =
     (case (case credentials of None \<Rightarrow> None | Some c \<Rightarrow> map_of c ''model_whitelist'') of
        Some rawWhitelist \<Rightarrow> (extractExplicitFinalModelWhitelist env platform rawWhitelist, True)
      | None \<Rightarrow> if platform = PlatformQoder then ([], False) else (extractFinalModelWhitelist platform mapping, False))"

definition normalizeQoderModelForWhitelist :: "'z go_env_scheme \<Rightarrow> string \<Rightarrow> string" where
  "normalizeQoderModelForWhitelist env model =
     (let trimmed = TrimSpace model in
      if trimmed = [] then []
      else case lookupQoderModelAlias env trimmed of Some info \<Rightarrow> TrimSpace (Key info) | None \<Rightarrow> trimmed)"

definition isModelInFinalWhitelist :: "'z go_env_scheme \<Rightarrow> string \<Rightarrow> string \<Rightarrow> string list \<Rightarrow> bool" where
  "isModelInFinalWhitelist env platform model whitelist =
     (if whitelist = [] then True
      else if model \<in> set whitelist then True
      else if platform = PlatformQoder
      then (let modelKey = normalizeQoderModelForWhitelist env model in
            list_ex (\<lambda>allowed. normalizeQoderModelForWhitelist env allowed = modelKey) whitelist)
      else
        let normalized = normalizeRequestedModelForLookup platform model in
        if normalized = model then False else normalized \<in> set whitelist)"

definition account_whitelist :: "'z go_env_scheme \<Rightarrow> 'y Account_scheme \<Rightarrow> string list" where
  "account_whitelist env a = fst (resolveFinalModelWhitelist env (Platform a) (Credentials a) (model_mapping_of env a))"

definition isFinalModelWhitelisted :: "'z go_env_scheme \<Rightarrow> 'y Account_scheme \<Rightarrow> string \<Rightarrow> bool" where
  "isFinalModelWhitelisted env a finalModel = isModelInFinalWhitelist env (Platform a) finalModel (account_whitelist env a)"

section \<open>Supported and offered models\<close>

definition IsModelSupported :: "'z go_env_scheme \<Rightarrow> 'y Account_scheme \<Rightarrow> string \<Rightarrow> bool" where
  "IsModelSupported env a requestedModel =
     (if IsOpenAIPassthroughEnabled a then True
      else
        let mapping = model_mapping_of env a; whitelist = account_whitelist env a;
            allowed = (\<lambda>model. isModelInFinalWhitelist env (Platform a) model whitelist) in
        if Platform a = PlatformAntigravity then
          (if mapping = [] then True else snd (ResolveMappedModel env a requestedModel))
        else if Platform a = PlatformQoder then
          (case ResolveMappedModel env a requestedModel of
             (mappedModel, True) \<Rightarrow> allowed mappedModel
           | (_, False) \<Rightarrow>
               (case qoderSiteForAccount env a of
                  None \<Rightarrow> False
                | Some site \<Rightarrow>
                    if \<not> ModelCompatibleWithSite env site requestedModel then False else allowed requestedModel))
        else if mapping = [] then
          (if \<not> allowed requestedModel then False
           else if IsOpenAIOAuth a \<and> \<not> IsOpenAIPassthroughEnabled a then isOpenAIOAuthServableModel env requestedModel
           else True)
        else
          (case ResolveMappedModel env a requestedModel of
             (mappedModel, True) \<Rightarrow> allowed mappedModel
           | (_, False) \<Rightarrow> allowed requestedModel))"

definition configuredQoderRequestModels :: "model_map \<Rightarrow> string list \<Rightarrow> string list" where
  "configuredQoderRequestModels mapping whitelist =
     sort (remdups (filter (\<lambda>m. m \<noteq> []) (map TrimSpace (if mapping \<noteq> [] then map fst mapping else whitelist))))"

definition GetConfiguredRequestModels :: "'z go_env_scheme \<Rightarrow> 'y Account_scheme \<Rightarrow> string list" where
  "GetConfiguredRequestModels env a =
     (let mapping = model_mapping_of env a; whitelist = account_whitelist env a in
      if Platform a = PlatformQoder then configuredQoderRequestModels mapping whitelist
      else if whitelist = [] then []
      else sort (remdups (map fst mapping @ whitelist)))"

section \<open>Properties\<close>

lemma mapped_model:
  "ResolveMappedModel env a r = (m, matched) \<Longrightarrow> GetMappedModel env a r = m \<and> (\<not> matched \<longrightarrow> m = r)"
  by (auto simp: GetMappedModel_def ResolveMappedModel_def Let_def split: prod.splits bool.splits if_splits)

lemma unmapped_without_mapping: "model_mapping_of env a = [] \<Longrightarrow> GetMappedModel env a r = r"
  by (simp add: GetMappedModel_def ResolveMappedModel_def)

text \<open>C26. The gate looks at what will be sent.  A supported model, once the account's own mapping has rewritten it, is
  on the account's whitelist of final models, if there is one; outside Qoder this is exactly the condition,
  except that an OpenAI OAuth account without a mapping also refuses other vendors' models.  Pass-through and
  Antigravity accounts are checked elsewhere.\<close>

theorem supported_model_whitelisted:
  assumes "\<not> IsOpenAIPassthroughEnabled a" "Platform a \<noteq> PlatformAntigravity"
  shows "(IsModelSupported env a requestedModel \<longrightarrow> isFinalModelWhitelisted env a (GetMappedModel env a requestedModel)) \<and>
    (Platform a \<noteq> PlatformQoder \<longrightarrow>
      (IsModelSupported env a requestedModel \<longleftrightarrow>
         isFinalModelWhitelisted env a (GetMappedModel env a requestedModel) \<and>
         (model_mapping_of env a = [] \<and> IsOpenAIOAuth a \<longrightarrow> isOpenAIOAuthServableModel env requestedModel)))"
proof (cases "ResolveMappedModel env a requestedModel")
  case (Pair m matched)
  note mapped = mapped_model [OF this]
  show ?thesis
    using assms Pair mapped unmapped_without_mapping [of env a requestedModel]
    by (cases matched) (auto simp: IsModelSupported_def isFinalModelWhitelisted_def Let_def split: if_splits option.splits)
qed

text \<open>An OpenAI account that rewrites one model and whitelists another.\<close>

definition rewriting_account :: Account where
  "rewriting_account = demo_account\<lparr>Credentials := Some
     [(''model_mapping'', MapV [(''gpt-best'', StringV ''gpt-4'')]), (''model_whitelist'', StringsV [''gpt-5''])]\<rparr>"

lemma rewriting_mapping: "model_mapping_of env rewriting_account = [(''gpt-best'', ''gpt-4'')]"
  by (simp add: model_mapping_of_def raw_mapping_def rewriting_account_def demo_account_def entry_of_def lookup_def
      resolveModelMapping_def string_entries_def platform_consts map_filter_simps)

lemma rewriting_whitelist: "account_whitelist env rewriting_account = [''gpt-5'']"
  by (simp add: account_whitelist_def rewriting_mapping resolveFinalModelWhitelist_def rewriting_account_def demo_account_def
      extractExplicitFinalModelWhitelist_def whitelist_values_def normalizeRequestedModelForLookup_def platform_consts TrimSpace_printable)

lemma rewriting_plain: "\<not> IsOpenAIPassthroughEnabled rewriting_account" "Platform rewriting_account = PlatformOpenAI"
  by (simp_all add: IsOpenAIPassthroughEnabled_def rewriting_account_def demo_account_def kind_defs entry_of_def lookup_def)

lemma rewriting_result: "GetMappedModel env rewriting_account ''gpt-best'' = ''gpt-4''"
  by (simp add: GetMappedModel_def ResolveMappedModel_def rewriting_mapping resolveRequestedModelInMapping_def)

lemma rewriting_refused: "\<not> isFinalModelWhitelisted env rewriting_account ''gpt-4''"
  by (simp add: isFinalModelWhitelisted_def rewriting_whitelist isModelInFinalWhitelist_def rewriting_plain
      normalizeRequestedModelForLookup_def platform_consts TrimSpace_printable)

theorem supported_model_whitelisted_witness:
  "\<not> IsModelSupported demo_go_env rewriting_account ''gpt-best''"
  using supported_model_whitelisted [OF rewriting_plain(1), of demo_go_env "''gpt-best''"] rewriting_plain(2) rewriting_refused [of demo_go_env]
  by (simp add: rewriting_result platform_consts)

text \<open>A model that an account offers can be one that it refuses: the list of requestable models has every key of the
  mapping, while the gate refuses a key whose target is not on the whitelist.\<close>

theorem offered_model_refused:
  "\<exists>(a :: Account) m. m \<in> set (GetConfiguredRequestModels demo_go_env a) \<and> \<not> IsModelSupported demo_go_env a m"
proof (intro exI conjI)
  show "''gpt-best'' \<in> set (GetConfiguredRequestModels demo_go_env rewriting_account)"
    using rewriting_plain by (simp add: GetConfiguredRequestModels_def rewriting_mapping rewriting_whitelist platform_consts)
  have "ResolveMappedModel demo_go_env rewriting_account ''gpt-best'' = (''gpt-4'', True)"
    by (simp add: ResolveMappedModel_def rewriting_mapping resolveRequestedModelInMapping_def)
  then show "\<not> IsModelSupported demo_go_env rewriting_account ''gpt-best''"
    using rewriting_plain rewriting_refused [of demo_go_env]
    by (simp add: IsModelSupported_def rewriting_mapping isFinalModelWhitelisted_def platform_consts)
qed

end
