(* ===== verification/Qoder_Encoding.thy ===== *)
theory Qoder_Encoding
  imports Go_Prelude
begin

text \<open>
  The body encoding of the Qoder client (\<^verbatim>\<open>pkg/qoder/encoding.go\<close>): standard base64, the outer thirds of the text
  swapped, and every character replaced under a fixed permutation of the alphabet.  The decoder undoes the
  three steps; the padding, which the swap moves to the front or into the middle, is dropped before the text is
  decoded.  A byte string is a HOL string; \<^verbatim>\<open>base64.StdEncoding\<close> is modelled bit by bit below.
\<close>

section \<open>Base64\<close>

definition stdAlphabet :: string where
  "stdAlphabet = ''ABCDEFGHIJKLMNOPQRSTUVWXYZabcdefghijklmnopqrstuvwxyz0123456789+/''"

definition stdPad :: char where
  "stdPad = CHR ''=''"

definition sextet :: "nat \<Rightarrow> char" where
  "sextet n = stdAlphabet ! n"

definition sextet_value :: "char \<Rightarrow> nat option" where
  "sextet_value c = map_option fst (find (\<lambda>(i, d). d = c) (enumerate 0 stdAlphabet))"

fun base64_encode :: "string \<Rightarrow> string" where
  "base64_encode [] = []"
| "base64_encode [a] = [sextet (byte a div 4), sextet (byte a mod 4 * 16), stdPad, stdPad]"
| "base64_encode [a, b] =
     [sextet (byte a div 4), sextet (byte a mod 4 * 16 + byte b div 16), sextet (byte b mod 16 * 4), stdPad]"
| "base64_encode (a # b # c # s) =
     [sextet (byte a div 4), sextet (byte a mod 4 * 16 + byte b div 16), sextet (byte b mod 16 * 4 + byte c div 64),
      sextet (byte c mod 64)] @ base64_encode s"

text \<open>\<^verbatim>\<open>RawStdEncoding\<close> takes groups of four, then a rest of two or three characters whose unused low bits it ignores;
  a character outside the alphabet or a rest of one is an error.  (\<^verbatim>\<open>encoding/base64\<close> skips line breaks.)\<close>

fun sextets :: "string \<Rightarrow> nat list option" where
  "sextets [] = Some []"
| "sextets (c # s) =
     (if c = CHR 0x0A \<or> c = CHR 0x0D then sextets s
      else case (sextet_value c, sextets s) of (Some v, Some vs) \<Rightarrow> Some (v # vs) | _ \<Rightarrow> None)"

fun bytes_of_sextets :: "nat list \<Rightarrow> string option" where
  "bytes_of_sextets [] = Some []"
| "bytes_of_sextets [p] = None"
| "bytes_of_sextets [p, q] = Some [char_of (p * 4 + q div 16)]"
| "bytes_of_sextets [p, q, r] = Some [char_of (p * 4 + q div 16), char_of (q mod 16 * 16 + r div 4)]"
| "bytes_of_sextets (p # q # r # t # s) =
     map_option (\<lambda>bs. char_of (p * 4 + q div 16) # char_of (q mod 16 * 16 + r div 4) # char_of (r mod 4 * 64 + t) # bs)
       (bytes_of_sextets s)"

definition raw_base64_decode :: "string \<Rightarrow> string option" where
  "raw_base64_decode s = (case sextets s of None \<Rightarrow> None | Some vs \<Rightarrow> bytes_of_sextets vs)"

section \<open>The encoding\<close>

definition customAlphabet :: string where
  "customAlphabet = ''_doRTgHZBKcGVjlvpC,@aFSx#DPuNJme&i*MzLOEn)sUrthbf%Y^w.(kIQyXqWA!''"

definition customPad :: char where
  "customPad = CHR ''$''"

text \<open>The two tables, filled in the order of the initialisation: a byte of neither alphabet stands for itself.\<close>

definition toCustom :: "char \<Rightarrow> char" where
  "toCustom c =
     (if c = stdPad then customPad
      else case map_of (rev (zip stdAlphabet customAlphabet)) c of Some d \<Rightarrow> d | None \<Rightarrow> c)"

definition toStd :: "char \<Rightarrow> char" where
  "toStd c =
     (if c = customPad then stdPad
      else case map_of (rev (zip customAlphabet stdAlphabet)) c of Some d \<Rightarrow> d | None \<Rightarrow> c)"

definition translate :: "(char \<Rightarrow> char) \<Rightarrow> string \<Rightarrow> string" where
  "translate table s = map table s"

definition swap_thirds :: "string \<Rightarrow> string" where
  "swap_thirds s =
     (let n = length s; pivot = n div 3 in
      drop (n - pivot) s @ take (n - pivot - pivot) (drop pivot s) @ take pivot s)"

definition QoderEncode :: "string \<Rightarrow> string" where
  "QoderEncode plaintext = translate toCustom (swap_thirds (base64_encode plaintext))"

definition QoderDecode :: "string \<Rightarrow> string option" where
  "QoderDecode encoded = raw_base64_decode (filter (\<lambda>c. c \<noteq> stdPad) (swap_thirds (translate toStd encoded)))"

section \<open>Properties\<close>

lemma alphabets: "length stdAlphabet = 64" "length customAlphabet = 64" "distinct stdAlphabet" "distinct customAlphabet"
  "stdPad \<notin> set stdAlphabet" "customPad \<notin> set customAlphabet"
  by code_simp+

lemma tables_inverse: "\<forall>c \<in> insert stdPad (set stdAlphabet). toStd (toCustom c) = c"
  by code_simp

lemma sextet_values: "\<forall>n \<in> set [0..<64]. sextet_value (sextet n) = Some n \<and> sextet n \<noteq> CHR 0x0A \<and> sextet n \<noteq> CHR 0x0D \<and> sextet n \<noteq> stdPad"
  by code_simp

lemma swap_thirds_involution: "swap_thirds (swap_thirds s) = s"
proof -
  define n where "n = length s"
  define k where "k = n div 3"
  have k: "2 * k \<le> n" by (simp add: k_def)
  obtain x y z where s: "s = x @ y @ z" "length x = k" "length z = k"
  proof
    have "drop k s = take (n - k - k) (drop k s) @ drop (n - k - k) (drop k s)"
      by (simp only: append_take_drop_id)
    moreover have "drop (n - k - k) (drop k s) = drop (n - k) s" using k by simp
    ultimately show "s = take k s @ take (n - k - k) (drop k s) @ drop (n - k) s" by (metis append_take_drop_id)
  qed (use k n_def in auto)
  have len: "length s = n" by (simp add: n_def)
  have "swap_thirds s = z @ y @ x" using s k len by (auto simp: swap_thirds_def Let_def simp flip: k_def)
  moreover have "length (z @ y @ x) = n" using s len by simp
  ultimately show ?thesis using s k by (auto simp: swap_thirds_def Let_def simp flip: k_def)
qed

lemma sextet [simp]: "n < 64 \<Longrightarrow> sextet_value (sextet n) = Some n \<and> sextet n \<noteq> CHR 0x0A \<and> sextet n \<noteq> CHR 0x0D \<and> sextet n \<noteq> stdPad"
  using sextet_values by simp

lemma sextet_in: "n < 64 \<Longrightarrow> sextet n \<in> set stdAlphabet"
  by (simp add: sextet_def alphabets)

lemma byte_bounds: "byte a div 4 < 64" "byte a mod 4 * 16 + byte b div 16 < 64" "byte b mod 16 * 4 + byte c div 64 < 64"
  "byte c mod 64 < 64" "byte a mod 4 * 16 < 64" "byte b mod 16 * 4 < 64"
  using byte_less_256 [of a] byte_less_256 [of b] byte_less_256 [of c] by (auto simp del: byte_less_256)

lemma encode_chars: "set (base64_encode s) \<subseteq> insert stdPad (set stdAlphabet)"
  by (induction s rule: base64_encode.induct) (auto intro!: sextet_in byte_bounds)

lemma byte_parts:
  "byte b div 16 div 16 = 0" "byte c div 64 div 4 = 0" "byte b div 16 mod 16 = byte b div 16" "byte c div 64 mod 4 = byte c div 64"
  using byte_less_256 [of b] byte_less_256 [of c] by (auto simp del: byte_less_256)

lemma base64_roundtrip: "raw_base64_decode (filter (\<lambda>c. c \<noteq> stdPad) (base64_encode s)) = Some s"
proof (induction s rule: base64_encode.induct)
  case (4 a b c s)
  then obtain vs where vs: "sextets (filter (\<lambda>c. c \<noteq> stdPad) (base64_encode s)) = Some vs" "bytes_of_sextets vs = Some s"
    by (auto simp: raw_base64_decode_def split: option.splits)
  then show ?case by (simp add: raw_base64_decode_def byte_bounds byte_parts)
qed (simp_all add: raw_base64_decode_def byte_bounds byte_parts)

lemma translate_back: "set s \<subseteq> insert stdPad (set stdAlphabet) \<Longrightarrow> translate toStd (translate toCustom s) = s"
  using tables_inverse by (induction s) (auto simp: translate_def)

lemma set_swap_thirds: "set (swap_thirds s) \<subseteq> set s"
  by (auto simp: swap_thirds_def Let_def dest: in_set_takeD in_set_dropD)

text \<open>C31. Every byte string survives the encoding: decoding what was encoded gives it back, although the decoder
  only removes the padding that the swap has moved away from the end.\<close>

theorem qoder_encoding_roundtrip:
  "QoderDecode (QoderEncode plaintext) = Some plaintext"
proof -
  have "translate toStd (QoderEncode plaintext) = swap_thirds (base64_encode plaintext)"
    unfolding QoderEncode_def by (rule translate_back) (use set_swap_thirds encode_chars in blast)
  then show ?thesis by (simp add: QoderDecode_def swap_thirds_involution base64_roundtrip)
qed

end
