(* ===== verification/Group_Protocols.thy ===== *)
theory Group_Protocols
  imports Account_Platform
begin

text \<open>
  The client protocols a group allows: the sets per platform (\<^verbatim>\<open>domain/group_client_protocol.go\<close>,
  \<^verbatim>\<open>service/group_client_protocol.go\<close>) and the steps with which creating and updating a group computes them
  (\<^verbatim>\<open>service/admin_group.go\<close>).  A protocol is a string in the code, so unknown values are possible.  A group is
  reduced to its platform and its protocols.
\<close>

section \<open>Protocols\<close>

type_synonym GroupClientProtocol = string

definition GroupClientProtocolAnthropicMessages :: GroupClientProtocol where
  "GroupClientProtocolAnthropicMessages = ''anthropic_messages''"
definition GroupClientProtocolOpenAIResponses :: GroupClientProtocol where
  "GroupClientProtocolOpenAIResponses = ''openai_responses''"
definition GroupClientProtocolOpenAIChatCompletions :: GroupClientProtocol where
  "GroupClientProtocolOpenAIChatCompletions = ''openai_chat_completions''"
definition GroupClientProtocolGeminiGenerateContent :: GroupClientProtocol where
  "GroupClientProtocolGeminiGenerateContent = ''gemini_generate_content''"

lemmas protocol_consts = GroupClientProtocolAnthropicMessages_def GroupClientProtocolOpenAIResponses_def
  GroupClientProtocolOpenAIChatCompletions_def GroupClientProtocolGeminiGenerateContent_def

definition canonicalGroupClientProtocols :: "GroupClientProtocol list" where
  "canonicalGroupClientProtocols =
     [GroupClientProtocolAnthropicMessages, GroupClientProtocolOpenAIResponses,
      GroupClientProtocolOpenAIChatCompletions, GroupClientProtocolGeminiGenerateContent]"

definition SupportedGroupClientProtocols :: "string \<Rightarrow> GroupClientProtocol list" where
  "SupportedGroupClientProtocols platform =
     (if platform \<in> {PlatformAnthropic, PlatformOpenAI, PlatformQoder, PlatformGrok, PlatformKimi, PlatformZhipu, PlatformDeepseek}
      then [GroupClientProtocolAnthropicMessages, GroupClientProtocolOpenAIResponses, GroupClientProtocolOpenAIChatCompletions]
      else if platform \<in> {PlatformGemini, PlatformAntigravity} then canonicalGroupClientProtocols
      else [])"

definition DefaultGroupClientProtocols :: "string \<Rightarrow> GroupClientProtocol list" where
  "DefaultGroupClientProtocols platform =
     (if platform = PlatformAnthropic then [GroupClientProtocolAnthropicMessages]
      else if platform = PlatformOpenAI \<or> platform = PlatformGrok
      then [GroupClientProtocolOpenAIResponses, GroupClientProtocolOpenAIChatCompletions]
      else if platform = PlatformKimi \<or> platform = PlatformZhipu \<or> platform = PlatformDeepseek
      then [GroupClientProtocolAnthropicMessages, GroupClientProtocolOpenAIResponses, GroupClientProtocolOpenAIChatCompletions]
      else if platform = PlatformGemini then [GroupClientProtocolGeminiGenerateContent]
      else if platform = PlatformAntigravity
      then [GroupClientProtocolAnthropicMessages, GroupClientProtocolGeminiGenerateContent]
      else [])"

datatype protocol_error =
    UnknownProtocol nat GroupClientProtocol
  | UnsupportedProtocol GroupClientProtocol string
  | DuplicatedProtocol GroupClientProtocol

text \<open>The loop over the input: \<open>seen\<close> holds what came before.\<close>

fun check_protocols :: "string \<Rightarrow> nat \<Rightarrow> GroupClientProtocol list \<Rightarrow> GroupClientProtocol list \<Rightarrow>
    protocol_error + GroupClientProtocol list" where
  "check_protocols platform i seen [] = Inr seen"
| "check_protocols platform i seen (p # ps) =
     (if p \<notin> set canonicalGroupClientProtocols then Inl (UnknownProtocol i p)
      else if p \<notin> set (SupportedGroupClientProtocols platform) then Inl (UnsupportedProtocol p platform)
      else if p \<in> set seen then Inl (DuplicatedProtocol p)
      else check_protocols platform (i + 1) (p # seen) ps)"

definition in_canonical_order :: "GroupClientProtocol list \<Rightarrow> GroupClientProtocol list" where
  "in_canonical_order selected = filter (\<lambda>p. p \<in> set selected) canonicalGroupClientProtocols"

definition ValidateGroupClientProtocols :: "string \<Rightarrow> GroupClientProtocol list \<Rightarrow> protocol_error + GroupClientProtocol list" where
  "ValidateGroupClientProtocols platform protocols =
     (case check_protocols platform 0 [] protocols of Inl e \<Rightarrow> Inl e | Inr seen \<Rightarrow> Inr (in_canonical_order seen))"

definition HasGroupClientProtocol :: "GroupClientProtocol list \<Rightarrow> GroupClientProtocol \<Rightarrow> bool" where
  "HasGroupClientProtocol protocols target = list_ex (\<lambda>p. p = target) protocols"

definition SetGroupClientProtocol :: "GroupClientProtocol list \<Rightarrow> GroupClientProtocol \<Rightarrow> bool \<Rightarrow> GroupClientProtocol list" where
  "SetGroupClientProtocol protocols target enabled =
     in_canonical_order (if enabled then target # protocols else filter (\<lambda>p. p \<noteq> target) protocols)"

definition filterGroupClientProtocolsForPlatform :: "string \<Rightarrow> GroupClientProtocol list \<Rightarrow> GroupClientProtocol list" where
  "filterGroupClientProtocolsForPlatform platform protocols =
     filter (\<lambda>p. p \<in> set protocols) (SupportedGroupClientProtocols platform)"

section \<open>Groups\<close>

record protocol_group =
  GroupPlatform :: string
  AllowedClientProtocols :: "GroupClientProtocol list"

definition AllowsClientProtocol :: "protocol_group option \<Rightarrow> GroupClientProtocol \<Rightarrow> bool" where
  "AllowsClientProtocol g protocol =
     (case g of None \<Rightarrow> False | Some g \<Rightarrow> HasGroupClientProtocol (AllowedClientProtocols g) protocol)"

definition create_protocols :: "string \<Rightarrow> GroupClientProtocol list option \<Rightarrow> bool \<Rightarrow> protocol_error + protocol_group" where
  "create_protocols platform input allowMessagesDispatch =
     (case input of
        None \<Rightarrow>
          let protocols = DefaultGroupClientProtocols platform;
              protocols = (if platform = PlatformOpenAI
                then SetGroupClientProtocol protocols GroupClientProtocolAnthropicMessages allowMessagesDispatch else protocols)
          in Inr \<lparr>GroupPlatform = platform, AllowedClientProtocols = protocols\<rparr>
      | Some protocols \<Rightarrow>
          (case ValidateGroupClientProtocols platform protocols of
             Inl e \<Rightarrow> Inl e
           | Inr normalized \<Rightarrow> Inr \<lparr>GroupPlatform = platform, AllowedClientProtocols = normalized\<rparr>))"

definition update_protocols :: "string \<Rightarrow> GroupClientProtocol list option \<Rightarrow> bool option \<Rightarrow> protocol_group \<Rightarrow>
    protocol_error + protocol_group" where
  "update_protocols platform input allowMessagesDispatch g =
     (let previousPlatform = GroupPlatform g;
          current = (if platform \<noteq> [] then platform else previousPlatform);
          protocols =
            (case input of
               Some protocols \<Rightarrow> protocols
             | None \<Rightarrow>
                 let kept = (if platform \<noteq> [] \<and> current \<noteq> previousPlatform
                       then filterGroupClientProtocolsForPlatform current (AllowedClientProtocols g) else AllowedClientProtocols g)
                 in (case allowMessagesDispatch of
                       Some enabled \<Rightarrow> if current = PlatformOpenAI
                         then SetGroupClientProtocol kept GroupClientProtocolAnthropicMessages enabled else kept
                     | None \<Rightarrow> kept))
      in case ValidateGroupClientProtocols current protocols of
           Inl e \<Rightarrow> Inl e
         | Inr normalized \<Rightarrow> Inr (g\<lparr>GroupPlatform := current, AllowedClientProtocols := normalized\<rparr>))"

text \<open>The groups that creating and updating can lead to.\<close>

inductive group_reachable :: "protocol_group \<Rightarrow> bool" where
  created: "create_protocols platform input dispatch = Inr g \<Longrightarrow> group_reachable g"
| updated: "group_reachable g \<Longrightarrow> update_protocols platform input dispatch g = Inr g' \<Longrightarrow> group_reachable g'"

section \<open>Properties\<close>

lemma canonical_distinct: "distinct canonicalGroupClientProtocols"
  by (simp add: canonicalGroupClientProtocols_def protocol_consts)

lemma supported_canonical: "SupportedGroupClientProtocols platform = in_canonical_order (SupportedGroupClientProtocols platform)"
  by (simp add: SupportedGroupClientProtocols_def in_canonical_order_def canonicalGroupClientProtocols_def protocol_consts)

lemma set_in_canonical_order: "set (in_canonical_order ps) = set canonicalGroupClientProtocols \<inter> set ps"
  by (auto simp: in_canonical_order_def)

lemma supported_known: "set (SupportedGroupClientProtocols platform) \<subseteq> set canonicalGroupClientProtocols"
  by (subst supported_canonical) (simp add: set_in_canonical_order)

lemma check_ok:
  "check_protocols platform i seen ps = Inr seen' \<longleftrightarrow>
     set ps \<subseteq> set (SupportedGroupClientProtocols platform) \<and> distinct ps \<and> set ps \<inter> set seen = {} \<and> seen' = rev ps @ seen"
  using supported_known [of platform] by (induction ps arbitrary: i seen) auto

lemma validate_ok:
  "ValidateGroupClientProtocols platform ps = Inr qs \<longleftrightarrow>
     set ps \<subseteq> set (SupportedGroupClientProtocols platform) \<and> distinct ps \<and> qs = in_canonical_order ps"
proof (cases "check_protocols platform 0 [] ps")
  case (Inl e)
  then show ?thesis using check_ok [of platform 0 "[]" ps "rev ps"] by (auto simp: ValidateGroupClientProtocols_def)
next
  case (Inr seen)
  then show ?thesis using check_ok [of platform 0 "[]" ps seen] by (auto simp: ValidateGroupClientProtocols_def in_canonical_order_def)
qed

lemma Has_iff: "HasGroupClientProtocol ps p \<longleftrightarrow> p \<in> set ps"
  by (auto simp: HasGroupClientProtocol_def list_ex_iff)

lemma Allows_iff: "AllowsClientProtocol (Some g) p \<longleftrightarrow> p \<in> set (AllowedClientProtocols g)"
  by (simp add: AllowsClientProtocol_def Has_iff)

text \<open>Protocols in the fixed order, none twice, all supported by the platform.\<close>

definition well_formed_protocols :: "string \<Rightarrow> GroupClientProtocol list \<Rightarrow> bool" where
  "well_formed_protocols platform ps \<longleftrightarrow>
     set ps \<subseteq> set (SupportedGroupClientProtocols platform) \<and> distinct ps \<and> ps = in_canonical_order ps"

lemma in_canonical_order_idem: "in_canonical_order (in_canonical_order ps) = in_canonical_order ps"
  by (auto simp: in_canonical_order_def intro: filter_cong)

lemma well_formed_in_order:
  "set (in_canonical_order ps) \<subseteq> set (SupportedGroupClientProtocols platform) \<Longrightarrow> well_formed_protocols platform (in_canonical_order ps)"
  unfolding well_formed_protocols_def in_canonical_order_idem by (simp add: in_canonical_order_def canonical_distinct)

lemma well_formed_valid: "well_formed_protocols platform ps \<Longrightarrow> ValidateGroupClientProtocols platform ps = Inr ps"
  unfolding validate_ok by (simp add: well_formed_protocols_def)

lemma valid_well_formed: "ValidateGroupClientProtocols platform ps = Inr qs \<Longrightarrow> well_formed_protocols platform qs"
  unfolding validate_ok by (metis well_formed_in_order set_in_canonical_order inf_le2 order_trans)

lemma anthropic_supported: "GroupClientProtocolAnthropicMessages \<in> set (SupportedGroupClientProtocols PlatformOpenAI)"
  by (simp add: SupportedGroupClientProtocols_def platform_consts)

lemma set_well_formed:
  assumes "set ps \<subseteq> set (SupportedGroupClientProtocols PlatformOpenAI)"
  shows "well_formed_protocols PlatformOpenAI (SetGroupClientProtocol ps GroupClientProtocolAnthropicMessages enabled)"
  unfolding SetGroupClientProtocol_def using assms anthropic_supported
  by (intro well_formed_in_order) (auto simp: set_in_canonical_order)

lemma filter_well_formed: "well_formed_protocols platform (filterGroupClientProtocolsForPlatform platform ps)"
proof -
  have "filterGroupClientProtocolsForPlatform platform ps = in_canonical_order (filterGroupClientProtocolsForPlatform platform ps)"
    using supported_known [of platform] unfolding filterGroupClientProtocolsForPlatform_def
    by (subst supported_canonical) (auto simp: in_canonical_order_def intro!: filter_cong)
  then show ?thesis
    by (metis well_formed_in_order filter_is_subset filterGroupClientProtocolsForPlatform_def)
qed

lemma default_well_formed: "well_formed_protocols platform (DefaultGroupClientProtocols platform)"
  unfolding well_formed_protocols_def
  by (simp add: DefaultGroupClientProtocols_def SupportedGroupClientProtocols_def in_canonical_order_def
      canonicalGroupClientProtocols_def protocol_consts platform_consts)

lemma create_well_formed:
  assumes "create_protocols platform input dispatch = Inr g"
  shows "well_formed_protocols (GroupPlatform g) (AllowedClientProtocols g)"
  using assms default_well_formed [of platform] set_well_formed [of "DefaultGroupClientProtocols PlatformOpenAI" dispatch]
    default_well_formed [of PlatformOpenAI]
  by (auto simp: create_protocols_def Let_def well_formed_protocols_def [of PlatformOpenAI "DefaultGroupClientProtocols PlatformOpenAI"]
      dest: valid_well_formed split: option.splits sum.splits if_splits)

lemma update_well_formed:
  assumes "update_protocols platform input dispatch g = Inr g'"
  shows "well_formed_protocols (GroupPlatform g') (AllowedClientProtocols g')"
  using assms by (auto simp: update_protocols_def Let_def dest!: valid_well_formed split: sum.splits)

lemma reachable_well_formed: "group_reachable g \<Longrightarrow> well_formed_protocols (GroupPlatform g) (AllowedClientProtocols g)"
  by (induction rule: group_reachable.induct) (auto dest: create_well_formed update_well_formed)

text \<open>However a group is created and updated, the protocols it allows are all supported by its platform, none
  occurs twice, and they stand in the fixed order of the public contract.\<close>

theorem group_protocols_invariant:
  assumes "group_reachable g"
  shows "set (AllowedClientProtocols g) \<subseteq> set (SupportedGroupClientProtocols (GroupPlatform g)) \<and>
    distinct (AllowedClientProtocols g) \<and> subseq (AllowedClientProtocols g) canonicalGroupClientProtocols"
  using reachable_well_formed [OF assms]
  by (metis well_formed_protocols_def in_canonical_order_def subseq_filter_left)

lemma update_without_protocols:
  assumes "well_formed_protocols (GroupPlatform g) (AllowedClientProtocols g)"
  shows "\<exists>g'. update_protocols platform None dispatch g = Inr g' \<and>
    GroupPlatform g' = (if platform \<noteq> [] then platform else GroupPlatform g) \<and>
    (\<forall>p. AllowsClientProtocol (Some g') p \<longleftrightarrow>
       (if GroupPlatform g' = PlatformOpenAI \<and> dispatch \<noteq> None \<and> p = GroupClientProtocolAnthropicMessages then the dispatch
        else AllowsClientProtocol (Some g) p \<and> p \<in> set (SupportedGroupClientProtocols (GroupPlatform g'))))"
proof -
  define current where "current = (if platform \<noteq> [] then platform else GroupPlatform g)"
  define kept where "kept = (if platform \<noteq> [] \<and> current \<noteq> GroupPlatform g
    then filterGroupClientProtocolsForPlatform current (AllowedClientProtocols g) else AllowedClientProtocols g)"
  have kept: "well_formed_protocols current kept"
    using assms filter_well_formed by (auto simp: kept_def current_def)
  have set_kept: "p \<in> set kept \<longleftrightarrow> p \<in> set (AllowedClientProtocols g) \<and> p \<in> set (SupportedGroupClientProtocols current)" for p
    using assms by (auto simp: kept_def current_def well_formed_protocols_def filterGroupClientProtocolsForPlatform_def split: if_splits)
  define ps where "ps = (case dispatch of
      Some enabled \<Rightarrow> if current = PlatformOpenAI
        then SetGroupClientProtocol kept GroupClientProtocolAnthropicMessages enabled else kept
    | None \<Rightarrow> kept)"
  have "well_formed_protocols current ps"
    using kept set_well_formed [of kept] by (auto simp: ps_def well_formed_protocols_def [of _ kept] split: option.splits)
  then have v: "ValidateGroupClientProtocols current ps = Inr ps" by (rule well_formed_valid)
  have "update_protocols platform None dispatch g = Inr (g\<lparr>GroupPlatform := current, AllowedClientProtocols := ps\<rparr>)"
    unfolding update_protocols_def Let_def option.case(1) current_def [symmetric] kept_def [symmetric] ps_def [symmetric] v
    by simp
  moreover have "p \<in> set ps \<longleftrightarrow> (if current = PlatformOpenAI \<and> dispatch \<noteq> None \<and> p = GroupClientProtocolAnthropicMessages
      then the dispatch else p \<in> set kept)" for p
  proof -
    have known: "set kept \<subseteq> set canonicalGroupClientProtocols" using kept supported_known unfolding well_formed_protocols_def by blast
    have anthropic: "GroupClientProtocolAnthropicMessages \<in> set canonicalGroupClientProtocols"
      by (simp add: canonicalGroupClientProtocols_def)
    show ?thesis using known anthropic
      by (auto simp: ps_def SetGroupClientProtocol_def set_in_canonical_order split: option.splits)
  qed
  ultimately show ?thesis by (auto simp: Allows_iff set_kept simp flip: current_def)
qed

text \<open>Updating a group without naming its protocols never fails and changes nothing it should not: the group moves to the
  new platform, keeps exactly the protocols that platform supports, and the compatibility switch of OpenAI
  groups decides only about the Anthropic protocol.\<close>

theorem group_update_keeps_protocols:
  assumes "group_reachable g"
  shows "\<exists>g'. update_protocols platform None dispatch g = Inr g' \<and>
    GroupPlatform g' = (if platform \<noteq> [] then platform else GroupPlatform g) \<and>
    (\<forall>p. AllowsClientProtocol (Some g') p \<longleftrightarrow>
       (if GroupPlatform g' = PlatformOpenAI \<and> dispatch \<noteq> None \<and> p = GroupClientProtocolAnthropicMessages then the dispatch
        else AllowsClientProtocol (Some g) p \<and> p \<in> set (SupportedGroupClientProtocols (GroupPlatform g'))))"
  using update_without_protocols [OF reachable_well_formed [OF assms]] .

theorem group_protocols_invariant_witness:
  "set (DefaultGroupClientProtocols PlatformGemini) \<subseteq> set (SupportedGroupClientProtocols PlatformGemini)"
proof -
  have "group_reachable \<lparr>GroupPlatform = PlatformGemini, AllowedClientProtocols = DefaultGroupClientProtocols PlatformGemini\<rparr>"
    by (rule created [of PlatformGemini None False]) (simp add: create_protocols_def platform_consts)
  from group_protocols_invariant [OF this] show ?thesis by simp
qed

theorem group_update_keeps_protocols_witness:
  "\<exists>g g'. GroupPlatform g = PlatformGemini \<and> update_protocols PlatformOpenAI None (Some True) g = Inr g' \<and>
     AllowsClientProtocol (Some g') GroupClientProtocolAnthropicMessages \<and>
     \<not> AllowsClientProtocol (Some g') GroupClientProtocolGeminiGenerateContent"
proof -
  let ?g = "\<lparr>GroupPlatform = PlatformGemini, AllowedClientProtocols = DefaultGroupClientProtocols PlatformGemini\<rparr>"
  have "group_reachable ?g"
    by (rule created [of PlatformGemini None False]) (simp add: create_protocols_def platform_consts)
  from group_update_keeps_protocols [OF this, of PlatformOpenAI "Some True"]
  obtain g' where u: "update_protocols PlatformOpenAI None (Some True) ?g = Inr g'" and p: "GroupPlatform g' = PlatformOpenAI"
    and a: "\<forall>p. AllowsClientProtocol (Some g') p \<longleftrightarrow>
       (if GroupPlatform g' = PlatformOpenAI \<and> Some True \<noteq> None \<and> p = GroupClientProtocolAnthropicMessages then the (Some True)
        else AllowsClientProtocol (Some ?g) p \<and> p \<in> set (SupportedGroupClientProtocols (GroupPlatform g')))"
    by (auto simp: platform_consts)
  have "AllowsClientProtocol (Some g') GroupClientProtocolAnthropicMessages" using a p by simp
  moreover have "\<not> AllowsClientProtocol (Some g') GroupClientProtocolGeminiGenerateContent"
    unfolding a [rule_format] p by (simp add: SupportedGroupClientProtocols_def protocol_consts platform_consts)
  ultimately show ?thesis using u by (intro exI [of _ ?g] exI [of _ g']) simp
qed

end
