(* ===== verification/Pagination.thy ===== *)
theory Pagination
  imports Json_Value "HOL-Library.Signed_Division"
begin

text \<open>
  Pages of a list: the parameters (\<^verbatim>\<open>pkg/pagination/pagination.go\<close>), reading them from a query string
  (\<^verbatim>\<open>pkg/response/response.go\<close>), and cutting a page out of a list that is in memory
  (\<^verbatim>\<open>repository/pagination.go\<close>).  \<^verbatim>\<open>int\<close> has 64 bits and wraps around; a slice expression with bounds outside
  the list panics, which is \<open>None\<close>.
\<close>

definition SortOrderAsc :: string where "SortOrderAsc = ''asc''"
definition SortOrderDesc :: string where "SortOrderDesc = ''desc''"

record PaginationParams =
  Page :: int
  PageSize :: int
  SortBy :: string
  SortOrder :: string

record PaginationResult =
  ResultTotal :: int
  ResultPage :: int
  ResultPageSize :: int
  Pages :: int

definition DefaultPagination :: PaginationParams where
  "DefaultPagination = \<lparr>Page = 1, PageSize = 20, SortBy = [], SortOrder = SortOrderDesc\<rparr>"

definition Limit :: "PaginationParams \<Rightarrow> int" where
  "Limit p = (if PageSize p < 1 then 20 else if 1000 < PageSize p then 1000 else PageSize p)"

definition Offset :: "PaginationParams \<Rightarrow> int" where
  "Offset p = (let page = (if Page p < 1 then 1 else Page p) in wrap64 ((page - 1) * Limit p))"

definition NormalizeSortOrder :: "'z go_env_scheme \<Rightarrow> string \<Rightarrow> string \<Rightarrow> string" where
  "NormalizeSortOrder env order defaultOrder =
     (let defaultOrder = (if to_lower env (TrimSpace defaultOrder) = SortOrderAsc then SortOrderAsc else SortOrderDesc);
          wanted = to_lower env (TrimSpace order)
      in if wanted = SortOrderAsc then SortOrderAsc else if wanted = SortOrderDesc then SortOrderDesc else defaultOrder)"

definition NormalizedSortOrder :: "'z go_env_scheme \<Rightarrow> PaginationParams \<Rightarrow> string \<Rightarrow> string" where
  "NormalizedSortOrder env p defaultOrder = NormalizeSortOrder env (SortOrder p) defaultOrder"

text \<open>A total has 64 bits; the division truncates.\<close>

definition paginationResultFromTotal :: "int \<Rightarrow> PaginationParams \<Rightarrow> PaginationResult" where
  "paginationResultFromTotal n p =
     (let pages = n sdiv Limit p;
          pages = (if 0 < n smod Limit p then pages + 1 else pages)
      in \<lparr>ResultTotal = n, ResultPage = Page p, ResultPageSize = Limit p, Pages = pages\<rparr>)"

definition slice :: "'a list \<Rightarrow> int \<Rightarrow> int \<Rightarrow> 'a list option" where
  "slice items i j =
     (if 0 \<le> i \<and> i \<le> j \<and> j \<le> int (length items) then Some (take (nat (j - i)) (drop (nat i) items)) else None)"

definition paginateSlice :: "'a list \<Rightarrow> PaginationParams \<Rightarrow> 'a list option" where
  "paginateSlice items p =
     (if items = [] then Some []
      else
        let offset = Offset p in
        if int (length items) \<le> offset then Some []
        else
          let upto = wrap64 (offset + Limit p);
              upto = (if int (length items) < upto then int (length items) else upto)
          in slice items offset upto)"

text \<open>Reading the query: digits only, a string with another character reads as 0, and a long number wraps around.\<close>

fun parse_digits :: "int \<Rightarrow> string \<Rightarrow> int" where
  "parse_digits acc [] = acc"
| "parse_digits acc (c # s) =
     (if byte c < 48 \<or> 57 < byte c then 0 else parse_digits (wrap64 (wrap64 (acc * 10) + (int (byte c) - 48))) s)"

definition parseInt :: "string \<Rightarrow> int" where
  "parseInt s = parse_digits 0 s"

definition page_size_of :: "string \<Rightarrow> int" where
  "page_size_of s = (if 0 < parseInt s \<and> parseInt s \<le> 1000 then parseInt s else 20)"

definition ParsePagination :: "string \<Rightarrow> string \<Rightarrow> string \<Rightarrow> int \<times> int" where
  "ParsePagination qpage qpageSize qlimit =
     (if qpage \<noteq> [] \<and> 0 < parseInt qpage then parseInt qpage else 1,
      if qpageSize \<noteq> [] then page_size_of qpageSize else if qlimit \<noteq> [] then page_size_of qlimit else 20)"

section \<open>Properties\<close>

lemma Limit_bounds: "1 \<le> Limit p" "Limit p \<le> 1000"
  by (simp_all add: Limit_def)

lemma Limit_page [simp]: "Limit (p\<lparr>Page := n\<rparr>) = Limit p"
  by (simp add: Limit_def)

lemma page_cut:
  assumes "int (length items) < 2 ^ 62" "Page p = int k + 1" "k * nat (Limit p) < length items"
  shows "paginateSlice items p = Some (take (nat (Limit p)) (drop (k * nat (Limit p)) items))"
proof -
  define l where "l = nat (Limit p)"
  have l: "Limit p = int l" "1 \<le> l" "l \<le> 1000" using Limit_bounds [of p] by (auto simp: l_def)
  have k: "k * l < length items" using assms(3) by (simp add: l_def)
  have small: "int (length items) < 2 ^ 62" by (rule assms(1))
  have range: "in_int64 (int (k * l))" "in_int64 (int (k * l + l))"
    using k small l by (auto simp: in_int64_def min_int64_def max_int64_def simp del: of_nat_mult)
  have off: "Offset p = int (k * l)"
    using wrap64_id [OF range(1)] assms(2) l by (simp add: Offset_def Let_def)
  have ne: "items \<noteq> []" using assms(3) by auto
  have upto: "wrap64 (int (k * l) + Limit p) = int (k * l + l)" using wrap64_id [OF range(2)] l by simp
  show ?thesis
  proof (cases "k * l + l \<le> length items")
    case True
    have d: "nat (int (k * l + l) - int (k * l)) = l" by simp
    from True show ?thesis unfolding paginateSlice_def Let_def off upto l_def [symmetric] slice_def using ne k
      by (auto simp: d simp del: of_nat_mult of_nat_add)
  next
    case False
    then have "take l (drop (k * l) items) = take (length items - k * l) (drop (k * l) items)" by simp
    with False show ?thesis unfolding paginateSlice_def Let_def off upto l_def [symmetric] slice_def using ne k
      by (auto simp del: of_nat_mult of_nat_add)
  qed
qed

lemma concat_chunks:
  "concat (map (\<lambda>k. take l (drop (k * l) xs)) [0..<n]) = take (n * l) xs"
proof (induction n)
  case (Suc n)
  then show ?case by (simp add: take_add [symmetric] add.commute)
qed simp

lemma result_pages:
  assumes "n = int (length items)"
  shows "Pages (paginationResultFromTotal n p) = (n + Limit p - 1) div Limit p"
proof -
  obtain l where l: "Limit p = int l" "0 < l" using Limit_bounds [of p] by (metis zero_less_imp_eq_int int_one_le_iff_zero_less of_nat_0_less_iff)
  have "n sdiv Limit p = n div Limit p" "n smod Limit p = n mod Limit p"
    using assms l by (simp_all add: signed_divide_int_def signed_modulo_int_def sgn_if)
  then have "Pages (paginationResultFromTotal n p) = (if 0 < n mod int l then n div int l + 1 else n div int l)"
    using l by (simp add: paginationResultFromTotal_def Let_def)
  moreover have "(n + int l - 1) div int l = (if 0 < n mod int l then n div int l + 1 else n div int l)"
  proof -
    define q r where "q = n div int l" and "r = n mod int l"
    have n: "n = q * int l + r" "0 \<le> r" "r < int l" using l by (auto simp: q_def r_def)
    have "(n + int l - 1) div int l = (r - 1 + (q + 1) * int l) div int l" using n(1) by (simp add: algebra_simps)
    also have "\<dots> = (r - 1) div int l + (q + 1)" using l(2) by (subst div_mult_self1) auto
    also have "(r - 1) div int l = (if 0 < r then 0 else - 1)"
      using n l(2) by (cases "r = 0") (auto simp: div_eq_minus1)
    finally show ?thesis by (simp add: q_def r_def)
  qed
  ultimately show ?thesis using l by simp
qed

text \<open>The pages of a list are the list: cutting page after page, as many as the result announces, and joining them
  gives every item once and in order, and each page is full except the last.\<close>

theorem pagination_pages:
  fixes items :: "'a list" and p :: PaginationParams
  assumes "int (length items) < 2 ^ 62"
  defines "pages \<equiv> nat (Pages (paginationResultFromTotal (int (length items)) p))"
  shows "\<exists>parts. map (\<lambda>k. paginateSlice items (p\<lparr>Page := int k + 1\<rparr>)) [0..<pages] = map Some parts \<and> concat parts = items \<and>
    (\<forall>k < pages. length (parts ! k) = min (nat (Limit p)) (length items - k * nat (Limit p)) \<and> parts ! k \<noteq> [])"
proof -
  define l where "l = nat (Limit p)"
  have l: "Limit p = int l" "1 \<le> l" using Limit_bounds [of p] by (auto simp: l_def)
  have pages: "pages = (length items + l - 1) div l"
  proof -
    have "int (length items) + int l - 1 = int (length items + l - 1)" using l(2) by simp
    then show ?thesis
      unfolding pages_def result_pages [OF refl] l(1) by (simp only: nat_int zdiv_int [symmetric])
  qed
  have before: "k * l < length items" if "k < pages" for k
  proof -
    have ne: "items \<noteq> []" using that l(2) by (auto simp: pages)
    then have shift: "length items + l - 1 = (length items - 1) + l" by (cases items) simp_all
    have "(length items + l - 1) div l = (length items - 1) div l + 1"
      unfolding shift using l(2) by (subst div_add_self2) simp_all
    then have "k \<le> (length items - 1) div l" using that by (simp add: pages)
    then have "k * l \<le> length items - 1"
      using mult_le_mono1 [of k "(length items - 1) div l" l] div_times_less_eq_dividend [of "length items - 1" l] by linarith
    then show ?thesis using ne by (cases items) auto
  qed
  define parts where "parts = map (\<lambda>k. take l (drop (k * l) items)) [0..<pages]"
  have "map (\<lambda>k. paginateSlice items (p\<lparr>Page := int k + 1\<rparr>)) [0..<pages] = map Some parts"
    using page_cut [of items "p\<lparr>Page := int k + 1\<rparr>" k for k] before assms(1) by (simp add: parts_def l_def)
  moreover have "length items \<le> pages * l"
  proof -
    define m where "m = length items + l - 1"
    have "m mod l < l" using l(2) by simp
    then have "m < m div l * l + l" using div_mult_mod_eq [of m l] by linarith
    then show ?thesis using l(2) unfolding pages m_def by linarith
  qed
  then have "concat parts = items" by (simp add: parts_def concat_chunks)
  moreover have "\<forall>k < pages. length (parts ! k) = min (nat (Limit p)) (length items - k * nat (Limit p)) \<and> parts ! k \<noteq> []"
    unfolding parts_def l_def [symmetric] using l(2) by (auto dest: before)
  ultimately show ?thesis by blast
qed

theorem pagination_pages_witness:
  "\<exists>parts. map (\<lambda>k. paginateSlice ''abcde'' (DefaultPagination\<lparr>PageSize := 2, Page := int k + 1\<rparr>)) [0..<3] = map Some parts \<and>
     concat parts = ''abcde''"
  using pagination_pages [of "''abcde''" "DefaultPagination\<lparr>PageSize := 2\<rparr>"] result_pages [of 5 "''abcde''" "DefaultPagination\<lparr>PageSize := 2\<rparr>"]
  by (auto simp: Limit_def)

text \<open>The offset is computed with wrap-around and not checked: for the largest page number, which a query string can
  carry, it is negative, so cutting the page panics instead of giving an empty page.\<close>

theorem pagination_overflow:
  "ParsePagination ''9223372036854775807'' ''1000'' [] = (9223372036854775807, 1000) \<and>
   Offset (DefaultPagination\<lparr>Page := 9223372036854775807, PageSize := 1000\<rparr>) = - 2000 \<and>
   paginateSlice (x # items) (DefaultPagination\<lparr>Page := 9223372036854775807, PageSize := 1000\<rparr>) = None"
proof (intro conjI)
  show "ParsePagination ''9223372036854775807'' ''1000'' [] = (9223372036854775807, 1000)"
    by (simp add: ParsePagination_def page_size_of_def parseInt_def wrap64_def)
  show off: "Offset (DefaultPagination\<lparr>Page := 9223372036854775807, PageSize := 1000\<rparr>) = - 2000"
    by (simp add: Offset_def Limit_def wrap64_def)
  show "paginateSlice (x # items) (DefaultPagination\<lparr>Page := 9223372036854775807, PageSize := 1000\<rparr>) = None"
    unfolding paginateSlice_def Let_def off by (simp add: slice_def)
qed

end
