(* ===== verification/Announcements.thy ===== *)
theory Announcements
  imports Pagination "HOL-Library.Product_Lexorder"
begin

text \<open>
  Announcements: the domain type with its targeting rules (\<^verbatim>\<open>domain/announcement.go\<close>), the service
  (\<^verbatim>\<open>service/announcement_service.go\<close>), the archiving sweep (\<^verbatim>\<open>service/announcement_expiry_service.go\<close>) and the two
  repositories (\<^verbatim>\<open>repository/announcement_repo.go\<close>, \<^verbatim>\<open>repository/announcement_read_repo.go\<close>) as functions on the
  tables they write.

  Users and their active plans come from other components and are an argument; \<open>now\<close> is the clock reading of the
  call.  Driver errors are left out.  All errors of the targeting rules are one value in the code.
\<close>

section \<open>Targeting\<close>

definition AnnouncementStatusDraft :: string where "AnnouncementStatusDraft = ''draft''"
definition AnnouncementStatusActive :: string where "AnnouncementStatusActive = ''active''"
definition AnnouncementStatusArchived :: string where "AnnouncementStatusArchived = ''archived''"
definition AnnouncementNotifyModeSilent :: string where "AnnouncementNotifyModeSilent = ''silent''"
definition AnnouncementNotifyModePopup :: string where "AnnouncementNotifyModePopup = ''popup''"
definition AnnouncementConditionTypeSubscription :: string where "AnnouncementConditionTypeSubscription = ''subscription''"
definition AnnouncementConditionTypeBalance :: string where "AnnouncementConditionTypeBalance = ''balance''"
definition AnnouncementOperatorIn :: string where "AnnouncementOperatorIn = ''in''"
definition AnnouncementOperatorGT :: string where "AnnouncementOperatorGT = ''gt''"
definition AnnouncementOperatorGTE :: string where "AnnouncementOperatorGTE = ''gte''"
definition AnnouncementOperatorLT :: string where "AnnouncementOperatorLT = ''lt''"
definition AnnouncementOperatorLTE :: string where "AnnouncementOperatorLTE = ''lte''"
definition AnnouncementOperatorEQ :: string where "AnnouncementOperatorEQ = ''eq''"

lemmas ann_consts = AnnouncementStatusDraft_def AnnouncementStatusActive_def AnnouncementStatusArchived_def
  AnnouncementNotifyModeSilent_def AnnouncementNotifyModePopup_def AnnouncementConditionTypeSubscription_def
  AnnouncementConditionTypeBalance_def AnnouncementOperatorIn_def AnnouncementOperatorGT_def AnnouncementOperatorGTE_def
  AnnouncementOperatorLT_def AnnouncementOperatorLTE_def AnnouncementOperatorEQ_def

record AnnouncementCondition =
  CondType :: string
  CondOperator :: string
  PlanIDs :: "int64 list"
  CondValue :: float64

record AnnouncementConditionGroup =
  AllOf :: "AnnouncementCondition list"

record AnnouncementTargeting =
  AnyOf :: "AnnouncementConditionGroup list"

definition feq :: "float64 \<Rightarrow> float64 \<Rightarrow> bool" where
  "feq a b \<longleftrightarrow> a = b \<and> a \<noteq> NaN"

definition condition_matches :: "float64 \<Rightarrow> int64 list \<Rightarrow> AnnouncementCondition \<Rightarrow> bool" where
  "condition_matches balance activePlanIDs c =
     (if CondType c = AnnouncementConditionTypeSubscription then
        (if CondOperator c \<noteq> AnnouncementOperatorIn then False
         else if PlanIDs c = [] then False
         else if activePlanIDs = [] then False
         else list_ex (\<lambda>planID. planID \<in> set activePlanIDs) (PlanIDs c))
      else if CondType c = AnnouncementConditionTypeBalance then
        (if CondOperator c = AnnouncementOperatorGT then flt (CondValue c) balance
         else if CondOperator c = AnnouncementOperatorGTE then fle (CondValue c) balance
         else if CondOperator c = AnnouncementOperatorLT then flt balance (CondValue c)
         else if CondOperator c = AnnouncementOperatorLTE then fle balance (CondValue c)
         else if CondOperator c = AnnouncementOperatorEQ then feq balance (CondValue c)
         else False)
      else False)"

definition targeting_matches :: "float64 \<Rightarrow> int64 list \<Rightarrow> AnnouncementTargeting \<Rightarrow> bool" where
  "targeting_matches balance activePlanIDs t =
     (if AnyOf t = [] then True
      else list_ex (\<lambda>g. AllOf g \<noteq> [] \<and> list_all (condition_matches balance activePlanIDs) (AllOf g)) (AnyOf t))"

definition validate_condition :: "AnnouncementCondition \<Rightarrow> bool" where
  "validate_condition c =
     (if CondType c = AnnouncementConditionTypeSubscription then CondOperator c = AnnouncementOperatorIn \<and> PlanIDs c \<noteq> []
      else if CondType c = AnnouncementConditionTypeBalance then
        CondOperator c \<in> {AnnouncementOperatorGT, AnnouncementOperatorGTE, AnnouncementOperatorLT, AnnouncementOperatorLTE,
          AnnouncementOperatorEQ}
      else False)"

definition normalize_condition :: "AnnouncementCondition \<Rightarrow> AnnouncementCondition option" where
  "normalize_condition c =
     (let cond = \<lparr>CondType = TrimSpace (CondType c), CondOperator = TrimSpace (CondOperator c), PlanIDs = PlanIDs c,
        CondValue = CondValue c\<rparr> in
      if list_ex (\<lambda>planID. planID \<le> 0) (PlanIDs c) then None
      else if validate_condition cond then Some cond else None)"

definition normalize_group :: "AnnouncementConditionGroup \<Rightarrow> AnnouncementConditionGroup option" where
  "normalize_group g =
     (if AllOf g = [] then None
      else if 50 < length (AllOf g) then None
      else map_option (\<lambda>cs. \<lparr>AllOf = cs\<rparr>) (those (map normalize_condition (AllOf g))))"

definition NormalizeAndValidate :: "AnnouncementTargeting \<Rightarrow> AnnouncementTargeting option" where
  "NormalizeAndValidate t =
     (if AnyOf t = [] then Some \<lparr>AnyOf = []\<rparr>
      else if 50 < length (AnyOf t) then None
      else map_option (\<lambda>gs. \<lparr>AnyOf = gs\<rparr>) (those (map normalize_group (AnyOf t))))"

section \<open>Announcements and their tables\<close>

record Announcement =
  AnnID :: int64
  Title :: string
  Content :: string
  AnnStatus :: string
  NotifyMode :: string
  Targeting :: AnnouncementTargeting
  StartsAt :: "gtime option"
  EndsAt :: "gtime option"
  CreatedBy :: "int64 option"
  UpdatedBy :: "int64 option"
  AnnCreatedAt :: gtime
  AnnUpdatedAt :: gtime

definition IsActiveAt :: "gtime \<Rightarrow> Announcement \<Rightarrow> bool" where
  "IsActiveAt now a =
     (if AnnStatus a \<noteq> AnnouncementStatusActive then False
      else if (case StartsAt a of Some t \<Rightarrow> now < t | None \<Rightarrow> False) then False
      else if (case EndsAt a of Some t \<Rightarrow> \<not> now < t | None \<Rightarrow> False) then False
      else True)"

text \<open>The tables: \<^verbatim>\<open>announcements\<close> with its sequence, and \<^verbatim>\<open>announcement_reads\<close> with one row per announcement and user,
  deleted with the announcement.\<close>

record ann_db =
  ann_rows :: "Announcement list"
  ann_sequence :: int64
  read_rows :: "((int64 \<times> int64) \<times> gtime) list"

definition ann_Create :: "gtime \<Rightarrow> Announcement \<Rightarrow> ann_db \<Rightarrow> Announcement \<times> ann_db" where
  "ann_Create now a db =
     (let a = a\<lparr>AnnID := ann_sequence db, AnnCreatedAt := now, AnnUpdatedAt := now\<rparr> in
      (a, db\<lparr>ann_rows := ann_rows db @ [a], ann_sequence := ann_sequence db + 1\<rparr>))"

definition ann_GetByID :: "int64 \<Rightarrow> ann_db \<Rightarrow> Announcement option" where
  "ann_GetByID i db = find (\<lambda>a. AnnID a = i) (ann_rows db)"

definition ann_Update :: "gtime \<Rightarrow> Announcement \<Rightarrow> ann_db \<Rightarrow> Announcement \<times> ann_db" where
  "ann_Update now a db =
     (let a = a\<lparr>AnnUpdatedAt := now\<rparr> in
      (a, db\<lparr>ann_rows := map (\<lambda>b. if AnnID b = AnnID a then a else b) (ann_rows db)\<rparr>))"

definition ann_Delete :: "int64 \<Rightarrow> ann_db \<Rightarrow> ann_db" where
  "ann_Delete i db =
     db\<lparr>ann_rows := filter (\<lambda>a. AnnID a \<noteq> i) (ann_rows db), read_rows := filter (\<lambda>r. fst (fst r) \<noteq> i) (read_rows db)\<rparr>"

definition expired :: "gtime \<Rightarrow> Announcement \<Rightarrow> bool" where
  "expired now a \<longleftrightarrow> AnnStatus a = AnnouncementStatusActive \<and> (case EndsAt a of Some t \<Rightarrow> t \<le> now | None \<Rightarrow> False)"

definition ann_ArchiveExpired :: "gtime \<Rightarrow> ann_db \<Rightarrow> ann_db" where
  "ann_ArchiveExpired now db =
     db\<lparr>ann_rows := map (\<lambda>a. if expired now a then a\<lparr>AnnStatus := AnnouncementStatusArchived, AnnUpdatedAt := now\<rparr> else a) (ann_rows db)\<rparr>"

definition ann_ListActive :: "gtime \<Rightarrow> ann_db \<Rightarrow> Announcement list" where
  "ann_ListActive now db =
     take 200 (sort_key (\<lambda>a. - AnnID a)
       (filter (\<lambda>a. AnnStatus a = AnnouncementStatusActive \<and>
          (case StartsAt a of None \<Rightarrow> True | Some t \<Rightarrow> t \<le> now) \<and> (case EndsAt a of None \<Rightarrow> True | Some t \<Rightarrow> now < t)) (ann_rows db)))"

definition reads_MarkRead :: "int64 \<Rightarrow> int64 \<Rightarrow> gtime \<Rightarrow> ann_db \<Rightarrow> ann_db" where
  "reads_MarkRead announcementID userID readAt db =
     (if map_of (read_rows db) (announcementID, userID) \<noteq> None then db
      else db\<lparr>read_rows := ((announcementID, userID), readAt) # read_rows db\<rparr>)"

definition GetReadMapByUser :: "int64 \<Rightarrow> int64 list \<Rightarrow> ann_db \<Rightarrow> int64 \<Rightarrow> gtime option" where
  "GetReadMapByUser userID announcementIDs db i =
     (if i \<in> set announcementIDs then map_of (read_rows db) (i, userID) else None)"

definition GetReadMapByUsers :: "int64 \<Rightarrow> int64 list \<Rightarrow> ann_db \<Rightarrow> int64 \<Rightarrow> gtime option" where
  "GetReadMapByUsers announcementID userIDs db u =
     (if u \<in> set userIDs then map_of (read_rows db) (announcementID, u) else None)"

definition CountByAnnouncementID :: "int64 \<Rightarrow> ann_db \<Rightarrow> int" where
  "CountByAnnouncementID announcementID db = int (length (filter (\<lambda>r. fst (fst r) = announcementID) (read_rows db)))"

text \<open>The order of the administration list: a column and a direction, and the identifier as tie break.\<close>

definition announcementListOrder :: "'z go_env_scheme \<Rightarrow> PaginationParams \<Rightarrow> string \<times> string" where
  "announcementListOrder env params =
     (let sortBy = to_lower env (TrimSpace (SortBy params)); sortOrder = NormalizedSortOrder env params SortOrderDesc in
      if sortBy \<in> {''title'', ''status'', ''notify_mode'', ''starts_at'', ''ends_at'', ''id''} then (sortBy, sortOrder)
      else if sortBy = [] \<or> sortBy = ''created_at'' then (''created_at'', sortOrder)
      else (''created_at'', SortOrderDesc))"

definition announcementListOrders :: "'z go_env_scheme \<Rightarrow> PaginationParams \<Rightarrow> (string \<times> string) list" where
  "announcementListOrders env params =
     (case announcementListOrder env params of (field, sortOrder) \<Rightarrow>
        let direction = (if sortOrder = SortOrderAsc then SortOrderAsc else SortOrderDesc) in
        if field = ''id'' then [(field, direction)] else [(field, direction), (''id'', direction)])"

section \<open>The service\<close>

datatype ann_error =
    ErrAnnouncementNilInput
  | ErrAnnouncementInvalidTitle
  | ErrAnnouncementContentRequired
  | ErrAnnouncementInvalidStatus
  | ErrAnnouncementInvalidNotifyMode
  | ErrAnnouncementInvalidSchedule
  | ErrAnnouncementInvalidTarget
  | ErrAnnouncementNotFound
  | ErrUserNotFound

record CreateAnnouncementInput =
  cTitle :: string
  cContent :: string
  cStatus :: string
  cNotifyMode :: string
  cTargeting :: AnnouncementTargeting
  cStartsAt :: "gtime option"
  cEndsAt :: "gtime option"
  cActorID :: "int64 option"

record UpdateAnnouncementInput =
  uTitle :: "string option"
  uContent :: "string option"
  uStatus :: "string option"
  uNotifyMode :: "string option"
  uTargeting :: "AnnouncementTargeting option"
  uStartsAt :: "gtime option option"
  uEndsAt :: "gtime option option"
  uActorID :: "int64 option"

record UserAnnouncement =
  Shown :: Announcement
  ReadAt :: "gtime option"

record AnnouncementUserReadStatus =
  rsUserID :: int64
  rsEmail :: string
  rsUsername :: string
  rsBalance :: float64
  rsEligible :: bool
  rsReadAt :: "gtime option"

text \<open>What the other components know of users: the balance and the plans of the active subscriptions.\<close>

record ann_users =
  UserBalance :: "int64 \<Rightarrow> float64 option"
  ActivePlanIDs :: "int64 \<Rightarrow> int64 list"

definition isValidAnnouncementStatus :: "string \<Rightarrow> bool" where
  "isValidAnnouncementStatus status \<longleftrightarrow>
     status \<in> {AnnouncementStatusDraft, AnnouncementStatusActive, AnnouncementStatusArchived}"

definition isValidAnnouncementNotifyMode :: "string \<Rightarrow> bool" where
  "isValidAnnouncementNotifyMode mode \<longleftrightarrow> mode \<in> {AnnouncementNotifyModeSilent, AnnouncementNotifyModePopup}"

definition schedule_ok :: "gtime option \<Rightarrow> gtime option \<Rightarrow> bool" where
  "schedule_ok starts ends = (case (starts, ends) of (Some s, Some e) \<Rightarrow> s < e | _ \<Rightarrow> True)"

definition archiveAnnouncementIfExpired :: "Announcement \<Rightarrow> gtime \<Rightarrow> Announcement" where
  "archiveAnnouncementIfExpired a now =
     (if AnnStatus a \<noteq> AnnouncementStatusActive then a
      else case EndsAt a of None \<Rightarrow> a | Some t \<Rightarrow> if now < t then a else a\<lparr>AnnStatus := AnnouncementStatusArchived\<rparr>)"

definition positive_actor :: "int64 option \<Rightarrow> int64 option" where
  "positive_actor actor = (case actor of Some i \<Rightarrow> if 0 < i then Some i else None | None \<Rightarrow> None)"

definition CreateAnnouncement :: "gtime \<Rightarrow> CreateAnnouncementInput option \<Rightarrow> ann_db \<Rightarrow> ann_error + Announcement \<times> ann_db" where
  "CreateAnnouncement now input db =
     (case input of None \<Rightarrow> Inl ErrAnnouncementNilInput | Some inp \<Rightarrow>
       let title = TrimSpace (cTitle inp); content = TrimSpace (cContent inp);
           status = (if TrimSpace (cStatus inp) = [] then AnnouncementStatusDraft else TrimSpace (cStatus inp));
           notifyMode = (if TrimSpace (cNotifyMode inp) = [] then AnnouncementNotifyModeSilent else TrimSpace (cNotifyMode inp))
       in if title = [] \<or> 200 < length title then Inl ErrAnnouncementInvalidTitle
          else if content = [] then Inl ErrAnnouncementContentRequired
          else if \<not> isValidAnnouncementStatus status then Inl ErrAnnouncementInvalidStatus
          else case NormalizeAndValidate (cTargeting inp) of None \<Rightarrow> Inl ErrAnnouncementInvalidTarget | Some targeting \<Rightarrow>
          if \<not> isValidAnnouncementNotifyMode notifyMode then Inl ErrAnnouncementInvalidNotifyMode
          else if \<not> schedule_ok (cStartsAt inp) (cEndsAt inp) then Inl ErrAnnouncementInvalidSchedule
          else Inr (ann_Create now (archiveAnnouncementIfExpired
            \<lparr>AnnID = 0, Title = title, Content = content, AnnStatus = status, NotifyMode = notifyMode, Targeting = targeting,
             StartsAt = cStartsAt inp, EndsAt = cEndsAt inp, CreatedBy = positive_actor (cActorID inp),
             UpdatedBy = positive_actor (cActorID inp), AnnCreatedAt = 0, AnnUpdatedAt = 0\<rparr> now) db))"

text \<open>The fields of an update one after the other; a field that is absent keeps the value.\<close>

definition set_title :: "string option \<Rightarrow> Announcement \<Rightarrow> ann_error + Announcement" where
  "set_title v a = (case v of None \<Rightarrow> Inr a | Some t \<Rightarrow>
     let title = TrimSpace t in
     if title = [] \<or> 200 < length title then Inl ErrAnnouncementInvalidTitle else Inr (a\<lparr>Title := title\<rparr>))"

definition set_content :: "string option \<Rightarrow> Announcement \<Rightarrow> ann_error + Announcement" where
  "set_content v a = (case v of None \<Rightarrow> Inr a | Some c \<Rightarrow>
     let content = TrimSpace c in if content = [] then Inl ErrAnnouncementContentRequired else Inr (a\<lparr>Content := content\<rparr>))"

definition set_status :: "string option \<Rightarrow> Announcement \<Rightarrow> ann_error + Announcement" where
  "set_status v a = (case v of None \<Rightarrow> Inr a | Some s \<Rightarrow>
     let status = TrimSpace s in
     if \<not> isValidAnnouncementStatus status then Inl ErrAnnouncementInvalidStatus else Inr (a\<lparr>AnnStatus := status\<rparr>))"

definition set_notify_mode :: "string option \<Rightarrow> Announcement \<Rightarrow> ann_error + Announcement" where
  "set_notify_mode v a = (case v of None \<Rightarrow> Inr a | Some m \<Rightarrow>
     let mode = TrimSpace m in
     if \<not> isValidAnnouncementNotifyMode mode then Inl ErrAnnouncementInvalidNotifyMode else Inr (a\<lparr>NotifyMode := mode\<rparr>))"

definition set_targeting :: "AnnouncementTargeting option \<Rightarrow> Announcement \<Rightarrow> ann_error + Announcement" where
  "set_targeting v a = (case v of None \<Rightarrow> Inr a | Some t \<Rightarrow>
     (case NormalizeAndValidate t of None \<Rightarrow> Inl ErrAnnouncementInvalidTarget | Some targeting \<Rightarrow> Inr (a\<lparr>Targeting := targeting\<rparr>)))"

definition set_schedule :: "gtime option option \<Rightarrow> gtime option option \<Rightarrow> Announcement \<Rightarrow> ann_error + Announcement" where
  "set_schedule starts ends a =
     (let a = (case starts of None \<Rightarrow> a | Some v \<Rightarrow> a\<lparr>StartsAt := v\<rparr>);
          a = (case ends of None \<Rightarrow> a | Some v \<Rightarrow> a\<lparr>EndsAt := v\<rparr>)
      in if \<not> schedule_ok (StartsAt a) (EndsAt a) then Inl ErrAnnouncementInvalidSchedule else Inr a)"

definition and_then :: "'e + 'a \<Rightarrow> ('a \<Rightarrow> 'e + 'b) \<Rightarrow> 'e + 'b" where
  "and_then r f = (case r of Inl e \<Rightarrow> Inl e | Inr a \<Rightarrow> f a)"

definition edit_announcement :: "UpdateAnnouncementInput \<Rightarrow> Announcement \<Rightarrow> ann_error + Announcement" where
  "edit_announcement inp a =
     and_then (set_title (uTitle inp) a) (\<lambda>a.
     and_then (set_content (uContent inp) a) (\<lambda>a.
     and_then (set_status (uStatus inp) a) (\<lambda>a.
     and_then (set_notify_mode (uNotifyMode inp) a) (\<lambda>a.
     and_then (set_targeting (uTargeting inp) a)
              (set_schedule (uStartsAt inp) (uEndsAt inp))))))"

definition UpdateAnnouncement :: "gtime \<Rightarrow> int64 \<Rightarrow> UpdateAnnouncementInput option \<Rightarrow> ann_db \<Rightarrow> ann_error + Announcement \<times> ann_db" where
  "UpdateAnnouncement now i input db =
     (case input of None \<Rightarrow> Inl ErrAnnouncementNilInput | Some inp \<Rightarrow>
       case ann_GetByID i db of None \<Rightarrow> Inl ErrAnnouncementNotFound | Some a \<Rightarrow>
       case edit_announcement inp a of Inl e \<Rightarrow> Inl e | Inr a \<Rightarrow>
       let a = (case positive_actor (uActorID inp) of None \<Rightarrow> a | Some u \<Rightarrow> a\<lparr>UpdatedBy := Some u\<rparr>) in
       Inr (ann_Update now (archiveAnnouncementIfExpired a now) db))"

definition GetAnnouncement :: "gtime \<Rightarrow> int64 \<Rightarrow> ann_db \<Rightarrow> (ann_error + Announcement) \<times> ann_db" where
  "GetAnnouncement now i db =
     (let db = ann_ArchiveExpired now db in
      (case ann_GetByID i db of None \<Rightarrow> Inl ErrAnnouncementNotFound | Some a \<Rightarrow> Inr a, db))"

definition ListForUser :: "ann_users \<Rightarrow> gtime \<Rightarrow> int64 \<Rightarrow> bool \<Rightarrow> ann_db \<Rightarrow> ann_error + UserAnnouncement list" where
  "ListForUser users now userID unreadOnly db =
     (case UserBalance users userID of None \<Rightarrow> Inl ErrUserNotFound | Some balance \<Rightarrow>
       let visible = filter (\<lambda>a. IsActiveAt now a \<and> targeting_matches balance (ActivePlanIDs users userID) (Targeting a))
             (ann_ListActive now db);
           readMap = GetReadMapByUser userID (map AnnID visible) db
       in if visible = [] then Inr []
          else Inr (sort_key (\<lambda>u. (ReadAt u \<noteq> None, - AnnID (Shown u)))
            (map (\<lambda>a. \<lparr>Shown = a, ReadAt = readMap (AnnID a)\<rparr>)
              (filter (\<lambda>a. \<not> (unreadOnly \<and> readMap (AnnID a) \<noteq> None)) visible))))"

definition MarkRead :: "ann_users \<Rightarrow> gtime \<Rightarrow> int64 \<Rightarrow> int64 \<Rightarrow> ann_db \<Rightarrow> ann_error + ann_db" where
  "MarkRead users now userID announcementID db =
     (case UserBalance users userID of None \<Rightarrow> Inl ErrUserNotFound | Some balance \<Rightarrow>
       case ann_GetByID announcementID db of None \<Rightarrow> Inl ErrAnnouncementNotFound | Some a \<Rightarrow>
       if \<not> IsActiveAt now a then Inl ErrAnnouncementNotFound
       else if \<not> targeting_matches balance (ActivePlanIDs users userID) (Targeting a) then Inl ErrAnnouncementNotFound
       else Inr (reads_MarkRead announcementID userID now db))"

text \<open>The page of users comes from the user repository: identifier, address, name and balance.\<close>

definition ListUserReadStatus :: "ann_users \<Rightarrow> int64 \<Rightarrow> (int64 \<times> string \<times> string \<times> float64) list \<Rightarrow> ann_db \<Rightarrow>
    ann_error + AnnouncementUserReadStatus list" where
  "ListUserReadStatus users announcementID page db =
     (case ann_GetByID announcementID db of None \<Rightarrow> Inl ErrAnnouncementNotFound | Some ann \<Rightarrow>
       let readMap = GetReadMapByUsers announcementID (map fst page) db in
       Inr (map (\<lambda>(i, email, username, balance).
         \<lparr>rsUserID = i, rsEmail = email, rsUsername = username, rsBalance = balance,
          rsEligible = targeting_matches balance (ActivePlanIDs users i) (Targeting ann), rsReadAt = readMap i\<rparr>) page))"

section \<open>Steps\<close>

datatype ann_step =
    CreateStep gtime "CreateAnnouncementInput option"
  | UpdateStep gtime int64 "UpdateAnnouncementInput option"
  | DeleteStep int64
  | SweepStep gtime
  | ReadStep ann_users gtime int64 int64

text \<open>A call that fails leaves the tables as they are.\<close>

fun ann_run :: "ann_step \<Rightarrow> ann_db \<Rightarrow> ann_db" where
  "ann_run (CreateStep now input) db = (case CreateAnnouncement now input db of Inr (_, db') \<Rightarrow> db' | Inl _ \<Rightarrow> db)"
| "ann_run (UpdateStep now i input) db = (case UpdateAnnouncement now i input db of Inr (_, db') \<Rightarrow> db' | Inl _ \<Rightarrow> db)"
| "ann_run (DeleteStep i) db = ann_Delete i db"
| "ann_run (SweepStep now) db = ann_ArchiveExpired now db"
| "ann_run (ReadStep users now u i) db = (case MarkRead users now u i db of Inr db' \<Rightarrow> db' | Inl _ \<Rightarrow> db)"

definition ann_empty :: ann_db where
  "ann_empty = \<lparr>ann_rows = [], ann_sequence = 1, read_rows = []\<rparr>"

inductive ann_reachable :: "ann_db \<Rightarrow> bool" where
  empty: "ann_reachable ann_empty"
| step: "ann_reachable db \<Longrightarrow> ann_reachable (ann_run s db)"

section \<open>Properties\<close>

subsection \<open>Targeting\<close>

lemma those_map_Some: "those (map f xs) = Some ys \<longleftrightarrow> list_all2 (\<lambda>x y. f x = Some y) xs ys"
  by (induction xs arbitrary: ys) (auto simp: list_all2_Cons1 split: option.splits)

lemma normalize_condition_fix: "normalize_condition c = Some d \<Longrightarrow> normalize_condition d = Some d"
  by (auto simp: normalize_condition_def Let_def split: if_splits)

lemma fixed_list: "list_all2 (\<lambda>x y. f x = Some y) xs ys \<Longrightarrow> \<forall>x y. f x = Some y \<longrightarrow> f y = Some y \<Longrightarrow> list_all2 (\<lambda>x y. f x = Some y) ys ys"
  by (induction rule: list_all2_induct) auto

lemma normalize_group_fix:
  assumes "normalize_group g = Some h"
  shows "normalize_group h = Some h"
proof -
  obtain cs where cs: "list_all2 (\<lambda>c d. normalize_condition c = Some d) (AllOf g) cs" "h = \<lparr>AllOf = cs\<rparr>"
    and g: "AllOf g \<noteq> []" "length (AllOf g) \<le> 50"
    using assms by (auto simp: normalize_group_def those_map_Some split: if_splits)
  have "list_all2 (\<lambda>c d. normalize_condition c = Some d) cs cs"
    using fixed_list [OF cs(1)] normalize_condition_fix by blast
  then show ?thesis using cs g list_all2_lengthD [OF cs(1)] by (auto simp: normalize_group_def those_map_Some)
qed

lemma normalize_fix:
  assumes "NormalizeAndValidate t = Some t'"
  shows "NormalizeAndValidate t' = Some t'"
proof (cases "AnyOf t = []")
  case False
  then obtain gs where gs: "list_all2 (\<lambda>g h. normalize_group g = Some h) (AnyOf t) gs" "t' = \<lparr>AnyOf = gs\<rparr>" and t: "length (AnyOf t) \<le> 50"
    using assms by (auto simp: NormalizeAndValidate_def those_map_Some split: if_splits)
  have "list_all2 (\<lambda>g h. normalize_group g = Some h) gs gs"
    using fixed_list [OF gs(1)] normalize_group_fix by blast
  then show ?thesis using gs t list_all2_lengthD [OF gs(1)] False by (auto simp: NormalizeAndValidate_def those_map_Some)
qed (use assms in \<open>auto simp: NormalizeAndValidate_def\<close>)

lemma normalized_no_empty_group: "NormalizeAndValidate t = Some t' \<Longrightarrow> g \<in> set (AnyOf t') \<Longrightarrow> AllOf g \<noteq> []"
proof -
  assume t: "NormalizeAndValidate t = Some t'" "g \<in> set (AnyOf t')"
  then have "list_all2 (\<lambda>g h. normalize_group g = Some h) (AnyOf t') (AnyOf t')"
    using normalize_fix [OF t(1)] by (auto simp: NormalizeAndValidate_def those_map_Some split: if_splits)
  then have "normalize_group g = Some g" using t(2) by (auto simp: list_all2_conv_all_nth in_set_conv_nth)
  then show ?thesis by (auto simp: normalize_group_def split: if_splits)
qed

lemma normalized_conditions_valid:
  assumes "NormalizeAndValidate t = Some t'" "g \<in> set (AnyOf t')" "c \<in> set (AllOf g)"
  shows "validate_condition c \<and> (\<forall>p \<in> set (PlanIDs c). 0 < p)"
proof -
  have "list_all2 (\<lambda>g h. normalize_group g = Some h) (AnyOf t') (AnyOf t')"
    using normalize_fix [OF assms(1)] assms(2) by (auto simp: NormalizeAndValidate_def those_map_Some split: if_splits)
  then have "normalize_group g = Some g" using assms(2) by (auto simp: list_all2_conv_all_nth in_set_conv_nth)
  then have "list_all2 (\<lambda>c d. normalize_condition c = Some d) (AllOf g) (AllOf g)"
    by (cases g) (auto simp: normalize_group_def those_map_Some split: if_splits)
  then have "normalize_condition c = Some c" using assms(3) by (auto simp: list_all2_conv_all_nth in_set_conv_nth)
  then have "validate_condition c \<and> \<not> list_ex (\<lambda>p. p \<le> 0) (PlanIDs c)"
    by (cases c) (auto simp: normalize_condition_def Let_def split: if_splits)
  then show ?thesis by (auto simp: list_ex_iff not_le)
qed

text \<open>Rules that passed validation are a fixed point of it and mean what they say: they match everybody when there
  are none, and otherwise exactly the users for whom some group has all its conditions true; every group
  has a condition, and every condition is one the matcher can make true for some user.\<close>

theorem targeting_normal_form:
  assumes "NormalizeAndValidate t = Some t'"
  shows "NormalizeAndValidate t' = Some t' \<and>
    (targeting_matches balance plans t' \<longleftrightarrow>
       AnyOf t' = [] \<or> (\<exists>g \<in> set (AnyOf t'). \<forall>c \<in> set (AllOf g). condition_matches balance plans c)) \<and>
    (\<forall>g \<in> set (AnyOf t'). AllOf g \<noteq> [] \<and> (\<forall>c \<in> set (AllOf g). CondValue c \<in> range Fin \<longrightarrow>
       (\<exists>b p. condition_matches b p c)))"
proof (intro conjI ballI impI)
  show "targeting_matches balance plans t' \<longleftrightarrow>
       AnyOf t' = [] \<or> (\<exists>g \<in> set (AnyOf t'). \<forall>c \<in> set (AllOf g). condition_matches balance plans c)"
    using normalized_no_empty_group [OF assms] by (auto simp: targeting_matches_def list_ex_iff list_all_iff)
next
  fix g c assume g: "g \<in> set (AnyOf t')" and c: "c \<in> set (AllOf g)" and fin: "CondValue c \<in> range Fin"
  then obtain r where r: "CondValue c = Fin r" by auto
  have v: "validate_condition c" using normalized_conditions_valid [OF assms g c] by simp
  show "\<exists>b p. condition_matches b p c"
  proof (cases "CondType c = AnnouncementConditionTypeSubscription")
    case True
    then have "condition_matches b (PlanIDs c) c" for b
      using v by (cases "PlanIDs c") (auto simp: validate_condition_def condition_matches_def)
    then show ?thesis by blast
  next
    case False
    then have "condition_matches (Fin (r + 1)) [] c \<or> condition_matches (Fin r) [] c \<or> condition_matches (Fin (r - 1)) [] c"
      using v r by (auto simp: validate_condition_def condition_matches_def feq_def split: if_splits)
    then show ?thesis by blast
  qed
qed (use assms normalize_fix normalized_no_empty_group in auto)

definition demo_targeting :: AnnouncementTargeting where
  "demo_targeting = \<lparr>AnyOf = [\<lparr>AllOf = [\<lparr>CondType = ''balance'', CondOperator = ''lt'', PlanIDs = [], CondValue = Fin 5\<rparr>]\<rparr>]\<rparr>"

lemma demo_targeting_normal: "NormalizeAndValidate demo_targeting = Some demo_targeting"
  by (simp add: NormalizeAndValidate_def demo_targeting_def normalize_group_def normalize_condition_def validate_condition_def
      ann_consts TrimSpace_printable)

theorem targeting_normal_form_witness:
  "targeting_matches (Fin 3) [] demo_targeting \<and> \<not> targeting_matches (Fin 7) [] demo_targeting"
  using targeting_normal_form [OF demo_targeting_normal, of "Fin 3" "[]"] targeting_normal_form [OF demo_targeting_normal, of "Fin 7" "[]"]
  by (simp add: demo_targeting_def condition_matches_def ann_consts)

subsection \<open>What the tables hold\<close>

definition row_ok :: "Announcement \<Rightarrow> bool" where
  "row_ok a \<longleftrightarrow> Title a \<noteq> [] \<and> length (Title a) \<le> 200 \<and> Content a \<noteq> [] \<and> isValidAnnouncementStatus (AnnStatus a) \<and>
     isValidAnnouncementNotifyMode (NotifyMode a) \<and> NormalizeAndValidate (Targeting a) = Some (Targeting a) \<and>
     schedule_ok (StartsAt a) (EndsAt a)"

definition ann_inv :: "ann_db \<Rightarrow> bool" where
  "ann_inv db \<longleftrightarrow> (\<forall>a \<in> set (ann_rows db). row_ok a \<and> AnnID a < ann_sequence db) \<and> distinct (map AnnID (ann_rows db)) \<and>
     distinct (map fst (read_rows db)) \<and> (\<forall>k \<in> fst ` set (read_rows db). fst k \<in> AnnID ` set (ann_rows db))"

lemma archived_ok [simp]: "row_ok (archiveAnnouncementIfExpired a now) = row_ok a"
  by (auto simp: archiveAnnouncementIfExpired_def row_ok_def isValidAnnouncementStatus_def split: option.split)

lemma archived_id [simp]: "AnnID (archiveAnnouncementIfExpired a now) = AnnID a"
  by (simp add: archiveAnnouncementIfExpired_def split: option.split)

lemma status_archived [simp]: "isValidAnnouncementStatus AnnouncementStatusArchived"
  by (simp add: isValidAnnouncementStatus_def)

lemma create_row:
  assumes "CreateAnnouncement now input db = Inr (a, db')"
  shows "\<exists>b. row_ok b \<and> db' = db\<lparr>ann_rows := ann_rows db @ [a], ann_sequence := ann_sequence db + 1\<rparr> \<and>
    a = b\<lparr>AnnID := ann_sequence db, AnnCreatedAt := now, AnnUpdatedAt := now\<rparr>"
proof -
  obtain inp where inp: "input = Some inp" using assms by (cases input) (auto simp: CreateAnnouncement_def)
  define title where "title = TrimSpace (cTitle inp)"
  define content where "content = TrimSpace (cContent inp)"
  define status where "status = (if TrimSpace (cStatus inp) = [] then AnnouncementStatusDraft else TrimSpace (cStatus inp))"
  define mode where "mode = (if TrimSpace (cNotifyMode inp) = [] then AnnouncementNotifyModeSilent else TrimSpace (cNotifyMode inp))"
  obtain targeting where ok: "title \<noteq> []" "length title \<le> 200" "content \<noteq> []" "isValidAnnouncementStatus status"
      "NormalizeAndValidate (cTargeting inp) = Some targeting" "isValidAnnouncementNotifyMode mode"
      "schedule_ok (cStartsAt inp) (cEndsAt inp)"
    and res: "(a, db') = ann_Create now (archiveAnnouncementIfExpired
            \<lparr>AnnID = 0, Title = title, Content = content, AnnStatus = status, NotifyMode = mode, Targeting = targeting,
             StartsAt = cStartsAt inp, EndsAt = cEndsAt inp, CreatedBy = positive_actor (cActorID inp),
             UpdatedBy = positive_actor (cActorID inp), AnnCreatedAt = 0, AnnUpdatedAt = 0\<rparr> now) db"
    using assms unfolding CreateAnnouncement_def inp option.case Let_def
      title_def [symmetric] content_def [symmetric] status_def [symmetric] mode_def [symmetric]
    by (simp split: if_splits option.splits)
  let ?b = "archiveAnnouncementIfExpired
            \<lparr>AnnID = 0, Title = title, Content = content, AnnStatus = status, NotifyMode = mode, Targeting = targeting,
             StartsAt = cStartsAt inp, EndsAt = cEndsAt inp, CreatedBy = positive_actor (cActorID inp),
             UpdatedBy = positive_actor (cActorID inp), AnnCreatedAt = 0, AnnUpdatedAt = 0\<rparr> now"
  have "row_ok ?b" unfolding archived_ok using ok normalize_fix by (simp add: row_ok_def)
  with res show ?thesis by (intro exI [of _ ?b]) (simp add: ann_Create_def Let_def)
qed

lemma row_ok_stamp [simp]: "row_ok (b\<lparr>AnnUpdatedAt := t\<rparr>) = row_ok b" "row_ok (b\<lparr>AnnID := i\<rparr>) = row_ok b"
  "row_ok (b\<lparr>AnnCreatedAt := t\<rparr>) = row_ok b" "row_ok (b\<lparr>UpdatedBy := u\<rparr>) = row_ok b"
  by (simp_all add: row_ok_def)

lemma and_then_Inr: "and_then r f = Inr y \<longleftrightarrow> (\<exists>x. r = Inr x \<and> f x = Inr y)"
  by (auto simp: and_then_def split: sum.split)

lemma edit_keeps:
  assumes "edit_announcement inp a = Inr b" "row_ok a"
  shows "row_ok b \<and> AnnID b = AnnID a"
proof -
  obtain b1 b2 b3 b4 b5 where s: "set_title (uTitle inp) a = Inr b1" "set_content (uContent inp) b1 = Inr b2"
    "set_status (uStatus inp) b2 = Inr b3" "set_notify_mode (uNotifyMode inp) b3 = Inr b4"
    "set_targeting (uTargeting inp) b4 = Inr b5" "set_schedule (uStartsAt inp) (uEndsAt inp) b5 = Inr b"
    using assms(1) unfolding edit_announcement_def and_then_Inr by blast
  have title: "row_ok b1 \<and> AnnID b1 = AnnID a" using s(1) assms(2)
    by (auto simp: set_title_def Let_def row_ok_def split: option.splits if_splits)
  have content: "row_ok b2 \<and> AnnID b2 = AnnID a" using s(2) title
    by (auto simp: set_content_def Let_def row_ok_def split: option.splits if_splits)
  have status: "row_ok b3 \<and> AnnID b3 = AnnID a" using s(3) content
    by (auto simp: set_status_def Let_def row_ok_def split: option.splits if_splits)
  have mode: "row_ok b4 \<and> AnnID b4 = AnnID a" using s(4) status
    by (auto simp: set_notify_mode_def Let_def row_ok_def split: option.splits if_splits)
  have targeting: "row_ok b5 \<and> AnnID b5 = AnnID a" using s(5) mode normalize_fix
    by (auto simp: set_targeting_def row_ok_def split: option.splits)
  then show ?thesis using s(6)
    by (auto simp: set_schedule_def Let_def row_ok_def split: option.splits if_splits)
qed

lemma get_row: "ann_GetByID i db = Some a \<Longrightarrow> a \<in> set (ann_rows db) \<and> AnnID a = i"
  by (auto simp: ann_GetByID_def find_Some_iff)

lemma update_row:
  assumes "UpdateAnnouncement now i input db = Inr (a, db')" "ann_inv db"
  shows "row_ok a \<and> AnnID a = i \<and> db' = db\<lparr>ann_rows := map (\<lambda>b. if AnnID b = i then a else b) (ann_rows db)\<rparr>"
proof -
  obtain inp where inp: "input = Some inp" using assms by (cases input) (auto simp: UpdateAnnouncement_def)
  obtain b c where b: "ann_GetByID i db = Some b" and c: "edit_announcement inp b = Inr c"
    using assms(1) by (auto simp: UpdateAnnouncement_def inp split: option.splits sum.splits)
  have "row_ok c \<and> AnnID c = i"
    using edit_keeps [OF c] get_row [OF b] assms(2) by (auto simp: ann_inv_def)
  then show ?thesis
    using assms(1) b c by (auto simp: UpdateAnnouncement_def inp Let_def ann_Update_def split: option.splits)
qed

lemma mark_rows:
  assumes "MarkRead users now u i db = Inr db'"
  shows "db' = reads_MarkRead i u now db \<and> i \<in> AnnID ` set (ann_rows db)"
  using assms get_row [of i db] by (auto simp: MarkRead_def split: option.splits if_splits)

lemma inv_map_rows:
  assumes "ann_inv db" "\<And>a. a \<in> set (ann_rows db) \<Longrightarrow> AnnID (f a) = AnnID a \<and> row_ok (f a)"
  shows "ann_inv (db\<lparr>ann_rows := map f (ann_rows db)\<rparr>)"
proof -
  have "map (AnnID \<circ> f) (ann_rows db) = map AnnID (ann_rows db)" using assms(2) by simp
  then have "distinct (map (AnnID \<circ> f) (ann_rows db))" using assms(1) by (simp add: ann_inv_def del: map_eq_conv)
  moreover have "AnnID ` f ` set (ann_rows db) = AnnID ` set (ann_rows db)" using assms(2) by (force simp: image_image)
  ultimately show ?thesis using assms by (simp add: ann_inv_def)
qed

lemma step_inv:
  assumes "ann_inv db"
  shows "ann_inv (ann_run s db)"
proof (cases s)
  case (CreateStep now input)
  show ?thesis
  proof (cases "CreateAnnouncement now input db")
    case (Inr r)
    then obtain b where b: "row_ok b" "snd r = db\<lparr>ann_rows := ann_rows db @ [fst r], ann_sequence := ann_sequence db + 1\<rparr>"
      "fst r = b\<lparr>AnnID := ann_sequence db, AnnCreatedAt := now, AnnUpdatedAt := now\<rparr>"
      using create_row [of now input db "fst r" "snd r"] by auto
    have "ann_sequence db \<notin> AnnID ` set (ann_rows db)" using assms by (fastforce simp: ann_inv_def)
    then show ?thesis using assms b Inr CreateStep by (cases r) (fastforce simp: ann_inv_def)
  qed (use assms CreateStep in simp)
next
  case (UpdateStep now i input)
  show ?thesis
  proof (cases "UpdateAnnouncement now i input db")
    case (Inr r)
    then have r: "row_ok (fst r)" "AnnID (fst r) = i"
        "snd r = db\<lparr>ann_rows := map (\<lambda>b. if AnnID b = i then fst r else b) (ann_rows db)\<rparr>"
      using update_row [of now i input db "fst r" "snd r"] assms by auto
    have "ann_inv (snd r)" unfolding r(3)
      by (rule inv_map_rows [OF assms]) (use r(1,2) assms in \<open>auto simp: ann_inv_def\<close>)
    then show ?thesis using Inr UpdateStep by (cases r) simp
  qed (use assms UpdateStep in simp)
next
  case (DeleteStep i)
  then show ?thesis using assms
    by (auto simp: ann_inv_def ann_Delete_def distinct_map_filter image_iff Bex_def) (metis fst_conv)
next
  case (SweepStep now)
  show ?thesis unfolding SweepStep ann_run.simps ann_ArchiveExpired_def
    by (rule inv_map_rows [OF assms]) (use assms in \<open>auto simp: ann_inv_def row_ok_def\<close>)
next
  case (ReadStep users now u i)
  show ?thesis
  proof (cases "MarkRead users now u i db")
    case (Inr db')
    then show ?thesis using mark_rows [OF Inr] assms ReadStep
      by (auto simp: ann_inv_def reads_MarkRead_def map_of_eq_None_iff)
  qed (use assms ReadStep in simp)
qed

lemma reachable_inv: "ann_reachable db \<Longrightarrow> ann_inv db"
proof (induction rule: ann_reachable.induct)
  case empty
  then show ?case by (simp add: ann_inv_def ann_empty_def)
qed (rule step_inv)

text \<open>C28. Whatever is created, edited, deleted, swept and read, the stored announcements are well formed: title and content
  present, the title at most 200 bytes, status and notification mode known, rules validated, the start before
  the end; identifiers are unique, and a user has at most one read mark per announcement, on one that exists.\<close>

theorem announcement_rows_valid:
  assumes "ann_reachable db"
  shows "(\<forall>a \<in> set (ann_rows db). Title a \<noteq> [] \<and> length (Title a) \<le> 200 \<and> Content a \<noteq> [] \<and>
       isValidAnnouncementStatus (AnnStatus a) \<and> isValidAnnouncementNotifyMode (NotifyMode a) \<and>
       NormalizeAndValidate (Targeting a) = Some (Targeting a) \<and> schedule_ok (StartsAt a) (EndsAt a)) \<and>
    distinct (map AnnID (ann_rows db)) \<and> distinct (map fst (read_rows db)) \<and>
    (\<forall>k \<in> fst ` set (read_rows db). fst k \<in> AnnID ` set (ann_rows db))"
  using reachable_inv [OF assms] by (simp add: ann_inv_def row_ok_def)

subsection \<open>What users see\<close>

lemma active_iff: "IsActiveAt now a \<longleftrightarrow> AnnStatus a = AnnouncementStatusActive \<and>
    (case StartsAt a of None \<Rightarrow> True | Some t \<Rightarrow> t \<le> now) \<and> (case EndsAt a of None \<Rightarrow> True | Some t \<Rightarrow> now < t)"
  by (auto simp: IsActiveAt_def split: option.split)

lemma ListActive_active: "ann_ListActive now db = take 200 (sort_key (\<lambda>a. - AnnID a) (filter (IsActiveAt now) (ann_rows db)))"
  unfolding ann_ListActive_def active_iff ..

lemma filter_changed:
  "(\<And>a. a \<in> set xs \<Longrightarrow> P (f a) = P a \<and> (P a \<longrightarrow> f a = a)) \<Longrightarrow> filter P (map f xs) = filter P xs"
  by (induction xs) auto

lemma sweep_active:
  assumes "now' \<le> now"
  shows "filter (IsActiveAt now) (ann_rows (ann_ArchiveExpired now' db)) = filter (IsActiveAt now) (ann_rows db)"
  unfolding ann_ArchiveExpired_def using assms
  by (simp, intro filter_changed) (auto simp: active_iff expired_def ann_consts split: option.splits)

text \<open>The archiving sweep is invisible to users: at any time from the sweep on, every user sees the list that would
  have been seen without it.\<close>

theorem sweep_invisible:
  assumes "now' \<le> now"
  shows "ListForUser users now u unreadOnly (ann_ArchiveExpired now' db) = ListForUser users now u unreadOnly db"
proof -
  have active: "ann_ListActive now (ann_ArchiveExpired now' db) = ann_ListActive now db"
    unfolding ListActive_active sweep_active [OF assms] ..
  have reads: "GetReadMapByUser u as (ann_ArchiveExpired now' db) = GetReadMapByUser u as db" for as
    by (simp add: GetReadMapByUser_def ann_ArchiveExpired_def fun_eq_iff)
  show ?thesis unfolding ListForUser_def active reads ..
qed

definition shown_to :: "ann_users \<Rightarrow> gtime \<Rightarrow> int64 \<Rightarrow> ann_db \<Rightarrow> Announcement \<Rightarrow> bool" where
  "shown_to users now u db a \<longleftrightarrow> a \<in> set (ann_rows db) \<and> IsActiveAt now a \<and>
     (\<exists>b. UserBalance users u = Some b \<and> targeting_matches b (ActivePlanIDs users u) (Targeting a))"

definition before :: "UserAnnouncement \<Rightarrow> UserAnnouncement \<Rightarrow> bool" where
  "before x y \<longleftrightarrow> ReadAt x = None \<and> ReadAt y \<noteq> None \<or> (ReadAt x = None \<longleftrightarrow> ReadAt y = None) \<and> AnnID (Shown y) < AnnID (Shown x)"

lemma find_id: "distinct (map AnnID as) \<Longrightarrow> a \<in> set as \<Longrightarrow> find (\<lambda>b. AnnID b = AnnID a) as = Some a"
  by (induction as) (auto simp: image_iff)

lemma get_id: "distinct (map AnnID (ann_rows db)) \<Longrightarrow> a \<in> set (ann_rows db) \<Longrightarrow> ann_GetByID (AnnID a) db = Some a"
  using find_id [of "ann_rows db"] by (simp add: ann_GetByID_def)

lemma listing:
  assumes "distinct (map AnnID (ann_rows db))" "UserBalance users u = Some b"
    "length (filter (IsActiveAt now) (ann_rows db)) \<le> 200"
  shows "\<exists>out. ListForUser users now u unreadOnly db = Inr out \<and> sorted_wrt before out \<and>
    (\<forall>x. x \<in> set out \<longleftrightarrow> shown_to users now u db (Shown x) \<and> ReadAt x = map_of (read_rows db) (AnnID (Shown x), u) \<and>
      \<not> (unreadOnly \<and> ReadAt x \<noteq> None))"
proof -
  define as where "as = filter (\<lambda>a. IsActiveAt now a \<and> targeting_matches b (ActivePlanIDs users u) (Targeting a)) (ann_ListActive now db)"
  define readMap where "readMap = GetReadMapByUser u (map AnnID as) db"
  define items where "items = map (\<lambda>a. \<lparr>Shown = a, ReadAt = readMap (AnnID a)\<rparr>) (filter (\<lambda>a. \<not> (unreadOnly \<and> readMap (AnnID a) \<noteq> None)) as)"
  define key where "key = (\<lambda>x :: UserAnnouncement. (ReadAt x \<noteq> None, - AnnID (Shown x)))"
  have all: "ann_ListActive now db = sort_key (\<lambda>a. - AnnID a) (filter (IsActiveAt now) (ann_rows db))"
    unfolding ListActive_active using assms(3) by simp
  have set_as: "a \<in> set as \<longleftrightarrow> shown_to users now u db a" for a
    unfolding as_def all shown_to_def using assms(2) by auto
  have reads: "readMap (AnnID a) = map_of (read_rows db) (AnnID a, u)" if "a \<in> set as" for a
    using that by (simp add: readMap_def GetReadMapByUser_def)
  have "distinct (map AnnID (filter (IsActiveAt now) (ann_rows db)))" using assms(1) by (simp add: distinct_map_filter)
  then have dist: "distinct (map AnnID as)" unfolding as_def all
    by (intro distinct_map_filter) (metis distinct_map mset_sort mset_eq_imp_distinct_iff set_sort)
  have mem: "x \<in> set items \<longleftrightarrow> shown_to users now u db (Shown x) \<and> ReadAt x = map_of (read_rows db) (AnnID (Shown x), u) \<and>
      \<not> (unreadOnly \<and> ReadAt x \<noteq> None)" for x
    using reads by (cases x) (auto simp: items_def set_as image_iff)
  have ids: "distinct (map (\<lambda>x. AnnID (Shown x)) items)"
    using distinct_map_filter [OF dist] by (simp add: items_def comp_def)
  define out where "out = sort_key key items"
  have "ListForUser users now u unreadOnly db = Inr out"
    unfolding ListForUser_def assms(2) option.case Let_def as_def [symmetric] readMap_def [symmetric] items_def [symmetric]
      key_def [symmetric] out_def by (auto simp: items_def)
  moreover have "sorted_wrt before out"
  proof -
    have "distinct (map (\<lambda>x. AnnID (Shown x)) out)"
      using ids unfolding out_def by (metis distinct_map mset_sort mset_eq_imp_distinct_iff set_sort)
    then have d: "AnnID (Shown (out ! i)) \<noteq> AnnID (Shown (out ! j))" if "i < j" "j < length out" for i j
      using that by (auto simp: distinct_conv_nth)
    have "sorted (map key out)" by (simp add: out_def)
    then have "key (out ! i) \<le> key (out ! j)" if "i < j" "j < length out" for i j
      using that by (simp add: sorted_iff_nth_mono_less)
    then show ?thesis unfolding sorted_wrt_iff_nth_less before_def using d
      by (fastforce simp: key_def less_eq_prod_def)
  qed
  moreover have "set out = set items" by (simp add: out_def)
  ultimately show ?thesis using mem by blast
qed

text \<open>C27. A user's list is exactly the announcements that are due now and target the user, each with the user's read mark,
  without the read ones if only unread ones are asked for; unread ones come first, and the newest first within
  each part.  This holds while at most 200 announcements are active: beyond that only the newest 200 are looked at.\<close>

theorem user_list_exact:
  assumes "ann_reachable db" "UserBalance users u = Some b" "length (filter (IsActiveAt now) (ann_rows db)) \<le> 200"
  shows "\<exists>out. ListForUser users now u unreadOnly db = Inr out \<and> sorted_wrt before out \<and>
    (\<forall>x. x \<in> set out \<longleftrightarrow> shown_to users now u db (Shown x) \<and> ReadAt x = map_of (read_rows db) (AnnID (Shown x), u) \<and>
      \<not> (unreadOnly \<and> ReadAt x \<noteq> None))"
  using reachable_inv [OF assms(1)] assms(2,3) by (intro listing) (simp_all add: ann_inv_def)

text \<open>A user can mark as read exactly what the user is shown; the first mark keeps its time, and no other mark changes.\<close>

theorem mark_read_only_shown:
  assumes "ann_reachable db"
  shows "((\<exists>db'. MarkRead users now u i db = Inr db') \<longleftrightarrow> (\<exists>a. shown_to users now u db a \<and> AnnID a = i)) \<and>
    (\<forall>db'. MarkRead users now u i db = Inr db' \<longrightarrow> ann_rows db' = ann_rows db \<and>
       (\<forall>k. map_of (read_rows db') k =
          (if k = (i, u) \<and> map_of (read_rows db) k = None then Some now else map_of (read_rows db) k)))"
proof (intro conjI allI impI)
  have d: "distinct (map AnnID (ann_rows db))" using reachable_inv [OF assms] by (simp add: ann_inv_def)
  show "(\<exists>db'. MarkRead users now u i db = Inr db') \<longleftrightarrow> (\<exists>a. shown_to users now u db a \<and> AnnID a = i)"
  proof
    assume "\<exists>db'. MarkRead users now u i db = Inr db'"
    then show "\<exists>a. shown_to users now u db a \<and> AnnID a = i"
      using get_row [of i db] by (auto simp: MarkRead_def shown_to_def split: option.splits if_splits)
  next
    assume "\<exists>a. shown_to users now u db a \<and> AnnID a = i"
    then show "\<exists>db'. MarkRead users now u i db = Inr db'"
      using get_id [OF d] by (auto simp: MarkRead_def shown_to_def)
  qed
next
  fix db' assume m: "MarkRead users now u i db = Inr db'"
  show "ann_rows db' = ann_rows db" using mark_rows [OF m] by (simp add: reads_MarkRead_def)
  show "map_of (read_rows db') k = (if k = (i, u) \<and> map_of (read_rows db) k = None then Some now else map_of (read_rows db) k)" for k
    using mark_rows [OF m] by (auto simp: reads_MarkRead_def)
qed

definition demo_input :: CreateAnnouncementInput where
  "demo_input = \<lparr>cTitle = ''Hi'', cContent = ''text'', cStatus = ''active'', cNotifyMode = ''popup'', cTargeting = demo_targeting,
     cStartsAt = None, cEndsAt = Some 100, cActorID = None\<rparr>"

definition demo_announcement :: Announcement where
  "demo_announcement = \<lparr>AnnID = 1, Title = ''Hi'', Content = ''text'', AnnStatus = ''active'', NotifyMode = ''popup'',
     Targeting = demo_targeting, StartsAt = None, EndsAt = Some 100, CreatedBy = None, UpdatedBy = None,
     AnnCreatedAt = 5, AnnUpdatedAt = 5\<rparr>"

definition demo_db :: ann_db where
  "demo_db = \<lparr>ann_rows = [demo_announcement], ann_sequence = 2, read_rows = []\<rparr>"

definition demo_users :: ann_users where
  "demo_users = \<lparr>UserBalance = (\<lambda>u. Some (if u = 9 then Fin 3 else Fin 7)), ActivePlanIDs = (\<lambda>u. [])\<rparr>"

lemma demo_db_reachable: "ann_reachable demo_db"
proof -
  have "CreateAnnouncement 5 (Some demo_input) ann_empty = Inr (demo_announcement, demo_db)"
    by (simp add: CreateAnnouncement_def demo_input_def Let_def TrimSpace_printable isValidAnnouncementStatus_def
        isValidAnnouncementNotifyMode_def demo_targeting_normal schedule_ok_def archiveAnnouncementIfExpired_def ann_Create_def
        ann_empty_def demo_db_def demo_announcement_def positive_actor_def ann_consts)
  then have "ann_run (CreateStep 5 (Some demo_input)) ann_empty = demo_db" by simp
  then show ?thesis using ann_reachable.step [OF ann_reachable.empty] by metis
qed

lemma demo_shown: "shown_to demo_users 50 u demo_db a \<longleftrightarrow> a = demo_announcement \<and> u = 9"
  by (auto simp: shown_to_def demo_db_def demo_announcement_def active_iff demo_users_def demo_targeting_def targeting_matches_def
      condition_matches_def ann_consts)

theorem announcement_rows_valid_witness: "row_ok demo_announcement"
  using announcement_rows_valid [OF demo_db_reachable] by (simp add: row_ok_def demo_db_def)

theorem sweep_invisible_witness:
  "AnnStatus (hd (ann_rows (ann_ArchiveExpired 100 demo_db))) = AnnouncementStatusArchived \<and>
   ListForUser demo_users 120 9 False (ann_ArchiveExpired 100 demo_db) = ListForUser demo_users 120 9 False demo_db"
proof
  show "AnnStatus (hd (ann_rows (ann_ArchiveExpired 100 demo_db))) = AnnouncementStatusArchived"
    by (simp add: ann_ArchiveExpired_def demo_db_def demo_announcement_def expired_def ann_consts)
qed (rule sweep_invisible, simp)

theorem user_list_exact_witness:
  "\<exists>out. ListForUser demo_users 50 9 False demo_db = Inr out \<and> \<lparr>Shown = demo_announcement, ReadAt = None\<rparr> \<in> set out"
proof -
  have "length (filter (IsActiveAt 50) (ann_rows demo_db)) \<le> 200" "UserBalance demo_users 9 = Some (Fin 3)"
    by (simp_all add: demo_db_def demo_users_def)
  from user_list_exact [OF demo_db_reachable this(2,1), of False] show ?thesis
    by (auto simp: demo_shown) (auto simp: demo_db_def)
qed

theorem mark_read_only_shown_witness:
  "(\<exists>db. MarkRead demo_users 50 9 1 demo_db = Inr db) \<and> \<not> (\<exists>db. MarkRead demo_users 50 8 1 demo_db = Inr db)"
  using mark_read_only_shown [OF demo_db_reachable, of demo_users 50 9 1]
    mark_read_only_shown [OF demo_db_reachable, of demo_users 50 8 1]
  by (simp add: demo_shown) (simp add: demo_announcement_def)

end
