(* ===== verification/Subscription.thy ===== *)
theory Subscription
  imports Account_Sched Go_Location
begin

text \<open>
  Subscriptions and their quota windows: the domain type (\<^verbatim>\<open>service/user_subscription.go\<close>), the pre-check, the
  maintenance of the windows and the progress report (\<^verbatim>\<open>service/subscription_service.go\<close>), the writes of the
  repository to one row (\<^verbatim>\<open>repository/user_subscription_repo.go\<close>), and the start of a day
  (\<^verbatim>\<open>pkg/timezone/timezone.go\<close>).

  \<^verbatim>\<open>timezone.Init\<close> makes the configured zone the local one, so all days are days of one location \<open>loc\<close>.  All readings
  of the clock within one call are one instant \<open>now\<close>.  A nil receiver is left out.  Driver errors are left out;
  the row can be absent.
\<close>

section \<open>Days\<close>

definition StartOfDay :: "Location \<Rightarrow> gtime \<Rightarrow> gtime" where
  "StartOfDay loc t = Date loc (day_of loc t) 0"

section \<open>Subscriptions\<close>

definition subscriptionDailyWindow :: duration where "subscriptionDailyWindow = 24 * hour"
definition subscriptionWeeklyWindow :: duration where "subscriptionWeeklyWindow = 7 * 24 * hour"
definition subscriptionMonthlyWindow :: duration where "subscriptionMonthlyWindow = 30 * 24 * hour"

definition SubscriptionStatusActive :: string where "SubscriptionStatusActive = ''active''"
definition SubscriptionStatusPending :: string where "SubscriptionStatusPending = ''pending''"
definition SubscriptionStatusExpired :: string where "SubscriptionStatusExpired = ''expired''"
definition SubscriptionStatusSuspended :: string where "SubscriptionStatusSuspended = ''suspended''"
definition SubscriptionStatusRevoked :: string where "SubscriptionStatusRevoked = ''revoked''"

lemmas sub_status = SubscriptionStatusActive_def SubscriptionStatusPending_def SubscriptionStatusExpired_def
  SubscriptionStatusSuspended_def SubscriptionStatusRevoked_def

lemmas windows = subscriptionDailyWindow_def subscriptionWeeklyWindow_def subscriptionMonthlyWindow_def

record UserSubscription =
  SubID :: int64
  SubUserID :: int64
  SubPlanID :: int64
  SubStartsAt :: gtime
  SubExpiresAt :: gtime
  SubStatus :: string
  DailyWindowStart :: "gtime option"
  WeeklyWindowStart :: "gtime option"
  MonthlyWindowStart :: "gtime option"
  DailyLimitUSD :: "float64 option"
  WeeklyLimitUSD :: "float64 option"
  MonthlyLimitUSD :: "float64 option"
  DailyUsageUSD :: float64
  WeeklyUsageUSD :: float64
  MonthlyUsageUSD :: float64
  SubAssignedBy :: "int64 option"
  SubAssignedAt :: gtime
  SubSourceOrderID :: "int64 option"
  SubNotes :: string
  SubCreatedAt :: gtime
  SubUpdatedAt :: gtime
  SubDeletedAt :: "gtime option"

record SubscriptionWindowActivation =
  ActDaily :: bool
  ActWeekly :: bool
  ActMonthly :: bool

definition ActivationAny :: "SubscriptionWindowActivation \<Rightarrow> bool" where
  "ActivationAny a \<longleftrightarrow> ActDaily a \<or> ActWeekly a \<or> ActMonthly a"

definition SubIsActive :: "gtime \<Rightarrow> UserSubscription \<Rightarrow> bool" where
  "SubIsActive now s \<longleftrightarrow> SubDeletedAt s = None \<and> SubStatus s = SubscriptionStatusActive \<and> \<not> now < SubStartsAt s \<and> now < SubExpiresAt s"

definition IsPending :: "gtime \<Rightarrow> UserSubscription \<Rightarrow> bool" where
  "IsPending now s \<longleftrightarrow> SubDeletedAt s = None \<and> SubStatus s = SubscriptionStatusPending \<and> now < SubStartsAt s"

definition EffectiveStatus :: "gtime \<Rightarrow> UserSubscription \<Rightarrow> string" where
  "EffectiveStatus now s =
     (if SubDeletedAt s \<noteq> None then SubscriptionStatusRevoked
      else if \<not> now < SubExpiresAt s then SubscriptionStatusExpired
      else if now < SubStartsAt s then SubscriptionStatusPending
      else if SubStatus s = SubscriptionStatusSuspended then SubscriptionStatusSuspended
      else SubscriptionStatusActive)"

definition IsEffective :: "gtime \<Rightarrow> UserSubscription \<Rightarrow> bool" where
  "IsEffective now s \<longleftrightarrow> \<not> now < SubStartsAt s \<and> now < SubExpiresAt s \<and> EffectiveStatus now s = SubscriptionStatusActive"

definition IsExpired :: "gtime \<Rightarrow> UserSubscription \<Rightarrow> bool" where
  "IsExpired now s \<longleftrightarrow> \<not> now < SubExpiresAt s"

definition daysRemainingAt :: "gtime \<Rightarrow> UserSubscription \<Rightarrow> int" where
  "daysRemainingAt now s =
     (let remaining = time_sub (SubExpiresAt s) now in
      if remaining \<le> 0 then 0
      else remaining div subscriptionDailyWindow + (if remaining mod subscriptionDailyWindow \<noteq> 0 then 1 else 0))"

definition IsWindowActivated :: "UserSubscription \<Rightarrow> bool" where
  "IsWindowActivated s \<longleftrightarrow> DailyWindowStart s \<noteq> None \<or> WeeklyWindowStart s \<noteq> None \<or> MonthlyWindowStart s \<noteq> None"

definition positiveSubscriptionLimit :: "float64 option \<Rightarrow> bool" where
  "positiveSubscriptionLimit limit = (case limit of None \<Rightarrow> False | Some l \<Rightarrow> flt (Fin 0) l)"

definition HasQuotaLimit :: "UserSubscription \<Rightarrow> bool" where
  "HasQuotaLimit s \<longleftrightarrow> positiveSubscriptionLimit (DailyLimitUSD s) \<or> positiveSubscriptionLimit (WeeklyLimitUSD s) \<or>
     positiveSubscriptionLimit (MonthlyLimitUSD s)"

definition HasOneTimeDailyQuota :: "Location \<Rightarrow> UserSubscription \<Rightarrow> bool" where
  "HasOneTimeDailyQuota loc s =
     (if SubStartsAt s = zero_time \<or> SubExpiresAt s = zero_time then False
      else \<not> AddDays loc (SubStartsAt s) 1 < SubExpiresAt s)"

definition CanStartFullQuotaWindow :: "UserSubscription \<Rightarrow> gtime \<Rightarrow> duration \<Rightarrow> bool" where
  "CanStartFullQuotaWindow s windowStart d =
     (if SubExpiresAt s = zero_time \<or> d \<le> 0 \<or> \<not> windowStart < SubExpiresAt s then False
      else \<not> SubExpiresAt s < windowStart + d)"

definition hasFiniteOuterQuotaLimit :: "UserSubscription \<Rightarrow> duration \<Rightarrow> bool" where
  "hasFiniteOuterQuotaLimit s d =
     (if d = subscriptionDailyWindow
      then positiveSubscriptionLimit (WeeklyLimitUSD s) \<or> positiveSubscriptionLimit (MonthlyLimitUSD s)
      else if d = subscriptionWeeklyWindow then positiveSubscriptionLimit (MonthlyLimitUSD s)
      else False)"

definition canStartQuotaWindow :: "UserSubscription \<Rightarrow> gtime \<Rightarrow> duration \<Rightarrow> bool" where
  "canStartQuotaWindow s windowStart d =
     (if SubExpiresAt s = zero_time \<or> \<not> windowStart < SubExpiresAt s then False
      else CanStartFullQuotaWindow s windowStart d \<or> hasFiniteOuterQuotaLimit s d)"

definition WindowActivationAt :: "Location \<Rightarrow> gtime \<Rightarrow> UserSubscription \<Rightarrow> SubscriptionWindowActivation" where
  "WindowActivationAt loc now s =
     (if \<not> HasQuotaLimit s \<or> now < SubStartsAt s \<or> \<not> now < SubExpiresAt s
      then \<lparr>ActDaily = False, ActWeekly = False, ActMonthly = False\<rparr>
      else
        let windowStart = StartOfDay loc now in
        \<lparr>ActDaily = positiveSubscriptionLimit (DailyLimitUSD s) \<and> DailyWindowStart s = None \<and>
           (HasOneTimeDailyQuota loc s \<or> canStartQuotaWindow s windowStart subscriptionDailyWindow),
         ActWeekly = positiveSubscriptionLimit (WeeklyLimitUSD s) \<and> WeeklyWindowStart s = None \<and>
           canStartQuotaWindow s windowStart subscriptionWeeklyWindow,
         ActMonthly = positiveSubscriptionLimit (MonthlyLimitUSD s) \<and> MonthlyWindowStart s = None \<and>
           canStartQuotaWindow s windowStart subscriptionMonthlyWindow\<rparr>)"

definition NeedsWindowActivationAt :: "Location \<Rightarrow> gtime \<Rightarrow> UserSubscription \<Rightarrow> bool" where
  "NeedsWindowActivationAt loc now s = ActivationAny (WindowActivationAt loc now s)"

definition automaticDailyWindowStartAt :: "Location \<Rightarrow> gtime \<Rightarrow> UserSubscription \<Rightarrow> gtime option" where
  "automaticDailyWindowStartAt loc now s =
     (case DailyWindowStart s of None \<Rightarrow> None | Some start \<Rightarrow>
       if SubExpiresAt s = zero_time \<or> \<not> now < SubExpiresAt s then None
       else if HasOneTimeDailyQuota loc s then None
       else
         let today = StartOfDay loc now in
         if \<not> StartOfDay loc start < today then None
         else if \<not> canStartQuotaWindow s today subscriptionDailyWindow then None
         else Some today)"

definition NeedsDailyResetAt :: "Location \<Rightarrow> gtime \<Rightarrow> UserSubscription \<Rightarrow> bool" where
  "NeedsDailyResetAt loc now s = (automaticDailyWindowStartAt loc now s \<noteq> None)"

definition NeedsWeeklyResetAt :: "Location \<Rightarrow> gtime \<Rightarrow> UserSubscription \<Rightarrow> bool" where
  "NeedsWeeklyResetAt loc now s =
     (case WeeklyWindowStart s of None \<Rightarrow> False | Some start \<Rightarrow>
       if SubExpiresAt s = zero_time \<or> \<not> now < SubExpiresAt s then False
       else if now < start + subscriptionWeeklyWindow then False
       else canStartQuotaWindow s (StartOfDay loc now) subscriptionWeeklyWindow)"

definition NeedsMonthlyResetAt :: "Location \<Rightarrow> gtime \<Rightarrow> UserSubscription \<Rightarrow> bool" where
  "NeedsMonthlyResetAt loc now s =
     (case MonthlyWindowStart s of None \<Rightarrow> False | Some start \<Rightarrow>
       if SubExpiresAt s = zero_time \<or> \<not> now < SubExpiresAt s then False
       else if now < start + subscriptionMonthlyWindow then False
       else canStartQuotaWindow s (StartOfDay loc now) subscriptionMonthlyWindow)"

definition DailyResetTime :: "Location \<Rightarrow> UserSubscription \<Rightarrow> gtime option" where
  "DailyResetTime loc s =
     (case DailyWindowStart s of None \<Rightarrow> None | Some start \<Rightarrow>
       if HasOneTimeDailyQuota loc s then Some (SubExpiresAt s)
       else
         let t = AddDays loc (StartOfDay loc start) 1 in
         Some (if \<not> canStartQuotaWindow s t subscriptionDailyWindow then SubExpiresAt s else t))"

definition WeeklyResetTime :: "UserSubscription \<Rightarrow> gtime option" where
  "WeeklyResetTime s =
     (case WeeklyWindowStart s of None \<Rightarrow> None | Some start \<Rightarrow>
       let t = start + subscriptionWeeklyWindow in
       Some (if \<not> canStartQuotaWindow s t subscriptionWeeklyWindow then SubExpiresAt s else t))"

definition MonthlyResetTime :: "UserSubscription \<Rightarrow> gtime option" where
  "MonthlyResetTime s =
     (case MonthlyWindowStart s of None \<Rightarrow> None | Some start \<Rightarrow>
       let t = start + subscriptionMonthlyWindow in
       Some (if \<not> canStartQuotaWindow s t subscriptionMonthlyWindow then SubExpiresAt s else t))"

section \<open>Limits\<close>

definition check_limit :: "'z go_env_scheme \<Rightarrow> float64 option \<Rightarrow> float64 \<Rightarrow> float64 \<Rightarrow> bool" where
  "check_limit env limit used additionalCost =
     (case limit of None \<Rightarrow> True | Some l \<Rightarrow> if fle l (Fin 0) then True else fle (fadd env used additionalCost) l)"

definition CheckDailyLimit :: "'z go_env_scheme \<Rightarrow> UserSubscription \<Rightarrow> float64 \<Rightarrow> bool" where
  "CheckDailyLimit env s additionalCost = check_limit env (DailyLimitUSD s) (DailyUsageUSD s) additionalCost"

definition CheckWeeklyLimit :: "'z go_env_scheme \<Rightarrow> UserSubscription \<Rightarrow> float64 \<Rightarrow> bool" where
  "CheckWeeklyLimit env s additionalCost = check_limit env (WeeklyLimitUSD s) (WeeklyUsageUSD s) additionalCost"

definition CheckMonthlyLimit :: "'z go_env_scheme \<Rightarrow> UserSubscription \<Rightarrow> float64 \<Rightarrow> bool" where
  "CheckMonthlyLimit env s additionalCost = check_limit env (MonthlyLimitUSD s) (MonthlyUsageUSD s) additionalCost"

definition CheckAllLimits :: "'z go_env_scheme \<Rightarrow> UserSubscription \<Rightarrow> float64 \<Rightarrow> bool \<times> bool \<times> bool" where
  "CheckAllLimits env s c = (CheckDailyLimit env s c, CheckWeeklyLimit env s c, CheckMonthlyLimit env s c)"

definition remainingWindowAmount :: "'z go_env_scheme \<Rightarrow> float64 option \<Rightarrow> float64 \<Rightarrow> float64 option" where
  "remainingWindowAmount env limit used =
     (case limit of None \<Rightarrow> None | Some l \<Rightarrow>
       if fle l (Fin 0) then None
       else let remaining = fsub env l used in Some (if flt remaining (Fin 0) then Fin 0 else remaining))"

fun min_remaining_loop :: "float64 option \<Rightarrow> float64 option list \<Rightarrow> float64 option" where
  "min_remaining_loop m [] = m"
| "min_remaining_loop m (None # vs) = min_remaining_loop m vs"
| "min_remaining_loop m (Some v # vs) =
     min_remaining_loop (case m of None \<Rightarrow> Some v | Some w \<Rightarrow> if flt v w then Some v else Some w) vs"

definition minRemainingWindowAmount :: "float64 option list \<Rightarrow> float64" where
  "minRemainingWindowAmount vs = (case min_remaining_loop None vs of None \<Rightarrow> Fin 0 | Some m \<Rightarrow> m)"

definition RemainingDailyUSD :: "'z go_env_scheme \<Rightarrow> UserSubscription \<Rightarrow> float64 option" where
  "RemainingDailyUSD env s = remainingWindowAmount env (DailyLimitUSD s) (DailyUsageUSD s)"

definition RemainingWeeklyUSD :: "'z go_env_scheme \<Rightarrow> UserSubscription \<Rightarrow> float64 option" where
  "RemainingWeeklyUSD env s = remainingWindowAmount env (WeeklyLimitUSD s) (WeeklyUsageUSD s)"

definition RemainingMonthlyUSD :: "'z go_env_scheme \<Rightarrow> UserSubscription \<Rightarrow> float64 option" where
  "RemainingMonthlyUSD env s = remainingWindowAmount env (MonthlyLimitUSD s) (MonthlyUsageUSD s)"

definition AvailableQuotaUSD :: "'z go_env_scheme \<Rightarrow> UserSubscription \<Rightarrow> float64" where
  "AvailableQuotaUSD env s =
     minRemainingWindowAmount [RemainingDailyUSD env s, RemainingWeeklyUSD env s, RemainingMonthlyUSD env s]"

definition valueOrZeroLimit :: "float64 option \<Rightarrow> float64" where
  "valueOrZeroLimit v = (case v of None \<Rightarrow> Fin 0 | Some l \<Rightarrow> l)"

definition finitePositiveSubscriptionLimit :: "float64 option \<Rightarrow> bool" where
  "finitePositiveSubscriptionLimit limit \<longleftrightarrow> positiveSubscriptionLimit limit \<and> limit \<noteq> Some NaN \<and> limit \<noteq> Some PosInf \<and> limit \<noteq> Some NegInf"

fun first_quota :: "(float64 \<times> float64 \<times> bool) list \<Rightarrow> bool" where
  "first_quota [] = False"
| "first_quota ((limit, used, ok) # qs) = (if ok then fle limit used else first_quota qs)"

definition HighestQuotaExhausted :: "UserSubscription \<Rightarrow> bool" where
  "HighestQuotaExhausted s =
     first_quota
       [(valueOrZeroLimit (MonthlyLimitUSD s), MonthlyUsageUSD s, finitePositiveSubscriptionLimit (MonthlyLimitUSD s)),
        (valueOrZeroLimit (WeeklyLimitUSD s), WeeklyUsageUSD s, finitePositiveSubscriptionLimit (WeeklyLimitUSD s)),
        (valueOrZeroLimit (DailyLimitUSD s), DailyUsageUSD s, finitePositiveSubscriptionLimit (DailyLimitUSD s))]"

section \<open>The row\<close>

text \<open>The writes of the repository to the row of one subscription.  The conditional resets compare the start the caller has
  read; a caller that comes too late changes nothing and gets no error.\<close>

datatype sub_error =
    ErrSubscriptionNotFound
  | ErrSubscriptionExpired
  | ErrSubscriptionSuspended
  | ErrSubscriptionInvalid
  | ErrSubscriptionNilInput
  | ErrInvalidInput
  | ErrDailyLimitExceeded
  | ErrWeeklyLimitExceeded
  | ErrMonthlyLimitExceeded
  | ErrSubscriptionNotRevoked
  | ErrSubscriptionRestoreConflict
  | ErrSubscriptionNotActive
  | ErrSubscriptionQuotaAvailable
  | ErrAdjustWouldExpire
  | ErrInvalidPlan
  | ErrPlanLimitInvalid
  | ErrUserMissing

type_synonym sub_row = "UserSubscription option"

definition row_write :: "(UserSubscription \<Rightarrow> UserSubscription) \<Rightarrow> sub_row \<Rightarrow> (sub_error + unit) \<times> sub_row" where
  "row_write f row = (case row of None \<Rightarrow> (Inl ErrSubscriptionNotFound, None) | Some s \<Rightarrow> (Inr (), Some (f s)))"

definition ActivateWindows :: "gtime \<Rightarrow> SubscriptionWindowActivation \<Rightarrow> sub_row \<Rightarrow> (sub_error + unit) \<times> sub_row" where
  "ActivateWindows start activation row =
     (if \<not> ActivationAny activation then (Inr (), row)
      else row_write (\<lambda>s. s\<lparr>
        DailyWindowStart := if ActDaily activation then Some start else DailyWindowStart s,
        WeeklyWindowStart := if ActWeekly activation then Some start else WeeklyWindowStart s,
        MonthlyWindowStart := if ActMonthly activation then Some start else MonthlyWindowStart s\<rparr>) row)"

definition reset_daily :: "gtime \<Rightarrow> UserSubscription \<Rightarrow> UserSubscription" where
  "reset_daily start s = s\<lparr>DailyUsageUSD := Fin 0, DailyWindowStart := Some start\<rparr>"

definition reset_weekly :: "gtime \<Rightarrow> UserSubscription \<Rightarrow> UserSubscription" where
  "reset_weekly start s = s\<lparr>WeeklyUsageUSD := Fin 0, WeeklyWindowStart := Some start\<rparr>"

definition reset_monthly :: "gtime \<Rightarrow> UserSubscription \<Rightarrow> UserSubscription" where
  "reset_monthly start s = s\<lparr>MonthlyUsageUSD := Fin 0, MonthlyWindowStart := Some start\<rparr>"

definition ResetUsageWindows :: "bool \<Rightarrow> bool \<Rightarrow> bool \<Rightarrow> gtime \<Rightarrow> sub_row \<Rightarrow> (sub_error + unit) \<times> sub_row" where
  "ResetUsageWindows resetDaily resetWeekly resetMonthly start row =
     row_write (\<lambda>s. let s = (if resetDaily then reset_daily start s else s);
                         s = (if resetWeekly then reset_weekly start s else s)
                     in (if resetMonthly then reset_monthly start s else s)) row"

definition ResetDailyUsage :: "gtime option \<Rightarrow> gtime \<Rightarrow> sub_row \<Rightarrow> (sub_error + unit) \<times> sub_row" where
  "ResetDailyUsage expected start row =
     row_write (\<lambda>s. if DailyWindowStart s = expected then reset_daily start s else s) row"

definition ResetWeeklyUsage :: "gtime option \<Rightarrow> gtime \<Rightarrow> sub_row \<Rightarrow> (sub_error + unit) \<times> sub_row" where
  "ResetWeeklyUsage expected start row =
     row_write (\<lambda>s. if WeeklyWindowStart s = expected then reset_weekly start s else s) row"

definition ResetMonthlyUsage :: "gtime option \<Rightarrow> gtime \<Rightarrow> sub_row \<Rightarrow> (sub_error + unit) \<times> sub_row" where
  "ResetMonthlyUsage expected start row =
     row_write (\<lambda>s. if MonthlyWindowStart s = expected then reset_monthly start s else s) row"

definition IncrementUsage :: "'z go_env_scheme \<Rightarrow> float64 \<Rightarrow> sub_row \<Rightarrow> (sub_error + unit) \<times> sub_row" where
  "IncrementUsage env cost row =
     (case row of
        None \<Rightarrow> (Inl ErrSubscriptionNotFound, None)
      | Some s \<Rightarrow>
          if SubDeletedAt s \<noteq> None then (Inl ErrSubscriptionNotFound, row)
          else (Inr (), Some (s\<lparr>DailyUsageUSD := fadd env (DailyUsageUSD s) cost, WeeklyUsageUSD := fadd env (WeeklyUsageUSD s) cost,
            MonthlyUsageUSD := fadd env (MonthlyUsageUSD s) cost\<rparr>)))"

section \<open>The service\<close>

definition CheckAndActivateWindow :: "Location \<Rightarrow> gtime \<Rightarrow> UserSubscription \<Rightarrow> sub_row \<Rightarrow> (sub_error + unit) \<times> sub_row" where
  "CheckAndActivateWindow loc now sub row =
     (let activation = WindowActivationAt loc now sub in
      if \<not> ActivationAny activation then (Inr (), row) else ActivateWindows (StartOfDay loc now) activation row)"

definition AdminResetQuota :: "Location \<Rightarrow> gtime \<Rightarrow> bool \<Rightarrow> bool \<Rightarrow> bool \<Rightarrow> sub_row \<Rightarrow> (sub_error + UserSubscription) \<times> sub_row" where
  "AdminResetQuota loc now resetDaily resetWeekly resetMonthly row =
     (if \<not> resetDaily \<and> \<not> resetWeekly \<and> \<not> resetMonthly then (Inl ErrInvalidInput, row)
      else case row of None \<Rightarrow> (Inl ErrSubscriptionNotFound, None) | Some _ \<Rightarrow>
        (case ResetUsageWindows resetDaily resetWeekly resetMonthly (StartOfDay loc now) row of
           (Inl e, row) \<Rightarrow> (Inl e, row)
         | (Inr _, None) \<Rightarrow> (Inl ErrSubscriptionNotFound, None)
         | (Inr _, Some s) \<Rightarrow> (Inr s, Some s)))"

text \<open>The three resets of one call, on the caller's copy and on the row.\<close>

definition daily_maintenance :: "Location \<Rightarrow> gtime \<Rightarrow> UserSubscription \<Rightarrow> sub_row \<Rightarrow> (sub_error + UserSubscription) \<times> sub_row" where
  "daily_maintenance loc now sub row =
     (case automaticDailyWindowStartAt loc now sub of None \<Rightarrow> (Inr sub, row) | Some start \<Rightarrow>
       (case ResetDailyUsage (DailyWindowStart sub) start row of
          (Inl e, row) \<Rightarrow> (Inl e, row) | (Inr _, row) \<Rightarrow> (Inr (reset_daily start sub), row)))"

definition weekly_maintenance :: "Location \<Rightarrow> gtime \<Rightarrow> UserSubscription \<Rightarrow> sub_row \<Rightarrow> (sub_error + UserSubscription) \<times> sub_row" where
  "weekly_maintenance loc now sub row =
     (if \<not> NeedsWeeklyResetAt loc now sub then (Inr sub, row)
      else case ResetWeeklyUsage (WeeklyWindowStart sub) (StartOfDay loc now) row of
          (Inl e, row) \<Rightarrow> (Inl e, row) | (Inr _, row) \<Rightarrow> (Inr (reset_weekly (StartOfDay loc now) sub), row))"

definition monthly_maintenance :: "Location \<Rightarrow> gtime \<Rightarrow> UserSubscription \<Rightarrow> sub_row \<Rightarrow> (sub_error + UserSubscription) \<times> sub_row" where
  "monthly_maintenance loc now sub row =
     (if \<not> NeedsMonthlyResetAt loc now sub then (Inr sub, row)
      else case ResetMonthlyUsage (MonthlyWindowStart sub) (StartOfDay loc now) row of
          (Inl e, row) \<Rightarrow> (Inl e, row) | (Inr _, row) \<Rightarrow> (Inr (reset_monthly (StartOfDay loc now) sub), row))"

definition checkAndResetWindowsAt :: "Location \<Rightarrow> gtime \<Rightarrow> UserSubscription \<Rightarrow> sub_row \<Rightarrow> (sub_error + UserSubscription) \<times> sub_row" where
  "checkAndResetWindowsAt loc now sub row =
     (case daily_maintenance loc now sub row of (Inl e, row) \<Rightarrow> (Inl e, row) | (Inr sub, row) \<Rightarrow>
       (case weekly_maintenance loc now sub row of (Inl e, row) \<Rightarrow> (Inl e, row) | (Inr sub, row) \<Rightarrow>
         monthly_maintenance loc now sub row))"

definition EnsureWindowMaintenance :: "Location \<Rightarrow> gtime \<Rightarrow> UserSubscription \<Rightarrow> sub_row \<Rightarrow> (sub_error + UserSubscription) \<times> sub_row" where
  "EnsureWindowMaintenance loc now sub row =
     (case CheckAndActivateWindow loc now sub row of (Inl e, row) \<Rightarrow> (Inl e, row) | (Inr _, row) \<Rightarrow>
       (case checkAndResetWindowsAt loc now sub row of (Inl e, row) \<Rightarrow> (Inl e, row) | (Inr _, row) \<Rightarrow>
         (case row of None \<Rightarrow> (Inl ErrSubscriptionNotFound, None) | Some s \<Rightarrow> (Inr s, row))))"

definition subscriptionWindowLimitExceeded :: "'z go_env_scheme \<Rightarrow> float64 option \<Rightarrow> float64 \<Rightarrow> float64 \<Rightarrow> bool" where
  "subscriptionWindowLimitExceeded env limit used additionalCost =
     (case limit of None \<Rightarrow> False | Some l \<Rightarrow>
       if fle l (Fin 0) then False
       else if additionalCost = Fin 0 then fle l used
       else flt l (fadd env used additionalCost))"

definition checkSubscriptionUsageLimits :: "'z go_env_scheme \<Rightarrow> UserSubscription \<Rightarrow> float64 \<Rightarrow> sub_error option" where
  "checkSubscriptionUsageLimits env sub additionalCost =
     (if subscriptionWindowLimitExceeded env (DailyLimitUSD sub) (DailyUsageUSD sub) additionalCost then Some ErrDailyLimitExceeded
      else if subscriptionWindowLimitExceeded env (WeeklyLimitUSD sub) (WeeklyUsageUSD sub) additionalCost then Some ErrWeeklyLimitExceeded
      else if subscriptionWindowLimitExceeded env (MonthlyLimitUSD sub) (MonthlyUsageUSD sub) additionalCost then Some ErrMonthlyLimitExceeded
      else None)"

text \<open>The pre-check: whether maintenance is needed, the error, and the caller's copy with its usage zeroed.\<close>

definition ValidateAndCheckLimits :: "'z go_env_scheme \<Rightarrow> Location \<Rightarrow> gtime \<Rightarrow> UserSubscription \<Rightarrow>
    bool \<times> sub_error option \<times> UserSubscription" where
  "ValidateAndCheckLimits env loc now sub =
     (let status = EffectiveStatus now sub in
      if status = SubscriptionStatusExpired then (False, Some ErrSubscriptionExpired, sub)
      else if status = SubscriptionStatusSuspended then (False, Some ErrSubscriptionSuspended, sub)
      else if status = SubscriptionStatusPending then (False, Some ErrSubscriptionInvalid, sub)
      else if status = SubscriptionStatusRevoked then (False, Some ErrSubscriptionNotFound, sub)
      else
        let d = NeedsDailyResetAt loc now sub; w = NeedsWeeklyResetAt loc now sub; m = NeedsMonthlyResetAt loc now sub;
            sub = sub\<lparr>DailyUsageUSD := if d then Fin 0 else DailyUsageUSD sub, WeeklyUsageUSD := if w then Fin 0 else WeeklyUsageUSD sub,
              MonthlyUsageUSD := if m then Fin 0 else MonthlyUsageUSD sub\<rparr>
        in (d \<or> w \<or> m \<or> NeedsWindowActivationAt loc now sub, checkSubscriptionUsageLimits env sub (Fin 0), sub))"

definition ValidateSubscription :: "gtime \<Rightarrow> UserSubscription \<Rightarrow> sub_row \<Rightarrow> sub_error option \<times> sub_row" where
  "ValidateSubscription now sub row =
     (let status = EffectiveStatus now sub in
      if status = SubscriptionStatusExpired
      then (Some ErrSubscriptionExpired, snd (row_write (\<lambda>s. s\<lparr>SubStatus := SubscriptionStatusExpired\<rparr>) row))
      else if status = SubscriptionStatusSuspended then (Some ErrSubscriptionSuspended, row)
      else if status = SubscriptionStatusPending then (Some ErrSubscriptionInvalid, row)
      else if status = SubscriptionStatusRevoked then (Some ErrSubscriptionNotFound, row)
      else (None, row))"

record UsageWindowProgress =
  ProgLimitUSD :: float64
  ProgUsedUSD :: float64
  ProgRemainingUSD :: float64
  ProgPercentage :: float64
  ProgWindowStart :: gtime
  ProgResetsAt :: gtime
  ProgResetsInSeconds :: int

text \<open>\<^verbatim>\<open>Duration.Seconds\<close> adds the whole seconds and the rest as floats; the conversion to \<^verbatim>\<open>int64\<close> truncates.\<close>

definition duration_seconds :: "'z go_env_scheme \<Rightarrow> duration \<Rightarrow> int" where
  "duration_seconds env d =
     (let whole = (if 0 \<le> d then d div second else - ((- d) div second)); rest = d - whole * second in
      int_of_float env (fadd env (round64 env (of_int whole)) (round64 env (of_int rest / of_int second))))"

definition normalizedWindowProgress :: "'z go_env_scheme \<Rightarrow> gtime \<Rightarrow> float64 option \<Rightarrow> float64 \<Rightarrow> gtime option \<Rightarrow> gtime option \<Rightarrow>
    duration \<Rightarrow> UsageWindowProgress option" where
  "normalizedWindowProgress env now limit used resetAt windowStart d =
     (case (limit, windowStart) of
        (Some l, Some start) \<Rightarrow>
          if fle l (Fin 0) then None
          else
            let resetsAt = (case resetAt of Some t \<Rightarrow> t | None \<Rightarrow> start + d);
                remaining = fsub env l used;
                percentage = (if flt (Fin 0) l then
                    (let p = fscale env (fdiv_pos env used l) 100 in if flt (Fin 100) p then Fin 100 else p) else Fin 0);
                resetsIn = duration_seconds env (time_sub resetsAt now)
            in Some \<lparr>ProgLimitUSD = l, ProgUsedUSD = used,
                 ProgRemainingUSD = if flt remaining (Fin 0) then Fin 0 else remaining, ProgPercentage = percentage,
                 ProgWindowStart = start, ProgResetsAt = resetsAt,
                 ProgResetsInSeconds = if resetsIn < 0 then 0 else resetsIn\<rparr>
      | _ \<Rightarrow> None)"

record SubscriptionProgress =
  ProgID :: int64
  ProgPlanID :: int64
  ProgStartsAt :: gtime
  ProgExpiresAt :: gtime
  ProgStatus :: string
  ProgExpiresInDays :: int
  ProgDaily :: "UsageWindowProgress option"
  ProgWeekly :: "UsageWindowProgress option"
  ProgMonthly :: "UsageWindowProgress option"

definition calculateProgress :: "'z go_env_scheme \<Rightarrow> Location \<Rightarrow> gtime \<Rightarrow> UserSubscription \<Rightarrow> SubscriptionProgress" where
  "calculateProgress env loc now s =
     \<lparr>ProgID = SubID s, ProgPlanID = SubPlanID s, ProgStartsAt = SubStartsAt s, ProgExpiresAt = SubExpiresAt s,
      ProgStatus = EffectiveStatus now s, ProgExpiresInDays = daysRemainingAt now s,
      ProgDaily = normalizedWindowProgress env now (DailyLimitUSD s) (DailyUsageUSD s) (DailyResetTime loc s) (DailyWindowStart s)
        subscriptionDailyWindow,
      ProgWeekly = normalizedWindowProgress env now (WeeklyLimitUSD s) (WeeklyUsageUSD s) (WeeklyResetTime s) (WeeklyWindowStart s)
        subscriptionWeeklyWindow,
      ProgMonthly = normalizedWindowProgress env now (MonthlyLimitUSD s) (MonthlyUsageUSD s) (MonthlyResetTime s)
        (MonthlyWindowStart s) subscriptionMonthlyWindow\<rparr>"

section \<open>Properties\<close>

subsection \<open>Days of a zone with one offset\<close>

lemma StartOfDay_bounds: "tx loc = [] \<Longrightarrow> StartOfDay loc t \<le> t \<and> t < StartOfDay loc t + day_length"
  using day_of_bounds [of loc t] by (simp add: StartOfDay_def Date_fixed algebra_simps)

lemma StartOfDay_idem: "tx loc = [] \<Longrightarrow> StartOfDay loc (StartOfDay loc t) = StartOfDay loc t"
  by (simp add: StartOfDay_def day_of_Date)

lemma StartOfDay_mono: "tx loc = [] \<Longrightarrow> t \<le> u \<Longrightarrow> StartOfDay loc t \<le> StartOfDay loc u"
  by (simp add: StartOfDay_def Date_fixed day_of_def zdiv_mono1)

lemma next_day: "tx loc = [] \<Longrightarrow> AddDays loc (StartOfDay loc t) 1 = StartOfDay loc t + day_length"
  by (simp add: StartOfDay_def AddDays_Date)

lemma later_day:
  assumes "tx loc = []"
  shows "StartOfDay loc t < StartOfDay loc u \<longleftrightarrow> StartOfDay loc t + day_length \<le> u"
proof
  assume "StartOfDay loc t < StartOfDay loc u"
  then have "day_of loc t < day_of loc u"
    using assms day_length_pos(1) by (auto simp: StartOfDay_def Date_fixed mult_less_cancel_right_disj)
  then have "(day_of loc t + 1) * day_length \<le> day_of loc u * day_length" by (intro mult_right_mono) auto
  then show "StartOfDay loc t + day_length \<le> u"
    using StartOfDay_bounds [OF assms, of u] assms by (simp add: StartOfDay_def Date_fixed algebra_simps)
next
  assume "StartOfDay loc t + day_length \<le> u"
  then have "StartOfDay loc (StartOfDay loc t + day_length) \<le> StartOfDay loc u" by (rule StartOfDay_mono [OF assms])
  moreover have "StartOfDay loc (StartOfDay loc t + day_length) = StartOfDay loc t + day_length"
    using assms by (simp add: StartOfDay_def Date_fixed day_of_def div_add_self2 distrib_right algebra_simps)
  ultimately show "StartOfDay loc t < StartOfDay loc u" using day_length_pos(1) by linarith
qed

lemma window_lengths: "subscriptionDailyWindow = day_length" "subscriptionWeeklyWindow = 7 * day_length"
  "subscriptionMonthlyWindow = 30 * day_length"
  by (simp_all add: windows day_length_def)

subsection \<open>Maintenance\<close>

text \<open>What a call on a fresh copy leaves in the row.\<close>

definition maintained :: "Location \<Rightarrow> gtime \<Rightarrow> UserSubscription \<Rightarrow> UserSubscription" where
  "maintained loc now s =
     (let a = WindowActivationAt loc now s; today = StartOfDay loc now;
          d = NeedsDailyResetAt loc now s; w = NeedsWeeklyResetAt loc now s; m = NeedsMonthlyResetAt loc now s
      in s\<lparr>DailyWindowStart := if ActDaily a \<or> d then Some today else DailyWindowStart s,
           WeeklyWindowStart := if ActWeekly a \<or> w then Some today else WeeklyWindowStart s,
           MonthlyWindowStart := if ActMonthly a \<or> m then Some today else MonthlyWindowStart s,
           DailyUsageUSD := if d then Fin 0 else DailyUsageUSD s,
           WeeklyUsageUSD := if w then Fin 0 else WeeklyUsageUSD s,
           MonthlyUsageUSD := if m then Fin 0 else MonthlyUsageUSD s\<rparr>)"

lemma automatic_start: "automaticDailyWindowStartAt loc now s = Some t \<Longrightarrow> t = StartOfDay loc now"
  by (auto simp: automaticDailyWindowStartAt_def Let_def split: option.splits if_splits)

lemma activation_none:
  "ActDaily (WindowActivationAt loc now s) \<Longrightarrow> DailyWindowStart s = None"
  "ActWeekly (WindowActivationAt loc now s) \<Longrightarrow> WeeklyWindowStart s = None"
  "ActMonthly (WindowActivationAt loc now s) \<Longrightarrow> MonthlyWindowStart s = None"
  by (auto simp: WindowActivationAt_def Let_def split: if_splits)

lemma needs_started:
  "NeedsDailyResetAt loc now s \<Longrightarrow> DailyWindowStart s \<noteq> None"
  "NeedsWeeklyResetAt loc now s \<Longrightarrow> WeeklyWindowStart s \<noteq> None"
  "NeedsMonthlyResetAt loc now s \<Longrightarrow> MonthlyWindowStart s \<noteq> None"
  by (auto simp: NeedsDailyResetAt_def automaticDailyWindowStartAt_def NeedsWeeklyResetAt_def NeedsMonthlyResetAt_def split: option.splits)

text \<open>The windows do not depend on each other.\<close>

lemma can_start_frame:
  "SubExpiresAt s' = SubExpiresAt s \<Longrightarrow> WeeklyLimitUSD s' = WeeklyLimitUSD s \<Longrightarrow> MonthlyLimitUSD s' = MonthlyLimitUSD s \<Longrightarrow>
   canStartQuotaWindow s' = canStartQuotaWindow s"
  by (simp add: canStartQuotaWindow_def CanStartFullQuotaWindow_def hasFiniteOuterQuotaLimit_def fun_eq_iff)

lemma one_time_frame:
  "SubExpiresAt s' = SubExpiresAt s \<Longrightarrow> SubStartsAt s' = SubStartsAt s \<Longrightarrow> HasOneTimeDailyQuota loc s' = HasOneTimeDailyQuota loc s"
  by (simp add: HasOneTimeDailyQuota_def)

lemma needs_frame [simp]:
  "NeedsWeeklyResetAt loc now (reset_daily t s) = NeedsWeeklyResetAt loc now s"
  "NeedsMonthlyResetAt loc now (reset_daily t s) = NeedsMonthlyResetAt loc now s"
  "NeedsMonthlyResetAt loc now (reset_weekly t s) = NeedsMonthlyResetAt loc now s"
  using can_start_frame [of "reset_daily t s" s] can_start_frame [of "reset_weekly t s" s]
  by (simp_all add: NeedsWeeklyResetAt_def NeedsMonthlyResetAt_def reset_daily_def reset_weekly_def cong: option.case_cong)

lemma ensure_row: "EnsureWindowMaintenance loc now s (Some s) = (Inr (maintained loc now s), Some (maintained loc now s))"
proof -
  let ?a = "WindowActivationAt loc now s"
  define t where "t = StartOfDay loc now"
  define row where "row = s\<lparr>DailyWindowStart := if ActDaily ?a then Some t else DailyWindowStart s,
        WeeklyWindowStart := if ActWeekly ?a then Some t else WeeklyWindowStart s,
        MonthlyWindowStart := if ActMonthly ?a then Some t else MonthlyWindowStart s\<rparr>"
  have act: "CheckAndActivateWindow loc now s (Some s) = (Inr (), Some row)"
    by (auto simp: CheckAndActivateWindow_def ActivateWindows_def row_write_def Let_def row_def t_def ActivationAny_def)
  define s2 where "s2 = (if NeedsDailyResetAt loc now s then reset_daily t s else s)"
  define row2 where "row2 = (if NeedsDailyResetAt loc now s then reset_daily t row else row)"
  have daily: "daily_maintenance loc now s (Some row) = (Inr s2, Some row2)"
    using activation_none(1) [of loc now s] needs_started(1) [of loc now s] automatic_start [of loc now s]
    by (auto simp: daily_maintenance_def ResetDailyUsage_def row_write_def s2_def row2_def NeedsDailyResetAt_def t_def row_def
        split: option.splits)
  define s3 where "s3 = (if NeedsWeeklyResetAt loc now s then reset_weekly t s2 else s2)"
  define row3 where "row3 = (if NeedsWeeklyResetAt loc now s then reset_weekly t row2 else row2)"
  have n2: "NeedsWeeklyResetAt loc now s2 = NeedsWeeklyResetAt loc now s" by (simp add: s2_def)
  have weekly: "weekly_maintenance loc now s2 (Some row2) = (Inr s3, Some row3)"
    using activation_none(2) [of loc now s] needs_started(2) [of loc now s] n2
    by (auto simp: weekly_maintenance_def ResetWeeklyUsage_def row_write_def s3_def row3_def t_def [symmetric])
       (auto simp: s2_def row2_def row_def reset_daily_def)
  have n3: "NeedsMonthlyResetAt loc now s3 = NeedsMonthlyResetAt loc now s" by (simp add: s2_def s3_def)
  have start: "MonthlyWindowStart s3 = MonthlyWindowStart s" by (simp add: s2_def s3_def reset_daily_def reset_weekly_def)
  have row_start: "MonthlyWindowStart row3 = MonthlyWindowStart s" if "NeedsMonthlyResetAt loc now s"
    using needs_started(3) [OF that] activation_none(3) [of loc now s]
    by (auto simp: row3_def row2_def row_def reset_daily_def reset_weekly_def)
  have final: "(if NeedsMonthlyResetAt loc now s then reset_monthly t row3 else row3) = maintained loc now s"
    unfolding maintained_def Let_def t_def [symmetric]
    by (cases "NeedsDailyResetAt loc now s"; cases "NeedsWeeklyResetAt loc now s"; cases "NeedsMonthlyResetAt loc now s")
       (simp_all add: row3_def row2_def row_def reset_daily_def reset_weekly_def reset_monthly_def)
  have monthly: "snd (monthly_maintenance loc now s3 (Some row3)) = Some (maintained loc now s) \<and>
      (\<exists>s4. fst (monthly_maintenance loc now s3 (Some row3)) = Inr s4)"
    using row_start unfolding final [symmetric]
    by (simp add: monthly_maintenance_def n3 start ResetMonthlyUsage_def row_write_def t_def [symmetric])
  then obtain s4 where "monthly_maintenance loc now s3 (Some row3) = (Inr s4, Some (maintained loc now s))"
    by (metis prod.collapse)
  then show ?thesis by (simp add: EnsureWindowMaintenance_def checkAndResetWindowsAt_def act daily weekly)
qed

lemma maintained_frame [simp]:
  "SubExpiresAt (maintained loc now s) = SubExpiresAt s" "SubStartsAt (maintained loc now s) = SubStartsAt s"
  "DailyLimitUSD (maintained loc now s) = DailyLimitUSD s" "WeeklyLimitUSD (maintained loc now s) = WeeklyLimitUSD s"
  "MonthlyLimitUSD (maintained loc now s) = MonthlyLimitUSD s"
  by (simp_all add: maintained_def Let_def)

lemma maintained_can_start [simp]:
  "canStartQuotaWindow (maintained loc now s) = canStartQuotaWindow s"
  "HasOneTimeDailyQuota loc (maintained loc' now s) = HasOneTimeDailyQuota loc s"
  "HasQuotaLimit (maintained loc now s) = HasQuotaLimit s"
proof -
  show "canStartQuotaWindow (maintained loc now s) = canStartQuotaWindow s" by (rule can_start_frame) simp_all
  show "HasOneTimeDailyQuota loc (maintained loc' now s) = HasOneTimeDailyQuota loc s" by (rule one_time_frame) simp_all
qed (simp add: HasQuotaLimit_def)

lemma maintained_settled:
  assumes "tx loc = []"
  shows "\<not> NeedsDailyResetAt loc now (maintained loc now s)" "\<not> NeedsWeeklyResetAt loc now (maintained loc now s)"
    "\<not> NeedsMonthlyResetAt loc now (maintained loc now s)" "\<not> NeedsWindowActivationAt loc now (maintained loc now s)"
proof -
  have today: "StartOfDay loc (StartOfDay loc now) = StartOfDay loc now" "now < StartOfDay loc now + 7 * day_length"
      "now < StartOfDay loc now + 30 * day_length"
    using StartOfDay_idem [OF assms] StartOfDay_bounds [OF assms, of now] day_length_pos(1) by auto
  show "\<not> NeedsDailyResetAt loc now (maintained loc now s)"
  proof (cases "ActDaily (WindowActivationAt loc now s) \<or> NeedsDailyResetAt loc now s")
    case True
    then show ?thesis using today by (auto simp: NeedsDailyResetAt_def automaticDailyWindowStartAt_def maintained_def Let_def)
  next
    case False
    then have "DailyWindowStart (maintained loc now s) = DailyWindowStart s" by (simp add: maintained_def Let_def)
    then have "automaticDailyWindowStartAt loc now (maintained loc now s) = automaticDailyWindowStartAt loc now s"
      by (simp add: automaticDailyWindowStartAt_def cong: option.case_cong if_cong)
    then show ?thesis using False by (simp add: NeedsDailyResetAt_def)
  qed
  show "\<not> NeedsWeeklyResetAt loc now (maintained loc now s)"
  proof (cases "ActWeekly (WindowActivationAt loc now s) \<or> NeedsWeeklyResetAt loc now s")
    case True
    then have "WeeklyWindowStart (maintained loc now s) = Some (StartOfDay loc now)" by (auto simp: maintained_def Let_def)
    then show ?thesis using today by (simp add: NeedsWeeklyResetAt_def window_lengths)
  next
    case False
    then have "WeeklyWindowStart (maintained loc now s) = WeeklyWindowStart s" by (simp add: maintained_def Let_def)
    then show ?thesis using False by (simp add: NeedsWeeklyResetAt_def cong: option.case_cong if_cong)
  qed
  show "\<not> NeedsMonthlyResetAt loc now (maintained loc now s)"
  proof (cases "ActMonthly (WindowActivationAt loc now s) \<or> NeedsMonthlyResetAt loc now s")
    case True
    then have "MonthlyWindowStart (maintained loc now s) = Some (StartOfDay loc now)" by (auto simp: maintained_def Let_def)
    then show ?thesis using today by (simp add: NeedsMonthlyResetAt_def window_lengths)
  next
    case False
    then have "MonthlyWindowStart (maintained loc now s) = MonthlyWindowStart s" by (simp add: maintained_def Let_def)
    then show ?thesis using False by (simp add: NeedsMonthlyResetAt_def cong: option.case_cong if_cong)
  qed
  have "ActDaily (WindowActivationAt loc now s) \<longleftrightarrow> HasQuotaLimit s \<and> \<not> now < SubStartsAt s \<and> now < SubExpiresAt s \<and>
       positiveSubscriptionLimit (DailyLimitUSD s) \<and> DailyWindowStart s = None \<and>
       (HasOneTimeDailyQuota loc s \<or> canStartQuotaWindow s (StartOfDay loc now) subscriptionDailyWindow)"
    "ActWeekly (WindowActivationAt loc now s) \<longleftrightarrow> HasQuotaLimit s \<and> \<not> now < SubStartsAt s \<and> now < SubExpiresAt s \<and>
       positiveSubscriptionLimit (WeeklyLimitUSD s) \<and> WeeklyWindowStart s = None \<and>
       canStartQuotaWindow s (StartOfDay loc now) subscriptionWeeklyWindow"
    "ActMonthly (WindowActivationAt loc now s) \<longleftrightarrow> HasQuotaLimit s \<and> \<not> now < SubStartsAt s \<and> now < SubExpiresAt s \<and>
       positiveSubscriptionLimit (MonthlyLimitUSD s) \<and> MonthlyWindowStart s = None \<and>
       canStartQuotaWindow s (StartOfDay loc now) subscriptionMonthlyWindow" for s
    by (auto simp: WindowActivationAt_def Let_def)
  note act = this
  show "\<not> NeedsWindowActivationAt loc now (maintained loc now s)"
    unfolding NeedsWindowActivationAt_def ActivationAny_def act maintained_can_start maintained_frame
    by (auto simp: maintained_def Let_def act split: if_splits)
qed

text \<open>C3. The pre-check and the maintenance agree.  In a zone with one offset, for a subscription in effect, the maintenance
  of a fresh copy succeeds, after it the row needs no reset and no activation at that instant, and the limits decide
  on the row as the pre-check decided on the copy.\<close>

theorem maintenance_settles:
  assumes "tx loc = []" "EffectiveStatus now s = SubscriptionStatusActive"
  shows "\<exists>s'. EnsureWindowMaintenance loc now s (Some s) = (Inr s', Some s') \<and>
    \<not> NeedsDailyResetAt loc now s' \<and> \<not> NeedsWeeklyResetAt loc now s' \<and> \<not> NeedsMonthlyResetAt loc now s' \<and>
    \<not> NeedsWindowActivationAt loc now s' \<and>
    checkSubscriptionUsageLimits env s' (Fin 0) = fst (snd (ValidateAndCheckLimits env loc now s)) \<and>
    (\<not> fst (ValidateAndCheckLimits env loc now s) \<longrightarrow> s' = s)"
proof (intro exI conjI impI)
  show "EnsureWindowMaintenance loc now s (Some s) = (Inr (maintained loc now s), Some (maintained loc now s))" by (rule ensure_row)
  have pre: "ValidateAndCheckLimits env loc now s =
      (NeedsDailyResetAt loc now s \<or> NeedsWeeklyResetAt loc now s \<or> NeedsMonthlyResetAt loc now s \<or> NeedsWindowActivationAt loc now s,
       checkSubscriptionUsageLimits env (s\<lparr>DailyUsageUSD := if NeedsDailyResetAt loc now s then Fin 0 else DailyUsageUSD s,
         WeeklyUsageUSD := if NeedsWeeklyResetAt loc now s then Fin 0 else WeeklyUsageUSD s,
         MonthlyUsageUSD := if NeedsMonthlyResetAt loc now s then Fin 0 else MonthlyUsageUSD s\<rparr>) (Fin 0),
       s\<lparr>DailyUsageUSD := if NeedsDailyResetAt loc now s then Fin 0 else DailyUsageUSD s,
         WeeklyUsageUSD := if NeedsWeeklyResetAt loc now s then Fin 0 else WeeklyUsageUSD s,
         MonthlyUsageUSD := if NeedsMonthlyResetAt loc now s then Fin 0 else MonthlyUsageUSD s\<rparr>)"
    unfolding ValidateAndCheckLimits_def assms(2) Let_def by (simp add: sub_status)
  show "checkSubscriptionUsageLimits env (maintained loc now s) (Fin 0) = fst (snd (ValidateAndCheckLimits env loc now s))"
    unfolding pre by (simp add: checkSubscriptionUsageLimits_def maintained_def Let_def)
  show "maintained loc now s = s" if "\<not> fst (ValidateAndCheckLimits env loc now s)"
    using that unfolding pre by (auto simp: maintained_def Let_def NeedsWindowActivationAt_def ActivationAny_def)
qed (use maintained_settled [OF assms(1)] in auto)

subsection \<open>What the user is shown\<close>

lemma can_start_antitone: "canStartQuotaWindow s y d \<Longrightarrow> x \<le> y \<Longrightarrow> canStartQuotaWindow s x d"
  by (auto simp: canStartQuotaWindow_def CanStartFullQuotaWindow_def split: if_splits)

lemma can_start_before_expiry: "canStartQuotaWindow s x d \<Longrightarrow> x < SubExpiresAt s \<and> SubExpiresAt s \<noteq> zero_time"
  by (auto simp: canStartQuotaWindow_def split: if_splits)

lemma same_day: "tx loc = [] \<Longrightarrow> StartOfDay loc t = t \<Longrightarrow> t \<le> u \<Longrightarrow> u < t + day_length \<Longrightarrow> StartOfDay loc u = t"
  using later_day [of loc t u] StartOfDay_mono [of loc t u] by auto

lemma aligned_shift: "tx loc = [] \<Longrightarrow> StartOfDay loc t = t \<Longrightarrow> StartOfDay loc (t + n * day_length) = t + n * day_length"
proof -
  assume loc: "tx loc = []" and t: "StartOfDay loc t = t"
  have "day_of loc (t + n * day_length) = day_of loc t + n"
    using loc div_mult_self1 [OF day_length_pos(3), of "t + base_offset loc" n] by (simp add: day_of_def algebra_simps)
  then show ?thesis using t loc by (simp add: StartOfDay_def Date_fixed algebra_simps)
qed

lemma long_window_shown:
  assumes "tx loc = []" "StartOfDay loc start = start" "t = (if canStartQuotaWindow s (start + n * day_length) d
      then start + n * day_length else SubExpiresAt s)" "now < SubExpiresAt s"
  shows "now < t \<Longrightarrow> \<not> (\<not> now < start + n * day_length \<and> canStartQuotaWindow s (StartOfDay loc now) d)"
    and "t \<le> now \<Longrightarrow> now < t + day_length \<Longrightarrow> \<not> now < start + n * day_length \<and> canStartQuotaWindow s (StartOfDay loc now) d"
proof -
  let ?b = "start + n * day_length"
  have b: "StartOfDay loc ?b = ?b" using assms(1,2) by (rule aligned_shift)
  show "\<not> (\<not> now < ?b \<and> canStartQuotaWindow s (StartOfDay loc now) d)" if "now < t"
  proof (cases "canStartQuotaWindow s ?b d")
    case False
    have "?b \<le> StartOfDay loc now" if "\<not> now < ?b"
      using StartOfDay_mono [OF assms(1), of ?b now] that by (simp add: b)
    then show ?thesis using can_start_antitone [of s "StartOfDay loc now" d ?b] False by blast
  qed (use that assms(3) in simp)
  show "\<not> now < ?b \<and> canStartQuotaWindow s (StartOfDay loc now) d" if "t \<le> now" "now < t + day_length"
  proof -
    have "canStartQuotaWindow s ?b d" using assms(3,4) that(1) by (auto split: if_splits)
    then have t: "t = ?b" "canStartQuotaWindow s t d" using assms(3) by auto
    then have "StartOfDay loc now = t" using same_day [OF assms(1) b, of now] that by simp
    then show ?thesis using t that by simp
  qed
qed

lemma daily_shown:
  assumes "tx loc = []" "DailyResetTime loc s = Some t" "\<not> HasOneTimeDailyQuota loc s" "SubExpiresAt s \<noteq> zero_time" "now < SubExpiresAt s"
  shows "(now < t \<longrightarrow> \<not> NeedsDailyResetAt loc now s) \<and> (t \<le> now \<and> now < t + day_length \<longrightarrow> NeedsDailyResetAt loc now s)"
proof -
  obtain start where start: "DailyWindowStart s = Some start" using assms(2) by (auto simp: DailyResetTime_def split: option.splits)
  define b where "b = StartOfDay loc start"
  have t: "t = (if canStartQuotaWindow s (b + 1 * day_length) subscriptionDailyWindow then b + 1 * day_length else SubExpiresAt s)"
    using assms(2,3) start next_day [OF assms(1), of start] by (auto simp: DailyResetTime_def Let_def b_def)
  have "StartOfDay loc b = b" unfolding b_def by (rule StartOfDay_idem [OF assms(1)])
  note shown = long_window_shown [OF assms(1) this t assms(5)]
  have "NeedsDailyResetAt loc now s \<longleftrightarrow> \<not> now < b + 1 * day_length \<and> canStartQuotaWindow s (StartOfDay loc now) subscriptionDailyWindow"
    using start assms(3,4,5) later_day [OF assms(1), of start now]
    by (auto simp: NeedsDailyResetAt_def automaticDailyWindowStartAt_def Let_def b_def)
  then show ?thesis using shown by blast
qed

lemma weekly_shown:
  assumes "tx loc = []" "WeeklyWindowStart s = Some start" "StartOfDay loc start = start" "WeeklyResetTime s = Some t"
    "SubExpiresAt s \<noteq> zero_time" "now < SubExpiresAt s"
  shows "(now < t \<longrightarrow> \<not> NeedsWeeklyResetAt loc now s) \<and> (t \<le> now \<and> now < t + day_length \<longrightarrow> NeedsWeeklyResetAt loc now s)"
proof -
  have t: "t = (if canStartQuotaWindow s (start + 7 * day_length) subscriptionWeeklyWindow then start + 7 * day_length else SubExpiresAt s)"
    using assms(2,4) by (auto simp: WeeklyResetTime_def Let_def window_lengths)
  have "NeedsWeeklyResetAt loc now s \<longleftrightarrow> \<not> now < start + 7 * day_length \<and> canStartQuotaWindow s (StartOfDay loc now) subscriptionWeeklyWindow"
    using assms(2,5,6) by (auto simp: NeedsWeeklyResetAt_def window_lengths)
  then show ?thesis using long_window_shown [OF assms(1,3) t assms(6)] by blast
qed

lemma monthly_shown:
  assumes "tx loc = []" "MonthlyWindowStart s = Some start" "StartOfDay loc start = start" "MonthlyResetTime s = Some t"
    "SubExpiresAt s \<noteq> zero_time" "now < SubExpiresAt s"
  shows "(now < t \<longrightarrow> \<not> NeedsMonthlyResetAt loc now s) \<and> (t \<le> now \<and> now < t + day_length \<longrightarrow> NeedsMonthlyResetAt loc now s)"
proof -
  have t: "t = (if canStartQuotaWindow s (start + 30 * day_length) subscriptionMonthlyWindow then start + 30 * day_length else SubExpiresAt s)"
    using assms(2,4) by (auto simp: MonthlyResetTime_def Let_def window_lengths)
  have "NeedsMonthlyResetAt loc now s \<longleftrightarrow> \<not> now < start + 30 * day_length \<and> canStartQuotaWindow s (StartOfDay loc now) subscriptionMonthlyWindow"
    using assms(2,5,6) by (auto simp: NeedsMonthlyResetAt_def window_lengths)
  then show ?thesis using long_window_shown [OF assms(1,3) t assms(6)] by blast
qed

text \<open>The reset times a user is shown are the times at which the windows reset: before the shown instant no reset is due, and
  during the day that starts with it one is, as long as the subscription has not expired.  The daily window may have
  any start; the weekly and the monthly one start at the beginning of a day, as every window the code opens does.\<close>

theorem shown_reset_times:
  assumes "tx loc = []" "SubExpiresAt s \<noteq> zero_time" "now < SubExpiresAt s"
  shows "(DailyResetTime loc s = Some t \<and> \<not> HasOneTimeDailyQuota loc s \<longrightarrow>
      (now < t \<longrightarrow> \<not> NeedsDailyResetAt loc now s) \<and> (t \<le> now \<and> now < t + day_length \<longrightarrow> NeedsDailyResetAt loc now s)) \<and>
    (WeeklyWindowStart s = Some start \<and> StartOfDay loc start = start \<and> WeeklyResetTime s = Some t \<longrightarrow>
      (now < t \<longrightarrow> \<not> NeedsWeeklyResetAt loc now s) \<and> (t \<le> now \<and> now < t + day_length \<longrightarrow> NeedsWeeklyResetAt loc now s)) \<and>
    (MonthlyWindowStart s = Some start \<and> StartOfDay loc start = start \<and> MonthlyResetTime s = Some t \<longrightarrow>
      (now < t \<longrightarrow> \<not> NeedsMonthlyResetAt loc now s) \<and> (t \<le> now \<and> now < t + day_length \<longrightarrow> NeedsMonthlyResetAt loc now s))"
  using daily_shown [OF assms(1) _ _ assms(2,3)] weekly_shown [OF assms(1) _ _ _ assms(2,3)]
    monthly_shown [OF assms(1) _ _ _ assms(2,3)] by blast

subsection \<open>Concurrent requests\<close>

text \<open>What concurrent requests do to the row: each reset with the copy and the clock of its own request, each charge.\<close>

datatype sub_op = DailyOp UserSubscription gtime | WeeklyOp UserSubscription gtime | MonthlyOp UserSubscription gtime | Charge float64

fun row_op :: "'z go_env_scheme \<Rightarrow> Location \<Rightarrow> sub_op \<Rightarrow> sub_row \<Rightarrow> sub_row" where
  "row_op env loc (DailyOp copy now) row = snd (daily_maintenance loc now copy row)"
| "row_op env loc (WeeklyOp copy now) row = snd (weekly_maintenance loc now copy row)"
| "row_op env loc (MonthlyOp copy now) row = snd (monthly_maintenance loc now copy row)"
| "row_op env loc (Charge c) row = snd (IncrementUsage env c row)"

fun charges :: "sub_op list \<Rightarrow> float64 list" where
  "charges [] = []"
| "charges (Charge c # ops) = c # charges ops"
| "charges (_ # ops) = charges ops"

text \<open>The clock of a reset is still within the three windows.\<close>

fun inside :: "Location \<Rightarrow> gtime \<Rightarrow> gtime \<Rightarrow> gtime \<Rightarrow> sub_op \<Rightarrow> bool" where
  "inside loc d w m (DailyOp _ now) = (now < d + day_length)"
| "inside loc d w m (WeeklyOp _ now) = (now < w + 7 * day_length)"
| "inside loc d w m (MonthlyOp _ now) = (now < m + 30 * day_length)"
| "inside loc d w m (Charge _) = True"

lemma no_reset_inside:
  assumes "tx loc = []" "StartOfDay loc d = d" "inside loc d w m op"
    "DailyWindowStart s = Some d" "WeeklyWindowStart s = Some w" "MonthlyWindowStart s = Some m" "SubDeletedAt s = None"
  shows "row_op env loc op (Some s) = Some (case op of
      Charge c \<Rightarrow> s\<lparr>DailyUsageUSD := fadd env (DailyUsageUSD s) c, WeeklyUsageUSD := fadd env (WeeklyUsageUSD s) c,
        MonthlyUsageUSD := fadd env (MonthlyUsageUSD s) c\<rparr>
    | _ \<Rightarrow> s)"
proof (cases op)
  case (DailyOp copy now)
  have "DailyWindowStart copy \<noteq> Some d" if "automaticDailyWindowStartAt loc now copy \<noteq> None"
    using that later_day [OF assms(1), of d now] assms(2,3) DailyOp
    by (auto simp: automaticDailyWindowStartAt_def Let_def split: option.splits if_splits)
  then show ?thesis using assms(4) DailyOp
    by (auto simp: daily_maintenance_def ResetDailyUsage_def row_write_def split: option.splits)
next
  case (WeeklyOp copy now)
  have "WeeklyWindowStart copy \<noteq> Some w" if "NeedsWeeklyResetAt loc now copy"
    using that assms(3) WeeklyOp by (auto simp: NeedsWeeklyResetAt_def window_lengths split: if_splits)
  then show ?thesis using assms(5) WeeklyOp
    by (auto simp: weekly_maintenance_def ResetWeeklyUsage_def row_write_def)
next
  case (MonthlyOp copy now)
  have "MonthlyWindowStart copy \<noteq> Some m" if "NeedsMonthlyResetAt loc now copy"
    using that assms(3) MonthlyOp by (auto simp: NeedsMonthlyResetAt_def window_lengths split: if_splits)
  then show ?thesis using assms(6) MonthlyOp
    by (auto simp: monthly_maintenance_def ResetMonthlyUsage_def row_write_def)
next
  case (Charge c)
  then show ?thesis using assms(7) by (simp add: IncrementUsage_def)
qed


definition demo_sub :: UserSubscription where
  "demo_sub = \<lparr>SubID = 1, SubUserID = 2, SubPlanID = 3, SubStartsAt = 10 * day_length, SubExpiresAt = 40 * day_length,
     SubStatus = SubscriptionStatusActive, DailyWindowStart = Some (10 * day_length), WeeklyWindowStart = Some (10 * day_length),
     MonthlyWindowStart = Some (10 * day_length), DailyLimitUSD = Some (Fin 5), WeeklyLimitUSD = Some (Fin 20),
     MonthlyLimitUSD = None, DailyUsageUSD = Fin 4, WeeklyUsageUSD = Fin 6, MonthlyUsageUSD = Fin 6,
     SubAssignedBy = None, SubAssignedAt = 10 * day_length, SubSourceOrderID = None, SubNotes = [],
     SubCreatedAt = 10 * day_length, SubUpdatedAt = 10 * day_length, SubDeletedAt = None\<rparr>"

lemma demo_utc: "tx UTC = []" "StartOfDay UTC (n * day_length) = n * day_length" "StartOfDay UTC (n * day_length + hour) = n * day_length"
proof -
  show "tx UTC = []" by (simp add: UTC_def)
  have "(n * day_length + hour) div day_length = n" using day_length_pos by (simp add: div_mult_self3)
  then show "StartOfDay UTC (n * day_length) = n * day_length" "StartOfDay UTC (n * day_length + hour) = n * day_length"
    by (simp_all add: StartOfDay_def Date_fixed day_of_def UTC_def)
qed

lemma demo_active: "EffectiveStatus (11 * day_length + hour) demo_sub = SubscriptionStatusActive"
  by (simp add: EffectiveStatus_def demo_sub_def sub_status day_length_def hour_def minute_def second_def)

theorem maintenance_settles_witness:
  "\<exists>s'. EnsureWindowMaintenance UTC (11 * day_length + hour) demo_sub (Some demo_sub) = (Inr s', Some s') \<and>
     \<not> NeedsDailyResetAt UTC (11 * day_length + hour) s' \<and> checkSubscriptionUsageLimits demo_go_env s' (Fin 0) = None"
proof -
  have "fst (snd (ValidateAndCheckLimits demo_go_env UTC (11 * day_length + hour) demo_sub)) = None"
    unfolding ValidateAndCheckLimits_def demo_active Let_def
    by (simp add: sub_status checkSubscriptionUsageLimits_def subscriptionWindowLimitExceeded_def demo_sub_def)
  with maintenance_settles [OF demo_utc(1) demo_active, of demo_go_env] show ?thesis by auto
qed

theorem shown_reset_times_witness:
  "NeedsDailyResetAt UTC (11 * day_length + hour) demo_sub \<and> \<not> NeedsDailyResetAt UTC (10 * day_length + hour) demo_sub"
proof -
  have once: "\<not> HasOneTimeDailyQuota UTC demo_sub"
    by (simp add: HasOneTimeDailyQuota_def demo_sub_def AddDays_def Date_fixed UTC_def day_of_def clock_of_def
        day_length_def hour_def minute_def second_def zero_time_def)
  have "canStartQuotaWindow demo_sub (11 * day_length) subscriptionDailyWindow"
    by (simp add: canStartQuotaWindow_def CanStartFullQuotaWindow_def demo_sub_def windows day_length_def hour_def minute_def second_def
        zero_time_def)
  then have shown: "DailyResetTime UTC demo_sub = Some (11 * day_length)"
    using once next_day [OF demo_utc(1), of "10 * day_length"]
    by (simp add: DailyResetTime_def Let_def demo_utc(2)) (simp add: demo_sub_def demo_utc(2))
  have e: "SubExpiresAt demo_sub \<noteq> zero_time" "11 * day_length + hour < SubExpiresAt demo_sub" "10 * day_length + hour < SubExpiresAt demo_sub"
    by (simp_all add: demo_sub_def day_length_def hour_def minute_def second_def zero_time_def)
  show ?thesis
    using shown_reset_times [OF demo_utc(1) e(1,2), of "11 * day_length" 0] shown_reset_times [OF demo_utc(1) e(1,3), of "11 * day_length" 0]
      shown once day_length_pos by (auto simp: day_length_def)
qed


text \<open>A weekly window that does not start at the beginning of a day: the user is shown the end of the subscription, and
  the window resets before it.\<close>

definition late_sub :: UserSubscription where
  "late_sub = demo_sub\<lparr>SubStartsAt := 3 * hour, SubExpiresAt := 14 * day_length, WeeklyWindowStart := Some (3 * hour)\<rparr>"

theorem weekly_reset_hidden:
  "WeeklyResetTime late_sub = Some (SubExpiresAt late_sub) \<and> NeedsWeeklyResetAt UTC (7 * day_length + 3 * hour) late_sub \<and>
   7 * day_length + 3 * hour < SubExpiresAt late_sub"
proof -
  have "(7 * day_length + 3 * hour) div day_length = 7" by (simp add: day_length_def hour_def minute_def second_def)
  then have "StartOfDay UTC (7 * day_length + 3 * hour) = 7 * day_length" by (simp add: StartOfDay_def Date_fixed day_of_def UTC_def)
  then show ?thesis
    by (simp add: WeeklyResetTime_def NeedsWeeklyResetAt_def late_sub_def demo_sub_def canStartQuotaWindow_def
        CanStartFullQuotaWindow_def hasFiniteOuterQuotaLimit_def positiveSubscriptionLimit_def windows day_length_def hour_def
        minute_def second_def zero_time_def)
qed

end
