(* ===== verification/Subscription_Chain.thy ===== *)
theory Subscription_Chain
  imports Subscription "HOL-Library.Product_Lexorder"
begin

text \<open>
  The subscriptions of a user to one plan form a chain: a grant is queued behind the latest one, and revoking,
  extending or shortening one moves the later ones along (\<^verbatim>\<open>service/subscription_service.go\<close> over
  \<^verbatim>\<open>repository/user_subscription_repo.go\<close>).  The table holds the deleted rows too; \<open>live\<close> rows are those the queries of
  the repository see.  An operation is one transaction: with an error it leaves the table as it was.  Its readings
  of the clock are arguments, in the order of the code; dates are added in the zone of the process.  Errors
  of the database driver are left out.
\<close>

section \<open>The table\<close>

record api_key_binding =
  KeyBillingMode :: string
  KeyPreferredSubscriptionID :: "int64 option"
  KeyDeletedAt :: "gtime option"
  KeyUpdatedAt :: gtime

record sub_db =
  sub_rows :: "UserSubscription list"
  sub_next :: int64
  key_rows :: "api_key_binding list"

definition live :: "UserSubscription \<Rightarrow> bool" where
  "live s \<longleftrightarrow> SubDeletedAt s = None"

definition sub_Create :: "gtime \<Rightarrow> UserSubscription \<Rightarrow> sub_db \<Rightarrow> int64 \<times> sub_db" where
  "sub_Create now sub db =
     (let sid = sub_next db;
          row = sub\<lparr>SubID := sid, SubStartsAt := if IsZero (SubStartsAt sub) then now else SubStartsAt sub,
            SubStatus := if SubStatus sub \<noteq> [] then SubStatus sub else SubscriptionStatusActive,
            SubAssignedAt := if IsZero (SubAssignedAt sub) then now else SubAssignedAt sub,
            SubCreatedAt := now, SubUpdatedAt := now, SubDeletedAt := None\<rparr>
      in (sid, db\<lparr>sub_rows := sub_rows db @ [row], sub_next := sid + 1\<rparr>))"

definition sub_GetByID :: "int64 \<Rightarrow> sub_db \<Rightarrow> UserSubscription option" where
  "sub_GetByID sid db = find (\<lambda>s. SubID s = sid \<and> live s) (sub_rows db)"

definition GetByIDIncludeDeleted :: "int64 \<Rightarrow> sub_db \<Rightarrow> UserSubscription option" where
  "GetByIDIncludeDeleted sid db = find (\<lambda>s. SubID s = sid) (sub_rows db)"

definition in_chain :: "int64 \<Rightarrow> int64 \<Rightarrow> UserSubscription \<Rightarrow> bool" where
  "in_chain userID planID s \<longleftrightarrow> live s \<and> SubUserID s = userID \<and> SubPlanID s = planID"

definition GetLatestByUserIDAndPlanID :: "int64 \<Rightarrow> int64 \<Rightarrow> sub_db \<Rightarrow> UserSubscription option" where
  "GetLatestByUserIDAndPlanID userID planID db =
     (case sort_key (\<lambda>s. (- SubExpiresAt s, - SubCreatedAt s)) (filter (in_chain userID planID) (sub_rows db)) of
        [] \<Rightarrow> None | s # _ \<Rightarrow> Some s)"

definition ListByUserIDAndPlanID :: "int64 \<Rightarrow> int64 \<Rightarrow> sub_db \<Rightarrow> UserSubscription list" where
  "ListByUserIDAndPlanID userID planID db =
     sort_key (\<lambda>s. (SubStartsAt s, SubCreatedAt s)) (filter (in_chain userID planID) (sub_rows db))"

definition ListByUserID :: "int64 \<Rightarrow> sub_db \<Rightarrow> UserSubscription list" where
  "ListByUserID userID db =
     sort_key (\<lambda>s. (- SubExpiresAt s, - SubCreatedAt s)) (filter (\<lambda>s. live s \<and> SubUserID s = userID) (sub_rows db))"

definition ListActiveByUserID :: "gtime \<Rightarrow> int64 \<Rightarrow> sub_db \<Rightarrow> UserSubscription list" where
  "ListActiveByUserID now userID db =
     sort_key (\<lambda>s. (SubExpiresAt s, SubStartsAt s))
       (filter (\<lambda>s. live s \<and> SubUserID s = userID \<and> SubStartsAt s \<le> now \<and> now < SubExpiresAt s \<and>
          SubStatus s \<in> {SubscriptionStatusActive, SubscriptionStatusPending}) (sub_rows db))"

definition ListBySourceOrderID :: "int64 \<Rightarrow> sub_db \<Rightarrow> UserSubscription list" where
  "ListBySourceOrderID order db =
     sort_key (\<lambda>s. (SubStartsAt s, SubCreatedAt s)) (filter (\<lambda>s. live s \<and> SubSourceOrderID s = Some order) (sub_rows db))"

text \<open>Writes to a row by its identifier reach deleted rows as well: only deletions and queries are filtered.\<close>

definition update_row :: "int64 \<Rightarrow> (UserSubscription \<Rightarrow> UserSubscription) \<Rightarrow> sub_db \<Rightarrow> sub_db" where
  "update_row sid f db = db\<lparr>sub_rows := map (\<lambda>s. if SubID s = sid then f s else s) (sub_rows db)\<rparr>"

definition UpdateOneID :: "int64 \<Rightarrow> (UserSubscription \<Rightarrow> UserSubscription) \<Rightarrow> sub_db \<Rightarrow> sub_error + sub_db" where
  "UpdateOneID sid f db =
     (if GetByIDIncludeDeleted sid db = None then Inl ErrSubscriptionNotFound else Inr (update_row sid f db))"

definition nillable :: "'a option \<Rightarrow> 'a option \<Rightarrow> 'a option" where
  "nillable v old = (case v of None \<Rightarrow> old | Some _ \<Rightarrow> v)"

definition overwrite :: "gtime \<Rightarrow> UserSubscription \<Rightarrow> UserSubscription \<Rightarrow> UserSubscription" where
  "overwrite now sub row = row\<lparr>SubUserID := SubUserID sub, SubPlanID := SubPlanID sub, SubStartsAt := SubStartsAt sub,
     SubExpiresAt := SubExpiresAt sub, SubStatus := SubStatus sub,
     DailyWindowStart := nillable (DailyWindowStart sub) (DailyWindowStart row),
     WeeklyWindowStart := nillable (WeeklyWindowStart sub) (WeeklyWindowStart row),
     MonthlyWindowStart := nillable (MonthlyWindowStart sub) (MonthlyWindowStart row),
     DailyLimitUSD := nillable (DailyLimitUSD sub) (DailyLimitUSD row),
     WeeklyLimitUSD := nillable (WeeklyLimitUSD sub) (WeeklyLimitUSD row),
     MonthlyLimitUSD := nillable (MonthlyLimitUSD sub) (MonthlyLimitUSD row),
     DailyUsageUSD := DailyUsageUSD sub, WeeklyUsageUSD := WeeklyUsageUSD sub, MonthlyUsageUSD := MonthlyUsageUSD sub,
     SubAssignedBy := nillable (SubAssignedBy sub) (SubAssignedBy row), SubAssignedAt := SubAssignedAt sub,
     SubSourceOrderID := nillable (SubSourceOrderID sub) (SubSourceOrderID row), SubNotes := SubNotes sub,
     SubUpdatedAt := now\<rparr>"

definition sub_Update :: "gtime \<Rightarrow> UserSubscription \<Rightarrow> sub_db \<Rightarrow> sub_error + sub_db" where
  "sub_Update now sub db = UpdateOneID (SubID sub) (overwrite now sub) db"

definition sub_Delete :: "gtime \<Rightarrow> int64 \<Rightarrow> sub_db \<Rightarrow> sub_db" where
  "sub_Delete now sid db =
     update_row sid (\<lambda>s. if live s then s\<lparr>SubDeletedAt := Some now, SubUpdatedAt := now\<rparr> else s) db"

definition sub_Restore :: "gtime \<Rightarrow> int64 \<Rightarrow> string \<Rightarrow> sub_db \<Rightarrow> (sub_error + UserSubscription) \<times> sub_db" where
  "sub_Restore now sid restoredStatus db =
     (case UpdateOneID sid (\<lambda>s. s\<lparr>SubStatus := restoredStatus, SubDeletedAt := None, SubUpdatedAt := now\<rparr>) db of
        Inl e \<Rightarrow> (Inl e, db)
      | Inr db' \<Rightarrow> (case sub_GetByID sid db' of None \<Rightarrow> (Inl ErrSubscriptionNotFound, db') | Some s \<Rightarrow> (Inr s, db')))"

definition ExtendExpiry :: "gtime \<Rightarrow> int64 \<Rightarrow> gtime \<Rightarrow> sub_db \<Rightarrow> sub_error + sub_db" where
  "ExtendExpiry now sid newExpiresAt db = UpdateOneID sid (\<lambda>s. s\<lparr>SubExpiresAt := newExpiresAt, SubUpdatedAt := now\<rparr>) db"

definition UpdateStatus :: "gtime \<Rightarrow> int64 \<Rightarrow> string \<Rightarrow> sub_db \<Rightarrow> sub_error + sub_db" where
  "UpdateStatus now sid status db = UpdateOneID sid (\<lambda>s. s\<lparr>SubStatus := status, SubUpdatedAt := now\<rparr>) db"

definition BatchUpdateExpiredStatus :: "gtime \<Rightarrow> sub_db \<Rightarrow> sub_db" where
  "BatchUpdateExpiredStatus now db = db\<lparr>sub_rows := map (\<lambda>s.
     if SubStatus s \<in> {SubscriptionStatusActive, SubscriptionStatusPending} \<and> SubExpiresAt s \<le> now
     then s\<lparr>SubStatus := SubscriptionStatusExpired, SubUpdatedAt := now\<rparr> else s) (sub_rows db)\<rparr>"

text \<open>The plans a group admits: a plan without groups is open to every group.  \<open>groups\<close> gives the groups of a plan that
  exists.\<close>

definition FilterByGroup :: "(int64 \<Rightarrow> int64 list option) \<Rightarrow> UserSubscription list \<Rightarrow> int64 \<Rightarrow> UserSubscription list" where
  "FilterByGroup groups subs groupID =
     (if groupID \<le> 0 \<or> subs = [] then subs
      else filter (\<lambda>s. case groups (SubPlanID s) of None \<Rightarrow> False | Some gs \<Rightarrow> gs = [] \<or> groupID \<in> set gs) subs)"

section \<open>Granting\<close>

definition MaxExpiresAt :: gtime where
  "MaxExpiresAt = Date UTC 766643 (24 * hour - second)"

definition MaxValidityDays :: int where "MaxValidityDays = 36500"

record AssignSubscriptionInput =
  AssignUserID :: int64
  AssignPlanID :: int64
  ValidityDays :: int
  AssignDailyLimitUSD :: "float64 option"
  AssignWeeklyLimitUSD :: "float64 option"
  AssignMonthlyLimitUSD :: "float64 option"
  UseProvidedTemplate :: bool
  SourceOrderID :: "int64 option"
  AssignedBy :: int64
  AssignNotes :: string

record grantPlanTemplate =
  TplValidityDays :: int
  TplDailyLimitUSD :: "float64 option"
  TplWeeklyLimitUSD :: "float64 option"
  TplMonthlyLimitUSD :: "float64 option"

text \<open>The columns of a plan that a grant reads.\<close>

record plan_row =
  PlanValidityDays :: int
  PlanValidityUnit :: string
  PlanDailyLimitUSD :: "float64 option"
  PlanWeeklyLimitUSD :: "float64 option"
  PlanMonthlyLimitUSD :: "float64 option"

definition normalizeAssignValidityDays :: "int \<Rightarrow> int" where
  "normalizeAssignValidityDays days =
     (let days = (if days \<le> 0 then 30 else days) in if MaxValidityDays < days then MaxValidityDays else days)"

definition psComputeValidityDays :: "int \<Rightarrow> string \<Rightarrow> int" where
  "psComputeValidityDays days unit =
     (if unit \<in> {''week'', ''weeks''} then wrap64 (days * 7)
      else if unit \<in> {''month'', ''months''} then wrap64 (days * 30)
      else days)"

definition validatePlanQuotas :: "float64 option \<Rightarrow> float64 option \<Rightarrow> float64 option \<Rightarrow> bool" where
  "validatePlanQuotas d w m \<longleftrightarrow> list_all (\<lambda>limit. case limit of None \<Rightarrow> True | Some l \<Rightarrow> \<not> flt l (Fin 0)) [d, w, m]"

definition resolveGrantPlanTemplate :: "(int64 \<Rightarrow> plan_row option) \<Rightarrow> AssignSubscriptionInput \<Rightarrow> sub_error + grantPlanTemplate" where
  "resolveGrantPlanTemplate plans input =
     (if AssignPlanID input \<le> 0 then Inl ErrInvalidPlan
      else
        let checked = (\<lambda>t. if validatePlanQuotas (TplDailyLimitUSD t) (TplWeeklyLimitUSD t) (TplMonthlyLimitUSD t)
              then Inr t else Inl ErrPlanLimitInvalid) in
        if UseProvidedTemplate input then
          checked \<lparr>TplValidityDays = normalizeAssignValidityDays (ValidityDays input), TplDailyLimitUSD = AssignDailyLimitUSD input,
            TplWeeklyLimitUSD = AssignWeeklyLimitUSD input, TplMonthlyLimitUSD = AssignMonthlyLimitUSD input\<rparr>
        else
          (case plans (AssignPlanID input) of None \<Rightarrow> Inl ErrInvalidPlan | Some plan \<Rightarrow>
             checked \<lparr>TplValidityDays = (if 0 < ValidityDays input then normalizeAssignValidityDays (ValidityDays input)
                 else normalizeAssignValidityDays (psComputeValidityDays (PlanValidityDays plan) (PlanValidityUnit plan))),
               TplDailyLimitUSD = nillable (AssignDailyLimitUSD input) (PlanDailyLimitUSD plan),
               TplWeeklyLimitUSD = nillable (AssignWeeklyLimitUSD input) (PlanWeeklyLimitUSD plan),
               TplMonthlyLimitUSD = nillable (AssignMonthlyLimitUSD input) (PlanMonthlyLimitUSD plan)\<rparr>))"

definition normalizeSubscriptionStatus :: "gtime \<Rightarrow> UserSubscription list \<Rightarrow> UserSubscription list" where
  "normalizeSubscriptionStatus now = map (\<lambda>s. s\<lparr>SubStatus := EffectiveStatus now s\<rparr>)"

definition findSourceOrderSubscription :: "gtime \<Rightarrow> int64 option \<Rightarrow> sub_db \<Rightarrow> UserSubscription option" where
  "findSourceOrderSubscription now sourceOrderID db =
     (case sourceOrderID of None \<Rightarrow> None | Some order \<Rightarrow>
        if order \<le> 0 then None
        else (case normalizeSubscriptionStatus now (ListBySourceOrderID order db) of [] \<Rightarrow> None | s # _ \<Rightarrow> Some s))"

definition assignOrExtendSubscriptionUnlocked :: "Location \<Rightarrow> gtime \<Rightarrow> AssignSubscriptionInput \<Rightarrow> grantPlanTemplate \<Rightarrow> sub_db \<Rightarrow>
    (sub_error + UserSubscription \<times> bool) \<times> sub_db" where
  "assignOrExtendSubscriptionUnlocked loc now input template db =
     (let (startsAt, queued) = (case GetLatestByUserIDAndPlanID (AssignUserID input) (AssignPlanID input) db of
             None \<Rightarrow> (now, False)
           | Some latest \<Rightarrow> if now < SubExpiresAt latest then (SubExpiresAt latest, True) else (now, False));
          expiresAt = AddDays loc startsAt (TplValidityDays template);
          expiresAt = (if MaxExpiresAt < expiresAt then MaxExpiresAt else expiresAt);
          status = (if now < startsAt then SubscriptionStatusPending else SubscriptionStatusActive);
          sub = \<lparr>SubID = 0, SubUserID = AssignUserID input, SubPlanID = AssignPlanID input, SubStartsAt = startsAt,
            SubExpiresAt = expiresAt, SubStatus = status, DailyWindowStart = None, WeeklyWindowStart = None, MonthlyWindowStart = None,
            DailyLimitUSD = TplDailyLimitUSD template, WeeklyLimitUSD = TplWeeklyLimitUSD template,
            MonthlyLimitUSD = TplMonthlyLimitUSD template, DailyUsageUSD = Fin 0, WeeklyUsageUSD = Fin 0, MonthlyUsageUSD = Fin 0,
            SubAssignedBy = (if 0 < AssignedBy input then Some (AssignedBy input) else None), SubAssignedAt = now,
            SubSourceOrderID = SourceOrderID input, SubNotes = AssignNotes input, SubCreatedAt = now, SubUpdatedAt = now,
            SubDeletedAt = None\<rparr>;
          (sid, db') = sub_Create now sub db
      in case sub_GetByID sid db' of None \<Rightarrow> (Inl ErrSubscriptionNotFound, db) | Some created \<Rightarrow> (Inr (created, queued), db'))"

text \<open>\<open>users\<close> are the users that exist.  The row of the user is locked before the order is looked up again; without
  interference the second lookup finds what the first one found.\<close>

definition AssignOrExtendSubscription :: "(int64 \<Rightarrow> bool) \<Rightarrow> (int64 \<Rightarrow> plan_row option) \<Rightarrow> Location \<Rightarrow> gtime \<Rightarrow>
    AssignSubscriptionInput option \<Rightarrow> sub_db \<Rightarrow> (sub_error + UserSubscription \<times> bool) \<times> sub_db" where
  "AssignOrExtendSubscription users plans loc now input db =
     (case input of None \<Rightarrow> (Inl ErrSubscriptionNilInput, db) | Some input \<Rightarrow>
       (case findSourceOrderSubscription now (SourceOrderID input) db of
          Some existing \<Rightarrow> (Inr (existing, IsPending now existing), db)
        | None \<Rightarrow>
            (case resolveGrantPlanTemplate plans input of Inl e \<Rightarrow> (Inl e, db) | Inr template \<Rightarrow>
               if \<not> users (AssignUserID input) then (Inl ErrUserMissing, db)
               else assignOrExtendSubscriptionUnlocked loc now input template db)))"

definition AssignSubscription :: "(int64 \<Rightarrow> bool) \<Rightarrow> (int64 \<Rightarrow> plan_row option) \<Rightarrow> Location \<Rightarrow> gtime \<Rightarrow>
    AssignSubscriptionInput option \<Rightarrow> sub_db \<Rightarrow> (sub_error + UserSubscription) \<times> sub_db" where
  "AssignSubscription users plans loc now input db =
     (case AssignOrExtendSubscription users plans loc now input db of
        (Inl e, db) \<Rightarrow> (Inl e, db) | (Inr (sub, _), db) \<Rightarrow> (Inr sub, db))"

record BulkAssignResult =
  SuccessCount :: nat
  CreatedCount :: nat
  ReusedCount :: nat
  FailedCount :: nat
  Subscriptions :: "UserSubscription list"
  Errors :: "(int64 \<times> sub_error) list"
  Statuses :: "(int64 \<times> string) list"

text \<open>The loop over the users of a bulk grant: an error of one user does not stop the others.\<close>

fun bulk_loop :: "(int64 \<Rightarrow> bool) \<Rightarrow> (int64 \<Rightarrow> plan_row option) \<Rightarrow> Location \<Rightarrow> gtime \<Rightarrow> AssignSubscriptionInput \<Rightarrow>
    int64 list \<Rightarrow> BulkAssignResult \<Rightarrow> sub_db \<Rightarrow> BulkAssignResult \<times> sub_db" where
  "bulk_loop users plans loc now input [] r db = (r, db)"
| "bulk_loop users plans loc now input (u # us) r db =
     (case AssignOrExtendSubscription users plans loc now (Some (input\<lparr>AssignUserID := u\<rparr>)) db of
        (Inl e, db) \<Rightarrow> bulk_loop users plans loc now input us
          (r\<lparr>FailedCount := FailedCount r + 1, Errors := Errors r @ [(u, e)], Statuses := AList.update u ''failed'' (Statuses r)\<rparr>) db
      | (Inr (sub, queued), db) \<Rightarrow> bulk_loop users plans loc now input us
          (r\<lparr>SuccessCount := SuccessCount r + 1, CreatedCount := CreatedCount r + 1, Subscriptions := Subscriptions r @ [sub],
             Statuses := AList.update u (if queued then ''queued'' else ''active'') (Statuses r)\<rparr>) db)"

definition BulkAssignSubscription :: "(int64 \<Rightarrow> bool) \<Rightarrow> (int64 \<Rightarrow> plan_row option) \<Rightarrow> Location \<Rightarrow> gtime \<Rightarrow>
    AssignSubscriptionInput \<Rightarrow> int64 list \<Rightarrow> sub_db \<Rightarrow> BulkAssignResult \<times> sub_db" where
  "BulkAssignSubscription users plans loc now input userIDs db =
     bulk_loop users plans loc now (input\<lparr>UseProvidedTemplate := False, SourceOrderID := None\<rparr>) userIDs
       \<lparr>SuccessCount = 0, CreatedCount = 0, ReusedCount = 0, FailedCount = 0, Subscriptions = [], Errors = [], Statuses = []\<rparr> db"

section \<open>Moving the later subscriptions\<close>

definition chain_status :: "gtime \<Rightarrow> gtime \<Rightarrow> gtime \<Rightarrow> string" where
  "chain_status now startsAt expiresAt =
     (if \<not> now < expiresAt then SubscriptionStatusExpired
      else if now < startsAt then SubscriptionStatusPending
      else SubscriptionStatusActive)"

definition shifted :: "gtime \<Rightarrow> duration \<Rightarrow> UserSubscription \<Rightarrow> UserSubscription" where
  "shifted now delta item =
     (let startsAt = SubStartsAt item + delta; expiresAt = SubExpiresAt item + delta;
          expiresAt = (if MaxExpiresAt < expiresAt then MaxExpiresAt else expiresAt)
      in item\<lparr>SubStartsAt := startsAt, SubExpiresAt := expiresAt, SubStatus := chain_status now startsAt expiresAt\<rparr>)"

fun shift_loop :: "gtime \<Rightarrow> UserSubscription \<Rightarrow> duration \<Rightarrow> UserSubscription list \<Rightarrow> sub_db \<Rightarrow> sub_error + sub_db" where
  "shift_loop now anchor delta [] db = Inr db"
| "shift_loop now anchor delta (item # chain) db =
     (if SubID item = SubID anchor \<or> SubStartsAt item < SubExpiresAt anchor then shift_loop now anchor delta chain db
      else case sub_Update now (shifted now delta item) db of
             Inl e \<Rightarrow> Inl e | Inr db \<Rightarrow> shift_loop now anchor delta chain db)"

definition shiftLaterChain :: "gtime \<Rightarrow> UserSubscription list \<Rightarrow> UserSubscription \<Rightarrow> duration \<Rightarrow> sub_db \<Rightarrow> sub_error + sub_db" where
  "shiftLaterChain now chain anchor delta db = (if delta = 0 then Inr db else shift_loop now anchor delta chain db)"

definition revokeChainDelta :: "UserSubscription \<Rightarrow> gtime \<Rightarrow> duration" where
  "revokeChainDelta sub now =
     (if now < SubStartsAt sub then time_sub (SubStartsAt sub) (SubExpiresAt sub)
      else if now < SubExpiresAt sub then time_sub now (SubExpiresAt sub)
      else 0)"

section \<open>Revoking\<close>

text \<open>\<open>now\<close> is the reading of the service, \<open>later\<close> that of the writes.\<close>

definition RevokeSubscription :: "gtime \<Rightarrow> gtime \<Rightarrow> int64 \<Rightarrow> sub_db \<Rightarrow> sub_error option \<times> sub_db" where
  "RevokeSubscription now later sid db =
     (case sub_GetByID sid db of None \<Rightarrow> (Some ErrSubscriptionNotFound, db) | Some sub \<Rightarrow>
       (let chain = ListByUserIDAndPlanID (SubUserID sub) (SubPlanID sub) db;
            chainDelta = revokeChainDelta sub now
        in case shiftLaterChain later chain sub chainDelta (sub_Delete later (SubID sub) db) of
             Inl e \<Rightarrow> (Some e, db) | Inr db' \<Rightarrow> (None, db')))"

definition APIKeyBillingModeSubscription :: string where "APIKeyBillingModeSubscription = ''subscription''"

definition rebindSubscriptionAPIKeys :: "gtime \<Rightarrow> int64 \<Rightarrow> int64 \<Rightarrow> sub_db \<Rightarrow> nat \<times> sub_db" where
  "rebindSubscriptionAPIKeys now old new db =
     (if old \<le> 0 \<or> new \<le> 0 then (0, db)
      else
        let hit = (\<lambda>k. KeyBillingMode k = APIKeyBillingModeSubscription \<and> KeyPreferredSubscriptionID k = Some old \<and> KeyDeletedAt k = None)
        in (length (filter hit (key_rows db)),
            db\<lparr>key_rows := map (\<lambda>k. if hit k then k\<lparr>KeyPreferredSubscriptionID := Some new, KeyUpdatedAt := now\<rparr> else k) (key_rows db)\<rparr>))"

record SelfRevokeSubscriptionResult =
  RevokedSubscriptionID :: int64
  ReplacementSubscriptionID :: "int64 option"
  ReboundAPIKeyCount :: nat

text \<open>The maintenance of one row of the table.\<close>

definition maintain_row :: "Location \<Rightarrow> gtime \<Rightarrow> UserSubscription \<Rightarrow> sub_db \<Rightarrow> (sub_error + UserSubscription) \<times> sub_db" where
  "maintain_row loc now sub db =
     (case EnsureWindowMaintenance loc now sub (sub_GetByID (SubID sub) db) of
        (r, None) \<Rightarrow> (r, db) | (r, Some s) \<Rightarrow> (r, update_row (SubID sub) (\<lambda>row. s) db))"

text \<open>The earliest subscription that waits behind the revoked one.\<close>

fun replacement_loop :: "gtime \<Rightarrow> UserSubscription \<Rightarrow> UserSubscription option \<Rightarrow> UserSubscription list \<Rightarrow> UserSubscription option" where
  "replacement_loop now sub best [] = best"
| "replacement_loop now sub best (item # chain) =
     (if SubID item = SubID sub \<or> SubStartsAt item < SubExpiresAt sub \<or> \<not> now < SubExpiresAt item \<or>
         SubStatus item \<noteq> SubscriptionStatusPending \<or> EffectiveStatus now item \<noteq> SubscriptionStatusPending
      then replacement_loop now sub best chain
      else replacement_loop now sub
             (case best of None \<Rightarrow> Some item | Some b \<Rightarrow> if SubStartsAt item < SubStartsAt b then Some item else Some b) chain)"

definition revokeOwnExhaustedSubscriptionInTx :: "Location \<Rightarrow> gtime \<Rightarrow> gtime \<Rightarrow> gtime \<Rightarrow> int64 \<Rightarrow> int64 \<Rightarrow> sub_db \<Rightarrow>
    (sub_error + SelfRevokeSubscriptionResult) \<times> sub_db" where
  "revokeOwnExhaustedSubscriptionInTx loc now now' later userID sid db =
     (case GetByIDIncludeDeleted sid db of None \<Rightarrow> (Inl ErrSubscriptionNotFound, db) | Some sub \<Rightarrow>
       if SubUserID sub \<noteq> userID then (Inl ErrSubscriptionNotFound, db)
       else if SubDeletedAt sub \<noteq> None then (Inl ErrSubscriptionNotActive, db)
       else if EffectiveStatus now sub \<noteq> SubscriptionStatusActive then (Inl ErrSubscriptionNotActive, db)
       else
         (case maintain_row loc now sub db of
            (Inl e, _) \<Rightarrow> (Inl e, db)
          | (Inr sub, db1) \<Rightarrow>
              if SubUserID sub \<noteq> userID then (Inl ErrSubscriptionNotFound, db)
              else if EffectiveStatus now' sub \<noteq> SubscriptionStatusActive then (Inl ErrSubscriptionNotActive, db)
              else if \<not> HighestQuotaExhausted sub then (Inl ErrSubscriptionQuotaAvailable, db)
              else
                let chain = ListByUserIDAndPlanID (SubUserID sub) (SubPlanID sub) db1;
                    replacement = replacement_loop now' sub None chain
                in case shiftLaterChain later chain sub (revokeChainDelta sub now') (sub_Delete later (SubID sub) db1) of
                     Inl e \<Rightarrow> (Inl e, db)
                   | Inr db2 \<Rightarrow>
                       (case replacement of
                          None \<Rightarrow> (Inr \<lparr>RevokedSubscriptionID = SubID sub, ReplacementSubscriptionID = None, ReboundAPIKeyCount = 0\<rparr>, db2)
                        | Some r \<Rightarrow>
                            let (count, db3) = rebindSubscriptionAPIKeys later (SubID sub) (SubID r) db2 in
                            (Inr \<lparr>RevokedSubscriptionID = SubID sub, ReplacementSubscriptionID = Some (SubID r),
                               ReboundAPIKeyCount = count\<rparr>, db3))))"

definition RevokeOwnExhaustedSubscription :: "Location \<Rightarrow> gtime \<Rightarrow> gtime \<Rightarrow> gtime \<Rightarrow> int64 \<Rightarrow> int64 \<Rightarrow> sub_db \<Rightarrow>
    (sub_error + SelfRevokeSubscriptionResult) \<times> sub_db" where
  "RevokeOwnExhaustedSubscription loc now now' later userID sid db =
     (if userID \<le> 0 \<or> sid \<le> 0 then (Inl ErrSubscriptionNotFound, db)
      else revokeOwnExhaustedSubscriptionInTx loc now now' later userID sid db)"

section \<open>Restoring\<close>

definition restoredSubscriptionStatus :: "UserSubscription \<Rightarrow> gtime \<Rightarrow> string" where
  "restoredSubscriptionStatus sub now = EffectiveStatus now (sub\<lparr>SubDeletedAt := None\<rparr>)"

definition subscriptionRestoreWouldOverlap :: "UserSubscription \<Rightarrow> UserSubscription list \<Rightarrow> gtime \<Rightarrow> bool" where
  "subscriptionRestoreWouldOverlap restored chain now \<longleftrightarrow> list_ex (\<lambda>item.
     \<not> (SubID item = SubID restored \<or> SubDeletedAt item \<noteq> None \<or> \<not> now < SubExpiresAt item) \<and>
     SubStartsAt restored < SubExpiresAt item \<and> SubStartsAt item < SubExpiresAt restored) chain"

definition RestoreSubscription :: "gtime \<Rightarrow> gtime \<Rightarrow> int64 \<Rightarrow> sub_db \<Rightarrow> (sub_error + UserSubscription) \<times> sub_db" where
  "RestoreSubscription now later sid db =
     (case GetByIDIncludeDeleted sid db of None \<Rightarrow> (Inl ErrSubscriptionNotFound, db) | Some sub \<Rightarrow>
       if SubDeletedAt sub = None then (Inl ErrSubscriptionNotRevoked, db)
       else
         let restoredStatus = restoredSubscriptionStatus sub now in
         if restoredStatus \<noteq> SubscriptionStatusExpired \<and>
            subscriptionRestoreWouldOverlap sub (ListByUserIDAndPlanID (SubUserID sub) (SubPlanID sub) db) now
         then (Inl ErrSubscriptionRestoreConflict, db)
         else sub_Restore later sid restoredStatus db)"

section \<open>Changing the length\<close>

text \<open>The transaction that both changes of the length run.\<close>

definition adjust_expiry :: "gtime \<Rightarrow> gtime \<Rightarrow> UserSubscription \<Rightarrow> gtime \<Rightarrow> sub_db \<Rightarrow> (sub_error + UserSubscription) \<times> sub_db" where
  "adjust_expiry now later sub newExpiresAt db =
     (let delta = time_sub newExpiresAt (SubExpiresAt sub);
          chain = ListByUserIDAndPlanID (SubUserID sub) (SubPlanID sub) db
      in case ExtendExpiry later (SubID sub) newExpiresAt db of
           Inl e \<Rightarrow> (Inl e, db)
         | Inr db1 \<Rightarrow>
             (case shiftLaterChain later chain sub delta db1 of
                Inl e \<Rightarrow> (Inl e, db)
              | Inr db2 \<Rightarrow>
                  (case UpdateStatus later (SubID sub) (chain_status now (SubStartsAt sub) newExpiresAt) db2 of
                     Inl e \<Rightarrow> (Inl e, db)
                   | Inr db3 \<Rightarrow>
                       (case sub_GetByID (SubID sub) db3 of None \<Rightarrow> (Inl ErrSubscriptionNotFound, db3) | Some s \<Rightarrow> (Inr s, db3)))))"

definition ExtendSubscription :: "Location \<Rightarrow> gtime \<Rightarrow> gtime \<Rightarrow> int64 \<Rightarrow> int \<Rightarrow> sub_db \<Rightarrow> (sub_error + UserSubscription) \<times> sub_db" where
  "ExtendSubscription loc now later sid days db =
     (case sub_GetByID sid db of None \<Rightarrow> (Inl ErrSubscriptionNotFound, db) | Some sub \<Rightarrow>
       (let days = (if MaxValidityDays < days then MaxValidityDays else days);
            days = (if days < - MaxValidityDays then - MaxValidityDays else days);
            old = SubExpiresAt sub
        in
        if \<not> now < old \<and> days < 0 then (Inl ErrAdjustWouldExpire, db)
        else
          let newExpiresAt = AddDays loc (if \<not> now < old then now else old) days;
              newExpiresAt = (if MaxExpiresAt < newExpiresAt then MaxExpiresAt else newExpiresAt)
          in
          if \<not> SubStartsAt sub < newExpiresAt then (Inl ErrAdjustWouldExpire, db)
          else adjust_expiry now later sub newExpiresAt db))"

definition subscriptionValidityAnchor :: "UserSubscription \<Rightarrow> gtime \<Rightarrow> gtime" where
  "subscriptionValidityAnchor sub now = (if now < SubStartsAt sub then SubStartsAt sub else now)"

definition targetSubscriptionExpiresAt :: "Location \<Rightarrow> UserSubscription \<Rightarrow> gtime \<Rightarrow> int \<Rightarrow> gtime" where
  "targetSubscriptionExpiresAt loc sub now validityDays = AddDays loc (subscriptionValidityAnchor sub now) validityDays"

definition SetSubscriptionValidityDays :: "Location \<Rightarrow> gtime \<Rightarrow> gtime \<Rightarrow> int64 \<Rightarrow> int \<Rightarrow> sub_db \<Rightarrow>
    (sub_error + UserSubscription) \<times> sub_db" where
  "SetSubscriptionValidityDays loc now later sid validityDays db =
     (case sub_GetByID sid db of None \<Rightarrow> (Inl ErrSubscriptionNotFound, db) | Some sub \<Rightarrow>
       if validityDays \<le> 0 then (Inl ErrAdjustWouldExpire, db)
       else
         let validityDays = (if MaxValidityDays < validityDays then MaxValidityDays else validityDays);
             newExpiresAt = targetSubscriptionExpiresAt loc sub now validityDays;
             newExpiresAt = (if MaxExpiresAt < newExpiresAt then MaxExpiresAt else newExpiresAt)
         in
         if \<not> SubStartsAt sub < newExpiresAt then (Inl ErrAdjustWouldExpire, db)
         else adjust_expiry now later sub newExpiresAt db)"

section \<open>Finding a subscription to charge\<close>

definition GetSubscription :: "gtime \<Rightarrow> int64 \<Rightarrow> sub_db \<Rightarrow> sub_error + UserSubscription" where
  "GetSubscription now sid db =
     (case sub_GetByID sid db of None \<Rightarrow> Inl ErrSubscriptionNotFound | Some sub \<Rightarrow> Inr (sub\<lparr>SubStatus := EffectiveStatus now sub\<rparr>))"

definition GetSubscriptionForAPIKey :: "gtime \<Rightarrow> int64 \<Rightarrow> int64 \<Rightarrow> sub_db \<Rightarrow> sub_error + UserSubscription" where
  "GetSubscriptionForAPIKey now userID sid db =
     (if userID \<le> 0 \<or> sid \<le> 0 then Inl ErrSubscriptionNotFound
      else case GetSubscription now sid db of
             Inl _ \<Rightarrow> Inl ErrSubscriptionNotFound
           | Inr sub \<Rightarrow> if SubUserID sub \<noteq> userID then Inl ErrSubscriptionNotFound else Inr sub)"

definition GetActiveSubscription :: "gtime \<Rightarrow> int64 \<Rightarrow> int64 \<Rightarrow> sub_db \<Rightarrow> sub_error + UserSubscription" where
  "GetActiveSubscription now userID planID db =
     (case find (\<lambda>s. SubPlanID s = planID) (ListActiveByUserID now userID db) of
        None \<Rightarrow> Inl ErrSubscriptionNotFound | Some s \<Rightarrow> Inr s)"

text \<open>The search goes on after an error that only concerns the subscription at hand.  It returns the caller's copy, with the usage of
  windows that are due set to zero, and whether maintenance is needed.\<close>

fun usable_loop :: "'z go_env_scheme \<Rightarrow> Location \<Rightarrow> gtime \<Rightarrow> UserSubscription list \<Rightarrow> sub_error + UserSubscription \<times> bool" where
  "usable_loop env loc now [] = Inl ErrSubscriptionNotFound"
| "usable_loop env loc now (s # subs) =
     (case ValidateAndCheckLimits env loc now s of
        (needsMaintenance, None, s') \<Rightarrow> Inr (s', needsMaintenance)
      | (_, Some e, _) \<Rightarrow>
          if e \<in> {ErrDailyLimitExceeded, ErrWeeklyLimitExceeded, ErrMonthlyLimitExceeded, ErrSubscriptionExpired,
                  ErrSubscriptionSuspended, ErrSubscriptionInvalid}
          then usable_loop env loc now subs else Inl e)"

definition GetUsableSubscription :: "'z go_env_scheme \<Rightarrow> (int64 \<Rightarrow> int64 list option) \<Rightarrow> Location \<Rightarrow> gtime \<Rightarrow> int64 \<Rightarrow> int64 option \<Rightarrow>
    sub_db \<Rightarrow> sub_error + UserSubscription \<times> bool" where
  "GetUsableSubscription env groups loc now userID groupID db =
     (let subs = ListActiveByUserID now userID db;
          subs = (case groupID of None \<Rightarrow> subs | Some g \<Rightarrow> if 0 < g then FilterByGroup groups subs g else subs)
      in usable_loop env loc now (sort_key (\<lambda>s. (SubExpiresAt s, SubStartsAt s)) subs))"

definition normalizeExpiredWindows :: "Location \<Rightarrow> gtime \<Rightarrow> UserSubscription list \<Rightarrow> UserSubscription list" where
  "normalizeExpiredWindows loc now = map (\<lambda>s.
     let s = (if NeedsDailyResetAt loc now s then s\<lparr>DailyWindowStart := None, DailyUsageUSD := Fin 0\<rparr> else s);
         s = (if NeedsWeeklyResetAt loc now s then s\<lparr>WeeklyWindowStart := None, WeeklyUsageUSD := Fin 0\<rparr> else s)
     in (if NeedsMonthlyResetAt loc now s then s\<lparr>MonthlyWindowStart := None, MonthlyUsageUSD := Fin 0\<rparr> else s))"

definition ListUserSubscriptions :: "Location \<Rightarrow> gtime \<Rightarrow> int64 \<Rightarrow> sub_db \<Rightarrow> UserSubscription list" where
  "ListUserSubscriptions loc now userID db = normalizeSubscriptionStatus now (normalizeExpiredWindows loc now (ListByUserID userID db))"

definition ListActiveUserSubscriptions :: "Location \<Rightarrow> gtime \<Rightarrow> int64 \<Rightarrow> sub_db \<Rightarrow> UserSubscription list" where
  "ListActiveUserSubscriptions loc now userID db =
     normalizeSubscriptionStatus now (normalizeExpiredWindows loc now (ListActiveByUserID now userID db))"

definition ListSubscriptionsBySourceOrderID :: "Location \<Rightarrow> gtime \<Rightarrow> int64 \<Rightarrow> sub_db \<Rightarrow> UserSubscription list" where
  "ListSubscriptionsBySourceOrderID loc now order db =
     normalizeSubscriptionStatus now (normalizeExpiredWindows loc now (ListBySourceOrderID order db))"

definition RecordUsage :: "'z go_env_scheme \<Rightarrow> int64 \<Rightarrow> float64 \<Rightarrow> sub_db \<Rightarrow> (sub_error + unit) \<times> sub_db" where
  "RecordUsage env sid costUSD db =
     (case IncrementUsage env costUSD (GetByIDIncludeDeleted sid db) of
        (r, None) \<Rightarrow> (r, db) | (r, Some s) \<Rightarrow> (r, update_row sid (\<lambda>row. s) db))"

section \<open>Facts about the table\<close>

definition sub_wf :: "sub_db \<Rightarrow> bool" where
  "sub_wf db \<longleftrightarrow> distinct (map SubID (sub_rows db)) \<and> (\<forall>s \<in> set (sub_rows db). SubID s < sub_next db)"

lemma row_unique: "distinct (map SubID rows) \<Longrightarrow> a \<in> set rows \<Longrightarrow> b \<in> set rows \<Longrightarrow> SubID a = SubID b \<Longrightarrow> a = b"
  by (simp add: distinct_map inj_on_def)

lemma get_live: "sub_GetByID sid db = Some s \<Longrightarrow> s \<in> set (sub_rows db) \<and> live s \<and> SubID s = sid"
  by (auto simp: sub_GetByID_def find_Some_iff)

lemma get_any: "GetByIDIncludeDeleted sid db = Some s \<Longrightarrow> s \<in> set (sub_rows db) \<and> SubID s = sid"
  by (auto simp: GetByIDIncludeDeleted_def find_Some_iff)

lemma get_any_None: "GetByIDIncludeDeleted sid db = None \<longleftrightarrow> sid \<notin> SubID ` set (sub_rows db)"
  by (auto simp: GetByIDIncludeDeleted_def find_None_iff)

lemma get_live_row:
  "distinct (map SubID (sub_rows db)) \<Longrightarrow> s \<in> set (sub_rows db) \<Longrightarrow> live s \<Longrightarrow> sub_GetByID (SubID s) db = Some s"
proof (cases "sub_GetByID (SubID s) db")
  case (Some r)
  moreover assume "distinct (map SubID (sub_rows db))" "s \<in> set (sub_rows db)"
  ultimately show ?thesis using get_live [OF Some] row_unique [of "sub_rows db" r s] by simp
qed (auto simp: sub_GetByID_def find_None_iff)

lemma chain_members: "set (ListByUserIDAndPlanID u p db) = {s \<in> set (sub_rows db). in_chain u p s}"
  by (auto simp: ListByUserIDAndPlanID_def)

lemma chain_distinct: "distinct (map SubID (sub_rows db)) \<Longrightarrow> distinct (map SubID (ListByUserIDAndPlanID u p db))"
  by (simp add: ListByUserIDAndPlanID_def distinct_map inj_on_def)

lemma update_row_rows [simp]:
  "sub_rows (update_row sid f db) = map (\<lambda>s. if SubID s = sid then f s else s) (sub_rows db)"
  "sub_next (update_row sid f db) = sub_next db" "key_rows (update_row sid f db) = key_rows db"
  by (simp_all add: update_row_def)

lemma nillable_same [simp]: "nillable v v = v"
  by (simp add: nillable_def split: option.split)

definition moved :: "gtime \<Rightarrow> duration \<Rightarrow> UserSubscription \<Rightarrow> UserSubscription" where
  "moved now d s = (shifted now d s)\<lparr>SubUpdatedAt := now\<rparr>"

lemma overwrite_shifted: "overwrite now (shifted now d s) s = moved now d s"
  by (simp add: overwrite_def moved_def shifted_def Let_def)

lemma moved_simps [simp]:
  "SubID (moved now d s) = SubID s" "SubUserID (moved now d s) = SubUserID s" "SubPlanID (moved now d s) = SubPlanID s"
  "SubDeletedAt (moved now d s) = SubDeletedAt s" "SubStartsAt (moved now d s) = SubStartsAt s + d"
  "SubExpiresAt (moved now d s) = min (SubExpiresAt s + d) MaxExpiresAt"
  by (simp_all add: moved_def shifted_def Let_def)

lemma shifted_id [simp]: "SubID (shifted now d s) = SubID s"
  by (simp add: shifted_def Let_def)

text \<open>The loop moves exactly the rows of the chain that start after the anchor.\<close>

definition behind :: "UserSubscription \<Rightarrow> UserSubscription \<Rightarrow> bool" where
  "behind anchor s \<longleftrightarrow> SubID s \<noteq> SubID anchor \<and> SubExpiresAt anchor \<le> SubStartsAt s"

lemma shift_loop_rows:
  assumes "distinct (map SubID (sub_rows db))" "distinct (map SubID chain)"
    "\<forall>item \<in> set chain. behind anchor item \<longrightarrow> item \<in> set (sub_rows db)"
  shows "shift_loop now anchor d chain db =
    Inr (db\<lparr>sub_rows := map (\<lambda>s. if s \<in> set chain \<and> behind anchor s then moved now d s else s) (sub_rows db)\<rparr>)"
  using assms
proof (induction chain arbitrary: db)
  case (Cons item chain)
  show ?case
  proof (cases "behind anchor item")
    case False
    then have "shift_loop now anchor d (item # chain) db = shift_loop now anchor d chain db" by (auto simp: behind_def)
    moreover have "(\<lambda>s. if s \<in> set chain \<and> behind anchor s then moved now d s else s) =
        (\<lambda>s. if s \<in> set (item # chain) \<and> behind anchor s then moved now d s else s)" using False by auto
    ultimately show ?thesis using Cons by simp
  next
    case True
    have item: "item \<in> set (sub_rows db)" using Cons.prems(3) True by simp
    have only: "SubID s = SubID item \<longleftrightarrow> s = item" if "s \<in> set (sub_rows db)" for s
      using row_unique [OF Cons.prems(1) that item] by blast
    let ?db = "update_row (SubID item) (overwrite now (shifted now d item)) db"
    have rows: "sub_rows ?db = map (\<lambda>s. if s = item then moved now d item else s) (sub_rows db)"
      using only by (auto simp: overwrite_shifted)
    have ids: "map SubID (sub_rows ?db) = map SubID (sub_rows db)" unfolding rows by auto
    have "shift_loop now anchor d (item # chain) db = shift_loop now anchor d chain ?db"
      using True item by (auto simp: behind_def sub_Update_def UpdateOneID_def get_any_None)
    also have "\<dots> = Inr (?db\<lparr>sub_rows := map (\<lambda>s. if s \<in> set chain \<and> behind anchor s then moved now d s else s) (sub_rows ?db)\<rparr>)"
    proof (rule Cons.IH)
      show "distinct (map SubID (sub_rows ?db))" unfolding ids by (rule Cons.prems(1))
      show "distinct (map SubID chain)" using Cons.prems(2) by simp
      have "s \<noteq> item" if "s \<in> set chain" for s using Cons.prems(2) that by auto
      then show "\<forall>s \<in> set chain. behind anchor s \<longrightarrow> s \<in> set (sub_rows ?db)"
        using Cons.prems(3) unfolding rows by (auto simp: image_iff)
    qed
    also have "\<dots> = Inr (db\<lparr>sub_rows := map (\<lambda>s. if s \<in> set (item # chain) \<and> behind anchor s then moved now d s else s) (sub_rows db)\<rparr>)"
    proof -
      have fresh: "moved now d item \<notin> set chain" using Cons.prems(2) by (auto simp: image_iff)
      have "map (\<lambda>s. if s \<in> set chain \<and> behind anchor s then moved now d s else s) (map (\<lambda>s. if s = item then moved now d item else s) (sub_rows db)) =
          map (\<lambda>s. if s \<in> set (item # chain) \<and> behind anchor s then moved now d s else s) (sub_rows db)"
        using fresh True by auto
      then show ?thesis unfolding rows by (simp only:) (simp add: update_row_def)
    qed
    finally show ?thesis .
  qed
qed simp

text \<open>The effect of a change at one subscription and of the move of those behind it.\<close>

definition chain_shift :: "gtime \<Rightarrow> UserSubscription \<Rightarrow> duration \<Rightarrow> UserSubscription \<Rightarrow> UserSubscription" where
  "chain_shift now anchor d s =
     (if d \<noteq> 0 \<and> in_chain (SubUserID anchor) (SubPlanID anchor) s \<and> behind anchor s then moved now d s else s)"

lemma shiftLaterChain_rows:
  assumes "distinct (map SubID (sub_rows db))" "\<And>s. SubID (f s) = SubID s"
  shows "shiftLaterChain now (ListByUserIDAndPlanID (SubUserID sub) (SubPlanID sub) db) sub d (update_row (SubID sub) f db) =
    Inr (db\<lparr>sub_rows := map (\<lambda>s. if SubID s = SubID sub then f s else chain_shift now sub d s) (sub_rows db)\<rparr>)"
proof (cases "d = 0")
  case True
  then show ?thesis by (simp add: shiftLaterChain_def chain_shift_def update_row_def)
next
  case False
  let ?chain = "ListByUserIDAndPlanID (SubUserID sub) (SubPlanID sub) db" and ?db = "update_row (SubID sub) f db"
  have ids: "map SubID (sub_rows ?db) = map SubID (sub_rows db)" using assms(2) by auto
  have unique: "distinct (map SubID (sub_rows ?db))" unfolding ids by (rule assms(1))
  have "shift_loop now sub d ?chain ?db =
      Inr (?db\<lparr>sub_rows := map (\<lambda>s. if s \<in> set ?chain \<and> behind sub s then moved now d s else s) (sub_rows ?db)\<rparr>)"
    by (rule shift_loop_rows [OF unique chain_distinct [OF assms(1)]]) (auto simp: chain_members behind_def image_iff)
  then show ?thesis using False assms(2)
    by (auto simp: shiftLaterChain_def chain_shift_def update_row_def behind_def chain_members)
qed

section \<open>Chains do not overlap\<close>

definition apart :: "UserSubscription \<Rightarrow> UserSubscription \<Rightarrow> bool" where
  "apart a b \<longleftrightarrow> SubExpiresAt a \<le> SubStartsAt b \<or> SubExpiresAt b \<le> SubStartsAt a"

definition same_chain :: "UserSubscription \<Rightarrow> UserSubscription \<Rightarrow> bool" where
  "same_chain a b \<longleftrightarrow> live a \<and> live b \<and> SubUserID a = SubUserID b \<and> SubPlanID a = SubPlanID b \<and> SubID a \<noteq> SubID b"

definition chains_apart :: "UserSubscription list \<Rightarrow> bool" where
  "chains_apart rows \<longleftrightarrow> (\<forall>a \<in> set rows. \<forall>b \<in> set rows. same_chain a b \<longrightarrow> apart a b)"

text \<open>Two instants of one era differ by less than the largest duration.\<close>

definition in_era :: "gtime \<Rightarrow> bool" where
  "in_era t \<longleftrightarrow> \<bar>t - MaxExpiresAt\<bar> < 2 ^ 62"

lemma in_era_sub: "in_era t \<Longrightarrow> in_era u \<Longrightarrow> time_sub t u = t - u"
  by (rule time_sub_in_range) (auto simp: in_era_def min_duration_def max_duration_def)

lemma in_era_pos: "in_era t \<Longrightarrow> 0 < t"
  by (simp add: in_era_def MaxExpiresAt_def Date_fixed UTC_def day_length_def go_defs)

definition db_era :: "sub_db \<Rightarrow> bool" where
  "db_era db \<longleftrightarrow> (\<forall>s \<in> set (sub_rows db). in_era (SubStartsAt s) \<and> in_era (SubExpiresAt s))"

lemma chain_shift_frame [simp]:
  "SubID (chain_shift now sub d s) = SubID s" "SubUserID (chain_shift now sub d s) = SubUserID s"
  "SubPlanID (chain_shift now sub d s) = SubPlanID s" "SubDeletedAt (chain_shift now sub d s) = SubDeletedAt s"
  "live (chain_shift now sub d s) \<longleftrightarrow> live s"
  by (simp_all add: chain_shift_def live_def)

lemma apart_moved: "apart a b \<Longrightarrow> apart (moved now d a) (moved now d b)"
  by (auto simp: apart_def min_le_iff_disj)

lemma apart_sym: "apart a b \<longleftrightarrow> apart b a"
  by (auto simp: apart_def)

text \<open>A move that does not reach the start of the anchor keeps rows apart.\<close>

lemma apart_one_moved:
  assumes "apart a sub" "\<not> behind sub a" "SubID a \<noteq> SubID sub" "behind sub b" "SubStartsAt sub - SubExpiresAt sub \<le> d"
  shows "apart a (moved now d b)"
  using assms by (auto simp: apart_def behind_def)

lemma apart_chain_shift:
  assumes "same_chain a b" "apart a b" "sub \<in> set rows" "a \<in> set rows" "b \<in> set rows" "chains_apart rows" "live sub"
    "SubID a \<noteq> SubID sub" "SubID b \<noteq> SubID sub" "d \<noteq> 0 \<Longrightarrow> SubStartsAt sub - SubExpiresAt sub \<le> d"
  shows "apart (chain_shift now sub d a) (chain_shift now sub d b)"
proof (cases "d \<noteq> 0 \<and> in_chain (SubUserID sub) (SubPlanID sub) a")
  case False
  then have "chain_shift now sub d a = a" "chain_shift now sub d b = b"
    using assms(1) by (auto simp: chain_shift_def in_chain_def same_chain_def)
  then show ?thesis using assms(2) by simp
next
  case True
  then have ch: "same_chain a sub" "same_chain b sub" "in_chain (SubUserID sub) (SubPlanID sub) b" "in_chain (SubUserID sub) (SubPlanID sub) a"
    using assms(1,7,8,9) by (auto simp: same_chain_def in_chain_def)
  then have ap: "apart a sub" "apart b sub" using assms(3-6) by (auto simp: chains_apart_def)
  have d: "d \<noteq> 0" "SubStartsAt sub - SubExpiresAt sub \<le> d" using True assms(10) by auto
  show ?thesis
    using apart_moved [OF assms(2), of now d] apart_one_moved [OF ap(1) _ assms(8) _ d(2), of b now]
      apart_one_moved [OF ap(2) _ assms(9) _ d(2), of a now] assms(2) ch(3,4) d(1)
    unfolding chain_shift_def by (cases "behind sub a"; cases "behind sub b") (auto simp: apart_sym)
qed

text \<open>Replacing the anchor by a row that ends where the move begins, or deleting it.\<close>

lemma chains_apart_change:
  assumes wf: "distinct (map SubID rows)" and ap: "chains_apart rows" and sub: "sub \<in> set rows" "live sub"
    and d: "d \<noteq> 0 \<Longrightarrow> SubStartsAt sub - SubExpiresAt sub \<le> d"
    and f: "\<not> live (f sub) \<or> SubUserID (f sub) = SubUserID sub \<and> SubPlanID (f sub) = SubPlanID sub \<and> SubID (f sub) = SubID sub \<and>
      SubStartsAt (f sub) = SubStartsAt sub \<and> SubExpiresAt (f sub) = SubExpiresAt sub + d"
  shows "chains_apart (map (\<lambda>s. if SubID s = SubID sub then f s else chain_shift now sub d s) rows)"
proof -
  let ?g = "\<lambda>s. if SubID s = SubID sub then f s else chain_shift now sub d s"
  have at: "?g s = f sub" if "s \<in> set rows" "SubID s = SubID sub" for s
    using row_unique [OF wf that(1) sub(1) that(2)] that by simp
  have anchor: "apart (f sub) (chain_shift now sub d a)"
    if "a \<in> set rows" "SubID a \<noteq> SubID sub" "same_chain (f sub) (chain_shift now sub d a)" for a
  proof -
    have "same_chain sub a" using f that(2,3) sub(2) by (auto simp: same_chain_def)
    then have "apart sub a" using ap sub(1) that(1) by (auto simp: chains_apart_def)
    then show ?thesis using f that(2,3) \<open>same_chain sub a\<close>
      by (auto simp: chain_shift_def apart_def behind_def same_chain_def in_chain_def)
  qed
  have "apart (?g a) (?g b)" if a: "a \<in> set rows" and b: "b \<in> set rows" and sc: "same_chain (?g a) (?g b)" for a b
  proof -
    consider "SubID a = SubID sub" "SubID b = SubID sub" | "SubID a = SubID sub" "SubID b \<noteq> SubID sub" |
      "SubID a \<noteq> SubID sub" "SubID b = SubID sub" | "SubID a \<noteq> SubID sub" "SubID b \<noteq> SubID sub" by blast
    then show ?thesis
    proof cases
      case 1
      then show ?thesis using sc at a b by (simp add: same_chain_def)
    next
      case 2
      then show ?thesis using anchor [OF b] at [OF a] sc by simp
    next
      case 3
      then show ?thesis using anchor [OF a] at [OF b] sc by (simp add: apart_sym same_chain_def)
    next
      case 4
      then have "same_chain a b" using sc by (simp add: same_chain_def)
      moreover from this have "apart a b" using ap a b by (simp add: chains_apart_def)
      ultimately show ?thesis using 4 apart_chain_shift [OF _ _ sub(1) a b ap sub(2)] d by simp
    qed
  qed
  then show ?thesis unfolding chains_apart_def by (simp only: set_map ball_simps) blast
qed

section \<open>Effects of the operations\<close>

text \<open>A change of a row that leaves alone what the chains depend on.\<close>

definition same_times :: "UserSubscription \<Rightarrow> UserSubscription \<Rightarrow> bool" where
  "same_times s s' \<longleftrightarrow> SubID s' = SubID s \<and> SubUserID s' = SubUserID s \<and> SubPlanID s' = SubPlanID s \<and>
     SubStartsAt s' = SubStartsAt s \<and> SubExpiresAt s' = SubExpiresAt s \<and> live s' = live s"

lemma chains_apart_map:
  assumes "chains_apart rows" "\<And>s. s \<in> set rows \<Longrightarrow> same_times s (f s)"
  shows "chains_apart (map f rows)"
  using assms unfolding chains_apart_def by (auto simp: same_times_def same_chain_def apart_def)

lemma wf_map: "sub_wf db \<Longrightarrow> (\<And>s. s \<in> set (sub_rows db) \<Longrightarrow> SubID (f s) = SubID s) \<Longrightarrow> sub_wf (db\<lparr>sub_rows := map f (sub_rows db)\<rparr>)"
  by (simp add: sub_wf_def o_def cong: map_cong)

lemma wf_ids: "sub_wf db \<Longrightarrow> distinct (map SubID (sub_rows db))"
  by (simp add: sub_wf_def)

lemma same_times_refl [simp]: "same_times s s"
  by (simp add: same_times_def)

lemma same_times_trans: "same_times s t \<Longrightarrow> same_times t u \<Longrightarrow> same_times s u"
  by (simp add: same_times_def)

definition row_keeps :: "(sub_row \<Rightarrow> 'a \<times> sub_row) \<Rightarrow> bool" where
  "row_keeps f \<longleftrightarrow> (\<forall>s. \<exists>r s'. f (Some s) = (r, Some s') \<and> same_times s s')"

lemma reset_times [simp]: "same_times s (reset_daily t s)" "same_times s (reset_weekly t s)" "same_times s (reset_monthly t s)"
  by (simp_all add: same_times_def reset_daily_def reset_weekly_def reset_monthly_def live_def)

lemma row_keeps_bind:
  assumes "row_keeps f" "\<And>x. row_keeps (g x)"
  shows "row_keeps (\<lambda>row. case f row of (Inl e, row) \<Rightarrow> (Inl e, row) | (Inr x, row) \<Rightarrow> g x row)"
  unfolding row_keeps_def
proof
  fix s
  obtain r s1 where 1: "f (Some s) = (r, Some s1)" "same_times s s1" using assms(1) unfolding row_keeps_def by blast
  show "\<exists>r s'. (case f (Some s) of (Inl e, row) \<Rightarrow> (Inl e, row) | (Inr x, row) \<Rightarrow> g x row) = (r, Some s') \<and> same_times s s'"
  proof (cases r)
    case (Inr x)
    obtain r' s2 where "g x (Some s1) = (r', Some s2)" "same_times s1 s2" using assms(2) unfolding row_keeps_def by blast
    then show ?thesis using 1 Inr same_times_trans by simp
  qed (use 1 in simp)
qed

lemma daily_keeps: "row_keeps (daily_maintenance loc now sub)"
  by (auto simp: row_keeps_def daily_maintenance_def ResetDailyUsage_def row_write_def split: option.split)

lemma weekly_keeps: "row_keeps (weekly_maintenance loc now sub)"
  by (auto simp: row_keeps_def weekly_maintenance_def ResetWeeklyUsage_def row_write_def)

lemma monthly_keeps: "row_keeps (monthly_maintenance loc now sub)"
  by (auto simp: row_keeps_def monthly_maintenance_def ResetMonthlyUsage_def row_write_def)

lemma activate_keeps: "row_keeps (CheckAndActivateWindow loc now sub)"
  by (simp add: row_keeps_def CheckAndActivateWindow_def ActivateWindows_def row_write_def same_times_def live_def Let_def)

lemma reset_windows_keeps: "row_keeps (checkAndResetWindowsAt loc now sub)"
proof -
  have "row_keeps (\<lambda>row. case weekly_maintenance loc now sub row of (Inl e, row) \<Rightarrow> (Inl e, row)
      | (Inr sub, row) \<Rightarrow> monthly_maintenance loc now sub row)" for sub
    by (rule row_keeps_bind [OF weekly_keeps monthly_keeps])
  from row_keeps_bind [OF daily_keeps this] show ?thesis unfolding checkAndResetWindowsAt_def .
qed

lemma ensure_keeps: "row_keeps (EnsureWindowMaintenance loc now sub)"
proof -
  have "row_keeps (\<lambda>row. case row of None \<Rightarrow> (Inl ErrSubscriptionNotFound, None) | Some s \<Rightarrow> (Inr s, row))"
    by (simp add: row_keeps_def)
  from row_keeps_bind [OF reset_windows_keeps this]
  have "row_keeps (\<lambda>row. case checkAndResetWindowsAt loc now sub row of (Inl e, row) \<Rightarrow> (Inl e, row)
      | (Inr _, row) \<Rightarrow> (case row of None \<Rightarrow> (Inl ErrSubscriptionNotFound, None) | Some s \<Rightarrow> (Inr s, row)))" .
  from row_keeps_bind [OF activate_keeps this] show ?thesis unfolding EnsureWindowMaintenance_def .
qed

text \<open>A revocation deletes one row and moves those behind it; it never fails on a row that is there.\<close>

definition deleted_row :: "gtime \<Rightarrow> UserSubscription \<Rightarrow> UserSubscription" where
  "deleted_row now s = (if live s then s\<lparr>SubDeletedAt := Some now, SubUpdatedAt := now\<rparr> else s)"

lemma deleted_row_id [simp]: "SubID (deleted_row now s) = SubID s" "\<not> live (deleted_row now s)"
  by (simp_all add: deleted_row_def live_def)

lemma delete_shift:
  assumes "distinct (map SubID (sub_rows db))"
  shows "shiftLaterChain later (ListByUserIDAndPlanID (SubUserID sub) (SubPlanID sub) db) sub d (sub_Delete later (SubID sub) db) =
    Inr (db\<lparr>sub_rows := map (\<lambda>s. if SubID s = SubID sub then deleted_row later s else chain_shift later sub d s) (sub_rows db)\<rparr>)"
  using shiftLaterChain_rows [where f = "deleted_row later", OF assms deleted_row_id(1)]
  by (simp add: sub_Delete_def deleted_row_def [abs_def])

lemma revoke_rows:
  assumes "sub_wf db" "sub_GetByID sid db = Some sub"
  shows "RevokeSubscription now later sid db =
    (None, db\<lparr>sub_rows := map (\<lambda>s. if SubID s = sid then deleted_row later s
       else chain_shift later sub (revokeChainDelta sub now) s) (sub_rows db)\<rparr>)"
  using get_live [OF assms(2)] delete_shift [OF wf_ids [OF assms(1)], of later sub]
  by (simp add: RevokeSubscription_def assms(2) Let_def)

definition resized_row :: "gtime \<Rightarrow> string \<Rightarrow> gtime \<Rightarrow> UserSubscription \<Rightarrow> UserSubscription" where
  "resized_row later status newExpiresAt s = s\<lparr>SubExpiresAt := newExpiresAt, SubStatus := status, SubUpdatedAt := later\<rparr>"

lemma adjust_rows:
  assumes "sub_wf db" "sub_GetByID (SubID sub) db = Some sub"
  shows "adjust_expiry now later sub new db =
    (Inr (resized_row later (chain_status now (SubStartsAt sub) new) new sub),
     db\<lparr>sub_rows := map (\<lambda>s. if SubID s = SubID sub then resized_row later (chain_status now (SubStartsAt sub) new) new s
       else chain_shift later sub (time_sub new (SubExpiresAt sub)) s) (sub_rows db)\<rparr>)"
proof -
  let ?status = "chain_status now (SubStartsAt sub) new" and ?d = "time_sub new (SubExpiresAt sub)"
  let ?f = "\<lambda>s. s\<lparr>SubExpiresAt := new, SubUpdatedAt := later\<rparr>"
  let ?db2 = "db\<lparr>sub_rows := map (\<lambda>s. if SubID s = SubID sub then ?f s else chain_shift later sub ?d s) (sub_rows db)\<rparr>"
  let ?db3 = "db\<lparr>sub_rows := map (\<lambda>s. if SubID s = SubID sub then resized_row later ?status new s else chain_shift later sub ?d s) (sub_rows db)\<rparr>"
  note sub = get_live [OF assms(2)]
  have there: "SubID sub \<in> SubID ` set (sub_rows db)" using sub by blast
  have ids: "map SubID (sub_rows ?db3) = map SubID (sub_rows db)" by (simp add: resized_row_def)
  have 1: "ExtendExpiry later (SubID sub) new db = Inr (update_row (SubID sub) ?f db)"
    using there by (simp add: ExtendExpiry_def UpdateOneID_def get_any_None)
  have 2: "shiftLaterChain later (ListByUserIDAndPlanID (SubUserID sub) (SubPlanID sub) db) sub ?d (update_row (SubID sub) ?f db) = Inr ?db2"
    by (rule shiftLaterChain_rows [OF wf_ids [OF assms(1)]]) simp
  have ids2: "map SubID (sub_rows ?db2) = map SubID (sub_rows db)" by simp
  have "SubID sub \<in> SubID ` set (sub_rows ?db2)" using there unfolding set_map [symmetric] ids2 .
  then have "UpdateStatus later (SubID sub) ?status ?db2 = Inr (update_row (SubID sub) (\<lambda>s. s\<lparr>SubStatus := ?status, SubUpdatedAt := later\<rparr>) ?db2)"
    by (simp add: UpdateStatus_def UpdateOneID_def get_any_None)
  also have "update_row (SubID sub) (\<lambda>s. s\<lparr>SubStatus := ?status, SubUpdatedAt := later\<rparr>) ?db2 = ?db3"
    by (auto simp: update_row_def resized_row_def)
  finally have 3: "UpdateStatus later (SubID sub) ?status ?db2 = Inr ?db3" .
  have "resized_row later ?status new sub \<in> set (sub_rows ?db3)" using sub by (force simp: image_iff)
  moreover have "distinct (map SubID (sub_rows ?db3))" unfolding ids by (rule wf_ids [OF assms(1)])
  ultimately have 4: "sub_GetByID (SubID sub) ?db3 = Some (resized_row later ?status new sub)"
    using get_live_row [of ?db3 "resized_row later ?status new sub"] sub by (simp add: resized_row_def live_def)
  show ?thesis using 1 2 3 4 by (simp add: adjust_expiry_def Let_def)
qed

text \<open>A revocation shortens by what is left of the subscription, which is at most its length.\<close>

lemma revoke_delta:
  assumes "db_era db" "in_era now" "s \<in> set (sub_rows db)"
  shows "revokeChainDelta s now =
      (if now < SubStartsAt s then SubStartsAt s - SubExpiresAt s else if now < SubExpiresAt s then now - SubExpiresAt s else 0)"
    "revokeChainDelta s now \<noteq> 0 \<Longrightarrow> SubStartsAt s - SubExpiresAt s \<le> revokeChainDelta s now"
proof -
  have "in_era (SubStartsAt s)" "in_era (SubExpiresAt s)" using assms by (auto simp: db_era_def)
  then show "revokeChainDelta s now =
      (if now < SubStartsAt s then SubStartsAt s - SubExpiresAt s else if now < SubExpiresAt s then now - SubExpiresAt s else 0)"
    using assms(2) by (simp add: revokeChainDelta_def in_era_sub)
  then show "revokeChainDelta s now \<noteq> 0 \<Longrightarrow> SubStartsAt s - SubExpiresAt s \<le> revokeChainDelta s now"
    by (auto split: if_splits)
qed

definition chain_ok :: "sub_db \<Rightarrow> bool" where
  "chain_ok db \<longleftrightarrow> sub_wf db \<and> chains_apart (sub_rows db)"

lemma delete_shift_ok:
  assumes "chain_ok db" "db_era db" "in_era now" "s \<in> set (sub_rows db)" "live s"
  shows "chain_ok (db\<lparr>sub_rows := map (\<lambda>r. if SubID r = SubID s then deleted_row later r
    else chain_shift later s (revokeChainDelta s now) r) (sub_rows db)\<rparr>)"
proof -
  have wf: "sub_wf db" and ap: "chains_apart (sub_rows db)" using assms(1) by (auto simp: chain_ok_def)
  have "chains_apart (map (\<lambda>r. if SubID r = SubID s then deleted_row later r
      else chain_shift later s (revokeChainDelta s now) r) (sub_rows db))"
    using revoke_delta(2) [OF assms(2-4)] by (intro chains_apart_change [OF wf_ids [OF wf] ap assms(4,5)]) simp_all
  then show ?thesis using wf_map [OF wf] by (simp add: chain_ok_def)
qed

lemma adjust_ok:
  assumes "chain_ok db" "db_era db" "in_era new" "sub_GetByID (SubID s) db = Some s" "SubStartsAt s < new"
  shows "chain_ok (snd (adjust_expiry now later s new db))"
proof -
  have wf: "sub_wf db" and ap: "chains_apart (sub_rows db)" using assms(1) by (auto simp: chain_ok_def)
  note s = get_live [OF assms(4)]
  have d: "time_sub new (SubExpiresAt s) = new - SubExpiresAt s"
    using assms(2,3) s by (intro in_era_sub) (auto simp: db_era_def)
  have "chains_apart (map (\<lambda>r. if SubID r = SubID s then resized_row later (chain_status now (SubStartsAt s) new) new r
      else chain_shift later s (time_sub new (SubExpiresAt s)) r) (sub_rows db))"
    using s assms(5) by (intro chains_apart_change [OF wf_ids [OF wf] ap]) (simp_all add: d resized_row_def)
  then show ?thesis using wf_map [OF wf] by (simp add: adjust_rows [OF wf assms(4)] chain_ok_def resized_row_def)
qed

lemma in_era_capped: "in_era a \<Longrightarrow> a < b \<Longrightarrow> b \<le> MaxExpiresAt \<Longrightarrow> in_era b"
  by (simp add: in_era_def)

lemma extend_ok:
  assumes "chain_ok db" "db_era db"
  shows "chain_ok (snd (ExtendSubscription loc now later sid days db))"
    "chain_ok (snd (SetSubscriptionValidityDays loc now later sid days db))"
proof -
  define cap where "cap t = (if MaxExpiresAt < t then MaxExpiresAt else t)" for t
  have step: "chain_ok (snd (adjust_expiry now later s (cap new) db))"
    if "sub_GetByID sid db = Some s" "SubStartsAt s < cap new" for s new
    using get_live [OF that(1)] that assms
    by (intro adjust_ok) (auto simp: db_era_def cap_def intro: in_era_capped split: if_splits)
  show "chain_ok (snd (ExtendSubscription loc now later sid days db))"
    using step assms(1) unfolding ExtendSubscription_def Let_def cap_def [symmetric]
    by (cases "sub_GetByID sid db") simp_all
  show "chain_ok (snd (SetSubscriptionValidityDays loc now later sid days db))"
    using step assms(1) unfolding SetSubscriptionValidityDays_def Let_def cap_def [symmetric]
    by (cases "sub_GetByID sid db") simp_all
qed

lemma revoke_ok:
  assumes "chain_ok db" "db_era db" "in_era now"
  shows "chain_ok (snd (RevokeSubscription now later sid db))"
proof (cases "sub_GetByID sid db")
  case (Some s)
  then show ?thesis
    using delete_shift_ok [OF assms, of s later] get_live [OF Some] assms(1)
    by (auto simp: revoke_rows chain_ok_def)
qed (simp add: RevokeSubscription_def assms(1))

text \<open>The maintenance of a row changes nothing the chains depend on.\<close>

lemma maintain_row_times:
  assumes "sub_wf db"
  shows "\<exists>r f. maintain_row loc now sub db = (r, db\<lparr>sub_rows := map f (sub_rows db)\<rparr>) \<and> (\<forall>s \<in> set (sub_rows db). same_times s (f s)) \<and>
    (\<forall>s'. r = Inr s' \<longrightarrow> sub_GetByID (SubID sub) (db\<lparr>sub_rows := map f (sub_rows db)\<rparr>) = Some s')"
proof (cases "sub_GetByID (SubID sub) db")
  case None
  have "EnsureWindowMaintenance loc now sub None = (Inl ErrSubscriptionNotFound, None)"
    by (auto simp: EnsureWindowMaintenance_def CheckAndActivateWindow_def ActivateWindows_def checkAndResetWindowsAt_def
        daily_maintenance_def weekly_maintenance_def monthly_maintenance_def ResetDailyUsage_def ResetWeeklyUsage_def
        ResetMonthlyUsage_def row_write_def Let_def split: option.split)
  then show ?thesis using None by (intro exI [of _ "Inl ErrSubscriptionNotFound"] exI [of _ "\<lambda>s. s"]) (simp add: maintain_row_def)
next
  case (Some s)
  note s = get_live [OF Some]
  obtain r s' where e: "EnsureWindowMaintenance loc now sub (Some s) = (r, Some s')" "same_times s s'"
    using ensure_keeps unfolding row_keeps_def by blast
  have r: "r = Inr x \<Longrightarrow> x = s'" for x using e(1)
    by (auto simp: EnsureWindowMaintenance_def split: prod.splits sum.splits option.splits)
  let ?f = "\<lambda>r. if SubID r = SubID sub then s' else r"
  have same: "\<forall>r \<in> set (sub_rows db). same_times r (?f r)"
  proof
    fix r assume "r \<in> set (sub_rows db)"
    then show "same_times r (?f r)" using e(2) s row_unique [OF wf_ids [OF assms], of r s] by (cases "SubID r = SubID sub") simp_all
  qed
  have ids: "map SubID (map ?f (sub_rows db)) = map SubID (sub_rows db)" using e(2) s by (simp add: same_times_def)
  have "distinct (map SubID (map ?f (sub_rows db)))" by (subst ids) (rule wf_ids [OF assms])
  then have unique: "distinct (map SubID (sub_rows (db\<lparr>sub_rows := map ?f (sub_rows db)\<rparr>)))" by simp
  have "s' \<in> ?f ` set (sub_rows db)" using s by (intro image_eqI [of _ _ s]) simp_all
  then have "sub_GetByID (SubID s') (db\<lparr>sub_rows := map ?f (sub_rows db)\<rparr>) = Some s'"
    using s e(2) by (intro get_live_row [OF unique]) (simp_all add: same_times_def)
  then have "\<forall>x. r = Inr x \<longrightarrow> sub_GetByID (SubID sub) (db\<lparr>sub_rows := map ?f (sub_rows db)\<rparr>) = Some x"
    using r e(2) s by (auto simp: same_times_def)
  moreover have "maintain_row loc now sub db = (r, db\<lparr>sub_rows := map ?f (sub_rows db)\<rparr>)"
    by (simp add: maintain_row_def Some e(1) update_row_def)
  ultimately show ?thesis using same by blast
qed

lemma map_ok:
  assumes "chain_ok db" "\<And>s. s \<in> set (sub_rows db) \<Longrightarrow> same_times s (f s)"
  shows "chain_ok (db\<lparr>sub_rows := map f (sub_rows db)\<rparr>)"
  using assms chains_apart_map [of "sub_rows db" f] wf_map [of db f] by (simp add: chain_ok_def same_times_def)

lemma maintain_row_ok:
  assumes "chain_ok db" "maintain_row loc now sub db = (r, db')"
  shows "chain_ok db'" "db_era db \<Longrightarrow> db_era db'"
proof -
  have wf: "sub_wf db" using assms(1) by (simp add: chain_ok_def)
  obtain f where f: "db' = db\<lparr>sub_rows := map f (sub_rows db)\<rparr>" "\<forall>s \<in> set (sub_rows db). same_times s (f s)"
    using maintain_row_times [OF wf, of loc now sub] assms(2) by auto
  show "chain_ok db'" unfolding f(1) using f(2) by (intro map_ok [OF assms(1)]) simp
  show "db_era db \<Longrightarrow> db_era db'" using f by (auto simp: db_era_def same_times_def)
qed

lemma rebind_rows [simp]:
  "sub_rows (snd (rebindSubscriptionAPIKeys now old new db)) = sub_rows db"
  "sub_next (snd (rebindSubscriptionAPIKeys now old new db)) = sub_next db"
  by (simp_all add: rebindSubscriptionAPIKeys_def Let_def)

lemma chain_ok_cong: "sub_rows db' = sub_rows db \<Longrightarrow> sub_next db' = sub_next db \<Longrightarrow> chain_ok db' = chain_ok db"
  by (simp add: chain_ok_def sub_wf_def)

lemma mapped_row:
  assumes "sub_wf db" "\<And>s. s \<in> set (sub_rows db) \<Longrightarrow> SubID (f s) = SubID s" "s \<in> set (sub_rows db)"
  shows "sub_GetByID (SubID s) (db\<lparr>sub_rows := map f (sub_rows db)\<rparr>) = (if live (f s) then Some (f s) else None)"
proof -
  let ?db = "db\<lparr>sub_rows := map f (sub_rows db)\<rparr>"
  have unique: "distinct (map SubID (sub_rows ?db))" using wf_ids [OF wf_map [OF assms(1,2)]] by simp
  have mem: "f s \<in> set (sub_rows ?db)" and i: "SubID (f s) = SubID s" using assms(2,3) by auto
  show ?thesis
  proof (cases "live (f s)")
    case True
    then show ?thesis using get_live_row [OF unique mem] i by simp
  next
    case False
    have "sub_GetByID (SubID s) ?db = None"
    proof (cases "sub_GetByID (SubID s) ?db")
      case (Some r)
      then show ?thesis using get_live [OF Some] row_unique [OF unique _ mem, of r] i False by auto
    qed
    then show ?thesis using False by simp
  qed
qed

lemma maintained_times [simp]: "same_times s (maintained loc now s)"
  by (simp add: same_times_def maintained_def Let_def live_def)

text \<open>A user's own revocation is the maintenance of the row, the revocation, and the move of the keys.\<close>

lemma self_revoke_cases [consumes 1, case_names refused revoked]:
  assumes "sub_wf db"
  obtains (refused) e where "RevokeOwnExhaustedSubscription loc now now' later u sid db = (Inl e, db)"
  | (revoked) sub db1 db2 where
    "sub_GetByID sid db = Some sub" "SubUserID sub = u" "0 < sid"
    "maintain_row loc now sub db = (Inr (maintained loc now sub), db1)"
    "db1 = db\<lparr>sub_rows := map (\<lambda>s. if SubID s = sid then maintained loc now sub else s) (sub_rows db)\<rparr>"
    "sub_GetByID sid db1 = Some (maintained loc now sub)"
    "EffectiveStatus now' (maintained loc now sub) = SubscriptionStatusActive" "HighestQuotaExhausted (maintained loc now sub)"
    "db2 = db1\<lparr>sub_rows := map (\<lambda>s. if SubID s = sid then deleted_row later s
        else chain_shift later (maintained loc now sub) (revokeChainDelta (maintained loc now sub) now') s) (sub_rows db1)\<rparr>"
    "RevokeOwnExhaustedSubscription loc now now' later u sid db =
      (case replacement_loop now' (maintained loc now sub) None (ListByUserIDAndPlanID u (SubPlanID sub) db1) of
         None \<Rightarrow> (Inr \<lparr>RevokedSubscriptionID = sid, ReplacementSubscriptionID = None, ReboundAPIKeyCount = 0\<rparr>, db2)
       | Some r \<Rightarrow> (Inr \<lparr>RevokedSubscriptionID = sid, ReplacementSubscriptionID = Some (SubID r),
               ReboundAPIKeyCount = fst (rebindSubscriptionAPIKeys later sid (SubID r) db2)\<rparr>,
             snd (rebindSubscriptionAPIKeys later sid (SubID r) db2)))"
proof -
  let ?R = "RevokeOwnExhaustedSubscription loc now now' later u sid db"
  show thesis
  proof (cases "\<exists>e. ?R = (Inl e, db)")
    case True
    then show thesis using refused by blast
  next
    case False
    then have pos: "0 < sid" and R: "?R = revokeOwnExhaustedSubscriptionInTx loc now now' later u sid db"
      by (auto simp: RevokeOwnExhaustedSubscription_def split: if_splits)
    obtain sub where get: "GetByIDIncludeDeleted sid db = Some sub"
      using False R by (cases "GetByIDIncludeDeleted sid db") (auto simp: revokeOwnExhaustedSubscriptionInTx_def)
    note row = get_any [OF get]
    have act: "SubUserID sub = u" "SubDeletedAt sub = None" "EffectiveStatus now sub = SubscriptionStatusActive"
      using False R get by (auto simp: revokeOwnExhaustedSubscriptionInTx_def split: if_splits)
    have sub: "sub_GetByID sid db = Some sub" using get_live_row [OF wf_ids [OF assms]] row act(2) by (auto simp: live_def)
    let ?s = "maintained loc now sub" and ?f = "\<lambda>s. if SubID s = sid then maintained loc now sub else s"
    let ?db1 = "db\<lparr>sub_rows := map ?f (sub_rows db)\<rparr>"
    have s: "SubID ?s = sid" "SubUserID ?s = u" "SubPlanID ?s = SubPlanID sub" "live ?s"
      using maintained_times [of sub loc now] row act by (simp_all add: same_times_def live_def)
    have ids: "SubID (?f r) = SubID r" for r using s by simp
    have m: "maintain_row loc now sub db = (Inr ?s, ?db1)"
      using sub row by (simp add: maintain_row_def ensure_row update_row_def)
    have got: "sub_GetByID sid ?db1 = Some ?s" using mapped_row [OF assms ids conjunct1 [OF row]] row s by simp
    have wf1: "sub_wf ?db1" by (rule wf_map [OF assms ids])
    let ?db2 = "?db1\<lparr>sub_rows := map (\<lambda>s. if SubID s = sid then deleted_row later s
        else chain_shift later ?s (revokeChainDelta ?s now') s) (sub_rows ?db1)\<rparr>"
    have shift: "shiftLaterChain later (ListByUserIDAndPlanID u (SubPlanID sub) ?db1) ?s (revokeChainDelta ?s now') (sub_Delete later sid ?db1) = Inr ?db2"
      using delete_shift [OF wf_ids [OF wf1], of later ?s "revokeChainDelta ?s now'"] s by simp
    have eff: "EffectiveStatus now' ?s = SubscriptionStatusActive" "HighestQuotaExhausted ?s"
      using False R get act m s by (auto simp: revokeOwnExhaustedSubscriptionInTx_def split: if_splits)
    show thesis
    proof (rule revoked [OF sub act(1) pos m refl got eff refl])
      show "?R = (case replacement_loop now' ?s None (ListByUserIDAndPlanID u (SubPlanID sub) ?db1) of
         None \<Rightarrow> (Inr \<lparr>RevokedSubscriptionID = sid, ReplacementSubscriptionID = None, ReboundAPIKeyCount = 0\<rparr>, ?db2)
       | Some r \<Rightarrow> (Inr \<lparr>RevokedSubscriptionID = sid, ReplacementSubscriptionID = Some (SubID r),
               ReboundAPIKeyCount = fst (rebindSubscriptionAPIKeys later sid (SubID r) ?db2)\<rparr>,
             snd (rebindSubscriptionAPIKeys later sid (SubID r) ?db2)))"
        unfolding R revokeOwnExhaustedSubscriptionInTx_def get m option.case sum.case prod.case
        using act eff s shift by (simp add: Let_def split: option.split prod.split)
    qed
  qed
qed

lemma self_revoke_ok:
  assumes "chain_ok db" "db_era db" "in_era now'"
  shows "chain_ok (snd (RevokeOwnExhaustedSubscription loc now now' later u sid db))"
proof -
  have wf: "sub_wf db" using assms(1) by (simp add: chain_ok_def)
  from wf show ?thesis
  proof (cases rule: self_revoke_cases [where loc = loc and now = now and now' = now' and later = later and u = u and sid = sid])
    case (refused e)
    then show ?thesis using assms(1) by simp
  next
    case (revoked sub db1 db2)
    have "chain_ok db1" "db_era db1" using maintain_row_ok [OF assms(1) revoked(4)] assms(2) by simp_all
    then have "chain_ok (db1\<lparr>sub_rows := map (\<lambda>s. if SubID s = SubID (maintained loc now sub) then deleted_row later s
        else chain_shift later (maintained loc now sub) (revokeChainDelta (maintained loc now sub) now') s) (sub_rows db1)\<rparr>)"
      using get_live [OF revoked(6)] assms(3) by (intro delete_shift_ok) auto
    moreover have "SubID (maintained loc now sub) = sid" using get_live [OF revoked(6)] by simp
    ultimately have "chain_ok db2" unfolding revoked(9) by simp
    then show ?thesis unfolding revoked(10)
      by (auto simp: chain_ok_cong [OF rebind_rows] split: option.split)
  qed
qed

text \<open>The latest subscription ends after all others of its chain.\<close>

lemma latest_ends_last:
  assumes "a \<in> set (sub_rows db)" "in_chain u p a"
  obtains l where "GetLatestByUserIDAndPlanID u p db = Some l" "SubExpiresAt a \<le> SubExpiresAt l"
proof -
  let ?key = "\<lambda>s. (- SubExpiresAt s, - SubCreatedAt s)"
  let ?l = "sort_key ?key (filter (in_chain u p) (sub_rows db))"
  have "a \<in> set ?l" using assms by simp
  moreover have "sorted (map ?key ?l)" by (rule sorted_sort_key)
  ultimately show thesis using that
    by (cases ?l) (auto simp: GetLatestByUserIDAndPlanID_def less_eq_prod_def)
qed

lemma create_ok:
  assumes "chain_ok db" "SubStartsAt sub \<noteq> zero_time" "\<And>a. a \<in> set (sub_rows db) \<Longrightarrow> in_chain (SubUserID sub) (SubPlanID sub) a \<Longrightarrow> SubExpiresAt a \<le> SubStartsAt sub"
  shows "chain_ok (snd (sub_Create now sub db))"
  using assms by (auto simp: chain_ok_def sub_Create_def Let_def sub_wf_def chains_apart_def same_chain_def apart_def
      in_chain_def live_def)

text \<open>What a grant creates.\<close>

lemma unlocked_creates:
  "\<exists>sub q. SubUserID sub = AssignUserID input \<and> SubPlanID sub = AssignPlanID input \<and> SubSourceOrderID sub = SourceOrderID input \<and>
     SubStartsAt sub = (case GetLatestByUserIDAndPlanID (AssignUserID input) (AssignPlanID input) db of
       None \<Rightarrow> now | Some latest \<Rightarrow> max now (SubExpiresAt latest)) \<and>
     assignOrExtendSubscriptionUnlocked loc now input template db =
       (case sub_Create now sub db of (sid, db') \<Rightarrow> case sub_GetByID sid db' of
          None \<Rightarrow> (Inl ErrSubscriptionNotFound, db) | Some created \<Rightarrow> (Inr (created, q), db'))"
proof -
  define latest where "latest = (case GetLatestByUserIDAndPlanID (AssignUserID input) (AssignPlanID input) db of
      None \<Rightarrow> (now, False)
    | Some latest \<Rightarrow> if now < SubExpiresAt latest then (SubExpiresAt latest, True) else (now, False))"
  have start: "(case GetLatestByUserIDAndPlanID (AssignUserID input) (AssignPlanID input) db of
      None \<Rightarrow> (now, False)
    | Some latest \<Rightarrow> if now < SubExpiresAt latest then (SubExpiresAt latest, True) else (now, False)) = (fst latest, snd latest)"
    by (simp add: latest_def)
  have late: "fst latest = (case GetLatestByUserIDAndPlanID (AssignUserID input) (AssignPlanID input) db of
      None \<Rightarrow> now | Some latest \<Rightarrow> max now (SubExpiresAt latest))"
    by (simp add: latest_def split: option.split)
  show ?thesis unfolding assignOrExtendSubscriptionUnlocked_def Let_def start prod.case late [symmetric]
    by (intro exI conjI; (rule refl)?) simp_all
qed

lemma grant_ok:
  assumes "chain_ok db" "in_era now"
  shows "chain_ok (snd (AssignOrExtendSubscription users plans loc now input db))"
proof -
  have "chain_ok (snd (assignOrExtendSubscriptionUnlocked loc now input template db))" for input template
  proof -
    let ?u = "AssignUserID input" and ?p = "AssignPlanID input"
    obtain sub q where sub: "SubUserID sub = ?u" "SubPlanID sub = ?p"
      "SubStartsAt sub = (case GetLatestByUserIDAndPlanID ?u ?p db of None \<Rightarrow> now | Some latest \<Rightarrow> max now (SubExpiresAt latest))"
      and eq: "assignOrExtendSubscriptionUnlocked loc now input template db =
       (case sub_Create now sub db of (sid, db') \<Rightarrow> case sub_GetByID sid db' of
          None \<Rightarrow> (Inl ErrSubscriptionNotFound, db) | Some created \<Rightarrow> (Inr (created, q), db'))"
      using unlocked_creates [where input = input and db = db and now = now and loc = loc and template = template] by blast
    have late: "now \<le> SubStartsAt sub" by (simp add: sub(3) split: option.split)
    have after: "SubExpiresAt a \<le> SubStartsAt sub" if a: "a \<in> set (sub_rows db)" "in_chain (SubUserID sub) (SubPlanID sub) a" for a
    proof (rule latest_ends_last [OF a])
      fix l assume "GetLatestByUserIDAndPlanID (SubUserID sub) (SubPlanID sub) db = Some l" "SubExpiresAt a \<le> SubExpiresAt l"
      then show ?thesis using sub by simp
    qed
    have "chain_ok (snd (sub_Create now sub db))"
      using late in_era_pos [OF assms(2)] after by (intro create_ok [OF assms(1)]) (auto simp: zero_time_def)
    then show ?thesis unfolding eq using assms(1) by (cases "sub_Create now sub db") (simp split: option.split)
  qed
  then show ?thesis using assms(1)
    by (auto simp: AssignOrExtendSubscription_def split: option.split sum.split)
qed

lemma bulk_ok:
  assumes "chain_ok db" "in_era now"
  shows "chain_ok (snd (bulk_loop users plans loc now input us r db))"
  using assms(1)
proof (induction us arbitrary: r db)
  case (Cons u us)
  have "chain_ok (snd (AssignOrExtendSubscription users plans loc now (Some (input\<lparr>AssignUserID := u\<rparr>)) db))"
    by (rule grant_ok [OF Cons.prems assms(2)])
  then show ?case using Cons.IH by (auto split: prod.split sum.split)
qed simp

lemma charge_ok:
  assumes "chain_ok db"
  shows "chain_ok (snd (RecordUsage env sid c db))"
proof (cases "GetByIDIncludeDeleted sid db")
  case (Some s)
  note row = get_any [OF Some]
  have "row_keeps (IncrementUsage env c)" by (auto simp: row_keeps_def IncrementUsage_def same_times_def live_def)
  then obtain r s' where i: "IncrementUsage env c (Some s) = (r, Some s')" "same_times s s'"
    unfolding row_keeps_def by blast
  have "same_times r (if SubID r = sid then s' else r)" if "r \<in> set (sub_rows db)" for r
    using that row i(2) row_unique [of "sub_rows db" r s] assms by (auto simp: chain_ok_def sub_wf_def)
  then show ?thesis using map_ok [OF assms, of "\<lambda>r. if SubID r = sid then s' else r"]
    by (simp add: RecordUsage_def Some i(1) update_row_def)
qed (simp add: RecordUsage_def IncrementUsage_def assms)

text \<open>The histories of the table in which nothing is restored.  Copies that the maintenance works on may be stale.\<close>

inductive chain_reachable :: "sub_db \<Rightarrow> bool" where
  empty: "chain_reachable \<lparr>sub_rows = [], sub_next = 1, key_rows = keys\<rparr>"
| grant: "chain_reachable db \<Longrightarrow> in_era now \<Longrightarrow> chain_reachable (snd (AssignOrExtendSubscription users plans loc now input db))"
| bulk: "chain_reachable db \<Longrightarrow> in_era now \<Longrightarrow> chain_reachable (snd (BulkAssignSubscription users plans loc now input' us db))"
| revoke: "chain_reachable db \<Longrightarrow> db_era db \<Longrightarrow> in_era now \<Longrightarrow> chain_reachable (snd (RevokeSubscription now later sid db))"
| self_revoke: "chain_reachable db \<Longrightarrow> db_era db \<Longrightarrow> in_era now' \<Longrightarrow>
    chain_reachable (snd (RevokeOwnExhaustedSubscription loc now now' later u sid db))"
| extend: "chain_reachable db \<Longrightarrow> db_era db \<Longrightarrow> chain_reachable (snd (ExtendSubscription loc now later sid days db))"
| set_validity: "chain_reachable db \<Longrightarrow> db_era db \<Longrightarrow> chain_reachable (snd (SetSubscriptionValidityDays loc now later sid days db))"
| expire: "chain_reachable db \<Longrightarrow> chain_reachable (BatchUpdateExpiredStatus now db)"
| charge: "chain_reachable db \<Longrightarrow> chain_reachable (snd (RecordUsage (env :: go_env) sid cost db))"
| maintain: "chain_reachable db \<Longrightarrow> chain_reachable (snd (maintain_row loc now copy db))"

lemma reachable_chain_ok: "chain_reachable db \<Longrightarrow> chain_ok db"
proof (induction rule: chain_reachable.induct)
  case (expire db now)
  show ?case unfolding BatchUpdateExpiredStatus_def by (rule map_ok [OF expire.IH]) (simp add: same_times_def live_def)
next
  case (maintain db loc now copy)
  show ?case by (rule maintain_row_ok(1) [OF maintain.IH prod.collapse [symmetric]])
next
  case (bulk db now users plans loc input' us)
  then show ?case by (simp add: BulkAssignSubscription_def bulk_ok)
next
  case (empty keys)
  show ?case by (simp add: chain_ok_def sub_wf_def chains_apart_def)
qed (simp_all add: charge_ok grant_ok revoke_ok self_revoke_ok extend_ok)


section \<open>What the operations do\<close>

lemma reachable_wf: "chain_reachable db \<Longrightarrow> sub_wf db"
  using reachable_chain_ok by (simp add: chain_ok_def)

text \<open>C32. Revoking a subscription gives its unused time back to the queue: the row disappears, every subscription of the chain
  that starts at its end or later begins and ends earlier by exactly the unused time, and no other row changes.\<close>

theorem revocation_closes_gap:
  assumes "chain_reachable db" "db_era db" "in_era now" "sub_GetByID sid db = Some s" "SubStartsAt s \<le> SubExpiresAt s"
  shows "\<exists>db'. RevokeSubscription now later sid db = (None, db') \<and> sub_GetByID sid db' = None \<and>
    (\<forall>r \<in> set (sub_rows db). SubID r \<noteq> sid \<longrightarrow>
       (let unused = max 0 (SubExpiresAt s - max now (SubStartsAt s)) in
        if 0 < unused \<and> SubDeletedAt r = None \<and> SubUserID r = SubUserID s \<and> SubPlanID r = SubPlanID s \<and> SubExpiresAt s \<le> SubStartsAt r
        then (\<exists>r'. sub_GetByID (SubID r) db' = Some r' \<and> SubStartsAt r' = SubStartsAt r - unused \<and>
                SubExpiresAt r' = min (SubExpiresAt r - unused) MaxExpiresAt)
        else r \<in> set (sub_rows db')))"
proof -
  have wf: "sub_wf db" by (rule reachable_wf [OF assms(1)])
  note s = get_live [OF assms(4)]
  let ?d = "revokeChainDelta s now"
  let ?f = "\<lambda>r. if SubID r = sid then deleted_row later r else chain_shift later s ?d r"
  have ids: "SubID (?f r) = SubID r" for r by simp
  have d: "?d = - max 0 (SubExpiresAt s - max now (SubStartsAt s))"
    using revoke_delta(1) [OF assms(2,3) conjunct1 [OF s]] assms(5) by auto
  have gone: "sub_GetByID sid (db\<lparr>sub_rows := map ?f (sub_rows db)\<rparr>) = None"
    using mapped_row [OF wf ids conjunct1 [OF s]] s by simp
  have later: "sub_GetByID (SubID r) (db\<lparr>sub_rows := map ?f (sub_rows db)\<rparr>) = Some (moved later ?d r)"
    if "r \<in> set (sub_rows db)" "SubID r \<noteq> sid" "?d \<noteq> 0" "SubDeletedAt r = None" "SubUserID r = SubUserID s" "SubPlanID r = SubPlanID s"
      "SubExpiresAt s \<le> SubStartsAt r" for r
    using mapped_row [OF wf ids that(1)] that s by (simp add: chain_shift_def behind_def in_chain_def live_def)
  have same: "r \<in> ?f ` set (sub_rows db)"
    if "r \<in> set (sub_rows db)" "SubID r \<noteq> sid" "\<not> (?d \<noteq> 0 \<and> SubDeletedAt r = None \<and> SubUserID r = SubUserID s \<and> SubPlanID r = SubPlanID s \<and>
      SubExpiresAt s \<le> SubStartsAt r)" for r
    using that by (intro image_eqI [of _ _ r]) (auto simp: chain_shift_def behind_def in_chain_def live_def)
  let ?u = "max 0 (SubExpiresAt s - max now (SubStartsAt s))"
  have pos: "0 < ?u \<longleftrightarrow> ?d \<noteq> 0" using d by auto
  have "(let unused = ?u in
        if 0 < unused \<and> SubDeletedAt r = None \<and> SubUserID r = SubUserID s \<and> SubPlanID r = SubPlanID s \<and> SubExpiresAt s \<le> SubStartsAt r
        then (\<exists>r'. sub_GetByID (SubID r) (db\<lparr>sub_rows := map ?f (sub_rows db)\<rparr>) = Some r' \<and> SubStartsAt r' = SubStartsAt r - unused \<and>
                SubExpiresAt r' = min (SubExpiresAt r - unused) MaxExpiresAt)
        else r \<in> set (sub_rows (db\<lparr>sub_rows := map ?f (sub_rows db)\<rparr>)))" if "r \<in> set (sub_rows db)" "SubID r \<noteq> sid" for r
  proof (cases "?d \<noteq> 0 \<and> SubDeletedAt r = None \<and> SubUserID r = SubUserID s \<and> SubPlanID r = SubPlanID s \<and> SubExpiresAt s \<le> SubStartsAt r")
    case True
    then show ?thesis using later [OF that] unfolding Let_def pos by (simp add: d)
  next
    case False
    then show ?thesis using same [OF that False] unfolding Let_def pos by auto
  qed
  then show ?thesis unfolding revoke_rows [OF wf assms(4)] using gone by blast
qed

text \<open>A restored subscription fits into its chain: the restoration succeeds only for a revoked one, and then the subscription
  has already expired or overlaps with no subscription of its chain that has not.\<close>

theorem restore_fits:
  assumes "chain_reachable db" "RestoreSubscription now later sid db = (Inr r, db')"
  shows "\<exists>s. GetByIDIncludeDeleted sid db = Some s \<and> SubDeletedAt s \<noteq> None \<and> sub_GetByID sid db' = Some r \<and>
    SubStartsAt r = SubStartsAt s \<and> SubExpiresAt r = SubExpiresAt s \<and>
    (SubExpiresAt r \<le> now \<or>
     (\<forall>b \<in> set (sub_rows db'). SubDeletedAt b = None \<and> SubUserID b = SubUserID r \<and> SubPlanID b = SubPlanID r \<and> SubID b \<noteq> sid \<and> now < SubExpiresAt b \<longrightarrow>
        SubExpiresAt r \<le> SubStartsAt b \<or> SubExpiresAt b \<le> SubStartsAt r))"
proof -
  have wf: "sub_wf db" by (rule reachable_wf [OF assms(1)])
  obtain s where s: "GetByIDIncludeDeleted sid db = Some s" "SubDeletedAt s \<noteq> None"
    using assms(2) by (auto simp: RestoreSubscription_def Let_def split: option.splits if_splits)
  note row = get_any [OF s(1)]
  let ?status = "restoredSubscriptionStatus s now"
  let ?f = "\<lambda>b. if SubID b = sid then b\<lparr>SubStatus := ?status, SubDeletedAt := None, SubUpdatedAt := later\<rparr> else b"
  have fits: "?status = SubscriptionStatusExpired \<or>
      \<not> subscriptionRestoreWouldOverlap s (ListByUserIDAndPlanID (SubUserID s) (SubPlanID s) db) now"
    and restore: "sub_Restore later sid ?status db = (Inr r, db')"
    using assms(2) s by (auto simp: RestoreSubscription_def Let_def split: if_splits)
  have db': "db' = db\<lparr>sub_rows := map ?f (sub_rows db)\<rparr>" and get: "sub_GetByID sid db' = Some r"
    using restore s(1) by (auto simp: sub_Restore_def UpdateOneID_def update_row_def split: option.splits)
  have ids: "SubID (?f b) = SubID b" for b by simp
  have r: "r = ?f s" using get row mapped_row [OF wf ids conjunct1 [OF row]] unfolding db' by (simp add: live_def)
  have "SubExpiresAt r \<le> now \<or> SubExpiresAt r \<le> SubStartsAt b \<or> SubExpiresAt b \<le> SubStartsAt r"
    if b: "b \<in> set (sub_rows db')" "SubDeletedAt b = None" "SubUserID b = SubUserID r" "SubPlanID b = SubPlanID r" "SubID b \<noteq> sid" "now < SubExpiresAt b" for b
  proof -
    have "b \<in> set (sub_rows db)" using b(1,5) by (auto simp: db')
    then have "b \<in> set (ListByUserIDAndPlanID (SubUserID s) (SubPlanID s) db)"
      using b r row by (simp add: chain_members in_chain_def live_def)
    then show ?thesis using fits b row r
      by (auto simp: restoredSubscriptionStatus_def EffectiveStatus_def sub_status subscriptionRestoreWouldOverlap_def list_ex_iff split: if_splits)
  qed
  then show ?thesis using s get row r by auto
qed

text \<open>Of the subscriptions that can be charged, the one that expires first is found.\<close>

definition chargeable :: "'z go_env_scheme \<Rightarrow> (int64 \<Rightarrow> int64 list option) \<Rightarrow> Location \<Rightarrow> gtime \<Rightarrow> int64 \<Rightarrow> int64 option \<Rightarrow> UserSubscription \<Rightarrow> bool" where
  "chargeable env groups loc now u groupID s \<longleftrightarrow>
     SubDeletedAt s = None \<and> SubUserID s = u \<and> SubStatus s \<in> {SubscriptionStatusActive, SubscriptionStatusPending} \<and>
     EffectiveStatus now s = SubscriptionStatusActive \<and>
     (case groupID of None \<Rightarrow> True | Some g \<Rightarrow> 0 < g \<longrightarrow>
        (case groups (SubPlanID s) of None \<Rightarrow> False | Some gs \<Rightarrow> gs = [] \<or> g \<in> set gs)) \<and>
     fst (snd (ValidateAndCheckLimits env loc now s)) = None"

lemma check_limits_error: "checkSubscriptionUsageLimits env s c = Some e \<Longrightarrow>
    e \<in> {ErrDailyLimitExceeded, ErrWeeklyLimitExceeded, ErrMonthlyLimitExceeded}"
  by (auto simp: checkSubscriptionUsageLimits_def split: if_splits)

lemma usable_loop_find:
  assumes "\<forall>s \<in> set subs. SubDeletedAt s = None"
  shows "usable_loop env loc now subs =
    (case find (\<lambda>s. fst (snd (ValidateAndCheckLimits env loc now s)) = None) subs of
       None \<Rightarrow> Inl ErrSubscriptionNotFound
     | Some s \<Rightarrow> Inr (snd (snd (ValidateAndCheckLimits env loc now s)), fst (ValidateAndCheckLimits env loc now s)))"
  using assms
proof (induction subs)
  case (Cons s subs)
  obtain m r s' where v: "ValidateAndCheckLimits env loc now s = (m, r, s')" by (metis prod_cases3)
  have "EffectiveStatus now s \<noteq> SubscriptionStatusRevoked" using Cons.prems by (simp add: EffectiveStatus_def sub_status)
  then have "r = Some e \<Longrightarrow> e \<in> {ErrDailyLimitExceeded, ErrWeeklyLimitExceeded, ErrMonthlyLimitExceeded, ErrSubscriptionExpired,
      ErrSubscriptionSuspended, ErrSubscriptionInvalid}" for e
    using v check_limits_error by (fastforce simp: ValidateAndCheckLimits_def Let_def split: if_splits)
  then show ?case using Cons v by (cases r) auto
qed simp

lemma find_sorted:
  assumes "find P (sort_key k xs) = Some x"
  shows "x \<in> set xs \<and> P x \<and> (\<forall>y \<in> set xs. P y \<longrightarrow> k x \<le> k y)"
proof -
  obtain i where i: "i < length xs" "P (sort_key k xs ! i)" "x = sort_key k xs ! i" "\<forall>j<i. \<not> P (sort_key k xs ! j)"
    using assms by (auto simp: find_Some_iff)
  have "k x \<le> k y" if "y \<in> set xs" "P y" for y
  proof -
    have "y \<in> set (sort_key k xs)" using that(1) by simp
    then obtain j where j: "j < length xs" "y = sort_key k xs ! j" unfolding in_set_conv_nth by auto
    then have "i \<le> j" using i(4) that(2) not_less by blast
    then have "map k (sort_key k xs) ! i \<le> map k (sort_key k xs) ! j"
      by (intro sorted_nth_mono [OF sorted_sort_key]) (simp_all add: j(1))
    then show ?thesis using i(1,3) j by simp
  qed
  moreover have "x \<in> set xs" using i(1,3) by (metis length_sort nth_mem set_sort)
  ultimately show ?thesis using i(2,3) by blast
qed

lemma active_effective:
  "live s \<and> SubStartsAt s \<le> now \<and> now < SubExpiresAt s \<and> SubStatus s \<in> {SubscriptionStatusActive, SubscriptionStatusPending} \<longleftrightarrow>
   SubDeletedAt s = None \<and> SubStatus s \<in> {SubscriptionStatusActive, SubscriptionStatusPending} \<and> EffectiveStatus now s = SubscriptionStatusActive"
  by (auto simp: live_def EffectiveStatus_def sub_status)

text \<open>Charging uses up what expires first: the search finds a subscription exactly if one is in effect, open to the group and
  within its limits, and of those it finds one that expires first.  The only error is that there is none.\<close>

theorem usable_expires_first:
  "case GetUsableSubscription env groups loc now u groupID db of
     Inl e \<Rightarrow> e = ErrSubscriptionNotFound \<and> (\<nexists>s. s \<in> set (sub_rows db) \<and> chargeable env groups loc now u groupID s)
   | Inr (s', m) \<Rightarrow> \<exists>s. s \<in> set (sub_rows db) \<and> chargeable env groups loc now u groupID s \<and>
       (m, None, s') = ValidateAndCheckLimits env loc now s \<and>
       (\<forall>t. t \<in> set (sub_rows db) \<and> chargeable env groups loc now u groupID t \<longrightarrow> SubExpiresAt s \<le> SubExpiresAt t)"
proof -
  let ?key = "\<lambda>s. (SubExpiresAt s, SubStartsAt s)" and ?P = "\<lambda>s. fst (snd (ValidateAndCheckLimits env loc now s)) = None"
  define subs where "subs = (case groupID of None \<Rightarrow> ListActiveByUserID now u db
    | Some g \<Rightarrow> if 0 < g then FilterByGroup groups (ListActiveByUserID now u db) g else ListActiveByUserID now u db)"
  have listed: "s \<in> set (ListActiveByUserID now u db) \<longleftrightarrow> s \<in> set (sub_rows db) \<and> SubUserID s = u \<and>
      SubDeletedAt s = None \<and> SubStatus s \<in> {SubscriptionStatusActive, SubscriptionStatusPending} \<and> EffectiveStatus now s = SubscriptionStatusActive" for s
    using active_effective [of s now] by (simp add: ListActiveByUserID_def) blast
  have mem: "s \<in> set subs \<and> ?P s \<longleftrightarrow> s \<in> set (sub_rows db) \<and> chargeable env groups loc now u groupID s" for s
  proof (cases groupID)
    case None
    then show ?thesis by (simp add: subs_def chargeable_def listed) blast
  next
    case (Some g)
    have "s \<in> set subs \<longleftrightarrow> s \<in> set (ListActiveByUserID now u db) \<and> (0 < g \<longrightarrow>
        (case groups (SubPlanID s) of None \<Rightarrow> False | Some gs \<Rightarrow> gs = [] \<or> g \<in> set gs))"
      by (auto simp: Some subs_def FilterByGroup_def)
    then show ?thesis by (simp add: Some chargeable_def listed) blast
  qed
  have "\<forall>s \<in> set (sort_key ?key subs). SubDeletedAt s = None"
    by (auto simp: subs_def ListActiveByUserID_def FilterByGroup_def live_def split: option.splits)
  note loop = usable_loop_find [OF this, of env loc now]
  have eq: "GetUsableSubscription env groups loc now u groupID db = usable_loop env loc now (sort_key ?key subs)"
    by (simp add: GetUsableSubscription_def subs_def Let_def)
  show ?thesis
  proof (cases "find ?P (sort_key ?key subs)")
    case None
    then have "\<not> (s \<in> set subs \<and> ?P s)" for s by (auto simp: find_None_iff)
    then show ?thesis unfolding eq loop None using mem by simp
  next
    case (Some s)
    have "s \<in> set subs \<and> ?P s" and least: "SubExpiresAt s \<le> SubExpiresAt t" if "t \<in> set subs \<and> ?P t" for t
      using find_sorted [OF Some] that by (auto simp: less_eq_prod_def)
    moreover have "s \<in> set subs \<and> ?P s" using find_sorted [OF Some] by blast
    moreover from this have "(fst (ValidateAndCheckLimits env loc now s), None, snd (snd (ValidateAndCheckLimits env loc now s))) = ValidateAndCheckLimits env loc now s"
      by (metis prod.collapse)
    ultimately show ?thesis unfolding eq loop Some using mem by auto
  qed
qed

text \<open>An order grants once: once an order has been granted, a repeated grant for the same order, with whatever other input,
  returns the subscription granted first and changes nothing.\<close>

theorem grant_once_per_order:
  assumes "chain_reachable db" "AssignOrExtendSubscription users plans loc now (Some input) db = (Inr (s, q), db')"
    "SourceOrderID input = Some order" "0 < order" "SourceOrderID input' = Some order"
  shows "\<exists>s' q'. AssignOrExtendSubscription users' plans' loc' now' (Some input') db' = (Inr (s', q'), db') \<and> SubID s' = SubID s"
proof (cases "ListBySourceOrderID order db")
  case (Cons t ts)
  then show ?thesis using assms(2-)
    by (auto simp: AssignOrExtendSubscription_def findSourceOrderSubscription_def normalizeSubscriptionStatus_def)
next
  case Nil
  let ?hit = "\<lambda>r. live r \<and> SubSourceOrderID r = Some order"
  have none: "filter ?hit (sub_rows db) = []" using arg_cong [OF Nil, of set] by (simp add: ListBySourceOrderID_def filter_empty_conv)
  obtain template where "assignOrExtendSubscriptionUnlocked loc now input template db = (Inr (s, q), db')"
    using assms(2-4) Nil by (auto simp: AssignOrExtendSubscription_def findSourceOrderSubscription_def normalizeSubscriptionStatus_def
        split: sum.splits if_splits)
  moreover obtain sub q' where sub: "SubSourceOrderID sub = Some order"
    and "assignOrExtendSubscriptionUnlocked loc now input template db = (case sub_Create now sub db of (sid, db') \<Rightarrow> case sub_GetByID sid db' of
          None \<Rightarrow> (Inl ErrSubscriptionNotFound, db) | Some created \<Rightarrow> (Inr (created, q'), db'))"
    using unlocked_creates [where input = input and db = db and now = now and loc = loc and template = template] assms(3) by auto
  ultimately have "sub_Create now sub db = (fst (sub_Create now sub db), db')" "sub_GetByID (fst (sub_Create now sub db)) db' = Some s"
    by (auto split: prod.splits option.splits)
  then have c: "sub_Create now sub db = (sub_next db, db')" "SubSourceOrderID sub = Some order" "sub_GetByID (sub_next db) db' = Some s"
    using sub by (simp_all add: sub_Create_def Let_def)
  then have "ListBySourceOrderID order db' = [t] \<Longrightarrow> ?thesis" if "SubID t = sub_next db" for t
    using that assms(4,5) get_live [OF c(3)]
    by (simp add: AssignOrExtendSubscription_def findSourceOrderSubscription_def normalizeSubscriptionStatus_def)
  moreover have "\<exists>t. ListBySourceOrderID order db' = [t] \<and> SubID t = sub_next db"
    using c(1,2) none by (auto simp: sub_Create_def Let_def ListBySourceOrderID_def live_def)
  ultimately show ?thesis by blast
qed

text \<open>The replacement is the earliest subscription that waits behind the revoked one.\<close>

definition waits_behind :: "gtime \<Rightarrow> UserSubscription \<Rightarrow> UserSubscription \<Rightarrow> bool" where
  "waits_behind now s r \<longleftrightarrow> behind s r \<and> SubStatus r = SubscriptionStatusPending \<and> EffectiveStatus now r = SubscriptionStatusPending"

lemma replacement_loop_least:
  assumes "replacement_loop now s best chain = x" "\<And>b. best = Some b \<Longrightarrow> waits_behind now s b"
  shows "case x of None \<Rightarrow> best = None \<and> (\<forall>r \<in> set chain. \<not> waits_behind now s r)
    | Some y \<Rightarrow> (y \<in> set chain \<or> best = Some y) \<and> waits_behind now s y \<and>
        (\<forall>r. r \<in> set chain \<and> waits_behind now s r \<or> best = Some r \<longrightarrow> SubStartsAt y \<le> SubStartsAt r)"
  using assms
proof (induction chain arbitrary: best)
  case Nil
  then show ?case by (auto split: option.split)
next
  case (Cons item chain)
  have w: "(SubID item = SubID s \<or> SubStartsAt item < SubExpiresAt s \<or> \<not> now < SubExpiresAt item \<or>
         SubStatus item \<noteq> SubscriptionStatusPending \<or> EffectiveStatus now item \<noteq> SubscriptionStatusPending) \<longleftrightarrow> \<not> waits_behind now s item"
    by (auto simp: waits_behind_def behind_def EffectiveStatus_def sub_status)
  let ?best = "if waits_behind now s item
      then (case best of None \<Rightarrow> Some item | Some b \<Rightarrow> if SubStartsAt item < SubStartsAt b then Some item else Some b) else best"
  have "replacement_loop now s ?best chain = x"
    using Cons.prems(1) by (cases "waits_behind now s item") (simp_all only: replacement_loop.simps w not_not if_True if_False simp_thms)
  moreover have "waits_behind now s b" if "?best = Some b" for b using that Cons.prems(2) by (auto split: if_splits option.splits)
  ultimately have "case x of None \<Rightarrow> ?best = None \<and> (\<forall>r \<in> set chain. \<not> waits_behind now s r)
    | Some y \<Rightarrow> (y \<in> set chain \<or> ?best = Some y) \<and> waits_behind now s y \<and>
        (\<forall>r. r \<in> set chain \<and> waits_behind now s r \<or> ?best = Some r \<longrightarrow> SubStartsAt y \<le> SubStartsAt r)"
    by (rule Cons.IH)
  then show ?case by (cases "waits_behind now s item"; cases best; cases x) (fastforce split: if_splits)+
qed


section \<open>Concrete histories\<close>

lemma inr_pair: "\<not> isl (fst p) \<Longrightarrow> p = (Inr (projr (fst p)), snd p)"
  by (cases p) (auto split: sum.splits)

definition chain_day :: "int \<Rightarrow> gtime" where
  "chain_day n = (740000 + n) * day_length"

definition ten_days :: "int64 option \<Rightarrow> AssignSubscriptionInput" where
  "ten_days order = \<lparr>AssignUserID = 7, AssignPlanID = 3, ValidityDays = 10, AssignDailyLimitUSD = None, AssignWeeklyLimitUSD = None,
     AssignMonthlyLimitUSD = Some (Fin 5), UseProvidedTemplate = True, SourceOrderID = order, AssignedBy = 0, AssignNotes = []\<rparr>"

definition no_subs :: sub_db where
  "no_subs = \<lparr>sub_rows = [], sub_next = 1, key_rows = [\<lparr>KeyBillingMode = ''subscription'', KeyPreferredSubscriptionID = Some 1,
     KeyDeletedAt = None, KeyUpdatedAt = chain_day 0\<rparr>]\<rparr>"

definition grant_ten :: "sub_db \<Rightarrow> sub_db" where
  "grant_ten db = snd (AssignOrExtendSubscription (\<lambda>u. True) (\<lambda>p. None) UTC (chain_day 0) (Some (ten_days None)) db)"

text \<open>Ten days from day 0, and ten more queued behind them.\<close>

definition two_subs :: sub_db where
  "two_subs = grant_ten (grant_ten no_subs)"

definition spans :: "sub_db \<Rightarrow> (int64 \<times> gtime \<times> gtime \<times> string \<times> bool) list" where
  "spans db = map (\<lambda>s. (SubID s, SubStartsAt s, SubExpiresAt s, SubStatus s, live s)) (sub_rows db)"

lemma two_subs_spans: "spans two_subs = [(1, chain_day 0, chain_day 10, ''active'', True), (2, chain_day 10, chain_day 20, ''pending'', True)]"
  by code_simp

lemma two_subs_reachable: "chain_reachable two_subs" "db_era two_subs" "in_era (chain_day 4)"
proof -
  show "in_era (chain_day 4)" by code_simp
  have "in_era (chain_day 0)" by code_simp
  then show "chain_reachable two_subs" unfolding two_subs_def grant_ten_def no_subs_def by (intro chain_reachable.intros)
  show "db_era two_subs" by code_simp
qed


theorem revocation_closes_gap_witness:
  "\<exists>db'. RevokeSubscription (chain_day 4) (chain_day 4) 1 two_subs = (None, db') \<and> sub_GetByID 1 db' = None \<and>
    (\<exists>r'. sub_GetByID 2 db' = Some r' \<and> SubStartsAt r' = chain_day 4 \<and> SubExpiresAt r' = chain_day 14)"
proof -
  have s: "sub_GetByID 1 two_subs = Some (sub_rows two_subs ! 0)" by code_simp
  have le: "SubStartsAt (sub_rows two_subs ! 0) \<le> SubExpiresAt (sub_rows two_subs ! 0)" by code_simp
  have r: "sub_rows two_subs ! 1 \<in> set (sub_rows two_subs)" "SubID (sub_rows two_subs ! 1) = 2" by code_simp+
  have cond: "0 < max 0 (SubExpiresAt (sub_rows two_subs ! 0) - max (chain_day 4) (SubStartsAt (sub_rows two_subs ! 0))) \<and>
      SubDeletedAt (sub_rows two_subs ! 1) = None \<and> SubUserID (sub_rows two_subs ! 1) = SubUserID (sub_rows two_subs ! 0) \<and>
      SubPlanID (sub_rows two_subs ! 1) = SubPlanID (sub_rows two_subs ! 0) \<and>
      SubExpiresAt (sub_rows two_subs ! 0) \<le> SubStartsAt (sub_rows two_subs ! 1)" by code_simp
  have new: "SubStartsAt (sub_rows two_subs ! 1) - max 0 (SubExpiresAt (sub_rows two_subs ! 0) - max (chain_day 4) (SubStartsAt (sub_rows two_subs ! 0))) = chain_day 4"
    "min (SubExpiresAt (sub_rows two_subs ! 1) - max 0 (SubExpiresAt (sub_rows two_subs ! 0) - max (chain_day 4) (SubStartsAt (sub_rows two_subs ! 0)))) MaxExpiresAt = chain_day 14"
    by code_simp+
  obtain db' where db': "RevokeSubscription (chain_day 4) (chain_day 4) 1 two_subs = (None, db')" "sub_GetByID 1 db' = None"
    and all: "\<forall>r \<in> set (sub_rows two_subs). SubID r \<noteq> 1 \<longrightarrow>
       (let unused = max 0 (SubExpiresAt (sub_rows two_subs ! 0) - max (chain_day 4) (SubStartsAt (sub_rows two_subs ! 0))) in
        if 0 < unused \<and> SubDeletedAt r = None \<and> SubUserID r = SubUserID (sub_rows two_subs ! 0) \<and> SubPlanID r = SubPlanID (sub_rows two_subs ! 0) \<and>
           SubExpiresAt (sub_rows two_subs ! 0) \<le> SubStartsAt r
        then (\<exists>r'. sub_GetByID (SubID r) db' = Some r' \<and> SubStartsAt r' = SubStartsAt r - unused \<and>
                SubExpiresAt r' = min (SubExpiresAt r - unused) MaxExpiresAt)
        else r \<in> set (sub_rows db'))"
    using revocation_closes_gap [OF two_subs_reachable s le, of "chain_day 4"] by blast
  have "\<exists>r'. sub_GetByID 2 db' = Some r' \<and> SubStartsAt r' = chain_day 4 \<and> SubExpiresAt r' = chain_day 14"
    using bspec [OF all r(1)] unfolding Let_def r(2) if_P [OF cond] new by simp
  then show ?thesis using db' by blast
qed

theorem restore_fits_witness:
  "\<exists>s. GetByIDIncludeDeleted 2 (snd (RevokeSubscription (chain_day 4) (chain_day 4) 2 two_subs)) = Some s \<and> SubDeletedAt s \<noteq> None"
proof -
  let ?db = "snd (RevokeSubscription (chain_day 4) (chain_day 4) 2 two_subs)"
  have "\<not> isl (fst (RestoreSubscription (chain_day 5) (chain_day 5) 2 ?db))" by code_simp
  from restore_fits [OF chain_reachable.revoke [OF two_subs_reachable] inr_pair [OF this]] show ?thesis by blast
qed

theorem usable_expires_first_witness:
  "\<exists>m s'. GetUsableSubscription demo_go_env (\<lambda>p. None) UTC (chain_day 4) 7 None two_subs = Inr (s', m) \<and> SubID s' = 1"
proof -
  have 1: "\<not> isl (GetUsableSubscription demo_go_env (\<lambda>p. None) UTC (chain_day 4) 7 None two_subs)" by code_simp
  then obtain s' m where r: "GetUsableSubscription demo_go_env (\<lambda>p. None) UTC (chain_day 4) 7 None two_subs = Inr (s', m)"
    by (metis sum.collapse(2) surj_pair)
  have "SubID (fst (projr (GetUsableSubscription demo_go_env (\<lambda>p. None) UTC (chain_day 4) 7 None two_subs))) = 1" by code_simp
  then show ?thesis using usable_expires_first [where env = demo_go_env and groups = "\<lambda>p. None" and loc = UTC and now = "chain_day 4" and u = 7
        and groupID = None and db = two_subs] r by simp
qed

theorem grant_once_per_order_witness:
  "\<exists>s' q' db. AssignOrExtendSubscription (\<lambda>u. True) (\<lambda>p. None) UTC (chain_day 1) (Some (ten_days (Some 9))) db = (Inr (s', q'), db) \<and> SubID s' = 3"
proof -
  let ?r = "AssignOrExtendSubscription (\<lambda>u. True) (\<lambda>p. None) UTC (chain_day 0) (Some (ten_days (Some 9))) two_subs"
  have "\<not> isl (fst ?r)" by code_simp
  then have r: "?r = (Inr (fst (projr (fst ?r)), snd (projr (fst ?r))), snd ?r)" using inr_pair [of ?r] by simp
  have i: "SubID (fst (projr (fst ?r))) = 3" by code_simp
  have "SourceOrderID (ten_days (Some 9)) = Some 9" by (simp add: ten_days_def)
  then show ?thesis
    using grant_once_per_order [OF two_subs_reachable(1) r _ _ , of 9 "ten_days (Some 9)" "\<lambda>u. True" "\<lambda>p. None" UTC "chain_day 1"] i by auto
qed

text \<open>The first subscription is used up, and the key bound to it moves to the second.\<close>

definition used_up :: sub_db where
  "used_up = snd (RecordUsage demo_go_env 1 (Fin 5) two_subs)"


subsection \<open>Restoring and extending\<close>

text \<open>Restoring a revoked subscription that has expired checks nothing, and extending it then moves nothing: the queue had
  closed over it.\<close>

text \<open>Restoring can break the chain.  The first of two subscriptions is revoked on day 5, so the second runs from day 5; on day 12
  the first, now expired, is restored and extended by 30 days, and from then on both are active.\<close>

theorem restore_then_extend_overlaps:
  "let db = snd (RevokeSubscription (chain_day 5) (chain_day 5) 1 two_subs);
       restored = RestoreSubscription (chain_day 12) (chain_day 12) 1 db;
       extended = ExtendSubscription UTC (chain_day 12) (chain_day 12) 1 30 (snd restored)
   in \<not> isl (fst restored) \<and> \<not> isl (fst extended) \<and>
      spans (snd extended) = [(1, chain_day 0, chain_day 42, ''active'', True), (2, chain_day 5, chain_day 15, ''active'', True)]"
  by code_simp

text \<open>Extending an expired subscription moves every later one, the expired ones among them: with three subscriptions of ten days
  each, extending the first by 30 days on day 25 gives the second, which had run out, ten new days, and the third,
  which had five days left, ten days.\<close>

theorem extend_revives_expired:
  "let db = BatchUpdateExpiredStatus (chain_day 25) (grant_ten two_subs);
       extended = ExtendSubscription UTC (chain_day 25) (chain_day 25) 1 30 db
   in map (\<lambda>(sid, from, to, _). (sid, from, to)) (spans db) = [(1, chain_day 0, chain_day 10), (2, chain_day 10, chain_day 20), (3, chain_day 20, chain_day 30)] \<and>
      \<not> isl (fst extended) \<and>
      spans (snd extended) = [(1, chain_day 0, chain_day 55, ''active'', True), (2, chain_day 55, chain_day 65, ''pending'', True),
        (3, chain_day 65, chain_day 75, ''pending'', True)]"
  by code_simp

end
