(* ===== verification/Go_Heap.thy ===== *)
theory Go_Heap
  imports Go_Prelude "HOL-Library.Multiset"
begin

text \<open>
  Slices that are kept in an order given by a comparison: the functions of \<^verbatim>\<open>container/heap\<close> that the scheduler
  calls, on a slice whose \<^verbatim>\<open>Less(i, j)\<close> compares the elements at the two places, and the insertion sort it
  writes out.  The locale \<open>ranking\<close> is what a comparison must promise; inside it the heap keeps its least element at
  the root, the sort sorts, and a list in order is determined by its elements.
\<close>

section \<open>Operations\<close>

text \<open>\<^verbatim>\<open>Swap\<close> of two places.\<close>

definition exchange :: "nat \<Rightarrow> nat \<Rightarrow> 'a list \<Rightarrow> 'a list" where
  "exchange a b xs = (let x = xs ! a; y = xs ! b in (xs[a := y])[b := x])"

lemma exchange_keeps_length [simp]: "length (exchange a b xs) = length xs"
  unfolding exchange_def Let_def by simp

lemma exchange_elements [simp]:
  assumes "a < length xs" and "b < length xs"
  shows "mset (exchange a b xs) = mset xs"
  unfolding exchange_def Let_def using mset_swap [OF assms(2) assms(1)] by simp

text \<open>The element at a place is that of the place it is exchanged with.\<close>

definition partner :: "nat \<Rightarrow> nat \<Rightarrow> nat \<Rightarrow> nat" where
  "partner a b k = (if k = a then b else if k = b then a else k)"

lemma exchange_at:
  assumes "a < length xs" and "b < length xs"
  shows "exchange a b xs ! k = xs ! partner a b k"
  using assms unfolding exchange_def partner_def Let_def by (cases "k = b") auto

text \<open>\<^verbatim>\<open>up\<close> ends because the index shrinks, \<^verbatim>\<open>down\<close> because it grows.\<close>

function heap_up :: "('a \<Rightarrow> 'a \<Rightarrow> bool) \<Rightarrow> 'a list \<Rightarrow> nat \<Rightarrow> 'a list" where
  "heap_up before xs j =
     (let i = (j - 1) div 2 in
      if i = j \<or> \<not> before (xs ! j) (xs ! i) then xs else heap_up before (exchange i j xs) i)"
  by auto
termination by (relation "measure (\<lambda>(before, xs, j). j)") auto

function heap_down :: "('a \<Rightarrow> 'a \<Rightarrow> bool) \<Rightarrow> 'a list \<Rightarrow> nat \<Rightarrow> 'a list \<times> nat" where
  "heap_down before xs i =
     (let j1 = 2 * i + 1 in
      if length xs \<le> j1 then (xs, i)
      else
        let j = (if j1 + 1 < length xs \<and> before (xs ! (j1 + 1)) (xs ! j1) then j1 + 1 else j1) in
        if \<not> before (xs ! j) (xs ! i) then (xs, i) else heap_down before (exchange i j xs) j)"
  by auto
termination
  by (relation "measure (\<lambda>(before, xs, i). length xs - i)") (auto split: if_splits)

declare heap_up.simps [simp del] heap_down.simps [simp del]

definition heap_push :: "('a \<Rightarrow> 'a \<Rightarrow> bool) \<Rightarrow> 'a list \<Rightarrow> 'a \<Rightarrow> 'a list" where
  "heap_push before xs x = heap_up before (xs @ [x]) (length xs)"

definition heap_fix :: "('a \<Rightarrow> 'a \<Rightarrow> bool) \<Rightarrow> 'a list \<Rightarrow> nat \<Rightarrow> 'a list" where
  "heap_fix before xs i =
     (let (ys, i') = heap_down before xs i in if i < i' then ys else heap_up before ys i)"

text \<open>The sort moves each element to the left while it precedes its neighbour.\<close>

fun move_left :: "('a \<Rightarrow> 'a \<Rightarrow> bool) \<Rightarrow> 'a list \<Rightarrow> nat \<Rightarrow> 'a list" where
  "move_left before xs 0 = xs"
| "move_left before xs (Suc j) =
     (if before (xs ! Suc j) (xs ! j) then move_left before (exchange (Suc j) j xs) j else xs)"

definition insertion_sort :: "('a \<Rightarrow> 'a \<Rightarrow> bool) \<Rightarrow> 'a list \<Rightarrow> 'a list" where
  "insertion_sort before xs = fold (\<lambda>i ys. move_left before ys i) [1..<length xs] xs"

section \<open>The elements stay\<close>

lemma heap_up_elements: "j < length xs \<Longrightarrow> mset (heap_up before xs j) = mset xs"
proof (induction before xs j rule: heap_up.induct)
  case (1 before xs j)
  show ?case
    using 1 by (subst heap_up.simps) (auto simp: Let_def)
qed

lemma heap_down_elements: "i < length xs \<Longrightarrow> mset (fst (heap_down before xs i)) = mset xs"
proof (induction before xs i rule: heap_down.induct)
  case (1 before xs i)
  show ?case
    by (subst heap_down.simps) (use 1 in \<open>auto simp: Let_def\<close>)
qed

lemma heap_push_elements: "mset (heap_push before xs x) = add_mset x (mset xs)"
  by (simp add: heap_push_def heap_up_elements)

lemma length_heap_push [simp]: "length (heap_push before xs x) = Suc (length xs)"
  using arg_cong [OF heap_push_elements, of size before xs x] by simp

lemma heap_fix_elements: "i < length xs \<Longrightarrow> mset (heap_fix before xs i) = mset xs"
proof -
  assume i: "i < length xs"
  obtain ys i' where down: "heap_down before xs i = (ys, i')" by fastforce
  have "mset ys = mset xs"
    using heap_down_elements [OF i, of before] down by simp
  then show ?thesis
    using i heap_up_elements [of i ys before] mset_eq_length [of ys xs] by (simp add: heap_fix_def down)
qed

lemma length_heap_fix [simp]: "i < length xs \<Longrightarrow> length (heap_fix before xs i) = length xs"
  by (metis heap_fix_elements mset_eq_length)

lemma move_left_elements: "j < length xs \<Longrightarrow> mset (move_left before xs j) = mset xs"
  by (induction j arbitrary: xs) auto

lemma length_move_left [simp]: "j < length xs \<Longrightarrow> length (move_left before xs j) = length xs"
  by (metis move_left_elements mset_eq_length)

lemma insertion_sort_elements: "mset (insertion_sort before xs) = mset xs"
proof -
  have "set is \<subseteq> {..<length xs} \<Longrightarrow> mset (fold (\<lambda>i ys. move_left before ys i) is xs) = mset xs" for "is"
    by (induction "is" arbitrary: xs) (auto simp: move_left_elements)
  moreover have "set [1..<length xs] \<subseteq> {..<length xs}" by auto
  ultimately show ?thesis
    unfolding insertion_sort_def by blast
qed

lemma length_insertion_sort [simp]: "length (insertion_sort before xs) = length xs"
  by (metis insertion_sort_elements mset_eq_length)

lemma set_insertion_sort [simp]: "set (insertion_sort before xs) = set xs"
  by (metis insertion_sort_elements set_mset_mset)

section \<open>Rankings\<close>

text \<open>
  A comparison that ranks the elements for which \<open>ok\<close> holds: it is irreflexive and transitive, and an element that
  lies before another is before or after any third one.
\<close>

locale ranking =
  fixes before :: "'a \<Rightarrow> 'a \<Rightarrow> bool" and ok :: "'a \<Rightarrow> bool"
  assumes irreflexive: "ok x \<Longrightarrow> \<not> before x x"
    and transitive: "ok x \<Longrightarrow> ok y \<Longrightarrow> ok z \<Longrightarrow> before x y \<Longrightarrow> before y z \<Longrightarrow> before x z"
    and comparable: "ok x \<Longrightarrow> ok y \<Longrightarrow> ok z \<Longrightarrow> before x z \<Longrightarrow> before x y \<or> before y z"
begin

lemma asymmetric: "ok x \<Longrightarrow> ok y \<Longrightarrow> before x y \<Longrightarrow> \<not> before y x"
  using irreflexive transitive by blast

lemma not_before_trans:
  "ok x \<Longrightarrow> ok y \<Longrightarrow> ok z \<Longrightarrow> \<not> before y x \<Longrightarrow> \<not> before z y \<Longrightarrow> \<not> before z x"
  using comparable by blast

lemma move_left_split:
  "move_left before (ys @ x # zs) (length ys) =
   rev (dropWhile (before x) (rev ys)) @ x # rev (takeWhile (before x) (rev ys)) @ zs"
proof (induction ys arbitrary: zs rule: rev_induct)
  case (snoc y ys)
  have swapped: "exchange (Suc (length ys)) (length ys) (ys @ y # x # zs) = ys @ x # y # zs"
    by (simp add: exchange_def nth_append list_update_append)
  have at: "(ys @ y # x # zs) ! Suc (length ys) = x" "(ys @ y # x # zs) ! length ys = y"
    by (simp_all add: nth_append)
  show ?case
    using snoc [of "y # zs"] by (simp add: at swapped)
qed simp

lemma move_left_sorted:
  assumes "sorted_wrt (\<lambda>a b. \<not> before b a) ys" and "ok x" and "\<forall>y\<in>set ys. ok y"
  shows "sorted_wrt (\<lambda>a b. \<not> before b a) (rev (dropWhile (before x) (rev ys)) @ x # rev (takeWhile (before x) (rev ys)))"
  using assms
proof (induction ys rule: rev_induct)
  case (snoc y ys)
  show ?case
  proof (cases "before x y")
    case True
    have moved: "sorted_wrt (\<lambda>a b. \<not> before b a) (rev (dropWhile (before x) (rev ys)) @ x # rev (takeWhile (before x) (rev ys)))"
      by (rule snoc.IH) (use snoc.prems in \<open>simp_all add: sorted_wrt_append\<close>)
    have earlier: "\<forall>a\<in>set ys. \<not> before y a"
      using snoc.prems(1) by (simp add: sorted_wrt_append)
    have "\<not> before y x"
      using snoc.prems(2,3) True asymmetric [of x y] by simp
    with earlier have last: "\<forall>a\<in>set (dropWhile (before x) (rev ys)) \<union> {x} \<union> set (takeWhile (before x) (rev ys)). \<not> before y a"
      by (auto dest: set_takeWhileD set_dropWhileD)
    have eq: "rev (dropWhile (before x) (rev (ys @ [y]))) @ x # rev (takeWhile (before x) (rev (ys @ [y]))) =
        (rev (dropWhile (before x) (rev ys)) @ x # rev (takeWhile (before x) (rev ys))) @ [y]"
      using True by simp
    show ?thesis
      unfolding eq by (subst sorted_wrt_append) (use moved last in simp)
  next
    case False
    have "\<not> before x a" if "a \<in> set ys" for a
      using that snoc.prems False not_before_trans [of a y x] by (auto simp: sorted_wrt_append)
    then show ?thesis
      using snoc.prems False by (simp add: sorted_wrt_append)
  qed
qed simp

lemma insertion_sort_sorted:
  assumes "\<forall>x\<in>set xs. ok x"
  shows "sorted_wrt (\<lambda>a b. \<not> before b a) (insertion_sort before xs)"
proof -
  let ?sort = "\<lambda>n. fold (\<lambda>i ys. move_left before ys i) [1..<n] xs"
  have "mset (?sort n) = mset xs \<and> sorted_wrt (\<lambda>a b. \<not> before b a) (take n (?sort n))" if "n \<le> length xs" for n
    using that
  proof (induction n)
    case (Suc n)
    define ys where "ys = ?sort n"
    have elements: "mset ys = mset xs" and sorted: "sorted_wrt (\<lambda>a b. \<not> before b a) (take n ys)"
      using Suc by (auto simp: ys_def)
    have len: "n < length ys"
      using Suc.prems elements by (metis Suc_le_lessD mset_eq_length)
    have split: "ys = take n ys @ ys ! n # drop (Suc n) ys"
      using len by (rule id_take_nth_drop)
    have fine: "\<forall>y\<in>set ys. ok y"
      using assms elements by (metis set_mset_mset)
    have moved: "move_left before ys n =
        rev (dropWhile (before (ys ! n)) (rev (take n ys))) @ ys ! n #
        rev (takeWhile (before (ys ! n)) (rev (take n ys))) @ drop (Suc n) ys"
      using move_left_split [of "take n ys" "ys ! n" "drop (Suc n) ys"] len by (simp flip: split)
    have front: "take (Suc n) (move_left before ys n) =
        rev (dropWhile (before (ys ! n)) (rev (take n ys))) @ ys ! n # rev (takeWhile (before (ys ! n)) (rev (take n ys)))"
      (is "_ = ?front")
    proof -
      have "length ?front = Suc n"
        using len arg_cong [OF takeWhile_dropWhile_id [of "before (ys ! n)" "rev (take n ys)"], of length]
        by (simp del: takeWhile_dropWhile_id)
      then show ?thesis
        unfolding moved by (metis append.assoc append_Cons append_eq_conv_conj)
    qed
    have sorted_front: "sorted_wrt (\<lambda>a b. \<not> before b a) (take (Suc n) (move_left before ys n))"
      unfolding front using sorted fine len
      by (intro move_left_sorted) (auto dest: in_set_takeD)
    have "?sort (Suc n) = move_left before ys n" if "0 < n"
      using that by (simp add: ys_def)
    moreover have "?sort (Suc n) = move_left before ys n" if "n = 0"
      using that by (simp add: ys_def)
    ultimately have "?sort (Suc n) = move_left before ys n" by blast
    then show ?case
      using sorted_front elements move_left_elements [OF len, of before] by simp
  qed simp
  from this [of "length xs"] show ?thesis
    using length_insertion_sort [of before xs] by (simp add: insertion_sort_def)
qed

text \<open>A list without ties that is in order is determined by its elements.\<close>

lemma ordered_unique:
  assumes "sorted_wrt before xs" and "sorted_wrt before ys" and "set xs = set ys" and "\<forall>x\<in>set xs. ok x"
  shows "xs = ys"
  using assms
proof (induction xs arbitrary: ys)
  case (Cons x xs)
  then obtain y zs where ys: "ys = y # zs" by (cases ys) auto
  have same: "x = y"
  proof (rule ccontr)
    assume "x \<noteq> y"
    then have "before x y" and "before y x"
      using Cons.prems ys by auto
    moreover have "ok x" and "ok y"
      using Cons.prems(3,4) ys by auto
    ultimately show False
      using asymmetric by blast
  qed
  have "x \<notin> set xs" and "x \<notin> set zs"
    using Cons.prems irreflexive same ys by auto
  then have "set xs = set zs"
    using Cons.prems(3) same ys by auto
  then show ?case
    using Cons ys same by auto
qed simp

text \<open>\<open>heap_ok\<close>: no element precedes its parent.\<close>

definition heap_ok :: "'a list \<Rightarrow> bool" where
  "heap_ok xs \<longleftrightarrow> (\<forall>i. 0 < i \<longrightarrow> i < length xs \<longrightarrow> \<not> before (xs ! i) (xs ! ((i - 1) div 2)))"

lemma heap_root:
  assumes "heap_ok xs" and "\<forall>x\<in>set xs. ok x" and "i < length xs"
  shows "\<not> before (xs ! i) (xs ! 0)"
  using assms(3)
proof (induction i rule: less_induct)
  case (less i)
  show ?case
  proof (cases "i = 0")
    case True
    then show ?thesis using less.prems assms(2) irreflexive by auto
  next
    case False
    let ?p = "(i - 1) div 2"
    have p: "?p < i" using False by auto
    moreover have "\<not> before (xs ! i) (xs ! ?p)"
      using assms(1) less.prems False by (auto simp: heap_ok_def)
    moreover have "\<not> before (xs ! ?p) (xs ! 0)"
      using less p by auto
    ultimately show ?thesis
      using assms(2) less.prems p by (intro not_before_trans [of "xs ! 0" "xs ! ?p" "xs ! i"]) (auto intro!: nth_mem dest: order.strict_trans)
  qed
qed

lemma not_before_parent:
  assumes "heap_ok xs" and "0 < i" and "i < length xs"
  shows "\<not> before (xs ! i) (xs ! ((i - 1) div 2))"
  using assms by (simp add: heap_ok_def)

text \<open>
  While an element moves, the heap is in order but for that place, and the elements below the place agree with the
  one above it.
\<close>

definition heap_but :: "'a list \<Rightarrow> nat \<Rightarrow> bool" where
  "heap_but xs j \<longleftrightarrow>
     (\<forall>i. 0 < i \<longrightarrow> i < length xs \<longrightarrow> i \<noteq> j \<longrightarrow> (i - 1) div 2 \<noteq> j \<longrightarrow> \<not> before (xs ! i) (xs ! ((i - 1) div 2))) \<and>
     (\<forall>i. 0 < i \<longrightarrow> i < length xs \<longrightarrow> (i - 1) div 2 = j \<longrightarrow> 0 < j \<longrightarrow> \<not> before (xs ! i) (xs ! ((j - 1) div 2)))"

definition above :: "'a list \<Rightarrow> nat \<Rightarrow> bool" where
  "above xs j \<longleftrightarrow> (0 < j \<longrightarrow> \<not> before (xs ! j) (xs ! ((j - 1) div 2)))"

definition below :: "'a list \<Rightarrow> nat \<Rightarrow> bool" where
  "below xs j \<longleftrightarrow> (\<forall>i. 0 < i \<longrightarrow> i < length xs \<longrightarrow> (i - 1) div 2 = j \<longrightarrow> \<not> before (xs ! i) (xs ! j))"

lemma heap_ok_but: "heap_but xs j \<Longrightarrow> above xs j \<Longrightarrow> below xs j \<Longrightarrow> heap_ok xs"
  unfolding heap_but_def above_def below_def heap_ok_def by metis

lemma heap_up_ok:
  assumes "heap_but xs j" and "below xs j" and "j < length xs" and "\<forall>x\<in>set xs. ok x"
  shows "heap_ok (heap_up before xs j)"
  using assms
proof (induction j arbitrary: xs rule: less_induct)
  case (less j)
  let ?i = "(j - 1) div 2"
  show ?case
  proof (cases "?i = j \<or> \<not> before (xs ! j) (xs ! ?i)")
    case True
    then have "above xs j" by (auto simp: above_def)
    then show ?thesis
      using True less.prems heap_ok_but by (subst heap_up.simps) (auto simp: Let_def)
  next
    case False
    then have i: "?i < j" by auto
    let ?ys = "exchange ?i j xs"
    have fine: "ok (xs ! k)" if "k < length xs" for k using that less.prems(4) by simp
    have nth: "?ys ! k = (if k = ?i then xs ! j else if k = j then xs ! ?i else xs ! k)" for k
      using i less.prems(3) by (simp add: exchange_at partner_def)
    have parent: "\<not> before (xs ! k) (xs ! ((k - 1) div 2))" if "0 < k" "k < length xs" "k \<noteq> j" for k
      using that less.prems(1,2) unfolding heap_but_def below_def by metis
    have under: "\<not> before (xs ! k) (xs ! ?i)" if "0 < k" "k < length xs" "(k - 1) div 2 = j" for k
      using that less.prems(1) i unfolding heap_but_def by (metis gr0I not_less_zero)
    have up: "\<not> before (xs ! j) (xs ! j) \<and> \<not> before (xs ! ?i) (xs ! j)"
      using False fine asymmetric irreflexive i less.prems(3) by (meson order.strict_trans)
    have sibling: "\<not> before (xs ! k) (xs ! ?i)" if "0 < k" "k < length xs" "(k - 1) div 2 = ?i" "k \<noteq> j" for k
      using parent [of k] that by simp
    have "\<not> before (?ys ! k) (?ys ! ((k - 1) div 2))"
      if "0 < k" "k < length xs" "k \<noteq> ?i" "(k - 1) div 2 \<noteq> ?i" for k
      using that parent [of k] under [of k] unfolding nth by auto
    moreover have "\<not> before (?ys ! k) (?ys ! ((?i - 1) div 2))"
      if "0 < k" "k < length xs" "(k - 1) div 2 = ?i" "0 < ?i" for k
    proof -
      have "(?i - 1) div 2 < ?i" using that(4) by auto
      then have above_i: "?ys ! ((?i - 1) div 2) = xs ! ((?i - 1) div 2)" and "(?i - 1) div 2 < length xs"
        using i less.prems(3) unfolding nth by auto
      have "\<not> before (xs ! ?i) (xs ! ((?i - 1) div 2))"
        using parent [of ?i] that(4) i less.prems(3) by auto
      then have "\<not> before (xs ! k) (xs ! ((?i - 1) div 2))" if "k \<noteq> j"
        using sibling [of k] \<open>0 < k\<close> \<open>k < length xs\<close> \<open>(k - 1) div 2 = ?i\<close> that fine i less.prems(3)
          \<open>(?i - 1) div 2 < length xs\<close> not_before_trans by (meson order.strict_trans)
      moreover have "?i < k" using that(1,3) by linarith
      then have "?ys ! k = (if k = j then xs ! ?i else xs ! k)"
        unfolding nth by simp
      ultimately show ?thesis
        using \<open>\<not> before (xs ! ?i) (xs ! ((?i - 1) div 2))\<close> unfolding above_i by auto
    qed
    ultimately have "heap_but ?ys ?i"
      unfolding heap_but_def by simp
    moreover have "\<not> before (?ys ! k) (?ys ! ?i)" if "0 < k" "k < length xs" "(k - 1) div 2 = ?i" for k
    proof (cases "k = j")
      case True
      then show ?thesis using up unfolding nth by auto
    next
      case False
      then have "\<not> before (xs ! k) (xs ! j)"
        using sibling [OF that] up that fine i less.prems(3) not_before_trans by (meson order.strict_trans)
      moreover have "?i < k" using that(1,3) by linarith
      ultimately show ?thesis using False unfolding nth by simp
    qed
    then have "below ?ys ?i"
      unfolding below_def by simp
    ultimately have "heap_ok (heap_up before ?ys ?i)"
      using less.IH [OF i, of ?ys] i less.prems(3,4) exchange_elements [of ?i xs j] by (metis exchange_keeps_length order.strict_trans set_mset_mset)
    then show ?thesis
      using False by (subst heap_up.simps) (simp add: Let_def)
  qed
qed

lemma heap_down_ok:
  assumes "heap_but xs j" and "above xs j" and "j < length xs" and "\<forall>x\<in>set xs. ok x"
  shows "heap_ok (fst (heap_down before xs j))"
  using assms
proof (induction "length xs - j" arbitrary: xs j rule: less_induct)
  case (less xs j)
  let ?l = "2 * j + 1"
  define c where "c = (if ?l + 1 < length xs \<and> before (xs ! (?l + 1)) (xs ! ?l) then ?l + 1 else ?l)"
  have child: "k = ?l \<or> k = ?l + 1" if "0 < k" "(k - 1) div 2 = j" for k
    using that by linarith
  have fine: "ok (xs ! k)" if "k < length xs" for k using that less.prems(4) by simp
  have down: "heap_down before xs j =
      (if length xs \<le> ?l \<or> \<not> before (xs ! c) (xs ! j) then (xs, j) else heap_down before (exchange j c xs) c)"
    by (subst heap_down.simps) (simp add: Let_def c_def)
  show ?case
  proof (cases "length xs \<le> ?l")
    case True
    then have "below xs j"
      using child unfolding below_def by (metis add_lessD1 linorder_not_le)
    then show ?thesis
      using True less.prems heap_ok_but down by simp
  next
    case False
    then have c: "c < length xs" and c_parent: "(c - 1) div 2 = j" and j: "j < c"
      by (auto simp: c_def)
    have least: "\<not> before (xs ! k) (xs ! c)" if "0 < k" "k < length xs" "(k - 1) div 2 = j" for k
      using child [OF that(1,3)] that(2) False fine irreflexive asymmetric [of "xs ! (?l + 1)" "xs ! ?l"]
      by (auto simp: c_def)
    show ?thesis
    proof (cases "before (xs ! c) (xs ! j)")
      case stop: False
      have "\<not> before (xs ! k) (xs ! j)" if "0 < k" "k < length xs" "(k - 1) div 2 = j" for k
        using least [OF that] stop fine c less.prems(3) that(2) not_before_trans by blast
      then have "below xs j"
        unfolding below_def by simp
      then show ?thesis
        using stop less.prems heap_ok_but down by simp
    next
      case move: True
      let ?ys = "exchange j c xs"
      have nth: "?ys ! k = (if k = j then xs ! c else if k = c then xs ! j else xs ! k)" for k
        using c less.prems(3) by (simp add: exchange_at partner_def)
      have parent: "\<not> before (xs ! k) (xs ! ((k - 1) div 2))"
        if "0 < k" "k < length xs" "(k - 1) div 2 \<noteq> j" for k
        using that less.prems(1,2) unfolding heap_but_def above_def by metis
      have over: "\<not> before (xs ! k) (xs ! ((j - 1) div 2))" if "0 < k" "k < length xs" "(k - 1) div 2 = j" "0 < j" for k
        using that less.prems(1) unfolding heap_but_def by blast
      have "\<not> before (?ys ! k) (?ys ! ((k - 1) div 2))"
        if "0 < k" "k < length xs" "k \<noteq> c" "(k - 1) div 2 \<noteq> c" for k
      proof (cases "(k - 1) div 2 = j")
        case True
        then have "j < k" using that(1) by linarith
        then have "?ys ! k = xs ! k" and "?ys ! ((k - 1) div 2) = xs ! c"
          using that(3) True unfolding nth by simp_all
        then show ?thesis
          using least [OF that(1,2) True] by simp
      next
        case False
        show ?thesis
        proof (cases "k = j")
          case True
          then have "?ys ! k = xs ! c" and "?ys ! ((k - 1) div 2) = xs ! ((j - 1) div 2)"
            using False that(4) unfolding nth by simp_all
          then show ?thesis
            using over [of c] c c_parent j that(1) True by simp
        next
          case False2: False
          then have "?ys ! k = xs ! k" and "?ys ! ((k - 1) div 2) = xs ! ((k - 1) div 2)"
            using False that(3,4) unfolding nth by simp_all
          then show ?thesis
            using parent [OF that(1,2) False] by simp
        qed
      qed
      moreover have "\<not> before (?ys ! k) (?ys ! ((c - 1) div 2))" if "0 < k" "k < length xs" "(k - 1) div 2 = c" for k
      proof -
        have "c < k" using that(1,3) by linarith
        then have "?ys ! k = xs ! k" and "?ys ! ((c - 1) div 2) = xs ! c"
          using j unfolding nth c_parent by simp_all
        then show ?thesis
          using parent [OF that(1,2)] that(3) j by simp
      qed
      ultimately have "heap_but ?ys c"
        unfolding heap_but_def by simp
      moreover have "\<not> before (xs ! j) (xs ! c)"
        using move by (rule asymmetric [OF fine [OF c] fine [OF less.prems(3)]])
      then have "\<not> before (?ys ! c) (?ys ! ((c - 1) div 2))"
        using j unfolding nth c_parent by simp
      then have "above ?ys c"
        unfolding above_def by simp
      moreover have "set ?ys = set xs"
        using less.prems(3) c exchange_elements [of j xs c] by (metis set_mset_mset)
      moreover have shorter: "length ?ys - c < length xs - j"
        using j c by simp
      ultimately have "heap_ok (fst (heap_down before ?ys c))"
        using less.hyps [OF shorter] less.prems(4) c by simp
      then show ?thesis
        using move False down by simp
    qed
  qed
qed

lemma heap_push_ok:
  assumes "heap_ok xs" and "\<forall>y\<in>set xs. ok y" and "ok x"
  shows "heap_ok (heap_push before xs x)"
proof -
  have nth: "(xs @ [x]) ! i = (if i < length xs then xs ! i else x)" if "i \<le> length xs" for i
    using that by (simp add: nth_append)
  have "\<not> before ((xs @ [x]) ! i) ((xs @ [x]) ! ((i - 1) div 2))" if "0 < i" "i < length xs" for i
  proof -
    have "(i - 1) div 2 < length xs" using that by linarith
    then show ?thesis
      using not_before_parent [OF assms(1) that] that by (simp add: nth_append)
  qed
  moreover have "(i - 1) div 2 \<noteq> length xs" if "i \<le> length xs" "0 < i" for i
    using that by linarith
  ultimately have "heap_but (xs @ [x]) (length xs)" and "below (xs @ [x]) (length xs)"
    unfolding heap_but_def below_def by auto
  then show ?thesis
    using heap_up_ok [of "xs @ [x]" "length xs"] assms by (simp add: heap_push_def)
qed

lemma heap_replace_root_ok:
  assumes "heap_ok xs" and "\<forall>y\<in>set xs. ok y" and "ok x" and "xs \<noteq> []"
  shows "heap_ok (heap_fix before (xs[0 := x]) 0)"
proof -
  have nth: "xs[0 := x] ! i = (if i = 0 then x else xs ! i)" for i
    using assms(4) by (cases xs; cases i) auto
  have "heap_but (xs[0 := x]) 0"
    using assms(1) unfolding heap_but_def heap_ok_def nth by simp
  moreover have "above (xs[0 := x]) 0"
    by (simp add: above_def)
  moreover have "\<forall>y\<in>set (xs[0 := x]). ok y"
    using assms(2,3) set_update_subset_insert [of xs 0 x] by auto
  ultimately have "heap_ok (fst (heap_down before (xs[0 := x]) 0))"
    using assms(4) by (intro heap_down_ok) auto
  moreover have "heap_up before ys 0 = ys" for ys
    by (subst heap_up.simps) simp
  ultimately show ?thesis
    by (cases "heap_down before (xs[0 := x]) 0") (simp add: heap_fix_def)
qed

end

end
