(* ===== verification/Scheduler_Core.thy ===== *)
theory Scheduler_Core
  imports Account_Sched Go_Heap "HOL-Library.Word" "HOL-Library.Product_Lexorder"
begin

text \<open>
  The core of the advanced account scheduler (\<^verbatim>\<open>service/advanced_scheduler_core.go\<close>, with \<^verbatim>\<open>clamp01\<close> and
  \<^verbatim>\<open>calcLoadSkewByMoments\<close> of \<^verbatim>\<open>service/openai_account_scheduler.go\<close>): the runtime feedback of accounts, the score
  of a candidate, the selection of the best candidates with a heap, and the weighted order in which they are tried.

  An atomic update is one step; each call runs on its own, and all readings of the clock within one call are one
  instant.  Products and sums are rounded one by one, as without fused instructions.  The runtime statistics are not
  nil where they are written.  \<^verbatim>\<open>math.Sqrt\<close> and the quota factor are parameters.
\<close>

section \<open>Numbers\<close>

record sched_env = go_env +
  Sqrt :: "float64 \<Rightarrow> float64"

definition unix_epoch :: gtime where
  "unix_epoch = 62135596800 * second"

definition UnixNano :: "gtime \<Rightarrow> int64" where
  "UnixNano t = wrap64 (t - unix_epoch)"

text \<open>\<^verbatim>\<open>Duration.Seconds\<close>.\<close>

definition Seconds :: "'z go_env_scheme \<Rightarrow> duration \<Rightarrow> float64" where
  "Seconds env d =
     (let sec = truncate_rat (of_int d / of_int second);
          nsec = d - sec * second in
      fadd env (float_of_int env sec) (fdiv env (float_of_int env nsec) (Fin (10 ^ 9))))"

definition clamp01 :: "float64 \<Rightarrow> float64" where
  "clamp01 v = (if flt v (Fin 0) then Fin 0 else if flt (Fin 1) v then Fin 1 else v)"

definition calcLoadSkewByMoments :: "'z sched_env_scheme \<Rightarrow> float64 \<Rightarrow> float64 \<Rightarrow> int \<Rightarrow> float64" where
  "calcLoadSkewByMoments env rates squares n =
     (if n \<le> 1 then Fin 0
      else
        let mean = fdiv env rates (float_of_int env n);
            variance = fsub env (fdiv env squares (float_of_int env n)) (fmul env mean mean) in
        Sqrt env (if flt variance (Fin 0) then Fin 0 else variance))"

section \<open>Runtime feedback\<close>

record FeedbackConfig =
  errorRateAlpha :: float64
  ttftAlpha :: float64

definition defaultAdvancedSchedulerErrorRateAlpha :: "'z go_env_scheme \<Rightarrow> float64" where
  "defaultAdvancedSchedulerErrorRateAlpha env = round64 env (1 / 5)"

definition defaultAdvancedSchedulerTTFTAlpha :: "'z go_env_scheme \<Rightarrow> float64" where
  "defaultAdvancedSchedulerTTFTAlpha env = round64 env (1 / 5)"

definition alpha_invalid :: "float64 \<Rightarrow> bool" where
  "alpha_invalid a \<longleftrightarrow> fle a (Fin 0) \<or> flt (Fin 1) a \<or> a = NaN \<or> a \<in> {PosInf, NegInf}"

definition normalizeFeedbackConfig :: "'z go_env_scheme \<Rightarrow> FeedbackConfig \<Rightarrow> FeedbackConfig" where
  "normalizeFeedbackConfig env v =
     (let v = (if alpha_invalid (errorRateAlpha v)
               then v\<lparr>errorRateAlpha := defaultAdvancedSchedulerErrorRateAlpha env\<rparr> else v) in
      if alpha_invalid (ttftAlpha v) then v\<lparr>ttftAlpha := defaultAdvancedSchedulerTTFTAlpha env\<rparr> else v)"

record RuntimeStat =
  errorRateEWMA :: float64
  ttftEWMA :: float64
  errorSamples :: int64
  ttftSamples :: int64
  lastObservedUnixNano :: int64
  lastTTFTObservedNanos :: int64

record RuntimeStats =
  stat_accounts :: "int64 \<rightharpoonup> RuntimeStat"
  accountCount :: int64
  switchCount :: int64

definition newRuntimeStats :: RuntimeStats where
  "newRuntimeStats = \<lparr>stat_accounts = Map.empty, accountCount = 0, switchCount = 0\<rparr>"

definition fresh_stat :: RuntimeStat where
  "fresh_stat = \<lparr>errorRateEWMA = Fin 0, ttftEWMA = NaN, errorSamples = 0, ttftSamples = 0,
     lastObservedUnixNano = 0, lastTTFTObservedNanos = 0\<rparr>"

definition reportSwitch :: "RuntimeStats \<Rightarrow> RuntimeStats" where
  "reportSwitch s = s\<lparr>switchCount := wrap64 (switchCount s + 1)\<rparr>"

definition loadOrCreate :: "RuntimeStats \<Rightarrow> int64 \<Rightarrow> RuntimeStat \<times> RuntimeStats" where
  "loadOrCreate s accountID =
     (case stat_accounts s accountID of
        Some stat \<Rightarrow> (stat, s)
      | None \<Rightarrow> (fresh_stat, s\<lparr>stat_accounts := (stat_accounts s)(accountID \<mapsto> fresh_stat),
                             accountCount := wrap64 (accountCount s + 1)\<rparr>))"

definition ewma :: "'z go_env_scheme \<Rightarrow> float64 \<Rightarrow> float64 \<Rightarrow> float64 \<Rightarrow> float64" where
  "ewma env alpha sample old = fadd env (fmul env alpha sample) (fmul env (fsub env (Fin 1) alpha) old)"

text \<open>The two parts of a report: the error sample, and the time to the first token where there was one.\<close>

definition observe_error :: "'z go_env_scheme \<Rightarrow> FeedbackConfig \<Rightarrow> bool \<Rightarrow> gtime \<Rightarrow> RuntimeStat \<Rightarrow> RuntimeStat" where
  "observe_error env cfg success now stat =
     stat\<lparr>errorRateEWMA := ewma env (errorRateAlpha cfg) (if success then Fin 0 else Fin 1) (errorRateEWMA stat),
          errorSamples := wrap64 (errorSamples stat + 1),
          lastObservedUnixNano := UnixNano now\<rparr>"

definition observe_ttft :: "'z go_env_scheme \<Rightarrow> FeedbackConfig \<Rightarrow> int option \<Rightarrow> gtime \<Rightarrow> RuntimeStat \<Rightarrow> RuntimeStat" where
  "observe_ttft env cfg firstTokenMs now stat =
     (case firstTokenMs of
        None \<Rightarrow> stat
      | Some ms \<Rightarrow>
          if 0 < ms
          then
            let ttft = float_of_int env ms in
            stat\<lparr>ttftEWMA := (if ttftEWMA stat = NaN then ttft else ewma env (ttftAlpha cfg) ttft (ttftEWMA stat)),
                 ttftSamples := wrap64 (ttftSamples stat + 1),
                 lastTTFTObservedNanos := UnixNano now\<rparr>
          else stat)"

definition report :: "'z go_env_scheme \<Rightarrow> int64 \<Rightarrow> bool \<Rightarrow> int option \<Rightarrow> FeedbackConfig list \<Rightarrow> gtime
    \<Rightarrow> RuntimeStats \<Rightarrow> RuntimeStats" where
  "report env accountID success firstTokenMs feedback now s =
     (if accountID \<le> 0 then s
      else
        let cfg = (case feedback of
              [] \<Rightarrow> \<lparr>errorRateAlpha = defaultAdvancedSchedulerErrorRateAlpha env,
                      ttftAlpha = defaultAdvancedSchedulerTTFTAlpha env\<rparr>
            | f # _ \<Rightarrow> normalizeFeedbackConfig env f);
            (stat, s) = loadOrCreate s accountID;
            stat = observe_error env cfg success now stat;
            stat = observe_ttft env cfg firstTokenMs now stat in
        s\<lparr>stat_accounts := (stat_accounts s)(accountID \<mapsto> stat)\<rparr>)"

record FeedbackSnapshot =
  HasFeedback :: bool
  SnapErrorRate :: float64
  SnapErrorSamples :: int64
  SnapTTFT :: float64
  SnapHasTTFT :: bool
  SnapTTFTSamples :: int64
  LastObservedAt :: "gtime option"
  LastTTFTAt :: "gtime option"

definition no_feedback :: FeedbackSnapshot where
  "no_feedback = \<lparr>HasFeedback = False, SnapErrorRate = Fin 0, SnapErrorSamples = 0, SnapTTFT = Fin 0,
     SnapHasTTFT = False, SnapTTFTSamples = 0, LastObservedAt = None, LastTTFTAt = None\<rparr>"

text \<open>\<^verbatim>\<open>time.Unix(0, n)\<close> where \<open>n\<close> is positive.\<close>

definition observed_at :: "int64 \<Rightarrow> gtime option" where
  "observed_at n = (if 0 < n then Some (unix_epoch + n) else None)"

definition feedbackSnapshot :: "RuntimeStats option \<Rightarrow> int64 \<Rightarrow> FeedbackSnapshot" where
  "feedbackSnapshot stats accountID =
     (case stats of
        None \<Rightarrow> no_feedback
      | Some s \<Rightarrow>
          if accountID \<le> 0 then no_feedback
          else
            (case stat_accounts s accountID of
               None \<Rightarrow> no_feedback
             | Some stat \<Rightarrow>
                 let snapshot = no_feedback\<lparr>HasFeedback := True, SnapErrorRate := clamp01 (errorRateEWMA stat),
                       SnapErrorSamples := errorSamples stat,
                       LastObservedAt := observed_at (lastObservedUnixNano stat)\<rparr> in
                 if ttftEWMA stat \<noteq> NaN
                 then snapshot\<lparr>SnapTTFT := ttftEWMA stat, SnapHasTTFT := True, SnapTTFTSamples := ttftSamples stat,
                        LastTTFTAt := observed_at (lastTTFTObservedNanos stat)\<rparr>
                 else snapshot))"

text \<open>\<^verbatim>\<open>snapshot\<close>: the error rate, the time to the first token and whether there is one.\<close>

definition stats_snapshot :: "RuntimeStats option \<Rightarrow> int64 \<Rightarrow> float64 \<times> float64 \<times> bool" where
  "stats_snapshot stats accountID =
     (case stats of
        None \<Rightarrow> (Fin 0, Fin 0, False)
      | Some s \<Rightarrow>
          if accountID \<le> 0 then (Fin 0, Fin 0, False)
          else
            (case stat_accounts s accountID of
               None \<Rightarrow> (Fin 0, Fin 0, False)
             | Some stat \<Rightarrow>
                 let errorRate = clamp01 (errorRateEWMA stat) in
                 if ttftEWMA stat = NaN then (errorRate, Fin 0, False) else (errorRate, ttftEWMA stat, True)))"

definition stats_size :: "RuntimeStats option \<Rightarrow> int" where
  "stats_size stats = (case stats of None \<Rightarrow> 0 | Some s \<Rightarrow> accountCount s)"

section \<open>Candidates\<close>

record AccountLoadInfo =
  LoadAccountID :: int64
  CurrentConcurrency :: int
  WaitingCount :: int
  LoadRate :: int

record ScoreWeights =
  WPriority :: float64
  WLoad :: float64
  WQueue :: float64
  WErrorRate :: float64
  WTTFT :: float64
  WReset :: float64
  WQuotaHeadroom :: float64
  WPrevious :: float64
  WSessionSticky :: float64

record Factors =
  FPriority :: float64
  FLoad :: float64
  FQueue :: float64
  FErrorRate :: float64
  FTTFT :: float64
  FReset :: float64
  FQuotaHeadroom :: float64

record Candidate =
  account :: "Account option"
  loadInfo :: AccountLoadInfo
  loadKnown :: bool
  score :: float64
  baseScore :: float64
  stickyBonus :: float64
  previousBonus :: float64
  sessionStickyBonus :: float64
  priority :: int
  errorRate :: float64
  ttft :: float64
  hasTTFT :: bool
  hasFeedback :: bool
  feedback :: FeedbackSnapshot
  factors :: Factors

record ScoreRanges =
  MinPriority :: int
  MaxPriority :: int
  MaxWaiting :: int
  MinTTFT :: float64
  MaxTTFT :: float64
  HasTTFTSample :: bool
  MinResetRemaining :: float64
  MaxResetRemaining :: float64
  HasResetSample :: bool

record SelectionInput =
  InGroupID :: "int64 option"
  InSessionHash :: string
  InPreviousResponseID :: string
  InRequestedModel :: string
  StickyAccountID :: int64
  StickyPreviousAccountID :: int64
  StickyWeighted :: bool
  InTopK :: int
  QuotaHeadroomFactor :: "(Account \<Rightarrow> gtime \<Rightarrow> float64) option"

definition no_ranges :: ScoreRanges where
  "no_ranges = \<lparr>MinPriority = 0, MaxPriority = 0, MaxWaiting = 0, MinTTFT = Fin 0, MaxTTFT = Fin 0,
     HasTTFTSample = False, MinResetRemaining = Fin 0, MaxResetRemaining = Fin 0, HasResetSample = False\<rparr>"

definition no_factors :: Factors where
  "no_factors = \<lparr>FPriority = Fin 0, FLoad = Fin 0, FQueue = Fin 0, FErrorRate = Fin 0, FTTFT = Fin 0,
     FReset = Fin 0, FQuotaHeadroom = Fin 0\<rparr>"

definition candidate_of :: "(int64 \<rightharpoonup> AccountLoadInfo option) \<Rightarrow> RuntimeStats option \<Rightarrow> Account \<Rightarrow> Candidate" where
  "candidate_of loadMap stats a =
     (let (info, known) = (case loadMap (AccountID a) of
            Some (Some l) \<Rightarrow> (l, True)
          | _ \<Rightarrow> (\<lparr>LoadAccountID = AccountID a, CurrentConcurrency = 0, WaitingCount = 0, LoadRate = 0\<rparr>, False));
          f = feedbackSnapshot stats (AccountID a) in
      \<lparr>account = Some a, loadInfo = info, loadKnown = known, score = Fin 0, baseScore = Fin 0,
       stickyBonus = Fin 0, previousBonus = Fin 0, sessionStickyBonus = Fin 0, priority = Priority a,
       errorRate = SnapErrorRate f, ttft = SnapTTFT f, hasTTFT = SnapHasTTFT f, hasFeedback = HasFeedback f,
       feedback = f, factors = no_factors\<rparr>)"

text \<open>Nil accounts are skipped.\<close>

definition candidates_of :: "(int64 \<rightharpoonup> AccountLoadInfo option) \<Rightarrow> RuntimeStats option \<Rightarrow> Account option list
    \<Rightarrow> Candidate list" where
  "candidates_of loadMap stats accounts = map (candidate_of loadMap stats) (List.map_filter (\<lambda>a. a) accounts)"

text \<open>The ranges of the signals, and the sums for the load skew.\<close>

record LoadSums =
  loadRateSum :: float64
  loadRateSumSquares :: float64
  knownLoadCount :: int

definition scan_ttft :: "Candidate \<Rightarrow> ScoreRanges \<Rightarrow> ScoreRanges" where
  "scan_ttft c r =
     (if hasTTFT c \<and> flt (Fin 0) (ttft c)
      then
        if \<not> HasTTFTSample r then r\<lparr>MinTTFT := ttft c, MaxTTFT := ttft c, HasTTFTSample := True\<rparr>
        else
          let r = (if flt (ttft c) (MinTTFT r) then r\<lparr>MinTTFT := ttft c\<rparr> else r) in
          if flt (MaxTTFT r) (ttft c) then r\<lparr>MaxTTFT := ttft c\<rparr> else r
      else r)"

definition scan_candidate :: "Candidate \<Rightarrow> ScoreRanges \<Rightarrow> ScoreRanges" where
  "scan_candidate c r =
     (let r = (if priority c < MinPriority r then r\<lparr>MinPriority := priority c\<rparr> else r);
          r = (if MaxPriority r < priority c then r\<lparr>MaxPriority := priority c\<rparr> else r);
          r = (if loadKnown c \<and> MaxWaiting r < WaitingCount (loadInfo c)
               then r\<lparr>MaxWaiting := WaitingCount (loadInfo c)\<rparr> else r) in
      scan_ttft c r)"

definition scan_load :: "'z go_env_scheme \<Rightarrow> Candidate \<Rightarrow> LoadSums \<Rightarrow> LoadSums" where
  "scan_load env c s =
     (if loadKnown c
      then
        let rate = float_of_int env (LoadRate (loadInfo c)) in
        \<lparr>loadRateSum = fadd env (loadRateSum s) rate,
         loadRateSumSquares = fadd env (loadRateSumSquares s) (fmul env rate rate),
         knownLoadCount = knownLoadCount s + 1\<rparr>
      else s)"

text \<open>The time that is left of the session window of a candidate.\<close>

definition window_open :: "Account \<Rightarrow> gtime \<Rightarrow> duration option" where
  "window_open a now =
     (case SessionWindowEnd a of None \<Rightarrow> None | Some e \<Rightarrow> if now < e then Some (time_sub e now) else None)"

definition scan_reset :: "'z go_env_scheme \<Rightarrow> gtime \<Rightarrow> Candidate \<Rightarrow> ScoreRanges \<Rightarrow> ScoreRanges" where
  "scan_reset env now c r =
     (case window_open (the (account c)) now of
        None \<Rightarrow> r
      | Some d \<Rightarrow>
          let remaining = Seconds env d in
          if \<not> HasResetSample r
          then r\<lparr>MinResetRemaining := remaining, MaxResetRemaining := remaining, HasResetSample := True\<rparr>
          else
            let r = (if flt remaining (MinResetRemaining r) then r\<lparr>MinResetRemaining := remaining\<rparr> else r) in
            if flt (MaxResetRemaining r) remaining then r\<lparr>MaxResetRemaining := remaining\<rparr> else r)"

definition score_ranges :: "'z go_env_scheme \<Rightarrow> ScoreWeights \<Rightarrow> gtime \<Rightarrow> Candidate list \<Rightarrow> ScoreRanges" where
  "score_ranges env w now cs =
     (let r = fold scan_candidate cs
            (no_ranges\<lparr>MinPriority := priority (hd cs), MaxPriority := priority (hd cs), MaxWaiting := 1\<rparr>) in
      if flt (Fin 0) (WReset w) then fold (scan_reset env now) cs r else r)"

section \<open>Scores\<close>

definition one_minus :: "'z go_env_scheme \<Rightarrow> float64 \<Rightarrow> float64" where
  "one_minus env x = fsub env (Fin 1) x"

definition half :: float64 where
  "half = Fin (1 / 2)"

definition priority_factor :: "'z go_env_scheme \<Rightarrow> ScoreRanges \<Rightarrow> int \<Rightarrow> float64" where
  "priority_factor env r p =
     (if MinPriority r < MaxPriority r
      then one_minus env (fdiv env (float_of_int env (wrap64 (p - MinPriority r)))
                                   (float_of_int env (wrap64 (MaxPriority r - MinPriority r))))
      else Fin 1)"

definition load_factor :: "'z go_env_scheme \<Rightarrow> AccountLoadInfo \<Rightarrow> float64" where
  "load_factor env l = one_minus env (clamp01 (fdiv env (float_of_int env (LoadRate l)) (Fin 100)))"

definition queue_factor :: "'z go_env_scheme \<Rightarrow> ScoreRanges \<Rightarrow> AccountLoadInfo \<Rightarrow> float64" where
  "queue_factor env r l =
     one_minus env (clamp01 (fdiv env (float_of_int env (WaitingCount l)) (float_of_int env (MaxWaiting r))))"

definition ttft_factor :: "'z go_env_scheme \<Rightarrow> ScoreRanges \<Rightarrow> Candidate \<Rightarrow> float64" where
  "ttft_factor env r c =
     (if hasTTFT c \<and> HasTTFTSample r \<and> flt (MinTTFT r) (MaxTTFT r)
      then one_minus env (clamp01 (fdiv env (fsub env (ttft c) (MinTTFT r)) (fsub env (MaxTTFT r) (MinTTFT r))))
      else half)"

definition reset_factor :: "'z go_env_scheme \<Rightarrow> ScoreWeights \<Rightarrow> ScoreRanges \<Rightarrow> gtime \<Rightarrow> Account \<Rightarrow> float64" where
  "reset_factor env w r now a =
     (if flt (Fin 0) (WReset w) \<and> HasResetSample r
      then
        (case window_open a now of
           None \<Rightarrow> half
         | Some d \<Rightarrow>
             if flt (MinResetRemaining r) (MaxResetRemaining r)
             then one_minus env (clamp01 (fdiv env (fsub env (Seconds env d) (MinResetRemaining r))
                                                   (fsub env (MaxResetRemaining r) (MinResetRemaining r))))
             else Fin 1)
      else half)"

definition quota_factor :: "(Account \<Rightarrow> gtime \<Rightarrow> float64) option \<Rightarrow> ScoreWeights \<Rightarrow> gtime \<Rightarrow> Account \<Rightarrow> float64" where
  "quota_factor q w now a =
     (if flt (Fin 0) (WQuotaHeadroom w)
      then clamp01 (case q of None \<Rightarrow> half | Some f \<Rightarrow> f a now)
      else half)"

definition factors_of :: "'z go_env_scheme \<Rightarrow> ScoreWeights \<Rightarrow> SelectionInput \<Rightarrow> ScoreRanges \<Rightarrow> gtime \<Rightarrow> Candidate
    \<Rightarrow> Factors" where
  "factors_of env w input r now c =
     \<lparr>FPriority = priority_factor env r (priority c),
      FLoad = (if loadKnown c then load_factor env (loadInfo c) else half),
      FQueue = (if loadKnown c then queue_factor env r (loadInfo c) else half),
      FErrorRate = (if hasFeedback c then one_minus env (clamp01 (errorRate c)) else Fin 1),
      FTTFT = ttft_factor env r c,
      FReset = reset_factor env w r now (the (account c)),
      FQuotaHeadroom = quota_factor (QuotaHeadroomFactor input) w now (the (account c))\<rparr>"

definition weighted_sum :: "'z go_env_scheme \<Rightarrow> ScoreWeights \<Rightarrow> Factors \<Rightarrow> float64" where
  "weighted_sum env w f =
     fadd env (fadd env (fadd env (fadd env (fadd env (fadd env
       (fmul env (WPriority w) (FPriority f))
       (fmul env (WLoad w) (FLoad f)))
       (fmul env (WQueue w) (FQueue f)))
       (fmul env (WErrorRate w) (FErrorRate f)))
       (fmul env (WTTFT w) (FTTFT f)))
       (fmul env (WReset w) (FReset f)))
       (fmul env (WQuotaHeadroom w) (FQuotaHeadroom f))"

text \<open>The bonus of the account that served the previous response, and of the one the session is bound to.\<close>

definition sticky :: "'z go_env_scheme \<Rightarrow> ScoreWeights \<Rightarrow> SelectionInput \<Rightarrow> Candidate \<Rightarrow> Candidate" where
  "sticky env w input c =
     (if StickyWeighted input
      then
        let i = AccountID (the (account c));
            c = (if 0 < StickyPreviousAccountID input \<and> i = StickyPreviousAccountID input
                 then c\<lparr>previousBonus := WPrevious w, stickyBonus := fadd env (stickyBonus c) (WPrevious w)\<rparr> else c) in
        if 0 < StickyAccountID input \<and> i = StickyAccountID input
        then c\<lparr>sessionStickyBonus := WSessionSticky w, stickyBonus := fadd env (stickyBonus c) (WSessionSticky w)\<rparr>
        else c
      else c)"

definition score_candidate :: "'z go_env_scheme \<Rightarrow> ScoreWeights \<Rightarrow> SelectionInput \<Rightarrow> ScoreRanges \<Rightarrow> gtime \<Rightarrow> Candidate
    \<Rightarrow> Candidate" where
  "score_candidate env w input r now c =
     (let f = factors_of env w input r now c;
          c = c\<lparr>factors := f, baseScore := weighted_sum env w f, score := weighted_sum env w f\<rparr>;
          c = sticky env w input c in
      c\<lparr>score := fadd env (score c) (stickyBonus c)\<rparr>)"

definition scoreWithRanges :: "'z sched_env_scheme \<Rightarrow> Account option list \<Rightarrow> (int64 \<rightharpoonup> AccountLoadInfo option)
    \<Rightarrow> RuntimeStats option \<Rightarrow> ScoreWeights \<Rightarrow> SelectionInput \<Rightarrow> gtime \<Rightarrow> Candidate list \<times> float64 \<times> ScoreRanges" where
  "scoreWithRanges env accounts loadMap stats w input now =
     (let cs = candidates_of loadMap stats accounts in
      if cs = [] then ([], Fin 0, no_ranges)
      else
        let r = score_ranges env w now cs;
            totals = fold (scan_load env) cs (\<lparr>loadRateSum = Fin 0, loadRateSumSquares = Fin 0, knownLoadCount = 0\<rparr>) in
        (map (score_candidate env w input r now) cs,
         calcLoadSkewByMoments env (loadRateSum totals) (loadRateSumSquares totals) (knownLoadCount totals), r))"

definition scoreCandidates :: "'z sched_env_scheme \<Rightarrow> Account option list \<Rightarrow> (int64 \<rightharpoonup> AccountLoadInfo option)
    \<Rightarrow> RuntimeStats option \<Rightarrow> ScoreWeights \<Rightarrow> SelectionInput \<Rightarrow> gtime \<Rightarrow> Candidate list \<times> float64" where
  "scoreCandidates env accounts loadMap stats w input now =
     (let (cs, skew, _) = scoreWithRanges env accounts loadMap stats w input now in (cs, skew))"

section \<open>The best candidates\<close>

definition isBetter :: "Candidate \<Rightarrow> Candidate \<Rightarrow> bool" where
  "isBetter left right =
     (case account left of
        None \<Rightarrow> False
      | Some a \<Rightarrow>
          (case account right of
             None \<Rightarrow> True
           | Some b \<Rightarrow>
               if score left \<noteq> score right \<or> score left = NaN then flt (score right) (score left)
               else if Priority a \<noteq> Priority b then Priority a < Priority b
               else AccountID a < AccountID b))"

text \<open>The heap keeps the worst candidate at the root: \<^verbatim>\<open>Less(i, j)\<close> asks whether the second is better.\<close>

definition isWorse :: "Candidate \<Rightarrow> Candidate \<Rightarrow> bool" where
  "isWorse x y = isBetter y x"

definition sortCandidates :: "Candidate list \<Rightarrow> Candidate list" where
  "sortCandidates = insertion_sort isBetter"

definition offer :: "nat \<Rightarrow> Candidate \<Rightarrow> Candidate list \<Rightarrow> Candidate list" where
  "offer topK c best =
     (if length best < topK then heap_push isWorse best c
      else if isBetter c (best ! 0) then heap_fix isWorse (best[0 := c]) 0
      else best)"

definition selectTopK :: "Candidate list \<Rightarrow> int \<Rightarrow> Candidate list" where
  "selectTopK cs topK =
     (if cs = [] then []
      else
        let topK = (if topK \<le> 0 then 1 else topK) in
        if int (length cs) \<le> topK then sortCandidates cs
        else sortCandidates (fold (offer (nat topK)) cs []))"

section \<open>Random numbers\<close>

unbundle bit_operations_syntax

definition newRNG :: "64 word \<Rightarrow> 64 word" where
  "newRNG seed = (if seed = 0 then 0x9e3779b97f4a7c15 else seed)"

text \<open>The state after the step, and the number it gives.\<close>

definition xorshift :: "64 word \<Rightarrow> 64 word" where
  "xorshift x =
     (let x = x XOR drop_bit 12 x;
          x = x XOR push_bit 25 x in
      x XOR drop_bit 27 x)"

definition nextUint64 :: "64 word \<Rightarrow> 64 word \<times> 64 word" where
  "nextUint64 s = (let x = xorshift s in (x, x * 2685821657736338717))"

definition nextFloat64 :: "'z go_env_scheme \<Rightarrow> 64 word \<Rightarrow> 64 word \<times> float64" where
  "nextFloat64 env s =
     (let (s, r) = nextUint64 s in (s, fdiv env (float_of_int env (uint (drop_bit 11 r))) (Fin (2 ^ 53))))"

text \<open>\<^verbatim>\<open>fnv.New64a\<close>: the hash starts at its offset and takes the bytes one by one.\<close>

definition fnv1a :: "64 word \<Rightarrow> string \<Rightarrow> 64 word" where
  "fnv1a = foldl (\<lambda>h c. (h XOR word_of_int (byte c)) * 1099511628211)"

definition fnv_value :: "64 word \<Rightarrow> string \<Rightarrow> 64 word" where
  "fnv_value h v = (if TrimSpace v = [] then h else fnv1a h (TrimSpace v @ [CHR 0x00]))"

definition request_hash :: "SelectionInput \<Rightarrow> 64 word" where
  "request_hash input =
     (let h = 14695981039346656037;
          h = fnv_value h (InSessionHash input);
          h = fnv_value h (InPreviousResponseID input);
          h = fnv_value h (InRequestedModel input) in
      case InGroupID input of None \<Rightarrow> h | Some g \<Rightarrow> fnv1a h (Itoa g))"

definition deriveSeed :: "SelectionInput \<Rightarrow> gtime \<Rightarrow> 64 word" where
  "deriveSeed input now =
     (let seed = request_hash input;
          seed = (if TrimSpace (InSessionHash input) = [] \<and> TrimSpace (InPreviousResponseID input) = []
                  then seed XOR word_of_int (UnixNano now) else seed) in
      if seed = 0 then word_of_int (UnixNano now) XOR 0x9e3779b97f4a7c15 else seed)"

section \<open>The order in which candidates are tried\<close>

definition weight_of :: "'z go_env_scheme \<Rightarrow> float64 \<Rightarrow> Candidate \<Rightarrow> float64" where
  "weight_of env minScore c =
     (let weight = fadd env (fsub env (score c) minScore) (Fin 1) in
      if weight = NaN \<or> weight \<in> {PosInf, NegInf} \<or> fle weight (Fin 0) then Fin 1 else weight)"

definition min_score :: "Candidate list \<Rightarrow> float64" where
  "min_score cs = foldl (\<lambda>m c. if flt (score c) m then score c else m) (score (hd cs)) (tl cs)"

text \<open>The first place where the running sum reaches the random number; the first candidate when there is none.\<close>

fun pick :: "'z go_env_scheme \<Rightarrow> float64 \<Rightarrow> float64 \<Rightarrow> nat \<Rightarrow> float64 list \<Rightarrow> nat" where
  "pick env random acc i [] = 0"
| "pick env random acc i (w # ws) =
     (let acc = fadd env acc w in if fle random acc then i else pick env random acc (Suc i) ws)"

definition draw :: "'z go_env_scheme \<Rightarrow> 64 word \<Rightarrow> float64 list \<Rightarrow> 64 word \<times> nat" where
  "draw env rng ws =
     (let sum = foldl (fadd env) (Fin 0) ws in
      if flt (Fin 0) sum
      then let (rng, f) = nextFloat64 env rng in (rng, pick env (fmul env f sum) (Fin 0) 0 ws)
      else let (rng, n) = nextUint64 rng in (rng, unat (n mod of_nat (length ws))))"

definition remove_at :: "nat \<Rightarrow> 'a list \<Rightarrow> 'a list" where
  "remove_at i xs = take i xs @ drop (Suc i) xs"

lemma pick_bound: "pick env random acc i ws < i + length ws \<or> pick env random acc i ws = 0"
proof (induction ws arbitrary: acc i)
  case (Cons w ws)
  show ?case
    using Cons.IH [of "fadd env acc w" "Suc i"] by (simp add: Let_def)
qed simp

lemma draw_bound: "ws \<noteq> [] \<Longrightarrow> snd (draw env rng ws) < length ws"
proof -
  assume ws: "ws \<noteq> []"
  have "unat (n mod of_nat (length ws)) < length ws" for n :: "64 word"
  proof (cases "length ws < 2 ^ 64")
    case True
    then have "unat (of_nat (length ws) :: 64 word) = length ws"
      by (simp add: unat_of_nat take_bit_nat_eq_self)
    then show ?thesis
      using ws by (simp add: unat_mod)
  next
    case False
    have "unat (n mod of_nat (length ws)) < 2 ^ LENGTH(64)"
      by (rule unsigned_less)
    then show ?thesis using False by simp
  qed
  moreover have "pick env random (Fin 0) 0 ws < length ws" for random
    using ws pick_bound [of env random "Fin 0" 0 ws] by auto
  ultimately show ?thesis
    by (simp add: draw_def Let_def split: prod.splits)
qed

lemma length_remove_at: "i < length xs \<Longrightarrow> length (remove_at i xs) = length xs - 1"
  by (simp add: remove_at_def)

text \<open>The slices of candidates and of their weights change together and are one list of pairs.\<close>

function try_order :: "'z go_env_scheme \<Rightarrow> 64 word \<Rightarrow> (Candidate \<times> float64) list \<Rightarrow> Candidate list" where
  "try_order env rng pool =
     (if pool = [] then []
      else
        let (rng, i) = draw env rng (map snd pool) in
        fst (pool ! i) # try_order env rng (remove_at i pool))"
  by auto
termination
proof (relation "measure (\<lambda>(env, rng, pool). length pool)", goal_cases)
  case (2 env rng pool d rng' i)
  then have "i < length pool"
    using draw_bound [of "map snd pool" env rng] by (metis length_map map_is_Nil_conv snd_conv)
  then show ?case
    by (simp add: length_remove_at)
qed simp

declare try_order.simps [simp del]

definition weightedOrder :: "'z go_env_scheme \<Rightarrow> Candidate list \<Rightarrow> SelectionInput \<Rightarrow> gtime \<Rightarrow> Candidate list" where
  "weightedOrder env cs input now =
     (if length cs \<le> 1 then cs
      else try_order env (newRNG (deriveSeed input now)) (map (\<lambda>c. (c, weight_of env (min_score cs) c)) cs))"

definition selectionOrder :: "'z go_env_scheme \<Rightarrow> Candidate list \<Rightarrow> SelectionInput \<Rightarrow> gtime \<Rightarrow> Candidate list" where
  "selectionOrder env cs input now =
     (if cs = [] then []
      else weightedOrder env (selectTopK cs (if InTopK input \<le> 0 then 1 else InTopK input)) input now)"

section \<open>Scores for the administration\<close>

record ScoreSnapshot =
  SnapBaseScore :: float64
  StickyScore :: float64
  StickyScoreInfinity :: bool
  StickyWeightedEnabled :: bool

text \<open>The platform of the group decides what a request means; without one, the platform of the account.\<close>

definition score_snapshot :: "'z go_env_scheme \<Rightarrow> string option \<Rightarrow> ScoreWeights \<Rightarrow> bool \<Rightarrow> Candidate \<Rightarrow> ScoreSnapshot" where
  "score_snapshot env groupPlatform w enabled c =
     \<lparr>SnapBaseScore = score c,
      StickyScore =
        (if enabled
         then
           let platform = (case groupPlatform of
                 None \<Rightarrow> Platform (the (account c))
               | Some p \<Rightarrow> if TrimSpace p \<noteq> [] then p else Platform (the (account c)));
               s = fadd env (score c) (WSessionSticky w) in
           if platform = PlatformOpenAI then fadd env s (WPrevious w) else s
         else Fin 0),
      StickyScoreInfinity = (\<not> enabled), StickyWeightedEnabled = enabled\<rparr>"

definition no_input :: SelectionInput where
  "no_input = \<lparr>InGroupID = None, InSessionHash = [], InPreviousResponseID = [], InRequestedModel = [],
     StickyAccountID = 0, StickyPreviousAccountID = 0, StickyWeighted = False, InTopK = 0, QuotaHeadroomFactor = None\<rparr>"

definition buildScoreSnapshot :: "'z sched_env_scheme \<Rightarrow> Account option list \<Rightarrow> (int64 \<rightharpoonup> AccountLoadInfo option)
    \<Rightarrow> RuntimeStats option \<Rightarrow> string option \<Rightarrow> ScoreWeights \<Rightarrow> bool \<Rightarrow> (Account \<Rightarrow> gtime \<Rightarrow> float64) option \<Rightarrow> gtime
    \<Rightarrow> (int64 \<rightharpoonup> ScoreSnapshot)" where
  "buildScoreSnapshot env accounts loadMap stats groupPlatform w enabled quota now =
     foldl (\<lambda>m c. m(AccountID (the (account c)) \<mapsto> score_snapshot env groupPlatform w enabled c)) Map.empty
       (fst (scoreCandidates env accounts loadMap stats w (no_input\<lparr>QuotaHeadroomFactor := quota\<rparr>) now))"

section \<open>The ranking\<close>

definition rankable :: "Candidate \<Rightarrow> bool" where
  "rankable c \<longleftrightarrow> account c \<noteq> None \<and> score c \<noteq> NaN"

fun score_key :: "float64 \<Rightarrow> int \<times> rat" where
  "score_key PosInf = (0, 0)"
| "score_key (Fin r) = (1, - r)"
| "score_key NegInf = (2, 0)"
| "score_key NaN = (3, 0)"

definition candidate_key :: "Candidate \<Rightarrow> (int \<times> rat) \<times> int \<times> int" where
  "candidate_key c = (score_key (score c), Priority (the (account c)), AccountID (the (account c)))"

lemma score_key_less: "a \<noteq> NaN \<Longrightarrow> b \<noteq> NaN \<Longrightarrow> flt b a \<longleftrightarrow> score_key a < score_key b"
  by (cases a; cases b) auto

lemma score_key_inject: "score_key a = score_key b \<longleftrightarrow> a = b"
  by (cases a; cases b) auto

lemma score_key_le: "a \<noteq> b \<Longrightarrow> score_key a \<le> score_key b \<longleftrightarrow> score_key a < score_key b"
  by (simp add: order.order_iff_strict score_key_inject)

lemma isBetter_key: "rankable x \<Longrightarrow> rankable y \<Longrightarrow> isBetter x y \<longleftrightarrow> candidate_key x < candidate_key y"
  by (auto simp: isBetter_def rankable_def candidate_key_def score_key_less score_key_inject score_key_le split: option.splits)

interpretation rank: ranking isBetter rankable
  by unfold_locales (auto simp: isBetter_key)

interpretation worst: ranking isWorse rankable
  by unfold_locales (auto simp: isWorse_def isBetter_key)

text \<open>Without ties, an order in which nothing precedes what stands before it is strict.\<close>

lemma strict_order:
  assumes "sorted_wrt (\<lambda>a b. \<not> isBetter b a) cs" and "\<forall>c\<in>set cs. rankable c" and "distinct (map candidate_key cs)"
  shows "sorted_wrt isBetter cs"
  using assms
  by (induction cs) (auto simp: isBetter_key image_iff not_less order.order_iff_strict)

text \<open>
  The loop over the candidates: the heap holds some of those seen, as many as it may, and none of the others is better
  than one it holds.
\<close>

definition top_inv :: "nat \<Rightarrow> Candidate list \<Rightarrow> Candidate list \<Rightarrow> Candidate list \<Rightarrow> bool" where
  "top_inv k seen best rest \<longleftrightarrow>
     mset best + mset rest = mset seen \<and> length best \<le> k \<and> (rest \<noteq> [] \<longrightarrow> length best = k) \<and>
     worst.heap_ok best \<and> (\<forall>r\<in>set rest. \<forall>b\<in>set best. \<not> isBetter r b)"

lemma offer_step:
  assumes "top_inv k seen best rest" and "\<forall>x\<in>set seen. rankable x" and "rankable c" and "0 < k"
  shows "\<exists>rest'. top_inv k (seen @ [c]) (offer k c best) rest'"
proof -
  have elements: "mset best + mset rest = mset seen" and heap: "worst.heap_ok best"
    and small: "length best \<le> k" and full: "rest \<noteq> [] \<longrightarrow> length best = k"
    and left_out: "\<forall>r\<in>set rest. \<forall>b\<in>set best. \<not> isBetter r b"
    using assms(1) by (auto simp: top_inv_def)
  have "set best \<union> set rest = set seen"
    using elements by (metis set_mset_mset set_mset_union)
  then have fine: "\<forall>x\<in>set best \<union> set rest. rankable x"
    using assms(2) by simp
  show ?thesis
  proof (cases "length best < k")
    case True
    then have "rest = []" using full by auto
    moreover have "worst.heap_ok (heap_push isWorse best c)"
      using heap fine assms(3) by (intro worst.heap_push_ok) auto
    ultimately have "top_inv k (seen @ [c]) (offer k c best) []"
      using True elements by (simp add: top_inv_def offer_def heap_push_elements)
    then show ?thesis ..
  next
    case False
    then have best: "best \<noteq> []" and k: "length best = k"
      using assms(4) small by auto
    let ?root = "best ! 0"
    have root: "rankable ?root" using best fine by (simp add: nth_mem)
    have top: "\<not> isBetter ?root b" if "b \<in> set best" for b
    proof -
      obtain i where "i < length best" and "b = best ! i"
        using \<open>b \<in> set best\<close> by (auto simp: in_set_conv_nth)
      then show ?thesis
        using worst.heap_root [OF heap, of i] fine by (simp add: isWorse_def)
    qed
    show ?thesis
    proof (cases "isBetter c ?root")
      case False
      then have "\<not> isBetter c b" if "b \<in> set best" for b
        using that top [OF that] root fine assms(3) rank.not_before_trans by blast
      then have "top_inv k (seen @ [c]) best (rest @ [c])"
        using elements heap k left_out by (auto simp: top_inv_def)
      then show ?thesis
        using False \<open>\<not> length best < k\<close> by (auto simp: offer_def)
    next
      case True
      let ?new = "heap_fix isWorse (best[0 := c]) 0"
      have swapped: "mset (best[0 := c]) + {#?root#} = mset best + {#c#}"
        using best by (cases best) auto
      have new: "mset ?new = mset (best[0 := c])"
        using best by (simp add: heap_fix_elements)
      have members: "set ?new \<subseteq> insert c (set best)"
        using new set_update_subset_insert [of best 0 c] by (metis set_mset_mset)
      have "worst.heap_ok ?new"
        using heap fine assms(3) best by (intro worst.heap_replace_root_ok) auto
      moreover have "\<not> isBetter ?root b" if "b \<in> set ?new" for b
        using members that top True root assms(3) rank.asymmetric by blast
      moreover have "\<not> isBetter r b" if "r \<in> set rest" "b \<in> set ?new" for r b
      proof -
        have "\<not> isBetter r c"
        proof -
          have "\<not> isBetter r ?root" using that(1) left_out best by simp
          moreover have "\<not> isBetter ?root c" using True root assms(3) rank.asymmetric by blast
          ultimately show ?thesis
            using that(1) fine root assms(3) rank.not_before_trans by blast
        qed
        then show ?thesis using members that left_out by blast
      qed
      moreover have total: "mset ?new + mset (?root # rest) = mset (seen @ [c])"
      proof -
        have "mset ?new + mset (?root # rest) = (mset (best[0 := c]) + {#?root#}) + mset rest"
          by (simp add: new)
        also have "\<dots> = mset best + {#c#} + mset rest"
          by (simp only: swapped)
        also have "\<dots> = mset (seen @ [c])"
          by (simp flip: elements)
        finally show ?thesis .
      qed
      ultimately have "top_inv k (seen @ [c]) ?new (?root # rest)"
        using k best by (auto simp: top_inv_def)
      then show ?thesis
        using True \<open>\<not> length best < k\<close> by (auto simp: offer_def)
    qed
  qed
qed

lemma offer_loop:
  assumes "\<forall>x\<in>set cs. rankable x" and "0 < k"
  shows "\<exists>rest. top_inv k cs (fold (offer k) cs []) rest"
  using assms(1)
proof (induction cs rule: rev_induct)
  case Nil
  have "top_inv k [] [] []" by (simp add: top_inv_def worst.heap_ok_def)
  then show ?case by auto
next
  case (snoc c cs)
  then obtain rest where "top_inv k cs (fold (offer k) cs []) rest" by auto
  then show ?case
    using offer_step [of k cs _ rest c] snoc.prems assms(2) by simp
qed

text \<open>What has the same elements as a list without ties is sorted into the same order.\<close>

lemma sort_strict:
  assumes "\<forall>c\<in>set cs. rankable c" and "distinct (map candidate_key cs)"
  shows "sorted_wrt isBetter (sortCandidates cs)"
  using assms rank.insertion_sort_sorted [of cs] insertion_sort_elements [of isBetter cs]
  by (intro strict_order) (auto simp: sortCandidates_def distinct_map dest: mset_eq_imp_distinct_iff)

lemma distinct_keys: "distinct (map (\<lambda>c. AccountID (the (account c))) cs) \<Longrightarrow> distinct (map candidate_key cs)"
  by (induction cs) (auto simp: candidate_key_def)

lemma set_sortCandidates [simp]: "set (sortCandidates cs) = set cs"
  by (simp add: sortCandidates_def)

lemma top_is_prefix:
  assumes "top_inv k cs best rest" and "\<forall>c\<in>set cs. rankable c" and "distinct (map candidate_key cs)"
  shows "sortCandidates best = take (length best) (sortCandidates cs)"
proof -
  have elements: "mset (best @ rest) = mset cs"
    using assms(1) by (simp add: top_inv_def)
  have keys: "distinct (map candidate_key (best @ rest))"
    using assms(3) elements by (metis mset_eq_imp_distinct_iff mset_map)
  have members: "set best \<union> set rest = set cs"
    using elements by (metis set_append set_mset_mset)
  have "isBetter b r" if "b \<in> set best" "r \<in> set rest" for b r
  proof -
    have "candidate_key b \<noteq> candidate_key r" and "\<not> isBetter r b"
      using that keys assms(1) by (auto simp: top_inv_def)
    moreover have "rankable b" and "rankable r"
      using that members assms(2) by auto
    ultimately show ?thesis by (auto simp: isBetter_key)
  qed
  then have "sorted_wrt isBetter (sortCandidates best @ sortCandidates rest)"
    using sort_strict [of best] sort_strict [of rest] keys members assms(2) by (auto simp: sorted_wrt_append)
  then have "sortCandidates cs = sortCandidates best @ sortCandidates rest"
    using members assms by (intro rank.ordered_unique sort_strict) auto
  then show ?thesis
    by (simp add: sortCandidates_def)
qed

section \<open>Properties\<close>

text \<open>
  C19. The heap selects what sorting all candidates and keeping the first would: for candidates with an account and a
  score that is a number, and with distinct accounts, the selection is the front of the sorted list, which ranks
  every candidate before all that follow it.
\<close>

theorem top_k_is_sorted_prefix:
  assumes "\<forall>c\<in>set cs. rankable c"
    and "distinct (map (\<lambda>c. AccountID (the (account c))) cs)"
  shows "selectTopK cs k = take (nat (max 1 k)) (sortCandidates cs) \<and>
    sorted_wrt isBetter (sortCandidates cs) \<and> mset (sortCandidates cs) = mset cs"
proof -
  let ?k = "if k \<le> 0 then 1 else k"
  have k: "nat ?k = nat (max 1 k)" and pos: "0 < nat ?k" by auto
  have keys: "distinct (map candidate_key cs)"
    using assms(2) by (rule distinct_keys)
  have len: "length (sortCandidates cs) = length cs"
    by (simp add: sortCandidates_def)
  have "selectTopK cs k = take (nat ?k) (sortCandidates cs)" if "cs \<noteq> []" "\<not> int (length cs) \<le> ?k"
  proof -
    obtain rest where top: "top_inv (nat ?k) cs (fold (offer (nat ?k)) cs []) rest"
      using offer_loop [OF assms(1) pos] by blast
    let ?best = "fold (offer (nat ?k)) cs []"
    have "length ?best = nat ?k"
    proof (cases "rest = []")
      case True
      then have "length ?best = length cs" and "length ?best \<le> nat ?k"
        using top arg_cong [of _ _ size] by (fastforce simp: top_inv_def dest: mset_eq_length)+
      then show ?thesis using that(2) by linarith
    next
      case False
      then show ?thesis using top by (simp add: top_inv_def)
    qed
    then show ?thesis
      using top_is_prefix [OF top assms(1) keys] that by (simp add: selectTopK_def Let_def)
  qed
  moreover have "selectTopK cs k = take (nat ?k) (sortCandidates cs)" if "cs \<noteq> []" "int (length cs) \<le> ?k"
    using that len by (simp add: selectTopK_def Let_def)
  moreover have "selectTopK [] k = take (nat ?k) (sortCandidates [])"
    by (simp add: selectTopK_def sortCandidates_def insertion_sort_def)
  ultimately have "selectTopK cs k = take (nat ?k) (sortCandidates cs)" by blast
  then show ?thesis
    unfolding k using sort_strict [OF assms(1) keys] by (simp add: sortCandidates_def insertion_sort_elements)
qed

lemma draw_pair: "draw env rng ws = (rng', i) \<Longrightarrow> ws \<noteq> [] \<Longrightarrow> i < length ws"
  using draw_bound [of ws env rng] by simp

lemma mset_remove_at: "i < length xs \<Longrightarrow> add_mset (xs ! i) (mset (remove_at i xs)) = mset xs"
  by (subst (3) id_take_nth_drop [of i xs]) (simp_all add: remove_at_def)

lemma try_order_elements: "mset (try_order env rng pool) = mset (map fst pool)"
proof (induction env rng pool rule: try_order.induct)
  case (1 env rng pool)
  show ?case
  proof (cases "pool = []")
    case True
    then show ?thesis by (simp add: try_order.simps)
  next
    case False
    obtain rng' i where draw: "draw env rng (map snd pool) = (rng', i)" by fastforce
    then have i: "i < length pool"
      using draw_pair [OF draw] False by simp
    have "mset (try_order env rng' (remove_at i pool)) = mset (map fst (remove_at i pool))"
      using 1 [OF False draw [symmetric] refl] .
    then have "mset (try_order env rng pool) = image_mset fst (add_mset (pool ! i) (mset (remove_at i pool)))"
      using False draw by (subst try_order.simps) simp
    then show ?thesis
      using mset_remove_at [OF i] by simp
  qed
qed

text \<open>
  C33. Whatever the random numbers, the order in which the candidates are tried holds each of the selected candidates
  exactly once.
\<close>

theorem order_permutes_selection:
  "mset (selectionOrder env cs input now) = mset (selectTopK cs (InTopK input))"
proof -
  have "mset (weightedOrder env xs input now) = mset xs" for xs
    by (simp add: weightedOrder_def try_order_elements comp_def)
  moreover have "selectTopK cs (if InTopK input \<le> 0 then 1 else InTopK input) = selectTopK cs (InTopK input)"
    by (simp add: selectTopK_def)
  moreover have "selectTopK [] k = []" for k
    by (simp add: selectTopK_def)
  ultimately show ?thesis
    by (simp add: selectionOrder_def)
qed

text \<open>
  C34. A request that names its session or its previous response is served in the same order at all times: the clock
  enters the seed only when both are blank (or the hash of the request is zero).
\<close>

theorem session_order_stable:
  assumes "TrimSpace (InSessionHash input) \<noteq> [] \<or> TrimSpace (InPreviousResponseID input) \<noteq> []"
    and "request_hash input \<noteq> 0"
  shows "selectionOrder env cs input now = selectionOrder env cs input later"
proof -
  have "deriveSeed input t = request_hash input" for t
    using assms by (auto simp: deriveSeed_def Let_def)
  then show ?thesis
    by (simp add: selectionOrder_def weightedOrder_def)
qed

lemma shifted_left_fixed: "0 < n \<Longrightarrow> x XOR push_bit n x = 0 \<Longrightarrow> x = (0 :: 64 word)"
proof -
  assume n: "0 < n" and zero: "x XOR push_bit n x = 0"
  have fixed: "bit x i = bit (push_bit n x) i" for i
  proof -
    have "bit (x XOR push_bit n x) i \<longleftrightarrow> False" by (simp only: zero bit_0_eq bot_apply bot_bool_def)
    then show ?thesis by (simp add: bit_xor_iff)
  qed
  have "\<not> bit x i" for i
  proof (induction i rule: less_induct)
    case (less i)
    show ?case
      using less n fixed [of i] by (auto simp: bit_push_bit_iff)
  qed
  then show ?thesis by (auto intro: bit_eqI)
qed

lemma shifted_right_fixed: "0 < n \<Longrightarrow> x XOR drop_bit n x = 0 \<Longrightarrow> x = (0 :: 64 word)"
proof -
  assume n: "0 < n" and zero: "x XOR drop_bit n x = 0"
  have fixed: "bit x i = bit (drop_bit n x) i" for i
  proof -
    have "bit (x XOR drop_bit n x) i \<longleftrightarrow> False" by (simp only: zero bit_0_eq bot_apply bot_bool_def)
    then show ?thesis by (simp add: bit_xor_iff)
  qed
  have "\<not> bit x i" for i
  proof (induction "64 - i" arbitrary: i rule: less_induct)
    case less
    have "bit x i = bit x (n + i)" using fixed [of i] by (simp add: bit_drop_bit_eq)
    moreover have "\<not> bit x (n + i)"
    proof (cases "i < 64")
      case True
      then show ?thesis using less n by simp
    next
      case False
      then show ?thesis using bit_imp_le_length [of x "n + i"] by auto
    qed
    ultimately show ?case by simp
  qed
  then show ?thesis by (auto intro: bit_eqI)
qed

text \<open>
  The generator never reaches the state in which it would give zero for ever: whatever the seed, and however many
  numbers have been drawn, its state is not zero.
\<close>

theorem rng_never_stuck: "((\<lambda>s. fst (nextUint64 s)) ^^ n) (newRNG seed) \<noteq> 0"
proof -
  have "xorshift x \<noteq> 0" if "x \<noteq> 0" for x
    using that shifted_right_fixed [of 12 x] shifted_left_fixed [of 25 "x XOR drop_bit 12 x"]
      shifted_right_fixed [of 27 "(x XOR drop_bit 12 x) XOR push_bit 25 (x XOR drop_bit 12 x)"]
    by (auto simp: xorshift_def Let_def)
  then have "fst (nextUint64 s) \<noteq> 0" if "s \<noteq> 0" for s
    using that by (simp add: nextUint64_def Let_def)
  moreover have "newRNG seed \<noteq> 0"
    by (simp add: newRNG_def)
  ultimately show ?thesis
    by (induction n) auto
qed

section \<open>Better signals, better scores\<close>

definition unit_float :: "float64 \<Rightarrow> bool" where
  "unit_float x \<longleftrightarrow> (\<exists>r. x = Fin r \<and> 0 \<le> r \<and> r \<le> 1)"

lemma unit_simps [simp]: "unit_float (Fin 1)" "unit_float (Fin 0)" "unit_float half"
  by (auto simp: unit_float_def half_def intro: exI [of _ "1 / 2"])

lemma clamp_unit: "v \<noteq> NaN \<Longrightarrow> unit_float (clamp01 v)"
  by (cases v) (auto simp: unit_float_def clamp01_def)

lemma clamp_mono: "fle a b \<Longrightarrow> fle (clamp01 a) (clamp01 b)"
  by (cases a; cases b) (auto simp: clamp01_def)

lemma one_minus_unit: "rounds env \<Longrightarrow> unit_float x \<Longrightarrow> unit_float (one_minus env x)"
  by (auto simp: unit_float_def one_minus_def fsub_def elim!: rounds_unit [of env "1 - _"])

lemma one_minus_anti:
  "rounds env \<Longrightarrow> unit_float a \<Longrightarrow> unit_float b \<Longrightarrow> fle a b \<Longrightarrow> fle (one_minus env b) (one_minus env a)"
  using rounds_mono [of env] by (auto simp: unit_float_def one_minus_def fsub_def)

definition nonneg_weight :: "float64 \<Rightarrow> bool" where
  "nonneg_weight w \<longleftrightarrow> (\<exists>r. w = Fin r \<and> 0 \<le> r)"

definition weights_nonneg :: "ScoreWeights \<Rightarrow> bool" where
  "weights_nonneg w \<longleftrightarrow>
     nonneg_weight (WPriority w) \<and> nonneg_weight (WLoad w) \<and> nonneg_weight (WQueue w) \<and>
     nonneg_weight (WErrorRate w) \<and> nonneg_weight (WTTFT w) \<and> nonneg_weight (WReset w) \<and>
     nonneg_weight (WQuotaHeadroom w)"

text \<open>\<open>part x y\<close>: both are parts of one, and the first is no larger.\<close>

definition part :: "float64 \<Rightarrow> float64 \<Rightarrow> bool" where
  "part x y \<longleftrightarrow> unit_float x \<and> unit_float y \<and> fle x y"

lemma part_refl: "unit_float x \<Longrightarrow> part x x"
  by (auto simp: part_def unit_float_def)

lemma part_clamp: "fle a b \<Longrightarrow> part (clamp01 a) (clamp01 b)"
  by (cases a; cases b) (auto simp: part_def intro!: clamp_unit clamp_mono)

lemma part_one_minus: "rounds env \<Longrightarrow> part a b \<Longrightarrow> part (one_minus env b) (one_minus env a)"
  by (simp add: part_def one_minus_unit one_minus_anti)

lemma weighted_part:
  assumes "rounds env" and "nonneg_weight w" and "part a b"
  shows "fle (fmul env w a) (fmul env w b)" and "fle (Fin 0) (fmul env w a)"
  using assms fmul_mono [OF assms(1)] fmul_nonneg [OF assms(1)]
  by (auto simp: nonneg_weight_def part_def unit_float_def)

definition factors_le :: "Factors \<Rightarrow> Factors \<Rightarrow> bool" where
  "factors_le f g \<longleftrightarrow>
     part (FPriority f) (FPriority g) \<and> part (FLoad f) (FLoad g) \<and> part (FQueue f) (FQueue g) \<and>
     part (FErrorRate f) (FErrorRate g) \<and> part (FTTFT f) (FTTFT g) \<and> part (FReset f) (FReset g) \<and>
     part (FQuotaHeadroom f) (FQuotaHeadroom g)"

definition nonneg_le :: "float64 \<Rightarrow> float64 \<Rightarrow> bool" where
  "nonneg_le a b \<longleftrightarrow> fle a b \<and> fle (Fin 0) a"

lemma nonneg_le_part: "rounds env \<Longrightarrow> nonneg_weight w \<Longrightarrow> part a b \<Longrightarrow> nonneg_le (fmul env w a) (fmul env w b)"
  by (simp add: nonneg_le_def weighted_part)

lemma nonneg_le_fadd:
  "rounds env \<Longrightarrow> nonneg_le a b \<Longrightarrow> nonneg_le c d \<Longrightarrow> nonneg_le (fadd env a c) (fadd env b d)"
  by (auto simp: nonneg_le_def intro: fadd_mono)

lemma weighted_sum_mono:
  assumes "rounds env" and "weights_nonneg w" and "factors_le f g"
  shows "nonneg_le (weighted_sum env w f) (weighted_sum env w g)"
  using assms(2,3) unfolding weighted_sum_def weights_nonneg_def factors_le_def
  by (intro nonneg_le_fadd nonneg_le_part assms(1)) simp_all

lemma fdiv_mono:
  assumes "rounds env" and "0 < m" and "fle a b"
  shows "fle (fdiv env a (Fin m)) (fdiv env b (Fin m))"
proof -
  have ends: "fle (round64 env r) PosInf" "fle NegInf (round64 env r)" for r
    using rounds_mono [OF assms(1), of r r] by (cases "round64 env r"; simp)+
  have "fle (round64 env (x / m)) (round64 env (y / m))" if "x \<le> y" for x y
    using that assms(1,2) by (intro rounds_mono divide_right_mono) auto
  then show ?thesis
    using assms(2,3) ends by (cases a; cases b) simp_all
qed

definition time_ok :: "'z go_env_scheme \<Rightarrow> float64 \<Rightarrow> bool" where
  "time_ok env f \<longleftrightarrow> (\<exists>t. f = Fin t \<and> 0 \<le> t \<and> t \<le> 2 ^ 64 \<and> round64 env t = Fin t)"

text \<open>Signals as they occur: priorities and counts far from overflow, and times that are floats.\<close>

definition signals_ok :: "'z go_env_scheme \<Rightarrow> Candidate \<Rightarrow> bool" where
  "signals_ok env c \<longleftrightarrow>
     \<bar>priority c\<bar> < 2 ^ 62 \<and> \<bar>WaitingCount (loadInfo c)\<bar> < 2 ^ 63 \<and> \<bar>LoadRate (loadInfo c)\<bar> < 2 ^ 63 \<and>
     (hasTTFT c \<longrightarrow> time_ok env (ttft c))"

definition ranges_ok :: "'z go_env_scheme \<Rightarrow> ScoreRanges \<Rightarrow> bool" where
  "ranges_ok env r \<longleftrightarrow>
     \<bar>MinPriority r\<bar> < 2 ^ 62 \<and> \<bar>MaxPriority r\<bar> < 2 ^ 62 \<and> 1 \<le> MaxWaiting r \<and> MaxWaiting r < 2 ^ 63 \<and>
     (HasTTFTSample r \<longrightarrow> time_ok env (MinTTFT r) \<and> time_ok env (MaxTTFT r))"

definition in_range :: "ScoreRanges \<Rightarrow> Candidate \<Rightarrow> bool" where
  "in_range r c \<longleftrightarrow> MinPriority r \<le> priority c \<and> priority c \<le> MaxPriority r"

lemma scan_ttft_keeps:
  assumes "ranges_ok env r" and "signals_ok env c"
  shows "ranges_ok env (scan_ttft c r) \<and> (\<forall>d. in_range (scan_ttft c r) d = in_range r d)"
  using assms by (auto simp: scan_ttft_def ranges_ok_def signals_ok_def in_range_def Let_def)

lemma scan_keeps:
  assumes "ranges_ok env r" and "signals_ok env c"
  shows "ranges_ok env (scan_candidate c r) \<and> in_range (scan_candidate c r) c \<and>
    (\<forall>d. in_range r d \<longrightarrow> in_range (scan_candidate c r) d)"
proof -
  define s where "s = (let r = (if priority c < MinPriority r then r\<lparr>MinPriority := priority c\<rparr> else r);
          r = (if MaxPriority r < priority c then r\<lparr>MaxPriority := priority c\<rparr> else r) in
      if loadKnown c \<and> MaxWaiting r < WaitingCount (loadInfo c)
      then r\<lparr>MaxWaiting := WaitingCount (loadInfo c)\<rparr> else r)"
  have scan: "scan_candidate c r = scan_ttft c s"
    by (simp add: scan_candidate_def s_def Let_def)
  have "ranges_ok env s"
    using assms by (auto simp: s_def ranges_ok_def signals_ok_def Let_def)
  moreover have "in_range s c" and "\<forall>d. in_range r d \<longrightarrow> in_range s d"
    by (auto simp: s_def in_range_def Let_def)
  ultimately show ?thesis
    unfolding scan using scan_ttft_keeps [OF _ assms(2)] by auto
qed

lemma scan_all:
  assumes "ranges_ok env r" and "\<forall>c\<in>set cs. signals_ok env c"
  shows "ranges_ok env (fold scan_candidate cs r) \<and> (\<forall>c\<in>set cs. in_range (fold scan_candidate cs r) c)"
  using assms(2)
proof (induction cs rule: rev_induct)
  case Nil
  then show ?case using assms(1) by simp
next
  case (snoc c cs)
  then show ?case
    using scan_keeps [of env "fold scan_candidate cs r" c] by auto
qed

lemma score_ranges_ok:
  assumes "\<forall>c\<in>set cs. signals_ok env c" and "cs \<noteq> []" and "WReset w = Fin 0"
  shows "ranges_ok env (score_ranges env w now cs) \<and> (\<forall>c\<in>set cs. in_range (score_ranges env w now cs) c)"
proof -
  have "signals_ok env (hd cs)" using assms(1,2) by simp
  then have "ranges_ok env (no_ranges\<lparr>MinPriority := priority (hd cs), MaxPriority := priority (hd cs), MaxWaiting := 1\<rparr>)"
    by (simp add: ranges_ok_def signals_ok_def no_ranges_def)
  from scan_all [OF this assms(1)] show ?thesis
    using assms(3) by (simp add: score_ranges_def Let_def)
qed

lemma positive_divisor:
  assumes "rounds env" and "1 \<le> i" and "i < 2 ^ 63"
  obtains m where "float_of_int env i = Fin m" and "1 \<le> m"
proof -
  have "\<bar>of_int i :: rat\<bar> \<le> of_int (2 ^ 65)"
    using assms(2,3) by (simp only: of_int_abs [symmetric] of_int_le_iff) simp
  then obtain m where m: "round64 env (of_int i) = Fin m"
    using rounds_finite [OF assms(1), of "of_int i"] by auto
  have "fle (round64 env 1) (round64 env (of_int i))"
    using assms(2) by (intro rounds_mono [OF assms(1)]) simp
  then show thesis
    using that m rounds_one [OF assms(1)] by (simp add: float_of_int_def)
qed

lemma float_of_int_mono: "rounds env \<Longrightarrow> i \<le> j \<Longrightarrow> fle (float_of_int env i) (float_of_int env j)"
  by (simp add: float_of_int_def rounds_mono)

lemma priority_factor_part:
  assumes "rounds env" and "ranges_ok env r" and "in_range r c" and "in_range r d" and "priority c \<le> priority d"
  shows "part (priority_factor env r (priority d)) (priority_factor env r (priority c))"
proof (cases "MinPriority r < MaxPriority r")
  case True
  let ?w = "MaxPriority r - MinPriority r"
  have width: "1 \<le> ?w" "?w < 2 ^ 63"
    using True assms(2) by (auto simp: ranges_ok_def)
  obtain m where m: "float_of_int env ?w = Fin m" and pos: "1 \<le> m"
    using positive_divisor [OF assms(1) width] .
  have wrap: "wrap64 (p - MinPriority r) = p - MinPriority r" if "MinPriority r \<le> p" "p \<le> MaxPriority r" for p
    using that width by (intro wrap64_id) (auto simp: in_int64_def min_int64_def max_int64_def)
  have quotient: "unit_float (fdiv env (float_of_int env (p - MinPriority r)) (Fin m))"
    if p: "MinPriority r \<le> p" "p \<le> MaxPriority r" for p
  proof -
    have "fle (Fin 0) (float_of_int env (p - MinPriority r))" and "fle (float_of_int env (p - MinPriority r)) (Fin m)"
      using p rounds_nonneg [OF assms(1), of "of_int (p - MinPriority r)"]
        float_of_int_mono [OF assms(1), of "p - MinPriority r" ?w] m by (simp_all add: float_of_int_def)
    then obtain q where "float_of_int env (p - MinPriority r) = Fin q" "0 \<le> q" "q \<le> m"
      by (cases "float_of_int env (p - MinPriority r)") auto
    moreover from this have "0 \<le> q / m" "q / m \<le> 1" using pos by auto
    then obtain x where "round64 env (q / m) = Fin x" "0 \<le> x" "x \<le> 1"
      by (rule rounds_unit [OF assms(1)])
    ultimately show ?thesis using pos by (auto simp: unit_float_def)
  qed
  have "fle (fdiv env (float_of_int env (priority c - MinPriority r)) (Fin m))
            (fdiv env (float_of_int env (priority d - MinPriority r)) (Fin m))"
    using assms(5) pos by (intro fdiv_mono [OF assms(1)] float_of_int_mono [OF assms(1)]) auto
  then have "part (fdiv env (float_of_int env (priority c - MinPriority r)) (Fin m))
                  (fdiv env (float_of_int env (priority d - MinPriority r)) (Fin m))"
    using quotient assms(3,4) by (simp add: part_def in_range_def)
  then show ?thesis
    using True m wrap assms(3,4) by (simp add: priority_factor_def in_range_def part_one_minus [OF assms(1)])
next
  case False
  then show ?thesis by (simp add: priority_factor_def part_refl)
qed

lemma load_factor_part:
  assumes "rounds env" and "LoadRate l \<le> LoadRate k"
  shows "part (load_factor env k) (load_factor env l)"
  using assms unfolding load_factor_def
  by (intro part_one_minus part_clamp fdiv_mono float_of_int_mono) auto

lemma queue_factor_part:
  assumes "rounds env" and "ranges_ok env r" and "WaitingCount l \<le> WaitingCount k"
  shows "part (queue_factor env r k) (queue_factor env r l)"
proof -
  obtain m where "float_of_int env (MaxWaiting r) = Fin m" and "1 \<le> m"
    using positive_divisor [OF assms(1), of "MaxWaiting r"] assms(2) by (auto simp: ranges_ok_def)
  then show ?thesis
    using assms(1,3) unfolding queue_factor_def
    by (auto intro!: part_one_minus part_clamp fdiv_mono float_of_int_mono)
qed

lemma ttft_factor_part:
  assumes "rounds env" and "ranges_ok env r" and "signals_ok env c" and "signals_ok env d"
    and "hasTTFT c = hasTTFT d" and "fle (ttft c) (ttft d)"
  shows "part (ttft_factor env r d) (ttft_factor env r c)"
proof (cases "hasTTFT c \<and> HasTTFTSample r \<and> flt (MinTTFT r) (MaxTTFT r)")
  case True
  have "time_ok env (MinTTFT r)" "time_ok env (MaxTTFT r)" "time_ok env (ttft c)" "time_ok env (ttft d)"
    using True assms(2-5) by (simp_all add: ranges_ok_def signals_ok_def)
  then obtain low high t u where times: "MinTTFT r = Fin low" "MaxTTFT r = Fin high" "ttft c = Fin t" "ttft d = Fin u"
    and sizes: "0 \<le> low" "low \<le> 2 ^ 64" "0 \<le> high" "high \<le> 2 ^ 64" "0 \<le> t" "t \<le> 2 ^ 64" "0 \<le> u" "u \<le> 2 ^ 64"
    and floats: "round64 env low = Fin low" "round64 env high = Fin high"
    unfolding time_ok_def by blast
  have order: "low < high" "t \<le> u"
    using True assms(6) times by simp_all
  have bounds: "\<bar>high - low\<bar> \<le> 2 ^ 65"
    using sizes by (simp add: abs_if)
  obtain m where m: "round64 env (high - low) = Fin m"
    using rounds_finite [OF assms(1) bounds] by auto
  have "m \<noteq> 0"
    using rounds_apart [OF assms(1) order(1) floats] m by auto
  then have pos: "0 < m"
    using rounds_nonneg [OF assms(1), of "high - low"] order(1) m by auto
  have "fle (fdiv env (round64 env (t - low)) (Fin m)) (fdiv env (round64 env (u - low)) (Fin m))"
    using order(2) pos by (intro fdiv_mono [OF assms(1)] rounds_mono [OF assms(1)]) auto
  then show ?thesis
    using True assms(5) times m by (simp add: ttft_factor_def fsub_def part_one_minus [OF assms(1)] part_clamp)
next
  case False
  then have "ttft_factor env r c = half" and "ttft_factor env r d = half"
    using assms(5) by (auto simp: ttft_factor_def)
  then show ?thesis by (simp add: part_refl)
qed

text \<open>
  \<open>dominates q now c d\<close>: no signal of \<open>c\<close> is worse than that of \<open>d\<close>.
\<close>

definition dominates :: "(Account \<Rightarrow> gtime \<Rightarrow> float64) option \<Rightarrow> gtime \<Rightarrow> Candidate \<Rightarrow> Candidate \<Rightarrow> bool" where
  "dominates q now c d \<longleftrightarrow>
     priority c \<le> priority d \<and>
     loadKnown c = loadKnown d \<and> LoadRate (loadInfo c) \<le> LoadRate (loadInfo d) \<and>
     WaitingCount (loadInfo c) \<le> WaitingCount (loadInfo d) \<and>
     hasFeedback c = hasFeedback d \<and> fle (errorRate c) (errorRate d) \<and>
     hasTTFT c = hasTTFT d \<and> fle (ttft c) (ttft d) \<and>
     fle (case q of None \<Rightarrow> half | Some f \<Rightarrow> f (the (account d)) now)
         (case q of None \<Rightarrow> half | Some f \<Rightarrow> f (the (account c)) now)"

lemma quota_factor_part:
  assumes "fle (case q of None \<Rightarrow> half | Some f \<Rightarrow> f b now) (case q of None \<Rightarrow> half | Some f \<Rightarrow> f a now)"
  shows "part (quota_factor q w now b) (quota_factor q w now a)"
  unfolding quota_factor_def using assms by (auto intro: part_clamp part_refl)

lemma factors_monotone:
  assumes "rounds env" and "ranges_ok env r" and "WReset w = Fin 0" and "in_range r c" and "in_range r d"
    and "signals_ok env c" and "signals_ok env d" and "dominates (QuotaHeadroomFactor input) now c d"
  shows "factors_le (factors_of env w input r now d) (factors_of env w input r now c)"
proof -
  note parts = priority_factor_part [OF assms(1,2,4,5)] load_factor_part [OF assms(1)] queue_factor_part [OF assms(1,2)]
    ttft_factor_part [OF assms(1,2,6,7)] quota_factor_part part_one_minus [OF assms(1)] part_clamp part_refl
  have "reset_factor env w r now a = half" for a
    by (simp add: reset_factor_def assms(3))
  then show ?thesis
    using assms(8) unfolding factors_le_def dominates_def factors_of_def
    by (auto intro!: parts)
qed

lemma scored_fields [simp]:
  "priority (score_candidate env w input r now c) = priority c"
  "loadKnown (score_candidate env w input r now c) = loadKnown c"
  "loadInfo (score_candidate env w input r now c) = loadInfo c"
  "hasFeedback (score_candidate env w input r now c) = hasFeedback c"
  "errorRate (score_candidate env w input r now c) = errorRate c"
  "hasTTFT (score_candidate env w input r now c) = hasTTFT c"
  "ttft (score_candidate env w input r now c) = ttft c"
  "account (score_candidate env w input r now c) = account c"
  "baseScore (score_candidate env w input r now c) = weighted_sum env w (factors_of env w input r now c)"
  by (simp_all add: score_candidate_def sticky_def Let_def)

text \<open>
  C20. A candidate with no worse signal than another never has the lower base score: with nonnegative weights, the
  weight of the session window at its default of zero and floats that round monotonically, a smaller priority
  number, a lower load, a shorter queue, a lower error rate, an earlier first token and more headroom only raise it.
\<close>

theorem better_signals_score_higher:
  assumes "rounds env" and "weights_nonneg w" and "WReset w = Fin 0"
    and "scoreWithRanges env accounts loadMap stats w input now = (cs, skew, r)"
    and "\<forall>x\<in>set cs. signals_ok env x"
    and "c \<in> set cs" and "d \<in> set cs" and "dominates (QuotaHeadroomFactor input) now c d"
  shows "fle (baseScore d) (baseScore c)"
proof -
  define base where "base = candidates_of loadMap stats accounts"
  define ranges where "ranges = score_ranges env w now base"
  have "base \<noteq> []"
    using assms(4,6) by (auto simp: scoreWithRanges_def base_def)
  then have cs: "cs = map (score_candidate env w input ranges now) base"
    using assms(4) by (auto simp: scoreWithRanges_def base_def ranges_def Let_def)
  then obtain x y where x: "x \<in> set base" "c = score_candidate env w input ranges now x"
    and y: "y \<in> set base" "d = score_candidate env w input ranges now y"
    using assms(6,7) by auto
  have ok: "\<forall>z\<in>set base. signals_ok env z"
    using assms(5) unfolding cs by (simp add: signals_ok_def)
  note ranges = score_ranges_ok [OF ok \<open>base \<noteq> []\<close> assms(3), of now, folded ranges_def]
  have "dominates (QuotaHeadroomFactor input) now x y"
    using assms(8) unfolding x(2) y(2) by (auto simp: dominates_def split: option.splits)
  then have "factors_le (factors_of env w input ranges now y) (factors_of env w input ranges now x)"
    using ranges ok x(1) y(1) assms(1,3) by (intro factors_monotone) auto
  then show ?thesis
    using weighted_sum_mono [OF assms(1,2)] unfolding x(2) y(2) by (simp add: nonneg_le_def)
qed

section \<open>Counting reports\<close>

record Report =
  RepAccount :: int64
  RepSuccess :: bool
  RepFirstTokenMs :: "int option"
  RepFeedback :: "FeedbackConfig list"
  RepAt :: gtime

definition report_all :: "'z go_env_scheme \<Rightarrow> Report list \<Rightarrow> RuntimeStats" where
  "report_all env rs =
     foldl (\<lambda>s r. report env (RepAccount r) (RepSuccess r) (RepFirstTokenMs r) (RepFeedback r) (RepAt r) s)
       newRuntimeStats rs"

definition reports_of :: "int64 \<Rightarrow> Report list \<Rightarrow> Report list" where
  "reports_of i rs = filter (\<lambda>r. RepAccount r = i) rs"

lemma report_frame:
  "stat_accounts (report env i ok ms fb now s) =
     (if i \<le> 0 then stat_accounts s else (stat_accounts s)(i \<mapsto> the (stat_accounts (report env i ok ms fb now s) i)))"
  "accountCount (report env i ok ms fb now s) =
     (if i \<le> 0 \<or> i \<in> dom (stat_accounts s) then accountCount s else wrap64 (accountCount s + 1))"
  by (auto simp: report_def loadOrCreate_def Let_def split: option.splits)

lemma observe_ttft_samples [simp]: "errorSamples (observe_ttft env cfg ms now stat) = errorSamples stat"
  by (simp add: observe_ttft_def Let_def split: option.split)

lemma report_samples:
  "0 < i \<Longrightarrow> \<exists>stat. stat_accounts (report env i ok ms fb now s) i = Some stat \<and>
     errorSamples stat = wrap64 (1 + (case stat_accounts s i of None \<Rightarrow> 0 | Some old \<Rightarrow> errorSamples old))"
  by (auto simp: report_def loadOrCreate_def Let_def observe_error_def fresh_stat_def add.commute split: option.splits)

lemma report_all_snoc:
  "report_all env (rs @ [r]) =
     report env (RepAccount r) (RepSuccess r) (RepFirstTokenMs r) (RepFeedback r) (RepAt r) (report_all env rs)"
  by (simp add: report_all_def)

lemma reports_counted_inv:
  "int (length rs) \<le> max_int64 \<Longrightarrow>
     dom (stat_accounts (report_all env rs)) = {i \<in> RepAccount ` set rs. 0 < i} \<and>
     accountCount (report_all env rs) = int (card {i \<in> RepAccount ` set rs. 0 < i}) \<and>
     (\<forall>i stat. stat_accounts (report_all env rs) i = Some stat \<longrightarrow> errorSamples stat = int (length (reports_of i rs)))"
proof (induction rs rule: rev_induct)
  case Nil
  then show ?case
    by (simp add: report_all_def newRuntimeStats_def)
next
  case (snoc r rs)
  let ?s = "report_all env rs" and ?i = "RepAccount r"
  let ?ids = "\<lambda>rs. {i \<in> RepAccount ` set rs. 0 < i}"
  let ?t = "report_all env (rs @ [r])"
  have ids: "dom (stat_accounts ?s) = ?ids rs" and size: "accountCount ?s = int (card (?ids rs))"
    and samples: "stat_accounts ?s i = Some stat \<Longrightarrow> errorSamples stat = int (length (reports_of i rs))" for i stat
    using snoc by auto
  have small: "int (card (?ids rs)) \<le> int (length rs)"
    using card_mono [of "RepAccount ` set rs" "?ids rs"] card_image_le [of "set rs" RepAccount] card_length [of rs]
    by (auto intro: order_trans)
  have range: "wrap64 n = n" if "0 \<le> n" "n \<le> int (length rs) + 1" for n
    using that snoc.prems by (intro wrap64_id) (auto simp: in_int64_def min_int64_def)
  show ?case
  proof (cases "0 < ?i")
    case False
    then have "?t = ?s" by (simp add: report_all_snoc report_def)
    moreover have "?ids (rs @ [r]) = ?ids rs" using False by auto
    moreover have "reports_of i (rs @ [r]) = reports_of i rs" if "i \<in> ?ids rs" for i
      using that False by (auto simp: reports_of_def)
    ultimately show ?thesis
      using ids size samples by (metis domI)
  next
    case True
    have ids': "?ids (rs @ [r]) = insert ?i (?ids rs)" using True by auto
    obtain stat where new: "stat_accounts ?t ?i = Some stat"
      and count: "errorSamples stat = wrap64 (1 + (case stat_accounts ?s ?i of None \<Rightarrow> 0 | Some old \<Rightarrow> errorSamples old))"
      using report_samples [OF True] unfolding report_all_snoc by blast
    have t: "stat_accounts ?t = (stat_accounts ?s)(?i \<mapsto> stat)"
      using report_frame(1) [of env ?i "RepSuccess r" "RepFirstTokenMs r" "RepFeedback r" "RepAt r" ?s] True new
      unfolding report_all_snoc by simp
    have "reports_of ?i rs = []" if "stat_accounts ?s ?i = None"
    proof -
      have "?i \<notin> ?ids rs" using that ids by (metis domIff)
      then have "?i \<notin> RepAccount ` set rs" using True by blast
      then show ?thesis unfolding reports_of_def filter_empty_conv by (metis imageI)
    qed
    then have "errorSamples stat = int (length (reports_of ?i (rs @ [r])))"
      using count samples [of ?i] range [of "1 + int (length (reports_of ?i rs))"]
      by (auto simp: reports_of_def split: option.splits)
    moreover have "reports_of i (rs @ [r]) = reports_of i rs" if "i \<noteq> ?i" for i
      using that by (simp add: reports_of_def)
    ultimately have "\<forall>i stat'. stat_accounts ?t i = Some stat' \<longrightarrow> errorSamples stat' = int (length (reports_of i (rs @ [r])))"
      using samples t by auto
    moreover have "dom (stat_accounts ?t) = ?ids (rs @ [r])"
      unfolding t ids' using ids by simp
    moreover have "accountCount ?t = int (card (?ids (rs @ [r])))"
      using report_frame(2) [of env ?i "RepSuccess r" "RepFirstTokenMs r" "RepFeedback r" "RepAt r" ?s] True size small
        range [of "1 + int (card (?ids rs))"] unfolding report_all_snoc ids' ids
      by (auto simp: card_insert_if add.commute insert_absorb)
    ultimately show ?thesis by blast
  qed
qed

text \<open>
  The runtime statistics count what was reported: after any reports (fewer than overflow a counter), an account has
  feedback exactly when one of them was about it, with as many error samples as there were, and the size is the
  number of such accounts.
\<close>

theorem reports_counted:
  assumes "int (length rs) \<le> max_int64" and "0 < i"
  shows "(HasFeedback (feedbackSnapshot (Some (report_all env rs)) i) \<longleftrightarrow> reports_of i rs \<noteq> []) \<and>
    SnapErrorSamples (feedbackSnapshot (Some (report_all env rs)) i) = int (length (reports_of i rs)) \<and>
    stats_size (Some (report_all env rs)) = int (card {i \<in> RepAccount ` set rs. 0 < i})"
proof -
  note inv = reports_counted_inv [OF assms(1), of env]
  have known: "stat_accounts (report_all env rs) i \<noteq> None \<longleftrightarrow> reports_of i rs \<noteq> []"
  proof -
    have "stat_accounts (report_all env rs) i \<noteq> None \<longleftrightarrow> i \<in> {i \<in> RepAccount ` set rs. 0 < i}"
      using inv by (metis domIff)
    then show ?thesis
      using assms(2) by (auto simp: reports_of_def filter_empty_conv image_iff)
  qed
  have "HasFeedback (feedbackSnapshot (Some (report_all env rs)) i) \<longleftrightarrow> reports_of i rs \<noteq> []"
    using known assms(2) by (auto simp: feedbackSnapshot_def no_feedback_def Let_def split: option.splits)
  moreover have "SnapErrorSamples (feedbackSnapshot (Some (report_all env rs)) i) = int (length (reports_of i rs))"
    using known inv assms(2) by (auto simp: feedbackSnapshot_def no_feedback_def Let_def split: option.splits)
  moreover have "stats_size (Some (report_all env rs)) = int (card {i \<in> RepAccount ` set rs. 0 < i})"
    using inv by (simp add: stats_size_def)
  ultimately show ?thesis by blast
qed

section \<open>Witnesses\<close>

text \<open>An environment that rounds nothing and knows the root of 400, the variance of the two load rates below.\<close>

definition demo_sched_env :: sched_env where
  "demo_sched_env = \<lparr>float_oor = (\<lambda>f. min_int64), round64 = Fin, ParseFloat = (\<lambda>s. None),
     ParseRFC3339Nano = (\<lambda>s. None), ParseRFC3339 = (\<lambda>s. None), FormatRFC3339 = (\<lambda>t. []),
     UnicodeLower = (\<lambda>s. s), UnicodeEqualFold = (\<lambda>s t. s = t), FormatValue = (\<lambda>v. []),
     Sqrt = (\<lambda>x. if x = Fin 400 then Fin 20 else NaN)\<rparr>"

lemma demo_rounds: "rounds demo_sched_env"
  by (rule rounds_exact) (simp add: demo_sched_env_def)

definition demo_pool :: "Account option list" where
  "demo_pool = [Some (demo_account\<lparr>AccountID := 1, Priority := 1\<rparr>), None, Some (demo_account\<lparr>AccountID := 2, Priority := 2\<rparr>)]"

definition demo_load :: "int64 \<rightharpoonup> AccountLoadInfo option" where
  "demo_load = [1 \<mapsto> Some \<lparr>LoadAccountID = 1, CurrentConcurrency = 1, WaitingCount = 0, LoadRate = 20\<rparr>,
     2 \<mapsto> Some \<lparr>LoadAccountID = 2, CurrentConcurrency = 3, WaitingCount = 3, LoadRate = 60\<rparr>]"

definition demo_weights :: ScoreWeights where
  "demo_weights = \<lparr>WPriority = Fin 1, WLoad = Fin 1, WQueue = Fin 1, WErrorRate = Fin 1, WTTFT = Fin 1,
     WReset = Fin 0, WQuotaHeadroom = Fin 0, WPrevious = Fin 10, WSessionSticky = Fin 10\<rparr>"

definition demo_input :: SelectionInput where
  "demo_input = no_input\<lparr>InSessionHash := ''s1'', InTopK := 2\<rparr>"

text \<open>Three candidates with the scores 1, 3 and 2.\<close>

definition demo_candidate :: "int64 \<Rightarrow> float64 \<Rightarrow> Candidate" where
  "demo_candidate i s = (candidate_of Map.empty None (demo_account\<lparr>AccountID := i\<rparr>))\<lparr>score := s\<rparr>"

definition demo_candidates :: "Candidate list" where
  "demo_candidates = [demo_candidate 1 (Fin 1), demo_candidate 2 (Fin 3), demo_candidate 3 (Fin 2)]"

lemma demo_candidate_fields [simp]:
  "account (demo_candidate i s) = Some (demo_account\<lparr>AccountID := i\<rparr>)" "score (demo_candidate i s) = s"
  by (simp_all add: demo_candidate_def candidate_of_def Let_def)

theorem top_k_is_sorted_prefix_witness:
  "selectTopK demo_candidates 2 = take 2 (sortCandidates demo_candidates) \<and>
   sorted_wrt isBetter (sortCandidates demo_candidates) \<and>
   selectTopK demo_candidates 2 = [demo_candidate 2 (Fin 3), demo_candidate 3 (Fin 2)]"
proof -
  have "selectTopK demo_candidates 2 = take (nat (max 1 2)) (sortCandidates demo_candidates) \<and>
    sorted_wrt isBetter (sortCandidates demo_candidates) \<and> mset (sortCandidates demo_candidates) = mset demo_candidates"
    by (rule top_k_is_sorted_prefix) (simp_all add: demo_candidates_def rankable_def)
  moreover have "sortCandidates demo_candidates = [demo_candidate 2 (Fin 3), demo_candidate 3 (Fin 2), demo_candidate 1 (Fin 1)]"
    by (simp add: sortCandidates_def insertion_sort_def demo_candidates_def numeral_2_eq_2 exchange_def isBetter_def upt_rec)
  ultimately show ?thesis by simp
qed

theorem session_order_stable_witness:
  "selectionOrder demo_sched_env demo_candidates demo_input 0 = selectionOrder demo_sched_env demo_candidates demo_input 1000 \<and>
   request_hash demo_input \<noteq> 0"
proof
  have trim: "TrimSpace ''s1'' = ''s1''"
    by (rule TrimSpace_printable) simp_all
  have "request_hash demo_input = fnv1a 14695981039346656037 (''s1'' @ [CHR 0x00])"
    by (simp add: request_hash_def fnv_value_def demo_input_def no_input_def trim del: TrimSpace_Nil) (simp add: TrimSpace_Nil)
  moreover have "fnv1a 14695981039346656037 (''s1'' @ [CHR 0x00]) \<noteq> 0" by code_simp
  ultimately show hash: "request_hash demo_input \<noteq> 0" by simp
  show "selectionOrder demo_sched_env demo_candidates demo_input 0 = selectionOrder demo_sched_env demo_candidates demo_input 1000"
    by (rule session_order_stable [OF _ hash]) code_simp
qed

text \<open>The first of the two accounts of \<open>demo_pool\<close> has the smaller priority, the lower load and the shorter queue.\<close>

definition demo_scored :: "Candidate list" where
  "demo_scored = fst (scoreWithRanges demo_sched_env demo_pool demo_load None demo_weights demo_input 0)"

lemma demo_ranges:
  "score_ranges demo_sched_env demo_weights 0 (candidates_of demo_load None demo_pool) =
     \<lparr>MinPriority = 1, MaxPriority = 2, MaxWaiting = 3, MinTTFT = Fin 0, MaxTTFT = Fin 0, HasTTFTSample = False,
      MinResetRemaining = Fin 0, MaxResetRemaining = Fin 0, HasResetSample = False\<rparr>"
  by (simp add: score_ranges_def candidates_of_def demo_pool_def candidate_of_def demo_load_def scan_candidate_def
      scan_ttft_def no_ranges_def feedbackSnapshot_def no_feedback_def demo_weights_def map_filter_simps)

lemma demo_scored:
  "demo_scored = map (score_candidate demo_sched_env demo_weights demo_input
     \<lparr>MinPriority = 1, MaxPriority = 2, MaxWaiting = 3, MinTTFT = Fin 0, MaxTTFT = Fin 0, HasTTFTSample = False,
      MinResetRemaining = Fin 0, MaxResetRemaining = Fin 0, HasResetSample = False\<rparr> 0)
     [candidate_of demo_load None (demo_account\<lparr>AccountID := 1, Priority := 1\<rparr>),
      candidate_of demo_load None (demo_account\<lparr>AccountID := 2, Priority := 2\<rparr>)]"
  by (simp add: demo_scored_def scoreWithRanges_def demo_ranges Let_def)
     (simp add: candidates_of_def demo_pool_def map_filter_simps)

theorem better_signals_score_higher_witness:
  "fle (baseScore (demo_scored ! 1)) (baseScore (demo_scored ! 0)) \<and>
   baseScore (demo_scored ! 0) = Fin (43 / 10) \<and> baseScore (demo_scored ! 1) = Fin (19 / 10)"
proof -
  obtain skew r where scored:
    "scoreWithRanges demo_sched_env demo_pool demo_load None demo_weights demo_input 0 = (demo_scored, skew, r)"
    unfolding demo_scored_def by (metis prod.collapse)
  note fields = candidate_of_def demo_load_def feedbackSnapshot_def no_feedback_def
  have "fle (baseScore (demo_scored ! 1)) (baseScore (demo_scored ! 0))"
  proof (rule better_signals_score_higher [OF demo_rounds _ _ scored])
    show "weights_nonneg demo_weights" and "WReset demo_weights = Fin 0"
      by (simp_all add: weights_nonneg_def nonneg_weight_def demo_weights_def)
    show "\<forall>x\<in>set demo_scored. signals_ok demo_sched_env x"
      by (simp add: demo_scored signals_ok_def fields)
    show "dominates (QuotaHeadroomFactor demo_input) 0 (demo_scored ! 0) (demo_scored ! 1)"
      by (simp add: demo_scored dominates_def fields demo_input_def no_input_def half_def)
  qed (simp_all add: demo_scored)
  moreover have "baseScore (demo_scored ! 0) = Fin (43 / 10)" and "baseScore (demo_scored ! 1) = Fin (19 / 10)"
    by (simp_all add: demo_scored fields weighted_sum_def factors_of_def priority_factor_def load_factor_def
        queue_factor_def ttft_factor_def reset_factor_def quota_factor_def demo_weights_def demo_sched_env_def
        float_of_int_def wrap64_def one_minus_def fsub_def clamp01_def half_def)
  ultimately show ?thesis by simp
qed

definition demo_reports :: "Report list" where
  "demo_reports =
     [\<lparr>RepAccount = 5, RepSuccess = False, RepFirstTokenMs = None, RepFeedback = [], RepAt = 0\<rparr>,
      \<lparr>RepAccount = 0, RepSuccess = True, RepFirstTokenMs = None, RepFeedback = [], RepAt = 1\<rparr>,
      \<lparr>RepAccount = 5, RepSuccess = True, RepFirstTokenMs = Some 300, RepFeedback = [], RepAt = 2\<rparr>]"

theorem reports_counted_witness:
  "SnapErrorSamples (feedbackSnapshot (Some (report_all demo_sched_env demo_reports)) 5) = 2 \<and>
   stats_size (Some (report_all demo_sched_env demo_reports)) = 1"
proof -
  have ids: "{i \<in> RepAccount ` set demo_reports. 0 < i} = {5}"
    by (auto simp: demo_reports_def)
  have "SnapErrorSamples (feedbackSnapshot (Some (report_all demo_sched_env demo_reports)) 5) =
      int (length (reports_of 5 demo_reports)) \<and>
    stats_size (Some (report_all demo_sched_env demo_reports)) = int (card {i \<in> RepAccount ` set demo_reports. 0 < i})"
    using reports_counted [of demo_reports 5 demo_sched_env] by (simp add: demo_reports_def max_int64_def)
  then show ?thesis
    unfolding ids by (simp add: demo_reports_def reports_of_def)
qed

end
