(* ===== verification/Channel_Pricing.thy ===== *)
theory Channel_Pricing
  imports Go_Location Go_Float Account_Model "HOL-Library.Multiset"
begin

text \<open>
  The prices a channel sets for models: the entries with their token intervals and request tiers
  (\<^verbatim>\<open>service/channel.go\<close>), the validation of intervals, and the multipliers for times of the day
  (\<^verbatim>\<open>service/custom_channel_time_pricing.go\<close>).

  Values are immutable here, so a copy is the value itself.  Database columns no modelled code reads are left out.
  The time zone database is an argument; the cache of zones returns what loading gives.  An error is its kind
  without the text and the index in it.
\<close>

section \<open>Prices\<close>

type_synonym price = "float64 option"

definition BillingModeToken :: string where "BillingModeToken = ''token''"
definition BillingModePerRequest :: string where "BillingModePerRequest = ''per_request''"
definition BillingModeImage :: string where "BillingModeImage = ''image''"
definition BillingModeVideo :: string where "BillingModeVideo = ''video''"

lemmas billing_modes = BillingModeToken_def BillingModePerRequest_def BillingModeImage_def BillingModeVideo_def

definition BillingModeIsValid :: "string \<Rightarrow> bool" where
  "BillingModeIsValid m \<longleftrightarrow> m \<in> {BillingModeToken, BillingModePerRequest, BillingModeImage, BillingModeVideo, []}"

definition IsValidUsageFilter :: "string \<Rightarrow> bool" where
  "IsValidUsageFilter m \<longleftrightarrow> m \<in> {BillingModeToken, BillingModePerRequest, BillingModeImage, BillingModeVideo, []}"

record PricingInterval =
  MinTokens :: int
  MaxTokens :: "int option"
  TierLabel :: string
  IvInputPrice :: price
  IvOutputPrice :: price
  IvCacheWritePrice :: price
  IvCacheWrite1hPrice :: price
  IvCacheReadPrice :: price
  IvInputMultiplier :: price
  IvOutputMultiplier :: price
  IvCacheWriteMultiplier :: price
  IvCacheReadMultiplier :: price
  IvPerRequestPrice :: price
  SortOrder :: int

record TimePeriod =
  StartTime :: string
  EndTime :: string
  PeriodMultiplier :: float64

record TimePricing =
  Timezone :: string
  WeekdaysOnly :: bool
  Periods :: "TimePeriod list"

record ChannelModelPricing =
  ChPlatform :: string
  ChModels :: "string list"
  ChBillingMode :: string
  ChPriceMultiplier :: price
  ChFastModeMultiplier :: price
  ChFastMultiplier :: price
  ChFlexMultiplier :: price
  ChInputPrice :: price
  ChOutputPrice :: price
  ChCacheWritePrice :: price
  ChCacheWrite1hPrice :: price
  ChCacheReadPrice :: price
  ChImageInputPrice :: price
  ChImageOutputPrice :: price
  ChPerRequestPrice :: price
  ChIntervals :: "PricingInterval list"
  ChTimePricing :: "TimePricing option"

text \<open>\<^verbatim>\<open>Channel.GetModelPricing\<close> over the entries of the channel.\<close>

fun GetModelPricing :: "'z go_env_scheme \<Rightarrow> string \<Rightarrow> ChannelModelPricing list \<Rightarrow> ChannelModelPricing option" where
  "GetModelPricing env model [] = None"
| "GetModelPricing env model (p # ps) =
     (if \<exists>m\<in>set (ChModels p). to_lower env m = to_lower env model then Some p else GetModelPricing env model ps)"

definition interval_matches :: "int \<Rightarrow> PricingInterval \<Rightarrow> bool" where
  "interval_matches n iv \<longleftrightarrow> MinTokens iv < n \<and> (case MaxTokens iv of None \<Rightarrow> True | Some m \<Rightarrow> n \<le> m)"

definition FindMatchingInterval :: "PricingInterval list \<Rightarrow> int \<Rightarrow> PricingInterval option" where
  "FindMatchingInterval intervals n = find (interval_matches n) intervals"

definition GetIntervalForContext :: "ChannelModelPricing \<Rightarrow> int \<Rightarrow> PricingInterval option" where
  "GetIntervalForContext p n = FindMatchingInterval (ChIntervals p) n"

definition GetTierByLabel :: "'z go_env_scheme \<Rightarrow> ChannelModelPricing \<Rightarrow> string \<Rightarrow> PricingInterval option" where
  "GetTierByLabel env p label = find (\<lambda>iv. to_lower env (TierLabel iv) = to_lower env label) (ChIntervals p)"

definition per_request_mode :: "string \<Rightarrow> bool" where
  "per_request_mode m \<longleftrightarrow> m \<in> {BillingModePerRequest, BillingModeImage, BillingModeVideo}"

text \<open>An interval with a token price or multiplier, as \<^verbatim>\<open>HasEffectivePricing\<close> and the resolver ask for it.\<close>

definition has_token_price :: "PricingInterval \<Rightarrow> bool" where
  "has_token_price iv \<longleftrightarrow>
     IvInputPrice iv \<noteq> None \<or> IvOutputPrice iv \<noteq> None \<or> IvCacheWritePrice iv \<noteq> None \<or>
     IvCacheWrite1hPrice iv \<noteq> None \<or> IvCacheReadPrice iv \<noteq> None \<or> IvInputMultiplier iv \<noteq> None \<or>
     IvOutputMultiplier iv \<noteq> None \<or> IvCacheWriteMultiplier iv \<noteq> None \<or> IvCacheReadMultiplier iv \<noteq> None"

definition HasEffectivePricing :: "ChannelModelPricing option \<Rightarrow> bool" where
  "HasEffectivePricing entry =
     (case entry of
        None \<Rightarrow> False
      | Some p \<Rightarrow>
          let mode = (if ChBillingMode p = [] then BillingModeToken else ChBillingMode p) in
          if per_request_mode mode
          then ChPerRequestPrice p \<noteq> None \<or> list_ex (\<lambda>iv. IvPerRequestPrice iv \<noteq> None) (ChIntervals p)
          else
            ChInputPrice p \<noteq> None \<or> ChOutputPrice p \<noteq> None \<or> ChCacheWritePrice p \<noteq> None \<or>
            ChCacheWrite1hPrice p \<noteq> None \<or> ChCacheReadPrice p \<noteq> None \<or> ChImageInputPrice p \<noteq> None \<or>
            ChImageOutputPrice p \<noteq> None \<or> ChFastMultiplier p \<noteq> None \<or> ChFlexMultiplier p \<noteq> None \<or>
            list_ex has_token_price (ChIntervals p))"

section \<open>Validation of intervals\<close>

datatype interval_error =
    NegativeMinTokens | MaxTokensNotPositive | MaxTokensNotAboveMin | NegativePrice string
  | MultiplierNotPositive string | UnboundedNotLast | IntervalsOverlap

fun first_bad :: "(float64 \<Rightarrow> bool) \<Rightarrow> (string \<times> price) list \<Rightarrow> string option" where
  "first_bad bad [] = None"
| "first_bad bad ((name, p) # rest) =
     (case p of Some v \<Rightarrow> if bad v then Some name else first_bad bad rest | None \<Rightarrow> first_bad bad rest)"

definition validateIntervalPrices :: "PricingInterval \<Rightarrow> interval_error option" where
  "validateIntervalPrices iv =
     (case first_bad (\<lambda>v. flt v (Fin 0))
         [(''input_price'', IvInputPrice iv), (''output_price'', IvOutputPrice iv),
          (''cache_write_price'', IvCacheWritePrice iv), (''cache_write_1h_price'', IvCacheWrite1hPrice iv),
          (''cache_read_price'', IvCacheReadPrice iv), (''per_request_price'', IvPerRequestPrice iv)] of
        Some name \<Rightarrow> Some (NegativePrice name)
      | None \<Rightarrow>
          (case first_bad (\<lambda>v. fle v (Fin 0))
              [(''input_multiplier'', IvInputMultiplier iv), (''output_multiplier'', IvOutputMultiplier iv),
               (''cache_write_multiplier'', IvCacheWriteMultiplier iv), (''cache_read_multiplier'', IvCacheReadMultiplier iv)] of
             Some name \<Rightarrow> Some (MultiplierNotPositive name)
           | None \<Rightarrow> None))"

definition validateSingleInterval :: "PricingInterval \<Rightarrow> interval_error option" where
  "validateSingleInterval iv =
     (if MinTokens iv < 0 then Some NegativeMinTokens
      else
        case MaxTokens iv of
          None \<Rightarrow> validateIntervalPrices iv
        | Some m \<Rightarrow>
            if m \<le> 0 then Some MaxTokensNotPositive
            else if m \<le> MinTokens iv then Some MaxTokensNotAboveMin
            else validateIntervalPrices iv)"

fun first_error :: "('a \<Rightarrow> 'e option) \<Rightarrow> 'a list \<Rightarrow> 'e option" where
  "first_error check [] = None"
| "first_error check (x # xs) = (case check x of Some e \<Rightarrow> Some e | None \<Rightarrow> first_error check xs)"

text \<open>The loop over the sorted intervals, with the interval before the current one.\<close>

fun overlap_loop :: "PricingInterval option \<Rightarrow> PricingInterval list \<Rightarrow> interval_error option" where
  "overlap_loop prev [] = None"
| "overlap_loop prev (iv # rest) =
     (if MaxTokens iv = None \<and> rest \<noteq> [] then Some UnboundedNotLast
      else
        case prev of
          None \<Rightarrow> overlap_loop (Some iv) rest
        | Some p \<Rightarrow>
            (case MaxTokens p of
               None \<Rightarrow> Some IntervalsOverlap
             | Some m \<Rightarrow> if MinTokens iv < m then Some IntervalsOverlap else overlap_loop (Some iv) rest))"

definition validateIntervalOverlap :: "PricingInterval list \<Rightarrow> interval_error option" where
  "validateIntervalOverlap = overlap_loop None"

text \<open>\<^verbatim>\<open>sort.Slice\<close> may order equal lower bounds in any way; the order below is one of them.\<close>

definition ValidateIntervals :: "PricingInterval list \<Rightarrow> string \<Rightarrow> interval_error option" where
  "ValidateIntervals intervals mode =
     (if intervals = [] then None
      else
        let sorted = sort_key MinTokens intervals in
        case first_error validateSingleInterval sorted of
          Some e \<Rightarrow> Some e
        | None \<Rightarrow> if per_request_mode mode then None else validateIntervalOverlap sorted)"

section \<open>Multipliers for times of the day\<close>

datatype time_error =
    TimezoneRequired | LocalTimezone | UnknownTimezone | MultiplierInvalid | MultiplierTooSmall | MultiplierOverflows
  | MultiplierTooFine | TimeMalformed | StartNotBeforeEnd | PeriodsOverlap

record ParsedPeriod =
  PStart :: int
  PEnd :: int
  PMultiplier :: float64

definition loadChannelTimePricingLocation :: "(string \<Rightarrow> Location option) \<Rightarrow> string \<Rightarrow> time_error + Location" where
  "loadChannelTimePricingLocation LoadLocation name =
     (if TrimSpace name = [] then Inl TimezoneRequired
      else if name = ''Local'' then Inl LocalTimezone
      else case LoadLocation name of None \<Rightarrow> Inl UnknownTimezone | Some loc \<Rightarrow> Inr loc)"

definition two_digits :: "char \<Rightarrow> char \<Rightarrow> int \<Rightarrow> int option" where
  "two_digits c d bound =
     (if c \<in> set ''0123456789'' \<and> d \<in> set ''0123456789''
      then
        let n = 10 * (int (byte c) - 48) + (int (byte d) - 48) in if n < bound then Some n else None
      else None)"

text \<open>
  \<^verbatim>\<open>time.Parse\<close> with the layout \<^verbatim>\<open>15:04\<close> or \<^verbatim>\<open>15:04:05\<close>, where formatting the result gives the value back: two digits
  for each part, within its range.
\<close>

fun parse_clock :: "string \<Rightarrow> int option" where
  "parse_clock [a, b, s, c, d] =
     (if s = CHR 0x3A then
        (case (two_digits a b 24, two_digits c d 60) of (Some h, Some m) \<Rightarrow> Some (h * 3600 + m * 60) | _ \<Rightarrow> None)
      else None)"
| "parse_clock [a, b, s, c, d, t, e, f] =
     (if s = CHR 0x3A \<and> t = CHR 0x3A then
        (case (two_digits a b 24, two_digits c d 60, two_digits e f 60) of
           (Some h, Some m, Some x) \<Rightarrow> Some (h * 3600 + m * 60 + x)
         | _ \<Rightarrow> None)
      else None)"
| "parse_clock _ = None"

definition parseChannelTime :: "string \<Rightarrow> bool \<Rightarrow> time_error + int" where
  "parseChannelTime v is_end =
     (if is_end \<and> v \<in> {''00:00'', ''00:00:00''} then Inr 86400
      else case parse_clock v of None \<Rightarrow> Inl TimeMalformed | Some n \<Rightarrow> Inr n)"

text \<open>\<^verbatim>\<open>math.Round\<close> (half away from zero) and \<^verbatim>\<open>math.Abs\<close>.\<close>

fun Round :: "float64 \<Rightarrow> float64" where
  "Round (Fin r) = Fin (of_int (if r < 0 then - \<lfloor>- r + 1 / 2\<rfloor> else \<lfloor>r + 1 / 2\<rfloor>))"
| "Round f = f"

fun Abs :: "float64 \<Rightarrow> float64" where
  "Abs (Fin r) = Fin \<bar>r\<bar>"
| "Abs NegInf = PosInf"
| "Abs f = f"

definition check_multiplier :: "'z go_env_scheme \<Rightarrow> float64 \<Rightarrow> time_error option" where
  "check_multiplier env m =
     (if m = NaN \<or> m \<in> {PosInf, NegInf} \<or> fle m (Fin 0) then Some MultiplierInvalid
      else if flt m (round64 env (1 / 100)) then Some MultiplierTooSmall
      else
        let scaled = fmul env m (Fin 100) in
        if scaled = NaN \<or> scaled \<in> {PosInf, NegInf} then Some MultiplierOverflows
        else if flt (round64 env (1 / 10 ^ 9)) (Abs (fsub env scaled (Round scaled))) then Some MultiplierTooFine
        else None)"

definition parse_period :: "'z go_env_scheme \<Rightarrow> TimePeriod \<Rightarrow> time_error + ParsedPeriod" where
  "parse_period env p =
     (case check_multiplier env (PeriodMultiplier p) of
        Some e \<Rightarrow> Inl e
      | None \<Rightarrow>
          (case parseChannelTime (StartTime p) False of
             Inl e \<Rightarrow> Inl e
           | Inr s \<Rightarrow>
               (case parseChannelTime (EndTime p) True of
                  Inl e \<Rightarrow> Inl e
                | Inr e \<Rightarrow>
                    if StartTime p = EndTime p \<or> e \<le> s then Inl StartNotBeforeEnd
                    else Inr \<lparr>PStart = s, PEnd = e, PMultiplier = PeriodMultiplier p\<rparr>)))"

fun parse_periods :: "'z go_env_scheme \<Rightarrow> TimePeriod list \<Rightarrow> time_error + ParsedPeriod list" where
  "parse_periods env [] = Inr []"
| "parse_periods env (p # ps) =
     (case parse_period env p of
        Inl e \<Rightarrow> Inl e
      | Inr q \<Rightarrow> (case parse_periods env ps of Inl e \<Rightarrow> Inl e | Inr qs \<Rightarrow> Inr (q # qs)))"

fun periods_overlap :: "ParsedPeriod list \<Rightarrow> bool" where
  "periods_overlap (p # q # ps) \<longleftrightarrow> PStart q < PEnd p \<or> periods_overlap (q # ps)"
| "periods_overlap _ \<longleftrightarrow> False"

definition parseChannelTimePeriods :: "'z go_env_scheme \<Rightarrow> TimePeriod list \<Rightarrow> time_error + ParsedPeriod list" where
  "parseChannelTimePeriods env ps =
     (case parse_periods env ps of
        Inl e \<Rightarrow> Inl e
      | Inr parsed \<Rightarrow>
          let parsed = sort_key PStart parsed in
          if periods_overlap parsed then Inl PeriodsOverlap else Inr parsed)"

definition validateChannelTimePricing :: "'z go_env_scheme \<Rightarrow> (string \<Rightarrow> Location option) \<Rightarrow> TimePricing option \<Rightarrow> time_error option" where
  "validateChannelTimePricing env LoadLocation config =
     (case config of
        None \<Rightarrow> None
      | Some c \<Rightarrow>
          if Periods c = [] then None
          else
            (case loadChannelTimePricingLocation LoadLocation (Timezone c) of
               Inl e \<Rightarrow> Some e
             | Inr _ \<Rightarrow> (case parseChannelTimePeriods env (Periods c) of Inl e \<Rightarrow> Some e | Inr _ \<Rightarrow> None)))"

text \<open>The second of the day on the clock of the zone.\<close>

definition second_of_day :: "Location \<Rightarrow> gtime \<Rightarrow> int" where
  "second_of_day loc t = clock_of loc t div second"

definition MultiplierAt :: "'z go_env_scheme \<Rightarrow> (string \<Rightarrow> Location option) \<Rightarrow> TimePricing option \<Rightarrow> gtime \<Rightarrow> float64" where
  "MultiplierAt env LoadLocation config t =
     (case config of
        None \<Rightarrow> Fin 1
      | Some c \<Rightarrow>
          if Periods c = [] \<or> IsZero t then Fin 1
          else if validateChannelTimePricing env LoadLocation config \<noteq> None then Fin 1
          else
            (case loadChannelTimePricingLocation LoadLocation (Timezone c) of
               Inl _ \<Rightarrow> Fin 1
             | Inr loc \<Rightarrow>
                 (case parseChannelTimePeriods env (Periods c) of
                    Inl _ \<Rightarrow> Fin 1
                  | Inr periods \<Rightarrow>
                      if WeekdaysOnly c \<and> (Weekday loc t = 6 \<or> Weekday loc t = 0) then Fin 1
                      else
                        let s = second_of_day loc t in
                        (case find (\<lambda>p. PStart p \<le> s \<and> s < PEnd p) periods of
                           Some p \<Rightarrow> PMultiplier p
                         | None \<Rightarrow> Fin 1))))"

section \<open>Accepted intervals\<close>

lemma find_filter: "find P xs = (case filter P xs of [] \<Rightarrow> None | x # _ \<Rightarrow> Some x)"
  by (induction xs) auto

text \<open>Where at most one element qualifies, a search does not depend on the order.\<close>

lemma find_any_order:
  assumes "length (filter P xs) \<le> 1" and "mset ys = mset xs"
  shows "find P ys = find P xs"
proof -
  have "mset (filter P ys) = mset (filter P xs)"
    using assms(2) by simp
  then have "filter P ys = filter P xs"
    using assms(1) by (cases "filter P xs") (simp_all del: mset_filter)
  then show ?thesis
    by (simp add: find_filter)
qed

lemma find_single:
  assumes "length (filter P xs) \<le> 1" and "x \<in> set xs" and "P x"
  shows "find P xs = Some x"
proof -
  have "x \<in> set (filter P xs)"
    using assms(2,3) by simp
  then show ?thesis
    using assms(1) by (cases "filter P xs") (simp_all add: find_filter del: set_filter)
qed

text \<open>In a list whose elements are pairwise apart at most one element qualifies.\<close>

lemma sorted_single:
  assumes "sorted_wrt R xs" and "\<And>a b. R a b \<Longrightarrow> P a \<Longrightarrow> P b \<Longrightarrow> False"
  shows "length (filter P xs) \<le> 1"
  using assms(1)
proof (induction xs)
  case (Cons x xs)
  have "P x \<Longrightarrow> filter P xs = []"
    using Cons.prems assms(2) by (auto simp: filter_empty_conv)
  then show ?case
    using Cons by simp
qed simp

definition apart :: "PricingInterval \<Rightarrow> PricingInterval \<Rightarrow> bool" where
  "apart a b \<longleftrightarrow> (case MaxTokens a of None \<Rightarrow> False | Some m \<Rightarrow> m \<le> MinTokens b)"

lemma overlap_loop_apart:
  "overlap_loop prev ivs = None \<longleftrightarrow> successively apart ((case prev of None \<Rightarrow> [] | Some p \<Rightarrow> [p]) @ ivs)"
proof (induction prev ivs rule: overlap_loop.induct)
  case (2 prev iv rest)
  then show ?case
    by (cases rest; cases prev; cases "MaxTokens iv") (auto simp: apart_def split: option.splits)
qed (simp split: option.split)

lemma first_error_none: "first_error check xs = None \<longleftrightarrow> list_all (\<lambda>x. check x = None) xs"
  by (induction xs) (auto split: option.splits)

definition nonempty :: "PricingInterval \<Rightarrow> bool" where
  "nonempty iv \<longleftrightarrow> interval_matches (MinTokens iv + 1) iv"

lemma single_nonempty: "validateSingleInterval iv = None \<Longrightarrow> nonempty iv"
  by (auto simp: validateSingleInterval_def nonempty_def interval_matches_def split: if_splits option.splits)

lemma apart_matches: "apart a b \<Longrightarrow> interval_matches n a \<Longrightarrow> interval_matches n b \<Longrightarrow> False"
  by (auto simp: apart_def interval_matches_def split: option.splits)

lemma not_apart_matches:
  assumes "MinTokens a \<le> MinTokens b" and "nonempty b" and "\<not> apart a b"
  shows "interval_matches (MinTokens b + 1) a"
  using assms by (auto simp: apart_def interval_matches_def nonempty_def split: option.splits)

lemma sorted_apart_single:
  "sorted_wrt apart ivs \<Longrightarrow> length (filter (interval_matches n) ivs) \<le> 1"
  by (erule sorted_single) (rule apart_matches)

lemma successively_apart_sorted:
  assumes "list_all nonempty ivs" and "successively apart ivs"
  shows "sorted_wrt apart ivs"
proof -
  have "apart a c" if "b \<in> set ivs" "apart a b" "apart b c" for a b c
    using that assms(1) by (auto simp: apart_def nonempty_def interval_matches_def list_all_iff split: option.splits)
  then show ?thesis
    using assms(2) successively_iff_sorted_wrt_strong [of ivs apart] by blast
qed

lemma single_successively_apart:
  assumes "\<And>n. length (filter (interval_matches n) ivs) \<le> 1"
    and "list_all nonempty ivs" and "sorted (map MinTokens ivs)"
  shows "successively apart ivs"
  using assms
proof (induction ivs rule: induct_list012)
  case (3 a b ivs)
  have "apart a b"
  proof (rule ccontr)
    assume "\<not> apart a b"
    then have "interval_matches (MinTokens b + 1) a" "interval_matches (MinTokens b + 1) b"
      using 3(4,5) not_apart_matches [of a b] by (auto simp: nonempty_def)
    then show False
      using 3(3) [of "MinTokens b + 1"] by simp
  qed
  moreover have "length (filter (interval_matches n) (b # ivs)) \<le> 1" for n
    using 3(3) [of n] by (simp split: if_splits)
  ultimately show ?case
    using 3 by simp
qed auto

lemma mset_filter_length: "mset ys = mset xs \<Longrightarrow> length (filter P ys) = length (filter P xs)"
  by (metis mset_filter size_mset)

text \<open>
  C36. A list of token intervals is accepted exactly when every interval is valid on its own and no number of tokens
  lies in two of them; in the modes by request, exactly when every interval is valid on its own.
\<close>

theorem intervals_accepted:
  "ValidateIntervals ivs mode = None \<longleftrightarrow>
     list_all (\<lambda>iv. validateSingleInterval iv = None) ivs \<and>
     (if per_request_mode mode then True else \<forall>n. length (filter (interval_matches n) ivs) \<le> 1)"
proof (cases "ivs = []")
  case False
  let ?s = "sort_key MinTokens ivs"
  have all: "list_all P ?s = list_all P ivs" for P
    by (simp add: list_all_iff)
  have len: "length (filter (interval_matches n) ?s) = length (filter (interval_matches n) ivs)" for n
    by (rule mset_filter_length) simp
  have "successively apart ?s \<longleftrightarrow> (\<forall>n. length (filter (interval_matches n) ivs) \<le> 1)"
    if "list_all (\<lambda>iv. validateSingleInterval iv = None) ivs"
  proof -
    have ne: "list_all nonempty ?s"
      using that by (auto simp: all list_all_iff intro: single_nonempty)
    show ?thesis
      using single_successively_apart [of ?s] successively_apart_sorted [OF ne] sorted_apart_single [of ?s] ne
      by (auto simp: len)
  qed
  moreover have "first_error validateSingleInterval ?s = None \<longleftrightarrow> list_all (\<lambda>iv. validateSingleInterval iv = None) ivs"
    by (simp add: first_error_none all)
  ultimately show ?thesis
    using False
    by (cases "first_error validateSingleInterval ?s")
      (simp_all add: ValidateIntervals_def Let_def validateIntervalOverlap_def overlap_loop_apart)
qed (simp add: ValidateIntervals_def)

text \<open>
  With accepted token intervals the interval found for a number of tokens does not depend on the order in which
  the intervals are stored, and no interval is found for zero tokens.
\<close>

theorem interval_any_order:
  assumes "ValidateIntervals ivs mode = None" and "\<not> per_request_mode mode" and "mset ivs' = mset ivs"
  shows "FindMatchingInterval ivs' n = FindMatchingInterval ivs n \<and> FindMatchingInterval ivs' 0 = None"
proof
  note ok = assms(1,2) [unfolded intervals_accepted]
  show "FindMatchingInterval ivs' n = FindMatchingInterval ivs n"
    unfolding FindMatchingInterval_def using ok assms(3) by (intro find_any_order) auto
  have "\<not> interval_matches 0 iv" if "validateSingleInterval iv = None" for iv
    using that by (auto simp: validateSingleInterval_def interval_matches_def split: if_splits)
  then show "FindMatchingInterval ivs' 0 = None"
    using ok mset_eq_setD [OF assms(3)] by (auto simp: FindMatchingInterval_def find_None_iff list_all_iff)
qed

section \<open>The multiplier at a time\<close>

definition period_contains :: "int \<Rightarrow> ParsedPeriod \<Rightarrow> bool" where
  "period_contains s q \<longleftrightarrow> PStart q \<le> s \<and> s < PEnd q"

lemma parse_period_facts:
  assumes "parse_period env p = Inr q"
  shows "PStart q < PEnd q" and "PMultiplier q = PeriodMultiplier p" and "\<exists>r. 0 < r \<and> PMultiplier q = Fin r"
proof -
  have "check_multiplier env (PeriodMultiplier p) = None"
    using assms by (simp add: parse_period_def split: option.splits)
  then have "\<exists>r. 0 < r \<and> PeriodMultiplier p = Fin r"
    by (cases "PeriodMultiplier p") (auto simp: check_multiplier_def not_le split: if_splits)
  then show "PStart q < PEnd q" "PMultiplier q = PeriodMultiplier p" "\<exists>r. 0 < r \<and> PMultiplier q = Fin r"
    using assms by (auto simp: parse_period_def split: option.splits sum.splits if_splits)
qed

lemma parse_periods_all: "parse_periods env ps = Inr qs \<Longrightarrow> list_all2 (\<lambda>p q. parse_period env p = Inr q) ps qs"
  by (induction ps arbitrary: qs) (auto split: sum.splits)

lemma list_all2_partner:
  assumes "list_all2 R xs ys"
  shows "x \<in> set xs \<Longrightarrow> \<exists>y\<in>set ys. R x y" and "y \<in> set ys \<Longrightarrow> \<exists>x\<in>set xs. R x y"
  using assms by (induction rule: list_all2_induct) auto

lemma periods_overlap_iff: "periods_overlap qs \<longleftrightarrow> \<not> successively (\<lambda>a b. PEnd a \<le> PStart b) qs"
  by (induction qs rule: periods_overlap.induct) auto

lemma parseChannelTimePeriods_facts:
  assumes "parseChannelTimePeriods env ps = Inr qs"
  shows "q \<in> set qs \<Longrightarrow> \<exists>p\<in>set ps. parse_period env p = Inr q"
    and "p \<in> set ps \<Longrightarrow> \<exists>q\<in>set qs. parse_period env p = Inr q"
    and "length (filter (period_contains s) qs) \<le> 1"
proof -
  obtain raw where raw: "parse_periods env ps = Inr raw" and qs: "qs = sort_key PStart raw"
    and no: "\<not> periods_overlap qs"
    using assms by (auto simp: parseChannelTimePeriods_def Let_def split: sum.splits if_splits)
  have set: "set qs = set raw"
    by (simp add: qs)
  note all = parse_periods_all [OF raw]
  show origin: "\<exists>p\<in>set ps. parse_period env p = Inr q" if "q \<in> set qs" for q
    using that list_all2_partner(2) [OF all] set by blast
  show "\<exists>q\<in>set qs. parse_period env p = Inr q" if "p \<in> set ps"
    using that list_all2_partner(1) [OF all] set by blast
  have "PEnd a \<le> PStart c" if "b \<in> set qs" "PEnd a \<le> PStart b" "PEnd b \<le> PStart c" for a b c
    using that origin [OF that(1)] parse_period_facts(1) by fastforce
  then have "sorted_wrt (\<lambda>a b. PEnd a \<le> PStart b) qs"
    using no successively_iff_sorted_wrt_strong [of qs "\<lambda>a b. PEnd a \<le> PStart b"]
    unfolding periods_overlap_iff by blast
  then show "length (filter (period_contains s) qs) \<le> 1"
    by (rule sorted_single) (simp add: period_contains_def)
qed

lemma MultiplierAt_valid:
  assumes "validateChannelTimePricing env LoadLocation (Some c) = None" and "Periods c \<noteq> []" and "\<not> IsZero t"
    and "LoadLocation (Timezone c) = Some loc" and "\<not> (WeekdaysOnly c \<and> Weekday loc t \<in> {0, 6})"
  obtains qs where "parseChannelTimePeriods env (Periods c) = Inr qs"
    and "MultiplierAt env LoadLocation (Some c) t =
      (case find (period_contains (second_of_day loc t)) qs of Some q \<Rightarrow> PMultiplier q | None \<Rightarrow> Fin 1)"
proof -
  obtain loc' where loc': "loadChannelTimePricingLocation LoadLocation (Timezone c) = Inr loc'"
    using assms(1,2) by (auto simp: validateChannelTimePricing_def split: sum.splits)
  then have [simp]: "loc' = loc"
    using assms(4) by (auto simp: loadChannelTimePricingLocation_def split: if_splits)
  obtain qs where qs: "parseChannelTimePeriods env (Periods c) = Inr qs"
    using assms(1,2) loc' by (auto simp: validateChannelTimePricing_def split: sum.splits)
  have "MultiplierAt env LoadLocation (Some c) t =
      (case find (period_contains (second_of_day loc t)) qs of Some q \<Rightarrow> PMultiplier q | None \<Rightarrow> Fin 1)"
    using assms loc' qs by (auto simp: MultiplierAt_def Let_def period_contains_def [abs_def] cong: option.case_cong)
  with qs show thesis
    by (rule that)
qed


lemma find_in_set: "find P xs = Some x \<Longrightarrow> x \<in> set xs"
  by (auto simp: find_Some_iff)

lemma MultiplierAt_cases:
  "MultiplierAt env LoadLocation config t = Fin 1 \<or>
   (\<exists>ps qs q. parseChannelTimePeriods env ps = Inr qs \<and> q \<in> set qs \<and>
      MultiplierAt env LoadLocation config t = PMultiplier q)"
proof (cases config)
  case (Some c)
  show ?thesis
  proof (cases "parseChannelTimePeriods env (Periods c)")
    case (Inr qs)
    then show ?thesis
      unfolding MultiplierAt_def Some Let_def
      by (auto split: option.splits sum.splits dest!: find_in_set)
  qed (simp add: MultiplierAt_def Some split: sum.split)
qed (simp add: MultiplierAt_def)

text \<open>
  Whatever the table holds, the multiplier at a time is a positive finite number: a table that is not accepted
  changes no price.
\<close>

theorem time_multiplier_positive:
  "(\<exists>r. MultiplierAt env LoadLocation config t = Fin r \<and> 0 < r) \<and>
   (validateChannelTimePricing env LoadLocation config = None \<or> MultiplierAt env LoadLocation config t = Fin 1)"
proof
  show "\<exists>r. MultiplierAt env LoadLocation config t = Fin r \<and> 0 < r"
    using MultiplierAt_cases [of env LoadLocation config t] parseChannelTimePeriods_facts(1) parse_period_facts(3)
    by (metis zero_less_one)
  show "validateChannelTimePricing env LoadLocation config = None \<or> MultiplierAt env LoadLocation config t = Fin 1"
    by (auto simp: MultiplierAt_def split: option.splits)
qed

section \<open>Witnesses\<close>

definition plain_interval :: "int \<Rightarrow> int option \<Rightarrow> rat \<Rightarrow> PricingInterval" where
  "plain_interval lo hi p =
     \<lparr>MinTokens = lo, MaxTokens = hi, TierLabel = [], IvInputPrice = Some (Fin p), IvOutputPrice = None,
      IvCacheWritePrice = None, IvCacheWrite1hPrice = None, IvCacheReadPrice = None, IvInputMultiplier = None,
      IvOutputMultiplier = None, IvCacheWriteMultiplier = None, IvCacheReadMultiplier = None,
      IvPerRequestPrice = None, SortOrder = 0\<rparr>"

theorem interval_any_order_witness:
  "FindMatchingInterval [plain_interval 1000 None 2, plain_interval 0 (Some 1000) 1] 500 = Some (plain_interval 0 (Some 1000) 1) \<and>
   FindMatchingInterval [plain_interval 1000 None 2, plain_interval 0 (Some 1000) 1] 0 = None"
proof -
  have "FindMatchingInterval [plain_interval 1000 None 2, plain_interval 0 (Some 1000) 1] 500 =
      FindMatchingInterval [plain_interval 0 (Some 1000) 1, plain_interval 1000 None 2] 500 \<and>
    FindMatchingInterval [plain_interval 1000 None 2, plain_interval 0 (Some 1000) 1] 0 = None"
    by (rule interval_any_order [where mode = BillingModeToken])
      (code_simp, simp add: per_request_mode_def billing_modes, simp)
  then show ?thesis
    by (simp add: FindMatchingInterval_def interval_matches_def plain_interval_def)
qed

definition demo_times :: TimePricing where
  "demo_times = \<lparr>Timezone = ''UTC'', WeekdaysOnly = False,
     Periods = [\<lparr>StartTime = ''22:00'', EndTime = ''00:00'', PeriodMultiplier = Fin (1/2)\<rparr>,
                \<lparr>StartTime = ''09:00'', EndTime = ''12:00:00'', PeriodMultiplier = Fin 2\<rparr>]\<rparr>"

definition demo_zones :: "string \<Rightarrow> Location option" where
  "demo_zones name = (if name = ''UTC'' then Some UTC else None)"


end
