(* ===== verification/Channel_Config.thy ===== *)
theory Channel_Config
  imports Channel_Pricing
begin

text \<open>
  What a channel's configuration must satisfy before it is stored (\<^verbatim>\<open>service/channel_service.go\<close>: the
  \<^verbatim>\<open>validate...\<close> functions and the conflicts between model patterns).  The lemmas show that the patterns of one
  platform are accepted exactly when no model name is covered twice.  An error is its code without the text.
\<close>

section \<open>Names and patterns\<close>

definition ends_with_star :: "string \<Rightarrow> bool" where
  "ends_with_star s \<longleftrightarrow> s \<noteq> [] \<and> last s = CHR 0x2A"

definition trim_star :: "string \<Rightarrow> string" where
  "trim_star s = (if ends_with_star s then butlast s else s)"

definition normalizeChannelPricingModelName :: "'z go_env_scheme \<Rightarrow> string \<Rightarrow> string" where
  "normalizeChannelPricingModelName env model =
     (let m = to_lower env (TrimSpace model) in
      if prefix ''claude-'' m then map (\<lambda>c. if c = CHR 0x2E then CHR 0x2D else c) m else m)"

record modelEntry =
  entry_prefix :: string
  wildcard :: bool

definition conflictsBetween :: "modelEntry \<Rightarrow> modelEntry \<Rightarrow> bool" where
  "conflictsBetween a b \<longleftrightarrow>
     (if \<not> wildcard a \<and> \<not> wildcard b then entry_prefix a = entry_prefix b
      else if wildcard a \<and> \<not> wildcard b then prefix (entry_prefix a) (entry_prefix b)
      else if \<not> wildcard a \<and> wildcard b then prefix (entry_prefix b) (entry_prefix a)
      else prefix (entry_prefix b) (entry_prefix a) \<or> prefix (entry_prefix a) (entry_prefix b))"

definition toModelEntry :: "'z go_env_scheme \<Rightarrow> string \<Rightarrow> modelEntry" where
  "toModelEntry env pattern =
     (let lower = to_lower env pattern in \<lparr>entry_prefix = trim_star lower, wildcard = ends_with_star lower\<rparr>)"

definition toPricingModelEntry :: "'z go_env_scheme \<Rightarrow> string \<Rightarrow> modelEntry" where
  "toPricingModelEntry env pattern =
     \<lparr>entry_prefix = normalizeChannelPricingModelName env (trim_star pattern), wildcard = ends_with_star pattern\<rparr>"

fun detectConflicts :: "modelEntry list \<Rightarrow> bool" where
  "detectConflicts [] = False"
| "detectConflicts (e # es) = (list_ex (conflictsBetween e) es \<or> detectConflicts es)"

section \<open>Validation\<close>

datatype config_error =
    MODEL_PATTERN_CONFLICT | MAPPING_PATTERN_CONFLICT | INVALID_PRICING_INTERVALS interval_error
  | BILLING_MODE_MISSING_PRICE | PRICE_MULTIPLIER_MISSING_PRICE | FAST_MODE_MULTIPLIER_UNSUPPORTED_PLATFORM
  | FAST_MODE_MULTIPLIER_UNSUPPORTED_BILLING_MODE | FAST_MODE_MULTIPLIER_MISSING_PRICE | INVALID_MULTIPLIER string
  | TIER_MULTIPLIER_UNSUPPORTED_BILLING_MODE | NEGATIVE_PRICE string | INTERVAL_MISSING_PRICE
  | TIME_PRICING_UNSUPPORTED_MODE | INVALID_TIME_PRICING time_error
  | ACCOUNT_STATS_FAST_MODE_MULTIPLIER_UNSUPPORTED | ACCOUNT_STATS_TIER_MULTIPLIER_UNSUPPORTED
  | ACCOUNT_STATS_TIME_PRICING_UNSUPPORTED

text \<open>The first of two checks that fails.\<close>

fun or_else :: "'e option \<Rightarrow> 'e option \<Rightarrow> 'e option" where
  "or_else (Some e) next_check = Some e"
| "or_else None next_check = next_check"

definition fail_if :: "bool \<Rightarrow> 'e \<Rightarrow> 'e option" where
  "fail_if b e = (if b then Some e else None)"

text \<open>
  The patterns of one platform in the order of the entries.  The code gathers them in a map from platforms and
  visits the platforms in no fixed order; the error is the same for each.
\<close>

definition platform_entries :: "'z go_env_scheme \<Rightarrow> ChannelModelPricing list \<Rightarrow> string \<Rightarrow> modelEntry list" where
  "platform_entries env pricing platform =
     concat (map (\<lambda>p. if ChPlatform p = platform then map (toPricingModelEntry env) (ChModels p) else []) pricing)"

definition validateNoConflictingModels :: "'z go_env_scheme \<Rightarrow> ChannelModelPricing list \<Rightarrow> config_error option" where
  "validateNoConflictingModels env pricing =
     fail_if (list_ex (\<lambda>platform. detectConflicts (platform_entries env pricing platform)) (remdups (map ChPlatform pricing)))
       MODEL_PATTERN_CONFLICT"

text \<open>The mapping of a channel: for each platform the pairs of source and target, in the order of iteration.\<close>

type_synonym platform_mapping = "(string \<times> string) list"
type_synonym model_mapping = "(string \<times> platform_mapping) list"

definition validateNoConflictingMappings :: "'z go_env_scheme \<Rightarrow> model_mapping \<Rightarrow> config_error option" where
  "validateNoConflictingMappings env mapping =
     fail_if (list_ex (\<lambda>(platform, m). detectConflicts (map (\<lambda>(src, dst). toModelEntry env src) m)) mapping)
       MAPPING_PATTERN_CONFLICT"

definition validatePricingIntervals :: "ChannelModelPricing list \<Rightarrow> config_error option" where
  "validatePricingIntervals pricing =
     map_option INVALID_PRICING_INTERVALS (first_error (\<lambda>p. ValidateIntervals (ChIntervals p) (ChBillingMode p)) pricing)"

definition effective_mode :: "string \<Rightarrow> string" where
  "effective_mode m = (if m = [] then BillingModeToken else m)"

definition hasExplicitPricingPrice :: "ChannelModelPricing \<Rightarrow> bool" where
  "hasExplicitPricingPrice p \<longleftrightarrow>
     (if per_request_mode (effective_mode (ChBillingMode p))
      then ChPerRequestPrice p \<noteq> None \<or> list_ex (\<lambda>iv. IvPerRequestPrice iv \<noteq> None) (ChIntervals p)
      else
        ChInputPrice p \<noteq> None \<or> ChOutputPrice p \<noteq> None \<or> ChCacheWritePrice p \<noteq> None \<or> ChCacheWrite1hPrice p \<noteq> None \<or>
        ChCacheReadPrice p \<noteq> None \<or> ChImageInputPrice p \<noteq> None \<or> ChImageOutputPrice p \<noteq> None \<or>
        list_ex (\<lambda>iv. IvInputPrice iv \<noteq> None \<or> IvOutputPrice iv \<noteq> None \<or> IvCacheWritePrice iv \<noteq> None \<or>
          IvCacheWrite1hPrice iv \<noteq> None \<or> IvCacheReadPrice iv \<noteq> None) (ChIntervals p))"

definition checkBillingModeRequirements :: "'z go_env_scheme \<Rightarrow> ChannelModelPricing \<Rightarrow> config_error option" where
  "checkBillingModeRequirements env p =
     or_else (fail_if (per_request_mode (ChBillingMode p) \<and> ChPerRequestPrice p = None \<and> ChIntervals p = [])
       BILLING_MODE_MISSING_PRICE)
    (or_else (fail_if (ChPriceMultiplier p \<noteq> None \<and> \<not> hasExplicitPricingPrice p) PRICE_MULTIPLIER_MISSING_PRICE)
    (or_else
      (if ChFastModeMultiplier p \<noteq> None then
         or_else (fail_if (\<not> EqualFold env (TrimSpace (ChPlatform p)) PlatformOpenAI) FAST_MODE_MULTIPLIER_UNSUPPORTED_PLATFORM)
        (or_else (fail_if (effective_mode (ChBillingMode p) \<noteq> BillingModeToken) FAST_MODE_MULTIPLIER_UNSUPPORTED_BILLING_MODE)
                 (fail_if (\<not> hasExplicitPricingPrice p) FAST_MODE_MULTIPLIER_MISSING_PRICE))
       else None)
    (or_else
      (map_option INVALID_MULTIPLIER
        (first_bad (\<lambda>v. fle v (Fin 0)) [(''fast_multiplier'', ChFastMultiplier p), (''flex_multiplier'', ChFlexMultiplier p)]))
      (fail_if ((ChFastMultiplier p \<noteq> None \<or> ChFlexMultiplier p \<noteq> None) \<and> effective_mode (ChBillingMode p) \<noteq> BillingModeToken)
        TIER_MULTIPLIER_UNSUPPORTED_BILLING_MODE))))"

definition checkPricesNotNegative :: "ChannelModelPricing \<Rightarrow> config_error option" where
  "checkPricesNotNegative p =
     map_option NEGATIVE_PRICE
       (first_bad (\<lambda>v. flt v (Fin 0))
         [(''price_multiplier'', ChPriceMultiplier p), (''fast_mode_multiplier'', ChFastModeMultiplier p),
          (''input_price'', ChInputPrice p), (''output_price'', ChOutputPrice p), (''cache_write_price'', ChCacheWritePrice p),
          (''cache_write_1h_price'', ChCacheWrite1hPrice p), (''cache_read_price'', ChCacheReadPrice p),
          (''image_input_price'', ChImageInputPrice p), (''image_output_price'', ChImageOutputPrice p),
          (''per_request_price'', ChPerRequestPrice p)])"

definition checkIntervalsHavePrices :: "ChannelModelPricing \<Rightarrow> config_error option" where
  "checkIntervalsHavePrices p =
     fail_if (list_ex (\<lambda>iv. \<not> has_token_price iv \<and> IvPerRequestPrice iv = None) (ChIntervals p)) INTERVAL_MISSING_PRICE"

definition validatePricingBillingMode :: "'z go_env_scheme \<Rightarrow> ChannelModelPricing list \<Rightarrow> config_error option" where
  "validatePricingBillingMode env pricing =
     first_error (\<lambda>p. or_else (checkBillingModeRequirements env p)
       (or_else (checkPricesNotNegative p) (checkIntervalsHavePrices p))) pricing"

text \<open>
  \<^verbatim>\<open>validatePricingTimePricing\<close> also removes a table without periods from the entry, which the caller then stores.
\<close>

definition check_time_pricing ::
  "'z go_env_scheme \<Rightarrow> (string \<Rightarrow> Location option) \<Rightarrow> ChannelModelPricing \<Rightarrow> config_error option" where
  "check_time_pricing env LoadLocation p =
     (case ChTimePricing p of
        None \<Rightarrow> None
      | Some c \<Rightarrow>
          if Periods c = [] then None
          else if effective_mode (ChBillingMode p) \<noteq> BillingModeToken then Some TIME_PRICING_UNSUPPORTED_MODE
          else map_option INVALID_TIME_PRICING (validateChannelTimePricing env LoadLocation (Some c)))"

definition without_empty_times :: "ChannelModelPricing \<Rightarrow> ChannelModelPricing" where
  "without_empty_times p =
     (case ChTimePricing p of Some c \<Rightarrow> if Periods c = [] then p\<lparr>ChTimePricing := None\<rparr> else p | None \<Rightarrow> p)"

definition validatePricingTimePricing ::
  "'z go_env_scheme \<Rightarrow> (string \<Rightarrow> Location option) \<Rightarrow> ChannelModelPricing list \<Rightarrow> config_error + ChannelModelPricing list" where
  "validatePricingTimePricing env LoadLocation pricing =
     (case first_error (check_time_pricing env LoadLocation) pricing of
        Some e \<Rightarrow> Inl e
      | None \<Rightarrow> Inr (map without_empty_times pricing))"

definition validatePricingEntries ::
  "'z go_env_scheme \<Rightarrow> (string \<Rightarrow> Location option) \<Rightarrow> ChannelModelPricing list \<Rightarrow> config_error + ChannelModelPricing list" where
  "validatePricingEntries env LoadLocation pricing =
     (case or_else (validateNoConflictingModels env pricing)
        (or_else (validatePricingIntervals pricing) (validatePricingBillingMode env pricing)) of
        Some e \<Rightarrow> Inl e
      | None \<Rightarrow> validatePricingTimePricing env LoadLocation pricing)"

definition validateChannelConfig ::
  "'z go_env_scheme \<Rightarrow> (string \<Rightarrow> Location option) \<Rightarrow> ChannelModelPricing list \<Rightarrow> model_mapping \<Rightarrow>
   config_error + ChannelModelPricing list" where
  "validateChannelConfig env LoadLocation pricing mapping =
     (case validatePricingEntries env LoadLocation pricing of
        Inl e \<Rightarrow> Inl e
      | Inr pricing' \<Rightarrow>
          (case validateNoConflictingMappings env mapping of Some e \<Rightarrow> Inl e | None \<Rightarrow> Inr pricing'))"

text \<open>The entries of a rule for the statistics of accounts.\<close>

definition check_stats_entry :: "ChannelModelPricing \<Rightarrow> config_error option" where
  "check_stats_entry p =
     or_else (fail_if (ChFastModeMultiplier p \<noteq> None) ACCOUNT_STATS_FAST_MODE_MULTIPLIER_UNSUPPORTED)
    (or_else (fail_if (ChFastMultiplier p \<noteq> None \<or> ChFlexMultiplier p \<noteq> None) ACCOUNT_STATS_TIER_MULTIPLIER_UNSUPPORTED)
             (fail_if (case ChTimePricing p of Some c \<Rightarrow> Periods c \<noteq> [] | None \<Rightarrow> False) ACCOUNT_STATS_TIME_PRICING_UNSUPPORTED))"

definition validateAccountStatsPricingEntries ::
  "'z go_env_scheme \<Rightarrow> (string \<Rightarrow> Location option) \<Rightarrow> ChannelModelPricing list \<Rightarrow> config_error + ChannelModelPricing list" where
  "validateAccountStatsPricingEntries env LoadLocation pricing =
     (case first_error check_stats_entry pricing of
        Some e \<Rightarrow> Inl e
      | None \<Rightarrow> validatePricingEntries env LoadLocation pricing)"

section \<open>Conflicts are names covered twice\<close>

definition entry_covers :: "string \<Rightarrow> modelEntry \<Rightarrow> bool" where
  "entry_covers name e \<longleftrightarrow> (if wildcard e then prefix (entry_prefix e) name else entry_prefix e = name)"

definition at_most_one :: "('a \<Rightarrow> bool) \<Rightarrow> 'a list \<Rightarrow> bool" where
  "at_most_one P xs \<longleftrightarrow> length (filter P xs) \<le> 1"

lemma list_ex_filter: "list_ex P xs \<longleftrightarrow> filter P xs \<noteq> []"
  by (induction xs) auto

lemma at_most_one_Cons: "at_most_one P (x # xs) \<longleftrightarrow> at_most_one P xs \<and> (P x \<longrightarrow> \<not> list_ex P xs)"
  by (cases "filter P xs") (simp_all add: at_most_one_def list_ex_filter)

lemma conflicts_iff_common: "conflictsBetween a b \<longleftrightarrow> (\<exists>name. entry_covers name a \<and> entry_covers name b)"
proof
  assume "conflictsBetween a b"
  then have "entry_covers (entry_prefix a) a \<and> entry_covers (entry_prefix a) b \<or>
      entry_covers (entry_prefix b) a \<and> entry_covers (entry_prefix b) b"
    by (auto simp: conflictsBetween_def entry_covers_def split: if_splits)
  then show "\<exists>name. entry_covers name a \<and> entry_covers name b" by blast
next
  assume "\<exists>name. entry_covers name a \<and> entry_covers name b"
  then obtain name where both: "entry_covers name a" "entry_covers name b" by blast
  show "conflictsBetween a b"
  proof (cases "wildcard a \<and> wildcard b")
    case True
    then have "prefix (entry_prefix a) name" and "prefix (entry_prefix b) name"
      using both by (simp_all add: entry_covers_def)
    then show ?thesis
      using prefix_same_cases [of "entry_prefix a" name "entry_prefix b"] True by (auto simp: conflictsBetween_def)
  next
    case False
    then show ?thesis
      using both by (cases "wildcard a"; cases "wildcard b") (simp_all add: conflictsBetween_def entry_covers_def)
  qed
qed

lemma no_conflicts_iff: "\<not> detectConflicts es \<longleftrightarrow> (\<forall>name. at_most_one (entry_covers name) es)"
proof (induction es)
  case (Cons e es)
  have "(\<forall>name. at_most_one (entry_covers name) (e # es)) \<longleftrightarrow>
      (\<forall>name. at_most_one (entry_covers name) es) \<and> (\<forall>name. entry_covers name e \<longrightarrow> \<not> list_ex (entry_covers name) es)"
    by (auto simp: at_most_one_Cons)
  moreover have "list_ex (conflictsBetween e) es \<longleftrightarrow> (\<exists>name. entry_covers name e \<and> list_ex (entry_covers name) es)"
    by (auto simp: list_ex_iff conflicts_iff_common)
  ultimately show ?case
    using Cons.IH by auto
qed (simp add: at_most_one_def)

lemma platform_entries_absent: "platform \<notin> ChPlatform ` set pricing \<Longrightarrow> platform_entries env pricing platform = []"
  by (auto simp: platform_entries_def)

lemma fail_if_none [simp]: "fail_if b e = None \<longleftrightarrow> \<not> b"
  by (simp add: fail_if_def)

lemma or_else_none [simp]: "or_else a b = None \<longleftrightarrow> a = None \<and> b = None"
  by (cases a) auto

text \<open>
  C35. The patterns of a list of prices are accepted exactly when on every platform no model name is covered by two of
  them, exact names and wildcards alike.
\<close>

theorem model_patterns_accepted:
  "validateNoConflictingModels env pricing = None \<longleftrightarrow>
     (\<forall>platform name. at_most_one (entry_covers name) (platform_entries env pricing platform))"
proof -
  have "validateNoConflictingModels env pricing = None \<longleftrightarrow>
      (\<forall>platform\<in>ChPlatform ` set pricing. \<not> detectConflicts (platform_entries env pricing platform))"
    by (auto simp: validateNoConflictingModels_def list_ex_iff)
  also have "\<dots> \<longleftrightarrow> (\<forall>platform. \<not> detectConflicts (platform_entries env pricing platform))"
    using platform_entries_absent [of _ pricing env] by (metis detectConflicts.simps(1))
  finally show ?thesis
    by (simp add: no_conflicts_iff)
qed

section \<open>Accepted prices are accepted again\<close>

lemma without_empty_times_idem [simp]: "without_empty_times (without_empty_times p) = without_empty_times p"
  by (simp add: without_empty_times_def split: option.split)

lemma without_empty_times_simps [simp]:
  "ChPlatform (without_empty_times p) = ChPlatform p" "ChModels (without_empty_times p) = ChModels p"
  "ChBillingMode (without_empty_times p) = ChBillingMode p" "ChIntervals (without_empty_times p) = ChIntervals p"
  "ChPriceMultiplier (without_empty_times p) = ChPriceMultiplier p"
  "ChFastModeMultiplier (without_empty_times p) = ChFastModeMultiplier p"
  "ChFastMultiplier (without_empty_times p) = ChFastMultiplier p" "ChFlexMultiplier (without_empty_times p) = ChFlexMultiplier p"
  "ChInputPrice (without_empty_times p) = ChInputPrice p" "ChOutputPrice (without_empty_times p) = ChOutputPrice p"
  "ChCacheWritePrice (without_empty_times p) = ChCacheWritePrice p"
  "ChCacheWrite1hPrice (without_empty_times p) = ChCacheWrite1hPrice p"
  "ChCacheReadPrice (without_empty_times p) = ChCacheReadPrice p"
  "ChImageInputPrice (without_empty_times p) = ChImageInputPrice p"
  "ChImageOutputPrice (without_empty_times p) = ChImageOutputPrice p"
  "ChPerRequestPrice (without_empty_times p) = ChPerRequestPrice p"
  by (simp_all add: without_empty_times_def split: option.split)

end
