(* ===== verification/Channel_Cache.thy ===== *)
theory Channel_Cache
  imports Channel_Config Account_Platform
begin

text \<open>
  The snapshot of all channels that requests read prices and mappings from (\<^verbatim>\<open>service/channel_service.go\<close>:
  \<^verbatim>\<open>channelCache\<close>, how it is filled, and the lookups).  The lemmas show that for an accepted configuration the hash
  tables give the one pattern that covers a model, whatever the order of the entries and whatever order the
  iteration over a mapping takes.

  Entries of the snapshot point into the channels it was built from and nothing writes through them, so they are
  values here.  The time stamps and the feature switches of a channel are left out.
\<close>

section \<open>Channels and the snapshot\<close>

record AccountStatsPricingRule =
  RuleName :: string
  RuleGroupIDs :: "int64 list"
  RuleAccountIDs :: "int64 list"
  RuleSortOrder :: int
  RulePricing :: "ChannelModelPricing list"

record Channel =
  ChannelID :: int64
  ChannelName :: string
  ChannelDescription :: string
  ChannelStatus :: string
  ChannelBillingSource :: string
  RestrictModels :: bool
  ChannelFeatures :: string
  ChannelGroupIDs :: "int64 list"
  ModelPricing :: "ChannelModelPricing list"
  ModelMapping :: model_mapping
  ApplyPricingToAccountStats :: bool
  StatsRules :: "AccountStatsPricingRule list"

definition BillingModelSourceChannelMapped :: string where "BillingModelSourceChannelMapped = ''channel_mapped''"

definition ChannelIsActive :: "Channel \<Rightarrow> bool" where
  "ChannelIsActive ch \<longleftrightarrow> ChannelStatus ch = StatusActive"

record channelCache =
  pricingByGroupModel :: "int64 \<times> string \<times> string \<rightharpoonup> ChannelModelPricing"
  wildcardByGroupPlatform :: "int64 \<times> string \<Rightarrow> (string \<times> ChannelModelPricing) list"
  mappingByGroupModel :: "int64 \<times> string \<times> string \<rightharpoonup> string"
  wildcardMappingByGP :: "int64 \<times> string \<Rightarrow> (string \<times> string) list"
  channelByGroupID :: "int64 \<rightharpoonup> Channel"
  groupPlatform :: "int64 \<rightharpoonup> string"
  byID :: "int64 \<rightharpoonup> Channel"
  loadedAt :: gtime

definition newEmptyChannelCache :: channelCache where
  "newEmptyChannelCache =
     \<lparr>pricingByGroupModel = Map.empty, wildcardByGroupPlatform = (\<lambda>k. []), mappingByGroupModel = Map.empty,
      wildcardMappingByGP = (\<lambda>k. []), channelByGroupID = Map.empty, groupPlatform = Map.empty, byID = Map.empty,
      loadedAt = zero_time\<rparr>"

definition isPlatformPricingMatch :: "string \<Rightarrow> string \<Rightarrow> bool" where
  "isPlatformPricingMatch group_platform pricing_platform \<longleftrightarrow> group_platform = pricing_platform"

definition matchingPlatforms :: "string \<Rightarrow> string list" where
  "matchingPlatforms group_platform = [group_platform]"

text \<open>One model of an entry, and one pair of a mapping.\<close>

definition add_pricing ::
  "'z go_env_scheme \<Rightarrow> int64 \<Rightarrow> ChannelModelPricing \<times> string \<Rightarrow> channelCache \<Rightarrow> channelCache" where
  "add_pricing env gid pm cache =
     (case pm of (p, model) \<Rightarrow>
        if ends_with_star model
        then cache\<lparr>wildcardByGroupPlatform := (wildcardByGroupPlatform cache)
               ((gid, ChPlatform p) := wildcardByGroupPlatform cache (gid, ChPlatform p) @
                  [(normalizeChannelPricingModelName env (trim_star model), p)])\<rparr>
        else cache\<lparr>pricingByGroupModel := (pricingByGroupModel cache)
               ((gid, ChPlatform p, normalizeChannelPricingModelName env model) \<mapsto> p)\<rparr>)"

definition expandPricingToCache ::
  "'z go_env_scheme \<Rightarrow> Channel \<Rightarrow> int64 \<Rightarrow> string \<Rightarrow> channelCache \<Rightarrow> channelCache" where
  "expandPricingToCache env ch gid platform cache =
     fold (\<lambda>p c. if isPlatformPricingMatch platform (ChPlatform p)
       then fold (\<lambda>model. add_pricing env gid (p, model)) (ChModels p) c else c) (ModelPricing ch) cache"

definition add_mapping ::
  "'z go_env_scheme \<Rightarrow> int64 \<Rightarrow> string \<Rightarrow> string \<times> string \<Rightarrow> channelCache \<Rightarrow> channelCache" where
  "add_mapping env gid platform sd cache =
     (case sd of (src, dst) \<Rightarrow>
        if ends_with_star src
        then cache\<lparr>wildcardMappingByGP := (wildcardMappingByGP cache)
               ((gid, platform) := wildcardMappingByGP cache (gid, platform) @ [(to_lower env (trim_star src), dst)])\<rparr>
        else cache\<lparr>mappingByGroupModel := (mappingByGroupModel cache)((gid, platform, to_lower env src) \<mapsto> dst)\<rparr>)"

definition expandMappingToCache ::
  "'z go_env_scheme \<Rightarrow> Channel \<Rightarrow> int64 \<Rightarrow> string \<Rightarrow> channelCache \<Rightarrow> channelCache" where
  "expandMappingToCache env ch gid platform cache =
     fold (\<lambda>mp c. case map_of (ModelMapping ch) mp of None \<Rightarrow> c | Some m \<Rightarrow> fold (add_mapping env gid mp) m c)
       (matchingPlatforms platform) cache"

definition platform_of_group :: "(int64 \<rightharpoonup> string) \<Rightarrow> int64 \<Rightarrow> string" where
  "platform_of_group platforms gid = (case platforms gid of None \<Rightarrow> [] | Some p \<Rightarrow> p)"

definition add_group ::
  "'z go_env_scheme \<Rightarrow> (int64 \<rightharpoonup> string) \<Rightarrow> Channel \<Rightarrow> int64 \<Rightarrow> channelCache \<Rightarrow> channelCache" where
  "add_group env platforms ch gid cache =
     (let c = cache\<lparr>channelByGroupID := (channelByGroupID cache)(gid \<mapsto> ch)\<rparr>; platform = platform_of_group platforms gid in
      expandMappingToCache env ch gid platform (expandPricingToCache env ch gid platform c))"

definition add_channel :: "'z go_env_scheme \<Rightarrow> (int64 \<rightharpoonup> string) \<Rightarrow> Channel \<Rightarrow> channelCache \<Rightarrow> channelCache" where
  "add_channel env platforms ch cache =
     fold (add_group env platforms ch) (ChannelGroupIDs ch) (cache\<lparr>byID := (byID cache)(ChannelID ch \<mapsto> ch)\<rparr>)"

definition populateChannelCache ::
  "'z go_env_scheme \<Rightarrow> Channel list \<Rightarrow> (int64 \<rightharpoonup> string) \<Rightarrow> gtime \<Rightarrow> channelCache" where
  "populateChannelCache env channels platforms now =
     fold (add_channel env platforms) channels (newEmptyChannelCache\<lparr>groupPlatform := platforms, loadedAt := now\<rparr>)"

section \<open>Lookups\<close>

definition matchWildcardPricing :: "channelCache \<Rightarrow> int64 \<Rightarrow> string \<Rightarrow> string \<Rightarrow> ChannelModelPricing option" where
  "matchWildcardPricing cache gid platform model =
     map_option snd (find (\<lambda>(pre, p). prefix pre model) (wildcardByGroupPlatform cache (gid, platform)))"

definition matchEffectiveWildcard :: "channelCache \<Rightarrow> int64 \<Rightarrow> string \<Rightarrow> string \<Rightarrow> ChannelModelPricing option" where
  "matchEffectiveWildcard cache gid platform model =
     map_option snd (find (\<lambda>(pre, p). prefix pre model \<and> HasEffectivePricing (Some p))
       (wildcardByGroupPlatform cache (gid, platform)))"

definition matchWildcardMapping :: "channelCache \<Rightarrow> int64 \<Rightarrow> string \<Rightarrow> string \<Rightarrow> string" where
  "matchWildcardMapping cache gid platform model =
     (case find (\<lambda>(pre, target). prefix pre model) (wildcardMappingByGP cache (gid, platform)) of
        Some (pre, target) \<Rightarrow> target
      | None \<Rightarrow> [])"

text \<open>The first of a list for which a search finds something.\<close>

fun first_found :: "('a \<Rightarrow> 'b option) \<Rightarrow> 'a list \<Rightarrow> 'b option" where
  "first_found f [] = None"
| "first_found f (x # xs) = (case f x of Some y \<Rightarrow> Some y | None \<Rightarrow> first_found f xs)"

definition lookupPricingAcrossPlatforms ::
  "'z go_env_scheme \<Rightarrow> channelCache \<Rightarrow> int64 \<Rightarrow> string \<Rightarrow> string \<Rightarrow> ChannelModelPricing option" where
  "lookupPricingAcrossPlatforms env cache gid group_platform model =
     (let n = normalizeChannelPricingModelName env model in
      case first_found (\<lambda>p. pricingByGroupModel cache (gid, p, n)) (matchingPlatforms group_platform) of
        Some pricing \<Rightarrow> Some pricing
      | None \<Rightarrow> first_found (\<lambda>p. matchWildcardPricing cache gid p n) (matchingPlatforms group_platform))"

definition lookupEffectivePricingAcrossPlatforms ::
  "'z go_env_scheme \<Rightarrow> channelCache \<Rightarrow> int64 \<Rightarrow> string \<Rightarrow> string \<Rightarrow> ChannelModelPricing option" where
  "lookupEffectivePricingAcrossPlatforms env cache gid group_platform model =
     (let n = normalizeChannelPricingModelName env model in
      case first_found (\<lambda>p. case pricingByGroupModel cache (gid, p, n) of
             Some pricing \<Rightarrow> if HasEffectivePricing (Some pricing) then Some pricing else None
           | None \<Rightarrow> None) (matchingPlatforms group_platform) of
        Some pricing \<Rightarrow> Some pricing
      | None \<Rightarrow> first_found (\<lambda>p. matchEffectiveWildcard cache gid p n) (matchingPlatforms group_platform))"

definition lookupMappingAcrossPlatforms :: "channelCache \<Rightarrow> int64 \<Rightarrow> string \<Rightarrow> string \<Rightarrow> string" where
  "lookupMappingAcrossPlatforms cache gid group_platform model =
     (case first_found (\<lambda>p. mappingByGroupModel cache (gid, p, model)) (matchingPlatforms group_platform) of
        Some target \<Rightarrow> target
      | None \<Rightarrow>
          (case first_found (\<lambda>p. let t = matchWildcardMapping cache gid p model in if t \<noteq> [] then Some t else None)
             (matchingPlatforms group_platform) of
             Some target \<Rightarrow> target
           | None \<Rightarrow> []))"

record channelLookup =
  lk_cache :: channelCache
  lk_channel :: Channel
  lk_platform :: string

text \<open>\<^verbatim>\<open>lookupGroupChannel\<close> in the loaded snapshot.\<close>

definition lookupGroupChannel :: "channelCache \<Rightarrow> int64 \<Rightarrow> channelLookup option" where
  "lookupGroupChannel cache gid =
     (case channelByGroupID cache gid of
        Some ch \<Rightarrow>
          if ChannelIsActive ch
          then Some \<lparr>lk_cache = cache, lk_channel = ch, lk_platform = platform_of_group (groupPlatform cache) gid\<rparr>
          else None
      | None \<Rightarrow> None)"

definition GetChannelModelPricing ::
  "'z go_env_scheme \<Rightarrow> channelCache \<Rightarrow> int64 \<Rightarrow> string \<Rightarrow> ChannelModelPricing option" where
  "GetChannelModelPricing env cache gid model =
     (case lookupGroupChannel cache gid of
        None \<Rightarrow> None
      | Some lk \<Rightarrow> lookupPricingAcrossPlatforms env (lk_cache lk) gid (lk_platform lk) (to_lower env model))"

definition GetEffectiveChannelModelPricing ::
  "'z go_env_scheme \<Rightarrow> channelCache \<Rightarrow> int64 \<Rightarrow> string \<Rightarrow> ChannelModelPricing option" where
  "GetEffectiveChannelModelPricing env cache gid model =
     (case lookupGroupChannel cache gid of
        None \<Rightarrow> None
      | Some lk \<Rightarrow> lookupEffectivePricingAcrossPlatforms env (lk_cache lk) gid (lk_platform lk) (to_lower env model))"

record ChannelMappingResult =
  MappedModel :: string
  MapChannelID :: int64
  Mapped :: bool
  MapBillingSource :: string

definition resolveMapping :: "'z go_env_scheme \<Rightarrow> channelLookup \<Rightarrow> int64 \<Rightarrow> string \<Rightarrow> ChannelMappingResult" where
  "resolveMapping env lk gid model =
     (let source = (if ChannelBillingSource (lk_channel lk) = [] then BillingModelSourceChannelMapped
                    else ChannelBillingSource (lk_channel lk));
          target = lookupMappingAcrossPlatforms (lk_cache lk) gid (lk_platform lk) (to_lower env model) in
      \<lparr>MappedModel = (if target \<noteq> [] then target else model), MapChannelID = ChannelID (lk_channel lk),
       Mapped = (target \<noteq> []), MapBillingSource = source\<rparr>)"

definition unmapped :: "string \<Rightarrow> ChannelMappingResult" where
  "unmapped model = \<lparr>MappedModel = model, MapChannelID = 0, Mapped = False, MapBillingSource = []\<rparr>"

definition ResolveChannelMapping ::
  "'z go_env_scheme \<Rightarrow> channelCache \<Rightarrow> int64 \<Rightarrow> string \<Rightarrow> ChannelMappingResult" where
  "ResolveChannelMapping env cache gid model =
     (case lookupGroupChannel cache gid of None \<Rightarrow> unmapped model | Some lk \<Rightarrow> resolveMapping env lk gid model)"

definition checkRestricted :: "'z go_env_scheme \<Rightarrow> channelLookup \<Rightarrow> int64 \<Rightarrow> string \<Rightarrow> bool" where
  "checkRestricted env lk gid model =
     (if \<not> RestrictModels (lk_channel lk) then False
      else
        case lookupPricingAcrossPlatforms env (lk_cache lk) gid (lk_platform lk) (to_lower env model) of
          None \<Rightarrow> True
        | Some p \<Rightarrow>
            if lk_platform lk = PlatformQoder \<and> \<not> HasEffectivePricing (Some p)
            then lookupEffectivePricingAcrossPlatforms env (lk_cache lk) gid (lk_platform lk) (to_lower env model) = None
            else False)"

definition IsModelRestricted :: "'z go_env_scheme \<Rightarrow> channelCache \<Rightarrow> int64 \<Rightarrow> string \<Rightarrow> bool" where
  "IsModelRestricted env cache gid model =
     (case lookupGroupChannel cache gid of None \<Rightarrow> False | Some lk \<Rightarrow> checkRestricted env lk gid model)"

section \<open>What the snapshot holds for a group\<close>

lemma at_most_one_find: "at_most_one P xs \<Longrightarrow> x \<in> set xs \<Longrightarrow> P x \<Longrightarrow> find P xs = Some x"
  unfolding at_most_one_def by (rule find_single)

lemma at_most_one_rev: "at_most_one P (rev xs) = at_most_one P xs"
  by (simp add: at_most_one_def rev_filter [symmetric])

lemma at_most_one_imp: "at_most_one P xs \<Longrightarrow> (\<And>x. x \<in> set xs \<Longrightarrow> Q x \<Longrightarrow> P x) \<Longrightarrow> at_most_one Q xs"
proof (induction xs)
  case Nil
  then show ?case by (simp add: at_most_one_def)
qed (auto simp: at_most_one_Cons list_ex_iff)

text \<open>Where one element qualifies, a narrower search finds it or nothing, in any order.\<close>

lemma only_find:
  assumes "at_most_one C xs" and "find C xs = Some x" and "\<And>y. y \<in> set xs \<Longrightarrow> Q y \<Longrightarrow> C y" and "set ys = set xs"
  shows "find Q ys = (if Q x then Some x else None)"
proof -
  have x: "x \<in> set ys"
    using assms(2,4) by (auto simp: find_Some_iff)
  have only: "y = x" if "y \<in> set ys" "Q y" for y
  proof -
    have "find C xs = Some y"
      using that assms by (intro at_most_one_find) auto
    then show ?thesis using assms(2) by simp
  qed
  show ?thesis
  proof (cases "find Q ys")
    case None
    then show ?thesis using x by (auto simp: find_None_iff)
  next
    case (Some y)
    then have "y \<in> set ys" "Q y" by (auto simp: find_Some_iff)
    then show ?thesis using Some only by auto
  qed
qed

text \<open>A search for exact names followed by one for wildcards, where only one pattern qualifies.\<close>

lemma exact_then_wildcard:
  assumes "at_most_one C xs" and "\<And>x. x \<in> set xs \<Longrightarrow> C x \<longleftrightarrow> E x \<or> W x"
  shows "(case find E (rev xs) of Some x \<Rightarrow> Some x | None \<Rightarrow> find W xs) = find C xs"
proof (cases "find C xs")
  case None
  then have "find E (rev xs) = None" and "find W xs = None"
    using assms(2) by (auto simp: find_None_iff)
  with None show ?thesis by simp
next
  case (Some x)
  then have "x \<in> set xs" "C x"
    by (auto simp: find_Some_iff)
  moreover have "find E (rev xs) = (if E x then Some x else None)"
    by (rule only_find [OF assms(1) Some]) (simp_all add: assms(2))
  moreover have "find W xs = (if W x then Some x else None)"
    by (rule only_find [OF assms(1) Some]) (simp_all add: assms(2))
  ultimately show ?thesis
    using Some assms(2) by auto
qed

text \<open>The pairs of entry and model of one platform.\<close>

definition platform_pairs :: "ChannelModelPricing list \<Rightarrow> string \<Rightarrow> (ChannelModelPricing \<times> string) list" where
  "platform_pairs pricing platform = concat (map (\<lambda>p. if ChPlatform p = platform then map (Pair p) (ChModels p) else []) pricing)"

lemma platform_entries_pairs: "platform_entries env pricing platform = map (toPricingModelEntry env \<circ> snd) (platform_pairs pricing platform)"
  by (induction pricing) (simp_all add: platform_entries_def platform_pairs_def)

lemma platform_pairs_platform: "(p, m) \<in> set (platform_pairs pricing platform) \<Longrightarrow> ChPlatform p = platform \<and> p \<in> set pricing \<and> m \<in> set (ChModels p)"
  by (auto simp: platform_pairs_def split: if_splits)

lemma expandPricing_pairs:
  "expandPricingToCache env ch gid platform cache = fold (add_pricing env gid) (platform_pairs (ModelPricing ch) platform) cache"
proof -
  have "fold (\<lambda>p c. if isPlatformPricingMatch platform (ChPlatform p)
      then fold (\<lambda>model. add_pricing env gid (p, model)) (ChModels p) c else c) ps cache =
    fold (add_pricing env gid) (platform_pairs ps platform) cache" for ps
    by (induction ps arbitrary: cache) (auto simp: platform_pairs_def isPlatformPricingMatch_def fold_map comp_def)
  then show ?thesis
    by (simp add: expandPricingToCache_def)
qed

lemma expandMapping_pairs:
  "expandMappingToCache env ch gid platform cache =
     fold (add_mapping env gid platform) (case map_of (ModelMapping ch) platform of None \<Rightarrow> [] | Some m \<Rightarrow> m) cache"
  by (simp add: expandMappingToCache_def matchingPlatforms_def split: option.split)

definition exact_name :: "'z go_env_scheme \<Rightarrow> string \<Rightarrow> string \<Rightarrow> bool" where
  "exact_name env n model \<longleftrightarrow> \<not> ends_with_star model \<and> normalizeChannelPricingModelName env model = n"

lemma exact_name_plain: "exact_name env n m \<Longrightarrow> \<not> ends_with_star m"
  by (simp add: exact_name_def)

lemma pricing_fields:
  assumes "\<forall>pm\<in>set pms. ChPlatform (fst pm) = platform"
  shows "pricingByGroupModel (fold (add_pricing env gid) pms c) (gid, platform, n) =
      (case find (\<lambda>(p, m). exact_name env n m) (rev pms) of
         Some (p, m) \<Rightarrow> Some p | None \<Rightarrow> pricingByGroupModel c (gid, platform, n))"
    and "wildcardByGroupPlatform (fold (add_pricing env gid) pms c) (gid, platform) =
      wildcardByGroupPlatform c (gid, platform) @
        map (\<lambda>(p, m). (normalizeChannelPricingModelName env (trim_star m), p)) (filter (\<lambda>(p, m). ends_with_star m) pms)"
  using assms
proof (induction pms arbitrary: c rule: rev_induct)
  case (snoc pm pms)
  {
    case 1
    then show ?case
      using snoc.IH(1) [of c] by (cases pm) (auto simp: add_pricing_def exact_name_def)
  next
    case 2
    then show ?case
      using snoc.IH(2) [of c] by (cases pm) (auto simp: add_pricing_def)
  }
qed simp_all

lemma pricing_frame:
  assumes "\<forall>pm\<in>set pms. ChPlatform (fst pm) = platform" and "g \<noteq> gid \<or> pl \<noteq> platform"
  shows "pricingByGroupModel (fold (add_pricing env gid) pms c) (g, pl, n) = pricingByGroupModel c (g, pl, n)"
    and "wildcardByGroupPlatform (fold (add_pricing env gid) pms c) (g, pl) = wildcardByGroupPlatform c (g, pl)"
  using assms by (induction pms arbitrary: c) (auto simp: add_pricing_def)

lemma pricing_others [simp]:
  "mappingByGroupModel (fold (add_pricing env gid) pms c) = mappingByGroupModel c"
  "wildcardMappingByGP (fold (add_pricing env gid) pms c) = wildcardMappingByGP c"
  "channelByGroupID (fold (add_pricing env gid) pms c) = channelByGroupID c"
  "groupPlatform (fold (add_pricing env gid) pms c) = groupPlatform c"
  by (induction pms arbitrary: c) (auto simp: add_pricing_def)

definition exact_source :: "'z go_env_scheme \<Rightarrow> string \<Rightarrow> string \<Rightarrow> bool" where
  "exact_source env n src \<longleftrightarrow> \<not> ends_with_star src \<and> to_lower env src = n"

lemma mapping_fields:
  shows "mappingByGroupModel (fold (add_mapping env gid platform) m c) (gid, platform, n) =
      (case find (\<lambda>(src, dst). exact_source env n src) (rev m) of
         Some (src, dst) \<Rightarrow> Some dst | None \<Rightarrow> mappingByGroupModel c (gid, platform, n))"
    and "wildcardMappingByGP (fold (add_mapping env gid platform) m c) (gid, platform) =
      wildcardMappingByGP c (gid, platform) @
        map (\<lambda>(src, dst). (to_lower env (trim_star src), dst)) (filter (\<lambda>(src, dst). ends_with_star src) m)"
proof (induction m arbitrary: c rule: rev_induct)
  case (snoc sd m)
  {
    case 1
    then show ?case
      using snoc.IH(1) [of c] by (cases sd) (auto simp: add_mapping_def exact_source_def)
  next
    case 2
    then show ?case
      using snoc.IH(2) [of c] by (cases sd) (auto simp: add_mapping_def)
  }
qed simp_all

lemma mapping_frame:
  assumes "g \<noteq> gid \<or> pl \<noteq> platform"
  shows "mappingByGroupModel (fold (add_mapping env gid platform) m c) (g, pl, n) = mappingByGroupModel c (g, pl, n)"
    and "wildcardMappingByGP (fold (add_mapping env gid platform) m c) (g, pl) = wildcardMappingByGP c (g, pl)"
  using assms by (induction m arbitrary: c) (auto simp: add_mapping_def)

lemma mapping_others [simp]:
  "pricingByGroupModel (fold (add_mapping env gid platform) m c) = pricingByGroupModel c"
  "wildcardByGroupPlatform (fold (add_mapping env gid platform) m c) = wildcardByGroupPlatform c"
  "channelByGroupID (fold (add_mapping env gid platform) m c) = channelByGroupID c"
  "groupPlatform (fold (add_mapping env gid platform) m c) = groupPlatform c"
  by (induction m arbitrary: c) (auto simp: add_mapping_def)

text \<open>What the tables hold under the keys of one group.\<close>

record group_view =
  v_pricing :: "string \<Rightarrow> string \<Rightarrow> ChannelModelPricing option"
  v_wild :: "string \<Rightarrow> (string \<times> ChannelModelPricing) list"
  v_mapping :: "string \<Rightarrow> string \<Rightarrow> string option"
  v_wildmap :: "string \<Rightarrow> (string \<times> string) list"
  v_channel :: "Channel option"

definition view_of :: "int64 \<Rightarrow> channelCache \<Rightarrow> group_view" where
  "view_of g c =
     \<lparr>v_pricing = (\<lambda>p n. pricingByGroupModel c (g, p, n)), v_wild = (\<lambda>p. wildcardByGroupPlatform c (g, p)),
      v_mapping = (\<lambda>p n. mappingByGroupModel c (g, p, n)), v_wildmap = (\<lambda>p. wildcardMappingByGP c (g, p)),
      v_channel = channelByGroupID c g\<rparr>"

definition mapping_of :: "Channel \<Rightarrow> string \<Rightarrow> platform_mapping" where
  "mapping_of ch platform = (case map_of (ModelMapping ch) platform of None \<Rightarrow> [] | Some m \<Rightarrow> m)"

definition add_view :: "'z go_env_scheme \<Rightarrow> string \<Rightarrow> Channel \<Rightarrow> group_view \<Rightarrow> group_view" where
  "add_view env platform ch v =
     (let pms = platform_pairs (ModelPricing ch) platform; m = mapping_of ch platform in
      \<lparr>v_pricing = (\<lambda>p n. if p = platform then
           (case find (\<lambda>(q, m). exact_name env n m) (rev pms) of Some (q, m) \<Rightarrow> Some q | None \<Rightarrow> v_pricing v p n)
         else v_pricing v p n),
       v_wild = (\<lambda>p. v_wild v p @ (if p = platform then
           map (\<lambda>(q, m). (normalizeChannelPricingModelName env (trim_star m), q)) (filter (\<lambda>(q, m). ends_with_star m) pms)
         else [])),
       v_mapping = (\<lambda>p n. if p = platform then
           (case find (\<lambda>(src, dst). exact_source env n src) (rev m) of Some (src, dst) \<Rightarrow> Some dst | None \<Rightarrow> v_mapping v p n)
         else v_mapping v p n),
       v_wildmap = (\<lambda>p. v_wildmap v p @ (if p = platform then
           map (\<lambda>(src, dst). (to_lower env (trim_star src), dst)) (filter (\<lambda>(src, dst). ends_with_star src) m)
         else [])),
       v_channel = Some ch\<rparr>)"

lemma view_add_group:
  "view_of g (add_group env platforms ch gid c) =
     (if g = gid then add_view env (platform_of_group platforms gid) ch (view_of g c) else view_of g c)"
proof -
  let ?p = "platform_of_group platforms gid"
  have pms: "\<forall>pm\<in>set (platform_pairs (ModelPricing ch) ?p). ChPlatform (fst pm) = ?p"
    by (auto dest: platform_pairs_platform)
  show ?thesis
  proof (cases "g = gid")
    case True
    then show ?thesis
      unfolding view_of_def add_view_def add_group_def Let_def expandMapping_pairs expandPricing_pairs mapping_of_def [symmetric]
      by (auto simp: pricing_fields [OF pms] pricing_frame [OF pms] mapping_fields mapping_frame fun_eq_iff
          split: option.split)
  next
    case False
    then show ?thesis
      unfolding view_of_def add_group_def Let_def expandMapping_pairs expandPricing_pairs
      by (simp add: pricing_frame [OF pms] mapping_frame)
  qed
qed

text \<open>The groups of the channels; in a snapshot where a group occurs once, its view is that of its channel.\<close>

definition memberships :: "Channel list \<Rightarrow> (Channel \<times> int64) list" where
  "memberships channels = concat (map (\<lambda>ch. map (Pair ch) (ChannelGroupIDs ch)) channels)"

lemma view_byID [simp]: "view_of g (c\<lparr>byID := f\<rparr>) = view_of g c"
  by (simp add: view_of_def)

lemma view_add_groups:
  "view_of g (fold (add_group env platforms ch) gids c) =
     fold (\<lambda>gid v. if g = gid then add_view env (platform_of_group platforms gid) ch v else v) gids (view_of g c)"
  by (induction gids arbitrary: c) (simp_all add: view_add_group)

lemma view_fold_channels:
  "view_of g (fold (add_channel env platforms) channels c) =
     fold (\<lambda>(ch, gid) v. if g = gid then add_view env (platform_of_group platforms gid) ch v else v)
       (memberships channels) (view_of g c)"
  by (induction channels arbitrary: c) (simp_all add: memberships_def add_channel_def view_add_groups fold_map comp_def)

lemma fold_single:
  assumes "at_most_one P xs" and "x \<in> set xs" and "P x"
  shows "fold (\<lambda>x v. if P x then f x v else v) xs v = f x v"
  using assms
proof (induction xs arbitrary: v)
  case (Cons y xs)
  have idle: "\<not> list_ex P xs \<Longrightarrow> fold (\<lambda>x v. if P x then f x v else v) xs v = v" for v
    by (induction xs arbitrary: v) auto
  show ?case
  proof (cases "P y")
    case True
    then have "\<not> list_ex P xs" using Cons.prems(1) by (simp add: at_most_one_Cons)
    moreover from this have "x = y" using Cons.prems(2,3) by (auto simp: list_ex_iff)
    ultimately show ?thesis using True by (simp add: idle)
  next
    case False
    then show ?thesis using Cons by (auto simp: at_most_one_Cons)
  qed
qed simp

lemma fold_none: "\<not> list_ex P xs \<Longrightarrow> fold (\<lambda>x v. if P x then f x v else v) xs v = v"
  by (induction xs arbitrary: v) auto

definition empty_view :: group_view where
  "empty_view = \<lparr>v_pricing = (\<lambda>p n. None), v_wild = (\<lambda>p. []), v_mapping = (\<lambda>p n. None), v_wildmap = (\<lambda>p. []), v_channel = None\<rparr>"

definition sole_channel :: "Channel list \<Rightarrow> int64 \<Rightarrow> bool" where
  "sole_channel channels gid \<longleftrightarrow> at_most_one (\<lambda>(ch, g). gid = g) (memberships channels)"

lemma view_populate:
  assumes "sole_channel channels gid"
  shows "ch \<in> set channels \<Longrightarrow> gid \<in> set (ChannelGroupIDs ch) \<Longrightarrow>
      view_of gid (populateChannelCache env channels platforms now) =
        add_view env (platform_of_group platforms gid) ch empty_view"
    and "\<forall>ch\<in>set channels. gid \<notin> set (ChannelGroupIDs ch) \<Longrightarrow>
      view_of gid (populateChannelCache env channels platforms now) = empty_view"
proof -
  have start: "view_of gid (newEmptyChannelCache\<lparr>groupPlatform := platforms, loadedAt := now\<rparr>) = empty_view"
    by (simp add: view_of_def newEmptyChannelCache_def empty_view_def)
  have shape: "(\<lambda>(ch, g) v. if gid = g then add_view env (platform_of_group platforms g) ch v else v) =
      (\<lambda>cg v. if (\<lambda>(ch, g). gid = g) cg then (\<lambda>(ch, g). add_view env (platform_of_group platforms g) ch) cg v else v)"
    by (auto simp: fun_eq_iff)
  show "view_of gid (populateChannelCache env channels platforms now) = add_view env (platform_of_group platforms gid) ch empty_view"
    if "ch \<in> set channels" "gid \<in> set (ChannelGroupIDs ch)"
  proof -
    have "(ch, gid) \<in> set (memberships channels)"
      using that by (auto simp: memberships_def)
    then show ?thesis
      unfolding populateChannelCache_def view_fold_channels start shape
      by (subst fold_single [OF assms [unfolded sole_channel_def], of "(ch, gid)"]) simp_all
  qed
  show "view_of gid (populateChannelCache env channels platforms now) = empty_view"
    if "\<forall>ch\<in>set channels. gid \<notin> set (ChannelGroupIDs ch)"
  proof -
    have "\<not> list_ex (\<lambda>(ch, g). gid = g) (memberships channels)"
      using that by (auto simp: memberships_def list_ex_iff)
    then show ?thesis
      unfolding populateChannelCache_def view_fold_channels start shape by (rule fold_none)
  qed
qed

lemma populate_platform [simp]: "groupPlatform (populateChannelCache env channels platforms now) = platforms"
proof -
  have group: "groupPlatform (add_group env platforms ch gid c) = groupPlatform c" for ch gid c
    by (simp add: add_group_def Let_def expandMapping_pairs expandPricing_pairs)
  have groups: "groupPlatform (fold (add_group env platforms ch) gids c) = groupPlatform c" for ch gids c
    by (induction gids arbitrary: c) (simp_all add: group)
  have "groupPlatform (fold (add_channel env platforms) chs c) = groupPlatform c" for chs c
    by (induction chs arbitrary: c) (simp_all add: add_channel_def groups)
  then show ?thesis
    by (simp add: populateChannelCache_def)
qed

section \<open>The price of a model\<close>

text \<open>The entry of a platform with a pattern that covers a name.\<close>

definition covering_price :: "'z go_env_scheme \<Rightarrow> ChannelModelPricing list \<Rightarrow> string \<Rightarrow> string \<Rightarrow> ChannelModelPricing option" where
  "covering_price env pricing platform n =
     map_option fst (find (\<lambda>(p, m). entry_covers n (toPricingModelEntry env m)) (platform_pairs pricing platform))"

definition covers :: "'z go_env_scheme \<Rightarrow> string \<Rightarrow> ChannelModelPricing \<times> string \<Rightarrow> bool" where
  "covers env n pm \<longleftrightarrow> entry_covers n (toPricingModelEntry env (snd pm))"

lemma covering_price_covers: "covering_price env pricing platform n = map_option fst (find (covers env n) (platform_pairs pricing platform))"
  by (simp add: covering_price_def covers_def [abs_def] case_prod_beta')

lemma accepted_covers:
  assumes "validateNoConflictingModels env pricing = None"
  shows "at_most_one (covers env n) (platform_pairs pricing platform)"
proof -
  have "at_most_one (entry_covers n) (platform_entries env pricing platform)"
    using assms by (simp add: model_patterns_accepted)
  then show ?thesis
    by (simp add: at_most_one_def platform_entries_pairs filter_map comp_def covers_def [abs_def])
qed

lemma covers_split:
  "covers env n (p, m) \<longleftrightarrow> exact_name env n m \<or>
     (ends_with_star m \<and> prefix (normalizeChannelPricingModelName env (trim_star m)) n)"
  by (auto simp: covers_def entry_covers_def toPricingModelEntry_def exact_name_def trim_star_def)

lemma find_map_filter: "find P (map f (filter Q xs)) = map_option f (find (\<lambda>x. Q x \<and> P (f x)) xs)"
  by (induction xs) auto

lemma lookup_in_view:
  "lookupPricingAcrossPlatforms env c gid platform model =
     (let n = normalizeChannelPricingModelName env model in
      case v_pricing (view_of gid c) platform n of
        Some p \<Rightarrow> Some p
      | None \<Rightarrow> map_option snd (find (\<lambda>(pre, p). prefix pre n) (v_wild (view_of gid c) platform)))"
  by (simp add: lookupPricingAcrossPlatforms_def matchingPlatforms_def matchWildcardPricing_def view_of_def Let_def split: option.split)

lemma lookup_covering:
  assumes "validateNoConflictingModels env (ModelPricing ch) = None"
    and "view_of gid c = add_view env platform ch empty_view"
  shows "lookupPricingAcrossPlatforms env c gid platform model =
    covering_price env (ModelPricing ch) platform (normalizeChannelPricingModelName env model)"
proof -
  let ?n = "normalizeChannelPricingModelName env model" and ?pms = "platform_pairs (ModelPricing ch) platform"
  let ?E = "\<lambda>(p :: ChannelModelPricing, m). exact_name env ?n m"
  let ?W = "\<lambda>(p :: ChannelModelPricing, m). ends_with_star m \<and> prefix (normalizeChannelPricingModelName env (trim_star m)) ?n"
  have wild: "map_option snd (find (\<lambda>(pre, p). prefix pre ?n)
      (map (\<lambda>(q, m). (normalizeChannelPricingModelName env (trim_star m), q)) (filter (\<lambda>(q, m). ends_with_star m) ?pms))) =
    map_option fst (find ?W ?pms)"
    unfolding find_map_filter option.map_comp by (rule arg_cong2 [where f = map_option]) (auto simp: fun_eq_iff case_prod_beta')
  have "lookupPricingAcrossPlatforms env c gid platform model =
      map_option fst (case find ?E (rev ?pms) of Some x \<Rightarrow> Some x | None \<Rightarrow> find ?W ?pms)"
    unfolding lookup_in_view assms(2) Let_def
    by (simp add: add_view_def empty_view_def Let_def wild split: option.split)
  also have "(case find ?E (rev ?pms) of Some x \<Rightarrow> Some x | None \<Rightarrow> find ?W ?pms) = find (covers env ?n) ?pms"
    by (rule exact_then_wildcard [OF accepted_covers [OF assms(1)]]) (auto simp: covers_split)
  finally show ?thesis
    by (simp add: covering_price_covers)
qed

lemma effective_in_view:
  "lookupEffectivePricingAcrossPlatforms env c gid platform model =
     (let n = normalizeChannelPricingModelName env model;
          wild = map_option snd (find (\<lambda>(pre, p). prefix pre n \<and> HasEffectivePricing (Some p)) (v_wild (view_of gid c) platform)) in
      case v_pricing (view_of gid c) platform n of
        Some p \<Rightarrow> if HasEffectivePricing (Some p) then Some p else wild
      | None \<Rightarrow> wild)"
  by (simp add: lookupEffectivePricingAcrossPlatforms_def matchingPlatforms_def matchEffectiveWildcard_def view_of_def Let_def
      split: option.split)

definition if_effective :: "ChannelModelPricing option \<Rightarrow> ChannelModelPricing option" where
  "if_effective entry = (if HasEffectivePricing entry then entry else None)"

lemma lookup_effective_covering:
  assumes "validateNoConflictingModels env (ModelPricing ch) = None"
    and "view_of gid c = add_view env platform ch empty_view"
  shows "lookupEffectivePricingAcrossPlatforms env c gid platform model =
    if_effective (covering_price env (ModelPricing ch) platform (normalizeChannelPricingModelName env model))"
proof -
  let ?n = "normalizeChannelPricingModelName env model" and ?pms = "platform_pairs (ModelPricing ch) platform"
  let ?E = "\<lambda>(p :: ChannelModelPricing, m). exact_name env ?n m"
  let ?W = "\<lambda>(p, m). ends_with_star m \<and> prefix (normalizeChannelPricingModelName env (trim_star m)) ?n \<and> HasEffectivePricing (Some p)"
  note unique = accepted_covers [OF assms(1), of ?n platform]
  have "map_option snd (find (\<lambda>(pre, p). prefix pre ?n \<and> HasEffectivePricing (Some p))
      (map (\<lambda>(q, m). (normalizeChannelPricingModelName env (trim_star m), q)) (filter (\<lambda>(q, m). ends_with_star m) ?pms))) =
    map_option fst (find ?W ?pms)"
    unfolding find_map_filter option.map_comp by (rule arg_cong2 [where f = map_option]) (auto simp: fun_eq_iff case_prod_beta')
  then have eq: "lookupEffectivePricingAcrossPlatforms env c gid platform model =
      (case find ?E (rev ?pms) of
         Some (p, m) \<Rightarrow> if HasEffectivePricing (Some p) then Some p else map_option fst (find ?W ?pms)
       | None \<Rightarrow> map_option fst (find ?W ?pms))"
    unfolding effective_in_view assms(2) Let_def
    by (simp add: add_view_def empty_view_def Let_def split: option.split)
  show ?thesis
  proof (cases "find (covers env ?n) ?pms")
    case None
    then have "find ?E (rev ?pms) = None" and "find ?W ?pms = None"
      by (auto simp: find_None_iff covers_split)
    then show ?thesis
      unfolding eq covering_price_covers None by (simp add: if_effective_def)
  next
    case (Some x)
    obtain p m where x: "x = (p, m)" by (cases x)
    have "find ?E (rev ?pms) = (if ?E x then Some x else None)"
      by (rule only_find [OF unique Some]) (auto simp: covers_split)
    moreover have "find ?W ?pms = (if ?W x then Some x else None)"
      by (rule only_find [OF unique Some]) (auto simp: covers_split)
    moreover have "covers env ?n (p, m)"
      using Some x by (auto simp: find_Some_iff)
    ultimately show ?thesis
      unfolding eq covering_price_covers Some x by (auto simp: if_effective_def covers_split dest: exact_name_plain)
  qed
qed

lemma covering_any_order:
  assumes "validateNoConflictingModels env pricing = None" and "mset pricing' = mset pricing"
  shows "covering_price env pricing' platform n = covering_price env pricing platform n"
proof -
  have "mset (platform_pairs ps platform) =
      (\<Sum>p\<in>#mset ps. mset (if ChPlatform p = platform then map (Pair p) (ChModels p) else []))" for ps
    by (induction ps) (simp_all add: platform_pairs_def)
  then have "mset (platform_pairs pricing' platform) = mset (platform_pairs pricing platform)"
    by (simp add: assms(2))
  then show ?thesis
    unfolding covering_price_covers
    by (subst find_any_order [OF accepted_covers [OF assms(1), unfolded at_most_one_def]]) simp_all
qed

text \<open>
  C12. Reading a price from the hash tables gives the entry that covers the model: for an active channel whose patterns
  were accepted and a group that belongs to no other channel, the price of a model is that of the entry of the group's
  platform with a pattern that covers it, whatever the order of the entries; the effective price is the same entry if it
  has a price at all, and nothing else.
\<close>

theorem price_from_snapshot:
  assumes "ch \<in> set channels" and "gid \<in> set (ChannelGroupIDs ch)" and "sole_channel channels gid"
    and "ChannelIsActive ch" and "validateNoConflictingModels env (ModelPricing ch) = None"
    and "mset pricing = mset (ModelPricing ch)"
  shows "GetChannelModelPricing env (populateChannelCache env channels platforms now) gid model =
      covering_price env pricing (platform_of_group platforms gid)
        (normalizeChannelPricingModelName env (to_lower env model)) \<and>
    GetEffectiveChannelModelPricing env (populateChannelCache env channels platforms now) gid model =
      if_effective (covering_price env pricing (platform_of_group platforms gid)
        (normalizeChannelPricingModelName env (to_lower env model)))"
proof -
  let ?c = "populateChannelCache env channels platforms now"
  have view: "view_of gid ?c = add_view env (platform_of_group platforms gid) ch empty_view"
    by (rule view_populate(1) [OF assms(3,1,2)])
  then have "channelByGroupID ?c gid = Some ch"
    by (simp add: view_of_def add_view_def Let_def)
  then have "lookupGroupChannel ?c gid = Some \<lparr>lk_cache = ?c, lk_channel = ch, lk_platform = platform_of_group platforms gid\<rparr>"
    using assms(4) by (simp add: lookupGroupChannel_def)
  then show ?thesis
    using lookup_covering [OF assms(5) view] lookup_effective_covering [OF assms(5) view]
    by (simp add: GetChannelModelPricing_def GetEffectiveChannelModelPricing_def covering_any_order [OF assms(5,6)])
qed

section \<open>The mapping of a model\<close>

text \<open>
  What the case tables of Unicode do with a pattern: they map character by character and leave the star alone, and no
  other character becomes a star.
\<close>

definition lower_keeps_star :: "'z go_env_scheme \<Rightarrow> bool" where
  "lower_keeps_star env \<longleftrightarrow>
     (\<forall>s. \<not> is_ascii s \<longrightarrow> UnicodeLower env (s @ [CHR 0x2A]) = UnicodeLower env s @ [CHR 0x2A]) \<and>
     (\<forall>s. \<not> ends_with_star s \<longrightarrow> \<not> ends_with_star (UnicodeLower env s))"

lemma is_ascii_snoc [simp]: "is_ascii (s @ [CHR 0x2A]) = is_ascii s"
  by (simp add: is_ascii_def)

lemma ascii_lower_star: "ascii_lower c = CHR 0x2A \<longleftrightarrow> c = CHR 0x2A"
proof (cases "65 \<le> byte c \<and> byte c \<le> 90")
  case True
  have "byte (char_of (byte c + 32)) \<noteq> byte (CHR 0x2A)" and "byte c \<noteq> byte (CHR 0x2A)"
    using True by simp_all
  then have "char_of (byte c + 32) \<noteq> CHR 0x2A" and "c \<noteq> CHR 0x2A"
    by metis+
  then show ?thesis
    using True by (simp add: ascii_lower_def)
qed (auto simp: ascii_lower_def)

lemma star_split: "ends_with_star s \<Longrightarrow> s = trim_star s @ [CHR 0x2A]"
  by (metis append_butlast_last_id ends_with_star_def trim_star_def)

lemma ends_with_star_lower: "lower_keeps_star env \<Longrightarrow> ends_with_star (to_lower env s) \<longleftrightarrow> ends_with_star s"
proof (cases "is_ascii s")
  case True
  then show ?thesis
    by (cases "s = []") (simp_all add: ends_with_star_def ToLower_def last_map ascii_lower_star)
next
  case False
  assume env: "lower_keeps_star env"
  show ?thesis
  proof
    assume star: "ends_with_star s"
    have "\<not> is_ascii (trim_star s)"
      using False is_ascii_snoc [of "trim_star s"] star_split [OF star] by simp
    then have "UnicodeLower env (trim_star s @ [CHR 0x2A]) = UnicodeLower env (trim_star s) @ [CHR 0x2A]"
      using env by (simp add: lower_keeps_star_def)
    then show "ends_with_star (to_lower env s)"
      using star_split [OF star] False by (simp add: ToLower_def ends_with_star_def)
  next
    assume "ends_with_star (to_lower env s)"
    then show "ends_with_star s"
      using env False by (auto simp: ToLower_def lower_keeps_star_def)
  qed
qed

lemma lower_snoc: "lower_keeps_star env \<Longrightarrow> to_lower env (s @ [CHR 0x2A]) = to_lower env s @ [CHR 0x2A]"
  by (simp add: ToLower_def lower_keeps_star_def ascii_lower_def)

lemma trim_star_snoc: "trim_star (s @ [CHR 0x2A]) = s"
  by (simp add: trim_star_def ends_with_star_def)

lemma toModelEntry_star:
  assumes "lower_keeps_star env"
  shows "toModelEntry env src = \<lparr>entry_prefix = to_lower env (trim_star src), wildcard = ends_with_star src\<rparr>"
proof (cases "ends_with_star src")
  case True
  define s where "s = trim_star src"
  have "src = s @ [CHR 0x2A]"
    using star_split [OF True] by (simp add: s_def)
  then show ?thesis
    using True by (simp add: toModelEntry_def Let_def lower_snoc [OF assms] trim_star_snoc) (simp add: ends_with_star_def)
next
  case False
  then show ?thesis
    by (simp add: toModelEntry_def Let_def ends_with_star_lower [OF assms] trim_star_def)
qed

text \<open>The target of the pattern that covers a name.\<close>

definition covering_target :: "'z go_env_scheme \<Rightarrow> platform_mapping \<Rightarrow> string \<Rightarrow> string" where
  "covering_target env m n =
     (case find (\<lambda>sd. entry_covers n (toModelEntry env (fst sd))) m of Some (src, dst) \<Rightarrow> dst | None \<Rightarrow> [])"

lemma accepted_mapping:
  assumes "validateNoConflictingMappings env (ModelMapping ch) = None"
  shows "at_most_one (\<lambda>sd. entry_covers n (toModelEntry env (fst sd))) (mapping_of ch platform)"
proof (cases "map_of (ModelMapping ch) platform")
  case (Some m)
  then have "\<not> detectConflicts (map (\<lambda>(src, dst). toModelEntry env src) m)"
    using assms by (auto simp: validateNoConflictingMappings_def list_ex_iff dest: map_of_SomeD)
  then have "at_most_one (entry_covers n) (map (\<lambda>(src, dst). toModelEntry env src) m)"
    by (simp add: no_conflicts_iff)
  then show ?thesis
    using Some by (simp add: at_most_one_def filter_map comp_def mapping_of_def case_prod_beta')
qed (simp add: mapping_of_def at_most_one_def)

lemma lookup_target:
  assumes "lower_keeps_star env" and "validateNoConflictingMappings env (ModelMapping ch) = None"
    and "view_of gid c = add_view env platform ch empty_view"
  shows "lookupMappingAcrossPlatforms c gid platform n = covering_target env (mapping_of ch platform) n"
proof -
  let ?m = "mapping_of ch platform" and ?C = "\<lambda>sd. entry_covers n (toModelEntry env (fst sd))"
  let ?E = "\<lambda>(src, dst :: string). exact_source env n src"
  let ?W = "\<lambda>(src, dst :: string). ends_with_star src \<and> prefix (to_lower env (trim_star src)) n"
  have split: "?C sd \<longleftrightarrow> ?E sd \<or> ?W sd" for sd
    by (cases sd) (auto simp: toModelEntry_star [OF assms(1)] entry_covers_def exact_source_def trim_star_def)
  have wild: "find (\<lambda>(pre, target). prefix pre n)
      (map (\<lambda>(src, dst). (to_lower env (trim_star src), dst)) (filter (\<lambda>(src, dst). ends_with_star src) ?m)) =
    map_option (\<lambda>(src, dst). (to_lower env (trim_star src), dst)) (find ?W ?m)"
    unfolding find_map_filter by (rule arg_cong2 [where f = map_option]) (auto simp: fun_eq_iff case_prod_beta')
  have "lookupMappingAcrossPlatforms c gid platform n =
      (case v_mapping (view_of gid c) platform n of
         Some t \<Rightarrow> t
       | None \<Rightarrow> (case find (\<lambda>(pre, target). prefix pre n) (v_wildmap (view_of gid c) platform) of
           Some (pre, t) \<Rightarrow> t | None \<Rightarrow> []))"
    by (simp add: lookupMappingAcrossPlatforms_def matchingPlatforms_def matchWildcardMapping_def view_of_def Let_def
        split: option.split)
  also have "\<dots> = (case (case find ?E (rev ?m) of Some x \<Rightarrow> Some x | None \<Rightarrow> find ?W ?m) of Some (src, dst) \<Rightarrow> dst | None \<Rightarrow> [])"
    unfolding assms(3) by (simp add: add_view_def empty_view_def Let_def wild split: option.split)
  also have "(case find ?E (rev ?m) of Some x \<Rightarrow> Some x | None \<Rightarrow> find ?W ?m) = find ?C ?m"
    by (rule exact_then_wildcard [OF accepted_mapping [OF assms(2)]]) (rule split)
  finally show ?thesis
    by (simp add: covering_target_def)
qed

text \<open>
  C13. The mapping of a model does not depend on the order in which the snapshot's builder iterates over the mapping of
  the platform: for an active channel whose mapping was accepted, a model is mapped to the target of the one pattern
  that covers it, and is left alone if there is none or its target is empty.
\<close>

theorem mapping_any_order:
  assumes "ch \<in> set channels" and "gid \<in> set (ChannelGroupIDs ch)" and "sole_channel channels gid"
    and "ChannelIsActive ch" and "validateNoConflictingMappings env (ModelMapping ch) = None"
    and "lower_keeps_star env" and "mset m = mset (mapping_of ch (platform_of_group platforms gid))"
    and "target = covering_target env m (to_lower env model)"
  shows "ResolveChannelMapping env (populateChannelCache env channels platforms now) gid model =
    \<lparr>MappedModel = (if target = [] then model else target), MapChannelID = ChannelID ch, Mapped = (target \<noteq> []),
     MapBillingSource = (if ChannelBillingSource ch = [] then BillingModelSourceChannelMapped else ChannelBillingSource ch)\<rparr>"
proof -
  let ?c = "populateChannelCache env channels platforms now" and ?p = "platform_of_group platforms gid"
  have view: "view_of gid ?c = add_view env ?p ch empty_view"
    by (rule view_populate(1) [OF assms(3,1,2)])
  then have "channelByGroupID ?c gid = Some ch"
    by (simp add: view_of_def add_view_def Let_def)
  then have lk: "lookupGroupChannel ?c gid = Some \<lparr>lk_cache = ?c, lk_channel = ch, lk_platform = ?p\<rparr>"
    using assms(4) by (simp add: lookupGroupChannel_def)
  have "find (\<lambda>sd. entry_covers n (toModelEntry env (fst sd))) m =
      find (\<lambda>sd. entry_covers n (toModelEntry env (fst sd))) (mapping_of ch ?p)" for n
    using accepted_mapping [OF assms(5)] assms(7) unfolding at_most_one_def by (intro find_any_order) auto
  then have "covering_target env m n = covering_target env (mapping_of ch ?p) n" for n
    by (simp add: covering_target_def)
  then show ?thesis
    using lookup_target [OF assms(6,5) view]
    by (simp add: ResolveChannelMapping_def lk resolveMapping_def Let_def assms(8))
qed

section \<open>Witnesses\<close>

definition plain_entry :: "string list \<Rightarrow> rat \<Rightarrow> ChannelModelPricing" where
  "plain_entry models price =
     \<lparr>ChPlatform = PlatformOpenAI, ChModels = models, ChBillingMode = BillingModeToken, ChPriceMultiplier = None,
      ChFastModeMultiplier = None, ChFastMultiplier = None, ChFlexMultiplier = None, ChInputPrice = Some (Fin price),
      ChOutputPrice = None, ChCacheWritePrice = None, ChCacheWrite1hPrice = None, ChCacheReadPrice = None,
      ChImageInputPrice = None, ChImageOutputPrice = None, ChPerRequestPrice = None, ChIntervals = [], ChTimePricing = None\<rparr>"

definition demo_channel :: Channel where
  "demo_channel =
     \<lparr>ChannelID = 1, ChannelName = ''main'', ChannelDescription = [], ChannelStatus = StatusActive, ChannelBillingSource = [],
      RestrictModels = True, ChannelFeatures = [], ChannelGroupIDs = [3],
      ModelPricing = [plain_entry [''GPT-*''] 1, plain_entry [''o1''] 2],
      ModelMapping = [(PlatformOpenAI, [(''fast'', ''gpt-5''), (''old-*'', ''gpt-4'')])],
      ApplyPricingToAccountStats = False, StatsRules = []\<rparr>"

definition demo_platforms :: "int64 \<rightharpoonup> string" where
  "demo_platforms = [3 \<mapsto> PlatformOpenAI]"

lemma demo_trims: "TrimSpace ''GPT-'' = ''GPT-''" "TrimSpace ''gpt-5'' = ''gpt-5''" "TrimSpace ''o1'' = ''o1''"
  by (rule TrimSpace_printable; simp)+

lemma demo_names:
  "normalizeChannelPricingModelName demo_go_env ''GPT-'' = ''gpt-''"
  "normalizeChannelPricingModelName demo_go_env (to_lower demo_go_env ''GPT-5'') = ''gpt-5''"
  "normalizeChannelPricingModelName demo_go_env ''o1'' = ''o1''"
proof -
  have lower: "to_lower demo_go_env ''GPT-5'' = ''gpt-5''" "to_lower demo_go_env ''gpt-5'' = ''gpt-5''"
    "to_lower demo_go_env ''GPT-'' = ''gpt-''" "to_lower demo_go_env ''o1'' = ''o1''"
    by code_simp+
  show "normalizeChannelPricingModelName demo_go_env ''GPT-'' = ''gpt-''"
    "normalizeChannelPricingModelName demo_go_env (to_lower demo_go_env ''GPT-5'') = ''gpt-5''"
    "normalizeChannelPricingModelName demo_go_env ''o1'' = ''o1''"
    by (simp_all add: normalizeChannelPricingModelName_def demo_trims lower)
qed

lemma demo_entries:
  "toPricingModelEntry demo_go_env ''GPT-*'' = \<lparr>entry_prefix = ''gpt-'', wildcard = True\<rparr>"
  "toPricingModelEntry demo_go_env ''o1'' = \<lparr>entry_prefix = ''o1'', wildcard = False\<rparr>"
  by (simp_all add: toPricingModelEntry_def trim_star_def ends_with_star_def demo_names)

lemma demo_patterns: "validateNoConflictingModels demo_go_env (ModelPricing demo_channel) = None"
  by (simp add: validateNoConflictingModels_def platform_entries_def demo_channel_def plain_entry_def demo_entries
      conflictsBetween_def)

lemma demo_member: "demo_channel \<in> set [demo_channel]" "3 \<in> set (ChannelGroupIDs demo_channel)" "sole_channel [demo_channel] 3"
  "ChannelIsActive demo_channel"
  by (simp_all add: demo_channel_def sole_channel_def at_most_one_def memberships_def ChannelIsActive_def)

lemma demo_platform: "platform_of_group demo_platforms 3 = PlatformOpenAI"
  by (simp add: platform_of_group_def demo_platforms_def)

theorem price_from_snapshot_witness:
  "GetChannelModelPricing demo_go_env (populateChannelCache demo_go_env [demo_channel] demo_platforms 0) 3 ''GPT-5'' =
     Some (plain_entry [''GPT-*''] 1) \<and>
   GetEffectiveChannelModelPricing demo_go_env (populateChannelCache demo_go_env [demo_channel] demo_platforms 0) 3 ''GPT-5'' =
     Some (plain_entry [''GPT-*''] 1)"
proof -
  let ?pricing = "rev (ModelPricing demo_channel)"
  have "covering_price demo_go_env ?pricing PlatformOpenAI ''gpt-5'' = Some (plain_entry [''GPT-*''] 1)"
    by (simp add: covering_price_def platform_pairs_def demo_channel_def plain_entry_def demo_entries entry_covers_def)
  moreover have "if_effective (Some (plain_entry [''GPT-*''] 1)) = Some (plain_entry [''GPT-*''] 1)"
    by (simp add: if_effective_def HasEffectivePricing_def plain_entry_def Let_def per_request_mode_def billing_modes)
  ultimately show ?thesis
    using price_from_snapshot [OF demo_member demo_patterns, of ?pricing demo_platforms 0 "''GPT-5''"]
    by (simp add: demo_names demo_platform)
qed

theorem mapping_any_order_witness:
  "ResolveChannelMapping demo_go_env (populateChannelCache demo_go_env [demo_channel] demo_platforms 0) 3 ''Old-5'' =
     \<lparr>MappedModel = ''gpt-4'', MapChannelID = 1, Mapped = True, MapBillingSource = ''channel_mapped''\<rparr>"
proof -
  let ?m = "[(''old-*'', ''gpt-4''), (''fast'', ''gpt-5'')]"
  have valid: "validateNoConflictingMappings demo_go_env (ModelMapping demo_channel) = None" by code_simp
  have star: "lower_keeps_star demo_go_env"
    by (simp add: lower_keeps_star_def demo_go_env_def)
  have m: "mset ?m = mset (mapping_of demo_channel (platform_of_group demo_platforms 3))"
    by (simp add: demo_platform mapping_of_def demo_channel_def)
  have target: "''gpt-4'' = covering_target demo_go_env ?m (to_lower demo_go_env ''Old-5'')" by code_simp
  show ?thesis
    using mapping_any_order [OF demo_member valid star m target, of 0]
    by (simp add: demo_channel_def BillingModelSourceChannelMapped_def)
qed

end
