(* ===== verification/Channel_Store.thy ===== *)
theory Channel_Store
  imports Channel_Cache
begin

text \<open>
  Channels in the database (\<^verbatim>\<open>repository/channel_repo.go\<close> and its files for prices and for the rules of account
  statistics), the service that changes them and rebuilds the snapshot after every change
  (\<^verbatim>\<open>service/channel_service.go\<close>), and the conversion of requests (\<^verbatim>\<open>handler/admin/channel_handler.go\<close>).

  The database is the list of channels as reading returns them, ordered by id, with the unique indexes on names and on
  groups and the foreign key to the groups.  A transaction happens at once or not at all.  Prices are kept exactly and
  identifiers of failed inserts are reused, unlike in the database.  Whether the reads that rebuild the snapshot
  succeed is an argument.  A list given in an update is not the nil slice.
\<close>

section \<open>What reading a stored entry returns\<close>

definition default_to :: "'a list \<Rightarrow> 'a list \<Rightarrow> 'a list" where
  "default_to d s = (if s = [] then d else s)"

definition first_set :: "'a option \<Rightarrow> 'a option \<Rightarrow> 'a option" where
  "first_set a b = (case a of None \<Rightarrow> b | Some x \<Rightarrow> Some x)"

text \<open>\<^verbatim>\<open>createModelPricingExec\<close> followed by \<^verbatim>\<open>scanModelPricingRows\<close> and \<^verbatim>\<open>batchLoadIntervals\<close>.\<close>

definition stored_entry :: "ChannelModelPricing \<Rightarrow> ChannelModelPricing" where
  "stored_entry p =
     (without_empty_times p)
       \<lparr>ChPlatform := default_to PlatformAnthropic (ChPlatform p), ChBillingMode := default_to BillingModeToken (ChBillingMode p),
        ChFastMultiplier := first_set (ChFastMultiplier p) (ChFastModeMultiplier p),
        ChIntervals := sort_key SortOrder (ChIntervals p)\<rparr>"

text \<open>The rules of account statistics: their tables lack some of the columns.\<close>

definition stored_stats_interval :: "PricingInterval \<Rightarrow> PricingInterval" where
  "stored_stats_interval iv =
     iv\<lparr>IvInputMultiplier := None, IvOutputMultiplier := None, IvCacheWriteMultiplier := None, IvCacheReadMultiplier := None\<rparr>"

definition stored_stats_entry :: "ChannelModelPricing \<Rightarrow> ChannelModelPricing" where
  "stored_stats_entry p =
     p\<lparr>ChBillingMode := default_to BillingModeToken (ChBillingMode p), ChFastModeMultiplier := None, ChFastMultiplier := None,
       ChFlexMultiplier := None, ChImageInputPrice := None, ChTimePricing := None,
       ChIntervals := sort_key SortOrder (map stored_stats_interval (ChIntervals p))\<rparr>"

definition stored_rule :: "AccountStatsPricingRule \<Rightarrow> AccountStatsPricingRule" where
  "stored_rule r = r\<lparr>RulePricing := map stored_stats_entry (RulePricing r)\<rparr>"

definition stored_channel :: "int64 \<Rightarrow> Channel \<Rightarrow> Channel" where
  "stored_channel i ch =
     ch\<lparr>ChannelID := i, ChannelGroupIDs := sort (ChannelGroupIDs ch), ModelPricing := map stored_entry (ModelPricing ch),
        StatsRules := sort_key RuleSortOrder (map stored_rule (StatsRules ch))\<rparr>"

section \<open>The repository\<close>

datatype channel_error =
    ErrChannelNotFound | ErrChannelExists | ErrGroupAlreadyInChannel | InvalidConfig config_error
  | InvalidStatsRule config_error | StoreFailed

record channel_db =
  db_channels :: "Channel list"
  next_channel :: int64
  db_groups :: "int64 \<rightharpoonup> string"

definition channel_by_id :: "channel_db \<Rightarrow> int64 \<Rightarrow> Channel option" where
  "channel_by_id db i = find (\<lambda>ch. ChannelID ch = i) (db_channels db)"

definition ExistsByName :: "channel_db \<Rightarrow> string \<Rightarrow> bool" where
  "ExistsByName db name \<longleftrightarrow> list_ex (\<lambda>ch. ChannelName ch = name) (db_channels db)"

definition ExistsByNameExcluding :: "channel_db \<Rightarrow> string \<Rightarrow> int64 \<Rightarrow> bool" where
  "ExistsByNameExcluding db name i \<longleftrightarrow> list_ex (\<lambda>ch. ChannelName ch = name \<and> ChannelID ch \<noteq> i) (db_channels db)"

definition GetGroupsInOtherChannels :: "channel_db \<Rightarrow> int64 \<Rightarrow> int64 list \<Rightarrow> int64 list" where
  "GetGroupsInOtherChannels db i gids =
     map snd (filter (\<lambda>(ch, g). g \<in> set gids \<and> ChannelID ch \<noteq> i) (memberships (db_channels db)))"

text \<open>The group associations of a channel can be written: each group exists, is given once and is in no other channel.\<close>

definition groups_insertable :: "channel_db \<Rightarrow> int64 \<Rightarrow> int64 list \<Rightarrow> bool" where
  "groups_insertable db i gids \<longleftrightarrow>
     distinct gids \<and> list_all (\<lambda>g. db_groups db g \<noteq> None) gids \<and> GetGroupsInOtherChannels db i gids = []"

definition repo_Create :: "channel_db \<Rightarrow> Channel \<Rightarrow> channel_error + channel_db \<times> int64" where
  "repo_Create db ch =
     (if ExistsByName db (ChannelName ch) then Inl ErrChannelExists
      else if \<not> groups_insertable db (next_channel db) (ChannelGroupIDs ch) then Inl StoreFailed
      else Inr (db\<lparr>db_channels := db_channels db @ [stored_channel (next_channel db) ch], next_channel := next_channel db + 1\<rparr>,
                next_channel db))"

definition repo_Update :: "channel_db \<Rightarrow> Channel \<Rightarrow> channel_error + channel_db" where
  "repo_Update db ch =
     (if channel_by_id db (ChannelID ch) = None then Inl ErrChannelNotFound
      else if ExistsByNameExcluding db (ChannelName ch) (ChannelID ch) then Inl ErrChannelExists
      else if \<not> groups_insertable db (ChannelID ch) (ChannelGroupIDs ch) then Inl StoreFailed
      else Inr (db\<lparr>db_channels := map (\<lambda>c. if ChannelID c = ChannelID ch then stored_channel (ChannelID ch) ch else c) (db_channels db)\<rparr>))"

definition repo_Delete :: "channel_db \<Rightarrow> int64 \<Rightarrow> channel_error + channel_db" where
  "repo_Delete db i =
     (if channel_by_id db i = None then Inl ErrChannelNotFound
      else Inr (db\<lparr>db_channels := filter (\<lambda>c. ChannelID c \<noteq> i) (db_channels db)\<rparr>))"

section \<open>The snapshot of the service\<close>

definition channelCacheTTL :: duration where "channelCacheTTL = 10 * minute"
definition channelErrorTTL :: duration where "channelErrorTTL = 5 * second"

record channel_service =
  svc_db :: channel_db
  svc_cache :: "channelCache option"

definition error_cache :: "gtime \<Rightarrow> channelCache" where
  "error_cache now = newEmptyChannelCache\<lparr>loadedAt := now - (channelCacheTTL - channelErrorTTL)\<rparr>"

definition group_ids :: "Channel list \<Rightarrow> int64 list" where
  "group_ids channels = concat (map ChannelGroupIDs channels)"

definition GetGroupPlatforms :: "channel_db \<Rightarrow> int64 list \<Rightarrow> (int64 \<rightharpoonup> string)" where
  "GetGroupPlatforms db gids = (\<lambda>g. if g \<in> set gids then db_groups db g else None)"

definition buildCache :: "'z go_env_scheme \<Rightarrow> gtime \<Rightarrow> bool \<Rightarrow> channel_service \<Rightarrow> channel_service \<times> channelCache option" where
  "buildCache env now reads_ok s =
     (if reads_ok
      then
        let channels = db_channels (svc_db s);
            cache = populateChannelCache env channels (GetGroupPlatforms (svc_db s) (group_ids channels)) now in
        (s\<lparr>svc_cache := Some cache\<rparr>, Some cache)
      else (s\<lparr>svc_cache := Some (error_cache now)\<rparr>, None))"

definition cache_fresh :: "gtime \<Rightarrow> channelCache \<Rightarrow> bool" where
  "cache_fresh now cache \<longleftrightarrow> time_sub now (loadedAt cache) < channelCacheTTL"

text \<open>\<^verbatim>\<open>loadCache\<close>; the third result tells whether the database was read.\<close>

definition loadCache ::
  "'z go_env_scheme \<Rightarrow> gtime \<Rightarrow> bool \<Rightarrow> channel_service \<Rightarrow> channel_service \<times> channelCache option \<times> bool" where
  "loadCache env now reads_ok s =
     (case svc_cache s of
        Some cache \<Rightarrow>
          if cache_fresh now cache then (s, Some cache, False)
          else (case buildCache env now reads_ok s of (s', result) \<Rightarrow> (s', result, True))
      | None \<Rightarrow> (case buildCache env now reads_ok s of (s', result) \<Rightarrow> (s', result, True)))"

definition invalidateCache :: "'z go_env_scheme \<Rightarrow> gtime \<Rightarrow> bool \<Rightarrow> channel_service \<Rightarrow> channel_service" where
  "invalidateCache env now reads_ok s = fst (buildCache env now reads_ok (s\<lparr>svc_cache := None\<rparr>))"

section \<open>Operations of the service\<close>

definition checkGroupConflicts :: "channel_db \<Rightarrow> int64 \<Rightarrow> int64 list \<Rightarrow> channel_error option" where
  "checkGroupConflicts db i gids =
     (if gids = [] then None
      else if GetGroupsInOtherChannels db i gids \<noteq> [] then Some ErrGroupAlreadyInChannel
      else None)"

text \<open>The rules one after the other, with the entries that validation leaves.\<close>

fun validate_rules ::
  "'z go_env_scheme \<Rightarrow> (string \<Rightarrow> Location option) \<Rightarrow> AccountStatsPricingRule list \<Rightarrow> config_error + AccountStatsPricingRule list" where
  "validate_rules env LoadLocation [] = Inr []"
| "validate_rules env LoadLocation (r # rs) =
     (case validateAccountStatsPricingEntries env LoadLocation (RulePricing r) of
        Inl e \<Rightarrow> Inl e
      | Inr pricing \<Rightarrow>
          (case validate_rules env LoadLocation rs of Inl e \<Rightarrow> Inl e | Inr rs' \<Rightarrow> Inr (r\<lparr>RulePricing := pricing\<rparr> # rs')))"

definition validate_channel ::
  "'z go_env_scheme \<Rightarrow> (string \<Rightarrow> Location option) \<Rightarrow> Channel \<Rightarrow> channel_error + Channel" where
  "validate_channel env LoadLocation ch =
     (case validateChannelConfig env LoadLocation (ModelPricing ch) (ModelMapping ch) of
        Inl e \<Rightarrow> Inl (InvalidConfig e)
      | Inr pricing \<Rightarrow>
          (case validate_rules env LoadLocation (StatsRules ch) of
             Inl e \<Rightarrow> Inl (InvalidStatsRule e)
           | Inr rules \<Rightarrow> Inr (ch\<lparr>ModelPricing := pricing, StatsRules := rules\<rparr>)))"

definition channel_result :: "channel_db \<Rightarrow> int64 \<Rightarrow> channel_error + Channel" where
  "channel_result db i = (case channel_by_id db i of None \<Rightarrow> Inl ErrChannelNotFound | Some ch \<Rightarrow> Inr ch)"

text \<open>The input of a creation is a channel whose id, status and empty source are not yet set.\<close>

definition new_channel :: "Channel \<Rightarrow> Channel" where
  "new_channel input =
     input\<lparr>ChannelID := 0, ChannelStatus := StatusActive,
           ChannelBillingSource := default_to BillingModelSourceChannelMapped (ChannelBillingSource input)\<rparr>"

definition Create ::
  "'z go_env_scheme \<Rightarrow> (string \<Rightarrow> Location option) \<Rightarrow> gtime \<Rightarrow> bool \<Rightarrow> Channel \<Rightarrow> channel_service \<Rightarrow>
   channel_service \<times> (channel_error + Channel)" where
  "Create env LoadLocation now reads_ok input s =
     (if ExistsByName (svc_db s) (ChannelName input) then (s, Inl ErrChannelExists)
      else
        case checkGroupConflicts (svc_db s) 0 (ChannelGroupIDs input) of
          Some e \<Rightarrow> (s, Inl e)
        | None \<Rightarrow>
            (case validate_channel env LoadLocation (new_channel input) of
               Inl e \<Rightarrow> (s, Inl e)
             | Inr ch \<Rightarrow>
                 (case repo_Create (svc_db s) ch of
                    Inl e \<Rightarrow> (s, Inl e)
                  | Inr (db, i) \<Rightarrow>
                      let s' = invalidateCache env now reads_ok (s\<lparr>svc_db := db\<rparr>) in (s', channel_result (svc_db s') i))))"

record UpdateChannelInput =
  UName :: string
  UDescription :: "string option"
  UStatus :: string
  UGroupIDs :: "int64 list option"
  UModelPricing :: "ChannelModelPricing list option"
  UModelMapping :: "model_mapping option"
  UBillingSource :: string
  URestrictModels :: "bool option"
  UFeatures :: "string option"
  UApplyPricing :: "bool option"
  URules :: "AccountStatsPricingRule list option"

definition given :: "'a option \<Rightarrow> 'a \<Rightarrow> 'a" where
  "given v old = (case v of None \<Rightarrow> old | Some x \<Rightarrow> x)"

definition applyUpdateInput :: "channel_db \<Rightarrow> Channel \<Rightarrow> UpdateChannelInput \<Rightarrow> channel_error + Channel" where
  "applyUpdateInput db ch u =
     (if UName u \<noteq> [] \<and> UName u \<noteq> ChannelName ch \<and> ExistsByNameExcluding db (UName u) (ChannelID ch) then Inl ErrChannelExists
      else
        case (case UGroupIDs u of None \<Rightarrow> None | Some gids \<Rightarrow> checkGroupConflicts db (ChannelID ch) gids) of
          Some e \<Rightarrow> Inl e
        | None \<Rightarrow>
            Inr (ch\<lparr>ChannelName := default_to (ChannelName ch) (UName u),
                    ChannelDescription := given (UDescription u) (ChannelDescription ch),
                    ChannelStatus := default_to (ChannelStatus ch) (UStatus u),
                    RestrictModels := given (URestrictModels u) (RestrictModels ch),
                    ChannelFeatures := given (UFeatures u) (ChannelFeatures ch),
                    ChannelGroupIDs := given (UGroupIDs u) (ChannelGroupIDs ch),
                    ModelPricing := given (UModelPricing u) (ModelPricing ch),
                    ModelMapping := given (UModelMapping u) (ModelMapping ch),
                    ChannelBillingSource := default_to (ChannelBillingSource ch) (UBillingSource u),
                    ApplyPricingToAccountStats := given (UApplyPricing u) (ApplyPricingToAccountStats ch),
                    StatsRules := given (URules u) (StatsRules ch)\<rparr>))"

definition Update ::
  "'z go_env_scheme \<Rightarrow> (string \<Rightarrow> Location option) \<Rightarrow> gtime \<Rightarrow> bool \<Rightarrow> int64 \<Rightarrow> UpdateChannelInput \<Rightarrow> channel_service \<Rightarrow>
   channel_service \<times> (channel_error + Channel)" where
  "Update env LoadLocation now reads_ok i u s =
     (case channel_by_id (svc_db s) i of
        None \<Rightarrow> (s, Inl ErrChannelNotFound)
      | Some old \<Rightarrow>
          (case applyUpdateInput (svc_db s) old u of
             Inl e \<Rightarrow> (s, Inl e)
           | Inr changed \<Rightarrow>
               (case validate_channel env LoadLocation changed of
                  Inl e \<Rightarrow> (s, Inl e)
                | Inr ch \<Rightarrow>
                    (case repo_Update (svc_db s) ch of
                       Inl e \<Rightarrow> (s, Inl e)
                     | Inr db \<Rightarrow>
                         let s' = invalidateCache env now reads_ok (s\<lparr>svc_db := db\<rparr>) in (s', channel_result (svc_db s') i)))))"

definition Delete :: "'z go_env_scheme \<Rightarrow> gtime \<Rightarrow> bool \<Rightarrow> int64 \<Rightarrow> channel_service \<Rightarrow> channel_service \<times> channel_error option" where
  "Delete env now reads_ok i s =
     (case repo_Delete (svc_db s) i of
        Inl e \<Rightarrow> (s, Some e)
      | Inr db \<Rightarrow> (invalidateCache env now reads_ok (s\<lparr>svc_db := db\<rparr>), None))"

text \<open>A change of a group's platform by the group service, which rebuilds the snapshot when the platform differs.\<close>

definition SetGroupPlatform :: "'z go_env_scheme \<Rightarrow> gtime \<Rightarrow> bool \<Rightarrow> int64 \<Rightarrow> string \<Rightarrow> channel_service \<Rightarrow> channel_service" where
  "SetGroupPlatform env now reads_ok gid platform s =
     (case db_groups (svc_db s) gid of
        None \<Rightarrow> s
      | Some old \<Rightarrow>
          if old = platform then s
          else invalidateCache env now reads_ok
            (s\<lparr>svc_db := (svc_db s)\<lparr>db_groups := (db_groups (svc_db s))(gid \<mapsto> platform)\<rparr>\<rparr>))"

section \<open>Requests\<close>

text \<open>\<^verbatim>\<open>pricingRequestToService\<close>, and for the prices of the channel itself the platform it falls back to.\<close>

definition request_entry :: "ChannelModelPricing \<Rightarrow> ChannelModelPricing" where
  "request_entry p =
     p\<lparr>ChBillingMode := default_to BillingModeToken (ChBillingMode p),
       ChFastMultiplier := first_set (ChFastMultiplier p) (ChFastModeMultiplier p)\<rparr>"

definition request_main_entry :: "ChannelModelPricing \<Rightarrow> ChannelModelPricing" where
  "request_main_entry p =
     (let q = request_entry p in q\<lparr>ChPlatform := default_to PlatformAnthropic (ChPlatform q)\<rparr>)"

datatype request_error = PRICING_RULE_EMPTY_SCOPE | PRICING_RULE_EMPTY_PRICING

fun request_rules :: "int \<Rightarrow> AccountStatsPricingRule list \<Rightarrow> request_error + AccountStatsPricingRule list" where
  "request_rules i [] = Inr []"
| "request_rules i (r # rs) =
     (if RuleGroupIDs r = [] \<and> RuleAccountIDs r = [] then Inl PRICING_RULE_EMPTY_SCOPE
      else if RulePricing r = [] then Inl PRICING_RULE_EMPTY_PRICING
      else
        case request_rules (i + 1) rs of
          Inl e \<Rightarrow> Inl e
        | Inr rs' \<Rightarrow> Inr (r\<lparr>RuleSortOrder := i, RulePricing := map request_entry (RulePricing r)\<rparr> # rs'))"

definition handler_Create ::
  "'z go_env_scheme \<Rightarrow> (string \<Rightarrow> Location option) \<Rightarrow> gtime \<Rightarrow> bool \<Rightarrow> Channel \<Rightarrow> channel_service \<Rightarrow>
   channel_service \<times> (request_error + (channel_error + Channel))" where
  "handler_Create env LoadLocation now reads_ok req s =
     (case request_rules 0 (StatsRules req) of
        Inl e \<Rightarrow> (s, Inl e)
      | Inr rules \<Rightarrow>
          (case Create env LoadLocation now reads_ok
              (req\<lparr>ModelPricing := map request_main_entry (ModelPricing req), StatsRules := rules\<rparr>) s of
             (s', r) \<Rightarrow> (s', Inr r)))"

definition handler_Update ::
  "'z go_env_scheme \<Rightarrow> (string \<Rightarrow> Location option) \<Rightarrow> gtime \<Rightarrow> bool \<Rightarrow> int64 \<Rightarrow> UpdateChannelInput \<Rightarrow> channel_service \<Rightarrow>
   channel_service \<times> (request_error + (channel_error + Channel))" where
  "handler_Update env LoadLocation now reads_ok i req s =
     (case (case URules req of None \<Rightarrow> Inr None | Some rs \<Rightarrow> map_sum id Some (request_rules 0 rs)) of
        Inl e \<Rightarrow> (s, Inl e)
      | Inr rules \<Rightarrow>
          (case Update env LoadLocation now reads_ok i
              (req\<lparr>UModelPricing := map_option (map request_main_entry) (UModelPricing req), URules := rules\<rparr>) s of
             (s', r) \<Rightarrow> (s', Inr r)))"

section \<open>Stored prices are accepted again\<close>

definition entry_ok :: "'z go_env_scheme \<Rightarrow> (string \<Rightarrow> Location option) \<Rightarrow> ChannelModelPricing \<Rightarrow> bool" where
  "entry_ok env LoadLocation p \<longleftrightarrow>
     ValidateIntervals (ChIntervals p) (ChBillingMode p) = None \<and> checkBillingModeRequirements env p = None \<and>
     checkPricesNotNegative p = None \<and> checkIntervalsHavePrices p = None \<and> check_time_pricing env LoadLocation p = None"

lemma entries_accepted:
  "validatePricingEntries env LoadLocation pricing = Inr pricing' \<longleftrightarrow>
     validateNoConflictingModels env pricing = None \<and> list_all (entry_ok env LoadLocation) pricing \<and>
     pricing' = map without_empty_times pricing"
proof -
  have "list_all (entry_ok env LoadLocation) pricing \<longleftrightarrow>
      validatePricingIntervals pricing = None \<and> validatePricingBillingMode env pricing = None \<and>
      first_error (check_time_pricing env LoadLocation) pricing = None"
    by (auto simp: entry_ok_def list_all_iff validatePricingIntervals_def validatePricingBillingMode_def first_error_none)
  then show ?thesis
    by (auto simp: validatePricingEntries_def validatePricingTimePricing_def split: option.splits)
qed

text \<open>An entry as a request gives it: it names its platform, and the multiplier for fast requests is in its own field.\<close>

definition normal_entry :: "ChannelModelPricing \<Rightarrow> bool" where
  "normal_entry p \<longleftrightarrow> ChPlatform p \<noteq> [] \<and> (ChFastMultiplier p = None \<longrightarrow> ChFastModeMultiplier p = None)"

lemma request_main_normal: "normal_entry (request_main_entry p)"
  by (auto simp: normal_entry_def request_main_entry_def request_entry_def Let_def default_to_def first_set_def
      PlatformAnthropic_def split: option.split)

lemma default_mode [simp]:
  "per_request_mode (default_to BillingModeToken m) = per_request_mode m"
  "effective_mode (default_to BillingModeToken m) = effective_mode m"
  by (auto simp: default_to_def per_request_mode_def billing_modes effective_mode_def)

lemma stored_entry_fields:
  assumes "normal_entry p"
  shows "stored_entry p =
    (without_empty_times p)\<lparr>ChBillingMode := default_to BillingModeToken (ChBillingMode p),
       ChIntervals := sort_key SortOrder (ChIntervals p)\<rparr>"
  using assms
  by (cases "ChFastMultiplier p")
    (simp_all add: stored_entry_def normal_entry_def default_to_def first_set_def without_empty_times_def split: option.split)

lemma intervals_any_order:
  assumes "mset ivs' = mset ivs" and "per_request_mode m' = per_request_mode m"
  shows "ValidateIntervals ivs' m' = None \<longleftrightarrow> ValidateIntervals ivs m = None"
proof -
  have "list_all P ivs' = list_all P ivs" for P
    using mset_eq_setD [OF assms(1)] by (simp add: list_all_iff)
  then show ?thesis
    unfolding intervals_accepted mset_filter_length [OF assms(1)] assms(2) by simp
qed

lemma list_ex_sort [simp]: "list_ex P (sort_key f xs) = list_ex P xs"
  by (simp add: list_ex_iff)

lemma sort_key_Nil_iff [simp]: "sort_key f xs = [] \<longleftrightarrow> xs = []"
  by (metis length_0_conv length_sort)

lemma checks_stored:
  assumes "normal_entry p"
  shows "checkBillingModeRequirements env (stored_entry p) = checkBillingModeRequirements env p"
    and "checkPricesNotNegative (stored_entry p) = checkPricesNotNegative p"
    and "checkIntervalsHavePrices (stored_entry p) = checkIntervalsHavePrices p"
    and "check_time_pricing env LoadLocation (stored_entry p) = check_time_pricing env LoadLocation (without_empty_times p)"
  unfolding stored_entry_fields [OF assms]
  by (simp_all add: checkBillingModeRequirements_def hasExplicitPricingPrice_def checkPricesNotNegative_def
      checkIntervalsHavePrices_def check_time_pricing_def split: option.split)

lemma entry_ok_stored:
  assumes "normal_entry p" and "entry_ok env LoadLocation p"
  shows "entry_ok env LoadLocation (stored_entry p)"
proof -
  have time: "check_time_pricing env LoadLocation (without_empty_times p) = None"
    using assms(2) by (auto simp: entry_ok_def check_time_pricing_def without_empty_times_def split: option.split)
  have "ValidateIntervals (sort_key SortOrder (ChIntervals p)) (default_to BillingModeToken (ChBillingMode p)) = None"
    using assms(2) by (subst intervals_any_order [of _ "ChIntervals p" _ "ChBillingMode p"]) (simp_all add: entry_ok_def)
  then have "ValidateIntervals (ChIntervals (stored_entry p)) (ChBillingMode (stored_entry p)) = None"
    by (simp add: stored_entry_def)
  then show ?thesis
    using assms(2) time by (simp add: entry_ok_def checks_stored [OF assms(1)])
qed

lemma sort_key_sorted [simp]: "sort_key f (sort_key f xs) = sort_key f xs"
  by (simp add: sort_key_id_if_sorted)

lemma stored_entry_simps [simp]:
  "ChModels (stored_entry p) = ChModels p" "normal_entry p \<Longrightarrow> ChPlatform (stored_entry p) = ChPlatform p"
  by (simp_all add: stored_entry_def normal_entry_def default_to_def)

lemma without_empty_times_only:
  "without_empty_times p = (if (case ChTimePricing p of Some c \<Rightarrow> Periods c = [] | None \<Rightarrow> False) then p\<lparr>ChTimePricing := None\<rparr> else p)"
  by (simp add: without_empty_times_def split: option.split)

lemma stored_entry_fixed:
  assumes "normal_entry p"
  shows "normal_entry (stored_entry p)" and "without_empty_times (stored_entry p) = stored_entry p"
    and "stored_entry (stored_entry p) = stored_entry p" and "stored_entry (without_empty_times p) = stored_entry p"
proof -
  show "normal_entry (stored_entry p)"
    using assms unfolding stored_entry_fields [OF assms] by (simp add: normal_entry_def)
  show "without_empty_times (stored_entry p) = stored_entry p"
    unfolding stored_entry_fields [OF assms] by (auto simp: without_empty_times_only split: option.splits)
  then show "stored_entry (stored_entry p) = stored_entry p"
    using assms unfolding stored_entry_def [of "stored_entry p"]
    by (auto simp: stored_entry_def default_to_def first_set_def BillingModeToken_def PlatformAnthropic_def split: option.split)
  show "stored_entry (without_empty_times p) = stored_entry p"
    by (simp add: stored_entry_def)
qed

lemma stored_entries_accepted:
  assumes "list_all normal_entry pricing" and "validatePricingEntries env LoadLocation pricing = Inr pricing'"
  shows "validatePricingEntries env LoadLocation (map stored_entry pricing') = Inr (map stored_entry pricing')"
    and "list_all normal_entry (map stored_entry pricing')"
proof -
  have ok: "validateNoConflictingModels env pricing = None" "list_all (entry_ok env LoadLocation) pricing"
    and pricing': "map stored_entry pricing' = map stored_entry pricing"
    using assms by (auto simp: entries_accepted list_all_iff stored_entry_fixed(4))
  have "platform_entries env (map stored_entry pricing) platform = platform_entries env pricing platform" for platform
    using assms(1) by (induction pricing) (simp_all add: platform_entries_def)
  then have "validateNoConflictingModels env (map stored_entry pricing) = None"
    using ok(1) by (simp add: model_patterns_accepted)
  moreover have "list_all (entry_ok env LoadLocation) (map stored_entry pricing)"
    using ok(2) assms(1) by (simp add: list_all_iff entry_ok_stored)
  moreover have "map without_empty_times (map stored_entry pricing) = map stored_entry pricing"
    using assms(1) by (simp add: list_all_iff stored_entry_fixed(2))
  ultimately show "validatePricingEntries env LoadLocation (map stored_entry pricing') = Inr (map stored_entry pricing')"
    unfolding pricing' entries_accepted by simp
  show "list_all normal_entry (map stored_entry pricing')"
    unfolding pricing' using assms(1) by (simp add: list_all_iff stored_entry_fixed(1))
qed

section \<open>The invariant of the stored channels\<close>

definition channel_ok :: "'z go_env_scheme \<Rightarrow> (string \<Rightarrow> Location option) \<Rightarrow> Channel \<Rightarrow> bool" where
  "channel_ok env LoadLocation ch \<longleftrightarrow>
     list_all normal_entry (ModelPricing ch) \<and>
     validatePricingEntries env LoadLocation (ModelPricing ch) = Inr (ModelPricing ch) \<and>
     validateNoConflictingMappings env (ModelMapping ch) = None"

definition channels_ok :: "'z go_env_scheme \<Rightarrow> (string \<Rightarrow> Location option) \<Rightarrow> channel_db \<Rightarrow> bool" where
  "channels_ok env LoadLocation db \<longleftrightarrow>
     distinct (map ChannelName (db_channels db)) \<and> distinct (map ChannelID (db_channels db)) \<and>
     list_all (\<lambda>ch. ChannelID ch < next_channel db) (db_channels db) \<and>
     distinct (group_ids (db_channels db)) \<and> list_all (\<lambda>g. db_groups db g \<noteq> None) (group_ids (db_channels db)) \<and>
     list_all (channel_ok env LoadLocation) (db_channels db)"

lemma validate_channel_fields:
  assumes "validate_channel env LoadLocation ch = Inr ch'"
  shows "ChannelName ch' = ChannelName ch" "ChannelID ch' = ChannelID ch" "ChannelGroupIDs ch' = ChannelGroupIDs ch"
    "ModelMapping ch' = ModelMapping ch"
  using assms by (auto simp: validate_channel_def split: sum.splits)

lemma validate_channel_ok:
  assumes "validate_channel env LoadLocation ch = Inr ch'" and "list_all normal_entry (ModelPricing ch)"
  shows "channel_ok env LoadLocation (stored_channel i ch')"
proof -
  have entries: "validatePricingEntries env LoadLocation (ModelPricing ch) = Inr (ModelPricing ch')"
    and "validateNoConflictingMappings env (ModelMapping ch') = None"
    using assms(1) by (auto simp: validate_channel_def validateChannelConfig_def split: sum.splits option.splits)
  then show ?thesis
    using stored_entries_accepted [OF assms(2) entries] by (simp add: channel_ok_def stored_channel_def)
qed

lemma group_ids_simps [simp]:
  "group_ids [] = []" "group_ids (ch # chs) = ChannelGroupIDs ch @ group_ids chs" "group_ids (xs @ ys) = group_ids xs @ group_ids ys"
  by (simp_all add: group_ids_def)

lemma set_group_ids: "g \<in> set (group_ids chs) \<longleftrightarrow> (\<exists>ch\<in>set chs. g \<in> set (ChannelGroupIDs ch))"
  by (auto simp: group_ids_def)

lemma no_other_groups:
  "GetGroupsInOtherChannels db i gids = [] \<longleftrightarrow>
     (\<forall>ch\<in>set (db_channels db). ChannelID ch \<noteq> i \<longrightarrow> (\<forall>g\<in>set (ChannelGroupIDs ch). g \<notin> set gids))"
  by (auto simp: GetGroupsInOtherChannels_def memberships_def filter_empty_conv)

lemma stored_channel_simps [simp]:
  "ChannelName (stored_channel i ch) = ChannelName ch" "ChannelID (stored_channel i ch) = i"
  "set (ChannelGroupIDs (stored_channel i ch)) = set (ChannelGroupIDs ch)"
  "distinct (ChannelGroupIDs (stored_channel i ch)) = distinct (ChannelGroupIDs ch)"
  by (simp_all add: stored_channel_def)

lemma repo_Create_ok:
  assumes "channels_ok env LoadLocation db" and "repo_Create db ch = Inr (db', i)"
    and "\<And>i. channel_ok env LoadLocation (stored_channel i ch)"
  shows "channels_ok env LoadLocation db'"
proof -
  have db': "db' = db\<lparr>db_channels := db_channels db @ [stored_channel (next_channel db) ch], next_channel := next_channel db + 1\<rparr>"
    and name: "\<not> ExistsByName db (ChannelName ch)" and groups: "groups_insertable db (next_channel db) (ChannelGroupIDs ch)"
    using assms(2) by (auto simp: repo_Create_def split: if_splits)
  have old: "\<forall>c\<in>set (db_channels db). ChannelID c < next_channel db \<and> ChannelID c \<noteq> next_channel db"
    using assms(1) by (auto simp: channels_ok_def list_all_iff)
  then have "\<forall>c\<in>set (db_channels db). \<forall>g\<in>set (ChannelGroupIDs c). g \<notin> set (ChannelGroupIDs ch)"
    using groups by (simp add: groups_insertable_def no_other_groups)
  then have "set (group_ids (db_channels db)) \<inter> set (ChannelGroupIDs ch) = {}"
    by (auto simp: set_group_ids)
  moreover have "next_channel db \<notin> ChannelID ` set (db_channels db)"
    using old by auto
  moreover have "ChannelName ch \<notin> ChannelName ` set (db_channels db)"
    using name by (auto simp: ExistsByName_def list_ex_iff)
  ultimately show ?thesis
    using assms(1,3) groups unfolding db'
    by (simp add: channels_ok_def groups_insertable_def list_all_iff) (use old in fastforce)
qed

text \<open>Replacing a channel.\<close>

lemma replace_absent: "i \<notin> ChannelID ` set chs \<Longrightarrow> map (\<lambda>c. if ChannelID c = i then new else c) chs = chs"
  by (induction chs) auto

lemma replace_distinct:
  assumes "distinct (map ChannelID chs)" and "ChannelID new = i"
  shows "distinct (map f chs) \<Longrightarrow> (\<forall>c\<in>set chs. ChannelID c \<noteq> i \<longrightarrow> f c \<noteq> f new) \<Longrightarrow>
      distinct (map f (map (\<lambda>c. if ChannelID c = i then new else c) chs))"
    and "distinct (group_ids chs) \<Longrightarrow> distinct (ChannelGroupIDs new) \<Longrightarrow>
      (\<forall>c\<in>set chs. ChannelID c \<noteq> i \<longrightarrow> (\<forall>g\<in>set (ChannelGroupIDs c). g \<notin> set (ChannelGroupIDs new))) \<Longrightarrow>
      distinct (group_ids (map (\<lambda>c. if ChannelID c = i then new else c) chs))"
  using assms
proof (induction chs)
  case (Cons c chs)
  {
    case 1
    show ?case
    proof (cases "ChannelID c = i")
      case True
      then have absent: "i \<notin> ChannelID ` set chs"
        using 1 by simp
      note replace_absent [OF this]
      moreover have "\<forall>c\<in>set chs. ChannelID c \<noteq> i"
        using absent by blast
      ultimately show ?thesis
        using 1 True by force
    next
      case False
      have "f c \<noteq> f (if ChannelID b = i then new else b)" if "b \<in> set chs" for b
        using 1 False that by auto
      then have "f c \<notin> set (map f (map (\<lambda>c. if ChannelID c = i then new else c) chs))"
        by auto
      then show ?thesis
        using 1 False Cons.IH(1) by (simp del: map_map list.set_map)
    qed
  next
    case 2
    show ?case
    proof (cases "ChannelID c = i")
      case True
      then have out: "i \<notin> ChannelID ` set chs"
        using 2 by simp
      then have absent: "\<forall>c\<in>set chs. ChannelID c \<noteq> i"
        by blast
      have "map (\<lambda>c. if ChannelID c = i then new else c) chs = chs"
        by (rule replace_absent [OF out])
      moreover have "set (ChannelGroupIDs new) \<inter> set (group_ids chs) = {}"
        using 2 True absent by (auto simp: set_group_ids disjoint_iff)
      ultimately show ?thesis
        using 2 True by simp
    next
      case False
      have "set (group_ids (map (\<lambda>c. if ChannelID c = i then new else c) chs)) \<subseteq> set (group_ids chs) \<union> set (ChannelGroupIDs new)"
        by (auto simp: set_group_ids split: if_splits)
      then show ?thesis
        using 2 False Cons.IH(2) by (auto simp: disjoint_iff)
    qed
  }
qed simp_all

lemma repo_Update_ok:
  assumes "channels_ok env LoadLocation db" and "repo_Update db ch = Inr db'"
    and "channel_ok env LoadLocation (stored_channel (ChannelID ch) ch)"
  shows "channels_ok env LoadLocation db'"
proof -
  let ?new = "stored_channel (ChannelID ch) ch" and ?chs = "db_channels db"
  let ?r = "map (\<lambda>c. if ChannelID c = ChannelID ch then ?new else c) ?chs"
  have db': "db' = db\<lparr>db_channels := ?r\<rparr>" and found: "channel_by_id db (ChannelID ch) \<noteq> None"
    and name: "\<not> ExistsByNameExcluding db (ChannelName ch) (ChannelID ch)"
    and groups: "groups_insertable db (ChannelID ch) (ChannelGroupIDs ch)"
    using assms(2) by (auto simp: repo_Update_def split: if_splits)
  have ids: "distinct (map ChannelID ?chs)"
    using assms(1) by (simp add: channels_ok_def)
  have same_ids: "map ChannelID ?r = map ChannelID ?chs"
    by simp
  have "distinct (map ChannelName ?r)"
    using assms(1) name by (intro replace_distinct(1) [OF ids]) (auto simp: channels_ok_def ExistsByNameExcluding_def list_ex_iff)
  moreover have "distinct (group_ids ?r)"
    using assms(1) groups by (intro replace_distinct(2) [OF ids]) (auto simp: channels_ok_def groups_insertable_def no_other_groups)
  moreover have "list_all (\<lambda>g. db_groups db g \<noteq> None) (group_ids ?r)"
    unfolding list_all_iff
  proof
    fix g
    assume "g \<in> set (group_ids ?r)"
    then consider "g \<in> set (group_ids ?chs)" | "g \<in> set (ChannelGroupIDs ch)"
      by (auto simp: set_group_ids split: if_splits)
    then show "db_groups db g \<noteq> None"
      using assms(1) groups by cases (simp_all add: channels_ok_def groups_insertable_def list_all_iff)
  qed
  moreover have "list_all (\<lambda>c. ChannelID c < next_channel db) ?r"
    using assms(1) by (auto simp: channels_ok_def list_all_iff)
  moreover have "list_all (channel_ok env LoadLocation) ?r"
    using assms(1,3) by (auto simp: channels_ok_def list_all_iff)
  ultimately show ?thesis
    using ids same_ids unfolding db' channels_ok_def by (simp del: map_map)
qed

lemma repo_Delete_ok:
  assumes "channels_ok env LoadLocation db" and "repo_Delete db i = Inr db'"
  shows "channels_ok env LoadLocation db'"
proof -
  have db': "db' = db\<lparr>db_channels := filter (\<lambda>c. ChannelID c \<noteq> i) (db_channels db)\<rparr>"
    using assms(2) by (auto simp: repo_Delete_def split: if_splits)
  have kept: "set (group_ids (filter P chs)) \<subseteq> set (group_ids chs)" for P chs
    by (auto simp: set_group_ids)
  have groups: "distinct (group_ids chs) \<Longrightarrow> distinct (group_ids (filter P chs))" for P chs
    by (induction chs) (auto simp: disjoint_iff set_group_ids)
  show ?thesis
    using assms(1) unfolding db' channels_ok_def
    by (simp add: groups distinct_map_filter list_all_iff) (use kept in blast)
qed

section \<open>Reachable states\<close>

definition current_snapshot :: "'z go_env_scheme \<Rightarrow> channel_db \<Rightarrow> gtime \<Rightarrow> channelCache" where
  "current_snapshot env db t = populateChannelCache env (db_channels db) (GetGroupPlatforms db (group_ids (db_channels db))) t"

definition coherent :: "'z go_env_scheme \<Rightarrow> channel_service \<Rightarrow> bool" where
  "coherent env s \<longleftrightarrow>
     (case svc_cache s of
        None \<Rightarrow> True
      | Some c \<Rightarrow> (\<exists>t. c = error_cache t) \<or> (\<exists>t. c = current_snapshot env (svc_db s) t))"

definition service_ok :: "'z go_env_scheme \<Rightarrow> (string \<Rightarrow> Location option) \<Rightarrow> channel_service \<Rightarrow> bool" where
  "service_ok env LoadLocation s \<longleftrightarrow> channels_ok env LoadLocation (svc_db s) \<and> coherent env s"

inductive channel_step :: "go_env \<Rightarrow> (string \<Rightarrow> Location option) \<Rightarrow> channel_service \<Rightarrow> channel_service \<Rightarrow> bool"
  for env LoadLocation where
  create: "channel_step env LoadLocation s (fst (handler_Create env LoadLocation now reads_ok req s))"
| update: "channel_step env LoadLocation s (fst (handler_Update env LoadLocation now reads_ok i u s))"
| delete: "channel_step env LoadLocation s (fst (Delete env now reads_ok i s))"
| platform: "channel_step env LoadLocation s (SetGroupPlatform env now reads_ok gid p s)"
| new_group: "db_groups (svc_db s) gid = None \<Longrightarrow>
    channel_step env LoadLocation s (s\<lparr>svc_db := (svc_db s)\<lparr>db_groups := (db_groups (svc_db s))(gid \<mapsto> p)\<rparr>\<rparr>)"
| load: "channel_step env LoadLocation s (fst (loadCache env now reads_ok s))"

definition no_channels :: channel_service where
  "no_channels = \<lparr>svc_db = \<lparr>db_channels = [], next_channel = 1, db_groups = Map.empty\<rparr>, svc_cache = None\<rparr>"

inductive channel_reachable :: "go_env \<Rightarrow> (string \<Rightarrow> Location option) \<Rightarrow> channel_service \<Rightarrow> bool"
  for env LoadLocation where
  start: "channel_reachable env LoadLocation no_channels"
| step: "channel_reachable env LoadLocation s \<Longrightarrow> channel_step env LoadLocation s s' \<Longrightarrow> channel_reachable env LoadLocation s'"

lemma buildCache_facts:
  "svc_db (fst (buildCache env now reads_ok s)) = svc_db s" "coherent env (fst (buildCache env now reads_ok s))"
  by (auto simp: buildCache_def coherent_def current_snapshot_def Let_def)

lemma invalidateCache_facts [simp]:
  "svc_db (invalidateCache env now reads_ok s) = svc_db s" "coherent env (invalidateCache env now reads_ok s)"
  by (simp_all add: invalidateCache_def buildCache_facts)

lemma Create_keeps:
  assumes "service_ok env LoadLocation s" and "list_all normal_entry (ModelPricing input)"
  shows "service_ok env LoadLocation (fst (Create env LoadLocation now reads_ok input s))"
proof -
  have "channels_ok env LoadLocation db"
    if "validate_channel env LoadLocation (new_channel input) = Inr ch" "repo_Create (svc_db s) ch = Inr (db, i)" for ch db i
    using assms that
    by (intro repo_Create_ok [OF _ that(2)] validate_channel_ok [OF that(1)]) (simp_all add: service_ok_def new_channel_def)
  then show ?thesis
    using assms(1) by (auto simp: Create_def service_ok_def Let_def split: option.split sum.split)
qed

lemma applyUpdateInput_fields:
  assumes "applyUpdateInput db ch u = Inr ch'"
  shows "ChannelID ch' = ChannelID ch" "ModelPricing ch' = given (UModelPricing u) (ModelPricing ch)"
  using assms by (auto simp: applyUpdateInput_def split: if_splits option.splits)

lemma Update_keeps:
  assumes "service_ok env LoadLocation s" and "\<And>ps. UModelPricing u = Some ps \<Longrightarrow> list_all normal_entry ps"
  shows "service_ok env LoadLocation (fst (Update env LoadLocation now reads_ok i u s))"
proof -
  have "channels_ok env LoadLocation db"
    if "channel_by_id (svc_db s) i = Some old" "applyUpdateInput (svc_db s) old u = Inr changed"
      "validate_channel env LoadLocation changed = Inr ch" "repo_Update (svc_db s) ch = Inr db" for old changed ch db
  proof -
    have "channel_ok env LoadLocation old"
      using assms(1) that(1) by (auto simp: service_ok_def channels_ok_def list_all_iff channel_by_id_def find_Some_iff)
    then have "list_all normal_entry (ModelPricing changed)"
      using assms(2) applyUpdateInput_fields(2) [OF that(2)]
      by (cases "UModelPricing u") (auto simp: channel_ok_def given_def)
    then have "channel_ok env LoadLocation (stored_channel (ChannelID ch) ch)"
      by (rule validate_channel_ok [OF that(3)])
    then show ?thesis
      using assms(1) that(4) by (auto simp: service_ok_def intro: repo_Update_ok)
  qed
  then show ?thesis
    using assms(1) by (auto simp: Update_def service_ok_def Let_def split: option.split sum.split)
qed

lemma new_group_keeps:
  assumes "service_ok env LoadLocation s" and "db_groups (svc_db s) gid = None"
  shows "service_ok env LoadLocation (s\<lparr>svc_db := (svc_db s)\<lparr>db_groups := (db_groups (svc_db s))(gid \<mapsto> p)\<rparr>\<rparr>)"
proof -
  have fresh: "gid \<notin> set (group_ids (db_channels (svc_db s)))"
    using assms by (auto simp: service_ok_def channels_ok_def list_all_iff)
  then have "GetGroupPlatforms ((svc_db s)\<lparr>db_groups := (db_groups (svc_db s))(gid \<mapsto> p)\<rparr>) (group_ids (db_channels (svc_db s))) =
      GetGroupPlatforms (svc_db s) (group_ids (db_channels (svc_db s)))"
    by (auto simp: GetGroupPlatforms_def fun_eq_iff)
  then show ?thesis
    using assms(1) by (auto simp: service_ok_def channels_ok_def coherent_def current_snapshot_def list_all_iff split: option.split)
qed

lemma handler_Create_state:
  "fst (handler_Create env LoadLocation now reads_ok req s) =
     (case request_rules 0 (StatsRules req) of
        Inl e \<Rightarrow> s
      | Inr rules \<Rightarrow> fst (Create env LoadLocation now reads_ok
          (req\<lparr>ModelPricing := map request_main_entry (ModelPricing req), StatsRules := rules\<rparr>) s))"
  by (simp add: handler_Create_def split: sum.split prod.split)

lemma handler_Update_state:
  "fst (handler_Update env LoadLocation now reads_ok i u s) =
     (case (case URules u of None \<Rightarrow> Inr None | Some rs \<Rightarrow> map_sum id Some (request_rules 0 rs)) of
        Inl e \<Rightarrow> s
      | Inr rules \<Rightarrow> fst (Update env LoadLocation now reads_ok i
          (u\<lparr>UModelPricing := map_option (map request_main_entry) (UModelPricing u), URules := rules\<rparr>) s))"
  by (simp add: handler_Update_def split: sum.split prod.split)

lemma step_keeps:
  assumes "channel_step env LoadLocation s s'" and "service_ok env LoadLocation s"
  shows "service_ok env LoadLocation s'"
  using assms
proof (induction rule: channel_step.induct)
  case (create s now reads_ok req)
  then show ?case
    unfolding handler_Create_state
    by (auto intro!: Create_keeps simp: list_all_iff request_main_normal split: sum.split)
next
  case (update s now reads_ok i u)
  then show ?case
    unfolding handler_Update_state
    by (auto intro!: Update_keeps simp: list_all_iff request_main_normal split: sum.split)
next
  case (delete s now reads_ok i)
  then show ?case
    using repo_Delete_ok [of env LoadLocation "svc_db s" i] by (auto simp: Delete_def service_ok_def split: sum.split)
next
  case (platform s now reads_ok gid p)
  then show ?case
    by (auto simp: SetGroupPlatform_def service_ok_def channels_ok_def list_all_iff split: option.split)
next
  case (new_group s gid p)
  then show ?case by (intro new_group_keeps)
next
  case (load s now reads_ok)
  then show ?case
    using buildCache_facts [of env now reads_ok s]
    by (auto simp: loadCache_def service_ok_def split: option.split prod.split)
qed

lemma reachable_ok: "channel_reachable env LoadLocation s \<Longrightarrow> service_ok env LoadLocation s"
proof (induction rule: channel_reachable.induct)
  case start
  show ?case
    by (simp add: service_ok_def channels_ok_def coherent_def no_channels_def)
next
  case (step s s')
  then show ?case by (blast intro: step_keeps)
qed

text \<open>
  C11. In every reachable state the names of the channels are distinct, no group belongs to two channels, and the
  configuration of every stored channel passes the validation again without a change, whatever requests created and
  changed the channels and whichever reads failed.
\<close>

theorem stored_channels_valid:
  assumes "channel_reachable env LoadLocation s"
  shows "distinct (map ChannelName (db_channels (svc_db s))) \<and> distinct (group_ids (db_channels (svc_db s))) \<and>
    list_all (\<lambda>ch. validateChannelConfig env LoadLocation (ModelPricing ch) (ModelMapping ch) = Inr (ModelPricing ch))
      (db_channels (svc_db s))"
  using reachable_ok [OF assms]
  by (auto simp: service_ok_def channels_ok_def list_all_iff channel_ok_def validateChannelConfig_def)

section \<open>The snapshot follows the database\<close>

text \<open>The price of a model for a group, read from the stored channels.\<close>

definition current_price :: "'z go_env_scheme \<Rightarrow> channel_db \<Rightarrow> int64 \<Rightarrow> string \<Rightarrow> ChannelModelPricing option" where
  "current_price env db gid model =
     (case find (\<lambda>ch. gid \<in> set (ChannelGroupIDs ch)) (db_channels db) of
        None \<Rightarrow> None
      | Some ch \<Rightarrow>
          if ChannelIsActive ch
          then covering_price env (ModelPricing ch) (platform_of_group (db_groups db) gid)
            (normalizeChannelPricingModelName env (to_lower env model))
          else None)"

lemma memberships_group_ids: "map snd (memberships chs) = group_ids chs"
  by (induction chs) (simp_all add: memberships_def group_ids_def comp_def)

lemma distinct_at_most_one: "distinct (map f xs) \<Longrightarrow> at_most_one (\<lambda>x. y = f x) xs"
  by (induction xs) (auto simp: at_most_one_Cons list_ex_iff, simp add: at_most_one_def)

lemma sole_channel_distinct: "distinct (group_ids chs) \<Longrightarrow> sole_channel chs gid"
  using distinct_at_most_one [of snd "memberships chs" gid]
  by (simp add: sole_channel_def memberships_group_ids case_prod_beta')

lemma snapshot_price:
  assumes "channels_ok env LoadLocation db"
  shows "GetChannelModelPricing env (current_snapshot env db t) gid model = current_price env db gid model"
proof -
  let ?chs = "db_channels db" and ?platforms = "GetGroupPlatforms db (group_ids (db_channels db))"
  have sole: "sole_channel ?chs gid"
    using assms by (intro sole_channel_distinct) (simp add: channels_ok_def)
  show ?thesis
  proof (cases "find (\<lambda>ch. gid \<in> set (ChannelGroupIDs ch)) ?chs")
    case None
    then have "view_of gid (current_snapshot env db t) = empty_view"
      unfolding current_snapshot_def by (intro view_populate(2) [OF sole]) (auto simp: find_None_iff)
    then have "channelByGroupID (current_snapshot env db t) gid = None"
      by (simp add: view_of_def empty_view_def)
    then show ?thesis
      using None by (simp add: GetChannelModelPricing_def lookupGroupChannel_def current_price_def)
  next
    case (Some ch)
    then have ch: "ch \<in> set ?chs" "gid \<in> set (ChannelGroupIDs ch)"
      by (auto simp: find_Some_iff)
    then have platform: "platform_of_group ?platforms gid = platform_of_group (db_groups db) gid"
      by (auto simp: platform_of_group_def GetGroupPlatforms_def set_group_ids)
    have valid: "validateNoConflictingModels env (ModelPricing ch) = None"
      using assms ch(1) by (auto simp: channels_ok_def list_all_iff channel_ok_def entries_accepted)
    show ?thesis
    proof (cases "ChannelIsActive ch")
      case True
      then show ?thesis
        using price_from_snapshot [OF ch sole True valid refl, of ?platforms t] Some
        by (simp add: current_price_def platform current_snapshot_def)
    next
      case False
      have "channelByGroupID (current_snapshot env db t) gid = Some ch"
        using view_populate(1) [OF sole ch, of env ?platforms t]
        by (simp add: view_of_def add_view_def Let_def current_snapshot_def)
      then show ?thesis
        using False Some by (simp add: GetChannelModelPricing_def lookupGroupChannel_def current_price_def)
    qed
  qed
qed

lemma loadCache_coherent:
  assumes "coherent env s" and "loadCache env now reads_ok s = (s', Some c, db_read)"
  shows "svc_db s' = svc_db s" and "(\<exists>t. c = error_cache t) \<or> (\<exists>t. c = current_snapshot env (svc_db s) t)"
proof -
  show "svc_db s' = svc_db s"
    using assms(2) buildCache_facts(1) [of env now reads_ok s]
    by (auto simp: loadCache_def split: option.splits prod.splits if_splits)
  show "(\<exists>t. c = error_cache t) \<or> (\<exists>t. c = current_snapshot env (svc_db s) t)"
  proof (cases "svc_cache s")
    case None
    then show ?thesis
      using assms(2) by (auto simp: loadCache_def buildCache_def current_snapshot_def Let_def split: if_splits)
  next
    case (Some old)
    then show ?thesis
      using assms by (auto simp: loadCache_def buildCache_def current_snapshot_def coherent_def Let_def split: if_splits)
  qed
qed


text \<open>
  After a failed read the database is left alone for five seconds: a load in that time finds no channel and reads
  nothing, the first load after it reads again.
\<close>

theorem failed_read_backs_off:
  assumes "buildCache env t False s = (s', r)" and "t \<le> now" and "now - t < max_duration - channelCacheTTL"
  shows "if now - t < channelErrorTTL
    then loadCache env now reads_ok s' = (s', Some (error_cache t), False) \<and>
      (\<forall>gid model. GetChannelModelPricing env (error_cache t) gid model = None \<and>
         ResolveChannelMapping env (error_cache t) gid model = unmapped model)
    else snd (snd (loadCache env now reads_ok s'))"
proof -
  have s': "svc_cache s' = Some (error_cache t)"
    using assms(1) by (auto simp: buildCache_def)
  have "time_sub now (loadedAt (error_cache t)) = now - t + (channelCacheTTL - channelErrorTTL)"
    using assms(2,3) unfolding error_cache_def
    by (subst time_sub_in_range) (simp_all add: channelCacheTTL_def channelErrorTTL_def min_duration_def go_defs)
  then have "cache_fresh now (error_cache t) \<longleftrightarrow> now - t < channelErrorTTL"
    unfolding cache_fresh_def by linarith
  then show ?thesis
    using s' by (auto simp: loadCache_def GetChannelModelPricing_def ResolveChannelMapping_def lookupGroupChannel_def
        error_cache_def newEmptyChannelCache_def split: prod.split)
qed

section \<open>Rules that storing makes invalid\<close>

text \<open>
  The tables of the rules have no columns for the multipliers of an interval.  A rule with an interval that has
  multipliers only is accepted, and what reading it returns is not.
\<close>

definition priceless :: "PricingInterval \<Rightarrow> bool" where
  "priceless iv \<longleftrightarrow>
     IvInputPrice iv = None \<and> IvOutputPrice iv = None \<and> IvCacheWritePrice iv = None \<and> IvCacheWrite1hPrice iv = None \<and>
     IvCacheReadPrice iv = None \<and> IvPerRequestPrice iv = None"

lemma priceless_stored: "priceless iv \<Longrightarrow> \<not> has_token_price (stored_stats_interval iv) \<and> IvPerRequestPrice (stored_stats_interval iv) = None"
  by (simp add: priceless_def stored_stats_interval_def has_token_price_def)

lemma validate_rules_entries:
  "validate_rules env LoadLocation rules = Inr rules' \<Longrightarrow> r \<in> set rules \<Longrightarrow> p \<in> set (RulePricing r) \<Longrightarrow>
     checkIntervalsHavePrices p = None"
proof (induction rules arbitrary: rules')
  case (Cons r' rules)
  then obtain pricing rules'' where here: "validateAccountStatsPricingEntries env LoadLocation (RulePricing r') = Inr pricing"
    and rest: "validate_rules env LoadLocation rules = Inr rules''"
    by (auto split: sum.splits)
  show ?case
  proof (cases "r = r'")
    case True
    have "list_all (entry_ok env LoadLocation) (RulePricing r')"
      using here by (auto simp: validateAccountStatsPricingEntries_def entries_accepted split: option.splits)
    then show ?thesis
      using True Cons.prems(3) by (auto simp: list_all_iff entry_ok_def)
  next
    case False
    then show ?thesis
      using Cons.IH [OF rest] Cons.prems by auto
  qed
qed simp

lemma validate_rules_intervals:
  "validate_rules env LoadLocation rules = Inr rules' \<Longrightarrow> r \<in> set rules \<Longrightarrow> p \<in> set (RulePricing r) \<Longrightarrow>
     \<exists>r'\<in>set rules'. \<exists>p'\<in>set (RulePricing r'). ChIntervals p' = ChIntervals p"
proof (induction rules arbitrary: rules')
  case (Cons r' rules)
  then obtain pricing rules'' where here: "validateAccountStatsPricingEntries env LoadLocation (RulePricing r') = Inr pricing"
    and rest: "validate_rules env LoadLocation rules = Inr rules''" and rules': "rules' = r'\<lparr>RulePricing := pricing\<rparr> # rules''"
    by (auto split: sum.splits)
  have pricing: "pricing = map without_empty_times (RulePricing r')"
    using here by (auto simp: validateAccountStatsPricingEntries_def entries_accepted split: option.splits)
  show ?case
  proof (cases "r = r'")
    case True
    then have "without_empty_times p \<in> set pricing"
      using Cons.prems(3) by (simp add: pricing)
    then show ?thesis
      using rules' by (intro bexI [of _ "r'\<lparr>RulePricing := pricing\<rparr>"] bexI [of _ "without_empty_times p"]) simp_all
  next
    case False
    then have "\<exists>r'\<in>set rules''. \<exists>p'\<in>set (RulePricing r'). ChIntervals p' = ChIntervals p"
      using Cons.IH [OF rest] Cons.prems by simp
    then show ?thesis
      by (simp add: rules')
  qed
qed simp

lemma find_fresh: "\<forall>x\<in>set xs. \<not> P x \<Longrightarrow> P y \<Longrightarrow> find P (xs @ [y]) = Some y"
  by (induction xs) auto

text \<open>
  C38. A channel that was created with a rule for account statistics that has an interval with multipliers and no price
  cannot be changed any more unless the update replaces the rules: the multipliers are not stored, and the validation
  of every other update, even one that only renames or disables the channel, refuses the interval.
\<close>

theorem multiplier_rule_blocks_updates:
  assumes "channel_reachable env LoadLocation s" and "Create env LoadLocation now reads_ok input s = (s', Inr ch)"
    and "r \<in> set (StatsRules input)" and "p \<in> set (RulePricing r)" and "iv \<in> set (ChIntervals p)" and "priceless iv"
    and "URules u = None"
  shows "\<exists>e. Update env LoadLocation now' reads_ok' (ChannelID ch) u s' = (s', Inl e)"
proof -
  obtain valid db i where valid: "validate_channel env LoadLocation (new_channel input) = Inr valid"
    and created: "repo_Create (svc_db s) valid = Inr (db, i)" and db: "svc_db s' = db" and res: "channel_by_id db i = Some ch"
    using assms(2)
    by (auto simp: Create_def Let_def channel_result_def split: if_splits option.splits sum.splits prod.splits)
  have i: "i = next_channel (svc_db s)" and db_def: "db_channels db = db_channels (svc_db s) @ [stored_channel i valid]"
    using created by (auto simp: repo_Create_def split: if_splits)
  have "\<forall>c\<in>set (db_channels (svc_db s)). ChannelID c \<noteq> i"
    using reachable_ok [OF assms(1)] by (auto simp: i service_ok_def channels_ok_def list_all_iff)
  then have ch: "ch = stored_channel i valid"
    using res find_fresh [of "db_channels (svc_db s)" "\<lambda>c. ChannelID c = i"] by (simp add: channel_by_id_def db_def)
  have rules: "validate_rules env LoadLocation (StatsRules input) = Inr (StatsRules valid)"
    using valid by (auto simp: validate_channel_def new_channel_def split: sum.splits)
  obtain r' p' where "r' \<in> set (StatsRules valid)" and "p' \<in> set (RulePricing r')" and "ChIntervals p' = ChIntervals p"
    using validate_rules_intervals [OF rules assms(3,4)] by blast
  moreover from this have "stored_rule r' \<in> set (StatsRules ch)" and "stored_stats_entry p' \<in> set (RulePricing (stored_rule r'))"
    by (simp_all add: ch stored_channel_def stored_rule_def)
  moreover have "stored_stats_interval iv \<in> set (ChIntervals (stored_stats_entry p'))" if "ChIntervals p' = ChIntervals p"
    using assms(5) that by (simp add: stored_stats_entry_def)
  ultimately have stored: "stored_rule r' \<in> set (StatsRules ch)" "stored_stats_entry p' \<in> set (RulePricing (stored_rule r'))"
    "stored_stats_interval iv \<in> set (ChIntervals (stored_stats_entry p'))"
    by auto
  have bad: "validate_rules env LoadLocation (StatsRules ch) \<noteq> Inr rules" for rules
  proof
    assume "validate_rules env LoadLocation (StatsRules ch) = Inr rules"
    then have "checkIntervalsHavePrices (stored_stats_entry p') = None"
      using stored(1,2) by (rule validate_rules_entries)
    then show False
      using stored(3) priceless_stored [OF assms(6)] by (auto simp: checkIntervalsHavePrices_def list_ex_iff)
  qed
  have "\<exists>e. validate_channel env LoadLocation changed = Inl e" if "applyUpdateInput db ch u = Inr changed" for changed
  proof -
    have "StatsRules changed = StatsRules ch"
      using that assms(7) by (auto simp: applyUpdateInput_def given_def split: if_splits option.splits)
    then show ?thesis
      using bad by (auto simp: validate_channel_def split: sum.split)
  qed
  moreover have "channel_by_id (svc_db s') (ChannelID ch) = Some ch"
    using res by (simp add: db ch)
  ultimately show ?thesis
    using db by (auto simp: Update_def split: sum.split)
qed

section \<open>Witnesses\<close>

text \<open>A service with one group; the demo channel, and one with a rule whose interval has a multiplier only.\<close>

definition demo_service :: channel_service where
  "demo_service = no_channels\<lparr>svc_db := (svc_db no_channels)\<lparr>db_groups := demo_platforms\<rparr>\<rparr>"

lemma demo_service_reachable: "channel_reachable demo_go_env demo_zones demo_service"
proof -
  have "channel_step demo_go_env demo_zones no_channels
      (no_channels\<lparr>svc_db := (svc_db no_channels)\<lparr>db_groups := (db_groups (svc_db no_channels))(3 \<mapsto> PlatformOpenAI)\<rparr>\<rparr>)"
    by (rule new_group) (simp add: no_channels_def)
  then have "channel_step demo_go_env demo_zones no_channels demo_service"
    by (simp add: demo_service_def demo_platforms_def no_channels_def)
  then show ?thesis
    by (rule channel_reachable.step [OF channel_reachable.start])
qed

definition multiplier_interval :: PricingInterval where
  "multiplier_interval = (plain_interval 0 None 1)\<lparr>IvInputPrice := None, IvInputMultiplier := Some (Fin 2)\<rparr>"

definition multiplier_entry :: ChannelModelPricing where
  "multiplier_entry = (plain_entry [''o1''] 1)\<lparr>ChIntervals := [multiplier_interval]\<rparr>"

definition rule_channel :: Channel where
  "rule_channel = demo_channel\<lparr>ModelPricing := [], ModelMapping := [],
     StatsRules := [\<lparr>RuleName = ''all'', RuleGroupIDs = [3], RuleAccountIDs = [], RuleSortOrder = 0, RulePricing = [multiplier_entry]\<rparr>]\<rparr>"

lemma demo_rule_valid:
  "validate_channel demo_go_env demo_zones (new_channel rule_channel) = Inr (new_channel rule_channel)"
proof -
  have "ValidateIntervals [multiplier_interval] BillingModeToken = None" by code_simp
  then have "entry_ok demo_go_env demo_zones multiplier_entry"
    by (simp add: entry_ok_def multiplier_entry_def plain_entry_def checkBillingModeRequirements_def checkPricesNotNegative_def
        checkIntervalsHavePrices_def check_time_pricing_def per_request_mode_def billing_modes has_token_price_def)
      (simp add: multiplier_interval_def)
  then have "validatePricingEntries demo_go_env demo_zones [multiplier_entry] = Inr [multiplier_entry]"
    by (simp add: entries_accepted validateNoConflictingModels_def platform_entries_def)
      (simp add: multiplier_entry_def plain_entry_def without_empty_times_def)
  moreover have "first_error check_stats_entry [multiplier_entry] = None"
    by (simp add: check_stats_entry_def fail_if_def multiplier_entry_def plain_entry_def)
  ultimately have "validateAccountStatsPricingEntries demo_go_env demo_zones [multiplier_entry] = Inr [multiplier_entry]"
    by (simp add: validateAccountStatsPricingEntries_def)
  moreover have "validateChannelConfig demo_go_env demo_zones [] [] = Inr []" by code_simp
  ultimately show ?thesis
    by (simp add: validate_channel_def new_channel_def rule_channel_def)
qed

lemma rule_channel_created:
  "\<exists>s' ch. Create demo_go_env demo_zones 0 True rule_channel demo_service = (s', Inr ch)"
proof -
  have empty: "svc_db demo_service = \<lparr>db_channels = [], next_channel = 1, db_groups = demo_platforms\<rparr>"
    by (simp add: demo_service_def no_channels_def)
  have "\<not> ExistsByName (svc_db demo_service) (ChannelName rule_channel)"
    and "checkGroupConflicts (svc_db demo_service) 0 (ChannelGroupIDs rule_channel) = None"
    by (simp_all add: empty ExistsByName_def checkGroupConflicts_def GetGroupsInOtherChannels_def memberships_def)
  moreover have "\<exists>db. repo_Create (svc_db demo_service) (new_channel rule_channel) = Inr (db, 1) \<and>
      channel_by_id db 1 = Some (stored_channel 1 (new_channel rule_channel))"
    by (simp add: empty repo_Create_def ExistsByName_def groups_insertable_def GetGroupsInOtherChannels_def memberships_def
        channel_by_id_def) (simp add: new_channel_def rule_channel_def demo_channel_def demo_platforms_def)
  ultimately show ?thesis
    using demo_rule_valid by (auto simp: Create_def Let_def channel_result_def)
qed

definition disable :: UpdateChannelInput where
  "disable = \<lparr>UName = [], UDescription = None, UStatus = ''disabled'', UGroupIDs = None, UModelPricing = None, UModelMapping = None,
     UBillingSource = [], URestrictModels = None, UFeatures = None, UApplyPricing = None, URules = None\<rparr>"

theorem multiplier_rule_blocks_updates_witness:
  "\<exists>s' ch e. Create demo_go_env demo_zones 0 True rule_channel demo_service = (s', Inr ch) \<and>
     Update demo_go_env demo_zones 1 True (ChannelID ch) disable s' = (s', Inl e)"
proof -
  obtain s' ch where created: "Create demo_go_env demo_zones 0 True rule_channel demo_service = (s', Inr ch)"
    using rule_channel_created by blast
  have "\<exists>e. Update demo_go_env demo_zones 1 True (ChannelID ch) disable s' = (s', Inl e)"
    by (rule multiplier_rule_blocks_updates [OF demo_service_reachable created,
        of "StatsRules rule_channel ! 0" multiplier_entry multiplier_interval])
      (simp_all add: rule_channel_def multiplier_entry_def multiplier_interval_def plain_interval_def priceless_def disable_def)
  then show ?thesis
    using created by blast
qed

definition demo_created :: channel_service where
  "demo_created = fst (handler_Create demo_go_env demo_zones 0 True demo_channel demo_service)"

lemma demo_created_reachable: "channel_reachable demo_go_env demo_zones demo_created"
  unfolding demo_created_def by (rule channel_reachable.step [OF demo_service_reachable channel_step.create])

lemma demo_channel_created:
  "svc_db demo_created = \<lparr>db_channels = [stored_channel 1 (new_channel demo_channel)], next_channel = 2, db_groups = demo_platforms\<rparr>"
  "svc_cache demo_created = Some (current_snapshot demo_go_env (svc_db demo_created) 0)"
proof -
  let ?ch = "new_channel demo_channel"
  have entries: "map request_main_entry (ModelPricing demo_channel) = ModelPricing demo_channel"
    by (simp add: demo_channel_def plain_entry_def request_main_entry_def request_entry_def default_to_def first_set_def
        BillingModeToken_def PlatformOpenAI_def)
  have "list_all (entry_ok demo_go_env demo_zones) (ModelPricing demo_channel)"
    by (simp add: demo_channel_def entry_ok_def plain_entry_def checkBillingModeRequirements_def checkPricesNotNegative_def
        checkIntervalsHavePrices_def check_time_pricing_def per_request_mode_def billing_modes ValidateIntervals_def)
  then have "validatePricingEntries demo_go_env demo_zones (ModelPricing demo_channel) = Inr (ModelPricing demo_channel)"
    by (simp add: entries_accepted demo_patterns) (simp add: demo_channel_def plain_entry_def without_empty_times_def)
  moreover have "validateNoConflictingMappings demo_go_env (ModelMapping demo_channel) = None" by code_simp
  ultimately have valid: "validate_channel demo_go_env demo_zones ?ch = Inr ?ch"
    by (simp add: validate_channel_def validateChannelConfig_def new_channel_def) (simp add: demo_channel_def)
  have empty: "svc_db demo_service = \<lparr>db_channels = [], next_channel = 1, db_groups = demo_platforms\<rparr>"
    by (simp add: demo_service_def no_channels_def)
  have created: "repo_Create (svc_db demo_service) ?ch =
      Inr (\<lparr>db_channels = [stored_channel 1 ?ch], next_channel = 2, db_groups = demo_platforms\<rparr>, 1)"
    by (simp add: empty repo_Create_def ExistsByName_def groups_insertable_def GetGroupsInOtherChannels_def memberships_def)
      (simp add: new_channel_def demo_channel_def demo_platforms_def)
  have free: "\<not> ExistsByName (svc_db demo_service) (ChannelName demo_channel)"
    "checkGroupConflicts (svc_db demo_service) 0 (ChannelGroupIDs demo_channel) = None"
    by (simp_all add: empty ExistsByName_def checkGroupConflicts_def GetGroupsInOtherChannels_def memberships_def)
  have "demo_channel\<lparr>ModelPricing := map request_main_entry (ModelPricing demo_channel), StatsRules := []\<rparr> = demo_channel"
    unfolding entries by (simp add: demo_channel_def)
  moreover have "request_rules 0 (StatsRules demo_channel) = Inr []"
    by (simp add: demo_channel_def)
  ultimately have "demo_created = fst (Create demo_go_env demo_zones 0 True demo_channel demo_service)"
    by (simp add: demo_created_def handler_Create_state)
  then have eq: "demo_created = invalidateCache demo_go_env 0 True
      (demo_service\<lparr>svc_db := \<lparr>db_channels = [stored_channel 1 ?ch], next_channel = 2, db_groups = demo_platforms\<rparr>\<rparr>)"
    by (simp add: Create_def free valid created Let_def)
  show "svc_db demo_created = \<lparr>db_channels = [stored_channel 1 ?ch], next_channel = 2, db_groups = demo_platforms\<rparr>"
    unfolding eq by simp
  show "svc_cache demo_created = Some (current_snapshot demo_go_env (svc_db demo_created) 0)"
    unfolding eq by (simp add: invalidateCache_def buildCache_def current_snapshot_def Let_def)
qed

theorem stored_channels_valid_witness:
  "list_all (\<lambda>ch. validateChannelConfig demo_go_env demo_zones (ModelPricing ch) (ModelMapping ch) = Inr (ModelPricing ch))
     (db_channels (svc_db demo_created)) \<and>
   map ChannelName (db_channels (svc_db demo_created)) = [''main'']"
  using stored_channels_valid [OF demo_created_reachable]
  by (simp add: demo_channel_created) (simp add: new_channel_def demo_channel_def)


theorem failed_read_backs_off_witness:
  "loadCache demo_go_env (2 * second) True (fst (buildCache demo_go_env 0 False demo_service)) =
     (fst (buildCache demo_go_env 0 False demo_service), Some (error_cache 0), False)"
proof -
  obtain s' r where built: "buildCache demo_go_env 0 False demo_service = (s', r)"
    by (cases "buildCache demo_go_env 0 False demo_service")
  have "if 2 * second - 0 < channelErrorTTL
    then loadCache demo_go_env (2 * second) True s' = (s', Some (error_cache 0), False) \<and>
      (\<forall>gid model. GetChannelModelPricing demo_go_env (error_cache 0) gid model = None \<and>
         ResolveChannelMapping demo_go_env (error_cache 0) gid model = unmapped model)
    else snd (snd (loadCache demo_go_env (2 * second) True s'))"
    by (rule failed_read_backs_off [OF built]) (simp_all add: go_defs max_duration_def channelCacheTTL_def)
  then show ?thesis
    by (simp add: built channelErrorTTL_def go_defs)
qed

end
