(* ===== verification/Image_Concurrency.thy ===== *)
theory Image_Concurrency
  imports Go_Prelude
begin

text \<open>
  The limit on concurrent image requests (\<^verbatim>\<open>handler/image_concurrency_limiter.go\<close>): a counter of active requests and
  one of waiting requests under a mutex, and a channel that is closed, and replaced, whenever a slot is freed.

  Channels are numbered in the order in which they are made; a channel is open while it is the current one.  What
  runs under the mutex is one step; the steps of the requests interleave in any order, the context of a waiting
  request may end at any time, and of two ready cases a \<^verbatim>\<open>select\<close> takes either.
\<close>

section \<open>The limiter\<close>

record ImageLimiter =
  notify :: "nat option"
  channels :: nat
  limit :: int
  active :: int
  waiting :: int
  enabled :: bool

definition zero_limiter :: ImageLimiter where
  "zero_limiter = \<lparr>notify = None, channels = 0, limit = 0, active = 0, waiting = 0, enabled = False\<rparr>"

definition make_channel :: "ImageLimiter \<Rightarrow> ImageLimiter" where
  "make_channel l = l\<lparr>notify := Some (channels l), channels := Suc (channels l)\<rparr>"

datatype attempt = Acquired | Refused | MustWait nat

definition tryAcquireLocked :: "bool \<Rightarrow> int \<Rightarrow> bool \<Rightarrow> int \<Rightarrow> ImageLimiter \<Rightarrow> attempt \<times> ImageLimiter" where
  "tryAcquireLocked en lim wait maxWaiting l =
     (let l = (if notify l = None then make_channel l else l);
          l = (if enabled l \<noteq> en \<or> limit l \<noteq> lim then l\<lparr>enabled := en, limit := lim\<rparr> else l) in
      if active l < limit l then (Acquired, l\<lparr>active := active l + 1\<rparr>)
      else if \<not> wait then (Refused, l)
      else if 0 < maxWaiting \<and> maxWaiting \<le> waiting l then (Refused, l)
      else (MustWait (the (notify l)), l\<lparr>waiting := waiting l + 1\<rparr>))"

text \<open>The functions handed out: the release of a slot and that of a place in the queue, each of which acts once.\<close>

definition releaseFunc :: "ImageLimiter \<Rightarrow> ImageLimiter" where
  "releaseFunc l =
     (let l = (if 0 < active l then l\<lparr>active := active l - 1\<rparr> else l) in
      if notify l \<noteq> None then make_channel l else l)"

definition waiterReleaseFunc :: "ImageLimiter \<Rightarrow> ImageLimiter" where
  "waiterReleaseFunc l = (if 0 < waiting l then l\<lparr>waiting := waiting l - 1\<rparr> else l)"

section \<open>Requests\<close>

record ImageRequest =
  ReqEnabled :: bool
  ReqLimit :: int
  ReqWait :: bool
  ReqTimeout :: duration
  ReqMaxWaiting :: int

text \<open>Where a request is in \<^verbatim>\<open>acquire\<close>, or in what follows it.\<close>

datatype image_thread =
    Arrived ImageRequest
  | Trying ImageRequest
  | Blocked ImageRequest nat
  | Woken ImageRequest
  | GaveUp ImageRequest
  | Holding
  | Released
  | Unlimited
  | Rejected

definition acquire :: "ImageRequest \<Rightarrow> image_thread" where
  "acquire r =
     (if \<not> ReqEnabled r \<or> ReqLimit r \<le> 0 then Unlimited
      else if ReqWait r \<and> ReqTimeout r \<le> 0 then Rejected
      else Trying r)"

definition TryAcquire :: "bool \<Rightarrow> int \<Rightarrow> image_thread" where
  "TryAcquire en lim =
     Arrived \<lparr>ReqEnabled = en, ReqLimit = lim, ReqWait = False, ReqTimeout = 0, ReqMaxWaiting = 0\<rparr>"

definition image_Acquire :: "bool \<Rightarrow> int \<Rightarrow> bool \<Rightarrow> duration \<Rightarrow> int \<Rightarrow> image_thread" where
  "image_Acquire en lim wait timeout maxWaiting =
     Arrived \<lparr>ReqEnabled = en, ReqLimit = lim, ReqWait = wait, ReqTimeout = timeout, ReqMaxWaiting = maxWaiting\<rparr>"

definition try_once :: "ImageRequest \<Rightarrow> ImageLimiter \<Rightarrow> image_thread \<times> ImageLimiter" where
  "try_once r l =
     (case tryAcquireLocked (ReqEnabled r) (ReqLimit r) (ReqWait r) (max 0 (ReqMaxWaiting r)) l of
        (Acquired, l) \<Rightarrow> (Holding, l)
      | (Refused, l) \<Rightarrow> (Rejected, l)
      | (MustWait g, l) \<Rightarrow> (Blocked r g, l))"

section \<open>Interleavings\<close>

type_synonym image_system = "ImageLimiter \<times> image_thread list"

inductive image_step :: "image_system \<Rightarrow> image_system \<Rightarrow> bool" where
  arrive: "i < length ts \<Longrightarrow> ts ! i = Arrived r \<Longrightarrow> image_step (l, ts) (l, ts[i := acquire r])"
| attempt: "i < length ts \<Longrightarrow> ts ! i = Trying r \<Longrightarrow> try_once r l = (t, l') \<Longrightarrow> image_step (l, ts) (l', ts[i := t])"
| wake: "i < length ts \<Longrightarrow> ts ! i = Blocked r g \<Longrightarrow> notify l \<noteq> Some g \<Longrightarrow> image_step (l, ts) (l, ts[i := Woken r])"
| expire: "i < length ts \<Longrightarrow> ts ! i = Blocked r g \<Longrightarrow> image_step (l, ts) (l, ts[i := GaveUp r])"
| retry: "i < length ts \<Longrightarrow> ts ! i = Woken r \<Longrightarrow> image_step (l, ts) (waiterReleaseFunc l, ts[i := Trying r])"
| leave: "i < length ts \<Longrightarrow> ts ! i = GaveUp r \<Longrightarrow> image_step (l, ts) (waiterReleaseFunc l, ts[i := Rejected])"
| finish: "i < length ts \<Longrightarrow> ts ! i = Holding \<Longrightarrow> image_step (l, ts) (releaseFunc l, ts[i := Released])"

inductive image_reachable :: "ImageRequest list \<Rightarrow> image_system \<Rightarrow> bool" for reqs where
  start: "image_reachable reqs (zero_limiter, map Arrived reqs)"
| step: "image_reachable reqs s \<Longrightarrow> image_step s s' \<Longrightarrow> image_reachable reqs s'"

definition holders :: "image_thread list \<Rightarrow> int" where
  "holders ts = int (length (filter (\<lambda>t. t = Holding) ts))"

fun in_queue :: "image_thread \<Rightarrow> bool" where
  "in_queue (Blocked r g) = True"
| "in_queue (Woken r) = True"
| "in_queue (GaveUp r) = True"
| "in_queue _ = False"

definition queued :: "image_thread list \<Rightarrow> int" where
  "queued ts = int (length (filter in_queue ts))"

text \<open>The request of a thread that is still on its way.\<close>

fun request_of :: "image_thread \<Rightarrow> ImageRequest option" where
  "request_of (Arrived r) = Some r"
| "request_of (Trying r) = Some r"
| "request_of (Blocked r g) = Some r"
| "request_of (Woken r) = Some r"
| "request_of (GaveUp r) = Some r"
| "request_of _ = None"

section \<open>Counting\<close>

lemma filter_update:
  "i < length ts \<Longrightarrow>
   int (length (filter P (ts[i := t]))) =
     int (length (filter P ts)) - (if P (ts ! i) then 1 else 0) + (if P t then 1 else 0)"
proof (induction ts arbitrary: i)
  case (Cons u ts)
  show ?case
  proof (cases i)
    case 0
    then show ?thesis by simp
  next
    case (Suc j)
    then have "j < length ts" using Cons.prems by simp
    then show ?thesis using Cons.IH [of j] Suc by (auto split: if_splits)
  qed
qed simp

lemma holders_update:
  "i < length ts \<Longrightarrow>
   holders (ts[i := t]) = holders ts - (if ts ! i = Holding then 1 else 0) + (if t = Holding then 1 else 0)"
  unfolding holders_def by (simp add: filter_update)

lemma queued_update:
  "i < length ts \<Longrightarrow>
   queued (ts[i := t]) = queued ts - (if in_queue (ts ! i) then 1 else 0) + (if in_queue t then 1 else 0)"
  unfolding queued_def by (simp add: filter_update)

lemma queued_pos: "i < length ts \<Longrightarrow> in_queue (ts ! i) \<Longrightarrow> 0 < queued ts"
  unfolding queued_def by (auto simp: filter_empty_conv intro!: bexI [of _ "ts ! i"])

lemma holders_pos: "i < length ts \<Longrightarrow> ts ! i = Holding \<Longrightarrow> 0 < holders ts"
  unfolding holders_def using nth_mem [of i ts] by (auto simp: filter_empty_conv intro!: bexI [of _ "ts ! i"])

lemma acquire_cases: "acquire r \<in> {Unlimited, Rejected, Trying r}"
  by (simp add: acquire_def)

text \<open>What an attempt sees: the channel is there, and the limit is that of the request.\<close>

definition prepared :: "ImageRequest \<Rightarrow> ImageLimiter \<Rightarrow> ImageLimiter" where
  "prepared r l = (if notify l = None then make_channel l else l)\<lparr>enabled := ReqEnabled r, limit := ReqLimit r\<rparr>"

lemma prepared_fields [simp]:
  "active (prepared r l) = active l" "waiting (prepared r l) = waiting l" "limit (prepared r l) = ReqLimit r"
  "notify (prepared r l) = Some (case notify l of None \<Rightarrow> channels l | Some g \<Rightarrow> g)"
  by (auto simp: prepared_def make_channel_def)

lemma try_once_prepared:
  "try_once r l =
     (let k = prepared r l in
      if active k < limit k then (Holding, k\<lparr>active := active k + 1\<rparr>)
      else if \<not> ReqWait r \<or> 0 < ReqMaxWaiting r \<and> ReqMaxWaiting r \<le> waiting k then (Rejected, k)
      else (Blocked r (the (notify k)), k\<lparr>waiting := waiting k + 1\<rparr>))"
proof -
  have settings: "(if enabled k \<noteq> en \<or> limit k \<noteq> lim then k\<lparr>enabled := en, limit := lim\<rparr> else k) = k\<lparr>enabled := en, limit := lim\<rparr>"
    for k :: ImageLimiter and en lim
    by simp
  show ?thesis
    by (simp add: try_once_def tryAcquireLocked_def prepared_def settings Let_def max_def)
qed

text \<open>The counters are the numbers of requests that hold a slot and that stand in the queue.\<close>

definition counted :: "image_system \<Rightarrow> bool" where
  "counted s \<longleftrightarrow> active (fst s) = holders (snd s) \<and> waiting (fst s) = queued (snd s)"

lemma counted_step: "image_step s s' \<Longrightarrow> counted s \<Longrightarrow> counted s'"
proof (induction rule: image_step.induct)
  case (arrive i ts r l)
  then show ?case
    using acquire_cases [of r] by (auto simp: counted_def holders_update queued_update)
next
  case (attempt i ts r l t l')
  then show ?case
    by (auto simp: counted_def holders_update queued_update try_once_prepared Let_def split: if_splits)
next
  case (wake i ts r g l)
  then show ?case by (simp add: counted_def holders_update queued_update)
next
  case (expire i ts r g l)
  then show ?case by (simp add: counted_def holders_update queued_update)
next
  case (retry i ts r l)
  then show ?case
    using queued_pos [of i ts] by (simp add: counted_def holders_update queued_update waiterReleaseFunc_def)
next
  case (leave i ts r l)
  then show ?case
    using queued_pos [of i ts] by (simp add: counted_def holders_update queued_update waiterReleaseFunc_def)
next
  case (finish i ts l)
  then show ?case
    using holders_pos [of i ts]
    by (auto simp: counted_def holders_update queued_update releaseFunc_def make_channel_def Let_def)
qed

lemma counted_reachable: "image_reachable reqs s \<Longrightarrow> counted s"
proof (induction rule: image_reachable.induct)
  case start
  show ?case
    by (simp add: counted_def zero_limiter_def holders_def queued_def comp_def filter_map)
next
  case (step s s')
  then show ?case using counted_step by blast
qed

text \<open>Every request on its way is one of those given, and the ones that try to acquire have a limit.\<close>

definition from_requests :: "ImageRequest list \<Rightarrow> image_thread list \<Rightarrow> bool" where
  "from_requests reqs ts \<longleftrightarrow>
     (\<forall>t\<in>set ts. \<forall>r. request_of t = Some r \<longrightarrow> r \<in> set reqs \<and> (t \<noteq> Arrived r \<longrightarrow> ReqEnabled r \<and> 0 < ReqLimit r))"

lemma from_requests_update:
  "from_requests reqs ts \<Longrightarrow> (\<And>r. request_of t = Some r \<Longrightarrow> r \<in> set reqs \<and> (t \<noteq> Arrived r \<longrightarrow> ReqEnabled r \<and> 0 < ReqLimit r)) \<Longrightarrow>
   from_requests reqs (ts[i := t])"
  using set_update_subset_insert [of ts i t] unfolding from_requests_def by blast

lemma from_requests_nth:
  "from_requests reqs ts \<Longrightarrow> i < length ts \<Longrightarrow> request_of (ts ! i) = Some r \<Longrightarrow>
   r \<in> set reqs \<and> (ts ! i \<noteq> Arrived r \<longrightarrow> ReqEnabled r \<and> 0 < ReqLimit r)"
  unfolding from_requests_def by (meson nth_mem)

lemma from_requests_step: "image_step s s' \<Longrightarrow> from_requests reqs (snd s) \<Longrightarrow> from_requests reqs (snd s')"
proof (induction rule: image_step.induct)
  case (arrive i ts r l)
  then show ?case
    using from_requests_nth [of reqs ts i r] by (auto simp: acquire_def intro!: from_requests_update)
next
  case (attempt i ts r l t l')
  then show ?case
    using from_requests_nth [of reqs ts i r]
    by (auto simp: try_once_prepared Let_def split: if_splits intro!: from_requests_update)
next
  case (wake i ts r g l)
  then show ?case using from_requests_nth [of reqs ts i r] by (auto intro!: from_requests_update)
next
  case (expire i ts r g l)
  then show ?case using from_requests_nth [of reqs ts i r] by (auto intro!: from_requests_update)
next
  case (retry i ts r l)
  then show ?case using from_requests_nth [of reqs ts i r] by (auto intro!: from_requests_update)
next
  case (leave i ts r l)
  then show ?case by (auto intro!: from_requests_update)
next
  case (finish i ts l)
  then show ?case by (auto intro!: from_requests_update)
qed

lemma from_requests_reachable: "image_reachable reqs s \<Longrightarrow> from_requests reqs (snd s)"
proof (induction rule: image_reachable.induct)
  case start
  show ?case by (auto simp: from_requests_def)
next
  case (step s s')
  then show ?case using from_requests_step by blast
qed

text \<open>The counters stay within the limits of the requests.\<close>

lemma slots_step:
  assumes "image_step s s'" and "from_requests reqs (snd s)" and "\<forall>r\<in>set reqs. ReqEnabled r \<longrightarrow> ReqLimit r \<le> L"
    and "active (fst s) \<le> L" and "0 \<le> L"
  shows "active (fst s') \<le> L"
  using assms
proof (induction rule: image_step.induct)
  case (attempt i ts r l t l')
  then have "ReqLimit r \<le> L"
    using from_requests_nth [of reqs ts i r] by auto
  then show ?case
    using attempt by (auto simp: try_once_prepared Let_def split: if_splits)
qed (auto simp: waiterReleaseFunc_def releaseFunc_def make_channel_def Let_def)

lemma queue_step:
  assumes "image_step s s'" and "from_requests reqs (snd s)"
    and "\<forall>r\<in>set reqs. 0 < ReqMaxWaiting r \<and> ReqMaxWaiting r \<le> M" and "waiting (fst s) \<le> M" and "0 \<le> M"
  shows "waiting (fst s') \<le> M"
  using assms
proof (induction rule: image_step.induct)
  case (attempt i ts r l t l')
  then have "0 < ReqMaxWaiting r" "ReqMaxWaiting r \<le> M"
    using from_requests_nth [of reqs ts i r] by auto
  then show ?case
    using attempt by (auto simp: try_once_prepared Let_def split: if_splits)
qed (auto simp: waiterReleaseFunc_def releaseFunc_def make_channel_def Let_def)

text \<open>No request waits on the open channel while a slot is free.\<close>

definition wakeful :: "int \<Rightarrow> image_system \<Rightarrow> bool" where
  "wakeful L s \<longleftrightarrow>
     (\<forall>g. notify (fst s) = Some g \<longrightarrow> g < channels (fst s)) \<and>
     (\<forall>r g. Blocked r g \<in> set (snd s) \<longrightarrow>
        g < channels (fst s) \<and> notify (fst s) \<noteq> None \<and> (notify (fst s) = Some g \<longrightarrow> L \<le> active (fst s)))"

lemma wakeful_update:
  "wakeful L (l, ts) \<Longrightarrow> (\<And>r g. t \<noteq> Blocked r g) \<Longrightarrow> wakeful L (l, ts[i := t])"
proof -
  assume "wakeful L (l, ts)" and "\<And>r g. t \<noteq> Blocked r g"
  moreover have "Blocked r g \<in> set ts" if "Blocked r g \<in> set (ts[i := t])" for r g
    using that set_update_subset_insert [of ts i t] \<open>\<And>r g. t \<noteq> Blocked r g\<close> by (metis insertE subsetD)
  ultimately show ?thesis unfolding wakeful_def fst_conv snd_conv by blast
qed

lemma wakeful_counters:
  "wakeful L (l, ts) \<Longrightarrow> notify l' = notify l \<Longrightarrow> channels l' = channels l \<Longrightarrow> active l \<le> active l' \<Longrightarrow> wakeful L (l', ts)"
  unfolding wakeful_def by (auto intro: order_trans)

lemma wakeful_release: "wakeful L (l, ts) \<Longrightarrow> wakeful L (releaseFunc l, ts)"
  unfolding wakeful_def releaseFunc_def make_channel_def Let_def
  by (cases "notify l") (auto dest: less_imp_neq less_SucI)

lemma wakeful_prepared: "wakeful L (l, ts) \<Longrightarrow> wakeful L (prepared r l, ts)"
  unfolding wakeful_def prepared_def make_channel_def by auto

lemma wakeful_step:
  assumes "image_step s s'" and "from_requests reqs (snd s)" and "\<forall>r\<in>set reqs. ReqEnabled r \<longrightarrow> ReqLimit r = L"
    and "wakeful L s"
  shows "wakeful L s'"
  using assms
proof (induction rule: image_step.induct)
  case (arrive i ts r l)
  then show ?case using acquire_cases [of r] by (auto intro!: wakeful_update)
next
  case (attempt i ts r l t l')
  have L: "ReqLimit r = L"
    using attempt from_requests_nth [of reqs ts i r] by auto
  have ready: "wakeful L (prepared r l, ts)"
    using attempt by (intro wakeful_prepared) simp
  obtain g where g: "notify (prepared r l) = Some g" by simp
  show ?case
  proof (cases "t = Blocked r g \<and> L \<le> active l")
    case True
    then have l': "l' = prepared r l\<lparr>waiting := waiting (prepared r l) + 1\<rparr>"
      using attempt by (auto simp: try_once_prepared Let_def split: if_splits)
    have "wakeful L (l', ts)"
      using ready by (rule wakeful_counters) (simp_all add: l')
    then show ?thesis
      using True g set_update_subset_insert [of ts i t] unfolding wakeful_def l' by auto
  next
    case False
    then have t: "t \<in> {Holding, Rejected}" and l': "l' \<in> {prepared r l, prepared r l\<lparr>active := active l + 1\<rparr>}"
      using attempt g L by (auto simp: try_once_prepared Let_def split: if_splits)
    have "wakeful L (l', ts)"
      using ready by (rule wakeful_counters) (use l' in auto)
    then show ?thesis using t by (auto intro!: wakeful_update)
  qed
next
  case (wake i ts r g l)
  then show ?case by (auto intro!: wakeful_update)
next
  case (expire i ts r g l)
  then show ?case by (auto intro!: wakeful_update)
next
  case (retry i ts r l)
  then have "wakeful L (waiterReleaseFunc l, ts)"
    by (elim wakeful_counters) (simp_all add: waiterReleaseFunc_def)
  then show ?case by (rule wakeful_update) simp
next
  case (leave i ts r l)
  then have "wakeful L (waiterReleaseFunc l, ts)"
    by (elim wakeful_counters) (simp_all add: waiterReleaseFunc_def)
  then show ?case by (rule wakeful_update) simp
next
  case (finish i ts l)
  then show ?case by (intro wakeful_update wakeful_release) simp_all
qed

lemma wakeful_zero: "wakeful L (zero_limiter, map Arrived reqs)"
  by (auto simp: wakeful_def zero_limiter_def)

lemma reachable_invariant:
  assumes "image_reachable reqs s" and "P (zero_limiter, map Arrived reqs)"
    and "\<And>s s'. image_step s s' \<Longrightarrow> from_requests reqs (snd s) \<Longrightarrow> P s \<Longrightarrow> P s'"
  shows "P s"
  using assms(1)
proof (induction rule: image_reachable.induct)
  case start
  show ?case by (rule assms(2))
next
  case (step s s')
  then show ?case using assms(3) from_requests_reachable by blast
qed

section \<open>Properties\<close>

text \<open>
  C18. However the requests interleave, no more of them hold a slot than the largest limit any of them names, and no
  more stand in the queue than the largest bound of the queue, where all name one.
\<close>

theorem image_slots_bounded:
  assumes "image_reachable reqs (l, ts)"
    and "\<forall>r\<in>set reqs. ReqEnabled r \<longrightarrow> ReqLimit r \<le> L" and "0 \<le> L"
    and "\<forall>r\<in>set reqs. 0 < ReqMaxWaiting r \<and> ReqMaxWaiting r \<le> M" and "0 \<le> M"
  shows "holders ts \<le> L \<and> queued ts \<le> M"
proof -
  have "active (fst (l, ts)) \<le> L"
    by (rule reachable_invariant [OF assms(1)]) (use assms slots_step in \<open>auto simp: zero_limiter_def\<close>)
  moreover have "waiting (fst (l, ts)) \<le> M"
    by (rule reachable_invariant [OF assms(1)]) (use assms queue_step in \<open>auto simp: zero_limiter_def\<close>)
  ultimately show ?thesis
    using counted_reachable [OF assms(1)] by (simp add: counted_def)
qed

text \<open>
  C17. No wake-up is lost: while fewer requests hold a slot than the common limit allows, every request that waits can
  wake, because the channel it waits on has been closed.
\<close>

theorem image_no_lost_wakeup:
  assumes "image_reachable reqs (l, ts)" and "\<forall>r\<in>set reqs. ReqEnabled r \<longrightarrow> ReqLimit r = L"
    and "holders ts < L" and "i < length ts" and "ts ! i = Blocked r g"
  shows "image_step (l, ts) (l, ts[i := Woken r])"
proof -
  have "wakeful L (l, ts)"
    by (rule reachable_invariant [OF assms(1)])
       (use assms(2) wakeful_step wakeful_zero in auto)
  moreover have "Blocked r g \<in> set ts"
    using assms(4,5) by (metis nth_mem)
  ultimately have "notify l \<noteq> Some g"
    using assms(3) counted_reachable [OF assms(1)] by (fastforce simp: wakeful_def counted_def)
  with assms(4,5) show ?thesis
    by (rule image_step.wake)
qed

text \<open>
  Nothing leaks: when every request has been refused or has given its slot back, both counters are zero.
\<close>

theorem image_counters_return:
  assumes "image_reachable reqs (l, ts)" and "\<forall>t\<in>set ts. t \<in> {Released, Rejected, Unlimited}"
  shows "active l = 0 \<and> waiting l = 0"
proof -
  have "holders ts = 0" and "queued ts = 0"
    using assms(2) by (auto simp: holders_def queued_def filter_empty_conv)
  then show ?thesis
    using counted_reachable [OF assms(1)] by (simp add: counted_def)
qed

section \<open>Witnesses\<close>

text \<open>Two requests for one slot: the first gets it, the second waits, the first gives it back.\<close>

definition demo_request :: ImageRequest where
  "demo_request = \<lparr>ReqEnabled = True, ReqLimit = 1, ReqWait = True, ReqTimeout = second, ReqMaxWaiting = 2\<rparr>"

definition demo_limiter :: ImageLimiter where
  "demo_limiter = \<lparr>notify = Some 1, channels = 2, limit = 1, active = 0, waiting = 1, enabled = True\<rparr>"

lemma demo_reachable:
  "image_reachable [demo_request, demo_request] (demo_limiter, [Released, Blocked demo_request 0])"
proof -
  let ?r = demo_request
  note run = image_reachable.step [rotated]
  have acquire: "acquire ?r = Trying ?r"
    by (simp add: acquire_def demo_request_def second_def)
  have "image_reachable [?r, ?r] (zero_limiter, [Arrived ?r, Arrived ?r])"
    using image_reachable.start [of "[?r, ?r]"] by simp
  then have "image_reachable [?r, ?r] (zero_limiter, [Trying ?r, Arrived ?r])"
    using run image_step.arrive [of 0 "[Arrived ?r, Arrived ?r]" ?r zero_limiter] by (simp add: acquire)
  then have "image_reachable [?r, ?r] (zero_limiter, [Trying ?r, Trying ?r])"
    using run image_step.arrive [of 1 "[Trying ?r, Arrived ?r]" ?r zero_limiter] by (simp add: acquire)
  moreover have "try_once ?r zero_limiter =
      (Holding, \<lparr>notify = Some 0, channels = 1, limit = 1, active = 1, waiting = 0, enabled = True\<rparr>)" (is "_ = (_, ?l1)")
    by (simp add: try_once_prepared prepared_def make_channel_def zero_limiter_def demo_request_def Let_def)
  ultimately have "image_reachable [?r, ?r] (?l1, [Holding, Trying ?r])"
    using run image_step.attempt [of 0 "[Trying ?r, Trying ?r]" ?r zero_limiter Holding ?l1] by simp
  moreover have "try_once ?r ?l1 =
      (Blocked ?r 0, \<lparr>notify = Some 0, channels = 1, limit = 1, active = 1, waiting = 1, enabled = True\<rparr>)" (is "_ = (_, ?l2)")
    by (simp add: try_once_prepared prepared_def demo_request_def Let_def)
  ultimately have "image_reachable [?r, ?r] (?l2, [Holding, Blocked ?r 0])"
    using run image_step.attempt [of 1 "[Holding, Trying ?r]" ?r ?l1 "Blocked ?r 0" ?l2] by simp
  moreover have "releaseFunc ?l2 = demo_limiter"
    by (simp add: releaseFunc_def make_channel_def demo_limiter_def Let_def)
  ultimately show ?thesis
    using run image_step.finish [of 0 "[Holding, Blocked ?r 0]" ?l2] by simp
qed

theorem image_slots_bounded_witness:
  "holders [Released, Blocked demo_request 0] \<le> 1 \<and> queued [Released, Blocked demo_request 0] \<le> 2"
  by (rule image_slots_bounded [OF demo_reachable]) (simp_all add: demo_request_def)

theorem image_no_lost_wakeup_witness:
  "image_step (demo_limiter, [Released, Blocked demo_request 0]) (demo_limiter, [Released, Woken demo_request])"
  using image_no_lost_wakeup [OF demo_reachable, of 1 1 demo_request 0] by (simp add: demo_request_def holders_def)

end
