(* ===== verification/OpenAI_Alias.thy ===== *)
theory OpenAI_Alias
  imports Account_Whitelist
begin

text \<open>
  The spellings of OpenAI model names (\<^verbatim>\<open>service/openai_model_alias.go\<close>, with the table of known models of
  \<^verbatim>\<open>service/openai_codex_transform.go\<close>): the canonical spelling, the known model a name stands for, the version in
  a name, and the names under which a request may be billed.

  \<^verbatim>\<open>strings.ReplaceAll\<close>, \<^verbatim>\<open>strings.Contains\<close>, \<^verbatim>\<open>strings.Fields\<close> and \<^verbatim>\<open>strings.Join\<close> work on the bytes of the
  string; a text to replace is never empty in this code.
\<close>

section \<open>Functions on strings\<close>

fun Contains :: "string \<Rightarrow> string \<Rightarrow> bool" where
  "Contains [] p = (p = [])"
| "Contains (c # s) p = (prefix p (c # s) \<or> Contains s p)"

function ReplaceAll :: "string \<Rightarrow> string \<Rightarrow> string \<Rightarrow> string" where
  "ReplaceAll old new [] = []"
| "ReplaceAll old new (c # s) =
     (if old \<noteq> [] \<and> prefix old (c # s) then new @ ReplaceAll old new (drop (length old) (c # s))
      else c # ReplaceAll old new s)"
  by pat_completeness auto
termination
  by (relation "measure (\<lambda>(old, new, s). length s)") auto

function fields_from :: "string \<Rightarrow> string \<Rightarrow> string list" where
  "fields_from word [] = (if word = [] then [] else [word])"
| "fields_from word (c # s) =
     (case first_prefix space_encodings (c # s) of
        Some e \<Rightarrow> (if word = [] then [] else [word]) @ fields_from [] (drop (length e) (c # s))
      | None \<Rightarrow> fields_from (word @ [c]) s)"
  by pat_completeness auto
termination
proof (relation "measure (\<lambda>(word, s). length s)")
  fix word c s e
  assume "first_prefix space_encodings (c # s) = Some e"
  then show "(([], drop (length e) (c # s)), (word, c # s)) \<in> measure (\<lambda>(word, s). length s)"
    using first_prefix_Some(2) by auto
qed auto

definition Fields :: "string \<Rightarrow> string list" where
  "Fields s = fields_from [] s"

fun Join :: "string \<Rightarrow> string list \<Rightarrow> string" where
  "Join sep [] = []"
| "Join sep [w] = w"
| "Join sep (w # ws) = w @ sep @ Join sep ws"

text \<open>Replacing two bytes by one shortens a string that holds them.\<close>

lemma ReplaceAll_length: "length new \<le> length old \<Longrightarrow> length (ReplaceAll old new s) \<le> length s"
proof (induction old new s rule: ReplaceAll.induct)
  case (2 old new c s)
  show ?case
  proof (cases "old \<noteq> [] \<and> prefix old (c # s)")
    case True
    then have "length old \<le> length (c # s)"
      using prefix_length_le by blast
    with True 2 show ?thesis
      by (auto simp del: drop_Cons')
  next
    case False
    with 2 show ?thesis
      by auto
  qed
qed simp

lemma ReplaceAll_shorter:
  "length new < length old \<Longrightarrow> Contains s old \<Longrightarrow> length (ReplaceAll old new s) < length s"
proof (induction old new s rule: ReplaceAll.induct)
  case (2 old new c s)
  show ?case
  proof (cases "old \<noteq> [] \<and> prefix old (c # s)")
    case True
    then have len: "length old \<le> length (c # s)"
      using prefix_length_le by blast
    have "length (ReplaceAll old new (drop (length old) (c # s))) \<le> length (drop (length old) (c # s))"
      using 2(3) by (intro ReplaceAll_length) simp
    with True len 2(3) show ?thesis
      by (auto simp del: drop_Cons')
  next
    case False
    then have "Contains s old"
      using 2(3,4) by auto
    with False 2 show ?thesis
      by auto
  qed
qed simp

function collapse_dashes :: "string \<Rightarrow> string" where
  "collapse_dashes s = (if Contains s ''--'' then collapse_dashes (ReplaceAll ''--'' ''-'' s) else s)"
  by pat_completeness auto
termination
  by (relation "measure length") (auto intro: ReplaceAll_shorter)

declare collapse_dashes.simps [simp del]

section \<open>Canonical spelling\<close>

definition alias_replacements :: "(string \<times> string) list" where
  "alias_replacements =
    [(''gpt-5.6sol'', ''gpt-5.6-sol''), (''gpt-5.6terra'', ''gpt-5.6-terra''), (''gpt-5.6luna'', ''gpt-5.6-luna''),
     (''gpt-5.5pro'', ''gpt-5.5-pro''), (''gpt-5.4mini'', ''gpt-5.4-mini''), (''gpt-5.4nano'', ''gpt-5.4-nano''),
     (''gpt-5.3-codexspark'', ''gpt-5.3-codex-spark''), (''gpt-5.3codexspark'', ''gpt-5.3-codex-spark''),
     (''gpt-5.3codex'', ''gpt-5.3-codex'')]"

definition canonicalizeOpenAIModelAliasSpelling :: "'z go_env_scheme \<Rightarrow> string \<Rightarrow> string" where
  "canonicalizeOpenAIModelAliasSpelling env model =
     (let model = to_lower env (lastOpenAIModelSegment model) in
      if model = [] then []
      else
        let normalized = collapse_dashes (Join ''-'' (Fields (ReplaceAll ''_'' ''-'' model)));
            normalized = (if prefix ''gpt5'' normalized then ''gpt-5'' @ drop 4 normalized else normalized) in
        if \<not> prefix ''gpt-'' normalized \<and> \<not> Contains normalized ''codex'' then []
        else fold (\<lambda>(from, to) s. ReplaceAll from to s) alias_replacements normalized)"

section \<open>The model a name stands for\<close>

definition codexModelMap :: "(string \<times> string) list" where
  "codexModelMap =
    [(''gpt-5.6-sol'', ''gpt-5.6-sol''), (''gpt-5.6-terra'', ''gpt-5.6-terra''), (''gpt-5.6-luna'', ''gpt-5.6-luna''),
     (''gpt-5.5-pro'', ''gpt-5.5-pro''), (''gpt-5.5'', ''gpt-5.5''), (''codex-auto-review'', ''codex-auto-review''),
     (''gpt-5.4'', ''gpt-5.4''), (''gpt-5.4-mini'', ''gpt-5.4-mini''), (''gpt-5.4-none'', ''gpt-5.4''),
     (''gpt-5.4-low'', ''gpt-5.4''), (''gpt-5.4-medium'', ''gpt-5.4''), (''gpt-5.4-high'', ''gpt-5.4''),
     (''gpt-5.4-xhigh'', ''gpt-5.4''), (''gpt-5.4-chat-latest'', ''gpt-5.4''), (''gpt-5.3'', ''gpt-5.3-codex''),
     (''gpt-5.3-none'', ''gpt-5.3-codex''), (''gpt-5.3-low'', ''gpt-5.3-codex''), (''gpt-5.3-medium'', ''gpt-5.3-codex''),
     (''gpt-5.3-high'', ''gpt-5.3-codex''), (''gpt-5.3-xhigh'', ''gpt-5.3-codex''), (''gpt-5.3-codex'', ''gpt-5.3-codex''),
     (''gpt-5.3-codex-spark'', ''gpt-5.3-codex-spark''), (''gpt-5.3-codex-spark-low'', ''gpt-5.3-codex-spark''),
     (''gpt-5.3-codex-spark-medium'', ''gpt-5.3-codex-spark''), (''gpt-5.3-codex-spark-high'', ''gpt-5.3-codex-spark''),
     (''gpt-5.3-codex-spark-xhigh'', ''gpt-5.3-codex-spark''), (''gpt-5.3-codex-low'', ''gpt-5.3-codex''),
     (''gpt-5.3-codex-medium'', ''gpt-5.3-codex''), (''gpt-5.3-codex-high'', ''gpt-5.3-codex''),
     (''gpt-5.3-codex-xhigh'', ''gpt-5.3-codex''), (''gpt-5.2'', ''gpt-5.2''), (''gpt-5.2-none'', ''gpt-5.2''),
     (''gpt-5.2-low'', ''gpt-5.2''), (''gpt-5.2-medium'', ''gpt-5.2''), (''gpt-5.2-high'', ''gpt-5.2''),
     (''gpt-5.2-xhigh'', ''gpt-5.2''), (''gpt-5'', ''gpt-5.4''), (''gpt-5-mini'', ''gpt-5.4''), (''gpt-5-nano'', ''gpt-5.4''),
     (''gpt-5.1'', ''gpt-5.4''), (''gpt-5.1-codex'', ''gpt-5.3-codex''), (''gpt-5.1-codex-max'', ''gpt-5.3-codex''),
     (''gpt-5.1-codex-mini'', ''gpt-5.3-codex''), (''gpt-5.2-codex'', ''gpt-5.2''),
     (''codex-mini-latest'', ''gpt-5.3-codex''), (''gpt-5-codex'', ''gpt-5.3-codex'')]"

definition codexModelLookupKey :: "'z go_env_scheme \<Rightarrow> string \<Rightarrow> string" where
  "codexModelLookupKey env modelID =
     (let modelID = TrimSpace modelID in
      if modelID = [] then []
      else
        let modelID = (if CHR ''/'' \<in> set modelID then after_last_slash modelID else modelID) in
        to_lower env (Join ''-'' (Fields modelID)))"

definition getNormalizedCodexModel :: "'z go_env_scheme \<Rightarrow> string \<Rightarrow> string" where
  "getNormalizedCodexModel env modelID =
     (let key = codexModelLookupKey env modelID in
      if key = [] then [] else case map_of codexModelMap key of Some mapped \<Rightarrow> mapped | None \<Rightarrow> [])"

definition isOpenAIGPT56Model :: "'z go_env_scheme \<Rightarrow> string \<Rightarrow> bool" where
  "isOpenAIGPT56Model env model =
     (let normalized = canonicalizeOpenAIModelAliasSpelling env model in
      list_ex (\<lambda>p. normalized = p \<or> prefix (p @ ''-'') normalized) [''gpt-5.6-sol'', ''gpt-5.6-terra'', ''gpt-5.6-luna''])"

definition isOpenAIGPT6AstraModel :: "'z go_env_scheme \<Rightarrow> string \<Rightarrow> bool" where
  "isOpenAIGPT6AstraModel env model =
     (let normalized = canonicalizeOpenAIModelAliasSpelling env model in
      normalized = ''gpt-6-astra'' \<or> prefix ''gpt-6-astra-'' normalized)"

text \<open>The branches for a name the table does not hold, in the order of the code.\<close>

definition known_by_part :: "'z go_env_scheme \<Rightarrow> string \<Rightarrow> string" where
  "known_by_part env n =
     (if isOpenAIGPT6AstraModel env n then ''gpt-6-astra''
      else if Contains n ''gpt-5.6-sol'' then ''gpt-5.6-sol''
      else if Contains n ''gpt-5.6-terra'' then ''gpt-5.6-terra''
      else if Contains n ''gpt-5.6-luna'' then ''gpt-5.6-luna''
      else if n = ''gpt-5.6'' \<or> prefix ''gpt-5.6-'' n then []
      else if Contains n ''gpt-5.5-pro'' then ''gpt-5.5-pro''
      else if Contains n ''gpt-5.5'' then ''gpt-5.5''
      else if Contains n ''gpt-5.4-mini'' then ''gpt-5.4-mini''
      else if Contains n ''gpt-5.4-nano'' then ''gpt-5.4-nano''
      else if Contains n ''gpt-5.4'' then ''gpt-5.4''
      else if Contains n ''gpt-5.2'' then ''gpt-5.2''
      else if Contains n ''gpt-5.3-codex-spark'' then ''gpt-5.3-codex-spark''
      else if Contains n ''gpt-5.3-codex'' then ''gpt-5.3-codex''
      else if Contains n ''gpt-5.3'' then ''gpt-5.3-codex''
      else if Contains n ''codex'' then ''gpt-5.3-codex''
      else if Contains n ''gpt-5'' then ''gpt-5.4''
      else [])"

definition compact_suffix :: string where
  "compact_suffix = ''-openai-compact''"

definition normalizeKnownOpenAICodexModel :: "'z go_env_scheme \<Rightarrow> string \<Rightarrow> string" where
  "normalizeKnownOpenAICodexModel env model =
     (let normalized = canonicalizeOpenAIModelAliasSpelling env model in
      if normalized = [] then []
      else
        let mapped = getNormalizedCodexModel env normalized in
        if mapped \<noteq> [] then mapped
        else
          let mapped = (if suffix compact_suffix normalized
                        then getNormalizedCodexModel env (take (length normalized - length compact_suffix) normalized)
                        else []) in
          if mapped \<noteq> [] then mapped else known_by_part env normalized)"

section \<open>Versions and reasoning efforts\<close>

text \<open>\<^verbatim>\<open>strconv.Atoi\<close> on a string of digits: an error outside the range of the integer type.\<close>

definition is_digit :: "char \<Rightarrow> bool" where
  "is_digit c \<longleftrightarrow> 48 \<le> byte c \<and> byte c \<le> 57"

definition Atoi_digits :: "string \<Rightarrow> int option" where
  "Atoi_digits ds =
     (let n = foldl (\<lambda>n c. 10 * n + (int (byte c) - 48)) 0 ds in if in_int64 n then Some n else None)"

definition parseOpenAIModelVersion :: "'z go_env_scheme \<Rightarrow> string \<Rightarrow> (int \<times> int) option" where
  "parseOpenAIModelVersion env model =
     (let normalized = canonicalizeOpenAIModelAliasSpelling env model in
      if normalized = [] \<or> \<not> prefix ''gpt-'' normalized then None
      else
        let rest = drop 4 normalized; ds = takeWhile is_digit rest; tail = dropWhile is_digit rest in
        if ds = [] then None
        else
          case Atoi_digits ds of
            None \<Rightarrow> None
          | Some major \<Rightarrow>
              (case tail of
                 [] \<Rightarrow> Some (major, 0)
               | c # tail \<Rightarrow>
                   if c \<noteq> CHR ''.'' then Some (major, 0)
                   else
                     let ms = takeWhile is_digit tail in
                     if ms = [] then None
                     else case Atoi_digits ms of None \<Rightarrow> None | Some minor \<Rightarrow> Some (major, minor)))"

definition isOpenAIModelAtLeastVersion :: "'z go_env_scheme \<Rightarrow> string \<Rightarrow> int \<Rightarrow> int \<Rightarrow> bool" where
  "isOpenAIModelAtLeastVersion env model minMajor minMinor =
     (case parseOpenAIModelVersion env model of
        None \<Rightarrow> False
      | Some (major, minor) \<Rightarrow> if major \<noteq> minMajor then minMajor < major else minMinor \<le> minor)"

definition openAIModelSupportsMaxReasoningEffort :: "'z go_env_scheme \<Rightarrow> string \<Rightarrow> bool" where
  "openAIModelSupportsMaxReasoningEffort env model =
     (if isOpenAIModelAtLeastVersion env model 5 6 then True
      else
        let normalized = ReplaceAll ''_'' ''-'' (to_lower env (lastOpenAIModelSegment model)) in
        if prefix ''deepseek-v4'' normalized then True
        else if prefix ''glm-'' normalized then True
        else if prefix ''kimi-'' normalized \<or> prefix ''moonshot-'' normalized then True
        else normalized = ''k3'' \<or> prefix ''k3-'' normalized)"

definition openAIModelSupportsReasoningEffort :: "'z go_env_scheme \<Rightarrow> string \<Rightarrow> string \<Rightarrow> bool" where
  "openAIModelSupportsReasoningEffort env model effort =
     (let v = to_lower env (TrimSpace effort) in
      if v = [] then False
      else
        let v = filter (\<lambda>c. c \<notin> {CHR ''-'', CHR ''_'', CHR '' ''}) v in
        if v = ''max'' then openAIModelSupportsMaxReasoningEffort env model
        else v \<noteq> ''ultra'')"

section \<open>Names under which a request may be billed\<close>

text \<open>The candidates with the set of their lower-case forms, as the closure of the code keeps them.\<close>

type_synonym candidates = "string list \<times> string set"

definition add_candidate :: "'z go_env_scheme \<Rightarrow> string \<Rightarrow> candidates \<Rightarrow> candidates" where
  "add_candidate env candidate cs =
     (let candidate = TrimSpace candidate; key = to_lower env candidate in
      if candidate = [] then cs
      else if key \<in> snd cs then cs
      else (fst cs @ [candidate], insert key (snd cs)))"

definition appendUsageBillingModelCandidate :: "'z go_env_scheme \<Rightarrow> string \<Rightarrow> candidates \<Rightarrow> candidates" where
  "appendUsageBillingModelCandidate env model cs =
     (let trimmed = TrimSpace model in
      if trimmed = [] then cs
      else
        let cs = add_candidate env trimmed cs;
            canonical = canonicalizeOpenAIModelAliasSpelling env trimmed;
            cs = (if canonical \<noteq> [] then add_candidate env canonical cs else cs);
            normalized = normalizeKnownOpenAICodexModel env trimmed in
        if normalized \<noteq> [] then add_candidate env normalized cs else cs)"

definition usageBillingModelCandidates :: "'z go_env_scheme \<Rightarrow> string \<Rightarrow> string list \<Rightarrow> string list" where
  "usageBillingModelCandidates env primary alternates =
     fst (fold (appendUsageBillingModelCandidate env) (primary # alternates) ([], {}))"

fun firstUsageBillingModel :: "string list \<Rightarrow> string" where
  "firstUsageBillingModel [] = []"
| "firstUsageBillingModel (c # cs) = (if TrimSpace c \<noteq> [] then TrimSpace c else firstUsageBillingModel cs)"

section \<open>A known model stands for itself\<close>

definition plain_char :: "char \<Rightarrow> bool" where
  "plain_char c \<longleftrightarrow> 33 \<le> byte c \<and> byte c \<le> 127 \<and> \<not> (65 \<le> byte c \<and> byte c \<le> 90) \<and> c \<noteq> CHR ''/'' \<and> c \<noteq> CHR ''_''"

lemma first_prefix_printable: "33 \<le> byte c \<Longrightarrow> byte c \<le> 127 \<Longrightarrow> first_prefix space_encodings (c # s) = None"
  using space_encodings_bytes by (fastforce simp: first_prefix_None prefix_Cons)

lemma fields_printable:
  "\<forall>c\<in>set s. 33 \<le> byte c \<and> byte c \<le> 127 \<Longrightarrow> fields_from w s = (if w @ s = [] then [] else [w @ s])"
proof (induction s arbitrary: w)
  case (Cons c s)
  have "first_prefix space_encodings (c # s) = None"
    using Cons.prems by (intro first_prefix_printable) auto
  with Cons show ?case
    by simp
qed simp

lemma ReplaceAll_absent: "c \<notin> set s \<Longrightarrow> ReplaceAll [c] new s = s"
  by (induction s) auto

definition known_models :: "string list" where
  "known_models =
    [''gpt-6-astra'', ''gpt-5.6-sol'', ''gpt-5.6-terra'', ''gpt-5.6-luna'', ''gpt-5.5-pro'', ''gpt-5.5'', ''codex-auto-review'',
     ''gpt-5.4'', ''gpt-5.4-mini'', ''gpt-5.4-nano'', ''gpt-5.3-codex'', ''gpt-5.3-codex-spark'', ''gpt-5.2'']"

lemma known_models_plain: "list_all (list_all plain_char) known_models"
  by code_simp

lemma plain_name:
  assumes "list_all plain_char s" and "s \<noteq> []"
  shows "TrimSpace s = s" and "to_lower env s = s" and "CHR ''/'' \<notin> set s" and "lastOpenAIModelSegment s = s"
    and "ReplaceAll ''_'' new s = s" and "Fields s = [s]"
proof -
  have p: "\<forall>c\<in>set s. 33 \<le> byte c \<and> byte c \<le> 127"
    using assms(1) by (auto simp: list_all_iff plain_char_def)
  then show trim: "TrimSpace s = s"
    by (rule TrimSpace_printable)
  have lower: "ascii_lower c = c" if "plain_char c" for c
    using that unfolding plain_char_def ascii_lower_def by presburger
  have "map ascii_lower s = s"
    using assms(1) lower by (intro map_idI) (simp add: list_all_iff)
  moreover have "is_ascii s"
    using p by (fastforce simp: is_ascii_def list_all_iff)
  ultimately show "to_lower env s = s"
    by (simp add: ToLower_def)
  have "\<not> plain_char CHR ''/''" "\<not> plain_char CHR ''_''"
    by (simp_all add: plain_char_def)
  then have "CHR ''/'' \<notin> set s" "CHR ''_'' \<notin> set s"
    using assms(1) unfolding list_all_iff by blast+
  then show slash: "CHR ''/'' \<notin> set s" and "ReplaceAll ''_'' new s = s"
    by (simp_all add: ReplaceAll_absent)
  from slash trim assms(2) show "lastOpenAIModelSegment s = s"
    by (simp add: lastOpenAIModelSegment_def)
  show "Fields s = [s]"
    using fields_printable [OF p, of "[]"] assms(2) by (simp add: Fields_def)
qed

lemma plain_canonical:
  assumes "list_all plain_char s" and "s \<noteq> []" and "\<not> Contains s ''--''" and "\<not> prefix ''gpt5'' s"
    and "prefix ''gpt-'' s \<or> Contains s ''codex''"
  shows "canonicalizeOpenAIModelAliasSpelling env s = fold (\<lambda>(from, to) s. ReplaceAll from to s) alias_replacements s"
  using assms by (auto simp: canonicalizeOpenAIModelAliasSpelling_def Let_def plain_name [OF assms(1,2)] collapse_dashes.simps)

text \<open>What the closed parts of the definitions evaluate to on the known models.\<close>

definition stable_spelling :: "string \<Rightarrow> bool" where
  "stable_spelling s \<longleftrightarrow> s \<noteq> [] \<and> \<not> Contains s ''--'' \<and> \<not> prefix ''gpt5'' s \<and> (prefix ''gpt-'' s \<or> Contains s ''codex'') \<and>
     fold (\<lambda>(from, to) s. ReplaceAll from to s) alias_replacements s = s"

lemma known_stable: "list_all stable_spelling known_models"
  by code_simp

lemma known_canonical: "s \<in> set known_models \<Longrightarrow> canonicalizeOpenAIModelAliasSpelling env s = s"
  using known_models_plain known_stable plain_canonical [of s env] by (auto simp: list_all_iff stable_spelling_def)

lemma known_lookup_key: "s \<in> set known_models \<Longrightarrow> codexModelLookupKey env s = s"
  using known_models_plain known_stable plain_name [of s]
  by (auto simp: list_all_iff stable_spelling_def codexModelLookupKey_def Let_def)

lemma known_in_table: "list_all (\<lambda>s. map_of codexModelMap s = (if s \<in> {''gpt-6-astra'', ''gpt-5.4-nano''} then None else Some s)) known_models"
  by (simp add: known_models_def codexModelMap_def)

lemma nano_parts:
  "list_all (\<lambda>p. \<not> Contains ''gpt-5.4-nano'' p)
    [''gpt-5.6-sol'', ''gpt-5.6-terra'', ''gpt-5.6-luna'', ''gpt-5.5-pro'', ''gpt-5.5'', ''gpt-5.4-mini'']"
  "Contains ''gpt-5.4-nano'' ''gpt-5.4-nano''"
  by code_simp+

lemma known_fixed:
  assumes "s \<in> set known_models"
  shows "normalizeKnownOpenAICodexModel env s = s"
proof -
  have ne: "s \<noteq> []"
    using assms by (auto simp: known_models_def)
  have table: "map_of codexModelMap s = (if s \<in> {''gpt-6-astra'', ''gpt-5.4-nano''} then None else Some s)"
    using assms known_in_table by (simp add: list_all_iff)
  have canonical: "canonicalizeOpenAIModelAliasSpelling env s = s" and key: "codexModelLookupKey env s = s"
    using assms by (simp_all add: known_canonical known_lookup_key)
  show ?thesis
  proof (cases "s \<in> {''gpt-6-astra'', ''gpt-5.4-nano''}")
    case True
    then have "known_by_part env s = s"
      using canonical nano_parts
      by (elim insertE) (simp_all add: known_by_part_def isOpenAIGPT6AstraModel_def del: Contains.simps)
    moreover have "length s < length compact_suffix"
      using True by (elim insertE) (simp_all add: compact_suffix_def)
    then have "\<not> suffix compact_suffix s"
      using suffix_length_le by fastforce
    ultimately show ?thesis
      using True ne table
      by (simp add: normalizeKnownOpenAICodexModel_def canonical getNormalizedCodexModel_def key)
  next
    case False
    with ne table show ?thesis
      by (simp add: normalizeKnownOpenAICodexModel_def canonical getNormalizedCodexModel_def key)
  qed
qed

lemma table_range: "list_all (\<lambda>(k, v). v \<in> set known_models) codexModelMap"
  by code_simp

lemma getNormalized_range: "getNormalizedCodexModel env m = [] \<or> getNormalizedCodexModel env m \<in> set known_models"
  using table_range
  by (auto simp: getNormalizedCodexModel_def Let_def list_all_iff dest!: map_of_SomeD split: option.split)

lemma known_by_part_range: "known_by_part env n = [] \<or> known_by_part env n \<in> set known_models"
  by (simp add: known_by_part_def known_models_def)

lemma known_range: "normalizeKnownOpenAICodexModel env m = [] \<or> normalizeKnownOpenAICodexModel env m \<in> set known_models"
proof -
  define n where "n = canonicalizeOpenAIModelAliasSpelling env m"
  have "normalizeKnownOpenAICodexModel env m \<in> {[], getNormalizedCodexModel env n, known_by_part env n,
      getNormalizedCodexModel env (take (length n - length compact_suffix) n)}"
    by (simp add: normalizeKnownOpenAICodexModel_def Let_def n_def [symmetric])
  then show ?thesis
    using getNormalized_range [of env n] known_by_part_range [of env n]
      getNormalized_range [of env "take (length n - length compact_suffix) n"] by (elim insertE) simp_all
qed

text \<open>
  The known model of a name stands for itself: resolving it again changes nothing, so the name of a billed model does
  not depend on how often it has been resolved; and it is a name without a price of its own (the empty string) or one of
  the thirteen known models.
\<close>

theorem known_model_stable:
  "normalizeKnownOpenAICodexModel env (normalizeKnownOpenAICodexModel env m) = normalizeKnownOpenAICodexModel env m \<and>
   normalizeKnownOpenAICodexModel env m \<in> set ([] # known_models)"
proof -
  have "normalizeKnownOpenAICodexModel env [] = []"
    by (simp add: normalizeKnownOpenAICodexModel_def canonicalizeOpenAIModelAliasSpelling_def lastOpenAIModelSegment_def
        ToLower_def is_ascii_def)
  with known_range [of env m] known_fixed [of "normalizeKnownOpenAICodexModel env m" env] show ?thesis
    by (elim disjE) simp_all
qed

section \<open>The candidates of a request\<close>

definition good_candidates :: "'z go_env_scheme \<Rightarrow> candidates \<Rightarrow> bool" where
  "good_candidates env cs \<longleftrightarrow>
     snd cs = set (map (to_lower env) (fst cs)) \<and> distinct (map (to_lower env) (fst cs)) \<and>
     list_all (\<lambda>c. c \<noteq> [] \<and> TrimSpace c = c) (fst cs)"

lemma add_candidate_good:
  assumes "good_candidates env cs"
  shows "good_candidates env (add_candidate env m cs)" and "prefix (fst cs) (fst (add_candidate env m cs))"
    and "TrimSpace m \<noteq> [] \<Longrightarrow> to_lower env (TrimSpace m) \<in> set (map (to_lower env) (fst (add_candidate env m cs)))"
  using assms by (auto simp: good_candidates_def add_candidate_def Let_def)

lemma append_candidate_good:
  assumes "good_candidates env cs"
  shows "good_candidates env (appendUsageBillingModelCandidate env m cs)"
    and "prefix (fst cs) (fst (appendUsageBillingModelCandidate env m cs))"
    and "TrimSpace m \<noteq> [] \<Longrightarrow>
      to_lower env (TrimSpace m) \<in> set (map (to_lower env) (fst (appendUsageBillingModelCandidate env m cs)))"
    and "fst cs = [] \<Longrightarrow> TrimSpace m \<noteq> [] \<Longrightarrow> \<exists>ys. fst (appendUsageBillingModelCandidate env m cs) = TrimSpace m # ys"
    and "TrimSpace m = [] \<Longrightarrow> appendUsageBillingModelCandidate env m cs = cs"
proof -
  let ?k = "canonicalizeOpenAIModelAliasSpelling env (TrimSpace m)"
  let ?n = "normalizeKnownOpenAICodexModel env (TrimSpace m)"
  define a where "a = add_candidate env (TrimSpace m) cs"
  define b where "b = (if ?k \<noteq> [] then add_candidate env ?k a else a)"
  define d where "d = (if ?n \<noteq> [] then add_candidate env ?n b else b)"
  have eq: "appendUsageBillingModelCandidate env m cs = (if TrimSpace m = [] then cs else d)"
    by (simp add: appendUsageBillingModelCandidate_def Let_def a_def b_def d_def)
  have a: "good_candidates env a" "prefix (fst cs) (fst a)"
    "TrimSpace m \<noteq> [] \<Longrightarrow> to_lower env (TrimSpace m) \<in> set (map (to_lower env) (fst a))"
    using add_candidate_good [OF assms, of "TrimSpace m"] by (simp_all add: a_def)
  have b: "good_candidates env b" "prefix (fst a) (fst b)"
    using add_candidate_good(1,2) [OF a(1)] a(1) by (auto simp: b_def)
  have d: "good_candidates env d" "prefix (fst a) (fst d)"
    using add_candidate_good(1,2) [OF b(1)] b by (auto simp: d_def intro: prefix_order.trans)
  from a(1) d show "good_candidates env (appendUsageBillingModelCandidate env m cs)"
    and "prefix (fst cs) (fst (appendUsageBillingModelCandidate env m cs))"
    using assms a(2) by (auto simp: eq intro: prefix_order.trans)
  show "to_lower env (TrimSpace m) \<in> set (map (to_lower env) (fst (appendUsageBillingModelCandidate env m cs)))"
    if "TrimSpace m \<noteq> []"
    using that a(3) [OF that] set_mono_prefix [OF d(2)] by (auto simp: eq)
  show "\<exists>ys. fst (appendUsageBillingModelCandidate env m cs) = TrimSpace m # ys" if "fst cs = []" "TrimSpace m \<noteq> []"
  proof -
    have "fst a = [TrimSpace m]"
      using that assms by (simp add: a_def add_candidate_def good_candidates_def Let_def)
    with d(2) that(2) show ?thesis
      by (auto simp: eq prefix_def)
  qed
  show "appendUsageBillingModelCandidate env m cs = cs" if "TrimSpace m = []"
    using that by (simp add: eq)
qed

lemma first_of_good: "good_candidates env (x # xs, seen) \<Longrightarrow> firstUsageBillingModel (x # xs) = x"
  by (simp add: good_candidates_def)

lemma candidates_fold:
  assumes "good_candidates env cs"
  shows "good_candidates env (fold (appendUsageBillingModelCandidate env) ms cs) \<and>
    prefix (fst cs) (fst (fold (appendUsageBillingModelCandidate env) ms cs)) \<and>
    set (map (to_lower env \<circ> TrimSpace) (filter (\<lambda>m. TrimSpace m \<noteq> []) ms))
      \<subseteq> set (map (to_lower env) (fst (fold (appendUsageBillingModelCandidate env) ms cs))) \<and>
    firstUsageBillingModel (fst (fold (appendUsageBillingModelCandidate env) ms cs)) =
      firstUsageBillingModel (fst cs @ ms)"
  using assms
proof (induction ms arbitrary: cs)
  case Nil
  then show ?case
    by simp
next
  case (Cons m ms)
  let ?c = "appendUsageBillingModelCandidate env m cs"
  note step = append_candidate_good [OF Cons.prems, of m]
  note IH = Cons.IH [OF step(1)]
  have head: "firstUsageBillingModel (fst ?c @ ms) = firstUsageBillingModel (fst cs @ m # ms)"
  proof (cases "fst cs")
    case Nil
    then show ?thesis
      using step(4,5) by (cases "TrimSpace m = []") auto
  next
    case (Cons x xs)
    then have "\<exists>ys. fst ?c = x # ys" "TrimSpace x = x" "x \<noteq> []"
      using step(2) Cons.prems by (auto simp: prefix_def good_candidates_def)
    with Cons show ?thesis
      by auto
  qed
  have sub: "set (map (to_lower env \<circ> TrimSpace) (filter (\<lambda>m. TrimSpace m \<noteq> []) (m # ms)))
      \<subseteq> set (map (to_lower env) (fst (fold (appendUsageBillingModelCandidate env) ms ?c)))"
    using IH step(3) set_mono_prefix [of "fst ?c" "fst (fold (appendUsageBillingModelCandidate env) ms ?c)"] by auto
  show ?case
    using IH head sub step(2) by (simp add: prefix_order.trans del: filter.simps list.map)
qed


end
