(* ===== verification/Token_Cost.thy ===== *)
theory Token_Cost
  imports OpenAI_Alias Channel_Pricing
begin

text \<open>
  What a request costs (\<^verbatim>\<open>service/billing_service.go\<close>): the price card of a model, the service tiers, the corrections
  that belong to a model, the prices of a channel over those of the catalogue, and the breakdown of the cost of the tokens.

  The record \<open>PriceCard\<close> is the struct \<^verbatim>\<open>ModelPricing\<close>.  The catalogue (\<^verbatim>\<open>GetModelPricing\<close>: price file and
  fallback table) is an argument that gives a card or none.  Amounts are \<^verbatim>\<open>float64\<close> values with the rounding of the
  environment; sums of token counts wrap around as \<^verbatim>\<open>int\<close> does.  A card is a value, so cloning it is the identity.
\<close>

section \<open>Price cards, usage, costs\<close>

record PriceCard =
  InputPricePerToken :: float64
  InputPricePerTokenPriority :: float64
  ImageInputPricePerToken :: float64
  OutputPricePerToken :: float64
  OutputPricePerTokenPriority :: float64
  CacheCreationPricePerToken :: float64
  CacheCreationPricePerTokenPriority :: float64
  CacheCreationPriceExplicit :: bool
  cacheCreationPriorityDerived :: bool
  CacheReadPricePerToken :: float64
  CacheReadPricePerTokenPriority :: float64
  CacheCreation5mPrice :: float64
  CacheCreation1hPrice :: float64
  SupportsCacheBreakdown :: bool
  SupportsServiceTier :: bool
  FastModeMultiplier :: price
  FastMultiplier :: price
  FlexMultiplier :: price
  LongContextInputThreshold :: int
  LongContextThresholdInclusive :: bool
  LongContextInputMultiplier :: float64
  LongContextOutputMultiplier :: float64
  ImageOutputPricePerToken :: float64
  ImageOutputPriceExplicit :: bool

definition zero_card :: PriceCard where
  "zero_card =
     \<lparr>InputPricePerToken = Fin 0, InputPricePerTokenPriority = Fin 0, ImageInputPricePerToken = Fin 0,
      OutputPricePerToken = Fin 0, OutputPricePerTokenPriority = Fin 0, CacheCreationPricePerToken = Fin 0,
      CacheCreationPricePerTokenPriority = Fin 0, CacheCreationPriceExplicit = False,
      cacheCreationPriorityDerived = False, CacheReadPricePerToken = Fin 0, CacheReadPricePerTokenPriority = Fin 0,
      CacheCreation5mPrice = Fin 0, CacheCreation1hPrice = Fin 0, SupportsCacheBreakdown = False,
      SupportsServiceTier = False, FastModeMultiplier = None, FastMultiplier = None, FlexMultiplier = None,
      LongContextInputThreshold = 0, LongContextThresholdInclusive = False, LongContextInputMultiplier = Fin 0,
      LongContextOutputMultiplier = Fin 0, ImageOutputPricePerToken = Fin 0, ImageOutputPriceExplicit = False\<rparr>"

record UsageTokens =
  InputTokens :: int
  ImageInputTokens :: int
  OutputTokens :: int
  CacheCreationTokens :: int
  CacheReadTokens :: int
  CacheCreation5mTokens :: int
  CacheCreation1hTokens :: int
  ImageOutputTokens :: int

record CostBreakdown =
  InputCost :: float64
  ImageInputCost :: float64
  OutputCost :: float64
  ImageOutputCost :: float64
  CacheCreationCost :: float64
  CacheReadCost :: float64
  TotalCost :: float64
  ActualCost :: float64
  CostBillingMode :: string
  LongContextBillingApplied :: bool

abbreviation positive :: "float64 \<Rightarrow> bool" where
  "positive x \<equiv> flt (Fin 0) x"

definition input_total :: "UsageTokens \<Rightarrow> int" where
  "input_total t = wrap64 (InputTokens t + CacheCreationTokens t + CacheReadTokens t)"

section \<open>Service tiers\<close>

definition normalizeBillingServiceTier :: "'z go_env_scheme \<Rightarrow> string \<Rightarrow> string" where
  "normalizeBillingServiceTier env tier = to_lower env (TrimSpace tier)"

definition is_fast :: "'z go_env_scheme \<Rightarrow> string \<Rightarrow> bool" where
  "is_fast env tier \<longleftrightarrow> normalizeBillingServiceTier env tier \<in> {''priority'', ''fast''}"

definition usePriorityServiceTierPricing :: "'z go_env_scheme \<Rightarrow> string \<Rightarrow> PriceCard \<Rightarrow> bool" where
  "usePriorityServiceTierPricing env tier c =
     (if \<not> is_fast env tier then False
      else if FastModeMultiplier c \<noteq> None \<or> FastMultiplier c \<noteq> None then False
      else positive (InputPricePerTokenPriority c) \<or> positive (OutputPricePerTokenPriority c) \<or>
        positive (CacheCreationPricePerTokenPriority c) \<or> positive (CacheReadPricePerTokenPriority c))"

definition serviceTierCostMultiplier :: "'z go_env_scheme \<Rightarrow> string \<Rightarrow> float64" where
  "serviceTierCostMultiplier env tier =
     (if is_fast env tier then Fin 2
      else if normalizeBillingServiceTier env tier = ''flex'' then Fin (1 / 2)
      else Fin 1)"

text \<open>The second component tells whether a multiplier is configured.\<close>

definition normalizedFastModeMultiplier :: "PriceCard \<Rightarrow> float64 \<times> bool" where
  "normalizedFastModeMultiplier c =
     (case (case FastModeMultiplier c of None \<Rightarrow> FastMultiplier c | Some x \<Rightarrow> Some x) of
        None \<Rightarrow> (Fin 1, False)
      | Some x \<Rightarrow> (if flt x (Fin 0) then Fin 0 else x, True))"

definition configuredServiceTierMultiplier :: "'z go_env_scheme \<Rightarrow> string \<Rightarrow> PriceCard \<Rightarrow> float64" where
  "configuredServiceTierMultiplier env tier c =
     (if is_fast env tier \<and> snd (normalizedFastModeMultiplier c) then fst (normalizedFastModeMultiplier c)
      else if normalizeBillingServiceTier env tier = ''flex'' \<and> FlexMultiplier c \<noteq> None then the (FlexMultiplier c)
      else serviceTierCostMultiplier env tier)"

definition at_least_zero :: "float64 \<Rightarrow> float64" where
  "at_least_zero x = (if flt x (Fin 0) then Fin 0 else x)"

definition applyChannelFastModeMultiplier :: "PriceCard \<Rightarrow> ChannelModelPricing \<Rightarrow> PriceCard" where
  "applyChannelFastModeMultiplier c p =
     (case (case ChFastMultiplier p of None \<Rightarrow> ChFastModeMultiplier p | Some x \<Rightarrow> Some x) of
        None \<Rightarrow> c
      | Some x \<Rightarrow> c\<lparr>FastModeMultiplier := Some (at_least_zero x), FastMultiplier := Some (at_least_zero x)\<rparr>)"

definition applyChannelFlexMultiplier :: "PriceCard \<Rightarrow> ChannelModelPricing \<Rightarrow> PriceCard" where
  "applyChannelFlexMultiplier c p =
     (case ChFlexMultiplier p of None \<Rightarrow> c | Some x \<Rightarrow> c\<lparr>FlexMultiplier := Some (at_least_zero x)\<rparr>)"

definition applyCostBreakdownMultiplier :: "'z go_env_scheme \<Rightarrow> CostBreakdown \<Rightarrow> float64 \<Rightarrow> CostBreakdown" where
  "applyCostBreakdownMultiplier env b m =
     (if m = Fin 1 then b
      else b\<lparr>InputCost := fmul env (InputCost b) m, ImageInputCost := fmul env (ImageInputCost b) m,
             OutputCost := fmul env (OutputCost b) m, ImageOutputCost := fmul env (ImageOutputCost b) m,
             CacheCreationCost := fmul env (CacheCreationCost b) m, CacheReadCost := fmul env (CacheReadCost b) m,
             TotalCost := fmul env (TotalCost b) m, ActualCost := fmul env (ActualCost b) m\<rparr>)"

section \<open>Corrections that belong to a model\<close>

definition isDeepSeekModel :: "'z go_env_scheme \<Rightarrow> string \<Rightarrow> bool" where
  "isDeepSeekModel env model \<longleftrightarrow> prefix ''deepseek-'' (to_lower env (TrimSpace model))"

definition beijing :: Location where
  "beijing = \<lparr>base_offset = 8 * hour, tx = []\<rparr>"

definition deepseekPeakMultiplierAt :: "gtime \<Rightarrow> float64" where
  "deepseekPeakMultiplierAt now =
     (if Weekday beijing now \<in> {6, 0} then Fin 1
      else
        let h = clock_of UTC now div hour in
        if 1 \<le> h \<and> h < 4 \<or> 6 \<le> h \<and> h < 10 then Fin 2 else Fin 1)"

text \<open>A decimal constant of the source is the float nearest to it.\<close>

definition applyDeepSeekOfficialPricing :: "'z go_env_scheme \<Rightarrow> string \<Rightarrow> PriceCard \<Rightarrow> PriceCard" where
  "applyDeepSeekOfficialPricing env model c =
     (if \<not> isDeepSeekModel env model then c
      else if Contains (to_lower env (TrimSpace model)) ''deepseek-v4-pro''
      then c\<lparr>InputPricePerToken := round64 env (66 / 10 ^ 8), OutputPricePerToken := round64 env (198 / 10 ^ 8),
             CacheReadPricePerToken := round64 env (22 / 10 ^ 9)\<rparr>
      else c\<lparr>InputPricePerToken := round64 env (22 / 10 ^ 8), OutputPricePerToken := round64 env (66 / 10 ^ 8),
             CacheReadPricePerToken := round64 env (7 / 10 ^ 9)\<rparr>)"

definition applyDeepSeekPeakPricing :: "'z go_env_scheme \<Rightarrow> gtime \<Rightarrow> string \<Rightarrow> PriceCard \<Rightarrow> gtime \<Rightarrow> PriceCard" where
  "applyDeepSeekPeakPricing env now model c pricingAt =
     (if \<not> isDeepSeekModel env model then c
      else
        let m = deepseekPeakMultiplierAt (if IsZero pricingAt then now else pricingAt) in
        if fle m (Fin 1) then c
        else c\<lparr>InputPricePerToken := fmul env (InputPricePerToken c) m,
               OutputPricePerToken := fmul env (OutputPricePerToken c) m,
               CacheReadPricePerToken := fmul env (CacheReadPricePerToken c) m\<rparr>)"

definition openAIModelFastPricingRatio :: "string \<Rightarrow> rat" where
  "openAIModelFastPricingRatio normalized =
     (if normalized \<in> {''gpt-5.4'', ''gpt-5.6-sol'', ''gpt-5.6-terra'', ''gpt-5.6-luna''} then 2
      else if normalized = ''gpt-5.5'' then 5 / 2
      else 0)"

definition enforceOpenAIFastPricingRatio :: "'z go_env_scheme \<Rightarrow> PriceCard \<Rightarrow> rat \<Rightarrow> PriceCard" where
  "enforceOpenAIFastPricingRatio env c ratio =
     (if ratio \<le> 0 then c
      else
        let c = c\<lparr>InputPricePerTokenPriority := fmul env (InputPricePerToken c) (Fin ratio),
                  OutputPricePerTokenPriority := fmul env (OutputPricePerToken c) (Fin ratio)\<rparr>;
            c = (if positive (CacheReadPricePerToken c)
                 then c\<lparr>CacheReadPricePerTokenPriority := fmul env (CacheReadPricePerToken c) (Fin ratio)\<rparr> else c) in
        if \<not> CacheCreationPriceExplicit c \<and> positive (CacheCreationPricePerToken c)
        then
          let native = positive (CacheCreationPricePerTokenPriority c);
              p = fmul env (CacheCreationPricePerToken c) (Fin ratio) in
          c\<lparr>CacheCreationPricePerTokenPriority := p, cacheCreationPriorityDerived := \<not> native \<and> positive p\<rparr>
        else c)"

definition applyModelSpecificPricingPolicyEx :: "'z go_env_scheme \<Rightarrow> string \<Rightarrow> PriceCard \<Rightarrow> bool \<Rightarrow> PriceCard" where
  "applyModelSpecificPricingPolicyEx env model c forceDeepSeekRates =
     (if forceDeepSeekRates \<and> isDeepSeekModel env model then applyDeepSeekOfficialPricing env model c
      else
        let normalized = normalizeKnownOpenAICodexModel env model;
            isGPT56 = isOpenAIGPT56Model env normalized;
            needsCacheCreationPolicy = (isGPT56 \<and> \<not> CacheCreationPriceExplicit c \<and>
              (fle (CacheCreationPricePerToken c) (Fin 0) \<or>
               positive (InputPricePerTokenPriority c) \<and> fle (CacheCreationPricePerTokenPriority c) (Fin 0)));
            fastRatio = openAIModelFastPricingRatio normalized in
        if \<not> needsCacheCreationPolicy \<and> fastRatio \<le> 0 then c
        else
          let c = (if isGPT56 \<and> \<not> CacheCreationPriceExplicit c \<and> fle (CacheCreationPricePerToken c) (Fin 0)
                   then c\<lparr>CacheCreationPricePerToken := fmul env (InputPricePerToken c) (Fin (5 / 4))\<rparr> else c);
              c = (if isGPT56 \<and> \<not> CacheCreationPriceExplicit c \<and> fle (CacheCreationPricePerTokenPriority c) (Fin 0)
                   then c\<lparr>CacheCreationPricePerTokenPriority := fmul env (InputPricePerTokenPriority c) (Fin (5 / 4))\<rparr>
                   else c) in
          if 0 < fastRatio then enforceOpenAIFastPricingRatio env c fastRatio else c)"

definition applyModelSpecificPricingPolicy :: "'z go_env_scheme \<Rightarrow> string \<Rightarrow> PriceCard \<Rightarrow> PriceCard" where
  "applyModelSpecificPricingPolicy env model c = applyModelSpecificPricingPolicyEx env model c True"

section \<open>Prices of a channel over those of the catalogue\<close>

definition channelTierOverridePrice :: "'z go_env_scheme \<Rightarrow> float64 \<Rightarrow> float64 \<Rightarrow> float64 \<Rightarrow> float64" where
  "channelTierOverridePrice env baseStandard baseTier channelStandard =
     (if positive baseStandard \<and> positive baseTier then fmul env channelStandard (fdiv env baseTier baseStandard) else Fin 0)"

definition override_input :: "'z go_env_scheme \<Rightarrow> price \<Rightarrow> PriceCard \<Rightarrow> PriceCard" where
  "override_input env price c =
     (case price of
        None \<Rightarrow> c
      | Some x \<Rightarrow>
          c\<lparr>InputPricePerToken := x,
            InputPricePerTokenPriority := channelTierOverridePrice env (InputPricePerToken c) (InputPricePerTokenPriority c) x\<rparr>)"

definition override_output :: "'z go_env_scheme \<Rightarrow> price \<Rightarrow> PriceCard \<Rightarrow> PriceCard" where
  "override_output env price c =
     (case price of
        None \<Rightarrow> c
      | Some x \<Rightarrow>
          c\<lparr>OutputPricePerToken := x,
            OutputPricePerTokenPriority := channelTierOverridePrice env (OutputPricePerToken c) (OutputPricePerTokenPriority c) x\<rparr>)"

definition override_cache_read :: "'z go_env_scheme \<Rightarrow> price \<Rightarrow> PriceCard \<Rightarrow> PriceCard" where
  "override_cache_read env price c =
     (case price of
        None \<Rightarrow> c
      | Some x \<Rightarrow>
          c\<lparr>CacheReadPricePerToken := x,
            CacheReadPricePerTokenPriority :=
              channelTierOverridePrice env (CacheReadPricePerToken c) (CacheReadPricePerTokenPriority c) x\<rparr>)"

text \<open>The price of writing the cache; \<open>base\<close> is the priority price the tier price is derived from.\<close>

definition override_cache_write :: "'z go_env_scheme \<Rightarrow> float64 \<Rightarrow> price \<Rightarrow> price \<Rightarrow> PriceCard \<Rightarrow> PriceCard" where
  "override_cache_write env base price price1h c =
     (case price of
        None \<Rightarrow> c
      | Some x \<Rightarrow>
          let c = c\<lparr>CacheCreationPricePerToken := x,
                    CacheCreationPricePerTokenPriority := channelTierOverridePrice env (CacheCreationPricePerToken c) base x,
                    CacheCreationPriceExplicit := True, CacheCreation5mPrice := x\<rparr> in
          if price1h = None then c\<lparr>CacheCreation1hPrice := x\<rparr> else c)"

definition override_cache_1h :: "price \<Rightarrow> PriceCard \<Rightarrow> PriceCard" where
  "override_cache_1h price1h c =
     (case price1h of None \<Rightarrow> c | Some x \<Rightarrow> c\<lparr>CacheCreation1hPrice := x, SupportsCacheBreakdown := True\<rparr>)"

definition applyChannelTokenPriceOverrides :: "'z go_env_scheme \<Rightarrow> PriceCard \<Rightarrow> ChannelModelPricing \<Rightarrow> PriceCard" where
  "applyChannelTokenPriceOverrides env c p =
     (let c = override_output env (ChOutputPrice p) (override_input env (ChInputPrice p) c);
          base = (if cacheCreationPriorityDerived c then Fin 0 else CacheCreationPricePerTokenPriority c);
          c = override_cache_write env base (ChCacheWritePrice p) (ChCacheWrite1hPrice p) c;
          c = (if ChCacheWritePrice p = None then c else c\<lparr>cacheCreationPriorityDerived := False\<rparr>) in
      override_cache_read env (ChCacheReadPrice p) (override_cache_1h (ChCacheWrite1hPrice p) c))"

definition applyChannelImageInputPrice :: "ChannelModelPricing \<Rightarrow> PriceCard \<Rightarrow> PriceCard" where
  "applyChannelImageInputPrice p c =
     c\<lparr>ImageInputPricePerToken := (case ChImageInputPrice p of Some x \<Rightarrow> x | None \<Rightarrow> Fin 0)\<rparr>"

definition apply_image_output :: "ChannelModelPricing \<Rightarrow> PriceCard \<Rightarrow> PriceCard" where
  "apply_image_output p c =
     c\<lparr>ImageOutputPricePerToken := (case ChImageOutputPrice p of Some x \<Rightarrow> x | None \<Rightarrow> Fin 0),
       ImageOutputPriceExplicit := True\<rparr>"

definition normalizedPriceMultiplier :: "ChannelModelPricing \<Rightarrow> price" where
  "normalizedPriceMultiplier p = map_option at_least_zero (ChPriceMultiplier p)"

definition multiplyModelPricing :: "'z go_env_scheme \<Rightarrow> float64 \<Rightarrow> PriceCard \<Rightarrow> PriceCard" where
  "multiplyModelPricing env m c =
     c\<lparr>InputPricePerToken := fmul env (InputPricePerToken c) m,
       InputPricePerTokenPriority := fmul env (InputPricePerTokenPriority c) m,
       ImageInputPricePerToken := fmul env (ImageInputPricePerToken c) m,
       OutputPricePerToken := fmul env (OutputPricePerToken c) m,
       OutputPricePerTokenPriority := fmul env (OutputPricePerTokenPriority c) m,
       CacheCreationPricePerToken := fmul env (CacheCreationPricePerToken c) m,
       CacheCreationPricePerTokenPriority := fmul env (CacheCreationPricePerTokenPriority c) m,
       CacheReadPricePerToken := fmul env (CacheReadPricePerToken c) m,
       CacheReadPricePerTokenPriority := fmul env (CacheReadPricePerTokenPriority c) m,
       CacheCreation5mPrice := fmul env (CacheCreation5mPrice c) m,
       CacheCreation1hPrice := fmul env (CacheCreation1hPrice c) m,
       ImageOutputPricePerToken := fmul env (ImageOutputPricePerToken c) m\<rparr>"

text \<open>\<^verbatim>\<open>catalogue\<close> is \<^verbatim>\<open>GetModelPricing\<close>: no card stands for its error.\<close>

definition GetModelPricingWithChannel ::
  "'z go_env_scheme \<Rightarrow> (string \<Rightarrow> PriceCard option) \<Rightarrow> string \<Rightarrow> ChannelModelPricing option \<Rightarrow> PriceCard option" where
  "GetModelPricingWithChannel env catalogue model channelPricing =
     (case catalogue model of
        None \<Rightarrow> None
      | Some c \<Rightarrow>
          (case channelPricing of
             None \<Rightarrow> Some c
           | Some p \<Rightarrow>
               let c = applyChannelImageInputPrice p (apply_image_output p (applyChannelTokenPriceOverrides env c p));
                   c = (case normalizedPriceMultiplier p of None \<Rightarrow> c | Some m \<Rightarrow> multiplyModelPricing env m c) in
               Some (applyChannelFlexMultiplier (applyChannelFastModeMultiplier c p) p)))"

section \<open>The cost of the tokens\<close>

text \<open>\<^verbatim>\<open>math.Round\<close>: half away from zero, without an error on a float.\<close>

definition round_half_away :: "rat \<Rightarrow> int" where
  "round_half_away r = (if 0 \<le> r then \<lfloor>r + 1 / 2\<rfloor> else - \<lfloor>1 / 2 - r\<rfloor>)"

fun fround :: "float64 \<Rightarrow> float64" where
  "fround (Fin r) = Fin (of_int (round_half_away r))"
| "fround f = f"

definition normalizeCacheCreationBreakdown :: "'z go_env_scheme \<Rightarrow> UsageTokens \<Rightarrow> int \<times> int" where
  "normalizeCacheCreationBreakdown env t =
     (let c5 = max 0 (CacheCreation5mTokens t); c1 = max 0 (CacheCreation1hTokens t); aggregate = CacheCreationTokens t in
      if aggregate \<le> 0 \<or> c5 \<le> aggregate \<and> c1 \<le> wrap64 (aggregate - c5) then (c5, c1)
      else
        let detailTotal = fadd env (float_of_int env c5) (float_of_int env c1);
            n5 = fround (fdiv env (fmul env (float_of_int env aggregate) (float_of_int env c5)) detailTotal);
            c5 = (if fle (float_of_int env aggregate) n5 then aggregate else int_of_float env n5) in
        (c5, wrap64 (aggregate - c5)))"

definition computeCacheCreationCost :: "'z go_env_scheme \<Rightarrow> PriceCard \<Rightarrow> UsageTokens \<Rightarrow> float64 \<Rightarrow> float64 \<Rightarrow> float64" where
  "computeCacheCreationCost env c t price m =
     (if SupportsCacheBreakdown c \<and> (positive (CacheCreation5mPrice c) \<or> positive (CacheCreation1hPrice c))
      then
        let (c5, c1) = normalizeCacheCreationBreakdown env t in
        if c5 = 0 \<and> c1 = 0 \<and> 0 < CacheCreationTokens t
        then fmul env (fmul env (float_of_int env (CacheCreationTokens t)) (CacheCreation5mPrice c)) m
        else fadd env (fmul env (fmul env (float_of_int env c5) (CacheCreation5mPrice c)) m)
                      (fmul env (fmul env (float_of_int env c1) (CacheCreation1hPrice c)) m)
      else fmul env (fmul env (float_of_int env (CacheCreationTokens t)) price) m)"

definition longContextMultiplierOrOne :: "float64 \<Rightarrow> float64" where
  "longContextMultiplierOrOne m = (if fle m (Fin 0) then Fin 1 else m)"

definition shouldApplySessionLongContextPricing :: "UsageTokens \<Rightarrow> PriceCard \<Rightarrow> bool" where
  "shouldApplySessionLongContextPricing t c =
     (if LongContextInputThreshold c \<le> 0 then False
      else if fle (LongContextInputMultiplier c) (Fin 1) \<and> fle (LongContextOutputMultiplier c) (Fin 1) then False
      else if LongContextThresholdInclusive c then LongContextInputThreshold c \<le> input_total t
      else LongContextInputThreshold c < input_total t)"

text \<open>The prices in force for a request, with the multiplier of its tier.\<close>

record rates =
  rate_input :: float64
  rate_output :: float64
  rate_cache_read :: float64
  rate_cache_creation :: float64
  cache_creation_multiplier :: float64
  tier_multiplier :: float64

definition tier_rates :: "'z go_env_scheme \<Rightarrow> PriceCard \<Rightarrow> string \<Rightarrow> rates" where
  "tier_rates env c tier =
     (let r = \<lparr>rate_input = InputPricePerToken c, rate_output = OutputPricePerToken c,
               rate_cache_read = CacheReadPricePerToken c, rate_cache_creation = CacheCreationPricePerToken c,
               cache_creation_multiplier = Fin 1, tier_multiplier = Fin 1\<rparr> in
      if is_fast env tier
      then
        if snd (normalizedFastModeMultiplier c) then r\<lparr>tier_multiplier := fst (normalizedFastModeMultiplier c)\<rparr>
        else if usePriorityServiceTierPricing env tier c
        then
          r\<lparr>rate_input := if positive (InputPricePerTokenPriority c) then InputPricePerTokenPriority c else rate_input r,
            rate_output := if positive (OutputPricePerTokenPriority c) then OutputPricePerTokenPriority c else rate_output r,
            rate_cache_read :=
              if positive (CacheReadPricePerTokenPriority c) then CacheReadPricePerTokenPriority c else rate_cache_read r,
            rate_cache_creation :=
              if positive (CacheCreationPricePerTokenPriority c) then CacheCreationPricePerTokenPriority c
              else rate_cache_creation r\<rparr>
        else r\<lparr>tier_multiplier := serviceTierCostMultiplier env tier\<rparr>
      else r\<lparr>tier_multiplier := configuredServiceTierMultiplier env tier c\<rparr>)"

definition long_context_rates :: "'z go_env_scheme \<Rightarrow> PriceCard \<Rightarrow> rates \<Rightarrow> rates" where
  "long_context_rates env c r =
     (let m = longContextMultiplierOrOne (LongContextInputMultiplier c) in
      r\<lparr>rate_input := fmul env (rate_input r) m,
        rate_output := fmul env (rate_output r) (longContextMultiplierOrOne (LongContextOutputMultiplier c)),
        rate_cache_read := fmul env (rate_cache_read r) m, cache_creation_multiplier := m\<rparr>)"

text \<open>The text and the image tokens of the input.\<close>

definition split_input :: "UsageTokens \<Rightarrow> int \<times> int" where
  "split_input t =
     (if ImageInputTokens t \<le> 0 then (InputTokens t, 0)
      else
        let text = wrap64 (InputTokens t - ImageInputTokens t) in
        if text < 0 then (0, InputTokens t) else (text, ImageInputTokens t))"

definition cost_at_rates :: "'z go_env_scheme \<Rightarrow> PriceCard \<Rightarrow> UsageTokens \<Rightarrow> rates \<Rightarrow> float64 \<Rightarrow> CostBreakdown" where
  "cost_at_rates env c t r rateMultiplier =
     (let image_price = (if ImageInputPricePerToken c = Fin 0 then rate_input r else ImageInputPricePerToken c);
          input = fmul env (float_of_int env (fst (split_input t))) (rate_input r);
          image_input = (if 0 < ImageInputTokens t then fmul env (float_of_int env (snd (split_input t))) image_price else Fin 0);
          text_output = max 0 (wrap64 (OutputTokens t - ImageOutputTokens t));
          output = fmul env (float_of_int env text_output) (rate_output r);
          image_output_price =
            (if ImageOutputPricePerToken c = Fin 0 \<and> \<not> ImageOutputPriceExplicit c then rate_output r
             else ImageOutputPricePerToken c);
          image_output =
            (if 0 < ImageOutputTokens t then fmul env (float_of_int env (ImageOutputTokens t)) image_output_price else Fin 0);
          cache_creation = computeCacheCreationCost env c t (rate_cache_creation r) (cache_creation_multiplier r);
          cache_read = fmul env (float_of_int env (CacheReadTokens t)) (rate_cache_read r);
          tiered = (\<lambda>x. if tier_multiplier r \<noteq> Fin 1 then fmul env x (tier_multiplier r) else x);
          total = fadd env (fadd env (fadd env (fadd env (fadd env (tiered input) (tiered image_input)) (tiered output))
                    (tiered image_output)) (tiered cache_creation)) (tiered cache_read) in
      \<lparr>InputCost = tiered input, ImageInputCost = tiered image_input, OutputCost = tiered output,
       ImageOutputCost = tiered image_output, CacheCreationCost = tiered cache_creation, CacheReadCost = tiered cache_read,
       TotalCost = total, ActualCost = fmul env total rateMultiplier, CostBillingMode = [],
       LongContextBillingApplied = False\<rparr>)"

text \<open>
  \<^verbatim>\<open>computeTokenBreakdown\<close>: where long-context prices apply it calls itself once more without them, for the cost to
  compare with.
\<close>

definition computeTokenBreakdown ::
  "'z go_env_scheme \<Rightarrow> PriceCard \<Rightarrow> UsageTokens \<Rightarrow> float64 \<Rightarrow> string \<Rightarrow> bool \<Rightarrow> CostBreakdown" where
  "computeTokenBreakdown env c t rateMultiplier tier applyLongCtx =
     (let rateMultiplier = at_least_zero rateMultiplier;
          r = tier_rates env c tier;
          baseline = cost_at_rates env c t r rateMultiplier in
      if applyLongCtx \<and> shouldApplySessionLongContextPricing t c
      then
        let b = cost_at_rates env c t (long_context_rates env c r) rateMultiplier in
        b\<lparr>LongContextBillingApplied := flt (ActualCost baseline) (ActualCost b)\<rparr>
      else baseline)"

definition calculateCostInternal ::
  "'z go_env_scheme \<Rightarrow> (string \<Rightarrow> PriceCard option) \<Rightarrow> gtime \<Rightarrow> string \<Rightarrow> UsageTokens \<Rightarrow> float64 \<Rightarrow> string \<Rightarrow>
     ChannelModelPricing option \<Rightarrow> CostBreakdown option" where
  "calculateCostInternal env catalogue now model t rateMultiplier tier channelPricing =
     (case GetModelPricingWithChannel env catalogue model channelPricing of
        None \<Rightarrow> None
      | Some c \<Rightarrow>
          let c = (if channelPricing = None then applyDeepSeekPeakPricing env now model c 0 else c) in
          Some (computeTokenBreakdown env c t rateMultiplier tier True))"

definition CalculateCostWithServiceTier ::
  "'z go_env_scheme \<Rightarrow> (string \<Rightarrow> PriceCard option) \<Rightarrow> gtime \<Rightarrow> string \<Rightarrow> UsageTokens \<Rightarrow> float64 \<Rightarrow> string \<Rightarrow>
     CostBreakdown option" where
  "CalculateCostWithServiceTier env catalogue now model t rateMultiplier tier =
     calculateCostInternal env catalogue now model t rateMultiplier tier None"

definition CalculateCost ::
  "'z go_env_scheme \<Rightarrow> (string \<Rightarrow> PriceCard option) \<Rightarrow> gtime \<Rightarrow> string \<Rightarrow> UsageTokens \<Rightarrow> float64 \<Rightarrow> CostBreakdown option" where
  "CalculateCost env catalogue now model t rateMultiplier =
     calculateCostInternal env catalogue now model t rateMultiplier [] None"

definition CalculateCostWithConfig ::
  "'z go_env_scheme \<Rightarrow> (string \<Rightarrow> PriceCard option) \<Rightarrow> gtime \<Rightarrow> float64 \<Rightarrow> string \<Rightarrow> UsageTokens \<Rightarrow> CostBreakdown option" where
  "CalculateCostWithConfig env catalogue now configured model t =
     CalculateCost env catalogue now model t (if fle configured (Fin 0) then Fin 1 else configured)"

definition GetEstimatedCost ::
  "'z go_env_scheme \<Rightarrow> (string \<Rightarrow> PriceCard option) \<Rightarrow> gtime \<Rightarrow> float64 \<Rightarrow> string \<Rightarrow> int \<Rightarrow> int \<Rightarrow> float64 option" where
  "GetEstimatedCost env catalogue now configured model input output =
     map_option ActualCost (CalculateCostWithConfig env catalogue now configured model
       \<lparr>InputTokens = input, ImageInputTokens = 0, OutputTokens = output, CacheCreationTokens = 0, CacheReadTokens = 0,
        CacheCreation5mTokens = 0, CacheCreation1hTokens = 0, ImageOutputTokens = 0\<rparr>)"

text \<open>
  The cost with a threshold of the caller: what exceeds it is billed at a higher rate.  The second component tells whether
  there was an error.
\<close>

definition bill :: "CostBreakdown option \<Rightarrow> CostBreakdown option \<times> bool" where
  "bill b = (b, b = None)"

definition tokens_within :: "UsageTokens \<Rightarrow> int \<Rightarrow> int \<times> int" where
  "tokens_within t threshold =
     (if threshold \<le> CacheReadTokens t then (threshold, 0) else (CacheReadTokens t, wrap64 (threshold - CacheReadTokens t)))"

definition out_of_range :: "UsageTokens \<Rightarrow> int \<Rightarrow> int \<times> int" where
  "out_of_range t threshold =
     (if threshold \<le> CacheReadTokens t then (wrap64 (CacheReadTokens t - threshold), InputTokens t)
      else (0, wrap64 (InputTokens t - wrap64 (threshold - CacheReadTokens t))))"

definition CalculateCostWithLongContextAndServiceTier ::
  "'z go_env_scheme \<Rightarrow> (string \<Rightarrow> PriceCard option) \<Rightarrow> gtime \<Rightarrow> string \<Rightarrow> UsageTokens \<Rightarrow> float64 \<Rightarrow> int \<Rightarrow> float64 \<Rightarrow>
     string \<Rightarrow> CostBreakdown option \<times> bool" where
  "CalculateCostWithLongContextAndServiceTier env catalogue now model t rateMultiplier threshold extraMultiplier tier =
     (if threshold \<le> 0 \<or> fle extraMultiplier (Fin 1) \<or> wrap64 (CacheReadTokens t + InputTokens t) \<le> threshold
      then bill (CalculateCostWithServiceTier env catalogue now model t rateMultiplier tier)
      else
        let inside = \<lparr>InputTokens = snd (tokens_within t threshold), ImageInputTokens = 0, OutputTokens = OutputTokens t,
              CacheCreationTokens = CacheCreationTokens t, CacheReadTokens = fst (tokens_within t threshold),
              CacheCreation5mTokens = CacheCreation5mTokens t, CacheCreation1hTokens = CacheCreation1hTokens t,
              ImageOutputTokens = ImageOutputTokens t\<rparr>;
            outside = \<lparr>InputTokens = snd (out_of_range t threshold), ImageInputTokens = 0, OutputTokens = 0,
              CacheCreationTokens = 0, CacheReadTokens = fst (out_of_range t threshold),
              CacheCreation5mTokens = 0, CacheCreation1hTokens = 0, ImageOutputTokens = 0\<rparr> in
        (case CalculateCostWithServiceTier env catalogue now model inside rateMultiplier tier of
           None \<Rightarrow> (None, True)
         | Some a \<Rightarrow>
             (case CalculateCostWithServiceTier env catalogue now model outside (fmul env rateMultiplier extraMultiplier) tier of
                None \<Rightarrow> (Some a, True)
              | Some b \<Rightarrow>
                  (Some \<lparr>InputCost = fadd env (InputCost a) (InputCost b),
                     ImageInputCost = fadd env (ImageInputCost a) (ImageInputCost b), OutputCost = OutputCost a,
                     ImageOutputCost = ImageOutputCost a, CacheCreationCost = CacheCreationCost a,
                     CacheReadCost = fadd env (CacheReadCost a) (CacheReadCost b),
                     TotalCost = fadd env (TotalCost a) (TotalCost b), ActualCost = fadd env (ActualCost a) (ActualCost b),
                     CostBillingMode = [], LongContextBillingApplied = positive (ActualCost b)\<rparr>, False))))"

definition CalculateCostWithLongContext ::
  "'z go_env_scheme \<Rightarrow> (string \<Rightarrow> PriceCard option) \<Rightarrow> gtime \<Rightarrow> string \<Rightarrow> UsageTokens \<Rightarrow> float64 \<Rightarrow> int \<Rightarrow> float64 \<Rightarrow>
     CostBreakdown option \<times> bool" where
  "CalculateCostWithLongContext env catalogue now model t rateMultiplier threshold extraMultiplier =
     CalculateCostWithLongContextAndServiceTier env catalogue now model t rateMultiplier threshold extraMultiplier []"

section \<open>Cache details never exceed the total\<close>

text \<open>Integers of up to 53 bits are floats.\<close>

definition counts_exact :: "'z go_env_scheme \<Rightarrow> bool" where
  "counts_exact env \<longleftrightarrow> (\<forall>i::int. \<bar>i\<bar> \<le> 2 ^ 53 \<longrightarrow> round64 env (of_int i) = Fin (of_int i))"

lemma counts_exactD: "counts_exact env \<Longrightarrow> 0 \<le> i \<Longrightarrow> i \<le> 2 ^ 53 \<Longrightarrow> float_of_int env i = Fin (of_int i)"
  by (simp add: counts_exact_def float_of_int_def)

lemma round_half_away_nonneg: "0 \<le> r \<Longrightarrow> 0 \<le> round_half_away r"
  by (simp add: round_half_away_def)

lemma nonneg_cases:
  assumes "fle (Fin 0) x"
  obtains r where "x = Fin r" and "0 \<le> r" | "x = PosInf"
  using assms by (cases x) auto

text \<open>The share of the five-minute tokens is never negative and a number.\<close>

lemma share_nonneg:
  assumes "rounds env" and "counts_exact env" and "0 \<le> c5" "c5 \<le> 2 ^ 53" and "0 \<le> c1" "c1 \<le> 2 ^ 53" and "0 < c5 + c1"
    and "0 \<le> a" "a \<le> 2 ^ 53"
  shows "fle (Fin 0) (fround (fdiv env (fmul env (float_of_int env a) (float_of_int env c5))
    (fadd env (float_of_int env c5) (float_of_int env c1))))"
proof -
  have D: "fadd env (float_of_int env c5) (float_of_int env c1) = round64 env (of_int (c5 + c1))"
    using assms by (simp add: counts_exactD)
  have "\<bar>of_int (c5 + c1) :: rat\<bar> \<le> of_int (2 ^ 65)"
    using assms(3-6) by (simp add: abs_of_nonneg del: of_int_add of_int_power of_int_numeral)
  then obtain d where d: "round64 env (of_int (c5 + c1)) = Fin d"
    using rounds_finite [OF assms(1), of "of_int (c5 + c1)"] by auto
  have "fle (Fin 1) (round64 env (of_int (c5 + c1)))"
    using rounds_mono [OF assms(1), of 1 "of_int (c5 + c1)"] assms(7) rounds_one [OF assms(1)]
    by (simp del: of_int_add)
  with d have "1 \<le> d"
    by simp
  note D = D [unfolded d]
  have "fle (Fin 0) (fmul env (float_of_int env a) (float_of_int env c5))"
    using assms by (simp add: counts_exactD rounds_nonneg)
  then show ?thesis
  proof (cases rule: nonneg_cases)
    case (1 p)
    then have "fle (Fin 0) (round64 env (p / d))"
      using \<open>1 \<le> d\<close> assms(1) by (intro rounds_nonneg) simp_all
    then show ?thesis
      using 1 \<open>1 \<le> d\<close> by (cases rule: nonneg_cases) (simp_all add: D round_half_away_nonneg)
  next
    case 2
    then show ?thesis
      using \<open>1 \<le> d\<close> by (simp add: D)
  qed
qed

lemma cache_details:
  assumes "rounds env" and "counts_exact env" and "0 < CacheCreationTokens t" and "CacheCreationTokens t \<le> 2 ^ 53"
    and "CacheCreation5mTokens t \<le> 2 ^ 53" and "CacheCreation1hTokens t \<le> 2 ^ 53"
  shows "let (c5, c1) = normalizeCacheCreationBreakdown env t;
             r5 = max 0 (CacheCreation5mTokens t); r1 = max 0 (CacheCreation1hTokens t) in
         0 \<le> c5 \<and> 0 \<le> c1 \<and> c5 + c1 = min (CacheCreationTokens t) (r5 + r1) \<and>
         (r5 + r1 \<le> CacheCreationTokens t \<longrightarrow> c5 = r5 \<and> c1 = r1)"
proof -
  define a where "a = CacheCreationTokens t"
  define r5 where "r5 = max 0 (CacheCreation5mTokens t)"
  define r1 where "r1 = max 0 (CacheCreation1hTokens t)"
  define n5 where "n5 = fround (fdiv env (fmul env (float_of_int env a) (float_of_int env r5))
    (fadd env (float_of_int env r5) (float_of_int env r1)))"
  have a: "0 < a" "a \<le> 2 ^ 53" and r: "0 \<le> r5" "r5 \<le> 2 ^ 53" "0 \<le> r1" "r1 \<le> 2 ^ 53"
    using assms by (simp_all add: a_def r5_def r1_def)
  have wrap: "wrap64 (a - x) = a - x" if "0 \<le> x" "x \<le> 2 ^ 53" for x
    using that a by (intro wrap64_id) (simp add: in_int64_def min_int64_def max_int64_def)
  have eq: "normalizeCacheCreationBreakdown env t =
      (if r5 + r1 \<le> a then (r5, r1)
       else let c5 = (if fle (float_of_int env a) n5 then a else int_of_float env n5) in (c5, wrap64 (a - c5)))"
    using a r wrap [of r5]
    by (auto simp: normalizeCacheCreationBreakdown_def Let_def a_def [symmetric] r5_def [symmetric] r1_def [symmetric] n5_def)
  have part: "0 \<le> c5 \<and> c5 \<le> a" if "a < r5 + r1" "c5 = (if fle (float_of_int env a) n5 then a else int_of_float env n5)" for c5
  proof (cases "fle (float_of_int env a) n5")
    case False
    have "fle (Fin 0) n5"
      unfolding n5_def using share_nonneg [OF assms(1,2) r(1,2,3,4), of a] a that(1) by simp
    with False obtain q where q: "n5 = Fin q" "0 \<le> q" "q < of_int a"
      using a assms(2) by (cases n5) (auto simp: counts_exactD not_le)
    then have "0 \<le> truncate_rat q" "truncate_rat q \<le> a"
      by (auto simp: truncate_rat_def floor_le_iff)
    then show ?thesis
      using False that(2) q(1) a by (simp add: int_of_float_def in_int64_def min_int64_def max_int64_def)
  qed (use that a in simp)
  show ?thesis
  proof (cases "r5 + r1 \<le> a")
    case True
    then show ?thesis
      using r by (simp add: eq a_def [symmetric] r5_def [symmetric] r1_def [symmetric])
  next
    case False
    define c5 where "c5 = (if fle (float_of_int env a) n5 then a else int_of_float env n5)"
    have "0 \<le> c5 \<and> c5 \<le> a"
      using False by (intro part c5_def) simp
    then have "wrap64 (a - c5) = a - c5"
      using a(2) by (intro wrap) simp_all
    with False \<open>0 \<le> c5 \<and> c5 \<le> a\<close> show ?thesis
      by (simp add: eq Let_def c5_def [symmetric] a_def [symmetric] r5_def [symmetric] r1_def [symmetric])
  qed
qed

text \<open>
  C8. The details of the cache writes never exceed their total: for a positive total the five-minute and the one-hour tokens
  that are billed are not negative and add up to the smaller of the total and the reported details, whatever the provider
  reports; consistent details are billed as they are.
\<close>

theorem cache_details_capped:
  assumes "rounds env" and "counts_exact env" and "0 < CacheCreationTokens t" and "CacheCreationTokens t \<le> 2 ^ 53"
    and "CacheCreation5mTokens t \<le> 2 ^ 53" and "CacheCreation1hTokens t \<le> 2 ^ 53"
  shows "let (c5, c1) = normalizeCacheCreationBreakdown env t;
             r5 = max 0 (CacheCreation5mTokens t); r1 = max 0 (CacheCreation1hTokens t) in
         0 \<le> c5 \<and> 0 \<le> c1 \<and> c5 + c1 = min (CacheCreationTokens t) (r5 + r1) \<and>
         (r5 + r1 \<le> CacheCreationTokens t \<longrightarrow> c5 = r5 \<and> c1 = r1)"
  using assms by (rule cache_details)

section \<open>Costs in exact arithmetic\<close>

text \<open>
  The arithmetic without rounding: every amount is a rational number, the cost a sum of products of counts and prices.
\<close>

abbreviation exact :: "'z go_env_scheme \<Rightarrow> bool" where
  "exact env \<equiv> round64 env = Fin"

definition is_fin :: "float64 \<Rightarrow> bool" where
  "is_fin x \<longleftrightarrow> (case x of Fin _ \<Rightarrow> True | _ \<Rightarrow> False)"

definition val :: "float64 \<Rightarrow> rat" where
  "val x = (case x of Fin r \<Rightarrow> r | _ \<Rightarrow> 0)"

lemma fin_simps [simp]: "is_fin (Fin r)" "\<not> is_fin PosInf" "\<not> is_fin NegInf" "\<not> is_fin NaN" "val (Fin r) = r"
  by (simp_all add: is_fin_def val_def)

lemma fin_val: "is_fin x \<Longrightarrow> Fin (val x) = x"
  by (cases x) simp_all

lemma fin_eq: "is_fin x \<Longrightarrow> x = Fin r \<longleftrightarrow> val x = r"
  by (cases x) simp_all

lemma fin_flt: "is_fin x \<Longrightarrow> is_fin y \<Longrightarrow> flt x y \<longleftrightarrow> val x < val y"
  by (cases x; cases y) simp_all

lemma fin_fle: "is_fin x \<Longrightarrow> is_fin y \<Longrightarrow> fle x y \<longleftrightarrow> val x \<le> val y"
  by (cases x; cases y) simp_all

lemma fmul_exact: "exact env \<Longrightarrow> is_fin x \<Longrightarrow> is_fin y \<Longrightarrow> fmul env x y = Fin (val x * val y)"
  by (cases x; cases y) simp_all

lemma fadd_exact: "exact env \<Longrightarrow> is_fin x \<Longrightarrow> is_fin y \<Longrightarrow> fadd env x y = Fin (val x + val y)"
  by (cases x; cases y) simp_all

lemma fdiv_exact: "exact env \<Longrightarrow> is_fin x \<Longrightarrow> is_fin y \<Longrightarrow> val y \<noteq> 0 \<Longrightarrow> fdiv env x y = Fin (val x / val y)"
  by (cases x; cases y) simp_all

lemma count_exact: "exact env \<Longrightarrow> float_of_int env i = Fin (of_int i)"
  by (simp add: float_of_int_def)

lemmas exact_simps = fmul_exact fadd_exact count_exact fin_flt fin_fle fin_eq

definition finite_card :: "PriceCard \<Rightarrow> bool" where
  "finite_card c \<longleftrightarrow>
     list_all is_fin [InputPricePerToken c, InputPricePerTokenPriority c, ImageInputPricePerToken c, OutputPricePerToken c,
       OutputPricePerTokenPriority c, CacheCreationPricePerToken c, CacheCreationPricePerTokenPriority c,
       CacheReadPricePerToken c, CacheReadPricePerTokenPriority c, CacheCreation5mPrice c, CacheCreation1hPrice c,
       ImageOutputPricePerToken c, LongContextInputMultiplier c, LongContextOutputMultiplier c] \<and>
     list_all (pred_option is_fin) [FastModeMultiplier c, FastMultiplier c, FlexMultiplier c]"

definition finite_rates :: "rates \<Rightarrow> bool" where
  "finite_rates r \<longleftrightarrow>
     list_all is_fin [rate_input r, rate_output r, rate_cache_read r, rate_cache_creation r, cache_creation_multiplier r,
       tier_multiplier r]"

definition cache_creation_amount :: "'z go_env_scheme \<Rightarrow> PriceCard \<Rightarrow> UsageTokens \<Rightarrow> rat \<Rightarrow> rat" where
  "cache_creation_amount env c t price =
     (let p5 = val (CacheCreation5mPrice c); p1 = val (CacheCreation1hPrice c);
          (c5, c1) = normalizeCacheCreationBreakdown env t in
      if SupportsCacheBreakdown c \<and> (0 < p5 \<or> 0 < p1)
      then if c5 = 0 \<and> c1 = 0 \<and> 0 < CacheCreationTokens t then of_int (CacheCreationTokens t) * p5
           else of_int c5 * p5 + of_int c1 * p1
      else of_int (CacheCreationTokens t) * price)"

definition part_amounts :: "'z go_env_scheme \<Rightarrow> PriceCard \<Rightarrow> UsageTokens \<Rightarrow> rates \<Rightarrow> rat list" where
  "part_amounts env c t r =
     [of_int (fst (split_input t)) * val (rate_input r),
      (if 0 < ImageInputTokens t
       then of_int (snd (split_input t)) *
         (if val (ImageInputPricePerToken c) = 0 then val (rate_input r) else val (ImageInputPricePerToken c))
       else 0),
      of_int (max 0 (wrap64 (OutputTokens t - ImageOutputTokens t))) * val (rate_output r),
      (if 0 < ImageOutputTokens t
       then of_int (ImageOutputTokens t) *
         (if val (ImageOutputPricePerToken c) = 0 \<and> \<not> ImageOutputPriceExplicit c then val (rate_output r)
          else val (ImageOutputPricePerToken c))
       else 0),
      cache_creation_amount env c t (val (rate_cache_creation r)) * val (cache_creation_multiplier r),
      of_int (CacheReadTokens t) * val (rate_cache_read r)]"

text \<open>The parts with their sum and the sum at the rate of the customer.\<close>

definition bill_amounts :: "rat list \<Rightarrow> rat \<Rightarrow> rat list" where
  "bill_amounts parts q = parts @ [sum_list parts, sum_list parts * q]"

definition amounts :: "CostBreakdown \<Rightarrow> float64 list" where
  "amounts b = [InputCost b, ImageInputCost b, OutputCost b, ImageOutputCost b, CacheCreationCost b, CacheReadCost b,
     TotalCost b, ActualCost b]"

lemma amounts_flag [simp]: "amounts (b\<lparr>LongContextBillingApplied := x\<rparr>) = amounts b"
  by (simp add: amounts_def)

lemma amounts_mode [simp]: "amounts (b\<lparr>CostBillingMode := x\<rparr>) = amounts b"
  by (simp add: amounts_def)

lemma cache_creation_exact:
  assumes "exact env" and "finite_card c" and "is_fin p" and "is_fin m"
  shows "computeCacheCreationCost env c t p m = Fin (cache_creation_amount env c t (val p) * val m)"
proof -
  have fin: "is_fin (CacheCreation5mPrice c)" "is_fin (CacheCreation1hPrice c)"
    using assms(2) by (simp_all add: finite_card_def)
  show ?thesis
    unfolding computeCacheCreationCost_def cache_creation_amount_def Let_def
    by (cases "normalizeCacheCreationBreakdown env t") (auto simp: fin assms exact_simps distrib_right)
qed

lemma cost_exact:
  assumes "exact env" and "finite_card c" and "finite_rates r" and "is_fin q"
  shows "amounts (cost_at_rates env c t r q) =
    map Fin (bill_amounts (map (\<lambda>x. x * val (tier_multiplier r)) (part_amounts env c t r)) (val q))"
proof -
  have tiered: "(if tier_multiplier r \<noteq> Fin 1 then fmul env x (tier_multiplier r) else x) = Fin (val x * val (tier_multiplier r))"
    if "is_fin x" for x
    using that assms(1,3) by (auto simp: finite_rates_def exact_simps fin_val)
  have cards: "is_fin (ImageInputPricePerToken c)" "is_fin (ImageOutputPricePerToken c)"
    using assms(2) by (simp_all add: finite_card_def)
  have rs: "is_fin (rate_input r)" "is_fin (rate_output r)" "is_fin (rate_cache_read r)" "is_fin (rate_cache_creation r)"
    "is_fin (cache_creation_multiplier r)"
    using assms(3) by (simp_all add: finite_rates_def)
  show ?thesis
    unfolding cost_at_rates_def Let_def amounts_def bill_amounts_def part_amounts_def
    by (simp add: tiered cards rs assms(1,4) exact_simps cache_creation_exact [OF assms(1,2)] if_distrib [of is_fin]
        if_distrib [of val] if_distrib [of Fin] add.assoc cong: if_cong)
qed

section \<open>Tiers and long contexts\<close>

lemma finite_tier_rates: "finite_card c \<Longrightarrow> finite_rates (tier_rates env c tier)"
  by (auto simp: finite_card_def finite_rates_def tier_rates_def Let_def normalizedFastModeMultiplier_def
      configuredServiceTierMultiplier_def serviceTierCostMultiplier_def split: option.splits)

lemma finite_long_context: "exact env \<Longrightarrow> finite_card c \<Longrightarrow> finite_rates r \<Longrightarrow> finite_rates (long_context_rates env c r)"
  by (auto simp: finite_card_def finite_rates_def long_context_rates_def Let_def longContextMultiplierOrOne_def exact_simps)

lemma part_amounts_tier [simp]: "part_amounts env c t (r\<lparr>tier_multiplier := k\<rparr>) = part_amounts env c t r"
  by (simp add: part_amounts_def)

lemma long_context_tier [simp]:
  "long_context_rates env c (r\<lparr>tier_multiplier := k\<rparr>) = (long_context_rates env c r)\<lparr>tier_multiplier := k\<rparr>"
  "tier_multiplier (long_context_rates env c r) = tier_multiplier r"
  by (simp_all add: long_context_rates_def Let_def)

lemma bill_amounts_scale: "bill_amounts (map (\<lambda>x. x * k) ps) q = map (\<lambda>x. x * k) (bill_amounts ps q)"
  by (simp add: bill_amounts_def sum_list_mult_const algebra_simps)

lemma map_fmul_exact: "exact env \<Longrightarrow> is_fin k \<Longrightarrow> map (\<lambda>x. fmul env x k) (map Fin xs) = map Fin (map (\<lambda>x. x * val k) xs)"
  by (simp add: exact_simps)

text \<open>The tier multiplier scales every amount.\<close>

lemma cost_tier_scale:
  assumes "exact env" and "finite_card c" and "finite_rates r" and "is_fin q" and "is_fin k"
  shows "amounts (cost_at_rates env c t (r\<lparr>tier_multiplier := k\<rparr>) q) =
    map (\<lambda>x. fmul env x k) (amounts (cost_at_rates env c t (r\<lparr>tier_multiplier := Fin 1\<rparr>) q))"
proof -
  have fin: "finite_rates (r\<lparr>tier_multiplier := x\<rparr>)" if "is_fin x" for x
    using assms(3) that by (simp add: finite_rates_def)
  show ?thesis
    using assms fin by (simp add: cost_exact fmul_exact bill_amounts_scale)
qed

definition card_rates :: "PriceCard \<Rightarrow> rates" where
  "card_rates c = \<lparr>rate_input = InputPricePerToken c, rate_output = OutputPricePerToken c,
     rate_cache_read = CacheReadPricePerToken c, rate_cache_creation = CacheCreationPricePerToken c,
     cache_creation_multiplier = Fin 1, tier_multiplier = Fin 1\<rparr>"

lemma tier_rates_configured:
  assumes "is_fast env tier \<longrightarrow> snd (normalizedFastModeMultiplier c)"
  shows "tier_rates env c tier = (card_rates c)\<lparr>tier_multiplier := configuredServiceTierMultiplier env tier c\<rparr>"
  using assms by (auto simp: tier_rates_def card_rates_def configuredServiceTierMultiplier_def)

lemma normal_tier: "\<not> is_fast env []" "configuredServiceTierMultiplier env [] c = Fin 1"
  by (simp_all add: is_fast_def normalizeBillingServiceTier_def ToLower_def is_ascii_def configuredServiceTierMultiplier_def
      serviceTierCostMultiplier_def)

text \<open>
  C16. A tier with a configured multiplier scales the normal bill: unless the request is in the fast tier and the card has no
  multiplier for it (where the priority prices of the catalogue apply), every amount of the bill, the parts, the total and
  what the customer pays, is the amount of the same request in the normal tier times the multiplier of the tier, with or
  without prices for long contexts.  (In exact arithmetic.)
\<close>

theorem tier_multiplies_normal_bill:
  assumes "round64 env = Fin" and "finite_card c" and "is_fin q"
    and "is_fast env tier \<longrightarrow> snd (normalizedFastModeMultiplier c)"
  shows "amounts (computeTokenBreakdown env c t q tier long) =
    map (\<lambda>x. fmul env x (configuredServiceTierMultiplier env tier c)) (amounts (computeTokenBreakdown env c t q [] long))"
proof -
  let ?k = "configuredServiceTierMultiplier env tier c"
  have q: "is_fin (at_least_zero q)"
    using assms(3) by (simp add: at_least_zero_def)
  have k: "is_fin ?k"
    using assms(2) by (auto simp: configuredServiceTierMultiplier_def serviceTierCostMultiplier_def normalizedFastModeMultiplier_def
        finite_card_def split: option.splits)
  have base: "finite_rates (card_rates c)"
    using assms(2) by (simp add: finite_rates_def finite_card_def card_rates_def)
  have rates: "tier_rates env c tier = (card_rates c)\<lparr>tier_multiplier := ?k\<rparr>"
    "tier_rates env c [] = (card_rates c)\<lparr>tier_multiplier := Fin 1\<rparr>"
    using tier_rates_configured [OF assms(4)] tier_rates_configured [of env "[]" c] by (simp_all add: normal_tier)
  show ?thesis
    using cost_tier_scale [OF assms(1,2) base q k, of t]
      cost_tier_scale [OF assms(1,2) finite_long_context [OF assms(1,2) base] q k, of t]
    by (simp add: computeTokenBreakdown_def Let_def rates)
qed

definition nonneg_card :: "PriceCard \<Rightarrow> bool" where
  "nonneg_card c \<longleftrightarrow>
     list_all (\<lambda>x. 0 \<le> val x) [InputPricePerToken c, InputPricePerTokenPriority c, ImageInputPricePerToken c, OutputPricePerToken c,
       OutputPricePerTokenPriority c, CacheCreationPricePerToken c, CacheCreationPricePerTokenPriority c,
       CacheReadPricePerToken c, CacheReadPricePerTokenPriority c, CacheCreation5mPrice c, CacheCreation1hPrice c,
       ImageOutputPricePerToken c] \<and>
     pred_option (\<lambda>x. 0 \<le> val x) (FlexMultiplier c)"

definition nonneg_usage :: "UsageTokens \<Rightarrow> bool" where
  "nonneg_usage t \<longleftrightarrow>
     list_all (\<lambda>n. 0 \<le> n \<and> n \<le> 2 ^ 53) [InputTokens t, ImageInputTokens t, OutputTokens t, CacheCreationTokens t,
       CacheReadTokens t, CacheCreation5mTokens t, CacheCreation1hTokens t, ImageOutputTokens t]"

definition nonneg_rates :: "rates \<Rightarrow> bool" where
  "nonneg_rates r \<longleftrightarrow>
     list_all (\<lambda>x. 0 \<le> val x) [rate_input r, rate_output r, rate_cache_read r, rate_cache_creation r, tier_multiplier r]"

lemma nonneg_tier_rates: "nonneg_card c \<Longrightarrow> finite_card c \<Longrightarrow> nonneg_rates (tier_rates env c tier)"
  by (auto simp: nonneg_card_def finite_card_def nonneg_rates_def tier_rates_def Let_def normalizedFastModeMultiplier_def fin_flt not_less
      configuredServiceTierMultiplier_def serviceTierCostMultiplier_def split: option.splits)

lemma split_input_nonneg: "nonneg_usage t \<Longrightarrow> 0 \<le> fst (split_input t) \<and> 0 \<le> snd (split_input t)"
  by (auto simp: nonneg_usage_def split_input_def Let_def)

lemma cache_creation_amount_nonneg:
  assumes "exact env" and "nonneg_card c" and "nonneg_usage t" and "0 \<le> p"
  shows "0 \<le> cache_creation_amount env c t p"
proof -
  have "0 \<le> fst (normalizeCacheCreationBreakdown env t)" "0 \<le> snd (normalizeCacheCreationBreakdown env t)"
    using cache_details [OF rounds_exact [OF assms(1)], of t] assms(1,3)
    by (auto simp: nonneg_usage_def counts_exact_def normalizeCacheCreationBreakdown_def Let_def not_less split: prod.splits)
  with assms(2-4) show ?thesis
    by (auto simp: cache_creation_amount_def nonneg_card_def nonneg_usage_def Let_def split: prod.splits)
qed

lemma bill_amounts_mono:
  assumes "list_all2 (\<le>) ps ps'" and "0 \<le> q"
  shows "list_all2 (\<le>) (bill_amounts ps q) (bill_amounts ps' q)"
proof -
  have "sum_list ps \<le> sum_list ps'"
    using assms(1) by (induction rule: list_all2_induct) auto
  with assms show ?thesis
    by (simp add: bill_amounts_def list_all2_appendI mult_right_mono)
qed

lemma part_amounts_mono:
  assumes "exact env" and "nonneg_card c" and "finite_card c" and "nonneg_usage t" and "finite_rates r" and "nonneg_rates r"
    and "cache_creation_multiplier r = Fin 1"
    and "fle (LongContextInputMultiplier c) (Fin 0) \<or> fle (Fin 1) (LongContextInputMultiplier c)"
    and "fle (LongContextOutputMultiplier c) (Fin 0) \<or> fle (Fin 1) (LongContextOutputMultiplier c)"
  shows "list_all2 (\<le>) (part_amounts env c t r) (part_amounts env c t (long_context_rates env c r))"
proof -
  define m where "m = longContextMultiplierOrOne (LongContextInputMultiplier c)"
  define n where "n = longContextMultiplierOrOne (LongContextOutputMultiplier c)"
  have m: "is_fin m" "1 \<le> val m" and n: "is_fin n" "1 \<le> val n"
    using assms(3,8,9) by (auto simp: m_def n_def longContextMultiplierOrOne_def finite_card_def fin_fle)
  have up: "a * x \<le> a * (x * y)" if "0 \<le> a" "0 \<le> x" "1 \<le> y" for a x y :: rat
    using that by (intro mult_left_mono) (simp_all add: mult_le_cancel_left1)
  have up1: "x \<le> x * y" if "0 \<le> x" "1 \<le> y" for x y :: rat
    using that by (simp add: mult_le_cancel_left1)
  have fin: "is_fin (rate_input r)" "is_fin (rate_output r)" "is_fin (rate_cache_read r)"
    and pos: "0 \<le> val (rate_input r)" "0 \<le> val (rate_output r)" "0 \<le> val (rate_cache_read r)" "0 \<le> val (rate_cache_creation r)"
    using assms(5,6) by (simp_all add: finite_rates_def nonneg_rates_def)
  have cache: "cache_creation_amount env c t (val (rate_cache_creation r))
      \<le> cache_creation_amount env c t (val (rate_cache_creation r)) * val m"
    using cache_creation_amount_nonneg [OF assms(1,2,4) pos(4)] m(2) by (simp add: mult_le_cancel_left1)
  have counts: "0 \<le> OutputTokens t" "0 \<le> CacheReadTokens t"
    using assms(4) by (simp_all add: nonneg_usage_def)
  note split = split_input_nonneg [OF assms(4)]
  show ?thesis
    using m n fin pos cache counts split assms(1,7)
    by (simp add: part_amounts_def long_context_rates_def Let_def m_def [symmetric] n_def [symmetric] exact_simps up up1)
qed

text \<open>
  C9. Billing a long context is never cheaper: for a card without negative prices, with long-context multipliers that are
  unset or at least one, every amount of the bill with long-context prices is at least the amount without them, and the flag
  of the bill is set exactly when the customer pays more because of them.  (In exact arithmetic.)
\<close>

theorem long_context_never_cheaper:
  assumes "round64 env = Fin" and "finite_card c" and "nonneg_card c" and "nonneg_usage t" and "is_fin q"
    and "fle (LongContextInputMultiplier c) (Fin 0) \<or> fle (Fin 1) (LongContextInputMultiplier c)"
    and "fle (LongContextOutputMultiplier c) (Fin 0) \<or> fle (Fin 1) (LongContextOutputMultiplier c)"
  shows "list_all2 fle (amounts (computeTokenBreakdown env c t q tier False)) (amounts (computeTokenBreakdown env c t q tier True)) \<and>
    (LongContextBillingApplied (computeTokenBreakdown env c t q tier True) \<longleftrightarrow>
      flt (ActualCost (computeTokenBreakdown env c t q tier False)) (ActualCost (computeTokenBreakdown env c t q tier True)))"
proof -
  let ?q = "at_least_zero q" and ?r = "tier_rates env c tier"
  have q: "is_fin ?q" "0 \<le> val ?q"
    using assms(5) by (auto simp: at_least_zero_def fin_flt not_less)
  have r: "finite_rates ?r" "nonneg_rates ?r" "cache_creation_multiplier ?r = Fin 1"
    using assms(2,3) by (simp_all add: finite_tier_rates nonneg_tier_rates) (simp add: tier_rates_def Let_def)
  have k: "0 \<le> val (tier_multiplier ?r)"
    using r(2) by (simp add: nonneg_rates_def)
  have "list_all2 (\<le>) (map (\<lambda>x. x * val (tier_multiplier ?r)) (part_amounts env c t ?r))
      (map (\<lambda>x. x * val (tier_multiplier ?r)) (part_amounts env c t (long_context_rates env c ?r)))"
    using part_amounts_mono [OF assms(1,3,2,4) r assms(6,7)] k
    by (auto simp: list_all2_map1 list_all2_map2 mult_right_mono elim!: list_all2_mono)
  from bill_amounts_mono [OF this q(2)]
  have "list_all2 fle (amounts (cost_at_rates env c t ?r ?q)) (amounts (cost_at_rates env c t (long_context_rates env c ?r) ?q))"
    by (simp add: cost_exact assms(1,2) r(1) finite_long_context q(1) list_all2_map1 list_all2_map2)
  moreover have "list_all2 fle (amounts (cost_at_rates env c t ?r ?q)) (amounts (cost_at_rates env c t ?r ?q))"
    by (simp add: cost_exact assms(1,2) r(1) q(1) list_all2_map1 list_all2_map2 list_all2_refl)
  moreover have "\<not> flt x x" for x
    by (cases x) simp_all
  moreover have "\<not> LongContextBillingApplied (cost_at_rates env c t ?r ?q)"
    by (simp add: cost_at_rates_def Let_def)
  ultimately show ?thesis
    by (simp add: computeTokenBreakdown_def Let_def)
qed

section \<open>Witnesses\<close>

definition demo_card :: PriceCard where
  "demo_card = zero_card\<lparr>InputPricePerToken := Fin 2, OutputPricePerToken := Fin 6, CacheCreationPricePerToken := Fin 3,
     CacheReadPricePerToken := Fin (1 / 2), CacheCreation5mPrice := Fin 3, CacheCreation1hPrice := Fin 4,
     SupportsCacheBreakdown := True, FastMultiplier := Some (Fin 3), LongContextInputThreshold := 1000,
     LongContextInputMultiplier := Fin 2\<rparr>"

definition demo_usage :: UsageTokens where
  "demo_usage = \<lparr>InputTokens = 1200, ImageInputTokens = 200, OutputTokens = 100, CacheCreationTokens = 100, CacheReadTokens = 50,
     CacheCreation5mTokens = 90, CacheCreation1hTokens = 60, ImageOutputTokens = 10\<rparr>"

lemma demo_exact: "round64 demo_go_env = Fin"
  by (simp add: demo_go_env_def)

lemma demo_card_good: "finite_card demo_card" "nonneg_card demo_card"
  by (simp_all add: finite_card_def nonneg_card_def demo_card_def zero_card_def)

theorem cache_details_capped_witness:
  "let (c5, c1) = normalizeCacheCreationBreakdown demo_go_env demo_usage in 0 \<le> c5 \<and> 0 \<le> c1 \<and> c5 + c1 = 100"
proof -
  have "rounds demo_go_env" "counts_exact demo_go_env"
    by (simp_all add: rounds_exact demo_exact counts_exact_def)
  from cache_details_capped [OF this, of demo_usage] show ?thesis
    by (simp add: demo_usage_def split: prod.splits)
qed

lemma demo_fast: "is_fast demo_go_env ''fast''" "configuredServiceTierMultiplier demo_go_env ''fast'' demo_card = Fin 3"
proof -
  show fast: "is_fast demo_go_env ''fast''"
    by (simp add: is_fast_def normalizeBillingServiceTier_def TrimSpace_printable ToLower_def is_ascii_def ascii_lower_def)
  show "configuredServiceTierMultiplier demo_go_env ''fast'' demo_card = Fin 3"
    by (simp add: configuredServiceTierMultiplier_def fast normalizedFastModeMultiplier_def demo_card_def zero_card_def)
qed

theorem tier_multiplies_normal_bill_witness:
  "amounts (computeTokenBreakdown demo_go_env demo_card demo_usage (Fin 1) ''fast'' True) =
    map (\<lambda>x. fmul demo_go_env x (Fin 3)) (amounts (computeTokenBreakdown demo_go_env demo_card demo_usage (Fin 1) [] True))"
proof -
  have "snd (normalizedFastModeMultiplier demo_card)"
    by (simp add: normalizedFastModeMultiplier_def demo_card_def zero_card_def)
  then show ?thesis
    using tier_multiplies_normal_bill [OF demo_exact demo_card_good(1), of "Fin 1" "''fast''" demo_usage True]
    by (simp add: demo_fast(2))
qed

theorem long_context_never_cheaper_witness:
  "list_all2 fle (amounts (computeTokenBreakdown demo_go_env demo_card demo_usage (Fin 1) [] False))
    (amounts (computeTokenBreakdown demo_go_env demo_card demo_usage (Fin 1) [] True))"
proof -
  have "nonneg_usage demo_usage"
    by (simp add: nonneg_usage_def demo_usage_def)
  then show ?thesis
    using long_context_never_cheaper [OF demo_exact demo_card_good, of demo_usage "Fin 1" "[]"]
    by (simp add: demo_card_def zero_card_def)
qed

end
