(* ===== verification/Pricing_Resolver.thy ===== *)
theory Pricing_Resolver
  imports Token_Cost Channel_Cache
begin

text \<open>
  Which prices apply to a request (\<^verbatim>\<open>service/model_pricing_resolver.go\<close>) and the one entry for billing
  (\<^verbatim>\<open>CalculateCostUnified\<close> of \<^verbatim>\<open>service/billing_service.go\<close>): prices of the group, else of the channel,
  else of the catalogue; intervals, request tiers and multipliers.

  Arguments: the catalogue, the snapshot of the channels (the lookups of one call see one snapshot; none when there is no
  channel service), the names under which a model is looked up (\<^verbatim>\<open>buildModelLookupCandidates\<close>), the time zone database.
\<close>

section \<open>Resolved prices\<close>

definition PricingSourceGroup :: string where "PricingSourceGroup = ''group''"
definition PricingSourceChannel :: string where "PricingSourceChannel = ''channel''"
definition PricingSourceLiteLLM :: string where "PricingSourceLiteLLM = ''litellm''"
definition PricingSourceFallback :: string where "PricingSourceFallback = ''fallback''"
definition PricingSourceUnpriced :: string where "PricingSourceUnpriced = ''unpriced''"

lemmas pricing_sources = PricingSourceGroup_def PricingSourceChannel_def PricingSourceLiteLLM_def PricingSourceFallback_def
  PricingSourceUnpriced_def

record ResolvedPricing =
  ResMode :: string
  BasePricing :: "PriceCard option"
  ResIntervals :: "PricingInterval list"
  RequestTiers :: "PricingInterval list"
  DefaultPerRequestPrice :: float64
  ResSource :: string
  ResCacheBreakdown :: bool
  ResServiceTier :: bool
  channelPricing :: "ChannelModelPricing option"
  longContextPricingEnabled :: bool

record price_group =
  LongContextPricingEnabled :: bool
  GroupModelPricing :: "ChannelModelPricing list"

definition filterValidTokenIntervals :: "PricingInterval list \<Rightarrow> PricingInterval list" where
  "filterValidTokenIntervals intervals = filter has_token_price intervals"

definition filterValidRequestIntervals :: "PricingInterval list \<Rightarrow> PricingInterval list" where
  "filterValidRequestIntervals intervals = filter (\<lambda>iv. IvPerRequestPrice iv \<noteq> None) intervals"

definition multiplyPricePointer :: "'z go_env_scheme \<Rightarrow> float64 \<Rightarrow> price \<Rightarrow> price" where
  "multiplyPricePointer env m p = map_option (\<lambda>x. fmul env x m) p"

definition multiplyPricingIntervals :: "'z go_env_scheme \<Rightarrow> float64 \<Rightarrow> PricingInterval list \<Rightarrow> PricingInterval list" where
  "multiplyPricingIntervals env m intervals =
     map (\<lambda>iv. iv\<lparr>IvInputPrice := multiplyPricePointer env m (IvInputPrice iv),
                   IvOutputPrice := multiplyPricePointer env m (IvOutputPrice iv),
                   IvCacheWritePrice := multiplyPricePointer env m (IvCacheWritePrice iv),
                   IvCacheWrite1hPrice := multiplyPricePointer env m (IvCacheWrite1hPrice iv),
                   IvCacheReadPrice := multiplyPricePointer env m (IvCacheReadPrice iv),
                   IvPerRequestPrice := multiplyPricePointer env m (IvPerRequestPrice iv)\<rparr>) intervals"

definition multiplyChannelPricingFields :: "'z go_env_scheme \<Rightarrow> float64 \<Rightarrow> ChannelModelPricing \<Rightarrow> ChannelModelPricing" where
  "multiplyChannelPricingFields env m p =
     p\<lparr>ChInputPrice := multiplyPricePointer env m (ChInputPrice p),
       ChOutputPrice := multiplyPricePointer env m (ChOutputPrice p),
       ChCacheWritePrice := multiplyPricePointer env m (ChCacheWritePrice p),
       ChCacheWrite1hPrice := multiplyPricePointer env m (ChCacheWrite1hPrice p),
       ChCacheReadPrice := multiplyPricePointer env m (ChCacheReadPrice p),
       ChImageInputPrice := multiplyPricePointer env m (ChImageInputPrice p),
       ChImageOutputPrice := multiplyPricePointer env m (ChImageOutputPrice p),
       ChPerRequestPrice := multiplyPricePointer env m (ChPerRequestPrice p),
       ChIntervals := multiplyPricingIntervals env m (ChIntervals p)\<rparr>"

section \<open>Overrides\<close>

definition card_or_zero :: "PriceCard option \<Rightarrow> PriceCard" where
  "card_or_zero c = (case c of Some c \<Rightarrow> c | None \<Rightarrow> zero_card)"

definition force_breakdown :: "bool \<Rightarrow> PriceCard \<Rightarrow> PriceCard" where
  "force_breakdown b c = (if b then c\<lparr>SupportsCacheBreakdown := True\<rparr> else c)"

definition applyTokenOverrides :: "'z go_env_scheme \<Rightarrow> ChannelModelPricing \<Rightarrow> ResolvedPricing \<Rightarrow> ResolvedPricing" where
  "applyTokenOverrides env p res =
     (let valid = filterValidTokenIntervals (ChIntervals p);
          breakdown = (ResCacheBreakdown res \<or> ChCacheWrite1hPrice p \<noteq> None \<or> list_ex (\<lambda>iv. IvCacheWrite1hPrice iv \<noteq> None) valid);
          res = res\<lparr>ResCacheBreakdown := breakdown\<rparr>;
          base = card_or_zero (BasePricing res) in
      if valid \<noteq> []
      then res\<lparr>ResIntervals := valid,
               BasePricing := Some (applyChannelImageInputPrice p (force_breakdown breakdown (apply_image_output p base)))\<rparr>
      else res\<lparr>BasePricing := Some (applyChannelImageInputPrice p (apply_image_output p (force_breakdown breakdown
                 (applyChannelTokenPriceOverrides env base p))))\<rparr>)"

definition applyRequestTierOverrides :: "ChannelModelPricing \<Rightarrow> ResolvedPricing \<Rightarrow> ResolvedPricing" where
  "applyRequestTierOverrides p res =
     (let res = res\<lparr>RequestTiers := filterValidRequestIntervals (ChIntervals p)\<rparr> in
      case ChPerRequestPrice p of Some x \<Rightarrow> res\<lparr>DefaultPerRequestPrice := x\<rparr> | None \<Rightarrow> res)"

definition applyResolvedPriceMultiplier :: "'z go_env_scheme \<Rightarrow> ResolvedPricing \<Rightarrow> ChannelModelPricing \<Rightarrow> ResolvedPricing" where
  "applyResolvedPriceMultiplier env res p =
     (case normalizedPriceMultiplier p of
        None \<Rightarrow> res
      | Some m \<Rightarrow>
          res\<lparr>BasePricing := map_option (multiplyModelPricing env m) (BasePricing res),
              ResIntervals := multiplyPricingIntervals env m (ResIntervals res),
              RequestTiers := multiplyPricingIntervals env m (RequestTiers res),
              DefaultPerRequestPrice := fmul env (DefaultPerRequestPrice res) m,
              channelPricing := Some (multiplyChannelPricingFields env m (p\<lparr>ChPriceMultiplier := None\<rparr>))\<rparr>)"

definition applyResolvedFastModeMultiplier :: "ResolvedPricing \<Rightarrow> ChannelModelPricing \<Rightarrow> ResolvedPricing" where
  "applyResolvedFastModeMultiplier res p =
     (if ResMode res \<noteq> BillingModeToken then res
      else res\<lparr>BasePricing := map_option (\<lambda>c. applyChannelFlexMultiplier (applyChannelFastModeMultiplier c p) p) (BasePricing res)\<rparr>)"

definition resolveBasePricing :: "(string \<Rightarrow> PriceCard option) \<Rightarrow> string \<Rightarrow> PriceCard option \<times> string" where
  "resolveBasePricing catalogue model =
     (case catalogue model of Some c \<Rightarrow> (Some c, PricingSourceLiteLLM) | None \<Rightarrow> (None, PricingSourceFallback))"

definition mode_or_token :: "string \<Rightarrow> string" where
  "mode_or_token mode = (if mode = [] then BillingModeToken else mode)"

definition empty_resolved :: "string \<Rightarrow> string \<Rightarrow> ResolvedPricing" where
  "empty_resolved mode source =
     \<lparr>ResMode = mode, BasePricing = None, ResIntervals = [], RequestTiers = [], DefaultPerRequestPrice = Fin 0,
      ResSource = source, ResCacheBreakdown = False, ResServiceTier = False, channelPricing = None,
      longContextPricingEnabled = False\<rparr>"

definition with_base :: "PriceCard option \<Rightarrow> ResolvedPricing \<Rightarrow> ResolvedPricing" where
  "with_base base res =
     res\<lparr>BasePricing := base,
         ResCacheBreakdown := (case base of Some c \<Rightarrow> SupportsCacheBreakdown c | None \<Rightarrow> False),
         ResServiceTier := (case base of Some c \<Rightarrow> SupportsServiceTier c | None \<Rightarrow> False)\<rparr>"

definition resolveConfiguredPricing ::
  "'z go_env_scheme \<Rightarrow> (string \<Rightarrow> PriceCard option) \<Rightarrow> ChannelModelPricing \<Rightarrow> string \<Rightarrow> string \<Rightarrow> ResolvedPricing" where
  "resolveConfiguredPricing env catalogue p model source =
     (let mode = mode_or_token (ChBillingMode p);
          res = (empty_resolved mode source)\<lparr>channelPricing := Some p\<rparr> in
      if per_request_mode mode
      then applyResolvedPriceMultiplier env (applyRequestTierOverrides p res) p
      else
        let res = with_base (fst (resolveBasePricing catalogue model)) res in
        applyResolvedFastModeMultiplier (applyResolvedPriceMultiplier env (applyTokenOverrides env p res) p) p)"

section \<open>Lookups\<close>

definition matchGroupModelPricing :: "'z go_env_scheme \<Rightarrow> price_group option \<Rightarrow> string \<Rightarrow> ChannelModelPricing option" where
  "matchGroupModelPricing env grp model =
     (case grp of
        None \<Rightarrow> None
      | Some g \<Rightarrow>
          let model = normalizeChannelPricingModelName env model;
              pairs = concat (map (\<lambda>p. map (\<lambda>m. (p, normalizeChannelPricingModelName env m)) (ChModels p)) (GroupModelPricing g)) in
          case find (\<lambda>(p, m). m = model) pairs of
            Some (p, _) \<Rightarrow> Some p
          | None \<Rightarrow> map_option fst (find (\<lambda>(p, m). ends_with_star m \<and> prefix (trim_star m) model) pairs))"

definition lookupChannelPricingNormalized ::
  "'z go_env_scheme \<Rightarrow> (string \<Rightarrow> string list) \<Rightarrow> channelCache option \<Rightarrow> int64 \<Rightarrow> string \<Rightarrow> ChannelModelPricing option" where
  "lookupChannelPricingNormalized env candidates_of snapshot gid model =
     (case snapshot of
        None \<Rightarrow> None
      | Some cache \<Rightarrow>
          (case GetEffectiveChannelModelPricing env cache gid model of
             Some p \<Rightarrow> Some p
           | None \<Rightarrow>
               let candidates = candidates_of model in
               (case first_found (\<lambda>c. if EqualFold env c (TrimSpace model) then None
                                       else GetEffectiveChannelModelPricing env cache gid c) candidates of
                  Some p \<Rightarrow> Some p
                | None \<Rightarrow>
                    let normalized = normalizeKnownOpenAICodexModel env model in
                    if normalized = [] \<or> normalized \<in> set candidates then None
                    else GetEffectiveChannelModelPricing env cache gid normalized)))"

definition hasAnyDisplayTokenPricing :: "PriceCard \<Rightarrow> bool" where
  "hasAnyDisplayTokenPricing c \<longleftrightarrow>
     positive (InputPricePerToken c) \<or> positive (ImageInputPricePerToken c) \<or> positive (OutputPricePerToken c) \<or>
     positive (CacheCreationPricePerToken c) \<or> positive (CacheCreation1hPrice c) \<or> positive (CacheReadPricePerToken c) \<or>
     positive (ImageOutputPricePerToken c)"

definition hasDefaultPricingForModel :: "(string \<Rightarrow> PriceCard option) \<Rightarrow> string \<Rightarrow> bool" where
  "hasDefaultPricingForModel catalogue model =
     (let model = TrimSpace model in
      if model = [] then False else case catalogue model of Some c \<Rightarrow> hasAnyDisplayTokenPricing c | None \<Rightarrow> False)"

definition isQoderManualPricingOnlyModel ::
  "'z go_env_scheme \<Rightarrow> (string \<Rightarrow> PriceCard option) \<Rightarrow> channelCache \<Rightarrow> int64 \<Rightarrow> string \<Rightarrow> string \<Rightarrow> bool" where
  "isQoderManualPricingOnlyModel env catalogue cache gid inputModel hint =
     (if platform_of_group (groupPlatform cache) gid \<noteq> PlatformQoder then False
      else
        let model = TrimSpace inputModel; hint = TrimSpace hint in
        if qoderAliasRequiresManualPricingAny env [model] then True
        else if hasDefaultPricingForModel catalogue model then False
        else if hint \<noteq> [] \<and> hint \<noteq> model \<and> qoderAliasRequiresManualPricingAny env [hint] then True
        else
          let mapping = ResolveChannelMapping env cache gid inputModel in
          if Mapped mapping then qoderAliasRequiresManualPricingAny env [MappedModel mapping] else False)"

section \<open>Resolving\<close>

record PricingInput =
  PiModel :: string
  PiGroupID :: "int64 option"
  PiBaseModelHint :: string
  PiGroup :: "price_group option"

record resolver =
  Catalogue :: "string \<Rightarrow> PriceCard option"
  Snapshot :: "channelCache option"
  CandidatesOf :: "string \<Rightarrow> string list"

definition applyChannelOverrides :: "'z go_env_scheme \<Rightarrow> resolver \<Rightarrow> int64 \<Rightarrow> string \<Rightarrow> ResolvedPricing \<Rightarrow> ResolvedPricing" where
  "applyChannelOverrides env rs gid model res =
     (case lookupChannelPricingNormalized env (CandidatesOf rs) (Snapshot rs) gid model of
        None \<Rightarrow> res
      | Some p \<Rightarrow>
          let res = res\<lparr>ResSource := PricingSourceChannel, channelPricing := Some p, ResMode := mode_or_token (ChBillingMode p)\<rparr>;
              res = (if ResMode res = BillingModeToken then applyTokenOverrides env p res
                     else if per_request_mode (ResMode res) then applyRequestTierOverrides p res else res) in
          applyResolvedFastModeMultiplier (applyResolvedPriceMultiplier env res p) p)"

definition Resolve :: "'z go_env_scheme \<Rightarrow> resolver \<Rightarrow> PricingInput \<Rightarrow> ResolvedPricing" where
  "Resolve env rs input =
     (let long = (case PiGroup input of None \<Rightarrow> True | Some g \<Rightarrow> LongContextPricingEnabled g) in
      case matchGroupModelPricing env (PiGroup input) (PiModel input) of
        Some p \<Rightarrow>
          let p = (if ChBillingMode p = [] \<or> ChBillingMode p = BillingModeToken then p\<lparr>ChIntervals := []\<rparr> else p) in
          (resolveConfiguredPricing env (Catalogue rs) p (PiModel input) PricingSourceGroup)\<lparr>longContextPricingEnabled := long\<rparr>
      | None \<Rightarrow>
          let manual = (case (PiGroupID input, Snapshot rs) of
                (Some gid, Some cache) \<Rightarrow>
                  isQoderManualPricingOnlyModel env (Catalogue rs) cache gid (PiModel input) (PiBaseModelHint input)
              | _ \<Rightarrow> False);
              found = (case PiGroupID input of
                Some gid \<Rightarrow> lookupChannelPricingNormalized env (CandidatesOf rs) (Snapshot rs) gid (PiModel input)
              | None \<Rightarrow> None);
              (base, source) = (if manual then (Some zero_card, PricingSourceUnpriced)
                                else resolveBasePricing (Catalogue rs) (PiModel input));
              res = (with_base base (empty_resolved BillingModeToken source))\<lparr>longContextPricingEnabled := long\<rparr> in
          (case found of
             Some p \<Rightarrow>
               if per_request_mode (mode_or_token (ChBillingMode p))
               then applyResolvedPriceMultiplier env (applyRequestTierOverrides p
                      ((empty_resolved (ChBillingMode p) PricingSourceChannel)
                         \<lparr>channelPricing := Some p, longContextPricingEnabled := long\<rparr>)) p
               else applyResolvedFastModeMultiplier (applyResolvedPriceMultiplier env (applyTokenOverrides env p
                      (res\<lparr>ResSource := PricingSourceChannel, channelPricing := Some p\<rparr>)) p) p
           | None \<Rightarrow>
               (case PiGroupID input of
                  Some gid \<Rightarrow> applyChannelOverrides env rs gid (PiModel input) res
                | None \<Rightarrow> res)))"

definition IsUnpriced :: "ResolvedPricing option \<Rightarrow> bool" where
  "IsUnpriced r = (case r of Some r \<Rightarrow> ResSource r = PricingSourceUnpriced | None \<Rightarrow> False)"

definition HasEffectiveChannelPricing :: "ResolvedPricing option \<Rightarrow> bool" where
  "HasEffectiveChannelPricing r =
     (case r of Some r \<Rightarrow> ResSource r = PricingSourceChannel \<and> HasEffectivePricing (channelPricing r) | None \<Rightarrow> False)"

definition HasEffectiveOverridePricing :: "ResolvedPricing option \<Rightarrow> bool" where
  "HasEffectiveOverridePricing r =
     (case r of
        Some r \<Rightarrow> ResSource r \<in> {PricingSourceGroup, PricingSourceChannel} \<and> HasEffectivePricing (channelPricing r)
      | None \<Rightarrow> False)"

section \<open>Prices of an interval\<close>

definition scale_input :: "'z go_env_scheme \<Rightarrow> price \<Rightarrow> price \<Rightarrow> PriceCard \<Rightarrow> PriceCard" where
  "scale_input env price m c =
     (case (price, m) of
        (None, Some m) \<Rightarrow>
          c\<lparr>InputPricePerToken := fmul env (InputPricePerToken c) m,
            InputPricePerTokenPriority := fmul env (InputPricePerTokenPriority c) m\<rparr>
      | _ \<Rightarrow> override_input env price c)"

definition scale_output :: "'z go_env_scheme \<Rightarrow> price \<Rightarrow> price \<Rightarrow> PriceCard \<Rightarrow> PriceCard" where
  "scale_output env price m c =
     (case (price, m) of
        (None, Some m) \<Rightarrow>
          c\<lparr>OutputPricePerToken := fmul env (OutputPricePerToken c) m,
            OutputPricePerTokenPriority := fmul env (OutputPricePerTokenPriority c) m\<rparr>
      | _ \<Rightarrow> override_output env price c)"

definition scale_cache_write :: "'z go_env_scheme \<Rightarrow> price \<Rightarrow> price \<Rightarrow> price \<Rightarrow> PriceCard \<Rightarrow> PriceCard" where
  "scale_cache_write env price price1h m c =
     (case (price, m) of
        (None, Some m) \<Rightarrow>
          c\<lparr>CacheCreationPricePerToken := fmul env (CacheCreationPricePerToken c) m,
            CacheCreationPricePerTokenPriority := fmul env (CacheCreationPricePerTokenPriority c) m,
            CacheCreation5mPrice := fmul env (CacheCreation5mPrice c) m,
            CacheCreation1hPrice := fmul env (CacheCreation1hPrice c) m\<rparr>
      | _ \<Rightarrow> override_cache_write env (CacheCreationPricePerTokenPriority c) price price1h c)"

definition scale_cache_read :: "'z go_env_scheme \<Rightarrow> price \<Rightarrow> price \<Rightarrow> PriceCard \<Rightarrow> PriceCard" where
  "scale_cache_read env price m c =
     (case (price, m) of
        (None, Some m) \<Rightarrow>
          c\<lparr>CacheReadPricePerToken := fmul env (CacheReadPricePerToken c) m,
            CacheReadPricePerTokenPriority := fmul env (CacheReadPricePerTokenPriority c) m\<rparr>
      | _ \<Rightarrow> override_cache_read env price c)"

definition interval_card :: "'z go_env_scheme \<Rightarrow> PricingInterval \<Rightarrow> PriceCard \<Rightarrow> PriceCard" where
  "interval_card env iv c =
     scale_cache_read env (IvCacheReadPrice iv) (IvCacheReadMultiplier iv)
       (override_cache_1h (IvCacheWrite1hPrice iv)
         (scale_cache_write env (IvCacheWritePrice iv) (IvCacheWrite1hPrice iv) (IvCacheWriteMultiplier iv)
           (scale_output env (IvOutputPrice iv) (IvOutputMultiplier iv)
             (scale_input env (IvInputPrice iv) (IvInputMultiplier iv) c))))"

definition intervalToModelPricingWithBase ::
  "'z go_env_scheme \<Rightarrow> PricingInterval \<Rightarrow> bool \<Rightarrow> ChannelModelPricing option \<Rightarrow> PriceCard option \<Rightarrow> PriceCard" where
  "intervalToModelPricingWithBase env iv breakdown channel base =
     (let c = (case base of
            None \<Rightarrow> zero_card\<lparr>SupportsCacheBreakdown := breakdown\<rparr>
          | Some b \<Rightarrow> b\<lparr>SupportsCacheBreakdown := breakdown, LongContextInputThreshold := 0,
                        LongContextInputMultiplier := Fin 0, LongContextOutputMultiplier := Fin 0\<rparr>);
          c = interval_card env iv c in
      case channel of
        None \<Rightarrow> c
      | Some p \<Rightarrow>
          applyChannelFlexMultiplier (applyChannelFastModeMultiplier
            (applyChannelImageInputPrice p (apply_image_output p c)) p) p)"

definition GetIntervalPricing :: "'z go_env_scheme \<Rightarrow> ResolvedPricing \<Rightarrow> int \<Rightarrow> PriceCard option" where
  "GetIntervalPricing env res n =
     (if ResIntervals res = [] then BasePricing res
      else
        case FindMatchingInterval (ResIntervals res) n of
          None \<Rightarrow> BasePricing res
        | Some iv \<Rightarrow>
            Some (intervalToModelPricingWithBase env iv (ResCacheBreakdown res) (channelPricing res) (BasePricing res)))"

definition GetRequestTierPriceValue :: "'z go_env_scheme \<Rightarrow> ResolvedPricing \<Rightarrow> string \<Rightarrow> price" where
  "GetRequestTierPriceValue env res label =
     (case find (\<lambda>tier. EqualFold env (TierLabel tier) label \<and> IvPerRequestPrice tier \<noteq> None) (RequestTiers res) of
        Some tier \<Rightarrow> IvPerRequestPrice tier
      | None \<Rightarrow> None)"

definition GetRequestTierPriceByContextValue :: "ResolvedPricing \<Rightarrow> int \<Rightarrow> price" where
  "GetRequestTierPriceByContextValue res n =
     (case FindMatchingInterval (RequestTiers res) n of Some iv \<Rightarrow> IvPerRequestPrice iv | None \<Rightarrow> None)"

definition price_or_zero :: "price \<Rightarrow> float64" where
  "price_or_zero p = (case p of Some x \<Rightarrow> x | None \<Rightarrow> Fin 0)"

definition GetRequestTierPrice :: "'z go_env_scheme \<Rightarrow> ResolvedPricing \<Rightarrow> string \<Rightarrow> float64" where
  "GetRequestTierPrice env res label = price_or_zero (GetRequestTierPriceValue env res label)"

definition GetRequestTierPriceByContext :: "ResolvedPricing \<Rightarrow> int \<Rightarrow> float64" where
  "GetRequestTierPriceByContext res n = price_or_zero (GetRequestTierPriceByContextValue res n)"

section \<open>One entry for billing\<close>

record CostInput =
  CiModel :: string
  CiGroupID :: "int64 option"
  CiGroup :: "price_group option"
  CiTokens :: UsageTokens
  CiRequestCount :: int
  CiUsageUnits :: float64
  CiSizeTier :: string
  CiRateMultiplier :: float64
  CiPricingAt :: gtime
  CiServiceTier :: string
  CiResolver :: "resolver option"
  CiResolved :: "ResolvedPricing option"

definition resolvedChannelTimeMultiplier ::
  "'z go_env_scheme \<Rightarrow> (string \<Rightarrow> Location option) \<Rightarrow> ResolvedPricing \<Rightarrow> gtime \<Rightarrow> float64" where
  "resolvedChannelTimeMultiplier env LoadLocation res t =
     (case channelPricing res of
        Some p \<Rightarrow> if ResSource res = PricingSourceChannel then MultiplierAt env LoadLocation (ChTimePricing p) t else Fin 1
      | None \<Rightarrow> Fin 1)"

definition calculatePerRequestCost :: "'z go_env_scheme \<Rightarrow> ResolvedPricing \<Rightarrow> CostInput \<Rightarrow> CostBreakdown" where
  "calculatePerRequestCost env res input =
     (let units = (if fle (CiUsageUnits input) (Fin 0)
                   then float_of_int env (if CiRequestCount input \<le> 0 then 1 else CiRequestCount input)
                   else CiUsageUnits input);
          labelled = (if CiSizeTier input = [] then None else GetRequestTierPriceValue env res (CiSizeTier input));
          found = (case labelled of
                     Some x \<Rightarrow> Some x
                   | None \<Rightarrow> GetRequestTierPriceByContextValue res (input_total (CiTokens input)));
          unitPrice = (case found of Some x \<Rightarrow> x | None \<Rightarrow> DefaultPerRequestPrice res);
          total = fmul env unitPrice units in
      \<lparr>InputCost = Fin 0, ImageInputCost = Fin 0, OutputCost = Fin 0, ImageOutputCost = Fin 0, CacheCreationCost = Fin 0,
       CacheReadCost = Fin 0, TotalCost = total, ActualCost = fmul env total (CiRateMultiplier input), CostBillingMode = [],
       LongContextBillingApplied = False\<rparr>)"

definition from_catalogue :: "ResolvedPricing \<Rightarrow> bool" where
  "from_catalogue res \<longleftrightarrow> ResSource res \<in> {PricingSourceLiteLLM, PricingSourceFallback}"

definition calculateTokenCost ::
  "'z go_env_scheme \<Rightarrow> (string \<Rightarrow> Location option) \<Rightarrow> gtime \<Rightarrow> ResolvedPricing \<Rightarrow> CostInput \<Rightarrow> CostBreakdown option" where
  "calculateTokenCost env LoadLocation now res input =
     (case GetIntervalPricing env res (input_total (CiTokens input)) of
        None \<Rightarrow> None
      | Some c \<Rightarrow>
          let c = applyModelSpecificPricingPolicyEx env (CiModel input) c (from_catalogue res);
              c = (if from_catalogue res then applyDeepSeekPeakPricing env now (CiModel input) c (CiPricingAt input) else c);
              long = (ResIntervals res = [] \<and> longContextPricingEnabled res);
              b = computeTokenBreakdown env c (CiTokens input) (CiRateMultiplier input) (CiServiceTier input) long in
          Some (applyCostBreakdownMultiplier env b (resolvedChannelTimeMultiplier env LoadLocation res (CiPricingAt input))))"

definition CalculateCostUnified ::
  "'z go_env_scheme \<Rightarrow> (string \<Rightarrow> Location option) \<Rightarrow> (string \<Rightarrow> PriceCard option) \<Rightarrow> gtime \<Rightarrow> CostInput \<Rightarrow>
     CostBreakdown option" where
  "CalculateCostUnified env LoadLocation catalogue now input =
     (case CiResolver input of
        None \<Rightarrow> calculateCostInternal env catalogue now (CiModel input) (CiTokens input) (CiRateMultiplier input)
                  (CiServiceTier input) None
      | Some rs \<Rightarrow>
          let res = (case CiResolved input of
                Some r \<Rightarrow> r
              | None \<Rightarrow> Resolve env rs \<lparr>PiModel = CiModel input, PiGroupID = CiGroupID input, PiBaseModelHint = [],
                  PiGroup = CiGroup input\<rparr>);
              input = input\<lparr>CiRateMultiplier := at_least_zero (CiRateMultiplier input)\<rparr>;
              b = (if per_request_mode (ResMode res) then Some (calculatePerRequestCost env res input)
                   else calculateTokenCost env LoadLocation now res input) in
          map_option (\<lambda>b. b\<lparr>CostBillingMode := mode_or_token (ResMode res)\<rparr>) b)"

section \<open>Scaling prices\<close>

text \<open>Every price of a card, an interval or an entry times one factor, in exact arithmetic.\<close>

abbreviation scaled :: "rat \<Rightarrow> float64 \<Rightarrow> float64" where
  "scaled m x \<equiv> Fin (val x * m)"

lemma fmul_scaled: "exact env \<Longrightarrow> is_fin x \<Longrightarrow> fmul env x (Fin m) = scaled m x"
  by (simp add: exact_simps)

lemma tier_override_scaled:
  assumes "exact env" and "0 \<le> m" and "is_fin b" "is_fin t" "is_fin x"
  shows "channelTierOverridePrice env (scaled m b) (scaled m t) (scaled m x) = scaled m (channelTierOverridePrice env b t x)"
    and "is_fin (channelTierOverridePrice env b t x)"
proof -
  have "fdiv env t b = Fin (val t / val b)" if "0 < val b"
    using that assms by (intro fdiv_exact) simp_all
  then show "is_fin (channelTierOverridePrice env b t x)"
    using assms by (simp add: channelTierOverridePrice_def exact_simps)
  show "channelTierOverridePrice env (scaled m b) (scaled m t) (scaled m x) = scaled m (channelTierOverridePrice env b t x)"
  proof (cases "m = 0")
    case False
    then have "0 < m"
      using assms(2) by simp
    then show ?thesis
      using assms by (auto simp: channelTierOverridePrice_def exact_simps fdiv_exact zero_less_mult_iff)
  qed (simp add: channelTierOverridePrice_def)
qed

definition fin_option :: "price \<Rightarrow> bool" where
  "fin_option p = pred_option is_fin p"

lemma fin_option_simps [simp]: "fin_option None" "fin_option (Some x) \<longleftrightarrow> is_fin x"
  by (simp_all add: fin_option_def)

definition finite_interval :: "PricingInterval \<Rightarrow> bool" where
  "finite_interval iv \<longleftrightarrow>
     list_all fin_option [IvInputPrice iv, IvOutputPrice iv, IvCacheWritePrice iv, IvCacheWrite1hPrice iv, IvCacheReadPrice iv,
       IvInputMultiplier iv, IvOutputMultiplier iv, IvCacheWriteMultiplier iv, IvCacheReadMultiplier iv, IvPerRequestPrice iv]"

definition finite_pricing :: "ChannelModelPricing \<Rightarrow> bool" where
  "finite_pricing p \<longleftrightarrow>
     list_all fin_option [ChFastModeMultiplier p, ChFastMultiplier p, ChFlexMultiplier p, ChInputPrice p, ChOutputPrice p,
       ChCacheWritePrice p, ChCacheWrite1hPrice p, ChCacheReadPrice p, ChImageInputPrice p, ChImageOutputPrice p,
       ChPerRequestPrice p] \<and>
     list_all finite_interval (ChIntervals p)"

lemma at_least_zero_fin: "is_fin x \<Longrightarrow> is_fin (at_least_zero x)"
  by (simp add: at_least_zero_def)

lemmas card_defs = multiplyModelPricing_def override_input_def override_output_def override_cache_read_def
  override_cache_write_def override_cache_1h_def applyChannelImageInputPrice_def apply_image_output_def force_breakdown_def
  scale_input_def scale_output_def scale_cache_write_def scale_cache_read_def

lemma finite_steps:
  assumes "exact env" and "finite_card c"
  shows "fin_option x \<Longrightarrow> finite_card (override_input env x c)" and "fin_option x \<Longrightarrow> finite_card (override_output env x c)"
    and "fin_option x \<Longrightarrow> finite_card (override_cache_read env x c)"
    and "fin_option x \<Longrightarrow> is_fin b \<Longrightarrow> finite_card (override_cache_write env b x y c)"
    and "fin_option x \<Longrightarrow> finite_card (override_cache_1h x c)"
    and "fin_option x \<Longrightarrow> fin_option y \<Longrightarrow> finite_card (scale_input env x y c)"
    and "fin_option x \<Longrightarrow> fin_option y \<Longrightarrow> finite_card (scale_output env x y c)"
    and "fin_option x \<Longrightarrow> fin_option y \<Longrightarrow> finite_card (scale_cache_read env x y c)"
    and "fin_option x \<Longrightarrow> fin_option y \<Longrightarrow> finite_card (scale_cache_write env x z y c)"
    and "finite_pricing p \<Longrightarrow> finite_card (applyChannelImageInputPrice p c)"
    and "finite_pricing p \<Longrightarrow> finite_card (apply_image_output p c)"
    and "finite_card (force_breakdown d c)"
    and "finite_pricing p \<Longrightarrow> finite_card (applyChannelFastModeMultiplier c p)"
    and "finite_pricing p \<Longrightarrow> finite_card (applyChannelFlexMultiplier c p)"
  using assms tier_override_scaled(2) [OF assms(1) order.refl]
  by (auto simp: card_defs finite_card_def finite_pricing_def exact_simps Let_def at_least_zero_fin
      applyChannelFastModeMultiplier_def applyChannelFlexMultiplier_def split: option.splits)

lemma finite_zero_card [simp]: "finite_card zero_card"
  by (simp add: finite_card_def zero_card_def)

lemma finite_multiply: "exact env \<Longrightarrow> finite_card c \<Longrightarrow> finite_card (multiplyModelPricing env (Fin m) c)"
  by (simp add: multiplyModelPricing_def finite_card_def exact_simps)

text \<open>Scaling a card and then overriding it with scaled prices is the same as overriding it and scaling the result.\<close>

lemma scaled_steps:
  assumes "exact env" and "0 \<le> m" and "finite_card c"
  defines "S \<equiv> multiplyModelPricing env (Fin m)" and "M \<equiv> multiplyPricePointer env (Fin m)"
  shows "fin_option x \<Longrightarrow> fin_option y \<Longrightarrow> scale_input env (M x) y (S c) = S (scale_input env x y c)"
    and "fin_option x \<Longrightarrow> fin_option y \<Longrightarrow> scale_output env (M x) y (S c) = S (scale_output env x y c)"
    and "fin_option x \<Longrightarrow> fin_option y \<Longrightarrow> scale_cache_read env (M x) y (S c) = S (scale_cache_read env x y c)"
    and "fin_option x \<Longrightarrow> fin_option y \<Longrightarrow> fin_option z \<Longrightarrow> scale_cache_write env (M x) (M z) y (S c) = S (scale_cache_write env x z y c)"
    and "fin_option x \<Longrightarrow> override_cache_1h (M x) (S c) = S (override_cache_1h x c)"
    and "finite_pricing p \<Longrightarrow>
      applyChannelImageInputPrice (multiplyChannelPricingFields env (Fin m) p) (S c) = S (applyChannelImageInputPrice p c)"
    and "finite_pricing p \<Longrightarrow>
      apply_image_output (multiplyChannelPricingFields env (Fin m) p) (S c) = S (apply_image_output p c)"
    and "applyChannelFastModeMultiplier (S c) p = S (applyChannelFastModeMultiplier c p)"
    and "applyChannelFlexMultiplier (S c) p = S (applyChannelFlexMultiplier c p)"
    and "(S c)\<lparr>SupportsCacheBreakdown := b, LongContextInputThreshold := 0, LongContextInputMultiplier := Fin 0,
           LongContextOutputMultiplier := Fin 0\<rparr> =
         S (c\<lparr>SupportsCacheBreakdown := b, LongContextInputThreshold := 0, LongContextInputMultiplier := Fin 0,
           LongContextOutputMultiplier := Fin 0\<rparr>)"
proof -
  note tier = tier_override_scaled [OF assms(1,2)]
  note step = S_def M_def card_defs multiplyPricePointer_def finite_card_def finite_pricing_def exact_simps fmul_scaled tier
    Let_def multiplyChannelPricingFields_def
  show "scale_input env (M x) y (S c) = S (scale_input env x y c)" if "fin_option x" "fin_option y"
    using that assms(1,3) by (cases c; cases x; cases y) (simp_all add: step)
  show "scale_output env (M x) y (S c) = S (scale_output env x y c)" if "fin_option x" "fin_option y"
    using that assms(1,3) by (cases c; cases x; cases y) (simp_all add: step)
  show "scale_cache_read env (M x) y (S c) = S (scale_cache_read env x y c)" if "fin_option x" "fin_option y"
    using that assms(1,3) by (cases c; cases x; cases y) (simp_all add: step)
  show "scale_cache_write env (M x) (M z) y (S c) = S (scale_cache_write env x z y c)"
    if "fin_option x" "fin_option y" "fin_option z"
    using that assms(1,3) by (cases c; cases x; cases y; cases z) (simp_all add: step)
  show "override_cache_1h (M x) (S c) = S (override_cache_1h x c)" if "fin_option x"
    using that assms(1,3) by (cases c; cases x) (simp_all add: step)
  show "applyChannelImageInputPrice (multiplyChannelPricingFields env (Fin m) p) (S c) = S (applyChannelImageInputPrice p c)"
    if "finite_pricing p"
    using that assms(1,3) by (cases c; cases "ChImageInputPrice p") (simp_all add: step)
  show "apply_image_output (multiplyChannelPricingFields env (Fin m) p) (S c) = S (apply_image_output p c)" if "finite_pricing p"
    using that assms(1,3) by (cases c; cases "ChImageOutputPrice p") (simp_all add: step)
qed (simp_all add: S_def multiplyModelPricing_def applyChannelFastModeMultiplier_def applyChannelFlexMultiplier_def split: option.split)

definition scaled_interval :: "'z go_env_scheme \<Rightarrow> rat \<Rightarrow> PricingInterval \<Rightarrow> PricingInterval" where
  "scaled_interval env m iv =
     iv\<lparr>IvInputPrice := multiplyPricePointer env (Fin m) (IvInputPrice iv),
        IvOutputPrice := multiplyPricePointer env (Fin m) (IvOutputPrice iv),
        IvCacheWritePrice := multiplyPricePointer env (Fin m) (IvCacheWritePrice iv),
        IvCacheWrite1hPrice := multiplyPricePointer env (Fin m) (IvCacheWrite1hPrice iv),
        IvCacheReadPrice := multiplyPricePointer env (Fin m) (IvCacheReadPrice iv),
        IvPerRequestPrice := multiplyPricePointer env (Fin m) (IvPerRequestPrice iv)\<rparr>"

lemma multiply_intervals: "multiplyPricingIntervals env (Fin m) ivs = map (scaled_interval env m) ivs"
  by (simp add: multiplyPricingIntervals_def scaled_interval_def)

lemma find_scaled:
  "FindMatchingInterval (map (scaled_interval env m) ivs) n = map_option (scaled_interval env m) (FindMatchingInterval ivs n)"
  by (induction ivs) (auto simp: FindMatchingInterval_def interval_matches_def scaled_interval_def)

lemma found_interval: "FindMatchingInterval ivs n = Some iv \<Longrightarrow> list_all P ivs \<Longrightarrow> P iv"
  by (auto simp: FindMatchingInterval_def find_Some_iff list_all_length)

lemma interval_card_scaled:
  assumes "exact env" and "0 \<le> m" and "finite_card c" and "finite_interval iv"
  shows "interval_card env (scaled_interval env m iv) (multiplyModelPricing env (Fin m) c) =
      multiplyModelPricing env (Fin m) (interval_card env iv c)"
    and "finite_card (interval_card env iv c)"
proof -
  have iv: "fin_option (IvInputPrice iv)" "fin_option (IvOutputPrice iv)" "fin_option (IvCacheWritePrice iv)"
    "fin_option (IvCacheWrite1hPrice iv)" "fin_option (IvCacheReadPrice iv)" "fin_option (IvInputMultiplier iv)"
    "fin_option (IvOutputMultiplier iv)" "fin_option (IvCacheWriteMultiplier iv)" "fin_option (IvCacheReadMultiplier iv)"
    using assms(4) by (simp_all add: finite_interval_def)
  show "interval_card env (scaled_interval env m iv) (multiplyModelPricing env (Fin m) c) =
      multiplyModelPricing env (Fin m) (interval_card env iv c)"
    by (simp add: interval_card_def scaled_interval_def scaled_steps [OF assms(1,2)] finite_steps [OF assms(1)] iv assms(3))
  show "finite_card (interval_card env iv c)"
    by (simp add: interval_card_def finite_steps [OF assms(1)] iv assms(3))
qed

lemma interval_base_scaled:
  assumes "exact env" and "0 \<le> m" and "pred_option finite_card base" and "finite_interval iv" and "finite_pricing p"
  shows "intervalToModelPricingWithBase env (scaled_interval env m iv) b
      (Some (multiplyChannelPricingFields env (Fin m) p)) (map_option (multiplyModelPricing env (Fin m)) base) =
    multiplyModelPricing env (Fin m) (intervalToModelPricingWithBase env iv b (Some p) base)"
    and "finite_card (intervalToModelPricingWithBase env iv b (Some p) base)"
proof -
  define c where "c = (case base of
       None \<Rightarrow> zero_card\<lparr>SupportsCacheBreakdown := b\<rparr>
     | Some x \<Rightarrow> x\<lparr>SupportsCacheBreakdown := b, LongContextInputThreshold := 0,
                   LongContextInputMultiplier := Fin 0, LongContextOutputMultiplier := Fin 0\<rparr>)"
  have fin: "finite_card c"
    using assms(3) by (auto simp: c_def finite_card_def zero_card_def split: option.split)
  have base: "(case map_option (multiplyModelPricing env (Fin m)) base of
       None \<Rightarrow> zero_card\<lparr>SupportsCacheBreakdown := b\<rparr>
     | Some x \<Rightarrow> x\<lparr>SupportsCacheBreakdown := b, LongContextInputThreshold := 0,
                   LongContextInputMultiplier := Fin 0, LongContextOutputMultiplier := Fin 0\<rparr>) =
     multiplyModelPricing env (Fin m) c"
    using assms(1,3) scaled_steps(10) [OF assms(1,2)]
    by (auto simp: c_def split: option.split) (simp add: multiplyModelPricing_def zero_card_def)
  have frame: "ChFastMultiplier (multiplyChannelPricingFields env (Fin m) p) = ChFastMultiplier p"
    "ChFastModeMultiplier (multiplyChannelPricingFields env (Fin m) p) = ChFastModeMultiplier p"
    "ChFlexMultiplier (multiplyChannelPricingFields env (Fin m) p) = ChFlexMultiplier p"
    by (simp_all add: multiplyChannelPricingFields_def)
  have same: "applyChannelFastModeMultiplier d (multiplyChannelPricingFields env (Fin m) p) = applyChannelFastModeMultiplier d p"
    "applyChannelFlexMultiplier d (multiplyChannelPricingFields env (Fin m) p) = applyChannelFlexMultiplier d p" for d
    unfolding applyChannelFastModeMultiplier_def applyChannelFlexMultiplier_def frame by (rule refl)+
  note card = interval_card_scaled [OF assms(1,2) fin assms(4)]
  show "intervalToModelPricingWithBase env (scaled_interval env m iv) b
      (Some (multiplyChannelPricingFields env (Fin m) p)) (map_option (multiplyModelPricing env (Fin m)) base) =
    multiplyModelPricing env (Fin m) (intervalToModelPricingWithBase env iv b (Some p) base)"
    unfolding intervalToModelPricingWithBase_def Let_def base c_def [symmetric]
    by (simp add: card same scaled_steps [OF assms(1,2)] finite_steps [OF assms(1)] assms(5))
  show "finite_card (intervalToModelPricingWithBase env iv b (Some p) base)"
    unfolding intervalToModelPricingWithBase_def Let_def c_def [symmetric]
    by (simp add: card(2) finite_steps [OF assms(1)] assms(5))
qed

text \<open>The card a configured price leads to, with and without a price multiplier.\<close>

definition with_multiplier :: "rat \<Rightarrow> ChannelModelPricing \<Rightarrow> ChannelModelPricing" where
  "with_multiplier m p = p\<lparr>ChPriceMultiplier := Some (Fin m)\<rparr>"

lemma overrides_finite:
  assumes "exact env" and "pred_option finite_card (BasePricing res)" and "finite_pricing p"
  shows "pred_option finite_card (BasePricing (applyTokenOverrides env p res))"
proof -
  have fin: "fin_option (ChInputPrice p)" "fin_option (ChOutputPrice p)" "fin_option (ChCacheWritePrice p)"
    "fin_option (ChCacheWrite1hPrice p)" "fin_option (ChCacheReadPrice p)"
    using assms(3) by (simp_all add: finite_pricing_def)
  have base: "finite_card (card_or_zero (BasePricing res))"
    using assms(2) by (cases "BasePricing res") (simp_all add: card_or_zero_def)
  have derived: "finite_card (c\<lparr>cacheCreationPriorityDerived := d\<rparr>) = finite_card c" for c :: PriceCard and d
    by (simp add: finite_card_def)
  have priority: "finite_card c \<Longrightarrow> is_fin (CacheCreationPricePerTokenPriority c)" for c
    by (simp add: finite_card_def)
  have "finite_card (applyChannelTokenPriceOverrides env (card_or_zero (BasePricing res)) p)"
    unfolding applyChannelTokenPriceOverrides_def Let_def
    by (simp add: derived priority finite_steps [OF assms(1)] fin base)
  then show ?thesis
    by (simp add: applyTokenOverrides_def Let_def finite_steps [OF assms(1)] assms(3) base)
qed

lemma overrides_frame:
  "applyTokenOverrides env p (res\<lparr>channelPricing := x\<rparr>) = (applyTokenOverrides env p res)\<lparr>channelPricing := x\<rparr>"
  "ResMode (applyTokenOverrides env p res) = ResMode res" "ResSource (applyTokenOverrides env p res) = ResSource res"
  "channelPricing (applyTokenOverrides env p res) = channelPricing res"
  "RequestTiers (applyTokenOverrides env p res) = RequestTiers res"
  "DefaultPerRequestPrice (applyTokenOverrides env p res) = DefaultPerRequestPrice res"
  "ResIntervals (applyTokenOverrides env p res) = (if filterValidTokenIntervals (ChIntervals p) \<noteq> []
     then filterValidTokenIntervals (ChIntervals p) else ResIntervals res)"
  by (simp_all add: applyTokenOverrides_def Let_def)

lemma with_multiplier_overrides:
  "applyTokenOverrides env (with_multiplier m p) = applyTokenOverrides env p"
  "applyResolvedFastModeMultiplier res (with_multiplier m p) = applyResolvedFastModeMultiplier res p"
  "applyRequestTierOverrides (with_multiplier m p) = applyRequestTierOverrides p"
  "ChBillingMode (with_multiplier m p) = ChBillingMode p"
  "0 \<le> m \<Longrightarrow> normalizedPriceMultiplier (with_multiplier m p) = Some (Fin m)"
  "ChPriceMultiplier p = None \<Longrightarrow> (with_multiplier m p)\<lparr>ChPriceMultiplier := None\<rparr> = p"
  by (simp_all add: with_multiplier_def fun_eq_iff applyTokenOverrides_def applyChannelTokenPriceOverrides_def
      applyChannelImageInputPrice_def apply_image_output_def applyResolvedFastModeMultiplier_def
      applyChannelFastModeMultiplier_def applyChannelFlexMultiplier_def applyRequestTierOverrides_def
      normalizedPriceMultiplier_def at_least_zero_def Let_def cong: option.case_cong)

text \<open>The resolved price of an entry in token mode before its multipliers.\<close>

definition overridden ::
  "'z go_env_scheme \<Rightarrow> (string \<Rightarrow> PriceCard option) \<Rightarrow> ChannelModelPricing \<Rightarrow> string \<Rightarrow> string \<Rightarrow> ResolvedPricing" where
  "overridden env catalogue p model source =
     applyTokenOverrides env p (with_base (catalogue model)
       ((empty_resolved (mode_or_token (ChBillingMode p)) source)\<lparr>channelPricing := Some p\<rparr>))"

lemma base_of_catalogue: "fst (resolveBasePricing catalogue model) = catalogue model"
  by (simp add: resolveBasePricing_def split: option.split)

lemma configured_plain:
  assumes "ChPriceMultiplier p = None" and "\<not> per_request_mode (mode_or_token (ChBillingMode p))"
  shows "resolveConfiguredPricing env catalogue p model source =
    applyResolvedFastModeMultiplier (overridden env catalogue p model source) p"
  using assms by (simp add: resolveConfiguredPricing_def Let_def overridden_def base_of_catalogue
      applyResolvedPriceMultiplier_def normalizedPriceMultiplier_def)

lemma configured_scaled:
  fixes env :: "'z go_env_scheme" and catalogue model source
  assumes "ChPriceMultiplier p = None" and "\<not> per_request_mode (mode_or_token (ChBillingMode p))" and "0 \<le> m"
  defines "ov \<equiv> overridden env catalogue p model source"
  shows "resolveConfiguredPricing env catalogue (with_multiplier m p) model source =
    applyResolvedFastModeMultiplier
      (ov\<lparr>BasePricing := map_option (multiplyModelPricing env (Fin m)) (BasePricing ov),
         ResIntervals := map (scaled_interval env m) (ResIntervals ov),
         RequestTiers := map (scaled_interval env m) (RequestTiers ov),
         DefaultPerRequestPrice := fmul env (DefaultPerRequestPrice ov) (Fin m),
         channelPricing := Some (multiplyChannelPricingFields env (Fin m) p)\<rparr>) p"
proof -
  have wb: "with_base c (res\<lparr>channelPricing := x\<rparr>) = (with_base c res)\<lparr>channelPricing := x\<rparr>" for c res x
    by (simp add: with_base_def)
  show ?thesis
    using assms(2,3)
    by (simp add: resolveConfiguredPricing_def Let_def base_of_catalogue applyResolvedPriceMultiplier_def with_multiplier_overrides
        with_multiplier_overrides(6) [OF assms(1)] multiply_intervals ov_def overridden_def wb overrides_frame)
qed

lemma fast_frame:
  "ResIntervals (applyResolvedFastModeMultiplier res p) = ResIntervals res"
  "channelPricing (applyResolvedFastModeMultiplier res p) = channelPricing res"
  "ResCacheBreakdown (applyResolvedFastModeMultiplier res p) = ResCacheBreakdown res"
  "ResSource (applyResolvedFastModeMultiplier res p) = ResSource res" "ResMode (applyResolvedFastModeMultiplier res p) = ResMode res"
  "BasePricing (applyResolvedFastModeMultiplier res p) =
     (if ResMode res = BillingModeToken
      then map_option (\<lambda>c. applyChannelFlexMultiplier (applyChannelFastModeMultiplier c p) p) (BasePricing res)
      else BasePricing res)"
  by (simp_all add: applyResolvedFastModeMultiplier_def)

lemma configured_card:
  fixes env :: "'z go_env_scheme" and catalogue model source
  assumes "exact env" and "0 \<le> m" and "pred_option finite_card (catalogue model)" and "finite_pricing p"
    and "ChPriceMultiplier p = None" and "\<not> per_request_mode (mode_or_token (ChBillingMode p))"
  defines "a \<equiv> resolveConfiguredPricing env catalogue p model source"
    and "b \<equiv> resolveConfiguredPricing env catalogue (with_multiplier m p) model source"
  shows "GetIntervalPricing env b n = map_option (multiplyModelPricing env (Fin m)) (GetIntervalPricing env a n)"
    and "pred_option finite_card (GetIntervalPricing env a n)"
    and "ResIntervals b = [] \<longleftrightarrow> ResIntervals a = []" and "ResSource a = source" and "ResSource b = source"
    and "channelPricing a = Some p" and "channelPricing b = Some (multiplyChannelPricingFields env (Fin m) p)"
    and "ResMode a = mode_or_token (ChBillingMode p)" and "ResMode b = ResMode a"
proof -
  define ov where "ov = overridden env catalogue p model source"
  note A = configured_plain [OF assms(5,6), of env catalogue model source, folded ov_def a_def]
  note B = configured_scaled [OF assms(5,6,2), of env catalogue model source, folded ov_def b_def]
  have ov: "channelPricing ov = Some p" "ResSource ov = source" "ResMode ov = mode_or_token (ChBillingMode p)"
    by (simp_all add: ov_def overridden_def overrides_frame with_base_def empty_resolved_def)
  then show "ResIntervals b = [] \<longleftrightarrow> ResIntervals a = []" "ResSource a = source" "ResSource b = source"
    "channelPricing a = Some p" "channelPricing b = Some (multiplyChannelPricingFields env (Fin m) p)"
    "ResMode a = mode_or_token (ChBillingMode p)" "ResMode b = ResMode a"
    by (simp_all add: A B fast_frame)
  have base: "pred_option finite_card (BasePricing ov)"
    using assms(3) unfolding ov_def overridden_def
    by (intro overrides_finite assms(1,4)) (simp add: with_base_def empty_resolved_def)
  have fin: "pred_option finite_card (BasePricing a)"
    using base by (cases "BasePricing ov") (simp_all add: A fast_frame finite_steps [OF assms(1)] assms(4))
  have scaled_base: "BasePricing b = map_option (multiplyModelPricing env (Fin m)) (BasePricing a)"
    using base by (cases "BasePricing ov")
      (simp_all add: A B fast_frame scaled_steps [OF assms(1,2)] finite_steps [OF assms(1)] assms(4))
  have ivs: "list_all finite_interval (ResIntervals a)"
    using assms(4) by (auto simp: A fast_frame ov_def overridden_def overrides_frame with_base_def empty_resolved_def
        filterValidTokenIntervals_def finite_pricing_def list_all_iff)
  have eqs: "ResIntervals b = map (scaled_interval env m) (ResIntervals a)" "ResCacheBreakdown b = ResCacheBreakdown a"
    by (simp_all add: A B fast_frame)
  have chan: "channelPricing a = Some p" "channelPricing b = Some (multiplyChannelPricingFields env (Fin m) p)"
    by (simp_all add: A B fast_frame ov)
  show "GetIntervalPricing env b n = map_option (multiplyModelPricing env (Fin m)) (GetIntervalPricing env a n)"
    "pred_option finite_card (GetIntervalPricing env a n)"
  proof (atomize (full), cases "FindMatchingInterval (ResIntervals a) n")
    case None
    then show "GetIntervalPricing env b n = map_option (multiplyModelPricing env (Fin m)) (GetIntervalPricing env a n) \<and>
        pred_option finite_card (GetIntervalPricing env a n)"
      using fin by (simp add: GetIntervalPricing_def eqs scaled_base find_scaled)
  next
    case (Some iv)
    then have "finite_interval iv"
      using ivs found_interval by blast
    with Some show "GetIntervalPricing env b n = map_option (multiplyModelPricing env (Fin m)) (GetIntervalPricing env a n) \<and>
        pred_option finite_card (GetIntervalPricing env a n)"
      using fin by (simp add: GetIntervalPricing_def eqs scaled_base find_scaled chan interval_base_scaled [OF assms(1,2)] assms(4))
  qed
qed

section \<open>The bill of scaled prices\<close>

lemma scaled_sign:
  assumes "0 < m" and "is_fin x"
  shows "positive (scaled m x) \<longleftrightarrow> positive x" and "fle (scaled m x) (Fin 0) \<longleftrightarrow> fle x (Fin 0)" and "scaled m x = Fin 0 \<longleftrightarrow> x = Fin 0"
  using assms by (simp_all add: exact_simps zero_less_mult_iff mult_le_0_iff)

lemma finite_cardD:
  assumes "finite_card c"
  shows "is_fin (InputPricePerToken c)" "is_fin (InputPricePerTokenPriority c)" "is_fin (ImageInputPricePerToken c)"
    "is_fin (OutputPricePerToken c)" "is_fin (OutputPricePerTokenPriority c)" "is_fin (CacheCreationPricePerToken c)"
    "is_fin (CacheCreationPricePerTokenPriority c)" "is_fin (CacheReadPricePerToken c)"
    "is_fin (CacheReadPricePerTokenPriority c)" "is_fin (CacheCreation5mPrice c)" "is_fin (CacheCreation1hPrice c)"
    "is_fin (ImageOutputPricePerToken c)" "is_fin (LongContextInputMultiplier c)" "is_fin (LongContextOutputMultiplier c)"
  using assms by (simp_all add: finite_card_def)

lemma multiply_fields:
  fixes m :: rat
  assumes "exact env" and "finite_card c"
  defines "s \<equiv> multiplyModelPricing env (Fin m) c"
  shows "InputPricePerToken s = scaled m (InputPricePerToken c)"
    "InputPricePerTokenPriority s = scaled m (InputPricePerTokenPriority c)"
    "ImageInputPricePerToken s = scaled m (ImageInputPricePerToken c)"
    "OutputPricePerToken s = scaled m (OutputPricePerToken c)"
    "OutputPricePerTokenPriority s = scaled m (OutputPricePerTokenPriority c)"
    "CacheCreationPricePerToken s = scaled m (CacheCreationPricePerToken c)"
    "CacheCreationPricePerTokenPriority s = scaled m (CacheCreationPricePerTokenPriority c)"
    "CacheReadPricePerToken s = scaled m (CacheReadPricePerToken c)"
    "CacheReadPricePerTokenPriority s = scaled m (CacheReadPricePerTokenPriority c)"
    "CacheCreation5mPrice s = scaled m (CacheCreation5mPrice c)"
    "CacheCreation1hPrice s = scaled m (CacheCreation1hPrice c)"
    "ImageOutputPricePerToken s = scaled m (ImageOutputPricePerToken c)"
    "cacheCreationPriorityDerived s = cacheCreationPriorityDerived c" "SupportsServiceTier s = SupportsServiceTier c"
    "CacheCreationPriceExplicit s = CacheCreationPriceExplicit c" "SupportsCacheBreakdown s = SupportsCacheBreakdown c"
    "FastModeMultiplier s = FastModeMultiplier c" "FastMultiplier s = FastMultiplier c" "FlexMultiplier s = FlexMultiplier c"
    "LongContextInputThreshold s = LongContextInputThreshold c"
    "LongContextThresholdInclusive s = LongContextThresholdInclusive c"
    "LongContextInputMultiplier s = LongContextInputMultiplier c"
    "LongContextOutputMultiplier s = LongContextOutputMultiplier c"
    "ImageOutputPriceExplicit s = ImageOutputPriceExplicit c"
  using assms(1) finite_cardD [OF assms(2)] by (simp_all add: s_def multiplyModelPricing_def fmul_scaled)

lemma enforce_eq:
  assumes "0 < ratio"
  shows "enforceOpenAIFastPricingRatio env c ratio =
    c\<lparr>InputPricePerTokenPriority := fmul env (InputPricePerToken c) (Fin ratio),
      OutputPricePerTokenPriority := fmul env (OutputPricePerToken c) (Fin ratio),
      CacheCreationPricePerTokenPriority :=
        (if \<not> CacheCreationPriceExplicit c \<and> positive (CacheCreationPricePerToken c)
         then fmul env (CacheCreationPricePerToken c) (Fin ratio) else CacheCreationPricePerTokenPriority c),
      cacheCreationPriorityDerived :=
        (if \<not> CacheCreationPriceExplicit c \<and> positive (CacheCreationPricePerToken c)
         then \<not> positive (CacheCreationPricePerTokenPriority c) \<and> positive (fmul env (CacheCreationPricePerToken c) (Fin ratio))
         else cacheCreationPriorityDerived c),
      CacheReadPricePerTokenPriority :=
        (if positive (CacheReadPricePerToken c) then fmul env (CacheReadPricePerToken c) (Fin ratio)
         else CacheReadPricePerTokenPriority c)\<rparr>"
  using assms by (simp add: enforceOpenAIFastPricingRatio_def Let_def)

lemma enforce_scaled:
  assumes "exact env" and "0 < m" and "finite_card c" and "0 < ratio"
  shows "enforceOpenAIFastPricingRatio env (multiplyModelPricing env (Fin m) c) ratio =
      multiplyModelPricing env (Fin m) (enforceOpenAIFastPricingRatio env c ratio)"
    and "finite_card (enforceOpenAIFastPricingRatio env c ratio)"
proof -
  note fin = finite_cardD [OF assms(3)]
  show fine: "finite_card (enforceOpenAIFastPricingRatio env c ratio)"
    using assms(1,3) fin by (simp add: enforce_eq [OF assms(4)] finite_card_def fmul_exact)
  have pos: "0 < x * m \<longleftrightarrow> 0 < x" "0 < x * ratio \<longleftrightarrow> 0 < x" "0 < x * (ratio * m) \<longleftrightarrow> 0 < x" for x
    using assms(2,4) by (simp_all add: zero_less_mult_iff mult_less_0_iff)
  show "enforceOpenAIFastPricingRatio env (multiplyModelPricing env (Fin m) c) ratio =
      multiplyModelPricing env (Fin m) (enforceOpenAIFastPricingRatio env c ratio)"
    using fin unfolding enforce_eq [OF assms(4)]
    by (cases c; cases "CacheCreationPriceExplicit c"; cases "positive (CacheCreationPricePerToken c)";
        cases "positive (CacheReadPricePerToken c)")
      (simp_all add: multiplyModelPricing_def assms(1) fmul_exact [OF assms(1)] fin_flt pos mult.assoc mult.commute [of m ratio])
qed

definition scaled_rates :: "rat \<Rightarrow> rates \<Rightarrow> rates" where
  "scaled_rates m r =
     r\<lparr>rate_input := scaled m (rate_input r), rate_output := scaled m (rate_output r),
       rate_cache_read := scaled m (rate_cache_read r), rate_cache_creation := scaled m (rate_cache_creation r)\<rparr>"

lemma tier_rates_scaled:
  assumes "exact env" and "0 < m" and "finite_card c"
  shows "tier_rates env (multiplyModelPricing env (Fin m) c) tier = scaled_rates m (tier_rates env c tier)"
proof -
  note fin = finite_cardD [OF assms(3)]
  have pos: "0 < x * m \<longleftrightarrow> 0 < x" for x
    using assms(2) by (simp add: zero_less_mult_iff)
  have "usePriorityServiceTierPricing env tier (multiplyModelPricing env (Fin m) c) = usePriorityServiceTierPricing env tier c"
    by (simp add: usePriorityServiceTierPricing_def multiply_fields [OF assms(1,3)] fin_flt fin pos)
  moreover have "normalizedFastModeMultiplier (multiplyModelPricing env (Fin m) c) = normalizedFastModeMultiplier c"
    by (simp add: normalizedFastModeMultiplier_def multiply_fields [OF assms(1,3)] cong: option.case_cong)
  moreover have "configuredServiceTierMultiplier env tier (multiplyModelPricing env (Fin m) c) = configuredServiceTierMultiplier env tier c"
    unfolding configuredServiceTierMultiplier_def calculation multiply_fields [OF assms(1,3)] by (rule refl)
  ultimately show ?thesis
    by (simp add: tier_rates_def Let_def scaled_rates_def multiply_fields [OF assms(1,3)] fin_flt fin pos)
qed

lemma long_context_scaled:
  assumes "exact env" and "finite_card c" and "finite_rates r"
  shows "long_context_rates env (multiplyModelPricing env (Fin m) c) (scaled_rates m r) = scaled_rates m (long_context_rates env c r)"
  using assms(1,3) finite_cardD [OF assms(2)]
  by (simp add: long_context_rates_def scaled_rates_def Let_def multiply_fields [OF assms(1,2)] finite_rates_def fmul_exact
      longContextMultiplierOrOne_def mult_ac)

lemma part_amounts_scaled:
  assumes "exact env" and "0 < m" and "finite_card c" and "finite_rates r"
  shows "part_amounts env (multiplyModelPricing env (Fin m) c) t (scaled_rates m r) = map (\<lambda>x. x * m) (part_amounts env c t r)"
proof -
  have cache: "cache_creation_amount env (multiplyModelPricing env (Fin m) c) t (p * m) = cache_creation_amount env c t p * m" for p
    using assms(2)
    by (cases "normalizeCacheCreationBreakdown env t")
      (auto simp: cache_creation_amount_def Let_def multiply_fields [OF assms(1,3)] zero_less_mult_iff algebra_simps)
  note cache = cache cache [unfolded mult.commute [of _ m]]
  show ?thesis
    using assms(2) by (simp add: part_amounts_def scaled_rates_def multiply_fields [OF assms(1,3)] cache mult_ac)
qed

lemma finite_scaled_rates: "finite_rates r \<Longrightarrow> finite_rates (scaled_rates m r)"
  by (simp add: finite_rates_def scaled_rates_def)

lemma cost_scaled:
  assumes "exact env" and "0 < m" and "finite_card c" and "finite_rates r" and "is_fin q"
  shows "amounts (cost_at_rates env (multiplyModelPricing env (Fin m) c) t (scaled_rates m r) q) =
    map (\<lambda>x. fmul env x (Fin m)) (amounts (cost_at_rates env c t r q))"
proof -
  have "tier_multiplier (scaled_rates m r) = tier_multiplier r"
    by (simp add: scaled_rates_def)
  moreover have "map (\<lambda>x. x * k) (map (\<lambda>x. x * m) xs) = map (\<lambda>x. x * m) (map (\<lambda>x. x * k) xs)" for xs and k :: rat
    by (simp add: mult_ac)
  ultimately show ?thesis
    by (simp only: cost_exact [OF assms(1) finite_multiply [OF assms(1,3)] finite_scaled_rates [OF assms(4)] assms(5)]
        cost_exact [OF assms(1,3,4,5)] part_amounts_scaled [OF assms(1-4)] bill_amounts_scale map_fmul_exact [OF assms(1)]
        fin_simps)
qed

lemma breakdown_scaled:
  assumes "exact env" and "0 < m" and "finite_card c" and "is_fin q"
  shows "amounts (computeTokenBreakdown env (multiplyModelPricing env (Fin m) c) t q tier long) =
    map (\<lambda>x. fmul env x (Fin m)) (amounts (computeTokenBreakdown env c t q tier long))"
proof -
  have "shouldApplySessionLongContextPricing t (multiplyModelPricing env (Fin m) c) = shouldApplySessionLongContextPricing t c"
    by (simp add: shouldApplySessionLongContextPricing_def multiply_fields [OF assms(1,3)])
  moreover note rates = finite_tier_rates [OF assms(3), of env tier]
  ultimately show ?thesis
    by (simp add: computeTokenBreakdown_def Let_def tier_rates_scaled [OF assms(1-3)] long_context_scaled [OF assms(1,3) rates]
        cost_scaled [OF assms(1-3)] rates finite_long_context [OF assms(1,3)] at_least_zero_fin assms(4))
qed

text \<open>The corrections of a model commute with scaling.\<close>

definition fill_cache_creation :: "'z go_env_scheme \<Rightarrow> PriceCard \<Rightarrow> PriceCard" where
  "fill_cache_creation env c =
     (if \<not> CacheCreationPriceExplicit c \<and> fle (CacheCreationPricePerToken c) (Fin 0)
      then c\<lparr>CacheCreationPricePerToken := fmul env (InputPricePerToken c) (Fin (5 / 4))\<rparr> else c)"

definition fill_cache_priority :: "'z go_env_scheme \<Rightarrow> PriceCard \<Rightarrow> PriceCard" where
  "fill_cache_priority env c =
     (if \<not> CacheCreationPriceExplicit c \<and> fle (CacheCreationPricePerTokenPriority c) (Fin 0)
      then c\<lparr>CacheCreationPricePerTokenPriority := fmul env (InputPricePerTokenPriority c) (Fin (5 / 4))\<rparr> else c)"

lemma policy_channel:
  "applyModelSpecificPricingPolicyEx env model c False =
    (let n = normalizeKnownOpenAICodexModel env model; gpt56 = isOpenAIGPT56Model env n; ratio = openAIModelFastPricingRatio n in
     if \<not> (gpt56 \<and> \<not> CacheCreationPriceExplicit c \<and> (fle (CacheCreationPricePerToken c) (Fin 0) \<or>
           positive (InputPricePerTokenPriority c) \<and> fle (CacheCreationPricePerTokenPriority c) (Fin 0))) \<and> ratio \<le> 0
     then c
     else
       let d = (if gpt56 then fill_cache_priority env (fill_cache_creation env c) else c) in
       if 0 < ratio then enforceOpenAIFastPricingRatio env d ratio else d)"
  by (simp add: applyModelSpecificPricingPolicyEx_def Let_def fill_cache_creation_def fill_cache_priority_def)

lemma fill_scaled:
  assumes "exact env" and "0 < m" and "finite_card c"
  shows "fill_cache_creation env (multiplyModelPricing env (Fin m) c) = multiplyModelPricing env (Fin m) (fill_cache_creation env c)"
    and "fill_cache_priority env (multiplyModelPricing env (Fin m) c) = multiplyModelPricing env (Fin m) (fill_cache_priority env c)"
    and "finite_card (fill_cache_creation env c)" and "finite_card (fill_cache_priority env c)"
proof -
  note fin = finite_cardD [OF assms(3)]
  have sign: "x * m \<le> 0 \<longleftrightarrow> x \<le> 0" for x
    using assms(2) by (simp add: mult_le_0_iff)
  show "finite_card (fill_cache_creation env c)" "finite_card (fill_cache_priority env c)"
    using assms(1,3) fin by (auto simp: fill_cache_creation_def fill_cache_priority_def finite_card_def fmul_exact)
  show "fill_cache_creation env (multiplyModelPricing env (Fin m) c) = multiplyModelPricing env (Fin m) (fill_cache_creation env c)"
    using fin by (cases c; cases "CacheCreationPriceExplicit c"; cases "fle (CacheCreationPricePerToken c) (Fin 0)")
      (simp_all add: fill_cache_creation_def multiplyModelPricing_def assms(1) fmul_exact [OF assms(1)] fin_fle sign)
  show "fill_cache_priority env (multiplyModelPricing env (Fin m) c) = multiplyModelPricing env (Fin m) (fill_cache_priority env c)"
    using fin by (cases c; cases "CacheCreationPriceExplicit c"; cases "fle (CacheCreationPricePerTokenPriority c) (Fin 0)")
      (simp_all add: fill_cache_priority_def multiplyModelPricing_def assms(1) fmul_exact [OF assms(1)] fin_fle sign)
qed

lemma policy_scaled:
  assumes "exact env" and "0 < m" and "finite_card c"
  shows "applyModelSpecificPricingPolicyEx env model (multiplyModelPricing env (Fin m) c) False =
      multiplyModelPricing env (Fin m) (applyModelSpecificPricingPolicyEx env model c False)"
    and "finite_card (applyModelSpecificPricingPolicyEx env model c False)"
proof -
  note fin = finite_cardD [OF assms(3)]
  have sign: "x * m \<le> 0 \<longleftrightarrow> x \<le> 0" "0 < x * m \<longleftrightarrow> 0 < x" for x
    using assms(2) by (simp_all add: mult_le_0_iff zero_less_mult_iff)
  have cond: "fle (scaled m x) (Fin 0) = fle x (Fin 0)" "positive (scaled m x) = positive x" if "is_fin x" for x
    using scaled_sign [OF assms(2) that] by simp_all
  note fill = fill_scaled [OF assms]
    fill_scaled(2,4) [OF assms(1,2) fill_scaled(3) [OF assms]]
  show "finite_card (applyModelSpecificPricingPolicyEx env model c False)"
    using fill assms(3) by (simp add: policy_channel Let_def enforce_scaled(2) [OF assms(1,2)])
  show "applyModelSpecificPricingPolicyEx env model (multiplyModelPricing env (Fin m) c) False =
      multiplyModelPricing env (Fin m) (applyModelSpecificPricingPolicyEx env model c False)"
    unfolding policy_channel Let_def multiply_fields [OF assms(1,3)] cond [OF fin(6)] cond [OF fin(7)] cond [OF fin(2)]
    using fill assms(3) by (auto simp: enforce_scaled(1) [OF assms(1,2)])
qed

text \<open>A card without positive or negative prices costs nothing.\<close>

definition free_card :: "PriceCard \<Rightarrow> bool" where
  "free_card c \<longleftrightarrow>
     list_all (\<lambda>x. x = Fin 0) [InputPricePerToken c, InputPricePerTokenPriority c, ImageInputPricePerToken c, OutputPricePerToken c,
       OutputPricePerTokenPriority c, CacheCreationPricePerToken c, CacheCreationPricePerTokenPriority c,
       CacheReadPricePerToken c, CacheReadPricePerTokenPriority c, CacheCreation5mPrice c, CacheCreation1hPrice c,
       ImageOutputPricePerToken c]"

lemma free_zero: "exact env \<Longrightarrow> finite_card c \<Longrightarrow> free_card (multiplyModelPricing env (Fin 0) c)"
  by (simp add: free_card_def multiply_fields)

lemma free_steps:
  assumes "exact env" and "free_card c"
  shows "free_card (fill_cache_creation env c)" and "free_card (fill_cache_priority env c)"
    and "0 < ratio \<Longrightarrow> free_card (enforceOpenAIFastPricingRatio env c ratio)"
  using assms by (simp_all add: free_card_def fill_cache_creation_def fill_cache_priority_def enforce_eq)

lemma free_policy:
  assumes "exact env" and "free_card c" and "finite_card c"
  shows "free_card (applyModelSpecificPricingPolicyEx env model c False)"
    and "finite_card (applyModelSpecificPricingPolicyEx env model c False)"
proof -
  show "free_card (applyModelSpecificPricingPolicyEx env model c False)"
    using assms(2) by (simp add: policy_channel Let_def free_steps [OF assms(1)])
  show "finite_card (applyModelSpecificPricingPolicyEx env model c False)"
    by (rule policy_scaled(2) [OF assms(1) zero_less_one assms(3)])
qed

lemma free_bill:
  assumes "exact env" and "free_card c" and "finite_card c" and "is_fin q"
  shows "amounts (computeTokenBreakdown env c t q tier long) = replicate 8 (Fin 0)"
proof -
  have free: "InputPricePerToken c = Fin 0" "InputPricePerTokenPriority c = Fin 0" "ImageInputPricePerToken c = Fin 0"
    "OutputPricePerToken c = Fin 0" "OutputPricePerTokenPriority c = Fin 0" "CacheCreationPricePerToken c = Fin 0"
    "CacheCreationPricePerTokenPriority c = Fin 0" "CacheReadPricePerToken c = Fin 0" "CacheReadPricePerTokenPriority c = Fin 0"
    "CacheCreation5mPrice c = Fin 0" "CacheCreation1hPrice c = Fin 0" "ImageOutputPricePerToken c = Fin 0"
    using assms(2) by (simp_all add: free_card_def)
  have cache: "cache_creation_amount env c t 0 = 0"
    by (simp add: cache_creation_amount_def free split: prod.split)
  have rates: "val (rate_input (tier_rates env c tier)) = 0" "val (rate_output (tier_rates env c tier)) = 0"
    "val (rate_cache_read (tier_rates env c tier)) = 0" "val (rate_cache_creation (tier_rates env c tier)) = 0"
    by (simp_all add: tier_rates_def Let_def free)
  have fin: "is_fin (longContextMultiplierOrOne (LongContextInputMultiplier c))"
    "is_fin (longContextMultiplierOrOne (LongContextOutputMultiplier c))"
    using finite_cardD [OF assms(3)] by (simp_all add: longContextMultiplierOrOne_def)
  note tier = finite_tier_rates [OF assms(3), of env tier]
  have "part_amounts env c t (tier_rates env c tier) = replicate 6 0"
    by (simp add: part_amounts_def free cache rates numeral_eq_Suc)
  moreover have "part_amounts env c t (long_context_rates env c (tier_rates env c tier)) = replicate 6 0"
    using tier by (simp add: part_amounts_def long_context_rates_def Let_def free cache rates fmul_exact [OF assms(1)] fin
        finite_rates_def numeral_eq_Suc)
  ultimately show ?thesis
    by (simp add: computeTokenBreakdown_def Let_def cost_exact [OF assms(1,3)] tier finite_long_context [OF assms(1,3)]
        at_least_zero_fin assms(4) bill_amounts_def numeral_eq_Suc)
qed

lemma amounts_times:
  "exact env \<Longrightarrow> is_fin k \<Longrightarrow> \<forall>x\<in>set (amounts b). is_fin x \<Longrightarrow>
    amounts (applyCostBreakdownMultiplier env b k) = map (\<lambda>x. fmul env x k) (amounts b)"
  by (auto simp: applyCostBreakdownMultiplier_def amounts_def fmul_exact fin_val)

lemma breakdown_finite:
  assumes "exact env" and "finite_card c" and "is_fin q"
  shows "\<forall>x\<in>set (amounts (computeTokenBreakdown env c t q tier long)). is_fin x"
proof -
  have "\<forall>x\<in>set (amounts (cost_at_rates env c t r (at_least_zero q))). is_fin x" if "finite_rates r" for r
    using that by (auto simp: cost_exact [OF assms(1,2)] at_least_zero_fin assms(3))
  note this [OF finite_tier_rates [OF assms(2), of env tier]]
    this [OF finite_long_context [OF assms(1,2) finite_tier_rates [OF assms(2), of env tier]]]
  then show ?thesis
    by (auto simp: computeTokenBreakdown_def Let_def)
qed

section \<open>A price multiplier scales the bill\<close>

text \<open>What requests cost per unit, with and without a price multiplier.\<close>

lemma find_label_scaled:
  "find (\<lambda>tier. EqualFold env (TierLabel tier) s \<and> IvPerRequestPrice tier \<noteq> None) (map (scaled_interval env' m) ts) =
    map_option (scaled_interval env' m) (find (\<lambda>tier. EqualFold env (TierLabel tier) s \<and> IvPerRequestPrice tier \<noteq> None) ts)"
  by (induction ts) (auto simp: scaled_interval_def multiplyPricePointer_def)

lemma per_request_scaled:
  assumes "exact env" and "0 \<le> m" and "finite_pricing p" and "ChPriceMultiplier p = None"
    and "per_request_mode (mode_or_token (ChBillingMode p))" and "is_fin (CiRateMultiplier input)" and "is_fin (CiUsageUnits input)"
  shows "amounts (calculatePerRequestCost env ((resolveConfiguredPricing env catalogue (with_multiplier m p) model source)
        \<lparr>longContextPricingEnabled := l\<rparr>) input) =
    map (\<lambda>x. fmul env x (Fin m)) (amounts (calculatePerRequestCost env
      ((resolveConfiguredPricing env catalogue p model source)\<lparr>longContextPricingEnabled := l\<rparr>) input))"
proof -
  let ?a = "(resolveConfiguredPricing env catalogue p model source)\<lparr>longContextPricingEnabled := l\<rparr>"
  let ?b = "(resolveConfiguredPricing env catalogue (with_multiplier m p) model source)\<lparr>longContextPricingEnabled := l\<rparr>"
  have a: "RequestTiers ?a = filterValidRequestIntervals (ChIntervals p)"
    "DefaultPerRequestPrice ?a = price_or_zero (ChPerRequestPrice p)"
    using assms(4,5) by (auto simp: resolveConfiguredPricing_def Let_def applyRequestTierOverrides_def applyResolvedPriceMultiplier_def
        normalizedPriceMultiplier_def price_or_zero_def empty_resolved_def split: option.split)
  have b: "RequestTiers ?b = map (scaled_interval env m) (RequestTiers ?a)"
    "DefaultPerRequestPrice ?b = fmul env (DefaultPerRequestPrice ?a) (Fin m)"
    using assms(2,4,5) by (auto simp: resolveConfiguredPricing_def Let_def with_multiplier_overrides applyRequestTierOverrides_def
        applyResolvedPriceMultiplier_def normalizedPriceMultiplier_def [of p] multiply_intervals split: option.split)
  have tiers: "list_all finite_interval (RequestTiers ?a)"
    using assms(3) by (auto simp: a filterValidRequestIntervals_def finite_pricing_def list_all_iff)
  have default: "is_fin (DefaultPerRequestPrice ?a)"
    using assms(3) by (cases "ChPerRequestPrice p") (simp_all add: a(2) price_or_zero_def finite_pricing_def)
  have label: "GetRequestTierPriceValue env ?b s = map_option (\<lambda>x. fmul env x (Fin m)) (GetRequestTierPriceValue env ?a s)" for s
    unfolding GetRequestTierPriceValue_def b(1) find_label_scaled
    by (simp add: scaled_interval_def multiplyPricePointer_def split: option.split)
  have by_context: "GetRequestTierPriceByContextValue ?b n = map_option (\<lambda>x. fmul env x (Fin m)) (GetRequestTierPriceByContextValue ?a n)" for n
    unfolding GetRequestTierPriceByContextValue_def b(1) find_scaled
    by (cases "FindMatchingInterval (RequestTiers ?a) n") (simp_all add: scaled_interval_def multiplyPricePointer_def)
  have price: "fin_option (IvPerRequestPrice iv)" if "iv \<in> set (RequestTiers ?a)" for iv
    using that tiers by (auto simp: list_all_iff finite_interval_def)
  have fin: "fin_option (GetRequestTierPriceValue env ?a s)" "fin_option (GetRequestTierPriceByContextValue ?a n)" for s n
    using price by (auto simp: GetRequestTierPriceValue_def GetRequestTierPriceByContextValue_def FindMatchingInterval_def
        split: option.split dest!: find_in_set)
  define u where "u r = (case (case if CiSizeTier input = [] then None else GetRequestTierPriceValue env r (CiSizeTier input) of
      Some x \<Rightarrow> Some x | None \<Rightarrow> GetRequestTierPriceByContextValue r (input_total (CiTokens input))) of
    Some x \<Rightarrow> x | None \<Rightarrow> DefaultPerRequestPrice r)" for r :: ResolvedPricing
  have "u ?b = fmul env (u ?a) (Fin m)" and "is_fin (u ?a)"
    using default fin(1) [of "CiSizeTier input"] fin(2) [of "input_total (CiTokens input)"]
    by (auto simp: u_def label by_context b(2) split: option.split)
  then show ?thesis
    using assms(1,6,7)
    by (simp add: calculatePerRequestCost_def Let_def u_def [symmetric] amounts_def fmul_exact count_exact mult_ac
        if_distrib [of is_fin] if_distrib [of val] cong: if_cong)
qed

lemma time_multiplier_scaled:
  "ChTimePricing (multiplyChannelPricingFields env (Fin m) p) = ChTimePricing p"
  by (simp add: multiplyChannelPricingFields_def)

text \<open>The cost of the tokens at a time of the day, for a card and for the scaled card.\<close>

lemma time_bill_scaled:
  fixes model :: string and t :: UsageTokens and tier :: string and long :: bool
  assumes "exact env" and "0 \<le> m" and "finite_card c" and "is_fin k" and "is_fin q"
  shows "amounts (applyCostBreakdownMultiplier env (computeTokenBreakdown env (applyModelSpecificPricingPolicyEx env model (multiplyModelPricing env (Fin m) c) False) t q tier long) k) =
    map (\<lambda>x. fmul env x (Fin m)) (amounts (applyCostBreakdownMultiplier env
      (computeTokenBreakdown env (applyModelSpecificPricingPolicyEx env model c False) t q tier long) k))"
proof -
  let ?bill = "\<lambda>c. computeTokenBreakdown env (applyModelSpecificPricingPolicyEx env model c False) t q tier long"
  let ?policy = "\<lambda>c. applyModelSpecificPricingPolicyEx env model c False"
  have fin: "finite_card (?policy c)" "finite_card (?policy (multiplyModelPricing env (Fin m) c))"
    using policy_scaled(2) [OF assms(1) zero_less_one] assms(3) finite_multiply [OF assms(1,3)] by blast+
  have eq: "amounts (?bill (multiplyModelPricing env (Fin m) c)) = map (\<lambda>x. fmul env x (Fin m)) (amounts (?bill c))"
  proof (cases "m = 0")
    case True
    have free: "free_card (?policy (multiplyModelPricing env (Fin m) c))"
      using free_policy(1) [OF assms(1) free_zero [OF assms(1,3)] finite_multiply [OF assms(1,3)]] True by simp
    have "map (\<lambda>x. fmul env x (Fin m)) (amounts (?bill c)) = replicate (length (amounts (?bill c))) (Fin 0)"
      using breakdown_finite [OF assms(1) fin(1) assms(5)] True by (auto simp: map_replicate_const [symmetric] fmul_exact [OF assms(1)])
    also have "length (amounts (?bill c)) = 8"
      by (simp add: amounts_def)
    finally show ?thesis
      by (simp add: free_bill [OF assms(1) free fin(2) assms(5)])
  next
    case False
    then have "0 < m"
      using assms(2) by simp
    then show ?thesis
      by (simp add: policy_scaled [OF assms(1) _ assms(3)] breakdown_scaled [OF assms(1) _ fin(1) assms(5)])
  qed
  have comm: "fmul env (fmul env x (Fin m)) k = fmul env (fmul env x k) (Fin m)" if "is_fin x" for x
    using that assms(4) by (simp add: assms(1) fmul_exact [OF assms(1)] mult_ac)
  have num: "\<forall>x\<in>set (amounts (?bill c)). is_fin x" "\<forall>x\<in>set (amounts (?bill (multiplyModelPricing env (Fin m) c))). is_fin x"
    by (rule breakdown_finite [OF assms(1) fin(1) assms(5)] breakdown_finite [OF assms(1) fin(2) assms(5)])+
  show ?thesis
    unfolding amounts_times [OF assms(1) assms(4) num(1)] amounts_times [OF assms(1) assms(4) num(2)] eq map_map
    using num(1) comm by (intro map_cong) simp_all
qed


section \<open>Two ways to the card of a channel\<close>

lemma overrides_breakdown:
  "SupportsCacheBreakdown (applyChannelTokenPriceOverrides env c p) \<longleftrightarrow> SupportsCacheBreakdown c \<or> ChCacheWrite1hPrice p \<noteq> None"
  by (simp add: applyChannelTokenPriceOverrides_def Let_def override_input_def override_output_def override_cache_read_def
      override_cache_write_def override_cache_1h_def split: option.split)

lemma breakdown_noop: "SupportsCacheBreakdown c \<Longrightarrow> c\<lparr>SupportsCacheBreakdown := True\<rparr> = c" for c :: PriceCard
  by (cases c) simp


text \<open>
  An explicit zero for the tokens of input images is billed at the price of the text: the card of an entry with such a price is
  the card of the entry without one.
\<close>

theorem explicit_zero_image_price:
  assumes "ChImageInputPrice p = Some (Fin 0)" and "ChPriceMultiplier p = None"
  shows "HasEffectivePricing (Some (p\<lparr>ChBillingMode := BillingModeToken\<rparr>)) \<and>
    applyChannelImageInputPrice p c = applyChannelImageInputPrice (p\<lparr>ChImageInputPrice := None\<rparr>) c \<and>
    ImageInputCost (cost_at_rates env (applyChannelImageInputPrice p c)
      \<lparr>InputTokens = 10, ImageInputTokens = 10, OutputTokens = 0, CacheCreationTokens = 0, CacheReadTokens = 0,
       CacheCreation5mTokens = 0, CacheCreation1hTokens = 0, ImageOutputTokens = 0\<rparr> (card_rates c) (Fin 1)) =
      fmul env (float_of_int env 10) (InputPricePerToken c)"
  using assms by (simp add: HasEffectivePricing_def Let_def per_request_mode_def billing_modes applyChannelImageInputPrice_def
      cost_at_rates_def card_rates_def split_input_def wrap64_def)

section \<open>Witnesses\<close>

definition demo_entry :: ChannelModelPricing where
  "demo_entry = (plain_entry [''gpt-5''] 4)\<lparr>ChIntervals :=
     [(plain_interval 0 (Some 1000) 1)\<lparr>IvInputPrice := None, IvInputMultiplier := Some (Fin 2), IvOutputPrice := Some (Fin 7)\<rparr>]\<rparr>"

definition demo_resolver :: resolver where
  "demo_resolver = \<lparr>Catalogue = (\<lambda>_. Some demo_card), Snapshot = None, CandidatesOf = (\<lambda>_. [])\<rparr>"

definition demo_request :: CostInput where
  "demo_request = \<lparr>CiModel = ''gpt-5'', CiGroupID = None, CiGroup = None, CiTokens = demo_usage, CiRequestCount = 1,
     CiUsageUnits = Fin 0, CiSizeTier = [], CiRateMultiplier = Fin 1, CiPricingAt = 0, CiServiceTier = [],
     CiResolver = Some demo_resolver, CiResolved = None\<rparr>"



end
