(* ===== verification/Account_Stats.thy ===== *)
theory Account_Stats
  imports Pricing_Resolver
begin

text \<open>
  What a request costs the operator, for the statistics of an account (\<^verbatim>\<open>service/account_stats_pricing.go\<close>): the rules of
  the channel, else the amount billed to the customer, else the prices of the catalogue.  No result means that the default
  formula of the statistics applies.
\<close>

section \<open>Names and rules\<close>

definition uniqueNonEmptyAccountStatsModels :: "'z go_env_scheme \<Rightarrow> string list \<Rightarrow> string list" where
  "uniqueNonEmptyAccountStatsModels env models = fst (fold (add_candidate env) models ([], {}))"

definition accountStatsCustomRuleModels :: "'z go_env_scheme \<Rightarrow> string \<Rightarrow> string \<Rightarrow> string \<Rightarrow> string \<Rightarrow> string list" where
  "accountStatsCustomRuleModels env platform upstreamModel requestedModel channelMappedModel =
     (let upstream = TrimSpace upstreamModel; requested = TrimSpace requestedModel; mapped = TrimSpace channelMappedModel in
      if platform \<noteq> PlatformQoder \<or> requested = [] \<or> requested = upstream \<and> (mapped = [] \<or> mapped = requested)
      then if upstream = [] then [] else [upstream]
      else uniqueNonEmptyAccountStatsModels env [requested, mapped, upstream])"

definition accountStatsModelFilePricingModels :: "'z go_env_scheme \<Rightarrow> string \<Rightarrow> string \<Rightarrow> string \<Rightarrow> string \<Rightarrow> string list" where
  "accountStatsModelFilePricingModels env platform upstreamModel requestedModel channelMappedModel =
     (let upstream = TrimSpace upstreamModel; requested = TrimSpace requestedModel; mapped = TrimSpace channelMappedModel in
      if platform \<noteq> PlatformQoder \<or> requested = [] \<or> requested = upstream \<and> (mapped = [] \<or> mapped = requested)
      then if upstream = [] then [] else [upstream]
      else uniqueNonEmptyAccountStatsModels env [requested, mapped, upstream])"

definition matchAccountStatsRule :: "AccountStatsPricingRule \<Rightarrow> int64 \<Rightarrow> int64 \<Rightarrow> bool" where
  "matchAccountStatsRule rule accountID gid =
     (if RuleAccountIDs rule = [] \<and> RuleGroupIDs rule = [] then False
      else accountID \<in> set (RuleAccountIDs rule) \<or> gid \<in> set (RuleGroupIDs rule))"

definition isPlatformMatch :: "string \<Rightarrow> string \<Rightarrow> bool" where
  "isPlatformMatch query pricing \<longleftrightarrow> query = [] \<or> pricing = [] \<or> query = pricing"

definition findPricingForModelByPredicate ::
  "'z go_env_scheme \<Rightarrow> ChannelModelPricing list \<Rightarrow> string \<Rightarrow> string \<Rightarrow> (ChannelModelPricing \<Rightarrow> bool) \<Rightarrow>
     ChannelModelPricing option" where
  "findPricingForModelByPredicate env pricingList platform modelLower included =
     (let candidates = filter (\<lambda>p. included p \<and> isPlatformMatch platform (ChPlatform p)) pricingList in
      case find (\<lambda>p. list_ex (\<lambda>m. to_lower env m = modelLower) (ChModels p)) candidates of
        Some p \<Rightarrow> Some p
      | None \<Rightarrow>
          find (\<lambda>p. list_ex (\<lambda>m. ends_with_star (to_lower env m) \<and> prefix (trim_star (to_lower env m)) modelLower) (ChModels p))
            candidates)"

definition findPricingForModel ::
  "'z go_env_scheme \<Rightarrow> ChannelModelPricing list \<Rightarrow> string \<Rightarrow> string \<Rightarrow> ChannelModelPricing option" where
  "findPricingForModel env pricingList platform modelLower =
     findPricingForModelByPredicate env pricingList platform modelLower (\<lambda>_. True)"

definition findEffectivePricingForModel ::
  "'z go_env_scheme \<Rightarrow> ChannelModelPricing list \<Rightarrow> string \<Rightarrow> string \<Rightarrow> ChannelModelPricing option" where
  "findEffectivePricingForModel env pricingList platform modelLower =
     findPricingForModelByPredicate env pricingList platform modelLower (\<lambda>p. HasEffectivePricing (Some p))"

section \<open>Costs\<close>

definition calculatePerRequestStatsCost :: "'z go_env_scheme \<Rightarrow> ChannelModelPricing \<Rightarrow> int \<Rightarrow> price" where
  "calculatePerRequestStatsCost env p requestCount =
     (case ChPerRequestPrice p of
        None \<Rightarrow> None
      | Some x \<Rightarrow>
          let cost = fmul env x (float_of_int env (if requestCount \<le> 0 then 1 else requestCount)) in
          if flt cost (Fin 0) then None else Some cost)"

definition hasAnyTokenStatsPrice :: "ChannelModelPricing \<Rightarrow> bool" where
  "hasAnyTokenStatsPrice p \<longleftrightarrow>
     ChInputPrice p \<noteq> None \<or> ChOutputPrice p \<noteq> None \<or> ChCacheWritePrice p \<noteq> None \<or> ChCacheWrite1hPrice p \<noteq> None \<or>
     ChCacheReadPrice p \<noteq> None \<or> ChImageOutputPrice p \<noteq> None"

definition hasAnyStatsTokenUsage :: "UsageTokens \<Rightarrow> bool" where
  "hasAnyStatsTokenUsage t \<longleftrightarrow>
     0 < InputTokens t \<or> 0 < OutputTokens t \<or> 0 < CacheCreationTokens t \<or> 0 < CacheReadTokens t \<or> 0 < ImageOutputTokens t"

text \<open>The prices of the interval that holds the number of tokens, with the image price of the entry.\<close>

definition stats_prices :: "ChannelModelPricing \<Rightarrow> UsageTokens \<Rightarrow> ChannelModelPricing" where
  "stats_prices p t =
     (case FindMatchingInterval (filterValidTokenIntervals (ChIntervals p))
         (wrap64 (InputTokens t + OutputTokens t + CacheCreationTokens t + CacheReadTokens t)) of
        None \<Rightarrow> p
      | Some iv \<Rightarrow>
          p\<lparr>ChInputPrice := IvInputPrice iv, ChOutputPrice := IvOutputPrice iv, ChCacheWritePrice := IvCacheWritePrice iv,
            ChCacheWrite1hPrice := IvCacheWrite1hPrice iv, ChCacheReadPrice := IvCacheReadPrice iv\<rparr>)"

definition stats_cache_creation :: "'z go_env_scheme \<Rightarrow> ChannelModelPricing \<Rightarrow> UsageTokens \<Rightarrow> float64" where
  "stats_cache_creation env p t =
     (let (c5, c1) = normalizeCacheCreationBreakdown env t in
      if ChCacheWrite1hPrice p \<noteq> None \<and> (0 < c5 \<or> 0 < c1)
      then fadd env (fmul env (float_of_int env c5) (price_or_zero (ChCacheWritePrice p)))
                    (fmul env (float_of_int env c1) (price_or_zero (ChCacheWrite1hPrice p)))
      else fmul env (float_of_int env (CacheCreationTokens t)) (price_or_zero (ChCacheWritePrice p)))"

definition calculateTokenStatsCost :: "'z go_env_scheme \<Rightarrow> ChannelModelPricing \<Rightarrow> UsageTokens \<Rightarrow> price" where
  "calculateTokenStatsCost env pricing t =
     (let p = stats_prices pricing t in
      if \<not> hasAnyTokenStatsPrice p \<or> \<not> hasAnyStatsTokenUsage t then None
      else
        let times = (\<lambda>n x. fmul env (float_of_int env n) (price_or_zero x));
            cost = fadd env (fadd env (fadd env (fadd env (times (InputTokens t) (ChInputPrice p))
                     (times (OutputTokens t) (ChOutputPrice p))) (stats_cache_creation env p t))
                     (times (CacheReadTokens t) (ChCacheReadPrice p))) (times (ImageOutputTokens t) (ChImageOutputPrice p)) in
        if flt cost (Fin 0) then None else Some cost)"

definition calculateStatsCost :: "'z go_env_scheme \<Rightarrow> ChannelModelPricing \<Rightarrow> UsageTokens \<Rightarrow> int \<Rightarrow> price" where
  "calculateStatsCost env p t requestCount =
     (case (if ChBillingMode p \<in> {BillingModePerRequest, BillingModeImage}
            then calculatePerRequestStatsCost env p requestCount else calculateTokenStatsCost env p t) of
        None \<Rightarrow> None
      | Some cost \<Rightarrow>
          (case normalizedPriceMultiplier p of Some m \<Rightarrow> Some (fmul env cost m) | None \<Rightarrow> Some cost))"

fun tryCustomRules ::
  "'z go_env_scheme \<Rightarrow> AccountStatsPricingRule list \<Rightarrow> int64 \<Rightarrow> int64 \<Rightarrow> string \<Rightarrow> string \<Rightarrow> UsageTokens \<Rightarrow> int \<Rightarrow> price" where
  "tryCustomRules env [] accountID gid platform model t requestCount = None"
| "tryCustomRules env (rule # rules) accountID gid platform model t requestCount =
     (let rest = tryCustomRules env rules accountID gid platform model t requestCount in
      if \<not> matchAccountStatsRule rule accountID gid then rest
      else
        case findEffectivePricingForModel env (RulePricing rule) platform (to_lower env model) of
          None \<Rightarrow> rest
        | Some p \<Rightarrow> (case calculateStatsCost env p t requestCount of Some cost \<Rightarrow> Some cost | None \<Rightarrow> rest))"

definition tryModelFilePricing ::
  "'z go_env_scheme \<Rightarrow> (string \<Rightarrow> PriceCard option) \<Rightarrow> gtime \<Rightarrow> string \<Rightarrow> UsageTokens \<Rightarrow> string \<Rightarrow> price" where
  "tryModelFilePricing env catalogue now model t tier =
     (case CalculateCostWithServiceTier env catalogue now model t (Fin 1) (normalizeBillingServiceTier env tier) of
        None \<Rightarrow> None
      | Some b \<Rightarrow> if fle (TotalCost b) (Fin 0) then None else Some (TotalCost b))"

section \<open>The order of the sources\<close>

definition GetChannelForGroup :: "channelCache \<Rightarrow> int64 \<Rightarrow> Channel option" where
  "GetChannelForGroup cache gid =
     (case channelByGroupID cache gid of Some ch \<Rightarrow> if ChannelIsActive ch then Some ch else None | None \<Rightarrow> None)"

text \<open>No snapshot stands for a missing channel service, no catalogue for a missing billing service.\<close>

definition resolveAccountStatsCostWithMapped ::
  "'z go_env_scheme \<Rightarrow> channelCache option \<Rightarrow> (string \<Rightarrow> PriceCard option) option \<Rightarrow> gtime \<Rightarrow> int64 \<Rightarrow> int64 \<Rightarrow> string \<Rightarrow>
     string \<Rightarrow> string \<Rightarrow> UsageTokens \<Rightarrow> int \<Rightarrow> float64 \<Rightarrow> string \<Rightarrow> price" where
  "resolveAccountStatsCostWithMapped env snapshot billing now accountID gid upstream requested mapped t requestCount totalCost tier =
     (case snapshot of
        None \<Rightarrow> None
      | Some cache \<Rightarrow>
          if upstream = [] then None
          else
            case GetChannelForGroup cache gid of
              None \<Rightarrow> None
            | Some channel \<Rightarrow>
                let platform = platform_of_group (groupPlatform cache) gid in
                (case first_found (\<lambda>m. tryCustomRules env (StatsRules channel) accountID gid platform m t requestCount)
                    (accountStatsCustomRuleModels env platform upstream requested mapped) of
                   Some cost \<Rightarrow> Some cost
                 | None \<Rightarrow>
                     if ApplyPricingToAccountStats channel
                     then if fle totalCost (Fin 0) then None else Some totalCost
                     else
                       case billing of
                         None \<Rightarrow> None
                       | Some catalogue \<Rightarrow>
                           if platform = PlatformQoder
                           then if qoderAliasRequiresManualPricingAny env [requested] then None
                                else first_found (\<lambda>m. if qoderAliasRequiresManualPricingAny env [m] then None
                                         else tryModelFilePricing env catalogue now m t tier)
                                       (accountStatsModelFilePricingModels env platform upstream requested mapped)
                           else tryModelFilePricing env catalogue now upstream t tier))"

definition resolveAccountStatsCost ::
  "'z go_env_scheme \<Rightarrow> channelCache option \<Rightarrow> (string \<Rightarrow> PriceCard option) option \<Rightarrow> gtime \<Rightarrow> int64 \<Rightarrow> int64 \<Rightarrow> string \<Rightarrow>
     string \<Rightarrow> UsageTokens \<Rightarrow> int \<Rightarrow> float64 \<Rightarrow> string \<Rightarrow> price" where
  "resolveAccountStatsCost env snapshot billing now accountID gid upstream requested t requestCount totalCost tier =
     resolveAccountStatsCostWithMapped env snapshot billing now accountID gid upstream requested [] t requestCount totalCost tier"

text \<open>The part of a usage log entry that is read and written.\<close>

record usage_entry =
  ImageCount :: int
  EntryServiceTier :: "string option"
  AccountStatsCost :: price

definition applyAccountStatsCost ::
  "'z go_env_scheme \<Rightarrow> usage_entry \<Rightarrow> channelCache option \<Rightarrow> (string \<Rightarrow> PriceCard option) option \<Rightarrow> gtime \<Rightarrow> int64 \<Rightarrow> int64 \<Rightarrow>
     string \<Rightarrow> string \<Rightarrow> string \<Rightarrow> UsageTokens \<Rightarrow> float64 \<Rightarrow> usage_entry" where
  "applyAccountStatsCost env entry snapshot billing now accountID gid upstream requested mapped t totalCost =
     (let model = (if upstream = [] then requested else upstream);
          requestCount = (if 0 < ImageCount entry then ImageCount entry else 1);
          tier = (case EntryServiceTier entry of Some s \<Rightarrow> s | None \<Rightarrow> []) in
      entry\<lparr>AccountStatsCost :=
        resolveAccountStatsCostWithMapped env snapshot billing now accountID gid model requested mapped t requestCount totalCost tier\<rparr>)"

section \<open>A cost is never negative\<close>

lemma fmul_not_negative:
  assumes "rounds env" and "\<not> flt x (Fin 0)" and "\<not> flt y (Fin 0)"
  shows "\<not> flt (fmul env x y) (Fin 0)"
proof -
  have "\<not> flt (round64 env r) (Fin 0)" if "0 \<le> r" for r
    using rounds_nonneg [OF assms(1) that] by (cases "round64 env r") auto
  with assms(2,3) show ?thesis
    by (cases x; cases y) (auto simp: signed_infinity_def)
qed

lemma calculateStatsCost_not_negative:
  assumes "rounds env" and "calculateStatsCost env p t n = Some cost"
  shows "\<not> flt cost (Fin 0)"
proof -
  have raw: "\<not> flt c (Fin 0)" if "calculatePerRequestStatsCost env p n = Some c \<or> calculateTokenStatsCost env p t = Some c" for c
    using that by (auto simp: calculatePerRequestStatsCost_def calculateTokenStatsCost_def Let_def split: option.splits if_splits)
  have m: "\<not> flt (at_least_zero x) (Fin 0)" for x
    by (simp add: at_least_zero_def)
  show ?thesis
    using assms(2) raw m fmul_not_negative [OF assms(1)]
    by (auto simp: calculateStatsCost_def normalizedPriceMultiplier_def split: option.splits if_splits)
qed

lemma tryCustomRules_not_negative:
  "rounds env \<Longrightarrow> tryCustomRules env rules accountID gid platform model t n = Some cost \<Longrightarrow> \<not> flt cost (Fin 0)"
  by (induction rules) (auto simp: Let_def dest: calculateStatsCost_not_negative split: if_splits option.splits)

lemma first_found_some: "first_found f xs = Some y \<Longrightarrow> \<exists>x\<in>set xs. f x = Some y"
  by (induction xs) (auto split: option.splits)

lemma above_zero: "\<not> fle x (Fin 0) \<Longrightarrow> \<not> flt x (Fin 0)"
  by (cases x) auto

lemma tryModelFilePricing_not_negative: "tryModelFilePricing env catalogue now model t tier = Some cost \<Longrightarrow> \<not> flt cost (Fin 0)"
  by (auto simp: tryModelFilePricing_def above_zero split: option.splits if_splits)

text \<open>
  C39. A cost recorded for the statistics of an account is never negative, whatever prices, multipliers and token counts the
  rules, the customer's bill and the catalogue hold: a negative amount is no result, so that the default formula applies.
\<close>

theorem stats_cost_never_negative:
  assumes "rounds env"
    and "resolveAccountStatsCostWithMapped env snapshot billing now accountID gid upstream requested mapped t n billed tier = Some cost"
  shows "\<not> flt cost (Fin 0)"
  using assms(2)
  by (auto simp: resolveAccountStatsCostWithMapped_def Let_def split: option.splits if_splits dest!: first_found_some
      dest: tryCustomRules_not_negative [OF assms(1)] tryModelFilePricing_not_negative above_zero)

section \<open>The statistics and the bill\<close>

text \<open>An entry of flat prices per token: no intervals, no multiplier, no times, one price for writing the cache.\<close>

definition flat_entry :: "ChannelModelPricing \<Rightarrow> bool" where
  "flat_entry p \<longleftrightarrow>
     mode_or_token (ChBillingMode p) = BillingModeToken \<and> filterValidTokenIntervals (ChIntervals p) = [] \<and>
     ChPriceMultiplier p = None \<and> ChTimePricing p = None \<and> ChCacheWritePrice p \<noteq> None \<and> ChCacheWrite1hPrice p = None \<and>
     list_all (\<lambda>x. fin_option x \<and> 0 \<le> val (price_or_zero x))
       [ChInputPrice p, ChOutputPrice p, ChCacheWritePrice p, ChCacheReadPrice p, ChImageOutputPrice p]"

lemma fin_price: "fin_option x \<Longrightarrow> is_fin (price_or_zero x)"
  by (cases x) (simp_all add: price_or_zero_def)

lemma tier_frame:
  fixes c :: PriceCard and p :: ChannelModelPricing
  defines "d \<equiv> applyChannelFlexMultiplier (applyChannelFastModeMultiplier c p) p"
  shows "InputPricePerToken d = InputPricePerToken c" "OutputPricePerToken d = OutputPricePerToken c"
    "CacheCreationPricePerToken d = CacheCreationPricePerToken c" "CacheCreationPriceExplicit d = CacheCreationPriceExplicit c"
    "CacheReadPricePerToken d = CacheReadPricePerToken c" "ImageOutputPricePerToken d = ImageOutputPricePerToken c"
    "ImageOutputPriceExplicit d = ImageOutputPriceExplicit c" "SupportsCacheBreakdown d = SupportsCacheBreakdown c"
    "LongContextInputThreshold d = LongContextInputThreshold c"
  by (simp_all add: d_def applyChannelFlexMultiplier_def applyChannelFastModeMultiplier_def split: option.split)

lemma flat_fields:
  fixes env :: "'z go_env_scheme"
  assumes "ChCacheWritePrice p = Some w" and "ChCacheWrite1hPrice p = None"
  defines "c \<equiv> applyChannelTokenPriceOverrides env zero_card p"
  shows "InputPricePerToken c = price_or_zero (ChInputPrice p)" "OutputPricePerToken c = price_or_zero (ChOutputPrice p)"
    "CacheCreationPricePerToken c = w" "CacheCreationPriceExplicit c" "CacheReadPricePerToken c = price_or_zero (ChCacheReadPrice p)"
    "\<not> SupportsCacheBreakdown c" "LongContextInputThreshold c = 0"
  using assms by (cases "ChInputPrice p"; cases "ChOutputPrice p"; cases "ChCacheReadPrice p";
      simp add: applyChannelTokenPriceOverrides_def Let_def override_input_def override_output_def override_cache_write_def
        override_cache_1h_def override_cache_read_def zero_card_def price_or_zero_def)+

text \<open>The card of such an entry for a model the catalogue does not know, and what the corrections of a model leave of it.\<close>

lemma flat_card:
  assumes "exact env" and "flat_entry p" and "finite_pricing p" and "catalogue model = None"
  obtains c where "GetIntervalPricing env (resolveConfiguredPricing env catalogue p model source) n = Some c"
    and "finite_card c" and "InputPricePerToken c = price_or_zero (ChInputPrice p)"
    and "OutputPricePerToken c = price_or_zero (ChOutputPrice p)"
    and "CacheCreationPricePerToken c = price_or_zero (ChCacheWritePrice p)" and "CacheCreationPriceExplicit c"
    and "CacheReadPricePerToken c = price_or_zero (ChCacheReadPrice p)"
    and "ImageOutputPricePerToken c = price_or_zero (ChImageOutputPrice p)" and "ImageOutputPriceExplicit c"
    and "\<not> SupportsCacheBreakdown c" and "LongContextInputThreshold c = 0"
proof -
  have mode: "\<not> per_request_mode (mode_or_token (ChBillingMode p))"
    using assms(2) by (simp add: flat_entry_def per_request_mode_def billing_modes)
  define ov where "ov = overridden env catalogue p model source"
  have ov: "ResIntervals ov = []" "ResMode ov = BillingModeToken"
    "BasePricing ov = Some (applyChannelImageInputPrice p (apply_image_output p (applyChannelTokenPriceOverrides env zero_card p)))"
    using assms(2) by (simp_all add: ov_def overridden_def overrides_frame flat_entry_def with_base_def empty_resolved_def assms(4))
      (simp add: applyTokenOverrides_def Let_def card_or_zero_def force_breakdown_def)
  let ?c = "applyChannelFlexMultiplier (applyChannelFastModeMultiplier (applyChannelImageInputPrice p (apply_image_output p
    (applyChannelTokenPriceOverrides env zero_card p))) p) p"
  have card: "GetIntervalPricing env (resolveConfiguredPricing env catalogue p model source) n = Some ?c"
    using configured_plain [OF _ mode, of env catalogue model source] assms(2)
    by (simp add: flat_entry_def ov_def [symmetric] GetIntervalPricing_def fast_frame ov)
  have fin: "pred_option finite_card (GetIntervalPricing env (resolveConfiguredPricing env catalogue p model source) n)"
    by (rule configured_card(2) [OF assms(1) order.refl _ assms(3) _ mode]) (use assms(2,4) in \<open>simp_all add: flat_entry_def\<close>)
  obtain w where w: "ChCacheWritePrice p = Some w" "ChCacheWrite1hPrice p = None"
    using assms(2) by (auto simp: flat_entry_def)
  note fields = flat_fields [OF w, of env]
  show thesis
    by (rule that [OF card]) (use fin card w in \<open>simp_all add: tier_frame applyChannelImageInputPrice_def apply_image_output_def
        fields price_or_zero_def\<close>)
qed

lemma policy_explicit:
  fixes env :: "'z go_env_scheme" and model
  assumes "CacheCreationPriceExplicit c"
  defines "d \<equiv> applyModelSpecificPricingPolicyEx env model c False"
  shows "InputPricePerToken d = InputPricePerToken c" and "OutputPricePerToken d = OutputPricePerToken c"
    and "CacheCreationPricePerToken d = CacheCreationPricePerToken c" and "CacheReadPricePerToken d = CacheReadPricePerToken c"
    and "ImageOutputPricePerToken d = ImageOutputPricePerToken c" and "ImageOutputPriceExplicit d = ImageOutputPriceExplicit c"
    and "SupportsCacheBreakdown d = SupportsCacheBreakdown c" and "LongContextInputThreshold d = LongContextInputThreshold c"
  using assms by (simp_all add: d_def policy_channel Let_def fill_cache_creation_def fill_cache_priority_def enforce_eq)

lemma flat_total:
  assumes "round64 env = Fin" and "finite_card d" and "InputPricePerToken d = price_or_zero (ChInputPrice p)"
    and "OutputPricePerToken d = price_or_zero (ChOutputPrice p)" and "CacheCreationPricePerToken d = price_or_zero (ChCacheWritePrice p)"
    and "CacheReadPricePerToken d = price_or_zero (ChCacheReadPrice p)"
    and "ImageOutputPricePerToken d = price_or_zero (ChImageOutputPrice p) \<and> ImageOutputPriceExplicit d"
    and "\<not> SupportsCacheBreakdown d" and "is_fin q" and "nonneg_usage t" and "ImageInputTokens t = 0"
    and "ImageOutputTokens t \<le> OutputTokens t"
  shows "TotalCost (cost_at_rates env d t ((card_rates d)\<lparr>tier_multiplier := Fin 1\<rparr>) q) = Fin (of_int (InputTokens t) * val (price_or_zero (ChInputPrice p)) +
      (of_int (OutputTokens t) - of_int (ImageOutputTokens t)) * val (price_or_zero (ChOutputPrice p)) +
      of_int (ImageOutputTokens t) * val (price_or_zero (ChImageOutputPrice p)) +
      of_int (CacheCreationTokens t) * val (price_or_zero (ChCacheWritePrice p)) +
      of_int (CacheReadTokens t) * val (price_or_zero (ChCacheReadPrice p)))"
proof -
  define b where "b = cost_at_rates env d t ((card_rates d)\<lparr>tier_multiplier := Fin 1\<rparr>) q"
  have "finite_rates ((card_rates d)\<lparr>tier_multiplier := Fin 1\<rparr>)"
    using finite_cardD [OF assms(2)] by (simp add: finite_rates_def card_rates_def)
  note cost_exact [OF assms(1) assms(2) this assms(9), of t, folded b_def]
  then have "amounts b ! 6 = Fin (sum_list (part_amounts env d t (card_rates d)))"
    by (simp add: bill_amounts_def part_amounts_def)
  moreover have "wrap64 (OutputTokens t - ImageOutputTokens t) = OutputTokens t - ImageOutputTokens t"
    using assms(10,12) by (intro wrap64_id) (simp add: nonneg_usage_def in_int64_def min_int64_def max_int64_def)
  ultimately show ?thesis
    using assms(10-12) by (auto simp: amounts_def part_amounts_def card_rates_def assms(3-8) split_input_def cache_creation_amount_def
        nonneg_usage_def b_def split: prod.split)
qed

lemma flat_stats_cost:
  assumes "flat_entry p" and "nonneg_usage t" and "round64 env = Fin" and "hasAnyStatsTokenUsage t"
  shows "calculateTokenStatsCost env p t = Some (Fin (of_int (InputTokens t) * val (price_or_zero (ChInputPrice p)) +
      of_int (OutputTokens t) * val (price_or_zero (ChOutputPrice p)) +
      of_int (CacheCreationTokens t) * val (price_or_zero (ChCacheWritePrice p)) +
      of_int (CacheReadTokens t) * val (price_or_zero (ChCacheReadPrice p)) +
      of_int (ImageOutputTokens t) * val (price_or_zero (ChImageOutputPrice p))))"
proof -
  have fin: "is_fin (price_or_zero (ChInputPrice p))" "is_fin (price_or_zero (ChOutputPrice p))" "is_fin (price_or_zero (ChCacheWritePrice p))"
      "is_fin (price_or_zero (ChCacheReadPrice p))" "is_fin (price_or_zero (ChImageOutputPrice p))"
    and pos: "0 \<le> val (price_or_zero (ChInputPrice p))" "0 \<le> val (price_or_zero (ChOutputPrice p))"
      "0 \<le> val (price_or_zero (ChCacheWritePrice p))" "0 \<le> val (price_or_zero (ChCacheReadPrice p))"
      "0 \<le> val (price_or_zero (ChImageOutputPrice p))"
    using assms(1) by (simp_all add: flat_entry_def fin_price)
  have same: "stats_prices p t = p"
    using assms(1) by (simp add: stats_prices_def flat_entry_def FindMatchingInterval_def)
  have cache: "stats_cache_creation env p t = Fin (of_int (CacheCreationTokens t) * val (price_or_zero (ChCacheWritePrice p)))"
    using assms(1) fin by (simp add: stats_cache_creation_def flat_entry_def fmul_exact [OF assms(3)] count_exact [OF assms(3)] split: prod.split)
  have any: "hasAnyTokenStatsPrice p"
    using assms(1) by (simp add: hasAnyTokenStatsPrice_def flat_entry_def)
  have counts: "0 \<le> InputTokens t" "0 \<le> OutputTokens t" "0 \<le> CacheCreationTokens t" "0 \<le> CacheReadTokens t" "0 \<le> ImageOutputTokens t"
    using assms(2) by (simp_all add: nonneg_usage_def)
  show ?thesis
    using assms(4) any fin pos counts
    by (simp add: calculateTokenStatsCost_def same Let_def cache assms(3) fmul_exact [OF assms(3)] fadd_exact [OF assms(3)] count_exact [OF assms(3)]
        not_less)
qed


text \<open>
  A rule with a price per video is effective but gives no cost: the statistics take the mode of videos for tokens.
\<close>

theorem video_rule_gives_no_cost:
  assumes "ChBillingMode p = BillingModeVideo" and "ChPerRequestPrice p = Some x" and "ChIntervals p = []" and "\<not> hasAnyTokenStatsPrice p"
  shows "HasEffectivePricing (Some p) \<and> calculateStatsCost env p t n = None \<and>
    calculateStatsCost env (p\<lparr>ChBillingMode := BillingModeImage\<rparr>) t n =
      calculateStatsCost env (p\<lparr>ChBillingMode := BillingModePerRequest\<rparr>) t n"
  using assms by (simp add: HasEffectivePricing_def Let_def per_request_mode_def billing_modes calculateStatsCost_def
      calculateTokenStatsCost_def stats_prices_def filterValidTokenIntervals_def FindMatchingInterval_def
      calculatePerRequestStatsCost_def normalizedPriceMultiplier_def)

section \<open>Witnesses\<close>

definition demo_flat :: ChannelModelPricing where
  "demo_flat = (plain_entry [''gpt-x''] 2)\<lparr>ChOutputPrice := Some (Fin 6), ChCacheWritePrice := Some (Fin 3),
     ChImageOutputPrice := Some (Fin 10)\<rparr>"

definition demo_text_usage :: UsageTokens where
  "demo_text_usage = demo_usage\<lparr>ImageInputTokens := 0\<rparr>"

definition demo_flat_request :: CostInput where
  "demo_flat_request = demo_request\<lparr>CiTokens := demo_text_usage, CiResolved :=
     Some (resolveConfiguredPricing demo_go_env (\<lambda>_. None) demo_flat ''gpt-x'' PricingSourceChannel)\<rparr>"


definition demo_stats_cache :: channelCache where
  "demo_stats_cache = newEmptyChannelCache\<lparr>channelByGroupID := [3 \<mapsto> demo_channel\<lparr>ApplyPricingToAccountStats := True\<rparr>]\<rparr>"

theorem stats_cost_never_negative_witness:
  "resolveAccountStatsCostWithMapped demo_go_env (Some demo_stats_cache) None 0 7 3 ''gpt-5'' ''gpt-5'' [] demo_usage 1 (Fin 5) [] = Some (Fin 5) \<and>
   \<not> flt (Fin 5) (Fin 0)"
proof
  have "TrimSpace ''gpt-5'' = ''gpt-5''"
    by (rule TrimSpace_printable) simp
  then show cost: "resolveAccountStatsCostWithMapped demo_go_env (Some demo_stats_cache) None 0 7 3 ''gpt-5'' ''gpt-5'' [] demo_usage 1 (Fin 5) [] =
      Some (Fin 5)"
    by (simp add: resolveAccountStatsCostWithMapped_def demo_stats_cache_def newEmptyChannelCache_def GetChannelForGroup_def demo_channel_def
        ChannelIsActive_def accountStatsCustomRuleModels_def platform_of_group_def Let_def)
  show "\<not> flt (Fin 5) (Fin 0)"
    by (rule stats_cost_never_negative [OF rounds_exact [OF demo_exact] cost])
qed

end
