(* ===== verification/Spec2Isabelle.thy ===== *)
theory Spec2Isabelle
  imports Idempotency System_Lock Failover Model_Mapping Account_Quota Account_Sched Keyword_Search Proxy_Circuit Model_Transient
    Account_Whitelist Qoder_Encoding Group_Protocols Announcements Subscription_Chain Scheduler_Core
    Channel_Store Image_Concurrency Account_Stats
begin

text \<open>
  A model of the decision logic of the token router, a gateway written in Go that accepts requests of
  several client protocols and sends them to accounts of several upstream providers.  Paths are relative
  to \<^verbatim>\<open>src/backend/internal\<close>.

  The parts and how they meet.  A write request of the control plane runs inside the idempotency
  coordinator, whose record store is a PostgreSQL table; the system operation lock is a lease in the same
  table.  A gateway request names a model; the API key, the composite key and the account rewrite the name,
  and the whitelist of the account decides whether the account serves it.  An account is scheduled while
  no gate (its status, expiry, rate limits, quotas, window cost, request rate) closes it.  When an upstream
  fails, the failover loop retries or moves on to the next account; the proxy circuit and the table of
  model failures keep failing paths out of the selection for a while.  Subscriptions limit what a user
  spends per day, week and month.  Announcements, groups and listings belong to the control plane.

  Theories, bottom up.
  \<^item> \<open>Go_Prelude\<close>, \<open>Go_Utf8\<close>, \<open>Go_Location\<close>, \<open>Json_Value\<close>, \<open>Go_Float\<close>: the parts of Go and of its library the code uses.
    Strings are lists of bytes, instants and durations are integers in nanoseconds, time zones are lists of
    transitions, dynamic values are a datatype, 64-bit arithmetic wraps.  The environment \<open>go_env\<close> carries
    what is taken from outside: lower-casing beyond ASCII, rounding of floats, parsing of floats and times.
  \<^item> \<open>Idempotency_Store\<close>, \<open>Idempotency\<close>, \<open>System_Lock\<close>: \<^verbatim>\<open>service/idempotency.go\<close>,
    \<^verbatim>\<open>repository/idempotency_repo.go\<close> and \<^verbatim>\<open>service/system_operation_lock_service.go\<close>.  The repository is a record
    of functions over a state, the SQL table is one instance, and the laws the coordinator needs are a
    locale interpreted on it.  Shown: replay of the stored result, no effect without a claim, conflicts, the
    retry after a failure, mutual exclusion while the lease is renewed.
  \<^item> \<open>Account_Model\<close>, \<open>Account_Quota\<close>, \<open>Account_Sched\<close>, \<open>Account_Platform\<close>, \<open>Account_OpenAI\<close>, \<open>Account_Whitelist\<close>:
    \<^verbatim>\<open>service/account.go\<close> in six parts (with \<^verbatim>\<open>service/openai_ws_protocol_resolver.go\<close> and
    \<^verbatim>\<open>pkg/openai_compat\<close>): the record and its readers, quota windows and their resets, the
    scheduling gates, platforms and addresses, capabilities and transports, models and whitelists.
  \<^item> \<open>Model_Mapping\<close>: wildcard resolution, API key redirections and composite prefixes.
  \<^item> \<open>Failover\<close>: \<^verbatim>\<open>handler/failover_loop.go\<close> and the loop of the chat completions handler.
  \<^item> \<open>Keyed_Registry\<close>, \<open>Proxy_Circuit\<close>, \<open>Model_Transient\<close>: bounded tables of failing proxies and of failing pairs of
    account and model.  The locale \<open>keyed_table\<close> states what a call does to the entry of its key and to the
    others; both tables interpret it, which gives the bound of the size and that keys do not influence each other.
  \<^item> \<open>Suffix_Automaton\<close>, \<open>Keyword_Matcher\<close>, \<open>Keyword_Trie\<close>, \<open>Keyword_Links\<close>, \<open>Keyword_Search\<close>: the Aho-Corasick
    matcher of the content moderation, refined from suffixes in a set of strings through the trie and
    the failure links to the packed arrays; its result is that of searching each keyword in turn.
  \<^item> \<open>Qoder_Catalog\<close>, \<open>Qoder_Encoding\<close>: sites, models, machine identity and the body encoding of \<^verbatim>\<open>pkg/qoder\<close>.
  \<^item> \<open>Group_Protocols\<close>, \<open>Pagination\<close>, \<open>Announcements\<close>: client protocols of groups, pages of lists, and announcements from
    their targeting rules over the tables to the service, with reachability of the tables.
  \<^item> \<open>Subscription\<close>: \<^verbatim>\<open>service/user_subscription.go\<close> and the maintenance of windows of the subscription service over the
    row of the repository: the pre-check and the maintenance agree, shown reset times are met, and
    concurrent resets lose no charge.
  \<^item> \<open>Subscription_Chain\<close>: the subscriptions a user holds of one plan, one after the other: grants, revocation by the
    administrator and by the user, restoration, extension and reduction, as transactions over the table of
    \<^verbatim>\<open>repository/user_subscription_repo.go\<close>.  Without restorations the active ones never overlap; with one they can.
    Dates lie in one era, within 2^62 nanoseconds of the latest expiry, so that no duration saturates.
  \<^item> \<open>Go_Heap\<close>, \<open>Scheduler_Core\<close>: \<^verbatim>\<open>container/heap\<close> and an insertion sort over a comparison that keeps the laws of the
    locale \<open>ranking\<close>, and \<^verbatim>\<open>service/advanced_scheduler_core.go\<close>, which interprets it twice: runtime feedback, scores,
    the selection of the best candidates, and the weighted order, with its random generator on 64-bit words.  The
    heap selects what sorting would, better signals never lower a score, and a session is served in a stable order.
  \<^item> \<open>Channel_Pricing\<close>, \<open>Channel_Config\<close>, \<open>Channel_Cache\<close>, \<open>Channel_Store\<close>: channels, which give groups of users their
    prices and model names (\<^verbatim>\<open>service/channel.go\<close>, \<^verbatim>\<open>service/custom_channel_time_pricing.go\<close>,
    \<^verbatim>\<open>service/channel_service.go\<close>, \<^verbatim>\<open>repository/channel_repo.go\<close> with its two companions,
    \<^verbatim>\<open>handler/admin/channel_handler.go\<close>): the entries and what validation accepts, the snapshot of hash tables that requests
    read, and the service that stores a channel and rebuilds the snapshot.  Accepted are exactly the configurations in which
    no number of tokens lies in two intervals and no model is covered twice; so a lookup gives the one entry that covers the
    model in any order of entries and mappings, every stored channel passes validation again, and a price read from the
    snapshot is the one the tables give.  Rules for account statistics are the exception: storing loses their multipliers.
  \<^item> \<open>OpenAI_Alias\<close>, \<open>Token_Cost\<close>, \<open>Pricing_Resolver\<close>, \<open>Account_Stats\<close>: what a request costs, from the names it may be
    billed under (\<^verbatim>\<open>service/openai_model_alias.go\<close>) over the price card of its model and the breakdown of its tokens
    (\<^verbatim>\<open>service/billing_service.go\<close>) and the choice between group, channel and catalogue
    (\<^verbatim>\<open>service/model_pricing_resolver.go\<close>) to the cost recorded for the account (\<^verbatim>\<open>service/account_stats_pricing.go\<close>).
    Definitions work on floats with the rounding of the environment.  Signs and counts are shown with rounding; statements
    that compare amounts (a multiplier scales the bill, a long context is never cheaper, the statistics exceed the bill by the
    images) take the environment that rounds nothing, where every amount is a sum of products of counts and prices.
  \<^item> \<open>Image_Concurrency\<close>: \<^verbatim>\<open>handler/image_concurrency_limiter.go\<close> as the interleavings of requests that wait for a slot: the
    limits on slots and on waiting hold in every reachable state, and no waiter misses the release it waits for.

  Loops.  Recursion is structural wherever the code ranges over a list.  The failure search of the keyword
  matcher has as fuel the number of nodes, which exceeds the depth of a failure chain because a failure link
  goes to a shorter string.  The chat completions loop has as fuel the number of attempts; \<open>failover_loop_bounded\<close> shows how
  many suffice and \<open>failover_loop_skips_unbounded\<close> that in one configuration none does.

  Atomicity.  Operations under a mutex and single SQL statements are one step each; what runs between two of
  them may be interleaved with the steps of others, which the lock, the circuits and the subscriptions state as
  sequences of steps.  The order in which Go visits a map is an argument wherever it matters.

  Not modelled: code that the entity framework generates; JSON rewriting of request bodies (gjson, sjson) and the
  translation between provider protocols; HTTP, WebSocket and goroutine plumbing; caches, queues and
  stores behind the schedulers; the price catalogue (an argument of the bill) and the prices of images, videos and audio; payments, which are transactions over
  several tables; authentication and cryptography; metrics and logs.  Records hold the fields that the
  modelled code reads or writes; \<^verbatim>\<open>nil\<close> receivers appear where the code treats them as a value.
\<close>

end
